(* ===== verification/OB_Prelude.thy ===== *)
theory OB_Prelude
  imports Complex_Main "HOL-Library.List_Lexorder" "HOL-Library.Char_ord" "HOL-Library.Sublist"
begin

text \<open>
  The prelude of the development: the types every component shares (byte strings, results,
  stateful actions), the operations of the Rust standard library that the sources use on
  strings, lists and hash maps, 64-bit signed wrap-around, and the generic lemmas about them.
  A Rust \<open>String\<close> is the list of its UTF-8 bytes (one \<^typ>\<open>char\<close> per byte), so \<open>length\<close> is
  Rust's \<open>len()\<close> and the order on \<^typ>\<open>string\<close> is Rust's byte-wise order of \<open>str\<close>.
\<close>

named_theorems ob_defs \<open>definitions that component proofs unfold\<close>
named_theorems str_simps \<open>facts about the string operations\<close>
named_theorems act_simps \<open>unfolding rules for results and actions\<close>

subsection \<open>Results and stateful actions\<close>

text \<open>
  \<open>Result<T, E>\<close> is a sum with the error on the left; \<open>rbind\<close> is the \<open>?\<close> operator. An action is
  code that reads and writes a state and may fail; \<open>abind\<close> runs the second action on the state
  the first one left, unless the first one failed.
\<close>

type_synonym ('s, 'e, 'a) action = "'s \<Rightarrow> ('e + 'a) \<times> 's"

definition rbind :: "'e + 'a \<Rightarrow> ('a \<Rightarrow> 'e + 'b) \<Rightarrow> 'e + 'b" where
  "rbind r f = (case r of Inl e \<Rightarrow> Inl e | Inr x \<Rightarrow> f x)"

definition map_err :: "('e \<Rightarrow> 'f) \<Rightarrow> 'e + 'a \<Rightarrow> 'f + 'a" where
  "map_err f r = (case r of Inl e \<Rightarrow> Inl (f e) | Inr x \<Rightarrow> Inr x)"

definition ok_or :: "'e \<Rightarrow> 'a option \<Rightarrow> 'e + 'a" where
  "ok_or e v = (case v of None \<Rightarrow> Inl e | Some x \<Rightarrow> Inr x)"

definition is_ok :: "'e + 'a \<Rightarrow> bool" where
  "is_ok r = (case r of Inl _ \<Rightarrow> False | Inr _ \<Rightarrow> True)"

definition areturn :: "'a \<Rightarrow> ('s, 'e, 'a) action" where
  "areturn x = (\<lambda>s. (Inr x, s))"

definition athrow :: "'e \<Rightarrow> ('s, 'e, 'a) action" where
  "athrow e = (\<lambda>s. (Inl e, s))"

definition alift :: "'e + 'a \<Rightarrow> ('s, 'e, 'a) action" where
  "alift r = (\<lambda>s. (r, s))"

definition abind :: "('s, 'e, 'a) action \<Rightarrow> ('a \<Rightarrow> ('s, 'e, 'b) action) \<Rightarrow> ('s, 'e, 'b) action" where
  "abind m f = (\<lambda>s. case m s of (Inl e, s') \<Rightarrow> (Inl e, s') | (Inr x, s') \<Rightarrow> f x s')"

text \<open>\<open>let _ = action.await;\<close> and \<open>match action.await\<close>: the action's outcome as a value.\<close>

definition atry :: "('s, 'e, 'a) action \<Rightarrow> ('s, 'e, 'e + 'a) action" where
  "atry m = (\<lambda>s. case m s of (r, s') \<Rightarrow> (Inr r, s'))"

definition amap_err :: "('e \<Rightarrow> 'f) \<Rightarrow> ('s, 'e, 'a) action \<Rightarrow> ('s, 'f, 'a) action" where
  "amap_err f m = (\<lambda>s. case m s of (r, s') \<Rightarrow> (map_err f r, s'))"

lemma rbind_simps [simp, act_simps]:
  "rbind (Inl e) f = Inl e"
  "rbind (Inr x) f = f x"
  by (simp_all add: rbind_def)

lemma map_err_simps [simp, act_simps]:
  "map_err f (Inl e) = Inl (f e)"
  "map_err f (Inr x) = Inr x"
  by (simp_all add: map_err_def)

lemma ok_or_simps [simp, act_simps]:
  "ok_or e None = Inl e"
  "ok_or e (Some x) = Inr x"
  by (simp_all add: ok_or_def)

lemma is_ok_simps [simp, act_simps]:
  "is_ok (Inl e) = False"
  "is_ok (Inr x) = True"
  by (simp_all add: is_ok_def)

lemma rbind_eq_Inr [act_simps]: "rbind r f = Inr y \<longleftrightarrow> (\<exists>x. r = Inr x \<and> f x = Inr y)"
  by (cases r) auto

lemma ok_or_eq_Inr [act_simps]: "ok_or e v = Inr x \<longleftrightarrow> v = Some x"
  by (cases v) auto

lemma areturn_apply [simp, act_simps]: "areturn x s = (Inr x, s)"
  by (simp add: areturn_def)

lemma athrow_apply [simp, act_simps]: "athrow e s = (Inl e, s)"
  by (simp add: athrow_def)

lemma alift_apply [simp, act_simps]: "alift r s = (r, s)"
  by (simp add: alift_def)

lemma abind_eq_Inr [act_simps]:
  "abind m f s = (Inr y, t) \<longleftrightarrow> (\<exists>x u. m s = (Inr x, u) \<and> f x u = (Inr y, t))"
  by (auto simp: abind_def split: prod.splits sum.splits)

lemma abind_areturn [simp]: "abind (areturn x) f s = f x s"
  by (simp add: abind_def)

lemma abind_athrow [simp]: "abind (athrow e) f s = (Inl e, s)"
  by (simp add: abind_def)

lemma abind_alift [simp]:
  "abind (alift r) f s = (case r of Inl e \<Rightarrow> (Inl e, s) | Inr x \<Rightarrow> f x s)"
  by (simp add: abind_def split: sum.splits)

text \<open>\<open>iter.map(f).collect::<Result<Vec<_>, _>>()\<close>: the first error, or all results in order.\<close>

fun rmap :: "('a \<Rightarrow> 'e + 'b) \<Rightarrow> 'a list \<Rightarrow> 'e + 'b list" where
  "rmap f [] = Inr []"
| "rmap f (x # xs) = rbind (f x) (\<lambda>y. rbind (rmap f xs) (\<lambda>ys. Inr (y # ys)))"

lemma rmap_cong [fundef_cong]:
  "xs = ys \<Longrightarrow> (\<And>x. x \<in> set ys \<Longrightarrow> f x = g x) \<Longrightarrow> rmap f xs = rmap g ys"
  by (induction xs arbitrary: ys) auto

lemma rmap_Inr: "(\<And>x. x \<in> set xs \<Longrightarrow> f x = Inr (g x)) \<Longrightarrow> rmap f xs = Inr (map g xs)"
  by (induction xs) auto

lemma rmap_ok: "(\<And>x. x \<in> set xs \<Longrightarrow> \<exists>y. f x = Inr y) \<Longrightarrow> \<exists>ys. rmap f xs = Inr ys"
proof (induction xs)
  case (Cons x xs)
  then obtain y ys where "f x = Inr y" "rmap f xs = Inr ys" by (metis list.set_intros)
  then show ?case by simp
qed simp

text \<open>
  A property of the state that every action of a sequence keeps is kept by the sequence: the
  rule behind all frame and invariant proofs about handlers.
\<close>

definition preserves :: "('s \<Rightarrow> bool) \<Rightarrow> ('s, 'e, 'a) action \<Rightarrow> bool" where
  "preserves P m \<longleftrightarrow> (\<forall>s. P s \<longrightarrow> P (snd (m s)))"

lemma preserves_areturn [intro]: "preserves P (areturn x)"
  by (simp add: preserves_def)

lemma preserves_athrow [intro]: "preserves P (athrow e)"
  by (simp add: preserves_def)

lemma preserves_alift [intro]: "preserves P (alift r)"
  by (simp add: preserves_def)

lemma preserves_abind [intro]:
  assumes "preserves P m" and "\<And>x. preserves P (f x)"
  shows "preserves P (abind m f)"
  unfolding preserves_def
proof (intro allI impI)
  fix s assume "P s"
  with assms(1) have s': "P (snd (m s))" by (simp add: preserves_def)
  show "P (snd (abind m f s))"
  proof (cases "m s")
    case (Pair r s'')
    with s' assms(2) show ?thesis by (cases r) (auto simp: abind_def preserves_def)
  qed
qed

lemma preserves_atry [intro]: "preserves P m \<Longrightarrow> preserves P (atry m)"
  by (auto simp: preserves_def atry_def split: prod.splits)

lemma preserves_amap_err [intro]: "preserves P m \<Longrightarrow> preserves P (amap_err f m)"
  by (auto simp: preserves_def amap_err_def split: prod.splits)

subsection \<open>ASCII classes and string operations of the standard library\<close>

definition byte :: "char \<Rightarrow> nat" where
  "byte c = of_char c"

definition is_ascii_digit :: "char \<Rightarrow> bool" where
  "is_ascii_digit c \<longleftrightarrow> 48 \<le> byte c \<and> byte c \<le> 57"

definition is_ascii_uppercase :: "char \<Rightarrow> bool" where
  "is_ascii_uppercase c \<longleftrightarrow> 65 \<le> byte c \<and> byte c \<le> 90"

definition is_ascii_lowercase :: "char \<Rightarrow> bool" where
  "is_ascii_lowercase c \<longleftrightarrow> 97 \<le> byte c \<and> byte c \<le> 122"

definition is_ascii_alphabetic :: "char \<Rightarrow> bool" where
  "is_ascii_alphabetic c \<longleftrightarrow> is_ascii_uppercase c \<or> is_ascii_lowercase c"

definition is_ascii_alphanumeric :: "char \<Rightarrow> bool" where
  "is_ascii_alphanumeric c \<longleftrightarrow> is_ascii_alphabetic c \<or> is_ascii_digit c"

lemmas ascii_defs [ob_defs] = is_ascii_digit_def is_ascii_uppercase_def is_ascii_lowercase_def
  is_ascii_alphabetic_def is_ascii_alphanumeric_def byte_def

text \<open>\<open>s.split(c)\<close>: never empty, and \<open>"".split(c)\<close> yields one empty piece.\<close>

fun split_on :: "char \<Rightarrow> string \<Rightarrow> string list" where
  "split_on c [] = [[]]"
| "split_on c (x # xs) =
     (if x = c then [] # split_on c xs
      else (case split_on c xs of [] \<Rightarrow> [[x]] | p # ps \<Rightarrow> (x # p) # ps))"

fun join :: "string \<Rightarrow> string list \<Rightarrow> string" where
  "join sep [] = []"
| "join sep [s] = s"
| "join sep (s # t # ss) = s @ sep @ join sep (t # ss)"

definition starts_with :: "string \<Rightarrow> string \<Rightarrow> bool" where
  "starts_with p s \<longleftrightarrow> take (length p) s = p"

definition strip_prefix :: "string \<Rightarrow> string \<Rightarrow> string option" where
  "strip_prefix p s = (if starts_with p s then Some (drop (length p) s) else None)"

definition ends_with :: "string \<Rightarrow> string \<Rightarrow> bool" where
  "ends_with p s \<longleftrightarrow> length p \<le> length s \<and> drop (length s - length p) s = p"

definition strip_suffix :: "string \<Rightarrow> string \<Rightarrow> string option" where
  "strip_suffix p s = (if ends_with p s then Some (take (length s - length p) s) else None)"

text \<open>\<open>s.replace(pat, rep)\<close> for a non-empty \<open>&str\<close> pattern: left to right, no overlaps.\<close>

fun replace_str :: "string \<Rightarrow> string \<Rightarrow> string \<Rightarrow> string" where
  "replace_str pat rep [] = []"
| "replace_str pat rep (c # cs) =
     (if pat \<noteq> [] \<and> starts_with pat (c # cs)
      then rep @ replace_str pat rep (drop (length pat - 1) cs)
      else c # replace_str pat rep cs)"

text \<open>\<open>s.replace(c, rep)\<close> for a \<open>char\<close> pattern.\<close>

definition replace_char :: "char \<Rightarrow> string \<Rightarrow> string \<Rightarrow> string" where
  "replace_char c rep s = concat (map (\<lambda>x. if x = c then rep else [x]) s)"

definition trim_start_matches :: "char \<Rightarrow> string \<Rightarrow> string" where
  "trim_start_matches c s = dropWhile (\<lambda>x. x = c) s"

definition trim_end_matches :: "char \<Rightarrow> string \<Rightarrow> string" where
  "trim_end_matches c s = rev (dropWhile (\<lambda>x. x = c) (rev s))"

lemma split_on_not_Nil [simp]: "split_on c s \<noteq> []"
  by (induction s) (auto split: list.splits)

lemma join_split_on [str_simps]: "join [c] (split_on c s) = s"
proof (induction s)
  case (Cons x xs)
  show ?case
  proof (cases "split_on c xs")
    case (Cons p ps)
    with Cons.IH show ?thesis by (cases ps) auto
  qed simp
qed simp

lemma split_on_pieces: "p \<in> set (split_on c s) \<Longrightarrow> c \<notin> set p"
proof (induction s arbitrary: p)
  case (Cons x xs)
  then show ?case by (cases "split_on c xs") (auto split: if_splits)
qed simp

lemma starts_with_iff_prefix [str_simps]: "starts_with p s \<longleftrightarrow> prefix p s"
  by (metis starts_with_def append_take_drop_id append_eq_conv_conj prefix_def)

lemma strip_prefix_Some [str_simps]: "strip_prefix p s = Some r \<longleftrightarrow> s = p @ r"
  by (auto simp: strip_prefix_def starts_with_def)
    (metis append_take_drop_id)

lemma strip_prefix_append [simp]: "strip_prefix p (p @ s) = Some s"
  by (simp add: strip_prefix_Some)

lemma set_replace_char:
  "set (replace_char c rep s) \<subseteq> (set s - {c}) \<union> set rep"
  by (auto simp: replace_char_def split: if_splits)

lemma replace_char_append [str_simps]:
  "replace_char c rep (s @ t) = replace_char c rep s @ replace_char c rep t"
  by (simp add: replace_char_def)

lemma replace_char_simps [simp]:
  "replace_char c rep [] = []"
  "replace_char c rep (x # xs) = (if x = c then rep else [x]) @ replace_char c rep xs"
  by (simp_all add: replace_char_def)

lemma replace_char_no_occurrence: "c \<notin> set s \<Longrightarrow> replace_char c rep s = s"
  by (induction s) auto

lemma set_replace_str_Nil: "set (replace_str pat [] s) \<subseteq> set s"
  by (induction pat "[] :: string" s rule: replace_str.induct) (auto dest: in_set_dropD)

lemma length_replace_str_Nil: "length (replace_str pat [] s) \<le> length s"
  by (induction pat "[] :: string" s rule: replace_str.induct) auto

lemma replace_str_fixpoint:
  assumes "pat \<noteq> []"
  shows "replace_str pat [] s = s \<longleftrightarrow> \<not> sublist pat s"
proof (induction s)
  case Nil
  then show ?case using assms by simp
next
  case (Cons c cs)
  show ?case
  proof (cases "starts_with pat (c # cs)")
    case True
    have "length (replace_str pat [] (c # cs)) \<le> length (drop (length pat - 1) cs)"
      using assms True length_replace_str_Nil [of pat "drop (length pat - 1) cs"] by simp
    then have "replace_str pat [] (c # cs) \<noteq> c # cs" by (auto dest: arg_cong [of _ _ length])
    moreover have "sublist pat (c # cs)"
      using True by (auto simp: starts_with_iff_prefix)
    ultimately show ?thesis by blast
  next
    case False
    then have "\<not> prefix pat (c # cs)" by (simp add: starts_with_iff_prefix)
    then show ?thesis using False Cons.IH assms by (auto simp: sublist_Cons_right)
  qed
qed

lemma length_trim_start: "length (trim_start_matches c s) \<le> length s"
  by (simp add: trim_start_matches_def length_dropWhile_le)

lemma trim_start_matches_hd:
  "trim_start_matches c s = x # xs \<Longrightarrow> x \<noteq> c"
proof -
  assume eq: "trim_start_matches c s = x # xs"
  have "\<not> (\<lambda>y. y = c) (hd (dropWhile (\<lambda>y. y = c) s))"
    by (rule hd_dropWhile) (use eq in \<open>simp add: trim_start_matches_def\<close>)
  with eq show "x \<noteq> c" by (simp add: trim_start_matches_def)
qed

lemma suffix_trim_start [intro]: "suffix (trim_start_matches c s) s"
  by (simp add: trim_start_matches_def suffix_dropWhile)

subsection \<open>Decimal printing and parsing of unsigned integers\<close>

text \<open>\<open>n.to_string()\<close> for unsigned integers, and \<open>s.parse\<close> for a type with bound \<open>bound\<close>: an
  optional \<open>+\<close>, at least one digit, and a value below the bound.\<close>

definition digit_char :: "nat \<Rightarrow> char" where
  "digit_char d = char_of (48 + d)"

fun nat_to_string :: "nat \<Rightarrow> string" where
  "nat_to_string n =
     (if n < 10 then [digit_char n] else nat_to_string (n div 10) @ [digit_char (n mod 10)])"

declare nat_to_string.simps [simp del]

fun digits_value :: "nat \<Rightarrow> string \<Rightarrow> nat option" where
  "digits_value acc [] = Some acc"
| "digits_value acc (c # cs) =
     (if is_ascii_digit c then digits_value (10 * acc + (byte c - 48)) cs else None)"

definition parse_unsigned :: "nat \<Rightarrow> string \<Rightarrow> nat option" where
  "parse_unsigned bound s =
     (let ds = (case s of [] \<Rightarrow> [] | c # cs \<Rightarrow> if c = CHR ''+'' then cs else s)
      in if ds = [] then None
         else (case digits_value 0 ds of None \<Rightarrow> None
               | Some n \<Rightarrow> if n < bound then Some n else None))"

abbreviation parse_u32 :: "string \<Rightarrow> nat option" where
  "parse_u32 \<equiv> parse_unsigned (2 ^ 32)"

abbreviation parse_u64 :: "string \<Rightarrow> nat option" where
  "parse_u64 \<equiv> parse_unsigned (2 ^ 64)"

lemma byte_digit_char [simp]: "d < 10 \<Longrightarrow> byte (digit_char d) = 48 + d"
  by (simp add: byte_def digit_char_def)

lemma digit_char_is_digit [simp]: "d < 10 \<Longrightarrow> is_ascii_digit (digit_char d)"
  by (simp add: is_ascii_digit_def)

lemma digits_value_append:
  "digits_value acc (s @ t) =
     (case digits_value acc s of None \<Rightarrow> None | Some a \<Rightarrow> digits_value a t)"
  by (induction acc s rule: digits_value.induct) auto

lemma nat_to_string_digits: "c \<in> set (nat_to_string n) \<Longrightarrow> is_ascii_digit c"
proof (induction n rule: nat_to_string.induct)
  case (1 n)
  then show ?case by (subst (asm) (2) nat_to_string.simps) (auto split: if_splits)
qed

lemma nat_to_string_not_Nil [simp]: "nat_to_string n \<noteq> []"
  by (subst nat_to_string.simps) simp

lemma digits_value_nat_to_string: "digits_value 0 (nat_to_string n) = Some n"
proof (induction n rule: nat_to_string.induct)
  case (1 n)
  show ?case
  proof (cases "n < 10")
    case True
    then show ?thesis by (subst nat_to_string.simps) simp
  next
    case False
    with 1 have "digits_value 0 (nat_to_string (n div 10)) = Some (n div 10)" by simp
    with False show ?thesis by (subst nat_to_string.simps) (simp add: digits_value_append)
  qed
qed

lemma plus_not_digit [simp]: "\<not> is_ascii_digit (CHR ''+'')"
  by (simp add: is_ascii_digit_def byte_def)

lemma parse_unsigned_roundtrip: "n < bound \<Longrightarrow> parse_unsigned bound (nat_to_string n) = Some n"
proof -
  assume n: "n < bound"
  obtain c cs where s: "nat_to_string n = c # cs" by (cases "nat_to_string n") auto
  have "is_ascii_digit c" using nat_to_string_digits [of c n] s by simp
  then have "c \<noteq> CHR ''+''" by auto
  then show ?thesis
    using n s digits_value_nat_to_string [of n] by (simp add: parse_unsigned_def Let_def)
qed

lemma parse_unsigned_lt: "parse_unsigned bound s = Some n \<Longrightarrow> n < bound"
  by (auto simp: parse_unsigned_def Let_def split: if_splits option.splits list.splits)

subsection \<open>Signed 64-bit arithmetic\<close>

text \<open>
  \<open>i64\<close> values are integers kept in \<open>[-2^63, 2^63)\<close> by writing the wrap-around of the release
  build out at every operation that can leave the range; division truncates towards zero.
\<close>

definition wrap_i64 :: "int \<Rightarrow> int" where
  "wrap_i64 x = (x + 2 ^ 63) mod 2 ^ 64 - 2 ^ 63"

definition i64_range :: "int \<Rightarrow> bool" where
  "i64_range x \<longleftrightarrow> - (2 ^ 63) \<le> x \<and> x < 2 ^ 63"

definition i64_div :: "int \<Rightarrow> int \<Rightarrow> int" where
  "i64_div a b = wrap_i64 (sgn a * sgn b * (\<bar>a\<bar> div \<bar>b\<bar>))"

lemma wrap_i64_id [simp]: "i64_range x \<Longrightarrow> wrap_i64 x = x"
  by (simp add: wrap_i64_def i64_range_def)

lemma wrap_i64_range [simp, intro]: "i64_range (wrap_i64 x)"
proof -
  have "0 \<le> (x + 2 ^ 63) mod 2 ^ 64" and "(x + 2 ^ 63) mod 2 ^ 64 < (2 ^ 64 :: int)"
    by (simp_all add: pos_mod_bound)
  then show ?thesis by (simp add: wrap_i64_def i64_range_def)
qed

lemma i64_div_nonneg:
  assumes "0 \<le> a" "0 < b" "i64_range a"
  shows "i64_div a b = a div b"
proof -
  have "sgn a * sgn b * (\<bar>a\<bar> div \<bar>b\<bar>) = a div b"
    using assms by (cases "a = 0") (simp_all add: sgn_if)
  moreover have "0 \<le> a div b" "a div b \<le> a"
    using assms zdiv_mono2 [of a 1 b] by (simp_all add: pos_imp_zdiv_nonneg_iff)
  then have "i64_range (a div b)" using assms by (simp add: i64_range_def)
  ultimately show ?thesis by (simp add: i64_div_def)
qed

subsection \<open>Association lists as hash maps\<close>

text \<open>
  A \<open>HashMap\<close> or \<open>DashMap\<close> whose iteration order matters to nothing is kept as an association
  list with distinct keys: \<open>hm_insert\<close> is \<open>insert\<close>, \<open>hm_remove\<close> is \<open>remove\<close>, \<open>map_of\<close> is \<open>get\<close>.
\<close>

fun hm_insert :: "'k \<Rightarrow> 'v \<Rightarrow> ('k \<times> 'v) list \<Rightarrow> ('k \<times> 'v) list" where
  "hm_insert k v [] = [(k, v)]"
| "hm_insert k v ((k', v') # m) =
     (if k = k' then (k, v) # m else (k', v') # hm_insert k v m)"

definition hm_remove :: "'k \<Rightarrow> ('k \<times> 'v) list \<Rightarrow> ('k \<times> 'v) list" where
  "hm_remove k m = filter (\<lambda>p. fst p \<noteq> k) m"

definition hm_ok :: "('k \<times> 'v) list \<Rightarrow> bool" where
  "hm_ok m \<longleftrightarrow> distinct (map fst m)"

lemma map_of_hm_insert [simp]: "map_of (hm_insert k v m) = (map_of m)(k \<mapsto> v)"
  by (induction k v m rule: hm_insert.induct) (auto simp: fun_eq_iff)

lemma keys_hm_insert [simp]: "fst ` set (hm_insert k v m) = insert k (fst ` set m)"
  by (induction k v m rule: hm_insert.induct) auto

lemma map_of_hm_remove [simp]: "map_of (hm_remove k m) = (map_of m)(k := None)"
  by (induction m) (auto simp: hm_remove_def fun_eq_iff)

lemma hm_ok_Nil [simp, intro]: "hm_ok []"
  by (simp add: hm_ok_def)

lemma hm_ok_insert [simp, intro]: "hm_ok m \<Longrightarrow> hm_ok (hm_insert k v m)"
proof (induction k v m rule: hm_insert.induct)
  case (2 k v k' v' m)
  then show ?case
    using keys_hm_insert [of k v m] by (auto simp: hm_ok_def)
qed (simp add: hm_ok_def)

lemma hm_ok_filter [simp, intro]: "hm_ok m \<Longrightarrow> hm_ok (filter P m)"
  by (simp add: hm_ok_def distinct_map_filter)

lemma hm_ok_remove [simp, intro]: "hm_ok m \<Longrightarrow> hm_ok (hm_remove k m)"
  by (simp add: hm_remove_def)

lemma hm_mem_iff: "hm_ok m \<Longrightarrow> (k, v) \<in> set m \<longleftrightarrow> map_of m k = Some v"
  by (simp add: hm_ok_def)

lemma length_hm_insert:
  "hm_ok m \<Longrightarrow> length (hm_insert k v m) = (if map_of m k = None then Suc (length m) else length m)"
proof (induction k v m rule: hm_insert.induct)
  case (2 k v k' v' m)
  then show ?case by (auto simp: hm_ok_def)
qed simp

end
