(* ===== verification/F64.thy ===== *)
theory F64
  imports OB_Prelude "HOL-Library.Log_Nat"
begin

text \<open>
  The IEEE 754 double precision arithmetic behind Rust's \<open>f64\<close>: a finite value is the rational
  number it denotes (the sign of a zero is not kept: no operation used by the sources can
  observe it), and every operation rounds its exact result to the nearest representable value,
  ties to even, overflowing to an infinity. Used for the number literals of the security rules,
  for JSON numbers read as \<open>f64\<close>, for coupon percentages and for shipping weights.
\<close>

datatype f64 = Finite rat | PosInf | NegInf | NaN

definition round_half_even :: "rat \<Rightarrow> int" where
  "round_half_even x =
     (let f = \<lfloor>x\<rfloor>; r = x - of_int f
      in if r < 1 / 2 then f else if 1 / 2 < r then f + 1 else if even f then f else f + 1)"

text \<open>The binary exponent of a positive rational, from the bit lengths of its fraction.\<close>

definition ilog2 :: "rat \<Rightarrow> int" where
  "ilog2 x =
     (let (n, d) = quotient_of x; e = bitlen n - bitlen d
      in if x < 2 powi e then e - 1 else e)"

text \<open>The exponent of the last place: 53 significant bits, bounded below by the subnormals.\<close>

definition ulp_exp :: "rat \<Rightarrow> int" where
  "ulp_exp x = max (ilog2 \<bar>x\<bar>) (- 1022) - 52"

definition round_f64 :: "rat \<Rightarrow> rat" where
  "round_f64 x =
     (if x = 0 then 0
      else let q = 2 powi (ulp_exp x) in of_int (round_half_even (x / q)) * q)"

definition f64_of_rat :: "rat \<Rightarrow> f64" where
  "f64_of_rat x =
     (let r = round_f64 x
      in if 2 ^ 1024 \<le> r then PosInf else if r \<le> - (2 ^ 1024) then NegInf else Finite r)"

definition f64_of_int :: "int \<Rightarrow> f64" where
  "f64_of_int n = f64_of_rat (of_int n)"

fun f64_lt :: "f64 \<Rightarrow> f64 \<Rightarrow> bool" where
  "f64_lt NaN _ = False"
| "f64_lt _ NaN = False"
| "f64_lt PosInf _ = False"
| "f64_lt _ NegInf = False"
| "f64_lt NegInf _ = True"
| "f64_lt _ PosInf = True"
| "f64_lt (Finite x) (Finite y) = (x < y)"

fun f64_eq :: "f64 \<Rightarrow> f64 \<Rightarrow> bool" where
  "f64_eq NaN _ = False"
| "f64_eq _ NaN = False"
| "f64_eq x y = (x = y)"

definition f64_le :: "f64 \<Rightarrow> f64 \<Rightarrow> bool" where
  "f64_le x y \<longleftrightarrow> f64_lt x y \<or> f64_eq x y"

text \<open>\<open>f64::min\<close> and \<open>f64::max\<close>: a NaN operand is ignored.\<close>

definition f64_min :: "f64 \<Rightarrow> f64 \<Rightarrow> f64" where
  "f64_min x y = (if x = NaN then y else if y = NaN then x else if f64_lt y x then y else x)"

definition f64_max :: "f64 \<Rightarrow> f64 \<Rightarrow> f64" where
  "f64_max x y = (if x = NaN then y else if y = NaN then x else if f64_lt x y then y else x)"

definition f64_inf :: "bool \<Rightarrow> f64" where
  "f64_inf positive = (if positive then PosInf else NegInf)"

fun f64_mul :: "f64 \<Rightarrow> f64 \<Rightarrow> f64" where
  "f64_mul NaN _ = NaN"
| "f64_mul _ NaN = NaN"
| "f64_mul (Finite x) (Finite y) = f64_of_rat (x * y)"
| "f64_mul (Finite x) PosInf = (if x = 0 then NaN else f64_inf (0 < x))"
| "f64_mul (Finite x) NegInf = (if x = 0 then NaN else f64_inf (x < 0))"
| "f64_mul PosInf (Finite y) = (if y = 0 then NaN else f64_inf (0 < y))"
| "f64_mul NegInf (Finite y) = (if y = 0 then NaN else f64_inf (y < 0))"
| "f64_mul PosInf PosInf = PosInf"
| "f64_mul NegInf NegInf = PosInf"
| "f64_mul PosInf NegInf = NegInf"
| "f64_mul NegInf PosInf = NegInf"

text \<open>Division and subtraction by a finite, non-zero constant: all the sources need.\<close>

fun f64_div_const :: "f64 \<Rightarrow> rat \<Rightarrow> f64" where
  "f64_div_const (Finite x) c = f64_of_rat (x / c)"
| "f64_div_const PosInf c = f64_inf (0 < c)"
| "f64_div_const NegInf c = f64_inf (c < 0)"
| "f64_div_const NaN c = NaN"

fun f64_sub_const :: "f64 \<Rightarrow> rat \<Rightarrow> f64" where
  "f64_sub_const (Finite x) c = f64_of_rat (x - c)"
| "f64_sub_const PosInf c = PosInf"
| "f64_sub_const NegInf c = NegInf"
| "f64_sub_const NaN c = NaN"

text \<open>\<open>x.round()\<close> (ties away from zero) and \<open>x as i64\<close> (truncating, saturating, NaN to 0).\<close>

definition round_half_away :: "rat \<Rightarrow> int" where
  "round_half_away x = (if 0 \<le> x then \<lfloor>x + 1 / 2\<rfloor> else - \<lfloor>1 / 2 - x\<rfloor>)"

fun f64_round :: "f64 \<Rightarrow> f64" where
  "f64_round (Finite x) = f64_of_int (round_half_away x)"
| "f64_round y = y"

definition trunc_rat :: "rat \<Rightarrow> int" where
  "trunc_rat x = (if 0 \<le> x then \<lfloor>x\<rfloor> else - \<lfloor>- x\<rfloor>)"

fun f64_as_i64 :: "f64 \<Rightarrow> int" where
  "f64_as_i64 (Finite x) = max (- (2 ^ 63)) (min (2 ^ 63 - 1) (trunc_rat x))"
| "f64_as_i64 PosInf = 2 ^ 63 - 1"
| "f64_as_i64 NegInf = - (2 ^ 63)"
| "f64_as_i64 NaN = 0"

subsection \<open>Facts about rounding\<close>

lemma f64_as_i64_range [simp, intro]: "i64_range (f64_as_i64 x)"
  by (cases x) (auto simp: i64_range_def)

lemma round_half_even_of_int [simp]: "round_half_even (of_int n) = n"
  by (simp add: round_half_even_def)

lemma round_half_even_bounds:
  "\<lfloor>x\<rfloor> \<le> round_half_even x" "round_half_even x \<le> \<lfloor>x\<rfloor> + 1"
  by (simp_all add: round_half_even_def Let_def)

lemma round_half_even_le_int:
  assumes "x \<le> of_int k" shows "round_half_even x \<le> k"
proof (cases "x = of_int k")
  case False
  with assms have "\<lfloor>x\<rfloor> < k" by (simp add: floor_less_iff)
  with round_half_even_bounds(2) [of x] show ?thesis by linarith
qed simp

lemma round_half_even_ge_int:
  assumes "of_int k \<le> x" shows "k \<le> round_half_even x"
  using round_half_even_bounds(1) [of x] assms le_floor_iff [of k x] by linarith

lemma powi_pos_rat [simp]: "(0 :: rat) < 2 powi e"
  by (simp add: zero_less_power_int)

text \<open>The computed exponent brackets the value.\<close>

lemma bitlen_bracket:
  assumes "0 < n"
  shows "(2 :: rat) powi (bitlen n - 1) \<le> of_int n" "of_int n < (2 :: rat) powi bitlen n"
proof -
  have b: "2 ^ nat (bitlen n - 1) \<le> n \<and> n < 2 ^ nat (bitlen n)"
    using bitlen_bounds [OF assms] .
  have p: "0 < bitlen n" using assms bitlen_nonneg [of n] bitlen_eq_zero_iff [of n] by linarith
  have "(of_int (2 ^ nat (bitlen n - 1)) :: rat) \<le> of_int n" using b by (simp only: of_int_le_iff)
  then show "(2 :: rat) powi (bitlen n - 1) \<le> of_int n"
    using p by (simp add: power_int_def)
  have "(of_int n :: rat) < of_int (2 ^ nat (bitlen n))" using b by (simp only: of_int_less_iff)
  then show "of_int n < (2 :: rat) powi bitlen n"
    using p by (simp add: power_int_def)
qed

lemma ilog2_upper:
  assumes "0 < x" shows "x < 2 powi (ilog2 x + 1)"
proof -
  obtain n d where nd: "quotient_of x = (n, d)" by (cases "quotient_of x")
  then have d: "0 < d" and x: "x = of_int n / of_int d"
    by (simp_all add: quotient_of_denom_pos quotient_of_div)
  then have n: "0 < n" using assms by (simp add: zero_less_divide_iff)
  have "x < 2 powi bitlen n / 2 powi (bitlen d - 1)"
    unfolding x
    by (rule frac_less) (use bitlen_bracket [OF n] bitlen_bracket [OF d] n in auto)
  also have "\<dots> = 2 powi (bitlen n - bitlen d + 1)"
    by (simp add: power_int_diff power_int_add)
  finally show ?thesis by (auto simp: ilog2_def nd Let_def)
qed

lemma ilog2_lower:
  assumes "0 < x" shows "2 powi (ilog2 x) \<le> x"
proof -
  obtain n d where nd: "quotient_of x = (n, d)" by (cases "quotient_of x")
  then have d: "0 < d" and x: "x = of_int n / of_int d"
    by (simp_all add: quotient_of_denom_pos quotient_of_div)
  then have n: "0 < n" using assms by (simp add: zero_less_divide_iff)
  have "2 powi (bitlen n - 1) / 2 powi bitlen d \<le> x"
    unfolding x
    by (rule frac_le) (use bitlen_bracket [OF n] bitlen_bracket [OF d] n d in \<open>auto intro: less_imp_le\<close>)
  moreover have "2 powi (bitlen n - 1) / 2 powi bitlen d = (2 :: rat) powi (bitlen n - bitlen d - 1)"
    by (simp add: power_int_diff)
  ultimately show ?thesis by (auto simp: ilog2_def nd Let_def)
qed

lemma ilog2_less:
  assumes "0 < x" "x < 2 powi k" shows "ilog2 x < k"
proof (rule ccontr)
  assume "\<not> ilog2 x < k"
  then have "(2 :: rat) powi k \<le> 2 powi ilog2 x" by (simp add: power_int_increasing)
  with ilog2_lower [OF assms(1)] assms(2) show False by linarith
qed

text \<open>
  Rounding never crosses a representable integer: this is what bounds the results of the
  money and weight computations without evaluating them.
\<close>

lemma round_f64_integer_scale:
  assumes "x \<noteq> 0" "\<bar>x\<bar> < 2 ^ 53"
  obtains m where "(0 :: int) < m" "2 powi (ulp_exp x) * of_int m = (1 :: rat)"
proof -
  have "\<bar>x\<bar> < 2 powi 53" using assms(2) by (simp add: power_int_def)
  then have "ilog2 \<bar>x\<bar> < 53" using assms(1) by (intro ilog2_less) auto
  then have neg: "ulp_exp x \<le> 0" by (simp add: ulp_exp_def)
  define m where "m = (2 :: int) ^ nat (- ulp_exp x)"
  have "2 powi (ulp_exp x) * of_int m = (1 :: rat)"
    using neg by (simp add: m_def power_int_def field_simps)
  moreover have "0 < m" by (simp add: m_def)
  ultimately show ?thesis using that by blast
qed

lemma round_f64_le_int:
  assumes "x \<le> of_int k" "\<bar>x\<bar> < 2 ^ 53" shows "round_f64 x \<le> of_int k"
proof (cases "x = 0")
  case False
  obtain m where m: "0 < m" "2 powi (ulp_exp x) * of_int m = (1 :: rat)"
    using round_f64_integer_scale [OF False assms(2)] .
  let ?q = "2 powi (ulp_exp x) :: rat"
  have "x / ?q \<le> of_int (k * m)"
    using assms(1) m by (simp add: field_simps)
  then have "round_half_even (x / ?q) \<le> k * m" by (rule round_half_even_le_int)
  then have "of_int (round_half_even (x / ?q)) * ?q \<le> of_int (k * m) * ?q"
    by (intro mult_right_mono) (simp_all only: of_int_le_iff, simp)
  also have "\<dots> = of_int k" using m(2) by (simp add: mult.assoc mult.commute)
  finally show ?thesis using False by (simp add: round_f64_def Let_def)
qed (use assms in \<open>simp add: round_f64_def\<close>)

lemma round_f64_ge_int:
  assumes "of_int k \<le> x" "\<bar>x\<bar> < 2 ^ 53" shows "of_int k \<le> round_f64 x"
proof (cases "x = 0")
  case False
  obtain m where m: "0 < m" "2 powi (ulp_exp x) * of_int m = (1 :: rat)"
    using round_f64_integer_scale [OF False assms(2)] .
  let ?q = "2 powi (ulp_exp x) :: rat"
  have "of_int (k * m) \<le> x / ?q"
    using assms(1) m by (simp add: field_simps)
  then have "k * m \<le> round_half_even (x / ?q)" by (rule round_half_even_ge_int)
  then have le: "of_int (k * m) * ?q \<le> of_int (round_half_even (x / ?q)) * ?q"
    by (intro mult_right_mono) (simp_all only: of_int_le_iff, simp)
  have "of_int k = of_int (k * m) * ?q" using m(2) by (simp add: mult.assoc mult.commute)
  also note le
  finally show ?thesis using False by (simp add: round_f64_def Let_def)
qed (use assms in \<open>simp add: round_f64_def\<close>)

lemma round_f64_of_int: "\<bar>n\<bar> < 2 ^ 53 \<Longrightarrow> round_f64 (of_int n) = of_int n"
proof -
  assume n: "\<bar>n\<bar> < 2 ^ 53"
  have "(of_int \<bar>n\<bar> :: rat) < of_int (2 ^ 53)" using n by (simp only: of_int_less_iff)
  then have "\<bar>of_int n :: rat\<bar> < 2 ^ 53" by simp
  then show ?thesis
    using round_f64_le_int [of "of_int n" n] round_f64_ge_int [of n "of_int n"] by simp
qed

lemma f64_of_int_exact: "\<bar>n\<bar> < 2 ^ 53 \<Longrightarrow> f64_of_int n = Finite (of_int n)"
proof -
  assume n: "\<bar>n\<bar> < 2 ^ 53"
  then have "n < 2 ^ 1024" and "- (2 ^ 1024) < n"
    by (auto simp: abs_if split: if_splits intro: order.strict_trans)
  then have "(of_int n :: rat) < of_int (2 ^ 1024)" and "of_int (- (2 ^ 1024)) < (of_int n :: rat)"
    by (simp_all only: of_int_less_iff)
  then show ?thesis
    using n by (simp add: f64_of_int_def f64_of_rat_def round_f64_of_int Let_def)
qed

lemma round_half_away_le_int: "x \<le> of_int k \<Longrightarrow> round_half_away x \<le> k"
  by (auto simp: round_half_away_def) linarith+

lemma round_half_away_ge_int: "of_int k \<le> x \<Longrightarrow> k \<le> round_half_away x"
  by (auto simp: round_half_away_def) linarith+

end
