(* ===== verification/Json_Value.thy ===== *)
theory Json_Value
  imports F64
begin

text \<open>
  The document values of the platform: \<open>serde_json::Value\<close> as the sources use it. An object is
  a \<open>BTreeMap\<close> (the workspace enables no \<open>preserve_order\<close>), kept as an association list whose
  keys are strictly increasing; a number is one of serde's three representations, and two
  numbers in different representations are different values even when they denote the same
  quantity, which is what the derived \<open>PartialEq\<close> of \<open>serde_json::Number\<close> says.
\<close>

datatype number = PosInt nat | NegInt int | Float rat

datatype json =
    JNull
  | JBool bool
  | JNumber number
  | JString string
  | JArray "json list"
  | JObject "(string \<times> json) list"

type_synonym json_map = "(string \<times> json) list"

subsection \<open>Accessors\<close>

fun is_null :: "json \<Rightarrow> bool" where
  "is_null JNull = True"
| "is_null _ = False"

fun as_str :: "json \<Rightarrow> string option" where
  "as_str (JString s) = Some s"
| "as_str _ = None"

fun as_bool :: "json \<Rightarrow> bool option" where
  "as_bool (JBool b) = Some b"
| "as_bool _ = None"

fun as_array :: "json \<Rightarrow> json list option" where
  "as_array (JArray vs) = Some vs"
| "as_array _ = None"

fun as_object :: "json \<Rightarrow> json_map option" where
  "as_object (JObject m) = Some m"
| "as_object _ = None"

fun as_i64 :: "json \<Rightarrow> int option" where
  "as_i64 (JNumber (PosInt n)) = (if n < 2 ^ 63 then Some (int n) else None)"
| "as_i64 (JNumber (NegInt i)) = Some i"
| "as_i64 _ = None"

fun as_u64 :: "json \<Rightarrow> nat option" where
  "as_u64 (JNumber (PosInt n)) = Some n"
| "as_u64 _ = None"

fun number_as_f64 :: "number \<Rightarrow> f64" where
  "number_as_f64 (PosInt n) = f64_of_int (int n)"
| "number_as_f64 (NegInt i) = f64_of_int i"
| "number_as_f64 (Float x) = Finite x"

fun as_f64 :: "json \<Rightarrow> f64 option" where
  "as_f64 (JNumber n) = Some (number_as_f64 n)"
| "as_f64 _ = None"

text \<open>\<open>Number::from_f64\<close>: infinities and NaN have no JSON number.\<close>

fun number_from_f64 :: "f64 \<Rightarrow> number option" where
  "number_from_f64 (Finite x) = Some (Float x)"
| "number_from_f64 _ = None"

text \<open>\<open>json!(n)\<close> of a signed integer.\<close>

definition json_int :: "int \<Rightarrow> json" where
  "json_int i = JNumber (if 0 \<le> i then PosInt (nat i) else NegInt i)"

text \<open>\<open>value.get(key)\<close> with a string key: only objects have string-indexed members.\<close>

definition jget :: "string \<Rightarrow> json \<Rightarrow> json option" where
  "jget k v = (case v of JObject m \<Rightarrow> map_of m k | _ \<Rightarrow> None)"

text \<open>\<open>value.get(key).and_then(Value::as_str)\<close> and its companions.\<close>

definition jget_str :: "string \<Rightarrow> json \<Rightarrow> string option" where
  "jget_str k v = Option.bind (jget k v) as_str"

definition jget_i64 :: "string \<Rightarrow> json \<Rightarrow> int option" where
  "jget_i64 k v = Option.bind (jget k v) as_i64"

definition jget_bool :: "string \<Rightarrow> json \<Rightarrow> bool option" where
  "jget_bool k v = Option.bind (jget k v) as_bool"

definition jget_array :: "string \<Rightarrow> json \<Rightarrow> json list option" where
  "jget_array k v = Option.bind (jget k v) as_array"

lemmas jget_defs [ob_defs] = jget_def jget_str_def jget_i64_def jget_bool_def jget_array_def

subsection \<open>Object maps\<close>

fun obj_insert :: "string \<Rightarrow> json \<Rightarrow> json_map \<Rightarrow> json_map" where
  "obj_insert k v [] = [(k, v)]"
| "obj_insert k v ((k', v') # m) =
     (if k < k' then (k, v) # (k', v') # m
      else if k = k' then (k, v) # m
      else (k', v') # obj_insert k v m)"

definition obj_remove :: "string \<Rightarrow> json_map \<Rightarrow> json_map" where
  "obj_remove k m = filter (\<lambda>p. fst p \<noteq> k) m"

definition obj_ok :: "json_map \<Rightarrow> bool" where
  "obj_ok m \<longleftrightarrow> sorted_wrt (<) (map fst m)"

text \<open>\<open>json!({ ... })\<close>: the members inserted one after the other.\<close>

definition json_obj :: "(string \<times> json) list \<Rightarrow> json" where
  "json_obj kvs = JObject (fold (\<lambda>(k, v). obj_insert k v) kvs [])"

text \<open>\<open>value[key] = v\<close> on an object; on other values Rust panics and the sources never do it.\<close>

fun jset :: "string \<Rightarrow> json \<Rightarrow> json \<Rightarrow> json" where
  "jset k v (JObject m) = JObject (obj_insert k v m)"
| "jset k v JNull = JObject [(k, v)]"
| "jset k v j = j"

text \<open>PostgreSQL's \<open>a || b\<close> on objects, the merge of every document update: the members of \<open>b\<close>
  replace those of \<open>a\<close>.\<close>

definition obj_merge :: "json_map \<Rightarrow> json_map \<Rightarrow> json_map" where
  "obj_merge a b = fold (\<lambda>(k, v). obj_insert k v) b a"

text \<open>
  The well-formed values: increasing keys in every object, and every number in the range of its
  representation (\<open>u64\<close>, negative \<open>i64\<close>).
\<close>

fun json_ok :: "json \<Rightarrow> bool" where
  "json_ok (JNumber (PosInt n)) = (n < 2 ^ 64)"
| "json_ok (JNumber (NegInt i)) = (- (2 ^ 63) \<le> i \<and> i < 0)"
| "json_ok (JArray vs) = list_all json_ok vs"
| "json_ok (JObject m) = (obj_ok m \<and> list_all json_ok (map snd m))"
| "json_ok _ = True"

lemma map_of_obj_insert [simp]: "map_of (obj_insert k v m) = (map_of m)(k \<mapsto> v)"
  by (induction k v m rule: obj_insert.induct) (auto simp: fun_eq_iff)

lemma keys_obj_insert [simp]: "fst ` set (obj_insert k v m) = insert k (fst ` set m)"
  by (induction k v m rule: obj_insert.induct) auto

lemma obj_ok_Nil [simp, intro]: "obj_ok []"
  by (simp add: obj_ok_def)

lemma obj_ok_insert [simp, intro]: "obj_ok m \<Longrightarrow> obj_ok (obj_insert k v m)"
proof (induction k v m rule: obj_insert.induct)
  case (2 k v k' v' m)
  then have ok: "obj_ok m" and lt: "\<forall>x \<in> fst ` set m. k' < x" by (auto simp: obj_ok_def)
  show ?case
  proof (cases "k < k' \<or> k = k'")
    case True
    then show ?thesis using ok lt by (auto simp: obj_ok_def)
  next
    case False
    then have "k' < k" by auto
    then have "\<forall>x \<in> fst ` set (obj_insert k v m). k' < x" using lt by simp
    then show ?thesis using 2 ok False by (auto simp: obj_ok_def)
  qed
qed (simp add: obj_ok_def)

lemma obj_ok_distinct: "obj_ok m \<Longrightarrow> distinct (map fst m)"
  by (simp add: obj_ok_def strict_sorted_iff)

lemma obj_ok_filter [simp, intro]: "obj_ok m \<Longrightarrow> obj_ok (filter P m)"
  by (induction m) (auto simp: obj_ok_def)

lemma map_of_obj_remove [simp]: "map_of (obj_remove k m) = (map_of m)(k := None)"
  by (induction m) (auto simp: obj_remove_def fun_eq_iff)

lemma obj_ok_remove [simp, intro]: "obj_ok m \<Longrightarrow> obj_ok (obj_remove k m)"
  by (simp add: obj_remove_def)

lemma map_of_fold_obj_insert:
  "map_of (fold (\<lambda>(k, v). obj_insert k v) kvs m) = map_of m ++ map_of (rev kvs)"
  by (induction kvs arbitrary: m) (auto simp: map_add_def fun_eq_iff split: option.splits)

lemma obj_ok_fold: "obj_ok m \<Longrightarrow> obj_ok (fold (\<lambda>(k, v). obj_insert k v) kvs m)"
  by (induction kvs arbitrary: m) auto

lemma obj_insert_last: "\<forall>x \<in> fst ` set m. x < k \<Longrightarrow> obj_insert k v m = m @ [(k, v)]"
  by (induction m) auto

lemma fold_obj_insert_sorted:
  "obj_ok (a @ m) \<Longrightarrow> fold (\<lambda>(k, v). obj_insert k v) m a = a @ m"
proof (induction m arbitrary: a)
  case (Cons p m)
  then have "\<forall>x \<in> fst ` set a. x < fst p" by (auto simp: obj_ok_def sorted_wrt_append)
  then have "obj_insert (fst p) (snd p) a = a @ [p]" by (simp add: obj_insert_last)
  then show ?case using Cons by (simp add: split_beta)
qed simp

lemma map_of_obj_merge: "obj_ok b \<Longrightarrow> map_of (obj_merge a b) = map_of a ++ map_of b"
proof -
  assume "obj_ok b"
  then have "distinct (map fst b)" by (rule obj_ok_distinct)
  then have "map_of (rev b) = map_of b" by (subst map_of_inject_set) (simp_all flip: rev_map)
  then show ?thesis by (simp add: obj_merge_def map_of_fold_obj_insert)
qed

lemma obj_ok_merge [simp, intro]: "obj_ok a \<Longrightarrow> obj_ok (obj_merge a b)"
  by (simp add: obj_merge_def obj_ok_fold)

lemma jget_jset [simp]: "jget k (jset k' v (JObject m)) = (if k = k' then Some v else map_of m k)"
  by (simp add: jget_def)

subsection \<open>Printing\<close>

text \<open>
  \<open>to_string()\<close>: the compact form with serde's escapes. The shortest decimal form of a float is
  computed by a library the sources only call, so it is the parameter \<open>fmt_float\<close>.
\<close>

definition hex_digit :: "nat \<Rightarrow> char" where
  "hex_digit d = (if d < 10 then char_of (48 + d) else char_of (87 + d))"

definition json_escape_char :: "char \<Rightarrow> string" where
  "json_escape_char c =
     (if c = CHR 0x22 then [CHR 0x5C, CHR 0x22]
      else if c = CHR 0x5C then [CHR 0x5C, CHR 0x5C]
      else if c = CHR 0x08 then [CHR 0x5C, CHR ''b'']
      else if c = CHR 0x0C then [CHR 0x5C, CHR ''f'']
      else if c = CHR 0x0A then [CHR 0x5C, CHR ''n'']
      else if c = CHR 0x0D then [CHR 0x5C, CHR ''r'']
      else if c = CHR 0x09 then [CHR 0x5C, CHR ''t'']
      else if byte c < 32
        then [CHR 0x5C, CHR ''u'', CHR ''0'', CHR ''0'', hex_digit (byte c div 16), hex_digit (byte c mod 16)]
      else [c])"

definition json_quote :: "string \<Rightarrow> string" where
  "json_quote s = [CHR 0x22] @ concat (map json_escape_char s) @ [CHR 0x22]"

definition int_to_string :: "int \<Rightarrow> string" where
  "int_to_string i = (if 0 \<le> i then nat_to_string (nat i) else CHR ''-'' # nat_to_string (nat (- i)))"

fun number_to_string :: "(rat \<Rightarrow> string) \<Rightarrow> number \<Rightarrow> string" where
  "number_to_string fmt_float (PosInt n) = nat_to_string n"
| "number_to_string fmt_float (NegInt i) = int_to_string i"
| "number_to_string fmt_float (Float x) = fmt_float x"

fun json_to_string :: "(rat \<Rightarrow> string) \<Rightarrow> json \<Rightarrow> string" where
  "json_to_string ff JNull = ''null''"
| "json_to_string ff (JBool b) = (if b then ''true'' else ''false'')"
| "json_to_string ff (JNumber n) = number_to_string ff n"
| "json_to_string ff (JString s) = json_quote s"
| "json_to_string ff (JArray vs) = ''['' @ join '','' (map (json_to_string ff) vs) @ '']''"
| "json_to_string ff (JObject m) =
     ''{'' @ join '','' (map (\<lambda>(k, v). json_quote k @ '':'' @ json_to_string ff v) m) @ ''}''"

end
