(* ===== verification/Core_Error.thy ===== *)
theory Core_Error
  imports Json_Value
begin

text \<open>
  The error type of the platform and its HTTP rendering (\<open>crates/ob-core/src/error.rs\<close>). Every
  fallible operation of the other components returns \<open>ob_error + 'a\<close>.
\<close>

datatype ob_error =
    Config string
  | Database string
  | Auth string
  | Forbidden string
  | NotFound string
  | Validation string
  | UnsupportedMediaType string
  | TooManyRequests string
  | Internal string

type_synonym 'a ob_result = "ob_error + 'a"

fun status_code :: "ob_error \<Rightarrow> nat" where
  "status_code (Config _) = 500"
| "status_code (Database _) = 500"
| "status_code (Auth _) = 401"
| "status_code (Forbidden _) = 403"
| "status_code (NotFound _) = 404"
| "status_code (Validation _) = 400"
| "status_code (UnsupportedMediaType _) = 415"
| "status_code (TooManyRequests _) = 429"
| "status_code (Internal _) = 500"

fun error_code :: "ob_error \<Rightarrow> string" where
  "error_code (Config _) = ''CONFIG_ERROR''"
| "error_code (Database _) = ''DATABASE_ERROR''"
| "error_code (Auth _) = ''AUTH_ERROR''"
| "error_code (Forbidden _) = ''FORBIDDEN''"
| "error_code (NotFound _) = ''NOT_FOUND''"
| "error_code (Validation _) = ''VALIDATION_ERROR''"
| "error_code (UnsupportedMediaType _) = ''UNSUPPORTED_MEDIA_TYPE''"
| "error_code (TooManyRequests _) = ''TOO_MANY_REQUESTS''"
| "error_code (Internal _) = ''INTERNAL_ERROR''"

text \<open>The \<open>Display\<close> form, from the \<open>#[error(...)]\<close> attributes.\<close>

fun error_to_string :: "ob_error \<Rightarrow> string" where
  "error_to_string (Config m) = ''Configuration error: '' @ m"
| "error_to_string (Database m) = ''Database error: '' @ m"
| "error_to_string (Auth m) = ''Authentication error: '' @ m"
| "error_to_string (Forbidden m) = ''Authorization denied: '' @ m"
| "error_to_string (NotFound m) = ''Not found: '' @ m"
| "error_to_string (Validation m) = ''Validation error: '' @ m"
| "error_to_string (UnsupportedMediaType m) = ''Unsupported media type: '' @ m"
| "error_to_string (TooManyRequests m) = ''Too many requests: '' @ m"
| "error_to_string (Internal m) = ''Internal error: '' @ m"

definition field_validation :: "string \<Rightarrow> string \<Rightarrow> ob_error" where
  "field_validation field message = Validation (field @ '': '' @ message)"

definition resource_not_found :: "string \<Rightarrow> ob_error" where
  "resource_not_found resource = NotFound (resource @ '' not found'')"

fun safe_message :: "ob_error \<Rightarrow> string" where
  "safe_message (Database _) = ''Internal server error''"
| "safe_message (Internal _) = ''Internal server error''"
| "safe_message (Config _) = ''Internal server error''"
| "safe_message other = error_to_string other"

text \<open>\<open>into_response\<close>: the status line and the JSON body sent to the client.\<close>

definition into_response :: "ob_error \<Rightarrow> nat \<times> json" where
  "into_response e =
     (status_code e,
      json_obj [(''error'', json_obj [
        (''status'', json_int (int (status_code e))),
        (''code'', JString (error_code e)),
        (''message'', JString (safe_message e))])])"

text \<open>The payload of an error, and the errors whose payload is internal detail.\<close>

fun error_payload :: "ob_error \<Rightarrow> string" where
  "error_payload (Config m) = m"
| "error_payload (Database m) = m"
| "error_payload (Auth m) = m"
| "error_payload (Forbidden m) = m"
| "error_payload (NotFound m) = m"
| "error_payload (Validation m) = m"
| "error_payload (UnsupportedMediaType m) = m"
| "error_payload (TooManyRequests m) = m"
| "error_payload (Internal m) = m"

lemma status_500_iff_code:
  "status_code e = 500 \<longleftrightarrow> error_code e \<in> {''CONFIG_ERROR'', ''DATABASE_ERROR'', ''INTERNAL_ERROR''}"
  by (cases e) simp_all

text \<open>
  A response with status 500 is a function of its error code alone: two internal errors with
  the same code give the same status and the same JSON body whatever their messages are, so no
  detail of a database, configuration or internal failure reaches the client.
\<close>

theorem internal_errors_are_redacted:
  assumes "status_code e = 500" and "error_code e' = error_code e"
  shows "into_response e' = into_response e"
  using assms by (cases e; cases e') (simp_all add: into_response_def)

theorem internal_errors_are_redacted_witness:
  "into_response (Database ''password=hunter2'') = into_response (Database ''timeout'')"
  by (rule internal_errors_are_redacted) simp_all

end
