(* ===== verification/Core_Validate.thy ===== *)
theory Core_Validate
  imports Core_Error
begin

text \<open>
  The input validators of \<open>crates/ob-core/src/validate.rs\<close>: identifiers (collection and field
  names spliced into SQL), document and record ids, and the escaping of string literals. The
  lexers at the end read a literal back the two ways PostgreSQL can read one; they are the
  specification the escaping is measured against, not code of the platform.
\<close>

definition KNOWN_COLLECTIONS :: "string list" where
  "KNOWN_COLLECTIONS =
     [''users'', ''products'', ''orders'', ''reviews'', ''payouts'', ''refunds'', ''webhook_logs'',
      ''webhook_events'', ''security_alerts'', ''rate_limits'', ''config'', ''admin_logs'',
      ''product_ratings'', ''seller_ratings'', ''review_votes'', ''meilisearch_sync_failures'',
      ''_cron_locks'', ''_cron_failures'', ''return_requests'', ''pending_profiles'', ''warehouses'',
      ''cart'', ''favorites'', ''notifications'', ''fcm_tokens'', ''licenses'', ''book_access_tokens'',
      ''software_access_tokens'', ''addresses'', ''buyer_addresses'', ''download_sessions'',
      ''stock_notifications'', ''product_questions'', ''seller_metrics'', ''coupons'',
      ''inventoryLevels'', ''events'', ''coupon_uses'', ''user_security'', ''seller_profiles'',
      ''seller_skus'', ''_mail_logs'', ''pending_redemptions'', ''subscriptions'', ''chats'',
      ''messages'', ''platform_debt'', ''message_reports'', ''disputes'', ''payment_providers'']"

definition ident_char :: "char \<Rightarrow> bool" where
  "ident_char c \<longleftrightarrow> is_ascii_alphanumeric c \<or> c = CHR ''_''"

text \<open>The first \<open>char\<close> of a string: its first byte and the continuation bytes after it.\<close>

definition first_char :: "string \<Rightarrow> string" where
  "first_char s = (case s of [] \<Rightarrow> [] | c # cs \<Rightarrow> c # takeWhile (\<lambda>d. 128 \<le> byte d \<and> byte d < 192) cs)"

definition validate_identifier :: "string \<Rightarrow> string ob_result" where
  "validate_identifier name =
     (case name of
        [] \<Rightarrow> Inl (Validation ''Identifier cannot be empty'')
      | first # _ \<Rightarrow>
          if 255 < length name then Inl (Validation ''Identifier too long (max 255)'')
          else if \<not> is_ascii_alphabetic first \<and> first \<noteq> CHR ''_''
            then Inl (Validation (''Identifier must start with a letter or underscore, got: '' @
                        [CHR 0x27] @ first_char name @ [CHR 0x27]))
          else if \<not> list_all ident_char name
            then Inl (Validation (''Identifier '' @ [CHR 0x27] @ name @ [CHR 0x27] @
                        '' contains invalid characters (only ASCII alphanumeric and underscore allowed)''))
          else Inr name)"

definition validate_known_collection :: "string \<Rightarrow> string ob_result" where
  "validate_known_collection name =
     rbind (validate_identifier name) (\<lambda>_.
       if name \<in> set KNOWN_COLLECTIONS then Inr name
       else Inl (Validation (''Unknown collection '' @ [CHR 0x27] @ name @ [CHR 0x27] @ '': not in allowlist'')))"

definition doc_id_char :: "char \<Rightarrow> bool" where
  "doc_id_char c \<longleftrightarrow> is_ascii_alphanumeric c \<or> c \<in> {CHR ''_'', CHR ''-'', CHR ''.''}"

definition validate_document_id :: "string \<Rightarrow> string ob_result" where
  "validate_document_id doc_id =
     (if doc_id = [] then Inl (Validation ''Document ID cannot be empty'')
      else if 512 < length doc_id then Inl (Validation ''Document ID too long (max 512)'')
      else if \<not> list_all doc_id_char doc_id
        then Inl (Validation (''Document ID '' @ [CHR 0x27] @ doc_id @ [CHR 0x27] @ '' contains invalid characters''))
      else Inr doc_id)"

definition escape_sql_string :: "string \<Rightarrow> string" where
  "escape_sql_string s =
     replace_char (CHR 0x27) [CHR 0x5C, CHR 0x27] (replace_char (CHR 0x5C) [CHR 0x5C, CHR 0x5C] s)"

definition validate_record_id :: "string \<Rightarrow> string ob_result" where
  "validate_record_id rec_id =
     (if rec_id = [] then Inl (Validation ''Record ID cannot be empty'')
      else if 512 < length rec_id then Inl (Validation ''Record ID too long (max 512)'')
      else (case split_on (CHR '':'') rec_id of
          [collection, record_id] \<Rightarrow>
            if collection = [] then Inl (Validation ''Collection name cannot be empty'')
            else rbind (validate_identifier collection) (\<lambda>_.
              if record_id = [] then Inl (Validation ''Record ID part cannot be empty'')
              else rbind (validate_document_id record_id) (\<lambda>_. Inr rec_id))
        | _ \<Rightarrow> Inl (Validation (''Record ID '' @ [CHR 0x27] @ rec_id @ [CHR 0x27] @
                     '' must be in format '' @ [CHR 0x27] @ ''collection:record_id'' @ [CHR 0x27]))))"

subsection \<open>Identifiers and ids\<close>

definition safe_identifier :: "string \<Rightarrow> bool" where
  "safe_identifier s \<longleftrightarrow> s \<noteq> [] \<and> length s \<le> 255 \<and> \<not> is_ascii_digit (hd s) \<and> list_all ident_char s"

lemma ident_char_cases: "ident_char c \<longleftrightarrow> is_ascii_alphabetic c \<or> is_ascii_digit c \<or> c = CHR ''_''"
  by (auto simp: ident_char_def is_ascii_alphanumeric_def)

lemma alphabetic_not_digit: "is_ascii_alphabetic c \<Longrightarrow> \<not> is_ascii_digit c"
  by (auto simp: ascii_defs)

lemma underscore_not_digit [simp]: "\<not> is_ascii_digit (CHR ''_'')"
  by (simp add: ascii_defs)

lemma validate_identifier_iff:
  "validate_identifier s = Inr r \<longleftrightarrow> r = s \<and> safe_identifier s"
  by (cases s)
    (auto simp: validate_identifier_def safe_identifier_def ident_char_cases alphabetic_not_digit)

lemma validate_identifier_ok: "safe_identifier s \<Longrightarrow> validate_identifier s = Inr s"
  by (simp add: validate_identifier_iff)

lemma validate_identifier_err: "\<not> safe_identifier s \<Longrightarrow> \<exists>m. validate_identifier s = Inl (Validation m)"
  by (cases s)
    (auto simp: validate_identifier_def safe_identifier_def ident_char_cases alphabetic_not_digit)

lemma is_ok_validate_identifier [simp]: "is_ok (validate_identifier s) = safe_identifier s"
  using validate_identifier_err [of s] validate_identifier_ok [of s] by (cases "safe_identifier s") auto

text \<open>No character that can end or extend an SQL token occurs in an accepted identifier.\<close>

lemma safe_identifier_chars:
  assumes "safe_identifier s" "c \<in> set s"
  shows "is_ascii_alphanumeric c \<or> c = CHR ''_''"
  using assms by (auto simp: safe_identifier_def list_all_iff ident_char_def)

definition safe_document_id :: "string \<Rightarrow> bool" where
  "safe_document_id s \<longleftrightarrow> s \<noteq> [] \<and> length s \<le> 512 \<and> list_all doc_id_char s"

lemma validate_document_id_iff:
  "validate_document_id s = Inr r \<longleftrightarrow> r = s \<and> safe_document_id s"
  by (auto simp: validate_document_id_def safe_document_id_def)

lemma colon_not_ident [simp]: "\<not> ident_char (CHR '':'')"
  by (simp add: ident_char_def ascii_defs)

lemma colon_not_doc_id [simp]: "\<not> doc_id_char (CHR '':'')"
  by (simp add: doc_id_char_def ascii_defs)

lemma split_on_no_sep: "c \<notin> set s \<Longrightarrow> split_on c s = [s]"
  by (induction s) auto

lemma split_on_append: "c \<notin> set s \<Longrightarrow> split_on c (s @ c # t) = s # split_on c t"
  by (induction s) auto

lemma record_parts_unique:
  assumes "c @ '':'' @ d = c' @ '':'' @ d'" "safe_identifier c" "safe_identifier c'"
  shows "c = c' \<and> d = d'"
proof -
  have "CHR '':'' \<notin> set c" "CHR '':'' \<notin> set c'"
    using assms by (auto simp: safe_identifier_def list_all_iff)
  then show ?thesis
    using assms split_on_append [of "CHR '':''" c d] split_on_append [of "CHR '':''" c' d'] by auto
qed

lemma validate_record_id_split:
  assumes "validate_record_id s = Inr r"
  shows "r = s \<and> length s \<le> 512 \<and>
    (\<exists>c d. s = c @ '':'' @ d \<and> safe_identifier c \<and> safe_document_id d)"
proof -
  obtain c d where sp: "split_on (CHR '':'') s = [c, d]"
    using assms by (auto simp: validate_record_id_def split: if_splits list.splits)
  moreover have "s = c @ '':'' @ d"
    using join_split_on [of "CHR '':''" s] sp by simp
  ultimately show ?thesis
    using assms by (auto simp: validate_record_id_def rbind_eq_Inr validate_identifier_iff
        validate_document_id_iff split: if_splits)
qed

lemma validate_record_id_join:
  assumes "length (c @ '':'' @ d) \<le> 512" and c: "safe_identifier c" and d: "safe_document_id d"
  shows "validate_record_id (c @ '':'' @ d) = Inr (c @ '':'' @ d)"
proof -
  have "CHR '':'' \<notin> set c" "CHR '':'' \<notin> set d"
    using c d by (auto simp: safe_identifier_def safe_document_id_def list_all_iff)
  then have "split_on (CHR '':'') (c @ '':'' @ d) = [c, d]"
    by (simp add: split_on_append split_on_no_sep)
  moreover have "c \<noteq> []" "d \<noteq> []" using c d by (auto simp: safe_identifier_def safe_document_id_def)
  ultimately show ?thesis
    using assms validate_document_id_iff [of d d]
    by (auto simp: validate_record_id_def validate_identifier_ok)
qed

text \<open>
  \<open>validate_record_id\<close> accepts exactly the strings \<open>collection:record\<close> of at most 512 bytes
  whose first part is a safe identifier and whose second part is a safe document id, and the
  two parts are determined by the string: splitting an accepted id never loses or confuses its
  collection.
\<close>

theorem validate_record_id_accepts:
  "validate_record_id s = Inr r \<longleftrightarrow>
     r = s \<and> length s \<le> 512 \<and>
     (\<exists>!(c, d). s = c @ '':'' @ d \<and> safe_identifier c \<and> safe_document_id d)"
proof -
  have "(\<exists>c d. s = c @ '':'' @ d \<and> safe_identifier c \<and> safe_document_id d) \<longleftrightarrow>
      (\<exists>!(c, d). s = c @ '':'' @ d \<and> safe_identifier c \<and> safe_document_id d)"
  proof
    assume "\<exists>c d. s = c @ '':'' @ d \<and> safe_identifier c \<and> safe_document_id d"
    then obtain c d where cd: "s = c @ '':'' @ d" "safe_identifier c" "safe_document_id d" by blast
    show "\<exists>!(c, d). s = c @ '':'' @ d \<and> safe_identifier c \<and> safe_document_id d"
    proof (rule ex1I [of _ "(c, d)"])
      fix p assume h: "case p of (c, d) \<Rightarrow> s = c @ '':'' @ d \<and> safe_identifier c \<and> safe_document_id d"
      obtain c' d' where p: "p = (c', d')" by (cases p)
      with h have c': "s = c' @ '':'' @ d'" "safe_identifier c'" by simp_all
      have "c' = c \<and> d' = d"
        by (rule record_parts_unique [OF trans [OF c'(1) [symmetric] cd(1)] c'(2) cd(2)])
      with p show "p = (c, d)" by simp
    qed (use cd in simp)
  qed (auto dest!: ex1_implies_ex)
  moreover have "validate_record_id s = Inr r \<longleftrightarrow> r = s \<and> length s \<le> 512 \<and>
      (\<exists>c d. s = c @ '':'' @ d \<and> safe_identifier c \<and> safe_document_id d)"
    using validate_record_id_split [of s r] validate_record_id_join by blast
  ultimately show ?thesis by simp
qed

subsection \<open>String literals\<close>

text \<open>
  Reading a string literal from just after its opening quote: the value and the text after the
  closing quote. \<open>lex_backslash\<close> is the reading of \<open>E'...'\<close> literals (and of plain ones when
  \<open>standard_conforming_strings\<close> is off) restricted to the escapes the code produces;
  \<open>lex_standard\<close> is the SQL reading of \<open>'...'\<close>, PostgreSQL's default, where a backslash is an
  ordinary character and a quote is written twice.
\<close>

fun lex_backslash :: "string \<Rightarrow> (string \<times> string) option" where
  "lex_backslash [] = None"
| "lex_backslash (c # cs) =
     (if c = CHR 0x27 then Some ([], cs)
      else if c = CHR 0x5C
        then (case cs of [] \<Rightarrow> None | d # ds \<Rightarrow> map_option (apfst ((#) d)) (lex_backslash ds))
      else map_option (apfst ((#) c)) (lex_backslash cs))"

fun lex_standard :: "string \<Rightarrow> (string \<times> string) option" where
  "lex_standard [] = None"
| "lex_standard (c # cs) =
     (if c = CHR 0x27
      then (case cs of
              d # ds \<Rightarrow> if d = CHR 0x27 then map_option (apfst ((#) d)) (lex_standard ds) else Some ([], cs)
            | [] \<Rightarrow> Some ([], []))
      else map_option (apfst ((#) c)) (lex_standard cs))"

lemma escape_sql_string_simps [simp]:
  "escape_sql_string [] = []"
  "escape_sql_string (c # cs) =
     (if c = CHR 0x27 \<or> c = CHR 0x5C then [CHR 0x5C, c] else [c]) @ escape_sql_string cs"
  by (auto simp: escape_sql_string_def)

lemma escape_sql_string_append [simp]:
  "escape_sql_string (s @ t) = escape_sql_string s @ escape_sql_string t"
  by (induction s) auto

lemma lex_standard_escape:
  assumes "CHR 0x27 \<notin> set a"
  shows "lex_standard (escape_sql_string a @ t) =
           map_option (apfst ((@) (escape_sql_string a))) (lex_standard t)"
  using assms by (cases "lex_standard t"; induction a) auto

text \<open>
  Under the backslash reading the escaping is exact: whatever the value and whatever text
  follows the literal, reading \<open>escape_sql_string s\<close> and its closing quote gives back \<open>s\<close> and
  leaves the rest of the statement untouched.
\<close>

theorem escape_sql_roundtrip:
  "lex_backslash (escape_sql_string s @ CHR 0x27 # rest) = Some (s, rest)"
  by (induction s) auto

text \<open>
  Under PostgreSQL's default reading the escaping does not contain a quote: for a value with
  a quote that no other quote follows, the literal ends inside the value and the
  remainder of the value is read as SQL text.
\<close>

theorem escape_sql_breaks_out_standard:
  assumes "CHR 0x27 \<notin> set a" and "b = [] \<or> hd b \<noteq> CHR 0x27"
  shows "lex_standard (escape_sql_string (a @ CHR 0x27 # b) @ CHR 0x27 # rest) =
           (if b = [] then map_option (apfst ((@) (escape_sql_string a @ [CHR 0x5C, CHR 0x27]))) (lex_standard rest)
            else Some (escape_sql_string a @ [CHR 0x5C], escape_sql_string b @ CHR 0x27 # rest))"
  using assms(2) lex_standard_escape [OF assms(1)]
  by (cases b; cases "lex_standard rest") auto

theorem escape_sql_breaks_out_standard_witness:
  "lex_standard (escape_sql_string (''x'' @ CHR 0x27 # '' OR true --'') @ CHR 0x27 # '';'') =
     Some (''x'' @ [CHR 0x5C], '' OR true --'' @ CHR 0x27 # '';'')"
  using escape_sql_breaks_out_standard [of "''x''" "'' OR true --''" "'';''"] by simp

end
