(* ===== verification/Rules_Parser.thy ===== *)
theory Rules_Parser
  imports Core_Validate
begin

text \<open>
  The security rules parser (\<open>crates/ob-security/src/parser.rs\<close> and \<open>rules.pest\<close>). The pest
  crate generates a recogniser from the grammar; its result, a tree of pairs, is the parameter
  \<open>pest_parse\<close> of \<open>parse_rules\<close>, and \<open>conforms\<close> says which trees the grammar allows. What the
  sources do with the tree is translated in full, the \<open>unwrap\<close> panics included.
\<close>

datatype rust_fault = Panic | Fail ob_error

datatype rule_tag =
    R_EOI | R_ident | R_dot_path | R_string_lit | R_number_lit | R_bool_lit | R_value
  | R_function_call | R_comp_op | R_not_op | R_atom | R_comparison | R_not_expr | R_and_expr
  | R_expr | R_operation | R_op_list | R_rule_entry | R_validate_entry | R_collection_name
  | R_rule_block | R_file

text \<open>A pest pair: its rule, the text it spans, its inner pairs.\<close>

datatype pair = PPair (as_rule: rule_tag) (as_text: string) (into_inner: "pair list")

datatype CompOp = Eq | Neq | Gt | Gte | Lt | Lte

datatype expression =
    EBool bool
  | ENumber f64
  | EStringLit string
  | EPath string
  | EFunctionCall string "expression list"
  | EComparison expression CompOp expression
  | EAnd "expression list"
  | EOr "expression list"
  | ENot expression

record SecurityRule =
  operations :: "string list"
  condition :: expression
  validation :: "expression option"

record RuleSet =
  collection :: string
  rules :: "SecurityRule list"

type_synonym rule_map = "(string \<times> RuleSet) list"

subsection \<open>Numbers\<close>

text \<open>
  \<open>str::parse::<f64>\<close>: an optional sign, then \<open>inf\<close>, \<open>infinity\<close> or \<open>nan\<close> in any case, or decimal
  digits with an optional fraction and an optional exponent, at least one digit in the mantissa.
\<close>

definition to_ascii_lowercase :: "string \<Rightarrow> string" where
  "to_ascii_lowercase s = map (\<lambda>c. if is_ascii_uppercase c then char_of (byte c + 32) else c) s"

definition parse_exponent :: "string \<Rightarrow> int option" where
  "parse_exponent s =
     (case s of
        [] \<Rightarrow> Some 0
      | c # t \<Rightarrow>
          if c \<noteq> CHR ''e'' \<and> c \<noteq> CHR ''E'' then None
          else (let neg = (t \<noteq> [] \<and> hd t = CHR ''-'');
                    ds = (if t \<noteq> [] \<and> (hd t = CHR ''-'' \<or> hd t = CHR ''+'') then tl t else t)
                in if ds = [] then None
                   else map_option (\<lambda>n. if neg then - int n else int n) (digits_value 0 ds)))"

definition scale10 :: "nat \<Rightarrow> int \<Rightarrow> rat" where
  "scale10 m e = (if 0 \<le> e then of_nat m * 10 ^ nat e else of_nat m / 10 ^ nat (- e))"

definition f64_neg :: "bool \<Rightarrow> f64 \<Rightarrow> f64" where
  "f64_neg neg x =
     (if \<not> neg then x
      else (case x of Finite r \<Rightarrow> Finite (- r) | PosInf \<Rightarrow> NegInf | NegInf \<Rightarrow> PosInf | NaN \<Rightarrow> NaN))"

definition parse_decimal :: "string \<Rightarrow> f64 option" where
  "parse_decimal r =
     (let ip = takeWhile is_ascii_digit r;
          r1 = dropWhile is_ascii_digit r;
          (fp, rest) =
            (case r1 of
               c # r2 \<Rightarrow>
                 if c = CHR ''.'' then (takeWhile is_ascii_digit r2, dropWhile is_ascii_digit r2) else ([], r1)
             | [] \<Rightarrow> ([], []))
      in if to_ascii_lowercase r \<in> {''inf'', ''infinity''} then Some PosInf
         else if to_ascii_lowercase r = ''nan'' then Some NaN
         else if ip = [] \<and> fp = [] then None
         else (case (parse_exponent rest, digits_value 0 (ip @ fp)) of
                 (Some e, Some m) \<Rightarrow> Some (f64_of_rat (scale10 m (e - int (length fp))))
               | _ \<Rightarrow> None))"

definition parse_f64 :: "string \<Rightarrow> f64 option" where
  "parse_f64 s =
     (case s of
        [] \<Rightarrow> None
      | c # r \<Rightarrow>
          if c = CHR ''-'' then map_option (f64_neg True) (parse_decimal r)
          else if c = CHR ''+'' then parse_decimal r
          else parse_decimal s)"

subsection \<open>From pairs to rules\<close>

definition unwrap :: "'a option \<Rightarrow> rust_fault + 'a" where
  "unwrap v = ok_or Panic v"

definition first_pair :: "pair list \<Rightarrow> pair option" where
  "first_pair ps = (case ps of [] \<Rightarrow> None | p # _ \<Rightarrow> Some p)"

definition nth_pair :: "nat \<Rightarrow> pair list \<Rightarrow> pair option" where
  "nth_pair i ps = (if i < length ps then Some (ps ! i) else None)"

definition comp_op_of :: "string \<Rightarrow> CompOp option" where
  "comp_op_of s =
     (if s = ''=='' then Some Eq
      else if s = ''!='' then Some Neq
      else if s = ''>'' then Some Gt
      else if s = ''>='' then Some Gte
      else if s = ''<'' then Some Lt
      else if s = ''<='' then Some Lte
      else None)"

text \<open>\<open>text[1..text.len() - 1]\<close>: a slice with its ends out of order or off a character boundary
  panics.\<close>

definition continuation_byte :: "char \<Rightarrow> bool" where
  "continuation_byte c \<longleftrightarrow> 128 \<le> byte c \<and> byte c < 192"

definition strip_quotes :: "string \<Rightarrow> rust_fault + string" where
  "strip_quotes t =
     (if length t < 2 \<or> continuation_byte (t ! 1) \<or> continuation_byte (last t) then Inl Panic
      else Inr (butlast (tl t)))"

text \<open>The \<open>Debug\<close> form of a rule in the catch-all error.\<close>

fun rule_name :: "rule_tag \<Rightarrow> string" where
  "rule_name R_EOI = ''EOI''"
| "rule_name R_ident = ''ident''"
| "rule_name R_dot_path = ''dot_path''"
| "rule_name R_string_lit = ''string_lit''"
| "rule_name R_number_lit = ''number_lit''"
| "rule_name R_bool_lit = ''bool_lit''"
| "rule_name R_value = ''value''"
| "rule_name R_function_call = ''function_call''"
| "rule_name R_comp_op = ''comp_op''"
| "rule_name R_not_op = ''not_op''"
| "rule_name R_atom = ''atom''"
| "rule_name R_comparison = ''comparison''"
| "rule_name R_not_expr = ''not_expr''"
| "rule_name R_and_expr = ''and_expr''"
| "rule_name R_expr = ''expr''"
| "rule_name R_operation = ''operation''"
| "rule_name R_op_list = ''op_list''"
| "rule_name R_rule_entry = ''rule_entry''"
| "rule_name R_validate_entry = ''validate_entry''"
| "rule_name R_collection_name = ''collection_name''"
| "rule_name R_rule_block = ''rule_block''"
| "rule_name R_file = ''file''"

lemma size_list_mem: "p \<in> set ps \<Longrightarrow> size p < Suc (size_list size ps)"
  by (induction ps) auto

lemma size_find [termination_simp]: "List.find P ps = Some p \<Longrightarrow> size p < Suc (size_list size ps)"
  by (rule size_list_mem) (auto simp: find_Some_iff)

lemma size_first_pair [termination_simp]: "first_pair ps = Some p \<Longrightarrow> size p < Suc (size_list size ps)"
  by (cases ps) (auto simp: first_pair_def)

lemma size_nth_pair [termination_simp]: "nth_pair i ps = Some p \<Longrightarrow> size p < Suc (size_list size ps)"
  by (auto simp: nth_pair_def size_list_mem split: if_splits)

lemma size_tl_pair [termination_simp]: "p \<in> set (tl ps) \<Longrightarrow> size p < Suc (size_list size ps)"
  by (cases ps) (auto dest: size_list_mem)

fun parse_expr :: "pair \<Rightarrow> rust_fault + expression" where
  "parse_expr (PPair tag text inner) =
     (case tag of
        R_file \<Rightarrow>
          (case first_pair inner of Some first \<Rightarrow> parse_expr first | None \<Rightarrow> Inr (EBool False))
      | R_expr \<Rightarrow>
          if length inner = 1
          then (case first_pair inner of Some p \<Rightarrow> parse_expr p | None \<Rightarrow> Inl Panic)
          else rbind (rmap parse_expr inner) (\<lambda>exprs. Inr (EOr exprs))
      | R_and_expr \<Rightarrow>
          if length inner = 1
          then (case first_pair inner of Some p \<Rightarrow> parse_expr p | None \<Rightarrow> Inl Panic)
          else rbind (rmap parse_expr inner) (\<lambda>exprs. Inr (EAnd exprs))
      | R_not_expr \<Rightarrow>
          (case List.find (\<lambda>p. as_rule p \<noteq> R_not_op) inner of
             None \<Rightarrow> Inl Panic
           | Some expr_part \<Rightarrow>
               rbind (parse_expr expr_part) (\<lambda>expr.
                 if list_ex (\<lambda>p. as_rule p = R_not_op) inner then Inr (ENot expr) else Inr expr))
      | R_comparison \<Rightarrow>
          (case nth_pair 0 inner of
             None \<Rightarrow> Inl Panic
           | Some p0 \<Rightarrow> rbind (parse_expr p0) (\<lambda>left.
               case nth_pair 1 inner of
                 None \<Rightarrow> Inl Panic
               | Some p1 \<Rightarrow>
                   (case nth_pair 2 inner of
                      None \<Rightarrow> Inl Panic
                    | Some p2 \<Rightarrow> rbind (parse_expr p2) (\<lambda>right.
                        case comp_op_of (as_text p1) of
                          Some op \<Rightarrow> Inr (EComparison left op right)
                        | None \<Rightarrow> Inl (Fail (Config (''Unknown operator: '' @ as_text p1)))))))
      | R_atom \<Rightarrow> (case first_pair inner of Some p \<Rightarrow> parse_expr p | None \<Rightarrow> Inl Panic)
      | R_value \<Rightarrow> (case first_pair inner of Some p \<Rightarrow> parse_expr p | None \<Rightarrow> Inl Panic)
      | R_function_call \<Rightarrow>
          (case first_pair inner of
             None \<Rightarrow> Inl Panic
           | Some name \<Rightarrow> rbind (rmap parse_expr (tl inner)) (\<lambda>args.
               Inr (EFunctionCall (as_text name) args)))
      | R_bool_lit \<Rightarrow> Inr (EBool (text = ''true''))
      | R_number_lit \<Rightarrow>
          (case parse_f64 text of
             Some n \<Rightarrow> Inr (ENumber n)
           | None \<Rightarrow> Inl (Fail (Config ''Invalid number'')))
      | R_string_lit \<Rightarrow> rbind (strip_quotes text) (\<lambda>s. Inr (EStringLit s))
      | R_dot_path \<Rightarrow> Inr (EPath text)
      | R_ident \<Rightarrow> Inr (EPath text)
      | _ \<Rightarrow> Inl (Fail (Config (''Unexpected rule: '' @ rule_name tag @ '' with text: '' @ text))))"

declare parse_expr.simps [simp del]

definition parse_op_list :: "pair \<Rightarrow> string list" where
  "parse_op_list p = map as_text (into_inner p)"

text \<open>One entry of a block; entries of other rules are skipped.\<close>

definition parse_entry :: "pair \<Rightarrow> rust_fault + SecurityRule option" where
  "parse_entry entry =
     (let inner = into_inner entry in
      if as_rule entry = R_rule_entry then
        rbind (unwrap (nth_pair 0 inner)) (\<lambda>p0.
        rbind (unwrap (nth_pair 1 inner)) (\<lambda>p1.
        rbind (parse_expr p1) (\<lambda>e.
          Inr (Some \<lparr>operations = parse_op_list p0, condition = e, validation = None\<rparr>))))
      else if as_rule entry = R_validate_entry then
        rbind (unwrap (nth_pair 0 inner)) (\<lambda>p0.
        rbind (unwrap (nth_pair 1 inner)) (\<lambda>p1.
        rbind (parse_expr p1) (\<lambda>e.
          Inr (Some \<lparr>operations = parse_op_list p0, condition = EBool True, validation = Some e\<rparr>))))
      else Inr None)"

definition parse_rule_block :: "pair \<Rightarrow> rust_fault + RuleSet" where
  "parse_rule_block p =
     rbind (unwrap (first_pair (into_inner p))) (\<lambda>name.
     rbind (rmap parse_entry (tl (into_inner p))) (\<lambda>entries.
       Inr \<lparr>collection = as_text name, rules = List.map_filter (\<lambda>x. x) entries\<rparr>))"

fun insert_blocks :: "pair list \<Rightarrow> rule_map \<Rightarrow> rust_fault + rule_map" where
  "insert_blocks [] result = Inr result"
| "insert_blocks (p # ps) result =
     (if as_rule p = R_rule_block
      then rbind (parse_rule_block p) (\<lambda>rule_set.
             insert_blocks ps (hm_insert (collection rule_set) rule_set result))
      else insert_blocks ps result)"

text \<open>\<open>RulesParser::parse\<close> returns the pairs of the file or an error whose text is pest's.\<close>

definition parse_rules :: "(string \<Rightarrow> string + pair list) \<Rightarrow> string \<Rightarrow> rust_fault + rule_map" where
  "parse_rules pest_parse input =
     rbind (map_err (\<lambda>e. Fail (Config (''Rules parse error: '' @ e))) (pest_parse input)) (\<lambda>file.
       insert_blocks (concat (map into_inner file)) [])"

subsection \<open>The trees of the grammar\<close>

definition ident_text :: "string \<Rightarrow> bool" where
  "ident_text s \<longleftrightarrow> s \<noteq> [] \<and> is_ascii_alphabetic (hd s) \<and> list_all ident_char s"

definition number_text :: "string \<Rightarrow> bool" where
  "number_text s =
     (let r = (if s \<noteq> [] \<and> hd s = CHR ''-'' then tl s else s);
          rest = dropWhile is_ascii_digit r
      in takeWhile is_ascii_digit r \<noteq> [] \<and>
         (rest = [] \<or> hd rest = CHR ''.'' \<and> tl rest \<noteq> [] \<and> list_all is_ascii_digit (tl rest)))"

definition string_text :: "string \<Rightarrow> bool" where
  "string_text s \<longleftrightarrow>
     2 \<le> length s \<and> hd s = CHR 0x22 \<and> last s = CHR 0x22 \<and> CHR 0x22 \<notin> set (butlast (tl s)) \<and>
     \<not> continuation_byte (s ! 1)"

text \<open>What \<open>rules.pest\<close> allows at one node: the text of a token, the rules of the inner pairs.\<close>

fun node_ok :: "rule_tag \<Rightarrow> string \<Rightarrow> rule_tag list \<Rightarrow> bool" where
  "node_ok R_EOI t ks = (ks = [])"
| "node_ok R_ident t ks = (ident_text t \<and> ks = [])"
| "node_ok R_dot_path t ks = (list_all ident_text (split_on (CHR ''.'') t) \<and> ks = [])"
| "node_ok R_string_lit t ks = (string_text t \<and> ks = [])"
| "node_ok R_number_lit t ks = (number_text t \<and> ks = [])"
| "node_ok R_bool_lit t ks = (t \<in> {''true'', ''false''} \<and> ks = [])"
| "node_ok R_value t ks =
     (\<exists>k \<in> {R_function_call, R_bool_lit, R_string_lit, R_number_lit, R_dot_path}. ks = [k])"
| "node_ok R_function_call t ks =
     (ks \<noteq> [] \<and> hd ks = R_ident \<and> list_all (\<lambda>k. k = R_value) (tl ks))"
| "node_ok R_comp_op t ks = (t \<in> {''>='', ''<='', ''!='', ''>'', ''<'', ''==''} \<and> ks = [])"
| "node_ok R_not_op t ks = (t = ''!'' \<and> ks = [])"
| "node_ok R_atom t ks = (ks = [R_expr] \<or> ks = [R_value])"
| "node_ok R_comparison t ks = (ks = [R_atom, R_comp_op, R_atom])"
| "node_ok R_not_expr t ks = (ks = [R_not_op, R_atom] \<or> ks = [R_comparison] \<or> ks = [R_atom])"
| "node_ok R_and_expr t ks = (ks \<noteq> [] \<and> list_all (\<lambda>k. k = R_not_expr) ks)"
| "node_ok R_expr t ks = (ks \<noteq> [] \<and> list_all (\<lambda>k. k = R_and_expr) ks)"
| "node_ok R_operation t ks =
     (t \<in> {''read'', ''create'', ''update'', ''delete'', ''list''} \<and> ks = [])"
| "node_ok R_op_list t ks = (ks \<noteq> [] \<and> list_all (\<lambda>k. k = R_operation) ks)"
| "node_ok R_rule_entry t ks = (ks = [R_op_list, R_expr])"
| "node_ok R_validate_entry t ks = (ks = [R_op_list, R_expr])"
| "node_ok R_collection_name t ks = ((t = ''*'' \<or> ident_text t) \<and> ks = [])"
| "node_ok R_rule_block t ks =
     (ks \<noteq> [] \<and> hd ks = R_collection_name \<and>
      list_all (\<lambda>k. k \<in> {R_validate_entry, R_rule_entry}) (tl ks))"
| "node_ok R_file t ks =
     (ks \<noteq> [] \<and> last ks = R_EOI \<and> list_all (\<lambda>k. k = R_rule_block) (butlast ks))"

fun conforms :: "pair \<Rightarrow> bool" where
  "conforms (PPair tag text inner) =
     (node_ok tag text (map as_rule inner) \<and> list_all conforms inner)"

text \<open>The rules whose pairs \<open>parse_expr\<close> is called on.\<close>

definition expr_rule :: "rule_tag \<Rightarrow> bool" where
  "expr_rule r \<longleftrightarrow> r \<in> {R_expr, R_and_expr, R_not_expr, R_comparison, R_atom, R_value,
     R_function_call, R_bool_lit, R_number_lit, R_string_lit, R_dot_path, R_ident}"

lemma conforms_node: "conforms p \<Longrightarrow> node_ok (as_rule p) (as_text p) (map as_rule (into_inner p))"
  by (cases p) simp

lemma conforms_inner: "conforms p \<Longrightarrow> q \<in> set (into_inner p) \<Longrightarrow> conforms q"
  by (cases p) (auto simp: list_all_iff)

lemma digits_value_digits: "list_all is_ascii_digit s \<Longrightarrow> \<exists>n. digits_value acc s = Some n"
  by (induction s arbitrary: acc) auto

lemma parse_decimal_number:
  assumes "ip \<noteq> []" "list_all is_ascii_digit ip" "list_all is_ascii_digit ds"
    and "rest = [] \<and> ds = [] \<or> rest = CHR ''.'' # ds"
  shows "\<exists>x. parse_decimal (ip @ rest) = Some x"
proof -
  have dot: "\<not> is_ascii_digit (CHR ''.'')" by (simp add: ascii_defs)
  have ip: "takeWhile is_ascii_digit (ip @ rest) = ip" "dropWhile is_ascii_digit (ip @ rest) = rest"
    using assms dot by (auto simp: list_all_iff)
  have ds: "takeWhile is_ascii_digit ds = ds" "dropWhile is_ascii_digit ds = []"
    using assms by (simp_all add: list_all_iff)
  obtain n where "digits_value 0 (ip @ ds) = Some n"
    using digits_value_digits [of "ip @ ds"] assms by (auto simp del: digits_value.simps)
  then show ?thesis
    unfolding parse_decimal_def Let_def ip using assms(1,4)
    by (auto simp: parse_exponent_def ds)
qed

lemma number_text_split:
  assumes "number_text s"
  obtains r ip rest ds where "s = CHR ''-'' # r \<or> s = r" "r = ip @ rest"
    and "ip \<noteq> []" "list_all is_ascii_digit ip" "list_all is_ascii_digit ds"
    and "rest = [] \<and> ds = [] \<or> rest = CHR ''.'' # ds"
proof -
  define r where "r = (if s \<noteq> [] \<and> hd s = CHR ''-'' then tl s else s)"
  define rest where "rest = dropWhile is_ascii_digit r"
  have "s = CHR ''-'' # r \<or> s = r" by (cases s) (auto simp: r_def)
  moreover have "r = takeWhile is_ascii_digit r @ rest" by (simp add: rest_def)
  moreover have "list_all is_ascii_digit (takeWhile is_ascii_digit r)"
    by (auto simp: list_all_iff dest: set_takeWhileD)
  moreover have "takeWhile is_ascii_digit r \<noteq> []"
    "rest = [] \<or> hd rest = CHR ''.'' \<and> tl rest \<noteq> [] \<and> list_all is_ascii_digit (tl rest)"
    using assms by (auto simp: number_text_def Let_def r_def rest_def)
  ultimately show thesis
    by (cases rest) (auto intro: that [of r "takeWhile is_ascii_digit r" rest "tl rest"])
qed

lemma parse_f64_number_text:
  assumes "number_text s"
  shows "\<exists>x. parse_f64 s = Some x"
proof -
  obtain r ip rest ds where s: "s = CHR ''-'' # r \<or> s = r" "r = ip @ rest" "ip \<noteq> []"
    "list_all is_ascii_digit ip" "list_all is_ascii_digit ds"
    "rest = [] \<and> ds = [] \<or> rest = CHR ''.'' # ds"
    using assms by (rule number_text_split)
  obtain x where x: "parse_decimal r = Some x"
    using parse_decimal_number [OF s(3-6)] s(2) by auto
  obtain c t where r: "r = c # t" "is_ascii_digit c" using s by (cases ip) auto
  then have "c \<noteq> CHR ''-''" "c \<noteq> CHR ''+''" by (auto simp: ascii_defs)
  then show ?thesis using s(1) r x by (auto simp: parse_f64_def)
qed

lemma strip_quotes_string_text: "string_text s \<Longrightarrow> strip_quotes s = Inr (butlast (tl s))"
  by (simp add: string_text_def strip_quotes_def) (simp add: continuation_byte_def byte_def)

lemma comp_op_of_token: "node_ok R_comp_op t ks \<Longrightarrow> \<exists>op. comp_op_of t = Some op"
  by (auto simp: comp_op_of_def)

subsection \<open>Totality and what the parsed rules contain\<close>

lemma parse_expr_total:
  "conforms p \<Longrightarrow> expr_rule (as_rule p) \<Longrightarrow> \<exists>e. parse_expr p = Inr e"
proof (induction p)
  case (PPair tag tx inner)
  then have node: "node_ok tag tx (map as_rule inner)" and kids: "list_all conforms inner" by simp_all
  have IH: "\<exists>e. parse_expr q = Inr e" if "q \<in> set inner" "expr_rule (as_rule q)" for q
    using PPair.IH [OF that(1)] kids that by (auto simp: list_all_iff)
  have all: "\<exists>es. rmap parse_expr qs = Inr es"
    if "set qs \<subseteq> set inner" "list_all expr_rule (map as_rule qs)" for qs
    using that by (intro rmap_ok IH) (auto simp: list_all_iff)
  have tag: "expr_rule tag" using PPair.prems by simp
  consider (seq) "tag = R_expr \<or> tag = R_and_expr" | (neg) "tag = R_not_expr" | (cmp) "tag = R_comparison"
    | (wrap) "tag = R_atom \<or> tag = R_value" | (call) "tag = R_function_call"
    | (token) "tag \<in> {R_bool_lit, R_number_lit, R_string_lit, R_dot_path, R_ident}"
    using tag by (auto simp: expr_rule_def)
  then show ?case
  proof cases
    case seq
    then have ok: "inner \<noteq> []" "list_all expr_rule (map as_rule inner)"
      using node by (auto simp: list_all_iff expr_rule_def)
    obtain q qs where q: "inner = q # qs" using ok by (cases inner) auto
    with IH [of q] ok all [of inner] seq show ?thesis
      by (auto simp: parse_expr.simps first_pair_def)
  next
    case neg
    then consider q a where "inner = [q, a]" "as_rule q = R_not_op" "as_rule a = R_atom"
      | a where "inner = [a]" "as_rule a = R_comparison \<or> as_rule a = R_atom"
      using node by (auto simp: map_eq_Cons_conv)
    then show ?thesis
    proof cases
      case (1 q a)
      with IH [of a] neg show ?thesis by (auto simp: parse_expr.simps expr_rule_def)
    next
      case (2 a)
      with IH [of a] neg show ?thesis by (auto simp: parse_expr.simps expr_rule_def)
    qed
  next
    case cmp
    then obtain a c b where abc: "inner = [a, c, b]" "as_rule a = R_atom" "as_rule c = R_comp_op" "as_rule b = R_atom"
      using node by (auto simp: map_eq_Cons_conv)
    have "conforms c" using kids abc by simp
    then obtain op where "comp_op_of (as_text c) = Some op"
      using comp_op_of_token conforms_node [of c] abc by fastforce
    with IH [of a] IH [of b] abc cmp show ?thesis
      by (auto simp: parse_expr.simps expr_rule_def nth_pair_def)
  next
    case wrap
    then obtain q where "inner = [q]" "expr_rule (as_rule q)"
      using node by (auto simp: map_eq_Cons_conv expr_rule_def)
    with IH [of q] wrap show ?thesis by (auto simp: parse_expr.simps first_pair_def)
  next
    case call
    then obtain q qs where "inner = q # qs" "list_all expr_rule (map as_rule qs)"
      using node by (cases inner) (auto simp: list_all_iff expr_rule_def)
    moreover from this have "\<exists>es. rmap parse_expr qs = Inr es" by (intro all) auto
    ultimately show ?thesis using call by (auto simp: parse_expr.simps first_pair_def)
  next
    case token
    then show ?thesis
      using node parse_f64_number_text [of tx] strip_quotes_string_text [of tx]
      by (auto simp: parse_expr.simps)
  qed
qed

lemma parse_entry_total:
  assumes "conforms p" "as_rule p = R_rule_entry \<or> as_rule p = R_validate_entry"
  shows "\<exists>r. parse_entry p = Inr (Some r)"
proof -
  obtain a b where ab: "into_inner p = [a, b]" "as_rule b = R_expr"
    using conforms_node [OF assms(1)] assms(2) by (auto simp: map_eq_Cons_conv)
  then have "conforms b" using conforms_inner [OF assms(1)] by simp
  then obtain e where "parse_expr b = Inr e"
    using parse_expr_total ab by (auto simp: expr_rule_def)
  then show ?thesis
    using ab assms(2) by (auto simp: parse_entry_def nth_pair_def unwrap_def)
qed

lemma block_shape:
  assumes "conforms p" "as_rule p = R_rule_block"
  obtains n es where "into_inner p = n # es" "conforms n" "as_rule n = R_collection_name"
    and "\<And>q. q \<in> set es \<Longrightarrow> conforms q \<and> (as_rule q = R_rule_entry \<or> as_rule q = R_validate_entry)"
  using conforms_node [OF assms(1)] conforms_inner [OF assms(1)] assms(2) that
  by (cases "into_inner p") (auto simp: list_all_iff)

lemma parse_rule_block_total:
  assumes "conforms p" "as_rule p = R_rule_block"
  shows "\<exists>rs. parse_rule_block p = Inr rs"
proof -
  obtain n es where es: "into_inner p = n # es"
    "\<And>q. q \<in> set es \<Longrightarrow> conforms q \<and> (as_rule q = R_rule_entry \<or> as_rule q = R_validate_entry)"
    using block_shape [OF assms] by metis
  have "\<exists>ys. rmap parse_entry es = Inr ys"
    using parse_entry_total es(2) by (intro rmap_ok) blast
  then show ?thesis by (auto simp: parse_rule_block_def es(1) first_pair_def unwrap_def)
qed

lemma parse_rule_block_collection:
  "parse_rule_block p = Inr rs \<Longrightarrow> into_inner p = n # es \<Longrightarrow> collection rs = as_text n"
  by (auto simp: parse_rule_block_def first_pair_def unwrap_def rbind_eq_Inr)

lemma insert_blocks_total:
  assumes "\<And>p. p \<in> set ps \<Longrightarrow> as_rule p = R_rule_block \<Longrightarrow> \<exists>rs. parse_rule_block p = Inr rs"
  shows "\<exists>m'. insert_blocks ps m = Inr m'"
  using assms
proof (induction ps arbitrary: m)
  case (Cons p ps)
  show ?case
  proof (cases "as_rule p = R_rule_block")
    case True
    then obtain rs where "parse_rule_block p = Inr rs" using Cons.prems [of p] by auto
    then show ?thesis using Cons True by simp
  qed (use Cons in simp)
qed simp

text \<open>The blocks of a parsed file in order, and the map that keeps the last one of each name.\<close>

definition block_of :: "pair \<Rightarrow> RuleSet" where
  "block_of p = (case parse_rule_block p of Inr rs \<Rightarrow> rs | Inl _ \<Rightarrow> \<lparr>collection = [], rules = []\<rparr>)"

definition blocks :: "pair list \<Rightarrow> RuleSet list" where
  "blocks ps = map block_of (filter (\<lambda>p. as_rule p = R_rule_block) ps)"

lemma map_of_insert_blocks:
  "insert_blocks ps m = Inr m' \<Longrightarrow>
     map_of m' = map_of m ++ map_of (rev (map (\<lambda>rs. (collection rs, rs)) (blocks ps)))"
proof (induction ps arbitrary: m)
  case (Cons p ps)
  show ?case
  proof (cases "as_rule p = R_rule_block")
    case True
    then obtain rs where rs: "parse_rule_block p = Inr rs"
      "insert_blocks ps (hm_insert (collection rs) rs m) = Inr m'"
      using Cons.prems by (auto simp: rbind_eq_Inr)
    then show ?thesis using Cons.IH [OF rs(2)] True
      by (simp add: blocks_def block_of_def map_add_def fun_eq_iff split: option.splits)
  next
    case False
    with Cons show ?thesis by (simp add: blocks_def)
  qed
qed (simp add: blocks_def)

lemma map_of_rev_keyed:
  "map_of (rev (map (\<lambda>x. (key x, x)) xs)) k = List.find (\<lambda>x. key x = k) (rev xs)"
proof -
  have "map_of (map (\<lambda>x. (key x, x)) ys) k = List.find (\<lambda>x. key x = k) ys" for ys
    by (induction ys) auto
  then show ?thesis by (simp add: rev_map)
qed

lemma find_SomeD: "List.find P xs = Some x \<Longrightarrow> x \<in> set xs \<and> P x"
  by (auto simp: find_Some_iff)

lemma blocks_collection:
  assumes "conforms f" "as_rule f = R_file" "rs \<in> set (blocks (into_inner f))"
  shows "collection rs = ''*'' \<or> ident_text (collection rs)"
proof -
  obtain p where p: "p \<in> set (into_inner f)" "as_rule p = R_rule_block" "rs = block_of p"
    using assms(3) by (auto simp: blocks_def)
  have "conforms p" using conforms_inner assms(1) p(1) by blast
  then obtain n es where n: "into_inner p = n # es" "conforms n" "as_rule n = R_collection_name"
    using block_shape p(2) by metis
  obtain r where r: "parse_rule_block p = Inr r" using parse_rule_block_total \<open>conforms p\<close> p(2) by blast
  then have "collection rs = as_text n"
    using parse_rule_block_collection [OF r n(1)] p(3) by (simp add: block_of_def)
  moreover have "as_text n = ''*'' \<or> ident_text (as_text n)"
    using conforms_node [OF n(2)] n(3) by simp
  ultimately show ?thesis by simp
qed

lemma parse_rules_lookup:
  assumes "pest_parse input = Inr [f]" and "parse_rules pest_parse input = Inr m"
  shows "map_of m name = List.find (\<lambda>rs. collection rs = name) (rev (blocks (into_inner f)))"
proof -
  have "insert_blocks (into_inner f) [] = Inr m" using assms by (simp add: parse_rules_def)
  from map_of_insert_blocks [OF this] show ?thesis by (simp add: map_of_rev_keyed)
qed

lemma parse_rules_names:
  assumes "pest_parse input = Inr [f]" and "conforms f" and "as_rule f = R_file"
    and "parse_rules pest_parse input = Inr m" and "map_of m name = Some rs"
  shows "name = ''*'' \<or> ident_text name"
proof -
  have "rs \<in> set (blocks (into_inner f)) \<and> collection rs = name"
    using find_SomeD [OF trans [OF parse_rules_lookup [OF assms(1,4), symmetric] assms(5)]] by simp
  then show ?thesis using blocks_collection [OF assms(2,3)] by blast
qed

text \<open>
  C2. On every tree the grammar allows, \<open>parse_rules\<close> neither panics nor fails: it returns a map,
  the map holds under each name the last block of that name, and every name is \<open>*\<close> or a plain
  identifier.
\<close>

theorem parse_rules_total:
  assumes "pest_parse input = Inr [f]" and "conforms f" and "as_rule f = R_file"
  shows "\<exists>m. parse_rules pest_parse input = Inr m \<and>
    (\<forall>name. map_of m name = List.find (\<lambda>rs. collection rs = name) (rev (blocks (into_inner f)))) \<and>
    (\<forall>name rs. map_of m name = Some rs \<longrightarrow> name = ''*'' \<or> ident_text name)"
proof -
  obtain m where "insert_blocks (into_inner f) [] = Inr m"
    using insert_blocks_total [of "into_inner f" "[]"] parse_rule_block_total conforms_inner [OF assms(2)]
    by blast
  then have m: "parse_rules pest_parse input = Inr m" using assms(1) by (simp add: parse_rules_def)
  then show ?thesis
    using parse_rules_lookup [OF assms(1) m] parse_rules_names [OF assms m] by blast
qed

text \<open>The tree pest returns for \<open>rules posts { read: isAuthenticated(); }\<close>.\<close>

definition sample_tree :: pair where
  "sample_tree =
     PPair R_file [] [
       PPair R_rule_block [] [
         PPair R_collection_name ''posts'' [],
         PPair R_rule_entry [] [
           PPair R_op_list ''read'' [PPair R_operation ''read'' []],
           PPair R_expr [] [PPair R_and_expr [] [PPair R_not_expr [] [PPair R_atom [] [PPair R_value []
             [PPair R_function_call [] [PPair R_ident ''isAuthenticated'' []]]]]]]]],
       PPair R_EOI [] []]"

theorem parse_rules_total_witness:
  "\<exists>m. parse_rules (\<lambda>_. Inr [sample_tree]) ''x'' = Inr m \<and>
    (\<forall>name. map_of m name = List.find (\<lambda>rs. collection rs = name) (rev (blocks (into_inner sample_tree)))) \<and>
    (\<forall>name rs. map_of m name = Some rs \<longrightarrow> name = ''*'' \<or> ident_text name)"
  by (rule parse_rules_total [of "\<lambda>_. Inr [sample_tree]" "''x''" sample_tree])
    (simp_all add: sample_tree_def ident_text_def ident_char_def ascii_defs)

end
