(* ===== verification/Rules_Evaluator.thy ===== *)
theory Rules_Evaluator
  imports Rules_Parser
begin

text \<open>
  The security rules evaluator (\<open>crates/ob-security/src/evaluator.rs\<close>): resolving paths in the
  request context, evaluating expressions, deciding an operation on a collection and on a field.
  \<open>holds\<close> is the meaning of an expression without loops or early returns; the evaluator is shown
  to compute it, and \<open>check\<close> to be decided by the first rule that grants.
\<close>

record SecurityContext =
  user_id :: "string option"
  roles :: "string list"
  authenticated :: bool
  resource :: "json option"
  incoming :: "json option"

fun resolve_json_path :: "json \<Rightarrow> string list \<Rightarrow> json" where
  "resolve_json_path value [] = value"
| "resolve_json_path value (segment # path) =
     (case jget segment value of Some v \<Rightarrow> resolve_json_path v path | None \<Rightarrow> JNull)"

fun resolve_json_path_option :: "json \<Rightarrow> string list \<Rightarrow> json option" where
  "resolve_json_path_option value [] = Some value"
| "resolve_json_path_option value (segment # path) =
     (case jget segment value of Some v \<Rightarrow> resolve_json_path_option v path | None \<Rightarrow> None)"

definition resolve_context_field :: "json option \<Rightarrow> string \<Rightarrow> json option" where
  "resolve_context_field value field =
     (case value of None \<Rightarrow> None | Some v \<Rightarrow> resolve_json_path_option v (split_on (CHR ''.'') field))"

fun string_arg :: "expression list \<Rightarrow> string option" where
  "string_arg (EStringLit value # _) = Some value"
| "string_arg _ = None"

fun is_truthy :: "json \<Rightarrow> bool" where
  "is_truthy JNull = False"
| "is_truthy (JBool b) = b"
| "is_truthy (JNumber n) = (\<not> f64_eq (number_as_f64 n) (Finite 0))"
| "is_truthy (JString s) = (s \<noteq> [])"
| "is_truthy (JArray a) = (a \<noteq> [])"
| "is_truthy (JObject _) = True"

fun compare_f64 :: "CompOp \<Rightarrow> f64 \<Rightarrow> f64 \<Rightarrow> bool" where
  "compare_f64 Gt l r = f64_lt r l"
| "compare_f64 Gte l r = f64_le r l"
| "compare_f64 Lt l r = f64_lt l r"
| "compare_f64 Lte l r = f64_le l r"
| "compare_f64 _ l r = False"

fun compare_str :: "CompOp \<Rightarrow> string \<Rightarrow> string \<Rightarrow> bool" where
  "compare_str Gt l r = (r < l)"
| "compare_str Gte l r = (r \<le> l)"
| "compare_str Lt l r = (l < r)"
| "compare_str Lte l r = (l \<le> r)"
| "compare_str _ l r = False"

definition compare_values :: "json \<Rightarrow> CompOp \<Rightarrow> json \<Rightarrow> bool" where
  "compare_values left op right =
     (case op of
        Eq \<Rightarrow> left = right
      | Neq \<Rightarrow> left \<noteq> right
      | _ \<Rightarrow>
        (case (as_f64 left, as_f64 right) of
           (Some l, Some r) \<Rightarrow> compare_f64 op l r
         | _ \<Rightarrow>
           (case (as_str left, as_str right) of
              (Some l, Some r) \<Rightarrow> compare_str op l r
            | _ \<Rightarrow> False)))"

definition resolve_path :: "string \<Rightarrow> SecurityContext \<Rightarrow> json" where
  "resolve_path path ctx =
     (let parts = split_on (CHR ''.'') path in
      if hd parts = ''resource'' then
        (case resource ctx of Some r \<Rightarrow> resolve_json_path r (tl parts) | None \<Rightarrow> JNull)
      else if hd parts = ''incoming'' then
        (case incoming ctx of Some i \<Rightarrow> resolve_json_path i (tl parts) | None \<Rightarrow> JNull)
      else if hd parts = ''auth'' then
        (case tl parts of
           p # _ \<Rightarrow>
             if p = ''uid'' then (case user_id ctx of Some s \<Rightarrow> JString s | None \<Rightarrow> JNull) else JNull
         | [] \<Rightarrow> JNull)
      else JNull)"

fun eval_value :: "expression \<Rightarrow> SecurityContext \<Rightarrow> json" where
  "eval_value (EBool b) ctx = JBool b"
| "eval_value (ENumber n) ctx =
     (case number_from_f64 n of Some k \<Rightarrow> JNumber k | None \<Rightarrow> JNull)"
| "eval_value (EStringLit s) ctx = JString s"
| "eval_value (EPath p) ctx = resolve_path p ctx"
| "eval_value _ ctx = JNull"

definition eval_function :: "string \<Rightarrow> expression list \<Rightarrow> SecurityContext \<Rightarrow> bool ob_result" where
  "eval_function name args ctx =
     (if name = ''isAuthenticated'' then Inr (authenticated ctx)
      else if name = ''hasRole'' then
        (case args of EStringLit role # _ \<Rightarrow> Inr (role \<in> set (roles ctx)) | _ \<Rightarrow> Inr False)
      else if name = ''isOwner'' then
        (case args of
           EPath field # _ \<Rightarrow>
             (case (user_id ctx, resolve_path field ctx) of
                (Some uid, JString owner_id) \<Rightarrow> Inr (uid = owner_id)
              | _ \<Rightarrow> Inr False)
         | _ \<Rightarrow> Inr False)
      else if name = ''fieldEqualsAuth'' then
        (case string_arg args of
           None \<Rightarrow> Inr False
         | Some field \<Rightarrow>
             (case user_id ctx of
                None \<Rightarrow> Inr False
              | Some uid \<Rightarrow> Inr (resolve_context_field (incoming ctx) field = Some (JString uid))))
      else if name = ''fieldAbsentOrEqualsAuth'' then
        (case string_arg args of
           None \<Rightarrow> Inr False
         | Some field \<Rightarrow>
             (case resolve_context_field (incoming ctx) field of
                None \<Rightarrow> Inr True
              | Some value \<Rightarrow>
                  (case user_id ctx of
                     None \<Rightarrow> Inr False
                   | Some uid \<Rightarrow> Inr (value = JString uid))))
      else if name = ''fieldUnchanged'' then
        (case string_arg args of
           None \<Rightarrow> Inr False
         | Some field \<Rightarrow>
             (case resolve_context_field (incoming ctx) field of
                None \<Rightarrow> Inr True
              | Some incoming_value \<Rightarrow>
                  Inr (resolve_context_field (resource ctx) field = Some incoming_value)))
      else Inr False)"

text \<open>\<open>eval_and\<close> and \<open>eval_or\<close> are the two loops of \<open>eval_expr\<close> with their early returns.\<close>

fun eval_expr :: "expression \<Rightarrow> SecurityContext \<Rightarrow> bool ob_result"
  and eval_and :: "expression list \<Rightarrow> SecurityContext \<Rightarrow> bool ob_result"
  and eval_or :: "expression list \<Rightarrow> SecurityContext \<Rightarrow> bool ob_result" where
  "eval_expr (EBool b) ctx = Inr b"
| "eval_expr (EFunctionCall name args) ctx = eval_function name args ctx"
| "eval_expr (EAnd exprs) ctx = eval_and exprs ctx"
| "eval_expr (EOr exprs) ctx = eval_or exprs ctx"
| "eval_expr (ENot e) ctx = rbind (eval_expr e ctx) (\<lambda>b. Inr (\<not> b))"
| "eval_expr (EComparison left op right) ctx =
     Inr (compare_values (eval_value left ctx) op (eval_value right ctx))"
| "eval_expr (EPath path) ctx = Inr (is_truthy (resolve_path path ctx))"
| "eval_expr _ ctx = Inr False"
| "eval_and [] ctx = Inr True"
| "eval_and (e # es) ctx = rbind (eval_expr e ctx) (\<lambda>b. if \<not> b then Inr False else eval_and es ctx)"
| "eval_or [] ctx = Inr False"
| "eval_or (e # es) ctx = rbind (eval_expr e ctx) (\<lambda>b. if b then Inr True else eval_or es ctx)"

text \<open>The loop over the rules of a set, shared by \<open>check\<close> and \<open>check_field\<close> up to the error.\<close>

fun check_rules :: "ob_error \<Rightarrow> SecurityRule list \<Rightarrow> string \<Rightarrow> SecurityContext \<Rightarrow> bool ob_result" where
  "check_rules err [] operation ctx = Inr False"
| "check_rules err (rule # rest) operation ctx =
     (if operation \<in> set (operations rule) then
        rbind (eval_expr (condition rule) ctx) (\<lambda>allowed.
          if allowed then
            (case validation rule of
               None \<Rightarrow> Inr True
             | Some v \<Rightarrow> rbind (eval_expr v ctx) (\<lambda>valid. if \<not> valid then Inl err else Inr True))
          else check_rules err rest operation ctx)
      else check_rules err rest operation ctx)"

definition check :: "rule_map \<Rightarrow> string \<Rightarrow> string \<Rightarrow> SecurityContext \<Rightarrow> bool ob_result" where
  "check engine coll operation ctx =
     (case (case map_of engine coll of Some rs \<Rightarrow> Some rs | None \<Rightarrow> map_of engine ''*'') of
        None \<Rightarrow> Inr False
      | Some rule_set \<Rightarrow>
          check_rules (Validation ''Validation rule failed'') (RuleSet.rules rule_set) operation ctx)"

definition check_field :: "rule_map \<Rightarrow> string \<Rightarrow> string \<Rightarrow> string \<Rightarrow> SecurityContext \<Rightarrow> bool ob_result" where
  "check_field engine coll field operation ctx =
     (case map_of engine (coll @ ''.'' @ field) of
        Some rule_set \<Rightarrow>
          check_rules (Validation (''Field validation failed for '' @ field))
            (RuleSet.rules rule_set) operation ctx
      | None \<Rightarrow> Inr True)"

definition filter_fields :: "rule_map \<Rightarrow> string \<Rightarrow> json \<Rightarrow> SecurityContext \<Rightarrow> json" where
  "filter_fields engine coll doc ctx =
     (case doc of
        JObject m \<Rightarrow>
          JObject (fold (\<lambda>(k, v) filtered.
            if check_field engine coll k ''read'' ctx = Inr True then obj_insert k v filtered
            else filtered) m [])
      | _ \<Rightarrow> doc)"

subsection \<open>The meaning of an expression\<close>

definition function_holds :: "SecurityContext \<Rightarrow> string \<Rightarrow> expression list \<Rightarrow> bool" where
  "function_holds ctx name args \<longleftrightarrow> eval_function name args ctx = Inr True"

fun holds :: "SecurityContext \<Rightarrow> expression \<Rightarrow> bool" where
  "holds ctx (EBool b) = b"
| "holds ctx (EFunctionCall name args) = function_holds ctx name args"
| "holds ctx (EAnd es) = (\<forall>e \<in> set es. holds ctx e)"
| "holds ctx (EOr es) = (\<exists>e \<in> set es. holds ctx e)"
| "holds ctx (ENot e) = (\<not> holds ctx e)"
| "holds ctx (EComparison l op r) = compare_values (eval_value l ctx) op (eval_value r ctx)"
| "holds ctx (EPath p) = is_truthy (resolve_path p ctx)"
| "holds ctx _ = False"

lemma eval_function_total: "is_ok (eval_function name args ctx)"
proof -
  consider "name = ''hasRole''" | "name = ''isOwner''" | "name = ''fieldEqualsAuth''"
    | "name = ''fieldAbsentOrEqualsAuth''" | "name = ''fieldUnchanged''"
    | "name \<notin> {''hasRole'', ''isOwner'', ''fieldEqualsAuth'', ''fieldAbsentOrEqualsAuth'', ''fieldUnchanged''}"
    by auto
  then show ?thesis
    by cases (simp_all add: eval_function_def split: list.split expression.split option.split json.split)
qed

lemma eval_function_holds: "eval_function name args ctx = Inr (function_holds ctx name args)"
  using eval_function_total [of name args ctx]
  by (cases "eval_function name args ctx") (auto simp: function_holds_def)

lemma eval_expr_holds:
  "eval_expr e ctx = Inr (holds ctx e)"
  "eval_and es ctx = Inr (\<forall>e \<in> set es. holds ctx e)"
  "eval_or es ctx = Inr (\<exists>e \<in> set es. holds ctx e)"
  by (induction e ctx and es ctx and es ctx rule: eval_expr_eval_and_eval_or.induct)
    (auto simp: eval_function_holds)

definition grants :: "SecurityContext \<Rightarrow> string \<Rightarrow> SecurityRule \<Rightarrow> bool" where
  "grants ctx operation rule \<longleftrightarrow> operation \<in> set (operations rule) \<and> holds ctx (condition rule)"

definition validates :: "SecurityContext \<Rightarrow> SecurityRule \<Rightarrow> bool" where
  "validates ctx rule = (case validation rule of None \<Rightarrow> True | Some v \<Rightarrow> holds ctx v)"

lemma check_rules_decides:
  "check_rules err rs operation ctx =
     (case List.find (grants ctx operation) rs of
        None \<Rightarrow> Inr False
      | Some rule \<Rightarrow> if validates ctx rule then Inr True else Inl err)"
  by (induction rs)
    (auto simp: eval_expr_holds grants_def validates_def split: option.splits)

definition rule_set_for :: "rule_map \<Rightarrow> string \<Rightarrow> SecurityRule list" where
  "rule_set_for engine coll =
     (case map_of engine coll of
        Some rs \<Rightarrow> RuleSet.rules rs
      | None \<Rightarrow> (case map_of engine ''*'' of Some rs \<Rightarrow> RuleSet.rules rs | None \<Rightarrow> []))"

lemma check_decides_aux:
  "check engine coll operation ctx =
     (case List.find (grants ctx operation) (rule_set_for engine coll) of
        None \<Rightarrow> Inr False
      | Some rule \<Rightarrow>
          if validates ctx rule then Inr True else Inl (Validation ''Validation rule failed''))"
  by (simp add: check_def rule_set_for_def check_rules_decides split: option.splits)

text \<open>
  C1. \<open>check\<close> is decided by the first rule, in file order, whose operations name the operation and
  whose condition holds: no such rule, or no rule set at all, denies; otherwise the operation is
  allowed exactly when that rule's validation holds and fails with a validation error when it
  does not. The rule set is that of the collection, or the wildcard's when it has none, never both.
\<close>

theorem check_decides:
  "check engine coll operation ctx =
     (case List.find (grants ctx operation) (rule_set_for engine coll) of
        None \<Rightarrow> Inr False
      | Some rule \<Rightarrow>
          if validates ctx rule then Inr True else Inl (Validation ''Validation rule failed''))"
  by (rule check_decides_aux)

subsection \<open>Requests without an identity\<close>

definition anonymous :: "SecurityContext \<Rightarrow> bool" where
  "anonymous ctx \<longleftrightarrow> user_id ctx = None \<and> \<not> authenticated ctx \<and> roles ctx = []"

text \<open>Conditions that need an identity: an identity function, alone, as one conjunct, or in every
  disjunct.\<close>

fun guarded :: "expression \<Rightarrow> bool" where
  "guarded (EBool b) = (\<not> b)"
| "guarded (EFunctionCall name args) =
     (name \<in> {''isAuthenticated'', ''hasRole'', ''isOwner'', ''fieldEqualsAuth''})"
| "guarded (EAnd es) = (\<exists>e \<in> set es. guarded e)"
| "guarded (EOr es) = (\<forall>e \<in> set es. guarded e)"
| "guarded _ = False"

lemma guarded_denies: "anonymous ctx \<Longrightarrow> guarded e \<Longrightarrow> \<not> holds ctx e"
  by (induction e rule: guarded.induct)
    (auto simp: anonymous_def function_holds_def eval_function_def
      split: list.splits expression.splits option.splits)

text \<open>
  A request with no identity is denied an operation on a collection whenever every rule naming
  the operation is guarded by an identity check: no document content and no incoming data can
  make such rules grant.
\<close>

theorem anonymous_denied:
  assumes "anonymous ctx"
    and "\<And>r. r \<in> set (rule_set_for engine coll) \<Longrightarrow> operation \<in> set (operations r) \<Longrightarrow> guarded (condition r)"
  shows "check engine coll operation ctx = Inr False"
proof -
  have "List.find (grants ctx operation) (rule_set_for engine coll) = None"
    using assms guarded_denies by (auto simp: find_None_iff grants_def)
  then show ?thesis by (simp add: check_decides_aux)
qed

definition sample_engine :: rule_map where
  "sample_engine =
     [(''posts'', \<lparr>collection = ''posts'', rules =
        [\<lparr>operations = [''read'', ''update''], condition = EOr [EFunctionCall ''isOwner'' [EPath ''resource.owner''],
            EAnd [EPath ''resource.public'', EFunctionCall ''hasRole'' [EStringLit ''admin'']]],
          validation = None\<rparr>,
         \<lparr>operations = [''list''], condition = EBool True, validation = None\<rparr>]\<rparr>)]"

definition anonymous_ctx :: SecurityContext where
  "anonymous_ctx = \<lparr>user_id = None, roles = [], authenticated = False,
     resource = Some (JObject [(''public'', JBool True)]), incoming = None\<rparr>"

theorem anonymous_denied_witness: "check sample_engine ''posts'' ''read'' anonymous_ctx = Inr False"
  by (rule anonymous_denied)
    (auto simp: anonymous_ctx_def anonymous_def sample_engine_def rule_set_for_def)

lemma resolve_resource_field:
  "CHR ''.'' \<notin> set f \<Longrightarrow>
     resolve_path (''resource.'' @ f) ctx =
       (case resource ctx of
          None \<Rightarrow> JNull
        | Some d \<Rightarrow> (case jget f d of Some v \<Rightarrow> v | None \<Rightarrow> JNull))"
  by (simp add: resolve_path_def split_on_no_sep split: option.splits)

lemma resolve_auth_uid:
  "resolve_path ''auth.uid'' ctx = (case user_id ctx of Some s \<Rightarrow> JString s | None \<Rightarrow> JNull)"
  by (simp add: resolve_path_def)

text \<open>
  The two ways to write an ownership rule differ for a request with no identity:
  \<open>isOwner(resource.f)\<close> is false on every document, while \<open>resource.f == auth.uid\<close> is true exactly
  on the documents whose \<open>f\<close> is null or absent, because both sides resolve to null.
\<close>

theorem owner_rules_without_identity:
  assumes "user_id ctx = None" and "CHR ''.'' \<notin> set f"
  shows "eval_expr (EFunctionCall ''isOwner'' [EPath (''resource.'' @ f)]) ctx = Inr False \<and>
    eval_expr (EComparison (EPath (''resource.'' @ f)) Eq (EPath ''auth.uid'')) ctx =
      Inr (case resource ctx of None \<Rightarrow> True | Some d \<Rightarrow> jget f d = None \<or> jget f d = Some JNull)"
  using assms
  by (auto simp: eval_function_def compare_values_def resolve_resource_field [simplified]
      resolve_auth_uid split: option.splits)

theorem owner_rules_without_identity_witness:
  "eval_expr (EFunctionCall ''isOwner'' [EPath ''resource.owner'']) anonymous_ctx = Inr False \<and>
   eval_expr (EComparison (EPath ''resource.owner'') Eq (EPath ''auth.uid'')) anonymous_ctx = Inr True"
  using owner_rules_without_identity [of anonymous_ctx "''owner''"]
  by (simp add: anonymous_ctx_def jget_def)

subsection \<open>Validation entries and field rules\<close>

text \<open>
  A \<open>validate\<close> entry is a grant: parsed from the rules file its condition is the constant true,
  so when it is the first entry naming an operation, every caller whose data satisfies the
  validation is allowed, whatever the later entries ask of the caller.
\<close>

theorem validate_entry_grants:
  assumes "as_rule p = R_validate_entry" and "parse_entry p = Inr (Some r)"
    and "rule_set_for engine coll = before @ r # later"
    and "\<forall>b \<in> set before. operation \<notin> set (operations b)" and "operation \<in> set (operations r)"
  shows "\<exists>v. validation r = Some v \<and>
    check engine coll operation ctx =
      (if holds ctx v then Inr True else Inl (Validation ''Validation rule failed''))"
proof -
  obtain v where r: "condition r = EBool True" "validation r = Some v"
    using assms(1,2) by (auto simp: parse_entry_def Let_def rbind_eq_Inr)
  have "List.find (grants ctx operation) (before @ r # later) = Some r"
    using assms(4,5) r by (induction before) (auto simp: grants_def)
  then show ?thesis using assms(3) r by (simp add: check_decides_aux validates_def)
qed

definition validate_tree :: pair where
  "validate_tree =
     PPair R_validate_entry [] [
       PPair R_op_list ''create'' [PPair R_operation ''create'' []],
       PPair R_expr [] [PPair R_and_expr [] [PPair R_not_expr [] [PPair R_atom [] [PPair R_value []
         [PPair R_dot_path ''incoming.title'' []]]]]]]"

definition validate_rule :: SecurityRule where
  "validate_rule = \<lparr>operations = [''create''], condition = EBool True, validation = Some (EPath ''incoming.title'')\<rparr>"

definition admin_rule :: SecurityRule where
  "admin_rule = \<lparr>operations = [''create''], condition = EFunctionCall ''hasRole'' [EStringLit ''admin''], validation = None\<rparr>"

lemma parse_validate_tree: "parse_entry validate_tree = Inr (Some validate_rule)"
  by (simp add: parse_entry_def validate_tree_def validate_rule_def nth_pair_def unwrap_def
      parse_op_list_def parse_expr.simps first_pair_def)

theorem validate_entry_grants_witness:
  "\<exists>v. validation validate_rule = Some v \<and>
    check [(''posts'', \<lparr>collection = ''posts'', rules = [validate_rule, admin_rule]\<rparr>)] ''posts'' ''create''
      anonymous_ctx = (if holds anonymous_ctx v then Inr True else Inl (Validation ''Validation rule failed''))"
  by (rule validate_entry_grants [where p = validate_tree and before = "[]" and later = "[admin_rule]"])
    (simp_all add: parse_validate_tree rule_set_for_def, simp_all add: validate_tree_def validate_rule_def)

lemma no_field_rule_sets:
  assumes "\<And>name rs. map_of m name = Some rs \<Longrightarrow> name = ''*'' \<or> ident_text name"
  shows "map_of m (coll @ ''.'' @ field) = None"
proof (rule ccontr)
  assume "map_of m (coll @ ''.'' @ field) \<noteq> None"
  then have "coll @ ''.'' @ field = ''*'' \<or> ident_text (coll @ ''.'' @ field)" using assms by blast
  then show False
    by (auto simp: ident_text_def ident_char_def ascii_defs append_eq_Cons_conv)
qed

text \<open>
  Field-level rules never apply to an engine built from a rules file: every name the grammar
  accepts is free of dots, so no entry has the form \<open>collection.field\<close>, \<open>check_field\<close> allows every
  field and \<open>filter_fields\<close> returns the document unchanged.
\<close>

theorem parsed_rules_have_no_field_rules:
  assumes "pest_parse input = Inr [f]" and "conforms f" and "as_rule f = R_file"
    and "parse_rules pest_parse input = Inr engine" and "json_ok doc"
  shows "check_field engine coll field operation ctx = Inr True \<and> filter_fields engine coll doc ctx = doc"
proof -
  have names: "name = ''*'' \<or> ident_text name" if "map_of engine name = Some rs" for name rs
    using parse_rules_names [OF assms(1-4) that] .
  have all: "check_field engine coll field operation ctx = Inr True" for field operation
    using no_field_rule_sets [of engine coll field] names by (simp add: check_field_def)
  moreover have "filter_fields engine coll doc ctx = doc"
    using assms(5) fold_obj_insert_sorted [of "[]"]
    by (cases doc) (simp_all add: filter_fields_def all)
  ultimately show ?thesis by simp
qed

theorem parsed_rules_have_no_field_rules_witness:
  "check_field [(''posts'', block_of (hd (into_inner sample_tree)))] ''posts'' ''secret'' ''read'' anonymous_ctx = Inr True \<and>
   filter_fields [(''posts'', block_of (hd (into_inner sample_tree)))] ''posts'' (JObject [(''secret'', JNull)]) anonymous_ctx
     = JObject [(''secret'', JNull)]"
proof -
  have h: "parse_rules (\<lambda>_. Inr [sample_tree]) ''x'' = Inr [(''posts'', block_of (hd (into_inner sample_tree)))]"
    by (simp add: parse_rules_def sample_tree_def parse_rule_block_def parse_entry_def nth_pair_def
        unwrap_def first_pair_def parse_expr.simps block_of_def)
  have t: "conforms sample_tree" "as_rule sample_tree = R_file"
    by (simp_all add: sample_tree_def ident_text_def ident_char_def ascii_defs)
  show ?thesis
    using parsed_rules_have_no_field_rules [OF _ t h, of "JObject [(''secret'', JNull)]"]
    by (simp add: obj_ok_def)
qed

end
