(* ===== verification/Query_Translator.thy ===== *)
theory Query_Translator
  imports Core_Validate
begin

text \<open>
  The translation of filters to SQL text (\<open>crates/ob-database/src/query.rs\<close>). The decimal form of
  a floating-point number is the library's, so every definition that prints a value takes it as
  the parameter \<open>fmt_float\<close>. The second half defines the skeleton of a statement, what is left
  when the bodies of its string literals are removed, and shows that no string a caller supplies
  can change it.
\<close>

definition q :: string where
  "q = [CHR 0x27]"

definition is_probably_numeric_field :: "string \<Rightarrow> bool" where
  "is_probably_numeric_field field \<longleftrightarrow>
     field \<in> {''age'', ''price'', ''priceCents'', ''categoryId'', ''rating'', ''fraudScore'',
       ''avgResponseTimeHours'', ''avgShipDays'', ''positiveRatePct'', ''totalReviews''} \<or>
     ends_with ''Cents'' field \<or> ends_with ''Count'' field \<or> ends_with ''Quantity'' field \<or>
     ends_with ''Pct'' field \<or> ends_with ''Hours'' field \<or> ends_with ''Days'' field"

definition sql_field_expr :: "string \<Rightarrow> string option" where
  "sql_field_expr field =
     (if \<not> is_ok (validate_identifier field) then None
      else Some (
        if field = ''id'' then ''id''
        else if field = ''createdAt'' \<or> field = ''created_at'' then ''created_at''
        else if field = ''updatedAt'' \<or> field = ''updated_at'' then ''updated_at''
        else if is_probably_numeric_field field then
          ''NULLIF(data->>'' @ q @ field @ q @ '', '' @ q @ q @ '')::numeric''
        else ''data->>'' @ q @ field @ q))"

definition sql_json_value_expr :: "string \<Rightarrow> string option" where
  "sql_json_value_expr field =
     (if \<not> is_ok (validate_identifier field) then None
      else Some (
        if field = ''id'' then ''to_jsonb(id)''
        else if field = ''createdAt'' \<or> field = ''created_at'' then ''to_jsonb(created_at)''
        else if field = ''updatedAt'' \<or> field = ''updated_at'' then ''to_jsonb(updated_at)''
        else ''data->'' @ q @ field @ q))"

definition sql_typed_field_expr :: "string \<Rightarrow> json \<Rightarrow> string option" where
  "sql_typed_field_expr field value =
     (if \<not> is_ok (validate_identifier field) then None
      else (case value of
          JNumber _ \<Rightarrow> Some (
            if field = ''createdAt'' \<or> field = ''created_at'' then ''EXTRACT(EPOCH FROM created_at)''
            else if field = ''updatedAt'' \<or> field = ''updated_at'' then ''EXTRACT(EPOCH FROM updated_at)''
            else if field = ''id'' then ''id''
            else ''NULLIF(data->>'' @ q @ field @ q @ '', '' @ q @ q @ '')::numeric'')
        | JBool _ \<Rightarrow> Some (
            if field = ''id'' then ''id''
            else ''NULLIF(data->>'' @ q @ field @ q @ '', '' @ q @ q @ '')::boolean'')
        | _ \<Rightarrow> sql_field_expr field))"

fun format_sql_literal :: "(rat \<Rightarrow> string) \<Rightarrow> json \<Rightarrow> string" where
  "format_sql_literal fmt_float (JString s) = q @ escape_sql_string s @ q"
| "format_sql_literal fmt_float (JNumber n) = number_to_string fmt_float n"
| "format_sql_literal fmt_float (JBool b) = (if b then ''true'' else ''false'')"
| "format_sql_literal fmt_float JNull = ''NULL''"
| "format_sql_literal fmt_float value = q @ escape_sql_string (json_to_string fmt_float value) @ q"

definition unwrap_or :: "'a \<Rightarrow> 'a option \<Rightarrow> 'a" where
  "unwrap_or d v = (case v of Some x \<Rightarrow> x | None \<Rightarrow> d)"

text \<open>The four comparison operators differ only in their SQL symbol.\<close>

definition compare_op :: "(rat \<Rightarrow> string) \<Rightarrow> string \<Rightarrow> json \<Rightarrow> string \<Rightarrow> string option" where
  "compare_op fmt_float field value symbol =
     map_option (\<lambda>field_expr. field_expr @ '' '' @ symbol @ '' '' @ format_sql_literal fmt_float value)
       (sql_typed_field_expr field value)"

definition translate_op :: "(rat \<Rightarrow> string) \<Rightarrow> string \<Rightarrow> string \<Rightarrow> json \<Rightarrow> string option" where
  "translate_op fmt_float field op value =
     (if \<not> is_ok (validate_identifier field) then None
      else if op = ''_eq'' then
        (if is_null value
         then map_option (\<lambda>field_expr. field_expr @ '' IS NULL'') (sql_typed_field_expr field value)
         else compare_op fmt_float field value ''='')
      else if op = ''_neq'' then
        (if is_null value
         then map_option (\<lambda>field_expr. field_expr @ '' IS NOT NULL'') (sql_typed_field_expr field value)
         else compare_op fmt_float field value ''!='')
      else if op = ''_gt'' then compare_op fmt_float field value ''>''
      else if op = ''_gte'' then compare_op fmt_float field value ''>=''
      else if op = ''_lt'' then compare_op fmt_float field value ''<''
      else if op = ''_lte'' then compare_op fmt_float field value ''<=''
      else if op = ''_in'' then
        (case as_array value of
           Some arr \<Rightarrow>
             map_option (\<lambda>field_expr.
                 field_expr @ '' IN ('' @ join '', '' (map (format_sql_literal fmt_float) arr) @ '')'')
               (sql_typed_field_expr field (case arr of [] \<Rightarrow> JNull | v # _ \<Rightarrow> v))
         | None \<Rightarrow> None)
      else if op = ''_contains'' then
        map_option (\<lambda>s.
          let escaped = escape_sql_string s;
              json_expr = unwrap_or (''data->'' @ q @ field @ q) (sql_json_value_expr field);
              text_expr = unwrap_or (''data->>'' @ q @ field @ q) (sql_field_expr field)
          in ''((jsonb_typeof('' @ json_expr @ '') = '' @ q @ ''array'' @ q @ '' AND '' @ json_expr @ '' ? '' @
             q @ escaped @ q @ '') OR COALESCE('' @ text_expr @ '', '' @ q @ q @ '') ILIKE '' @
             q @ ''%'' @ escaped @ ''%'' @ q @ '')'') (as_str value)
      else if op = ''_starts_with'' then
        (case sql_field_expr field of
           None \<Rightarrow> None
         | Some field_expr \<Rightarrow>
             map_option (\<lambda>s. ''COALESCE('' @ field_expr @ '', '' @ q @ q @ '') ILIKE '' @
               q @ escape_sql_string s @ ''%'' @ q) (as_str value))
      else None)"

definition filter_conditions :: "(rat \<Rightarrow> string) \<Rightarrow> json_map \<Rightarrow> string list" where
  "filter_conditions fmt_float obj =
     concat (map (\<lambda>(field, ops).
       case as_object ops of
         Some ops_obj \<Rightarrow> List.map_filter (\<lambda>(op, value). translate_op fmt_float field op value) ops_obj
       | None \<Rightarrow> []) obj)"

definition filters_to_where :: "(rat \<Rightarrow> string) \<Rightarrow> json \<Rightarrow> string" where
  "filters_to_where fmt_float filters =
     (case as_object filters of
        None \<Rightarrow> []
      | Some obj \<Rightarrow>
          (let conditions = filter_conditions fmt_float obj
           in if conditions = [] then [] else ''WHERE '' @ join '' AND '' conditions))"

text \<open>The projection: \<open>None\<close> is the early return on a field name with another character.\<close>

definition select_fields :: "string list option \<Rightarrow> string option" where
  "select_fields fields =
     (case fields of
        Some (f # fs) \<Rightarrow>
          if \<not> list_all (list_all ident_char) (f # fs) then None
          else Some (let field_list = join '', '' (f # fs)
                     in if ''id'' \<notin> set (f # fs) then ''id, '' @ field_list else field_list)
      | _ \<Rightarrow> Some ''*'')"

definition cursor_part :: "string \<Rightarrow> string option \<Rightarrow> bool \<Rightarrow> string \<Rightarrow> string list" where
  "cursor_part coll order_by descending cursor_id =
     (let safe_cursor = escape_sql_string cursor_id;
          order_field = unwrap_or ''id'' order_by;
          op = (if descending then ''<'' else ''>'')
      in case sql_field_expr order_field of
           Some order_expr \<Rightarrow>
             if order_field = ''id'' then [''id '' @ op @ '' '' @ q @ safe_cursor @ q]
             else [order_expr @ '' '' @ op @ '' (SELECT '' @ order_expr @ '' FROM '' @ coll @
                   '' WHERE id = '' @ q @ safe_cursor @ q @ '')'']
         | None \<Rightarrow> [])"

definition where_parts :: "(rat \<Rightarrow> string) \<Rightarrow> string \<Rightarrow> json option \<Rightarrow> string option \<Rightarrow> bool \<Rightarrow> string option \<Rightarrow> string list" where
  "where_parts fmt_float coll filters order_by descending start_after =
     (case filters of
        Some f \<Rightarrow>
          (let where_clause = filters_to_where fmt_float f
           in if where_clause = [] then [] else [unwrap_or where_clause (strip_prefix ''WHERE '' where_clause)])
      | None \<Rightarrow> []) @
     (case start_after of Some cursor_id \<Rightarrow> cursor_part coll order_by descending cursor_id | None \<Rightarrow> [])"

definition order_clause :: "string option \<Rightarrow> bool \<Rightarrow> string" where
  "order_clause order_by descending =
     (case order_by of
        Some field \<Rightarrow>
          (case sql_field_expr field of
             Some order_expr \<Rightarrow> '' ORDER BY '' @ order_expr @ '' '' @ (if descending then ''DESC'' else ''ASC'')
           | None \<Rightarrow> [])
      | None \<Rightarrow> [])"

definition number_clause :: "string \<Rightarrow> nat option \<Rightarrow> string" where
  "number_clause keyword n = (case n of Some k \<Rightarrow> keyword @ nat_to_string k | None \<Rightarrow> [])"

definition build_select_ext ::
  "(rat \<Rightarrow> string) \<Rightarrow> string \<Rightarrow> json option \<Rightarrow> string option \<Rightarrow> bool \<Rightarrow> nat option \<Rightarrow> nat option
     \<Rightarrow> string list option \<Rightarrow> string option \<Rightarrow> string" where
  "build_select_ext fmt_float coll filters order_by descending lmt offset fields start_after =
     (if \<not> is_ok (validate_identifier coll) then ''SELECT * FROM _invalid_collection WHERE false''
      else (case select_fields fields of
          None \<Rightarrow> ''SELECT * FROM '' @ coll
        | Some sel \<Rightarrow>
            (let parts = where_parts fmt_float coll filters order_by descending start_after
             in ''SELECT '' @ sel @ '' FROM '' @ coll @
                (if parts \<noteq> [] then '' WHERE '' @ join '' AND '' parts else []) @
                order_clause order_by descending @
                number_clause '' LIMIT '' lmt @ number_clause '' OFFSET '' offset)))"

definition build_select ::
  "(rat \<Rightarrow> string) \<Rightarrow> string \<Rightarrow> json option \<Rightarrow> string option \<Rightarrow> bool \<Rightarrow> nat option \<Rightarrow> nat option \<Rightarrow> string" where
  "build_select fmt_float coll filters order_by descending lmt offset =
     build_select_ext fmt_float coll filters order_by descending lmt offset None None"

subsection \<open>Skeletons of statements\<close>

text \<open>
  The scanner of PostgreSQL's lexer. The flag is the server setting: by default (\<open>standard_conforming_strings\<close> on) a
  backslash in a literal is an ordinary character, with the setting off it escapes the next one. Outside a
  literal every character is kept, inside only the quotes are. A balanced fragment leaves the scanner outside.
\<close>

datatype scan = Out | In | Esc

fun scan_step :: "bool \<Rightarrow> scan \<Rightarrow> char \<Rightarrow> scan" where
  "scan_step bs Out c = (if c = CHR 0x27 then In else Out)"
| "scan_step bs In c = (if c = CHR 0x27 then Out else if bs \<and> c = CHR 0x5C then Esc else In)"
| "scan_step bs Esc c = In"

fun kept :: "scan \<Rightarrow> char \<Rightarrow> string" where
  "kept Out c = [c]"
| "kept In c = (if c = CHR 0x27 then [c] else [])"
| "kept Esc c = []"

fun skel :: "bool \<Rightarrow> scan \<Rightarrow> string \<Rightarrow> string" where
  "skel bs st [] = []"
| "skel bs st (c # cs) = kept st c @ skel bs (scan_step bs st c) cs"

fun scan_end :: "bool \<Rightarrow> scan \<Rightarrow> string \<Rightarrow> scan" where
  "scan_end bs st [] = st"
| "scan_end bs st (c # cs) = scan_end bs (scan_step bs st c) cs"

definition skeleton :: "bool \<Rightarrow> string \<Rightarrow> string" where
  "skeleton bs s = skel bs Out s"

definition balanced :: "bool \<Rightarrow> string \<Rightarrow> bool" where
  "balanced bs s \<longleftrightarrow> scan_end bs Out s = Out"

lemma skel_append: "skel bs st (a @ b) = skel bs st a @ skel bs (scan_end bs st a) b"
  by (induction bs st a rule: skel.induct) auto

lemma scan_end_append: "scan_end bs st (a @ b) = scan_end bs (scan_end bs st a) b"
  by (induction bs st a rule: scan_end.induct) auto

lemma scan_out [simp]: "CHR 0x27 \<notin> set s \<Longrightarrow> scan_end bs Out s = Out \<and> skel bs Out s = s"
  by (induction s) auto

lemma scan_in [simp]:
  "CHR 0x27 \<notin> set s \<Longrightarrow> CHR 0x5C \<notin> set s \<Longrightarrow> scan_end bs In s = In \<and> skel bs In s = []"
  by (induction s) auto

text \<open>What the escaping contains: any string with the setting off, strings without a quote by default.\<close>

definition contained :: "bool \<Rightarrow> string \<Rightarrow> bool" where
  "contained bs s \<longleftrightarrow> bs \<or> CHR 0x27 \<notin> set s"

lemma scan_escape [simp]:
  "contained bs s \<Longrightarrow> scan_end bs In (escape_sql_string s) = In"
  "contained bs s \<Longrightarrow> skel bs In (escape_sql_string s) = []"
  by (induction s) (auto simp: contained_def)

lemma skeleton_append: "balanced bs a \<Longrightarrow> skeleton bs (a @ b) = skeleton bs a @ skeleton bs b"
  by (simp add: skeleton_def balanced_def skel_append)

lemma balanced_append: "balanced bs a \<Longrightarrow> balanced bs b \<Longrightarrow> balanced bs (a @ b)"
  by (simp add: balanced_def scan_end_append)

lemma ident_not_quote: "safe_identifier f \<Longrightarrow> CHR 0x27 \<notin> set f \<and> CHR 0x5C \<notin> set f"
  using safe_identifier_chars [of f "CHR 0x27"] safe_identifier_chars [of f "CHR 0x5C"]
  by (auto simp: ascii_defs)

text \<open>Two fragments are alike when both are balanced and have the same skeleton.\<close>

definition alike :: "bool \<Rightarrow> string \<Rightarrow> string \<Rightarrow> bool" where
  "alike bs a b \<longleftrightarrow> balanced bs a \<and> balanced bs b \<and> skeleton bs a = skeleton bs b"

lemma alike_append [intro]: "alike bs a b \<Longrightarrow> alike bs c d \<Longrightarrow> alike bs (a @ c) (b @ d)"
  by (simp add: alike_def balanced_append skeleton_append)

lemma alike_refl [intro]: "balanced bs a \<Longrightarrow> alike bs a a"
  by (simp add: alike_def)

lemma alike_literal: "contained bs s \<Longrightarrow> contained bs t \<Longrightarrow> alike bs (q @ escape_sql_string s @ q) (q @ escape_sql_string t @ q)"
  by (simp add: alike_def balanced_def skeleton_def q_def scan_end_append skel_append)

lemma balanced_text [intro]: "CHR 0x27 \<notin> set a \<Longrightarrow> balanced bs a"
  by (simp add: balanced_def)

lemma alike_join:
  "list_all2 (alike bs) xs ys \<Longrightarrow> balanced bs sep \<Longrightarrow> alike bs (join sep xs) (join sep ys)"
proof (induction sep xs arbitrary: ys rule: join.induct)
  case (3 sep s t ss)
  then obtain s' t' ss' where "ys = s' # t' # ss'" "alike bs s s'" "list_all2 (alike bs) (t # ss) (t' # ss')"
    by (auto simp: list_all2_Cons1)
  then show ?case using 3 by (auto intro!: alike_append)
qed (auto simp: list_all2_Cons1 intro!: alike_refl balanced_text)

lemma balanced_quoted:
  "safe_identifier f \<Longrightarrow> balanced bs (q @ f @ q)"
  "safe_identifier f \<Longrightarrow> balanced bs r \<Longrightarrow> balanced bs (q @ f @ q @ r)"
  "balanced bs r \<Longrightarrow> balanced bs (q @ q @ r)"
  using ident_not_quote [of f] by (simp_all add: balanced_def q_def scan_end_append)

lemma balanced_columns:
  assumes "safe_identifier f"
  shows "balanced bs (''data->>'' @ q @ f @ q)"
    and "balanced bs (''data->'' @ q @ f @ q)"
    and "balanced bs (''NULLIF(data->>'' @ q @ f @ q @ '', '' @ q @ q @ '')::numeric'')"
    and "balanced bs (''NULLIF(data->>'' @ q @ f @ q @ '', '' @ q @ q @ '')::boolean'')"
  by (intro balanced_append [OF balanced_text] balanced_quoted assms balanced_text; simp)+

lemma balanced_constants:
  "balanced bs ''id''" "balanced bs ''created_at''" "balanced bs ''updated_at''"
  "balanced bs ''to_jsonb(id)''" "balanced bs ''to_jsonb(created_at)''" "balanced bs ''to_jsonb(updated_at)''"
  "balanced bs ''EXTRACT(EPOCH FROM created_at)''" "balanced bs ''EXTRACT(EPOCH FROM updated_at)''"
  by (intro balanced_text; simp)+

lemma sql_field_expr_balanced: "sql_field_expr f = Some e \<Longrightarrow> balanced bs e"
  using balanced_columns [of f] balanced_constants
  by (auto simp: sql_field_expr_def simp del: append.simps split: if_split_asm)

lemma sql_json_value_expr_balanced: "sql_json_value_expr f = Some e \<Longrightarrow> balanced bs e"
  using balanced_columns [of f] balanced_constants
  by (auto simp: sql_json_value_expr_def simp del: append.simps split: if_split_asm)

lemma sql_typed_field_expr_balanced: "sql_typed_field_expr f v = Some e \<Longrightarrow> balanced bs e"
  using balanced_columns [of f] balanced_constants sql_field_expr_balanced
  by (cases v) (auto simp: sql_typed_field_expr_def simp del: append.simps split: if_split_asm)

text \<open>All string values of a filter emptied; keys, numbers, booleans and structure kept.\<close>

fun blank :: "json \<Rightarrow> json" where
  "blank (JString s) = JString []"
| "blank (JArray vs) = JArray (map blank vs)"
| "blank (JObject m) = JObject (map (\<lambda>(k, v). (k, blank v)) m)"
| "blank v = v"

fun contained_value :: "bool \<Rightarrow> json \<Rightarrow> bool" where
  "contained_value bs (JString s) = contained bs s"
| "contained_value bs (JArray vs) = list_all (contained_value bs) vs"
| "contained_value bs (JObject m) = list_all (\<lambda>(k, v). contained bs k \<and> contained_value bs v) m"
| "contained_value bs v = True"

definition plain_floats :: "(rat \<Rightarrow> string) \<Rightarrow> bool" where
  "plain_floats fmt_float \<longleftrightarrow> (\<forall>x. CHR 0x27 \<notin> set (fmt_float x))"

lemma blank_shape [simp]:
  "is_null (blank v) = is_null v"
  "sql_typed_field_expr f (blank v) = sql_typed_field_expr f v"
  "as_str (blank v) = map_option (\<lambda>_. []) (as_str v)"
  "as_array (blank v) = map_option (map blank) (as_array v)"
  "as_object (blank v) = map_option (map (\<lambda>(k, v). (k, blank v))) (as_object v)"
  by (cases v; simp add: sql_typed_field_expr_def)+

lemma nat_to_string_no_quote [simp]: "CHR 0x27 \<notin> set (nat_to_string n)"
  using nat_to_string_digits by (fastforce simp: ascii_defs)

lemma balanced_number: "plain_floats ff \<Longrightarrow> balanced bs (number_to_string ff n)"
  by (cases n) (auto simp: int_to_string_def plain_floats_def)

lemma set_join: "set (join sep xs) \<subseteq> set sep \<union> (\<Union>x \<in> set xs. set x)"
  by (induction sep xs rule: join.induct) auto

lemma hex_digit_no_quote: "d < 16 \<Longrightarrow> hex_digit d \<noteq> CHR 0x27"
proof -
  have "list_all (\<lambda>d. hex_digit d \<noteq> CHR 0x27) [0..<16]" by code_simp
  then show "d < 16 \<Longrightarrow> hex_digit d \<noteq> CHR 0x27" by (simp only: list_all_iff set_upt atLeastLessThan_iff le0 simp_thms)
qed

lemma json_escape_no_quote: "c \<noteq> CHR 0x27 \<Longrightarrow> CHR 0x27 \<notin> set (json_escape_char c)"
proof (cases "byte c < 32")
  case True
  then have "byte c div 16 < 16" "byte c mod 16 < 16" by simp_all
  note hex = this [THEN hex_digit_no_quote]
  then show ?thesis using True unfolding json_escape_char_def by simp
qed (simp add: json_escape_char_def)

lemma json_quote_no_quote: "CHR 0x27 \<notin> set s \<Longrightarrow> CHR 0x27 \<notin> set (json_quote s)"
proof (induction s)
  case (Cons c s)
  then have "CHR 0x27 \<notin> set (json_escape_char c)" by (intro json_escape_no_quote) auto
  with Cons show ?case by (simp add: json_quote_def)
qed (simp add: json_quote_def)

lemma contained_json:
  assumes "plain_floats ff"
  shows "contained_value bs v \<Longrightarrow> contained bs (json_to_string ff v)"
proof (cases bs)
  case False
  have num: "CHR 0x27 \<notin> set (number_to_string ff n)" for n
    using assms by (cases n) (auto simp: int_to_string_def plain_floats_def)
  have "contained_value False v \<Longrightarrow> CHR 0x27 \<notin> set (json_to_string ff v)"
  proof (induction v)
    case (JArray vs)
    then show ?case using set_join [of "'',''" "map (json_to_string ff) vs"] by (fastforce simp: list_all_iff)
  next
    case (JObject m)
    have "CHR 0x27 \<notin> set (json_quote k @ '':'' @ json_to_string ff v)" if "(k, v) \<in> set m" for k v
      using JObject that json_quote_no_quote [of k] by (fastforce simp: list_all_iff contained_def)
    then show ?case using set_join [of "'',''" "map (\<lambda>(k, v). json_quote k @ '':'' @ json_to_string ff v) m"] by fastforce
  qed (auto simp: num json_quote_no_quote contained_def)
  then show "contained_value bs v \<Longrightarrow> contained bs (json_to_string ff v)" using False by (simp add: contained_def)
qed (simp add: contained_def)

lemma contained_blank: "contained_value bs v \<Longrightarrow> contained_value bs (blank v)"
proof (induction v)
  case (JObject m)
  then show ?case by (fastforce simp: list_all_iff)
qed (auto simp: list_all_iff contained_def)

lemma alike_format_sql_literal:
  assumes "plain_floats ff" "contained_value bs v"
  shows "alike bs (format_sql_literal ff v) (format_sql_literal ff (blank v))"
proof (cases v)
  case JNull
  then show ?thesis by (auto intro!: alike_refl balanced_text)
next
  case (JBool b)
  then show ?thesis by (auto intro!: alike_refl balanced_text)
next
  case (JNumber n)
  then show ?thesis using assms by (auto intro!: alike_refl balanced_number)
next
  case (JString s)
  then show ?thesis using assms(2) alike_literal [of bs s "[]"] by (simp add: contained_def)
next
  case (JArray vs)
  then show ?thesis
    using alike_literal [OF contained_json [OF assms] contained_json [OF assms(1) contained_blank [OF assms(2)]]]
    by (simp only: blank.simps format_sql_literal.simps)
next
  case (JObject m)
  then show ?thesis
    using alike_literal [OF contained_json [OF assms] contained_json [OF assms(1) contained_blank [OF assms(2)]]]
    by (simp only: blank.simps format_sql_literal.simps)
qed

lemma alike_compare_op:
  assumes "plain_floats ff" "contained_value bs v" and sym: "CHR 0x27 \<notin> set symbol"
  shows "rel_option (alike bs) (compare_op ff f v symbol) (compare_op ff f (blank v) symbol)"
proof (cases "sql_typed_field_expr f v")
  case (Some e)
  have "alike bs (e @ '' '' @ symbol @ '' '' @ format_sql_literal ff v)
      (e @ '' '' @ symbol @ '' '' @ format_sql_literal ff (blank v))"
    using sql_typed_field_expr_balanced [OF Some] sym
    by (intro alike_append alike_format_sql_literal assms) (simp_all add: alike_refl balanced_text)
  then show ?thesis using Some by (simp add: compare_op_def)
qed (simp add: compare_op_def)

lemmas alike_unfold = alike_def balanced_def skeleton_def q_def scan_end_append skel_append

lemma alike_in:
  assumes "plain_floats ff" "list_all (contained_value bs) vs"
  shows "alike bs (join '', '' (map (format_sql_literal ff) vs)) (join '', '' (map (format_sql_literal ff) (map blank vs)))"
  by (rule alike_join)
    (use assms in \<open>auto simp: list_all2_map1 list_all2_map2 alike_format_sql_literal balanced_text list_all_iff intro!: list.rel_refl_strong\<close>)

lemma translate_in:
  assumes "plain_floats ff" "contained_value bs v"
  shows "rel_option (alike bs) (translate_op ff f ''_in'' v) (translate_op ff f ''_in'' (blank v))"
proof (cases "as_array v")
  case (Some vs)
  then have vs: "list_all (contained_value bs) vs" using assms(2) by (cases v) auto
  have hint: "sql_typed_field_expr f (case map blank vs of [] \<Rightarrow> JNull | v # _ \<Rightarrow> v) =
      sql_typed_field_expr f (case vs of [] \<Rightarrow> JNull | v # _ \<Rightarrow> v)"
    by (cases vs) simp_all
  have "alike bs (e @ '' IN ('' @ join '', '' (map (format_sql_literal ff) vs) @ '')'')
      (e @ '' IN ('' @ join '', '' (map (format_sql_literal ff) (map blank vs)) @ '')'')"
    if "sql_typed_field_expr f (case vs of [] \<Rightarrow> JNull | v # _ \<Rightarrow> v) = Some e" for e
    using sql_typed_field_expr_balanced [OF that]
    by (intro alike_append alike_in assms vs) (simp_all add: alike_refl balanced_text)
  then show ?thesis
    using Some by (cases "sql_typed_field_expr f (case vs of [] \<Rightarrow> JNull | v # _ \<Rightarrow> v)")
      (simp_all add: translate_op_def hint del: append.simps map_map)
qed (simp add: translate_op_def)

lemma contained_str: "contained_value bs v \<Longrightarrow> as_str v = Some s \<Longrightarrow> contained bs s"
  by (cases v) auto

lemma contained_Nil [simp]: "contained bs []"
  by (simp add: contained_def)

lemma translate_contains:
  assumes "contained_value bs v"
  shows "rel_option (alike bs) (translate_op ff f ''_contains'' v) (translate_op ff f ''_contains'' (blank v))"
proof (cases "safe_identifier f \<and> (\<exists>s. as_str v = Some s)")
  case True
  then obtain s where s: "as_str v = Some s" by blast
  have c: "contained bs s" by (rule contained_str [OF assms s])
  obtain je te where e: "sql_json_value_expr f = Some je" "sql_field_expr f = Some te"
    using True by (simp add: sql_json_value_expr_def sql_field_expr_def)
  have "alike bs (''((jsonb_typeof('' @ je @ '') = '' @ q @ ''array'' @ q @ '' AND '' @ je @ '' ? '' @
        q @ escape_sql_string s @ q @ '') OR COALESCE('' @ te @ '', '' @ q @ q @ '') ILIKE '' @
        q @ ''%'' @ escape_sql_string s @ ''%'' @ q @ '')'')
      (''((jsonb_typeof('' @ je @ '') = '' @ q @ ''array'' @ q @ '' AND '' @ je @ '' ? '' @
        q @ escape_sql_string [] @ q @ '') OR COALESCE('' @ te @ '', '' @ q @ q @ '') ILIKE '' @
        q @ ''%'' @ escape_sql_string [] @ ''%'' @ q @ '')'')"
    using sql_json_value_expr_balanced [OF e(1)] sql_field_expr_balanced [OF e(2)]
    by (simp add: alike_unfold c del: escape_sql_string_simps)
  then show ?thesis
    using True s e by (simp add: translate_op_def unwrap_or_def Let_def del: append.simps escape_sql_string_simps)
next
  case False
  then show ?thesis by (cases "as_str v") (auto simp: translate_op_def)
qed

lemma translate_starts_with:
  assumes "contained_value bs v"
  shows "rel_option (alike bs) (translate_op ff f ''_starts_with'' v) (translate_op ff f ''_starts_with'' (blank v))"
proof (cases "sql_field_expr f")
  case (Some e)
  have "alike bs (''COALESCE('' @ e @ '', '' @ q @ q @ '') ILIKE '' @ q @ escape_sql_string s @ ''%'' @ q)
      (''COALESCE('' @ e @ '', '' @ q @ q @ '') ILIKE '' @ q @ escape_sql_string [] @ ''%'' @ q)" if "as_str v = Some s" for s
    using sql_field_expr_balanced [OF Some] contained_str [OF assms that] by (simp add: alike_unfold del: escape_sql_string_simps)
  then show ?thesis
    using Some by (cases "as_str v") (simp_all add: translate_op_def del: append.simps escape_sql_string_simps)
qed (simp add: translate_op_def)

lemma translate_op_alike:
  assumes "plain_floats ff" "contained_value bs v"
  shows "rel_option (alike bs) (translate_op ff f op v) (translate_op ff f op (blank v))"
proof -
  have null: "rel_option (alike bs) (map_option (\<lambda>e. e @ t) (sql_typed_field_expr f v))
      (map_option (\<lambda>e. e @ t) (sql_typed_field_expr f v))" if "CHR 0x27 \<notin> set t" for t
    using sql_typed_field_expr_balanced [of f v] that
    by (cases "sql_typed_field_expr f v") (simp_all add: alike_refl balanced_append balanced_text)
  consider "op \<in> {''_in'', ''_contains'', ''_starts_with''}"
    | "op \<in> {''_eq'', ''_neq''}" | "op \<in> {''_gt'', ''_gte'', ''_lt'', ''_lte''}"
    | "op \<notin> {''_in'', ''_contains'', ''_starts_with'', ''_eq'', ''_neq'', ''_gt'', ''_gte'', ''_lt'', ''_lte''}"
    by auto
  then show ?thesis
  proof cases
    case 1
    then show ?thesis using translate_in [OF assms] translate_contains [OF assms(2)] translate_starts_with [OF assms(2)] by auto
  next
    case 2
    then show ?thesis
      using null alike_compare_op [OF assms, of _ f] by (auto simp: translate_op_def)
  next
    case 3
    then show ?thesis using alike_compare_op [OF assms, of _ f] by (auto simp: translate_op_def)
  next
    case 4
    then show ?thesis by (simp add: translate_op_def)
  qed
qed

lemma map_filter_alike:
  "(\<And>x. x \<in> set xs \<Longrightarrow> rel_option (alike bs) (f x) (g x)) \<Longrightarrow>
     list_all2 (alike bs) (List.map_filter f xs) (List.map_filter g xs)"
proof (induction xs)
  case (Cons x xs)
  have "rel_option (alike bs) (f x) (g x)" by (rule Cons.prems) simp
  moreover have "list_all2 (alike bs) (List.map_filter f xs) (List.map_filter g xs)"
    by (rule Cons.IH, rule Cons.prems) simp
  ultimately show ?case by (cases "f x"; cases "g x") (simp_all add: List.map_filter_simps)
qed (simp add: List.map_filter_simps)

lemma filter_conditions_alike:
  assumes "plain_floats ff" "contained_value bs (JObject obj)"
  shows "list_all2 (alike bs) (filter_conditions ff obj) (filter_conditions ff (map (\<lambda>(k, v). (k, blank v)) obj))"
  using assms(2)
proof (induction obj)
  case (Cons p obj)
  obtain f ops where p: "p = (f, ops)" by (cases p)
  have mf: "List.map_filter (\<lambda>(op, value). translate_op ff f op value) (map (\<lambda>(k, v). (k, blank v)) m) =
      List.map_filter (\<lambda>(op, value). translate_op ff f op (blank value)) m" for m
    by (induction m) (auto simp: List.map_filter_simps split: option.split)
  have "list_all2 (alike bs) (List.map_filter (\<lambda>(op, value). translate_op ff f op value) m)
      (List.map_filter (\<lambda>(op, value). translate_op ff f op (blank value)) m)" if "contained_value bs (JObject m)" for m
    by (rule map_filter_alike) (use that in \<open>auto simp: translate_op_alike assms(1) list_all_iff\<close>)
  then have "list_all2 (alike bs) (filter_conditions ff [p]) (filter_conditions ff [(f, blank ops)])"
    using Cons.prems by (cases ops) (auto simp: filter_conditions_def p mf)
  with Cons show ?case by (auto simp: filter_conditions_def p intro!: list_all2_appendI)
qed (simp add: filter_conditions_def)

lemma where_parts_alike:
  assumes "plain_floats ff" and coll: "safe_identifier coll"
    and "pred_option (contained_value bs) filters" "pred_option (contained bs) start_after"
  shows "list_all2 (alike bs) (where_parts ff coll filters order_by descending start_after)
    (where_parts ff coll (map_option blank filters) order_by descending (map_option (\<lambda>_. []) start_after))"
proof -
  have filters: "list_all2 (alike bs) (where_parts ff coll filters order_by descending None)
      (where_parts ff coll (map_option blank filters) order_by descending None)"
  proof (cases filters)
    case (Some f)
    show ?thesis
    proof (cases "as_object f")
      case obj: (Some obj)
      have "contained_value bs (JObject obj)" using assms(3) Some obj by (cases f) auto
      note al = filter_conditions_alike [OF assms(1) this]
      from list_all2_lengthD [OF al]
      have "filter_conditions ff (map (\<lambda>(k, v). (k, blank v)) obj) = [] \<longleftrightarrow> filter_conditions ff obj = []"
        by auto
      moreover have "alike bs (join '' AND '' (filter_conditions ff obj))
          (join '' AND '' (filter_conditions ff (map (\<lambda>(k, v). (k, blank v)) obj)))"
        by (rule alike_join [OF al]) (simp add: balanced_text)
      ultimately show ?thesis
        using Some obj
        by (simp add: where_parts_def filters_to_where_def Let_def unwrap_or_def del: append.simps)
    qed (simp add: where_parts_def filters_to_where_def Some)
  qed (simp add: where_parts_def)
  have "list_all2 (alike bs) (cursor_part coll order_by descending s) (cursor_part coll order_by descending [])" if "contained bs s" for s
    using that sql_field_expr_balanced ident_not_quote [OF coll]
    by (auto simp: cursor_part_def Let_def alike_unfold simp del: escape_sql_string_simps split: option.split)
  with filters assms(4) show ?thesis
    by (cases start_after) (auto simp: where_parts_def intro!: list_all2_appendI)
qed

lemma select_fields_balanced: "select_fields fields = Some sel \<Longrightarrow> balanced bs sel"
proof -
  assume sel: "select_fields fields = Some sel"
  have quote: "\<not> ident_char (CHR 0x27)" by (simp add: ident_char_def ascii_defs)
  have "CHR 0x27 \<notin> set (join '', '' fs)" if "list_all (list_all ident_char) fs" for fs
    using set_join [of "'', ''" fs] that quote by (fastforce simp: list_all_iff)
  with sel show ?thesis
    by (auto simp: select_fields_def Let_def split: option.splits list.splits if_splits intro!: balanced_text)
qed

lemma quote_breaks_out:
  "skeleton False (build_select fmt_float ''users'' (Some (JObject [(''name'', JObject [(''_eq'', JString (''x'' @ q @ '' OR true --''))])])) None False None None) =
    ''SELECT * FROM users WHERE data->>'' @ q @ q @ '' = '' @ q @ q @ '' OR true --'' @ q"
proof -
  have "safe_identifier ''users''" "safe_identifier ''name''" by (simp_all add: safe_identifier_def ident_char_def ascii_defs)
  then show ?thesis
    by (simp add: build_select_def build_select_ext_def select_fields_def where_parts_def filters_to_where_def filter_conditions_def
        List.map_filter_simps translate_op_def compare_op_def sql_typed_field_expr_def sql_field_expr_def is_probably_numeric_field_def ends_with_def order_clause_def number_clause_def
        unwrap_or_def strip_prefix_def starts_with_def q_def skeleton_def)
qed

text \<open>
  C3. Which strings can change the shape of a statement: the skeleton of a generated statement, everything
  outside its string literals, does not depend on the strings in the filters and the cursor, for strings without a
  single quote under PostgreSQL's default reading of literals, and for all strings on a server that has
  \<open>standard_conforming_strings\<close> off, the reading the escaping is made for. The other inputs that reach the statement (collection,
  fields, order) are validated identifiers. By default a quote in a value does change the shape: the text after it
  becomes part of the statement.
\<close>

theorem build_select_injection:
  assumes "plain_floats fmt_float"
    and "pred_option (contained_value bs) filters" "pred_option (contained bs) start_after"
  shows "skeleton bs (build_select_ext fmt_float coll filters order_by descending lmt offset fields start_after) =
      skeleton bs (build_select_ext fmt_float coll (map_option blank filters) order_by descending lmt offset fields
        (map_option (\<lambda>_. []) start_after)) \<and>
    skeleton False (build_select fmt_float ''users'' (Some (JObject [(''name'', JObject [(''_eq'', JString (''x'' @ q @ '' OR true --''))])])) None False None None) =
      ''SELECT * FROM users WHERE data->>'' @ q @ q @ '' = '' @ q @ q @ '' OR true --'' @ q"
proof (cases "safe_identifier coll")
  case True
  let ?ps = "where_parts fmt_float coll filters order_by descending start_after"
  let ?qs = "where_parts fmt_float coll (map_option blank filters) order_by descending (map_option (\<lambda>_. []) start_after)"
  note al = where_parts_alike [OF assms(1) True assms(2,3), of order_by descending]
  have "?ps = [] \<longleftrightarrow> ?qs = []" using list_all2_lengthD [OF al] by auto
  moreover have "alike bs (join '' AND '' ?ps) (join '' AND '' ?qs)"
    by (rule alike_join [OF al]) (simp add: balanced_text)
  moreover have "balanced bs sel" if "select_fields fields = Some sel" for sel
    using select_fields_balanced [OF that] .
  ultimately have "skeleton bs (build_select_ext fmt_float coll filters order_by descending lmt offset fields start_after) =
      skeleton bs (build_select_ext fmt_float coll (map_option blank filters) order_by descending lmt offset fields (map_option (\<lambda>_. []) start_after))"
    using ident_not_quote [OF True]
    by (auto simp: build_select_ext_def Let_def alike_unfold split: option.split)
  then show ?thesis using quote_breaks_out by blast
qed (use quote_breaks_out in \<open>simp add: build_select_ext_def\<close>)

theorem build_select_injection_witness:
  "skeleton False (build_select_ext (\<lambda>_. ''0.5'') ''users''
     (Some (JObject [(''name'', JObject [(''_eq'', JString (''x OR true --''))])])) None False (Some 10) None None (Some ''u1'')) =
   skeleton False (build_select_ext (\<lambda>_. ''0.5'') ''users''
     (Some (JObject [(''name'', JObject [(''_eq'', JString [])])])) None False (Some 10) None None (Some []))"
  using build_select_injection [of "\<lambda>_. ''0.5''" False
      "Some (JObject [(''name'', JObject [(''_eq'', JString (''x OR true --''))])])" "Some ''u1''" "''users''" None False "Some 10" None None]
  by (simp add: plain_floats_def contained_def)

subsection \<open>Rejected inputs\<close>

text \<open>
  A projection with one malformed field name discards the whole request: the statement selects
  every column of every row of the collection, with the filters, the cursor, the order and the
  limit all dropped.
\<close>

theorem malformed_projection_drops_filters:
  assumes "safe_identifier coll" and "f \<in> set fields" and "\<not> list_all ident_char f"
  shows "build_select_ext fmt_float coll filters order_by descending lmt offset (Some fields) start_after =
    ''SELECT * FROM '' @ coll"
proof -
  have "\<not> list_all (list_all ident_char) fields" "fields \<noteq> []" using assms by (auto simp: list_all_iff)
  then have "select_fields (Some fields) = None" by (cases fields) (auto simp: select_fields_def)
  with assms(1) show ?thesis by (simp add: build_select_ext_def)
qed

theorem malformed_projection_drops_filters_witness:
  "build_select_ext (\<lambda>_. []) ''orders'' (Some (JObject [(''ownerId'', JObject [(''_eq'', JString ''u1'')])]))
     None False (Some 1) None (Some [''total'', ''a.b'']) None = ''SELECT * FROM orders''"
  using malformed_projection_drops_filters [of "''orders''" "''a.b''" "[''total'', ''a.b'']" "\<lambda>_. []"
      "Some (JObject [(''ownerId'', JObject [(''_eq'', JString ''u1'')])])" None False "Some 1" None None]
  by (simp add: safe_identifier_def ident_char_def ascii_defs)

end
