(* ===== verification/Task_Queue.thy ===== *)
theory Task_Queue
  imports Rules_Parser "HOL-Library.Multiset"
begin

text \<open>
  The background task queue (\<open>crates/ob-database/src/task_queue.rs\<close>). The table \<open>_task_queue\<close> is a
  list of rows in an arbitrary physical order; every SQL statement of the source is a function on
  it, run by \<open>sql\<close>, which first consumes one entry of a schedule of database faults. Times are
  microseconds since the epoch and are inputs. The uuid, chrono and jsonb conversions belong to
  libraries and to the database and are the fields of \<open>task_env\<close>.
\<close>

subsection \<open>Rows, tasks, requests\<close>

datatype TaskStatus = Pending | Running | Completed | Failed | DeadLetter

record task_row =
  row_id :: nat
  job_name :: string
  queue :: string
  status :: string
  payload :: json
  scheduled_at :: "int option"
  locked_at :: "int option"
  completed_at :: "int option"
  error_message :: "string option"
  retry_count :: int
  max_retries :: int
  created_at :: int

record Task =
  t_task_type :: string
  t_payload :: json
  t_status :: TaskStatus
  t_queue :: string
  t_attempts :: nat
  t_max_retries :: nat
  t_scheduled_at :: "string option"
  t_created_at :: string
  t_started_at :: "string option"
  t_finished_at :: "string option"
  t_last_error :: "string option"
  t_priority :: int

record EnqueueRequest =
  q_task_type :: string
  q_payload :: json
  q_queue :: string
  q_max_retries :: nat
  q_delay_secs :: nat
  q_priority :: int

record task_env =
  parse_uuid :: "string \<Rightarrow> string + nat"
  uuid_to_string :: "nat \<Rightarrow> string"
  to_rfc3339 :: "int \<Rightarrow> string"
  time_add :: "int \<Rightarrow> int \<Rightarrow> int option"
  to_jsonb :: "json \<Rightarrow> string + json"
  duplicate_key :: string
  integer_overflow :: string

record tq_state =
  rows :: "task_row list"
  faults :: "string option list"

type_synonym 'a tq_action = "(tq_state, rust_fault, 'a) action"

definition default_queue :: string where
  "default_queue = ''default''"

definition default_max_retries :: nat where
  "default_max_retries = 3"

definition EnqueueRequest_default :: EnqueueRequest where
  "EnqueueRequest_default =
     \<lparr>q_task_type = [], q_payload = JNull, q_queue = default_queue, q_max_retries = default_max_retries,
      q_delay_secs = 0, q_priority = 0\<rparr>"

text \<open>\<open>as i32\<close>, \<open>as u32\<close>, \<open>as i64\<close> between integer types of one width keep the bits.\<close>

definition as_i32 :: "int \<Rightarrow> int" where
  "as_i32 x = (x + 2 ^ 31) mod 2 ^ 32 - 2 ^ 31"

definition as_u32 :: "int \<Rightarrow> nat" where
  "as_u32 x = nat (x mod 2 ^ 32)"

subsection \<open>Statements\<close>

text \<open>One statement: a fault of the schedule or an error of the statement itself becomes a database
  error with the operation's prefix, and a failed statement changes nothing.\<close>

definition sql :: "string \<Rightarrow> (task_row list \<Rightarrow> string + ('a \<times> task_row list)) \<Rightarrow> 'a tq_action" where
  "sql prefx stmt s =
     (case faults s of
        Some e # fs \<Rightarrow> (Inl (Fail (Database (prefx @ e))), s\<lparr>faults := fs\<rparr>)
      | fs \<Rightarrow>
          (case stmt (rows s) of
             Inl e \<Rightarrow> (Inl (Fail (Database (prefx @ e))), s\<lparr>faults := tl fs\<rparr>)
           | Inr (x, rs) \<Rightarrow> (Inr x, s\<lparr>rows := rs, faults := tl fs\<rparr>)))"

definition select_all :: "(task_row \<Rightarrow> bool) \<Rightarrow> task_row list \<Rightarrow> string + (task_row list \<times> task_row list)" where
  "select_all P rs = Inr (filter P rs, rs)"

text \<open>\<open>UPDATE ... WHERE\<close>, with the number of rows affected.\<close>

definition update_where ::
  "(task_row \<Rightarrow> task_row) \<Rightarrow> (task_row \<Rightarrow> bool) \<Rightarrow> task_row list \<Rightarrow> string + (nat \<times> task_row list)" where
  "update_where f P rs = Inr (length (filter P rs), map (\<lambda>r. if P r then f r else r) rs)"

definition ensure_schema :: "unit tq_action" where
  "ensure_schema =
     abind (sql ''Failed to create _task_queue table: '' (\<lambda>rs. Inr ((), rs))) (\<lambda>_.
     abind (sql ''Schema migration failed: '' (\<lambda>rs. Inr ((), rs))) (\<lambda>_.
     areturn ()))"

fun status_of_string :: "string \<Rightarrow> TaskStatus option" where
  "status_of_string s =
     (if s = ''pending'' then Some Pending
      else if s = ''running'' then Some Running
      else if s = ''completed'' then Some Completed
      else if s = ''failed'' then Some Failed
      else if s = ''dead_letter'' then Some DeadLetter
      else None)"

fun status_to_string :: "TaskStatus \<Rightarrow> string" where
  "status_to_string Pending = ''pending''"
| "status_to_string Running = ''running''"
| "status_to_string Completed = ''completed''"
| "status_to_string Failed = ''failed''"
| "status_to_string DeadLetter = ''dead_letter''"

definition row_to_task :: "task_env \<Rightarrow> task_row \<Rightarrow> Task" where
  "row_to_task env row =
     \<lparr>t_task_type = job_name row,
      t_payload = payload row,
      t_status = (case status_of_string (status row) of Some st \<Rightarrow> st | None \<Rightarrow> Pending),
      t_queue = queue row,
      t_attempts = as_u32 (retry_count row),
      t_max_retries = as_u32 (max_retries row),
      t_scheduled_at = map_option (to_rfc3339 env) (scheduled_at row),
      t_created_at = to_rfc3339 env (created_at row),
      t_started_at = map_option (to_rfc3339 env) (locked_at row),
      t_finished_at = map_option (to_rfc3339 env) (completed_at row),
      t_last_error = error_message row,
      t_priority = 0\<rparr>"

definition json_opt :: "string option \<Rightarrow> json" where
  "json_opt v = (case v of Some s \<Rightarrow> JString s | None \<Rightarrow> JNull)"

text \<open>The derived \<open>Serialize\<close> of \<open>Task\<close>.\<close>

definition task_to_json :: "Task \<Rightarrow> json" where
  "task_to_json t = json_obj [
     (''task_type'', JString (t_task_type t)), (''payload'', t_payload t),
     (''status'', JString (status_to_string (t_status t))), (''queue'', JString (t_queue t)),
     (''attempts'', json_int (int (t_attempts t))), (''max_retries'', json_int (int (t_max_retries t))),
     (''scheduled_at'', json_opt (t_scheduled_at t)), (''created_at'', JString (t_created_at t)),
     (''started_at'', json_opt (t_started_at t)), (''finished_at'', json_opt (t_finished_at t)),
     (''last_error'', json_opt (t_last_error t)), (''priority'', json_int (t_priority t))]"

subsection \<open>Operations\<close>

text \<open>A time computation of chrono panics when it leaves chrono's range.\<close>

definition add_secs :: "task_env \<Rightarrow> int \<Rightarrow> int \<Rightarrow> int tq_action" where
  "add_secs env t secs = alift (ok_or Panic (time_add env t secs))"

text \<open>The row an \<open>INSERT\<close> of a request creates, with the defaults of the table.\<close>

definition new_row :: "nat \<Rightarrow> int \<Rightarrow> EnqueueRequest \<Rightarrow> json \<Rightarrow> int option \<Rightarrow> task_row" where
  "new_row i db_now req body sched =
     \<lparr>row_id = i, job_name = q_task_type req, queue = q_queue req, status = ''pending'', payload = body,
      scheduled_at = sched, locked_at = None, completed_at = None, error_message = None,
      retry_count = 0, max_retries = as_i32 (int (q_max_retries req)), created_at = db_now\<rparr>"

definition insert_stmt ::
  "task_env \<Rightarrow> nat \<Rightarrow> int \<Rightarrow> EnqueueRequest \<Rightarrow> int option \<Rightarrow> task_row list \<Rightarrow> string + (task_row \<times> task_row list)" where
  "insert_stmt env i db_now req sched rs =
     rbind (to_jsonb env (q_payload req)) (\<lambda>body.
       if i \<in> row_id ` set rs then Inl (duplicate_key env)
       else (let r = new_row i db_now req body sched in Inr (r, rs @ [r])))"

definition enqueue :: "task_env \<Rightarrow> nat \<Rightarrow> int \<Rightarrow> int \<Rightarrow> EnqueueRequest \<Rightarrow> json tq_action" where
  "enqueue env i now db_now req =
     abind ensure_schema (\<lambda>_.
     abind (if 0 < q_delay_secs req
            then abind (add_secs env now (wrap_i64 (int (q_delay_secs req)))) (\<lambda>t. areturn (Some t))
            else areturn None) (\<lambda>sched.
     abind (sql ''Enqueue failed: '' (insert_stmt env i db_now req sched)) (\<lambda>row.
       areturn (task_to_json (row_to_task env row)))))"

text \<open>Each request of a batch comes with the id and the clock readings of its insertion.\<close>

fun enqueue_batch :: "task_env \<Rightarrow> (nat \<times> int \<times> int \<times> EnqueueRequest) list \<Rightarrow> json list tq_action" where
  "enqueue_batch env [] = areturn []"
| "enqueue_batch env ((i, now, db_now, req) # reqs) =
     abind (enqueue env i now db_now req) (\<lambda>v.
     abind (enqueue_batch env reqs) (\<lambda>vs. areturn (v # vs)))"

definition eligible :: "string \<Rightarrow> int \<Rightarrow> task_row \<Rightarrow> bool" where
  "eligible qn now r \<longleftrightarrow>
     queue r = qn \<and> status r = ''pending'' \<and>
     (case scheduled_at r of None \<Rightarrow> True | Some t \<Rightarrow> t \<le> now)"

definition claim_select :: "string \<Rightarrow> int \<Rightarrow> task_row list \<Rightarrow> task_row option" where
  "claim_select qn now rs =
     (case sort_key created_at (filter (eligible qn now) rs) of [] \<Rightarrow> None | r # _ \<Rightarrow> Some r)"

definition claimed :: "int \<Rightarrow> task_row \<Rightarrow> task_row" where
  "claimed now r = r\<lparr>status := ''running'', locked_at := Some now, retry_count := retry_count r + 1\<rparr>"

definition claimable :: "nat \<Rightarrow> task_row \<Rightarrow> bool" where
  "claimable i r \<longleftrightarrow> row_id r = i \<and> status r = ''pending''"

definition claim_update ::
  "task_env \<Rightarrow> nat \<Rightarrow> int \<Rightarrow> task_row list \<Rightarrow> string + (task_row option \<times> task_row list)" where
  "claim_update env i now rs =
     (if list_ex (\<lambda>r. claimable i r \<and> retry_count r = 2 ^ 31 - 1) rs then Inl (integer_overflow env)
      else Inr (map_option (claimed now) (List.find (claimable i) rs),
                map (\<lambda>r. if claimable i r then claimed now r else r) rs))"

definition claim_next :: "task_env \<Rightarrow> string \<Rightarrow> int \<Rightarrow> (string \<times> Task) option tq_action" where
  "claim_next env qn now =
     abind ensure_schema (\<lambda>_.
     abind (sql ''Claim select failed: '' (\<lambda>rs. Inr (claim_select qn now rs, rs))) (\<lambda>candidate.
     case candidate of
       None \<Rightarrow> areturn None
     | Some c \<Rightarrow>
         abind (sql ''Claim update failed: '' (claim_update env (row_id c) now)) (\<lambda>updated.
           areturn (map_option (\<lambda>row. (uuid_to_string env (row_id row), row_to_task env row)) updated))))"

definition complete_row :: "int \<Rightarrow> task_row \<Rightarrow> task_row" where
  "complete_row now r = r\<lparr>status := ''completed'', completed_at := Some now\<rparr>"

definition complete :: "task_env \<Rightarrow> string \<Rightarrow> int \<Rightarrow> unit tq_action" where
  "complete env task_id now =
     (case parse_uuid env task_id of
        Inl e \<Rightarrow> athrow (Fail (Database (''Invalid task ID: '' @ e)))
      | Inr i \<Rightarrow>
          abind (sql ''Complete failed: '' (update_where (complete_row now) (\<lambda>r. row_id r = i))) (\<lambda>_.
            areturn ()))"

definition dead_row :: "int \<Rightarrow> string \<Rightarrow> task_row \<Rightarrow> task_row" where
  "dead_row now err r = r\<lparr>status := ''dead_letter'', completed_at := Some now, error_message := Some err\<rparr>"

definition retry_row :: "int \<Rightarrow> string \<Rightarrow> task_row \<Rightarrow> task_row" where
  "retry_row retry_at err r =
     r\<lparr>status := ''pending'', scheduled_at := Some retry_at, error_message := Some err, locked_at := None\<rparr>"

text \<open>\<open>2i64.pow(n)\<close> with the wrap-around of the release build.\<close>

definition backoff_secs :: "int \<Rightarrow> int" where
  "backoff_secs retries = wrap_i64 (2 ^ as_u32 retries)"

definition fail_task :: "task_env \<Rightarrow> string \<Rightarrow> string \<Rightarrow> int \<Rightarrow> unit tq_action" where
  "fail_task env task_id err now =
     abind ensure_schema (\<lambda>_.
     case parse_uuid env task_id of
       Inl _ \<Rightarrow> areturn ()
     | Inr i \<Rightarrow>
         abind (sql ''Fail select failed: '' (\<lambda>rs. Inr (List.find (\<lambda>r. row_id r = i) rs, rs))) (\<lambda>found.
         case found of
           None \<Rightarrow> areturn ()
         | Some row \<Rightarrow>
             if max_retries row \<le> retry_count row then
               abind (sql ''Dead-letter failed: '' (update_where (dead_row now err) (\<lambda>r. row_id r = i))) (\<lambda>_.
                 areturn ())
             else
               abind (add_secs env now (backoff_secs (retry_count row))) (\<lambda>retry_at.
               abind (sql ''Retry update failed: '' (update_where (retry_row retry_at err) (\<lambda>r. row_id r = i))) (\<lambda>_.
                 areturn ()))))"

definition reclaimed :: "task_row \<Rightarrow> task_row" where
  "reclaimed r = r\<lparr>status := ''pending'', locked_at := None\<rparr>"

definition stale :: "int \<Rightarrow> task_row \<Rightarrow> bool" where
  "stale cutoff r \<longleftrightarrow> status r = ''running'' \<and> (case locked_at r of Some t \<Rightarrow> t < cutoff | None \<Rightarrow> False)"

definition reclaim_stale :: "task_env \<Rightarrow> nat \<Rightarrow> int \<Rightarrow> nat tq_action" where
  "reclaim_stale env timeout_secs now =
     abind ensure_schema (\<lambda>_.
     abind (add_secs env now (- wrap_i64 (int timeout_secs))) (\<lambda>cutoff.
       sql ''Reclaim failed: '' (update_where reclaimed (stale cutoff))))"

definition reclaim_stale_for_queue :: "task_env \<Rightarrow> string \<Rightarrow> nat \<Rightarrow> int \<Rightarrow> nat tq_action" where
  "reclaim_stale_for_queue env qn timeout_secs now =
     abind ensure_schema (\<lambda>_.
     abind (add_secs env now (- wrap_i64 (int timeout_secs))) (\<lambda>cutoff.
       sql ''Reclaim failed: '' (update_where reclaimed (\<lambda>r. queue r = qn \<and> stale cutoff r))))"

text \<open>\<open>GROUP BY status\<close>: one group per status present; the groups land in a JSON object, so their
  order does not matter.\<close>

definition status_counts :: "task_row list \<Rightarrow> (string \<times> nat) list" where
  "status_counts rs =
     map (\<lambda>st. (st, length (filter (\<lambda>r. status r = st) rs))) (remdups (map status rs))"

definition stats :: "string \<Rightarrow> json tq_action" where
  "stats qn =
     abind ensure_schema (\<lambda>_.
     abind (sql ''Stats failed: '' (\<lambda>rs. Inr (status_counts rs, rs))) (\<lambda>groups.
       areturn (json_obj ((''queue'', JString qn) # map (\<lambda>(st, n). (st, json_int (int n))) groups))))"

definition purge_completed :: "task_env \<Rightarrow> nat \<Rightarrow> int \<Rightarrow> nat tq_action" where
  "purge_completed env older_than_secs now =
     abind ensure_schema (\<lambda>_.
     abind (add_secs env now (- wrap_i64 (int older_than_secs))) (\<lambda>cutoff.
       sql ''Purge failed: '' (\<lambda>rs.
         let old = (\<lambda>r. status r = ''completed'' \<and> (case completed_at r of Some t \<Rightarrow> t < cutoff | None \<Rightarrow> False))
         in Inr (length (filter old rs), filter (\<lambda>r. \<not> old r) rs))))"

text \<open>\<open>ORDER BY completed_at DESC\<close> puts rows with no completion time first.\<close>

definition desc_key :: "int option \<Rightarrow> int option \<Rightarrow> bool" where
  "desc_key a b = (case (a, b) of (None, _) \<Rightarrow> True | (Some _, None) \<Rightarrow> False | (Some x, Some y) \<Rightarrow> y \<le> x)"

fun insort_desc :: "task_row \<Rightarrow> task_row list \<Rightarrow> task_row list" where
  "insort_desc r [] = [r]"
| "insort_desc r (x # xs) =
     (if desc_key (completed_at r) (completed_at x) then r # x # xs else x # insort_desc r xs)"

definition list_dead_letter :: "task_env \<Rightarrow> string \<Rightarrow> nat \<Rightarrow> json list tq_action" where
  "list_dead_letter env qn lmt =
     abind ensure_schema (\<lambda>_.
     abind (sql ''List dead-letter failed: '' (\<lambda>rs.
         if wrap_i64 (int lmt) < 0 then Inl ''LIMIT must not be negative''
         else Inr (take (nat (wrap_i64 (int lmt)))
           (foldr insort_desc (filter (\<lambda>r. queue r = qn \<and> status r = ''dead_letter'') rs) []), rs))) (\<lambda>found.
       areturn (map (\<lambda>row.
         jset ''id'' (JString (uuid_to_string env (row_id row))) (task_to_json (row_to_task env row))) found)))"

definition fresh_row :: "task_row \<Rightarrow> task_row" where
  "fresh_row r = r\<lparr>status := ''pending'', retry_count := 0, locked_at := None, completed_at := None,
     error_message := None, scheduled_at := None\<rparr>"

definition retry_dead_letter :: "task_env \<Rightarrow> string \<Rightarrow> unit tq_action" where
  "retry_dead_letter env task_id =
     abind ensure_schema (\<lambda>_.
     case parse_uuid env task_id of
       Inl e \<Rightarrow> athrow (Fail (Database (''Invalid task ID: '' @ e)))
     | Inr i \<Rightarrow>
         abind (sql ''Retry dead-letter failed: '' (update_where fresh_row (\<lambda>r. row_id r = i))) (\<lambda>_.
           areturn ()))"

text \<open>
  One round of the worker loop: an error of a queue operation is logged and the loop goes on, a
  panic ends the worker. The clock readings of the round and whether the stale check is due are
  inputs; the result is the pause that follows.
\<close>

datatype pause = Poll | Idle

definition logged :: "unit tq_action \<Rightarrow> unit tq_action" where
  "logged m = (\<lambda>s. case m s of (Inl (Fail _), s') \<Rightarrow> (Inr (), s') | (r, s') \<Rightarrow> (r, s'))"

definition worker_round ::
  "task_env \<Rightarrow> string \<Rightarrow> (Task \<Rightarrow> unit ob_result) \<Rightarrow> bool \<Rightarrow> int \<Rightarrow> int \<Rightarrow> int \<Rightarrow> pause tq_action" where
  "worker_round env qn handler stale_due t_stale t_claim t_end =
     abind (if stale_due then logged (abind (reclaim_stale env 300 t_stale) (\<lambda>_. areturn ())) else areturn ()) (\<lambda>_.
     abind (atry (claim_next env qn t_claim)) (\<lambda>outcome.
     case outcome of
       Inr (Some (task_id, task)) \<Rightarrow>
         abind (case handler task of
                  Inr _ \<Rightarrow> logged (complete env task_id t_end)
                | Inl e \<Rightarrow> logged (fail_task env task_id (error_to_string e) t_end)) (\<lambda>_.
           areturn Poll)
     | Inr None \<Rightarrow> areturn Idle
     | Inl Panic \<Rightarrow> athrow Panic
     | Inl (Fail _) \<Rightarrow> areturn Idle))"

subsection \<open>Row updates\<close>

text \<open>Every \<open>UPDATE\<close> of the source leaves the primary key alone; what follows from that is proved
  once.\<close>

definition row_of :: "nat \<Rightarrow> task_row list \<Rightarrow> task_row option" where
  "row_of i rs = List.find (\<lambda>r. row_id r = i) rs"

definition ids_ok :: "task_row list \<Rightarrow> bool" where
  "ids_ok rs \<longleftrightarrow> distinct (map row_id rs)"

locale row_update =
  fixes upd :: "task_row \<Rightarrow> task_row"
  assumes keeps_id: "row_id (upd r) = row_id r"
begin

lemma ids_map: "map row_id (map (\<lambda>r. if P r then upd r else r) rs) = map row_id rs"
  by (simp add: keeps_id)

lemma ids_ok_map: "ids_ok rs \<Longrightarrow> ids_ok (map (\<lambda>r. if P r then upd r else r) rs)"
  unfolding ids_ok_def ids_map .

lemma row_of_map:
  "row_of i (map (\<lambda>r. if P r then upd r else r) rs) =
     map_option (\<lambda>r. if P r then upd r else r) (row_of i rs)"
  by (induction rs) (auto simp: row_of_def keeps_id)

lemma row_of_update:
  assumes "update_where upd P rs = Inr (n, rs')"
  shows "row_of i rs' = map_option (\<lambda>r. if P r then upd r else r) (row_of i rs)"
  using assms row_of_map [of i P rs] by (simp add: update_where_def)

lemma ids_ok_update: "update_where upd P rs = Inr (n, rs') \<Longrightarrow> ids_ok rs \<Longrightarrow> ids_ok rs'"
  by (auto simp: update_where_def ids_ok_map)

end

interpretation claim_upd: row_update "claimed now" for now
  by unfold_locales (simp add: claimed_def)

interpretation complete_upd: row_update "complete_row now" for now
  by unfold_locales (simp add: complete_row_def)

interpretation dead_upd: row_update "dead_row now err" for now err
  by unfold_locales (simp add: dead_row_def)

interpretation retry_upd: row_update "retry_row t err" for t err
  by unfold_locales (simp add: retry_row_def)

interpretation reclaim_upd: row_update reclaimed
  by unfold_locales (simp add: reclaimed_def)

interpretation fresh_upd: row_update fresh_row
  by unfold_locales (simp add: fresh_row_def)

lemma row_of_id: "row_of i rs = Some r \<Longrightarrow> row_id r = i \<and> r \<in> set rs"
  by (auto simp: row_of_def find_Some_iff)

lemma row_of_mem: "ids_ok rs \<Longrightarrow> r \<in> set rs \<Longrightarrow> row_of (row_id r) rs = Some r"
  by (induction rs) (auto simp: row_of_def ids_ok_def)

lemma row_of_unique: "ids_ok rs \<Longrightarrow> row_of i rs = Some r \<Longrightarrow> r' \<in> set rs \<Longrightarrow> row_id r' = i \<Longrightarrow> r' = r"
  using row_of_mem [of rs r'] by auto

lemma claimable_row_of:
  assumes "ids_ok rs"
  shows "List.find (claimable i) rs = Some r \<longleftrightarrow> row_of i rs = Some r \<and> status r = ''pending''"
proof
  assume "List.find (claimable i) rs = Some r"
  then have "r \<in> set rs" "claimable i r" by (auto simp: find_Some_iff)
  then show "row_of i rs = Some r \<and> status r = ''pending''"
    using row_of_mem [OF assms] by (auto simp: claimable_def)
next
  assume r: "row_of i rs = Some r \<and> status r = ''pending''"
  then have mem: "claimable i r" "r \<in> set rs" by (auto simp: claimable_def dest: row_of_id)
  then obtain r' where r': "List.find (claimable i) rs = Some r'"
    by (cases "List.find (claimable i) rs") (auto simp: find_None_iff)
  then have "r' \<in> set rs" "row_id r' = i" by (auto simp: find_Some_iff claimable_def)
  then show "List.find (claimable i) rs = Some r"
    using r r' row_of_unique [OF assms] by blast
qed

subsection \<open>Claiming\<close>

lemma claim_select_Some:
  assumes "claim_select qn now rs = Some r"
  shows "r \<in> set rs" and "eligible qn now r"
    and "\<And>r'. r' \<in> set rs \<Longrightarrow> eligible qn now r' \<Longrightarrow> created_at r \<le> created_at r'"
proof -
  obtain ys where ys: "sort_key created_at (filter (eligible qn now) rs) = r # ys"
    using assms by (auto simp: claim_select_def split: list.splits)
  then have mem: "set (r # ys) = {r' \<in> set rs. eligible qn now r'}"
    using set_sort [of created_at "filter (eligible qn now) rs"] by auto
  then show "r \<in> set rs" "eligible qn now r" by auto
  have "sorted (map created_at (r # ys))" using ys by (metis sorted_sort_key)
  then show "\<And>r'. r' \<in> set rs \<Longrightarrow> eligible qn now r' \<Longrightarrow> created_at r \<le> created_at r'"
    using mem by auto
qed

lemma claim_select_None: "claim_select qn now rs = None \<longleftrightarrow> (\<forall>r \<in> set rs. \<not> eligible qn now r)"
proof -
  have "claim_select qn now rs = None \<longleftrightarrow> sort_key created_at (filter (eligible qn now) rs) = []"
    by (simp add: claim_select_def split: list.splits)
  also have "\<dots> \<longleftrightarrow> filter (eligible qn now) rs = []"
    by (metis length_0_conv length_sort)
  finally show ?thesis by (simp add: filter_empty_conv)
qed

lemma sql_ok:
  "set (faults s) \<subseteq> {None} \<Longrightarrow> stmt (rows s) = Inr (x, rs) \<Longrightarrow>
     sql p stmt s = (Inr x, s\<lparr>rows := rs, faults := tl (faults s)\<rparr>)"
  by (cases "faults s") (auto simp: sql_def)

lemma tl_no_faults: "set fs \<subseteq> {None} \<Longrightarrow> set (tl fs) \<subseteq> {None}"
  by (cases fs) auto

lemma ensure_schema_ok:
  "set (faults s) \<subseteq> {None} \<Longrightarrow> ensure_schema s = (Inr (), s\<lparr>faults := tl (tl (faults s))\<rparr>)"
  by (simp add: ensure_schema_def abind_def sql_ok tl_no_faults)

lemma claim_next_cases:
  assumes "set (faults s) \<subseteq> {None}" and "ids_ok (rows s)"
    and "\<forall>r \<in> set (rows s). retry_count r < 2 ^ 31 - 1"
  shows "(case claim_select qn now (rows s) of
      None \<Rightarrow>
        (\<forall>r \<in> set (rows s). \<not> eligible qn now r) \<and>
        (\<exists>fs. claim_next env qn now s = (Inr None, s\<lparr>faults := fs\<rparr>))
    | Some r \<Rightarrow>
        r \<in> set (rows s) \<and> eligible qn now r \<and>
        (\<forall>r' \<in> set (rows s). eligible qn now r' \<longrightarrow> created_at r \<le> created_at r') \<and>
        (\<exists>fs. claim_next env qn now s =
          (Inr (Some (uuid_to_string env (row_id r), row_to_task env (claimed now r))),
           s\<lparr>rows := map (\<lambda>x. if row_id x = row_id r then claimed now x else x) (rows s), faults := fs\<rparr>)))"
proof (cases "claim_select qn now (rows s)")
  case None
  have "claim_next env qn now s = (Inr None, s\<lparr>faults := tl (tl (tl (faults s)))\<rparr>)"
    using assms(1) None by (simp add: claim_next_def abind_def ensure_schema_ok sql_ok tl_no_faults)
  with None claim_select_None [of qn now "rows s"] show ?thesis by auto
next
  case (Some r)
  note r = claim_select_Some [OF Some]
  have row: "row_of (row_id r) (rows s) = Some r" using row_of_mem assms(2) r(1) by blast
  have pend: "status r = ''pending''" using r(2) by (simp add: eligible_def)
  have find: "List.find (claimable (row_id r)) (rows s) = Some r"
    using row pend claimable_row_of [OF assms(2)] by blast
  have "(if claimable (row_id r) x then claimed now x else x) = (if row_id x = row_id r then claimed now x else x)"
    if "x \<in> set (rows s)" for x
    using row_of_unique [OF assms(2) row that] pend by (auto simp: claimable_def)
  then have "claim_update env (row_id r) now (rows s) =
      Inr (Some (claimed now r), map (\<lambda>x. if row_id x = row_id r then claimed now x else x) (rows s))"
    using find assms(3) by (fastforce simp: claim_update_def list_ex_iff)
  then have "claim_next env qn now s = (Inr (Some (uuid_to_string env (row_id r), row_to_task env (claimed now r))),
      s\<lparr>rows := map (\<lambda>x. if row_id x = row_id r then claimed now x else x) (rows s),
        faults := tl (tl (tl (tl (faults s))))\<rparr>)"
    using assms(1) Some
    by (simp add: claim_next_def abind_def ensure_schema_ok sql_ok tl_no_faults claim_upd.keeps_id)
  then show ?thesis using r Some by auto
qed

lemma priority_unused:
  "enqueue env i t0 t1 (req\<lparr>q_priority := p\<rparr>) = enqueue env i t0 t1 req" "t_priority (row_to_task env row) = 0"
proof -
  have row: "new_row i t1 (req\<lparr>q_priority := p\<rparr>) body sched = new_row i t1 req body sched" for body sched
    by (simp add: new_row_def)
  have "insert_stmt env i t1 (req\<lparr>q_priority := p\<rparr>) sched rs = insert_stmt env i t1 req sched rs" for sched rs
    unfolding insert_stmt_def row by simp
  then have "insert_stmt env i t1 (req\<lparr>q_priority := p\<rparr>) sched = insert_stmt env i t1 req sched" for sched by blast
  then show "enqueue env i t0 t1 (req\<lparr>q_priority := p\<rparr>) = enqueue env i t0 t1 req" by (simp add: enqueue_def)
qed (simp add: row_to_task_def)

text \<open>
  C5. With no database fault and no concurrent statement, \<open>claim_next\<close> hands out a task exactly when
  the queue has one that is pending and due; it is an oldest such task, exactly its row changes,
  and the row is then running, locked at the claim time, with one more attempt. The priority of a request, documented as
  deciding the order, is not stored and plays no part, and every task is handed out with priority 0.
\<close>

theorem claim_next_oldest:
  assumes "set (faults s) \<subseteq> {None}" and "ids_ok (rows s)"
    and "\<forall>r \<in> set (rows s). retry_count r < 2 ^ 31 - 1"
  shows "(case claim_select qn now (rows s) of
      None \<Rightarrow>
        (\<forall>r \<in> set (rows s). \<not> eligible qn now r) \<and>
        (\<exists>fs. claim_next env qn now s = (Inr None, s\<lparr>faults := fs\<rparr>))
    | Some r \<Rightarrow>
        r \<in> set (rows s) \<and> eligible qn now r \<and>
        (\<forall>r' \<in> set (rows s). eligible qn now r' \<longrightarrow> created_at r \<le> created_at r') \<and>
        (\<exists>fs. claim_next env qn now s =
          (Inr (Some (uuid_to_string env (row_id r), row_to_task env (claimed now r))),
           s\<lparr>rows := map (\<lambda>x. if row_id x = row_id r then claimed now x else x) (rows s), faults := fs\<rparr>))) \<and>
    enqueue env i t0 t1 (req\<lparr>q_priority := p\<rparr>) = enqueue env i t0 t1 req \<and> t_priority (row_to_task env row) = 0"
  using claim_next_cases [OF assms] priority_unused by blast

definition sample_env :: task_env where
  "sample_env = \<lparr>parse_uuid = (\<lambda>s. ok_or ''invalid'' (parse_u64 s)), uuid_to_string = nat_to_string,
     to_rfc3339 = int_to_string, time_add = (\<lambda>t secs. Some (t + 1000000 * secs)), to_jsonb = Inr,
     duplicate_key = ''duplicate key'', integer_overflow = ''integer out of range''\<rparr>"

definition sample_task :: "nat \<Rightarrow> int \<Rightarrow> task_row" where
  "sample_task i t = new_row i t (EnqueueRequest_default\<lparr>q_task_type := ''send_email''\<rparr>) JNull None"

theorem claim_next_oldest_witness:
  "\<exists>fs. claim_next sample_env ''default'' 50 \<lparr>rows = [sample_task 3 20, sample_task 2 10], faults = []\<rparr> =
     (Inr (Some (''2'', row_to_task sample_env (claimed 50 (sample_task 2 10)))),
      \<lparr>rows = [sample_task 3 20, claimed 50 (sample_task 2 10)], faults = fs\<rparr>)"
proof -
  have e: "eligible ''default'' 50 (sample_task i t)" for i t
    by (simp add: eligible_def sample_task_def new_row_def EnqueueRequest_default_def default_queue_def)
  have c: "created_at (sample_task i t) = t" "row_id (sample_task i t) = i" "retry_count (sample_task i t) = 0" for i t
    by (simp_all add: sample_task_def new_row_def)
  have sel: "claim_select ''default'' 50 [sample_task 3 20, sample_task 2 10] = Some (sample_task 2 10)"
    by (simp add: claim_select_def e c)
  have "uuid_to_string sample_env 2 = ''2''"
    by (simp add: sample_env_def nat_to_string.simps [of 2] digit_char_def) code_simp
  then show ?thesis
    using claim_next_oldest [where env = sample_env and qn = "''default''" and now = 50
        and s = "\<lparr>rows = [sample_task 3 20, sample_task 2 10], faults = []\<rparr>"]
    by (simp add: sel c ids_ok_def)
qed

subsection \<open>Failing\<close>

lemma backoff_small: "0 \<le> n \<Longrightarrow> n < 63 \<Longrightarrow> backoff_secs n = 2 ^ nat n"
proof -
  assume n: "0 \<le> n" "n < 63"
  then have m: "n mod 2 ^ 32 = n" by simp
  have "(2 :: int) ^ nat n < 2 ^ 63" using n by (intro power_strict_increasing) auto
  moreover have "(0 :: int) < 2 ^ nat n" by simp
  ultimately have "i64_range (2 ^ nat n)" unfolding i64_range_def by linarith
  with m show ?thesis by (simp add: backoff_secs_def as_u32_def)
qed

text \<open>
  Failing a task, with no database fault: below its retry limit the task goes back to pending,
  due \<open>2^n\<close> seconds later after its n-th attempt; at the limit it becomes a dead letter. Only that
  task's row changes, and an unknown id changes nothing. If chrono cannot represent the retry
  time the call panics and the task stays running.
\<close>

theorem fail_task_effect:
  assumes "set (faults s) \<subseteq> {None}" and "parse_uuid env task_id = Inr i"
    and "\<And>r. row_of i (rows s) = Some r \<Longrightarrow> 0 \<le> retry_count r \<and> retry_count r < 63"
  shows "\<exists>fs. fail_task env task_id err now s =
    (case row_of i (rows s) of
       None \<Rightarrow> (Inr (), s\<lparr>faults := fs\<rparr>)
     | Some r \<Rightarrow>
         if max_retries r \<le> retry_count r then
           (Inr (), s\<lparr>rows := map (\<lambda>x. if row_id x = i then dead_row now err x else x) (rows s), faults := fs\<rparr>)
         else (case time_add env now (2 ^ nat (retry_count r)) of
             None \<Rightarrow> (Inl Panic, s\<lparr>faults := fs\<rparr>)
           | Some t \<Rightarrow>
               (Inr (), s\<lparr>rows := map (\<lambda>x. if row_id x = i then retry_row t err x else x) (rows s), faults := fs\<rparr>)))"
proof (cases "row_of i (rows s)")
  case None
  then show ?thesis
    using assms(1,2) by (auto simp: fail_task_def abind_def ensure_schema_ok sql_ok tl_no_faults row_of_def)
next
  case (Some r)
  have "backoff_secs (retry_count r) = 2 ^ nat (retry_count r)"
    using assms(3) [OF Some] by (simp add: backoff_small)
  then show ?thesis
    using assms(1,2) Some
    by (cases "time_add env now (2 ^ nat (retry_count r))")
      (auto simp: fail_task_def abind_def ensure_schema_ok sql_ok tl_no_faults row_of_def add_secs_def update_where_def)
qed

theorem fail_task_effect_witness:
  "\<exists>fs. fail_task sample_env ''7'' ''boom'' 0 \<lparr>rows = [claimed 0 (sample_task 7 0)], faults = []\<rparr> =
     (Inr (), \<lparr>rows = [retry_row 2000000 ''boom'' (claimed 0 (sample_task 7 0))], faults = fs\<rparr>)"
proof -
  have row: "row_of 7 [claimed 0 (sample_task 7 0)] = Some (claimed 0 (sample_task 7 0))"
    "retry_count (claimed 0 (sample_task 7 0)) = 1" "max_retries (claimed 0 (sample_task 7 0)) = 3"
    "row_id (claimed 0 (sample_task 7 0)) = 7"
    by (simp_all add: row_of_def claimed_def sample_task_def new_row_def EnqueueRequest_default_def
        default_max_retries_def as_i32_def)
  have env: "parse_uuid sample_env ''7'' = Inr 7" "time_add sample_env 0 2 = Some 2000000"
    by (simp_all add: sample_env_def parse_unsigned_def ascii_defs)
  show ?thesis
    using fail_task_effect [of "\<lparr>rows = [claimed 0 (sample_task 7 0)], faults = []\<rparr>" sample_env "''7''" 7 "''boom''" 0]
    by (simp add: row env)
qed

subsection \<open>Concurrent workers\<close>

text \<open>
  Workers and operators interleave statement by statement. Every statement of the source that changes the
  table is a step, for any row at any moment: a claim may use an id that was selected long ago, a failure
  report may act on a row that was read long ago and come from a worker that no longer holds the task, stale
  tasks are reclaimed while their worker still runs, and any task may be retried by hand. A failed
  statement and a worker that dies change nothing. Every step leaves its event.
\<close>

datatype task_event =
    Enqueued nat
  | Claimed nat nat int
  | Finished nat
  | Buried nat
  | Requeued nat
  | ReclaimedBefore int
  | Retried nat
  | Purged

definition purge_keeps :: "int \<Rightarrow> task_row \<Rightarrow> bool" where
  "purge_keeps cutoff r \<longleftrightarrow> \<not> (status r = ''completed'' \<and> (case completed_at r of Some t \<Rightarrow> t < cutoff | None \<Rightarrow> False))"

inductive tq_step :: "task_env \<Rightarrow> task_row list \<Rightarrow> task_event \<Rightarrow> task_row list \<Rightarrow> bool" for env where
  q_enqueue: "insert_stmt env i db_now req sched rs = Inr (r, rs') \<Longrightarrow> tq_step env rs (Enqueued i) rs'"
| q_claim: "claim_update env i now rs = Inr (Some r, rs') \<Longrightarrow> tq_step env rs (Claimed w i now) rs'"
| q_complete: "update_where (complete_row now) (\<lambda>r. row_id r = i) rs = Inr (n, rs') \<Longrightarrow> tq_step env rs (Finished i) rs'"
| q_dead: "update_where (dead_row now err) (\<lambda>r. row_id r = i) rs = Inr (n, rs') \<Longrightarrow> tq_step env rs (Buried i) rs'"
| q_retry: "update_where (retry_row t err) (\<lambda>r. row_id r = i) rs = Inr (n, rs') \<Longrightarrow> tq_step env rs (Requeued i) rs'"
| q_reclaim: "update_where reclaimed (\<lambda>r. (case qn of None \<Rightarrow> True | Some q \<Rightarrow> queue r = q) \<and> stale cutoff r) rs = Inr (n, rs') \<Longrightarrow>
    tq_step env rs (ReclaimedBefore cutoff) rs'"
| q_fresh: "update_where fresh_row (\<lambda>r. row_id r = i) rs = Inr (n, rs') \<Longrightarrow> tq_step env rs (Retried i) rs'"
| q_purge: "tq_step env rs Purged (filter (purge_keeps cutoff) rs)"

inductive tq_trace :: "task_env \<Rightarrow> task_row list \<Rightarrow> task_event list \<Rightarrow> task_row list \<Rightarrow> bool" for env where
  no_event: "tq_trace env rs [] rs"
| one_more_event: "tq_trace env rs es rs' \<Longrightarrow> tq_step env rs' e rs'' \<Longrightarrow> tq_trace env rs (es @ [e]) rs''"

text \<open>The events that make a task claimed at a time pending again, or enqueue it anew.\<close>

fun frees :: "nat \<Rightarrow> int \<Rightarrow> task_event \<Rightarrow> bool" where
  "frees i t (Enqueued j) = (j = i)"
| "frees i t (Requeued j) = (j = i)"
| "frees i t (Retried j) = (j = i)"
| "frees i t (ReclaimedBefore cutoff) = (t < cutoff)"
| "frees i t _ = False"

definition held_since :: "nat \<Rightarrow> int \<Rightarrow> task_event list \<Rightarrow> bool" where
  "held_since i t es \<longleftrightarrow> (\<exists>a w b. es = a @ Claimed w i t # b \<and> (\<forall>e \<in> set b. \<not> frees i t e))"

lemma held_since_snoc:
  "held_since i t (es @ [e]) \<longleftrightarrow> (held_since i t es \<and> \<not> frees i t e) \<or> (\<exists>w. e = Claimed w i t)"
proof
  assume "held_since i t (es @ [e])"
  then obtain a w b where es: "es @ [e] = a @ Claimed w i t # b" and b: "\<forall>e \<in> set b. \<not> frees i t e"
    by (auto simp: held_since_def)
  show "(held_since i t es \<and> \<not> frees i t e) \<or> (\<exists>w. e = Claimed w i t)"
  proof (cases b rule: rev_exhaust)
    case (snoc b' x)
    then have "es = a @ Claimed w i t # b'" "x = e" using es by (simp_all flip: append_Cons append_assoc)
    then show ?thesis using b snoc by (auto simp: held_since_def)
  qed (use es in auto)
next
  assume "(held_since i t es \<and> \<not> frees i t e) \<or> (\<exists>w. e = Claimed w i t)"
  then show "held_since i t (es @ [e])"
  proof (elim disjE conjE exE)
    assume "held_since i t es" "\<not> frees i t e"
    then obtain a w b where "es = a @ Claimed w i t # b" "\<forall>x \<in> set (b @ [e]). \<not> frees i t x" by (auto simp: held_since_def)
    then show ?thesis unfolding held_since_def by (intro exI [of _ a] exI [of _ w] exI [of _ "b @ [e]"]) simp
  next
    fix w assume "e = Claimed w i t"
    then show ?thesis unfolding held_since_def by (intro exI [of _ es] exI [of _ w] exI [of _ "[]"]) simp
  qed
qed

lemma claim_update_rows:
  assumes "ids_ok rs" "claim_update env i now rs = Inr (v, rs')"
  shows "ids_ok rs'"
    and "row_of j rs' = map_option (\<lambda>r. if claimable i r then claimed now r else r) (row_of j rs)"
    and "v = Some r \<Longrightarrow> \<exists>r0. row_of i rs = Some r0 \<and> status r0 = ''pending''"
    and "v = None \<Longrightarrow> rs' = rs"
proof -
  have rs': "rs' = map (\<lambda>r. if claimable i r then claimed now r else r) rs"
    and v: "v = map_option (claimed now) (List.find (claimable i) rs)"
    using assms(2) by (auto simp: claim_update_def split: if_splits)
  show "ids_ok rs'" unfolding rs' by (rule claim_upd.ids_ok_map [OF assms(1)])
  show "row_of j rs' = map_option (\<lambda>r. if claimable i r then claimed now r else r) (row_of j rs)"
    unfolding rs' by (rule claim_upd.row_of_map)
  show "v = Some r \<Longrightarrow> \<exists>r0. row_of i rs = Some r0 \<and> status r0 = ''pending''"
    using v claimable_row_of [OF assms(1)] by (cases "List.find (claimable i) rs") auto
  show "v = None \<Longrightarrow> rs' = rs"
    using v unfolding rs' by (intro map_idI) (auto simp: find_None_iff)
qed

text \<open>A task that is held is not pending, and while it runs its lock is the time of its claim.\<close>

definition row_held :: "nat \<Rightarrow> int \<Rightarrow> task_row list \<Rightarrow> bool" where
  "row_held i t rs \<longleftrightarrow> (\<forall>r. row_of i rs = Some r \<longrightarrow>
     status r \<noteq> ''pending'' \<and> (status r = ''running'' \<longrightarrow> locked_at r = Some t))"

lemma row_held_update:
  assumes "row_update upd" "update_where upd P rs = Inr (n, rs')" "row_held i t rs"
    and "\<And>r. row_of i rs = Some r \<Longrightarrow> P r \<Longrightarrow> status (upd r) \<noteq> ''pending'' \<and> (status (upd r) = ''running'' \<longrightarrow> locked_at (upd r) = Some t)"
  shows "row_held i t rs'"
  using assms(3,4) row_update.row_of_update [OF assms(1,2), of i] by (auto simp: row_held_def)

lemma insert_stmt_rows:
  assumes "insert_stmt env i db_now req sched rs = Inr (r, rs')" "ids_ok rs"
  shows "ids_ok rs'" and "j \<noteq> i \<Longrightarrow> row_of j rs' = row_of j rs"
proof -
  obtain body where rs': "rs' = rs @ [new_row i db_now req body sched]" "i \<notin> row_id ` set rs"
    using assms(1) by (auto simp: insert_stmt_def rbind_eq_Inr Let_def split: if_splits)
  then show "ids_ok rs'" using assms(2) by (auto simp: ids_ok_def new_row_def)
  show "row_of j rs' = row_of j rs" if "j \<noteq> i"
    unfolding rs'(1) row_of_def using that by (induction rs) (auto simp: new_row_def)
qed

lemma row_of_filter:
  assumes "ids_ok rs" "row_of i (filter keep rs) = Some r"
  shows "row_of i rs = Some r"
  using row_of_mem [OF assms(1)] row_of_id [OF assms(2)] by auto

lemma tq_step_ids: "tq_step env rs e rs' \<Longrightarrow> ids_ok rs \<Longrightarrow> ids_ok rs'"
proof (induction rule: tq_step.induct)
  case (q_purge rs cutoff)
  then show ?case by (simp add: ids_ok_def distinct_map_filter)
qed (blast dest: insert_stmt_rows(1) claim_update_rows(1) complete_upd.ids_ok_update dead_upd.ids_ok_update retry_upd.ids_ok_update
    reclaim_upd.ids_ok_update fresh_upd.ids_ok_update)+

lemma tq_step_claim:
  assumes "tq_step env rs (Claimed w i t) rs'" "ids_ok rs"
  shows "row_held i t rs'" "\<not> row_held i t' rs"
proof -
  obtain r where up: "claim_update env i t rs = Inr (Some r, rs')" using assms(1) by (cases rule: tq_step.cases) auto
  obtain r0 where r0: "row_of i rs = Some r0" "status r0 = ''pending''" using claim_update_rows(3) [OF assms(2) up] by blast
  then show "\<not> row_held i t' rs" by (simp add: row_held_def)
  show "row_held i t rs'"
    using claim_update_rows(2) [OF assms(2) up, of i] r0 row_of_id [OF r0(1)] by (simp add: row_held_def claimable_def claimed_def)
qed

lemma tq_step_held:
  assumes "tq_step env rs e rs'" "ids_ok rs" "row_held i t rs" "\<not> frees i t e"
  shows "row_held i t rs'"
  using assms
proof (induction rule: tq_step.induct)
  case (q_enqueue j db_now req sched rs r rs')
  then show ?case using insert_stmt_rows(2) [of env j db_now req sched rs r rs' i] by (auto simp: row_held_def)
next
  case (q_claim j now rs r rs' w)
  then have "row_of i rs' = row_of i rs"
    using claim_update_rows(2) [OF q_claim.prems(1) q_claim.hyps, of i]
    by (cases "row_of i rs") (auto simp: row_held_def claimable_def)
  then show ?case using q_claim.prems by (simp add: row_held_def)
next
  case (q_complete now j rs n rs')
  show ?case by (rule row_held_update [OF complete_upd.row_update_axioms q_complete.hyps q_complete.prems(2)]) (simp add: complete_row_def)
next
  case (q_dead now err j rs n rs')
  show ?case by (rule row_held_update [OF dead_upd.row_update_axioms q_dead.hyps q_dead.prems(2)]) (simp add: dead_row_def)
next
  case (q_retry time err j rs n rs')
  show ?case by (rule row_held_update [OF retry_upd.row_update_axioms q_retry.hyps q_retry.prems(2)])
      (use q_retry.prems(3) in \<open>auto dest: row_of_id\<close>)
next
  case (q_reclaim qn cutoff rs n rs')
  show ?case by (rule row_held_update [OF reclaim_upd.row_update_axioms q_reclaim.hyps q_reclaim.prems(2)])
      (use q_reclaim.prems(2,3) in \<open>auto simp: row_held_def stale_def\<close>)
next
  case (q_fresh j rs n rs')
  show ?case by (rule row_held_update [OF fresh_upd.row_update_axioms q_fresh.hyps q_fresh.prems(2)])
      (use q_fresh.prems(3) in \<open>auto dest: row_of_id\<close>)
next
  case (q_purge rs cutoff)
  then show ?case by (auto simp: row_held_def dest: row_of_filter)
qed

lemma tq_trace_held:
  assumes "tq_trace env rs0 es rs" "ids_ok rs0"
  shows "ids_ok rs \<and> (\<forall>i t. held_since i t es \<longrightarrow> row_held i t rs)"
  using assms
proof (induction rule: tq_trace.induct)
  case (no_event rs)
  then show ?case by (simp add: held_since_def)
next
  case (one_more_event rs es rs' e rs'')
  then have ids: "ids_ok rs'" and held: "\<And>i t. held_since i t es \<Longrightarrow> row_held i t rs'" by auto
  have "row_held i t rs''" if "held_since i t (es @ [e])" for i t
    using that [unfolded held_since_snoc]
  proof (elim disjE conjE exE)
    assume "held_since i t es" "\<not> frees i t e"
    then show ?thesis using tq_step_held [OF one_more_event.hyps(2) ids] held by blast
  next
    fix w assume e: "e = Claimed w i t"
    show ?thesis by (rule tq_step_claim(1) [OF one_more_event.hyps(2) [unfolded e] ids])
  qed
  then show ?case using tq_step_ids [OF one_more_event.hyps(2) ids] by blast
qed

lemma tq_trace_append: "tq_trace env rs0 (es @ [e] @ es') rs \<Longrightarrow> \<exists>rs1 rs2. tq_trace env rs0 es rs1 \<and> tq_step env rs1 e rs2"
proof (induction es' arbitrary: rs rule: rev_induct)
  case Nil
  then show ?case by (cases rule: tq_trace.cases) auto
next
  case (snoc x xs)
  from snoc.prems obtain rs' where "tq_trace env rs0 (es @ [e] @ xs) rs'" by (cases rule: tq_trace.cases) auto
  then show ?case by (rule snoc.IH)
qed

text \<open>
  C4. A claimed task is claimed again only after it was given up: over every interleaving of the statements of workers
  and operators, between two successful claims of the same task somebody reported its failure, retried it by hand or
  enqueued it anew, or stale tasks were reclaimed with a cutoff later than the first claim. A worker that neither fails nor
  overruns the timeout therefore has its task for itself.
\<close>

theorem claims_are_exclusive:
  assumes "tq_trace env rs0 (a @ [Claimed w i t] @ b @ [Claimed w' i t'] @ c) rs" and "ids_ok rs0"
  shows "\<exists>e \<in> set b. frees i t e"
proof (rule ccontr)
  assume no: "\<not> (\<exists>e \<in> set b. frees i t e)"
  obtain rs1 rs2 where tr: "tq_trace env rs0 (a @ Claimed w i t # b) rs1" and st: "tq_step env rs1 (Claimed w' i t') rs2"
    using tq_trace_append [of env rs0 "a @ [Claimed w i t] @ b" "Claimed w' i t'" c rs] assms(1) by auto
  have "held_since i t (a @ Claimed w i t # b)" unfolding held_since_def using no by blast
  with tq_trace_held [OF tr assms(2)] have "row_held i t rs1" "ids_ok rs1" by auto
  with tq_step_claim(2) [OF st] show False by blast
qed

theorem claims_are_exclusive_witness:
  "\<exists>rs. tq_trace sample_env [sample_task 5 0] [Claimed 1 5 9, ReclaimedBefore 15, Claimed 2 5 20] rs \<and>
    (\<exists>e \<in> set [ReclaimedBefore 15]. frees 5 9 e)"
proof -
  let ?c = "claimed 9 (sample_task 5 0)"
  have "tq_step sample_env [sample_task 5 0] (Claimed 1 5 9) [?c]"
    by (rule q_claim [where r = ?c]) (simp add: claim_update_def claimable_def sample_task_def new_row_def)
  moreover have "tq_step sample_env [?c] (ReclaimedBefore 15) [reclaimed ?c]"
    by (rule q_reclaim [where qn = None and n = 1]) (simp add: update_where_def stale_def claimed_def)
  moreover have "tq_step sample_env [reclaimed ?c] (Claimed 2 5 20) [claimed 20 (reclaimed ?c)]"
    by (rule q_claim [where r = "claimed 20 (reclaimed ?c)"])
      (simp add: claim_update_def claimable_def sample_task_def new_row_def reclaimed_def claimed_def)
  ultimately have run: "tq_trace sample_env [sample_task 5 0] ((([] @ [Claimed 1 5 9]) @ [ReclaimedBefore 15]) @ [Claimed 2 5 20]) [claimed 20 (reclaimed ?c)]"
    by (blast intro: one_more_event no_event)
  from claims_are_exclusive [of sample_env "[sample_task 5 0]" "[]" 1 5 9 "[ReclaimedBefore 15]" 2 20 "[]"] run
  show ?thesis by (auto simp: ids_ok_def)
qed

subsection \<open>The bound on attempts\<close>

text \<open>A pending task has an attempt left, a running one is within its limit (a task always gets a
  first attempt).\<close>

definition attempts_ok :: "task_row \<Rightarrow> bool" where
  "attempts_ok r \<longleftrightarrow>
     (status r = ''pending'' \<longrightarrow> retry_count r < max 1 (max_retries r)) \<and>
     (status r = ''running'' \<longrightarrow> retry_count r \<le> max 1 (max_retries r))"

definition table_ok :: "tq_state \<Rightarrow> bool" where
  "table_ok s \<longleftrightarrow> ids_ok (rows s) \<and> (\<forall>r \<in> set (rows s). attempts_ok r)"

lemma preserves_sql:
  assumes "\<And>rs x rs'. stmt rs = Inr (x, rs') \<Longrightarrow> P rs \<Longrightarrow> P rs'"
  shows "preserves (\<lambda>s. P (rows s)) (sql p stmt)"
  using assms by (auto simp: preserves_def sql_def split: list.split option.split sum.split prod.split)

abbreviation table_rows_ok :: "task_row list \<Rightarrow> bool" where
  "table_rows_ok rs \<equiv> ids_ok rs \<and> (\<forall>r \<in> set rs. attempts_ok r)"

lemma preserves_table_sql:
  "(\<And>rs x rs'. stmt rs = Inr (x, rs') \<Longrightarrow> table_rows_ok rs \<Longrightarrow> table_rows_ok rs') \<Longrightarrow>
     preserves table_ok (sql p stmt)"
  unfolding table_ok_def by (rule preserves_sql [of _ table_rows_ok])

lemma preserves_read: "preserves table_ok (sql p (\<lambda>rs. Inr (f rs, rs)))"
  by (rule preserves_table_sql) auto

lemma preserves_update:
  assumes "row_update upd" and "\<And>r. attempts_ok r \<Longrightarrow> attempts_ok (upd r)"
  shows "preserves table_ok (sql p (update_where upd P))"
proof (rule preserves_table_sql)
  fix rs x rs'
  assume up: "update_where upd P rs = Inr (x, rs')" and ok: "table_rows_ok rs"
  then show "table_rows_ok rs'"
    using row_update.ids_ok_update [OF assms(1) up] assms(2) by (auto simp: update_where_def)
qed

lemma preserves_ensure_schema: "preserves table_ok ensure_schema"
  unfolding ensure_schema_def by (intro preserves_abind preserves_areturn preserves_read)

lemma preserves_add_secs: "preserves table_ok (add_secs env t secs)"
  unfolding add_secs_def by (rule preserves_alift)

lemmas preserves_rules = preserves_abind preserves_areturn preserves_athrow preserves_read
  preserves_ensure_schema preserves_add_secs preserves_table_sql

lemma attempts_new_row: "attempts_ok (new_row i t req body sched)"
  by (simp add: attempts_ok_def new_row_def)

lemma preserves_enqueue: "preserves table_ok (enqueue env i now db_now req)"
proof -
  have "table_rows_ok rs'" if "insert_stmt env i db_now req sched rs = Inr (r, rs')" "table_rows_ok rs" for sched rs r rs'
    using that insert_stmt_rows(1) [OF that(1)] attempts_new_row
    by (auto simp: insert_stmt_def rbind_eq_Inr Let_def split: if_splits)
  then show ?thesis unfolding enqueue_def by (cases "0 < q_delay_secs req") (auto intro!: preserves_rules)
qed

lemma preserves_claim_next: "preserves table_ok (claim_next env qn now)"
proof -
  have "table_rows_ok rs'" if up: "claim_update env i now rs = Inr (v, rs')" and ok: "table_rows_ok rs" for i rs v rs'
  proof -
    have "attempts_ok (claimed now r)" if "attempts_ok r" "claimable i r" for r
      using that by (auto simp: attempts_ok_def claimable_def claimed_def)
    then show ?thesis
      using claim_update_rows(1) [OF _ up] up ok by (auto simp: claim_update_def split: if_splits)
  qed
  then show ?thesis
    unfolding claim_next_def by (auto intro!: preserves_rules split: option.split)
qed

lemma attempts_complete: "attempts_ok (complete_row now r)"
  by (simp add: attempts_ok_def complete_row_def)

lemma preserves_complete: "preserves table_ok (complete env task_id now)"
  unfolding complete_def
  by (auto split: sum.split
      intro!: preserves_rules(1-6) preserves_update complete_upd.row_update_axioms attempts_complete)

lemma attempts_fresh: "attempts_ok (fresh_row r)"
  by (simp add: attempts_ok_def fresh_row_def)

lemma preserves_retry_dead_letter: "preserves table_ok (retry_dead_letter env task_id)"
  unfolding retry_dead_letter_def
  by (auto split: sum.split
      intro!: preserves_rules(1-6) preserves_update fresh_upd.row_update_axioms attempts_fresh)

lemma update_found_ok:
  assumes "row_update upd" "table_rows_ok rs" "row_of i rs = Some row" "attempts_ok (upd row)"
    and "update_where upd (\<lambda>r. row_id r = i) rs = Inr (n, rs')"
  shows "table_rows_ok rs'"
proof -
  have "attempts_ok (upd r)" if "r \<in> set rs" "row_id r = i" for r
    using assms(2,4) row_of_unique [OF _ assms(3) that] by auto
  moreover have "rs' = map (\<lambda>r. if row_id r = i then upd r else r) rs"
    using assms(5) by (simp add: update_where_def)
  ultimately show ?thesis
    using row_update.ids_ok_update [OF assms(1,5)] assms(2) by auto
qed

lemma snd_abind_areturn: "snd (abind m (\<lambda>_. areturn x) s) = snd (m s)"
  by (auto simp: abind_def split: prod.split sum.split)

lemma sql_update_found:
  assumes "row_update upd" "table_ok s" "row_of i (rows s) = Some row" "attempts_ok (upd row)"
  shows "table_ok (snd (sql p (update_where upd (\<lambda>r. row_id r = i)) s))"
  using update_found_ok [OF assms(1) _ assms(3,4)] assms(2)
  by (auto simp: sql_def table_ok_def update_where_def split: list.split option.split)

lemma sql_read: "sql p (\<lambda>rs. Inr (f rs, rs)) s = (r, s') \<Longrightarrow> rows s' = rows s \<and> (\<forall>x. r = Inr x \<longrightarrow> x = f (rows s))"
  by (auto simp: sql_def split: list.splits option.splits)

lemma preserves_fail_task: "preserves table_ok (fail_task env task_id err now)"
  unfolding preserves_def
proof (intro allI impI)
  fix s assume ok: "table_ok s"
  define s1 where "s1 = snd (ensure_schema s)"
  have ok1: "table_ok s1" using preserves_ensure_schema ok by (simp add: preserves_def s1_def)
  show "table_ok (snd (fail_task env task_id err now s))"
  proof (cases "\<exists>i. fst (ensure_schema s) = Inr () \<and> parse_uuid env task_id = Inr i")
    case False
    then show ?thesis
      using ok1 by (cases "ensure_schema s"; cases "fst (ensure_schema s)"; cases "parse_uuid env task_id")
        (auto simp: fail_task_def abind_def s1_def)
  next
    case True
    then obtain i where i: "ensure_schema s = (Inr (), s1)" "parse_uuid env task_id = Inr i"
      by (auto simp: s1_def prod_eq_iff)
    obtain r s2 where sel: "sql ''Fail select failed: '' (\<lambda>rs. Inr (List.find (\<lambda>r. row_id r = i) rs, rs)) s1 = (r, s2)"
      by (meson surj_pair)
    note rd = sql_read [OF sel]
    have ok2: "table_ok s2" using ok1 rd by (simp add: table_ok_def)
    show ?thesis
    proof (cases "\<exists>row. r = Inr (Some row)")
      case False
      then show ?thesis
        using ok2 i sel by (cases r) (auto simp: fail_task_def abind_def split: option.split)
    next
      case True
      then obtain row where row: "r = Inr (Some row)" "row_of i (rows s2) = Some row"
        using rd by (auto simp: row_of_def)
      have dead: "attempts_ok (dead_row now err row)" by (simp add: attempts_ok_def dead_row_def)
      have retry: "attempts_ok (retry_row t err row)" if "\<not> max_retries row \<le> retry_count row" for t
        using that by (auto simp: attempts_ok_def retry_row_def)
      show ?thesis
        using i sel row sql_update_found [OF dead_upd.row_update_axioms ok2 row(2) dead]
          sql_update_found [OF retry_upd.row_update_axioms ok2 row(2) retry] ok2
        by (cases "time_add env now (backoff_secs (retry_count row))")
          (auto simp: fail_task_def abind_def [of ensure_schema] abind_def [of "sql ''Fail select failed: '' _"]
            abind_def [of "add_secs _ _ _"] add_secs_def snd_abind_areturn)
    qed
  qed
qed

text \<open>The operations a queue runs without reclaiming.\<close>

inductive queue_op :: "task_env \<Rightarrow> tq_state \<Rightarrow> tq_state \<Rightarrow> bool" for env where
  op_enqueue: "queue_op env s (snd (enqueue env i now db_now req s))"
| op_claim: "queue_op env s (snd (claim_next env qn now s))"
| op_complete: "queue_op env s (snd (complete env task_id now s))"
| op_fail: "queue_op env s (snd (fail_task env task_id err now s))"
| op_retry_dead: "queue_op env s (snd (retry_dead_letter env task_id s))"

lemma queue_op_table_ok: "queue_op env s s' \<Longrightarrow> table_ok s \<Longrightarrow> table_ok s'"
  by (induction rule: queue_op.induct)
    (use preserves_enqueue preserves_claim_next preserves_complete preserves_fail_task
      preserves_retry_dead_letter in \<open>auto simp: preserves_def\<close>)

text \<open>
  Starting from an empty table, after any sequence of enqueues, claims, completions, failures
  and manual retries, with database faults and time overflows at any point, no task has more
  attempts than its limit (or one, if the limit is zero) while it is pending or running, and a
  pending task always has an attempt left.
\<close>

theorem attempts_bounded:
  assumes "(queue_op env)\<^sup>*\<^sup>* \<lparr>rows = [], faults = fs\<rparr> s" and "r \<in> set (rows s)"
  shows "(status r = ''running'' \<longrightarrow> retry_count r \<le> max 1 (max_retries r)) \<and>
    (status r = ''pending'' \<longrightarrow> retry_count r < max 1 (max_retries r))"
proof -
  have "table_ok \<lparr>rows = [], faults = fs\<rparr>" by (simp add: table_ok_def ids_ok_def)
  with assms(1) have "table_ok s" by (induction rule: rtranclp_induct) (auto intro: queue_op_table_ok)
  with assms(2) show ?thesis by (auto simp: table_ok_def attempts_ok_def)
qed

theorem attempts_bounded_witness:
  "\<exists>r. rows (snd (enqueue sample_env 4 0 0 EnqueueRequest_default \<lparr>rows = [], faults = []\<rparr>)) = [r] \<and>
     status r = ''pending'' \<and> retry_count r < max 1 (max_retries r)"
proof -
  let ?s = "snd (enqueue sample_env 4 0 0 EnqueueRequest_default \<lparr>rows = [], faults = []\<rparr>)"
  have run: "(queue_op sample_env)\<^sup>*\<^sup>* \<lparr>rows = [], faults = []\<rparr> ?s"
    by (rule r_into_rtranclp, rule op_enqueue)
  have "map status (rows ?s) = [''pending'']"
    by (simp add: enqueue_def ensure_schema_def abind_def sql_def insert_stmt_def new_row_def EnqueueRequest_default_def
        sample_env_def Let_def)
  then obtain r where "rows ?s = [r]" "status r = ''pending''" by (cases "rows ?s") auto
  then show ?thesis using attempts_bounded [OF run, of r] by simp
qed

text \<open>
  Reclaiming a stale task ignores its retry limit: a task whose worker died on its last allowed
  attempt becomes pending again, and the next claim gives it an attempt beyond the limit.
\<close>

theorem reclaim_exceeds_limit:
  assumes "row_of i rs = Some r" and "stale cutoff r" and "max_retries r \<le> retry_count r"
    and "update_where reclaimed (stale cutoff) rs = Inr (n, rs')"
  shows "\<exists>r'. row_of i rs' = Some r' \<and> status r' = ''pending'' \<and>
    max_retries (claimed now r') < retry_count (claimed now r')"
  using reclaim_upd.row_of_update [OF assms(4), of i] assms(1-3)
  by (auto simp: reclaimed_def claimed_def)

theorem reclaim_exceeds_limit_witness:
  "\<exists>r'. row_of 5 [reclaimed (claimed 9 (sample_task 5 0) \<lparr>retry_count := 3\<rparr>)] = Some r' \<and> status r' = ''pending'' \<and>
    max_retries (claimed 20 r') < retry_count (claimed 20 r')"
proof -
  let ?r = "claimed 9 (sample_task 5 0) \<lparr>retry_count := 3\<rparr>"
  have "row_of 5 [?r] = Some ?r" "stale 15 ?r" "max_retries ?r \<le> retry_count ?r"
    by (simp_all add: row_of_def stale_def claimed_def sample_task_def new_row_def EnqueueRequest_default_def
        default_max_retries_def as_i32_def)
  moreover from this have "update_where reclaimed (stale 15) [?r] = Inr (1, [reclaimed ?r])"
    by (simp add: update_where_def)
  ultimately show ?thesis by (rule reclaim_exceeds_limit)
qed

subsection \<open>Statistics\<close>

lemma map_of_rev_counts:
  "map_of (rev (map (\<lambda>(st, n). (st, json_int (int n))) (status_counts rs))) st =
     (if st \<in> status ` set rs then Some (json_int (int (length (filter (\<lambda>r. status r = st) rs)))) else None)"
proof -
  have "distinct (map fst (map (\<lambda>(st, n). (st, json_int (int n))) (status_counts rs)))"
    by (simp add: status_counts_def comp_def split_beta)
  then have "map_of (rev (map (\<lambda>(st, n). (st, json_int (int n))) (status_counts rs))) =
      map_of (map (\<lambda>(st, n). (st, json_int (int n))) (status_counts rs))"
    by (subst map_of_inject_set) (simp_all flip: rev_map)
  also have "map_of (map (\<lambda>(st, n). (st, json_int (int n))) (status_counts rs)) =
      map_of (map (\<lambda>st. (st, json_int (int (length (filter (\<lambda>r. status r = st) rs))))) (remdups (map status rs)))"
    by (simp add: status_counts_def comp_def)
  finally show ?thesis by (simp add: map_of_map_restrict restrict_map_def)
qed

text \<open>
  \<open>stats\<close> counts the tasks of all queues whatever queue it is asked about: with no database
  fault the member for a status is the number of rows with that status in the whole table, and
  the queue name is only echoed.
\<close>

theorem stats_count_all_queues:
  assumes "set (faults s) \<subseteq> {None}" and "st \<noteq> ''queue''"
  shows "\<exists>v. fst (stats qn s) = Inr v \<and> jget ''queue'' v \<noteq> None \<and>
    jget st v = (if st \<in> status ` set (rows s)
      then Some (json_int (int (length (filter (\<lambda>r. status r = st) (rows s))))) else None)"
proof -
  define v where "v = json_obj ((''queue'', JString qn) # map (\<lambda>(st, n). (st, json_int (int n))) (status_counts (rows s)))"
  have run: "fst (stats qn s) = Inr v"
    using assms(1) by (simp add: stats_def v_def abind_def ensure_schema_ok sql_ok tl_no_faults)
  have look: "jget k v = (map_of (rev (map (\<lambda>(st, n). (st, json_int (int n))) (status_counts (rows s)))) ++ Map.empty) k"
    if "k \<noteq> ''queue''" for k
    using that by (simp add: v_def json_obj_def jget_def map_of_fold_obj_insert map_add_def split: option.split)
  have "jget ''queue'' v \<noteq> None"
    by (simp add: v_def json_obj_def jget_def map_of_fold_obj_insert map_add_def split: option.split)
  then show ?thesis using run look [OF assms(2)] by (simp add: map_of_rev_counts)
qed

theorem stats_count_all_queues_witness:
  "\<exists>v. fst (stats ''emails'' \<lparr>rows = [sample_task 5 0, sample_task 6 1], faults = []\<rparr>) = Inr v \<and>
    jget ''pending'' v = Some (json_int 2)"
  using stats_count_all_queues [of "\<lparr>rows = [sample_task 5 0, sample_task 6 1], faults = []\<rparr>" "''pending''" "''emails''"]
  by (auto simp: sample_task_def new_row_def)

end
