(* ===== verification/Realtime_Registry.thy ===== *)
theory Realtime_Registry
  imports Core_Error
begin

text \<open>
  The subscription registry of the realtime service (\<open>crates/ob-realtime/src/registry.rs\<close>). The
  concurrent maps are association lists in arbitrary order and hash sets are lists without
  repetition; each method is one step. A sender is the identity of the channel it sends to.
\<close>

datatype ChangeAction = Create | Update | Delete

record ChangeEvent =
  ev_action :: ChangeAction
  ev_collection :: string
  ev_document_id :: string
  ev_data :: json
  ev_before_data :: "json option"
  ev_after_data :: "json option"
  ev_timestamp :: string

record RealtimeMessage =
  subscription_id :: string
  event :: ChangeEvent

record Subscription =
  sub_id :: string
  sub_collection :: string
  filter_hash :: nat
  document_id :: "string option"
  sub_user_id :: "string option"
  sender :: nat

record PresenceInfo =
  pr_user_id :: string
  pr_connection_id :: string
  pr_status :: string
  last_seen :: string
  metadata :: json

record SubscriptionRegistry =
  subscriptions :: "(string \<times> Subscription) list"
  dependency_map :: "((string \<times> nat) \<times> string list) list"
  connections :: "(string \<times> string list) list"
  presence :: "(string \<times> PresenceInfo) list"

definition registry_new :: SubscriptionRegistry where
  "registry_new = \<lparr>subscriptions = [], dependency_map = [], connections = [], presence = []\<rparr>"

subsection \<open>Hash sets and entries\<close>

definition hs_insert :: "'a \<Rightarrow> 'a list \<Rightarrow> 'a list" where
  "hs_insert x xs = (if x \<in> set xs then xs else xs @ [x])"

definition hs_remove :: "'a \<Rightarrow> 'a list \<Rightarrow> 'a list" where
  "hs_remove x xs = filter (\<lambda>y. y \<noteq> x) xs"

text \<open>\<open>map.entry(key).or_default().insert(x)\<close>.\<close>

definition entry_insert :: "'k \<Rightarrow> 'a \<Rightarrow> ('k \<times> 'a list) list \<Rightarrow> ('k \<times> 'a list) list" where
  "entry_insert k x m = hm_insert k (hs_insert x (case map_of m k of Some xs \<Rightarrow> xs | None \<Rightarrow> [])) m"

lemma set_hs_insert [simp]: "set (hs_insert x xs) = insert x (set xs)"
  by (auto simp: hs_insert_def)

lemma set_hs_remove [simp]: "set (hs_remove x xs) = set xs - {x}"
  by (auto simp: hs_remove_def)

subsection \<open>Subscriptions\<close>

definition sub_key :: "Subscription \<Rightarrow> string \<times> nat" where
  "sub_key s = (sub_collection s, filter_hash s)"

definition subscribe :: "string \<Rightarrow> Subscription \<Rightarrow> SubscriptionRegistry \<Rightarrow> SubscriptionRegistry" where
  "subscribe connection_id s reg =
     reg\<lparr>dependency_map := entry_insert (sub_key s) (sub_id s) (dependency_map reg),
         connections := entry_insert connection_id (sub_id s) (connections reg),
         subscriptions := hm_insert (sub_id s) s (subscriptions reg)\<rparr>"

definition unsubscribe :: "string \<Rightarrow> SubscriptionRegistry \<Rightarrow> SubscriptionRegistry" where
  "unsubscribe i reg =
     (case map_of (subscriptions reg) i of
        None \<Rightarrow> reg
      | Some s \<Rightarrow>
          (let reg' = reg\<lparr>subscriptions := hm_remove i (subscriptions reg)\<rparr>
           in case map_of (dependency_map reg') (sub_key s) of
                None \<Rightarrow> reg'
              | Some ids \<Rightarrow>
                  (let ids' = hs_remove i ids
                   in if ids' = [] then reg'\<lparr>dependency_map := hm_remove (sub_key s) (dependency_map reg')\<rparr>
                      else reg'\<lparr>dependency_map := hm_insert (sub_key s) ids' (dependency_map reg')\<rparr>)))"

definition disconnect :: "string \<Rightarrow> SubscriptionRegistry \<Rightarrow> SubscriptionRegistry" where
  "disconnect connection_id reg =
     (case map_of (connections reg) connection_id of
        None \<Rightarrow> reg
      | Some ids \<Rightarrow> fold unsubscribe ids (reg\<lparr>connections := hm_remove connection_id (connections reg)\<rparr>))"

definition find_affected :: "string \<Rightarrow> nat \<Rightarrow> SubscriptionRegistry \<Rightarrow> Subscription list" where
  "find_affected coll hash reg =
     (case map_of (dependency_map reg) (coll, hash) of
        Some ids \<Rightarrow> List.map_filter (\<lambda>i. map_of (subscriptions reg) i) ids
      | None \<Rightarrow> [])"

definition find_all_for_collection :: "string \<Rightarrow> SubscriptionRegistry \<Rightarrow> Subscription list" where
  "find_all_for_collection coll reg =
     filter (\<lambda>s. sub_collection s = coll) (map snd (subscriptions reg))"

definition find_document_subscribers :: "string \<Rightarrow> string \<Rightarrow> SubscriptionRegistry \<Rightarrow> Subscription list" where
  "find_document_subscribers coll doc reg =
     filter (\<lambda>s. sub_collection s = coll \<and> document_id s = Some doc) (map snd (subscriptions reg))"

definition find_all_affected :: "string \<Rightarrow> string \<Rightarrow> nat \<Rightarrow> SubscriptionRegistry \<Rightarrow> Subscription list" where
  "find_all_affected coll doc hash reg =
     (let result = find_affected coll hash reg
      in result @ filter (\<lambda>s. sub_id s \<notin> sub_id ` set result) (find_document_subscribers coll doc reg))"

subsection \<open>Presence and counters\<close>

definition set_presence :: "string \<Rightarrow> string \<Rightarrow> json \<Rightarrow> string \<Rightarrow> SubscriptionRegistry \<Rightarrow> SubscriptionRegistry" where
  "set_presence user_id connection_id md now reg =
     reg\<lparr>presence := hm_insert user_id
       \<lparr>pr_user_id = user_id, pr_connection_id = connection_id, pr_status = ''online'', last_seen = now, metadata = md\<rparr>
       (presence reg)\<rparr>"

definition remove_presence :: "string \<Rightarrow> SubscriptionRegistry \<Rightarrow> SubscriptionRegistry" where
  "remove_presence connection_id reg =
     reg\<lparr>presence := filter (\<lambda>(_, info). pr_connection_id info \<noteq> connection_id) (presence reg)\<rparr>"

definition heartbeat :: "string \<Rightarrow> string \<Rightarrow> SubscriptionRegistry \<Rightarrow> SubscriptionRegistry" where
  "heartbeat connection_id now reg =
     reg\<lparr>presence := map (\<lambda>(u, info).
       (u, if pr_connection_id info = connection_id then info\<lparr>last_seen := now\<rparr> else info)) (presence reg)\<rparr>"

definition get_online_users :: "SubscriptionRegistry \<Rightarrow> PresenceInfo list" where
  "get_online_users reg = map snd (presence reg)"

definition is_online :: "string \<Rightarrow> SubscriptionRegistry \<Rightarrow> bool" where
  "is_online user_id reg \<longleftrightarrow> map_of (presence reg) user_id \<noteq> None"

definition get_presence :: "string \<Rightarrow> SubscriptionRegistry \<Rightarrow> PresenceInfo option" where
  "get_presence user_id reg = map_of (presence reg) user_id"

definition online_count :: "SubscriptionRegistry \<Rightarrow> nat" where
  "online_count reg = length (presence reg)"

definition subscription_count :: "SubscriptionRegistry \<Rightarrow> nat" where
  "subscription_count reg = length (subscriptions reg)"

definition connection_count :: "SubscriptionRegistry \<Rightarrow> nat" where
  "connection_count reg = length (connections reg)"

definition connection_subscription_count :: "string \<Rightarrow> SubscriptionRegistry \<Rightarrow> nat" where
  "connection_subscription_count connection_id reg =
     (case map_of (connections reg) connection_id of Some ids \<Rightarrow> length ids | None \<Rightarrow> 0)"

subsection \<open>The interface of the index\<close>

text \<open>
  What a client of the index relies on: a finite map from ids to subscriptions, changed one id at a
  time, and a lookup by key that returns exactly the subscriptions with the key.
\<close>

locale subscription_index =
  fixes inv :: "'r \<Rightarrow> bool"
    and active :: "'r \<Rightarrow> string \<Rightarrow> Subscription option"
    and add :: "string \<Rightarrow> Subscription \<Rightarrow> 'r \<Rightarrow> 'r"
    and del :: "string \<Rightarrow> 'r \<Rightarrow> 'r"
    and find :: "string \<Rightarrow> nat \<Rightarrow> 'r \<Rightarrow> Subscription list"
  assumes own_id: "inv r \<Longrightarrow> active r i = Some s \<Longrightarrow> sub_id s = i"
    and add_active: "active (add c s r) = (active r)(sub_id s \<mapsto> s)"
    and add_inv: "inv r \<Longrightarrow> active r (sub_id s) = None \<Longrightarrow> inv (add c s r)"
    and del_active: "active (del i r) = (active r)(i := None)"
    and del_inv: "inv r \<Longrightarrow> inv (del i r)"
    and find_active: "inv r \<Longrightarrow> set (find c h r) = {s. active r (sub_id s) = Some s \<and> sub_key s = (c, h)}"
begin

lemma found_after_add:
  "inv r \<Longrightarrow> active r (sub_id s) = None \<Longrightarrow> set (find c h (add conn s r)) =
     set (find c h r) \<union> (if sub_key s = (c, h) then {s} else {})"
  by (auto simp: find_active add_inv add_active)

lemma found_after_del:
  "inv r \<Longrightarrow> set (find c h (del i r)) = {s \<in> set (find c h r). sub_id s \<noteq> i}"
  by (auto simp: find_active del_inv del_active)

lemma del_all_active: "active (fold del is r) = (\<lambda>i. if i \<in> set is then None else active r i)"
  by (induction "is" arbitrary: r) (auto simp: del_active fun_eq_iff)

lemma del_all_inv: "inv r \<Longrightarrow> inv (fold del is r)"
  by (induction "is" arbitrary: r) (auto simp: del_inv)

end

subsection \<open>The index is exact\<close>

definition filed :: "SubscriptionRegistry \<Rightarrow> string \<times> nat \<Rightarrow> string set" where
  "filed reg k = (case map_of (dependency_map reg) k of Some ids \<Rightarrow> set ids | None \<Rightarrow> {})"

definition active_subs :: "SubscriptionRegistry \<Rightarrow> string \<Rightarrow> Subscription option" where
  "active_subs reg = map_of (subscriptions reg)"

text \<open>Every subscription is stored under its own id, and the index lists an id under a key exactly
  when the subscription of that id has the key.\<close>

definition index_exact :: "SubscriptionRegistry \<Rightarrow> bool" where
  "index_exact reg \<longleftrightarrow>
     (\<forall>i s. active_subs reg i = Some s \<longrightarrow> sub_id s = i) \<and>
     (\<forall>k. filed reg k = {i. \<exists>s. active_subs reg i = Some s \<and> sub_key s = k})"

lemma index_exactI:
  assumes "\<And>i s. active_subs reg i = Some s \<Longrightarrow> sub_id s = i"
    and "\<And>i k. i \<in> filed reg k \<longleftrightarrow> (\<exists>s. active_subs reg i = Some s \<and> sub_key s = k)"
  shows "index_exact reg"
  using assms by (simp add: index_exact_def set_eq_iff)

lemma index_exactD:
  assumes "index_exact reg"
  shows "active_subs reg i = Some s \<Longrightarrow> sub_id s = i"
    and "i \<in> filed reg k \<longleftrightarrow> (\<exists>s. active_subs reg i = Some s \<and> sub_key s = k)"
  using assms unfolding index_exact_def by blast+

lemma active_subs_frame [simp]:
  "active_subs (reg\<lparr>connections := cs\<rparr>) = active_subs reg"
  "active_subs (reg\<lparr>presence := ps\<rparr>) = active_subs reg"
  by (simp_all add: active_subs_def)

lemma active_subscribe [simp]: "active_subs (subscribe c s reg) = (active_subs reg)(sub_id s \<mapsto> s)"
  by (simp add: active_subs_def subscribe_def)

lemma filed_subscribe [simp]:
  "filed (subscribe c s reg) k = (if k = sub_key s then insert (sub_id s) (filed reg k) else filed reg k)"
  by (auto simp: filed_def subscribe_def entry_insert_def split: option.splits)

lemma unsubscribe_absent [simp]: "active_subs reg i = None \<Longrightarrow> unsubscribe i reg = reg"
  by (simp add: unsubscribe_def active_subs_def)

lemma active_unsubscribe [simp]: "active_subs (unsubscribe i reg) = (active_subs reg)(i := None)"
  by (auto simp: unsubscribe_def active_subs_def Let_def fun_eq_iff split: option.splits)

lemma filed_unsubscribe:
  "active_subs reg i = Some s \<Longrightarrow>
     filed (unsubscribe i reg) k = (if k = sub_key s then filed reg k - {i} else filed reg k)"
  by (auto simp: filed_def unsubscribe_def active_subs_def Let_def split: option.splits if_splits)
    (auto simp: hs_remove_def filter_empty_conv)

lemma index_exact_subscribe:
  assumes "index_exact reg" "active_subs reg (sub_id s) = None"
  shows "index_exact (subscribe c s reg)"
  by (rule index_exactI)
    (use assms index_exactD [OF assms(1)] in \<open>auto split: if_splits\<close>)

lemma index_exact_unsubscribe:
  assumes "index_exact reg"
  shows "index_exact (unsubscribe i reg)"
proof (cases "active_subs reg i")
  case (Some s)
  show ?thesis
    by (rule index_exactI)
      (use Some index_exactD [OF assms] in \<open>auto simp: filed_unsubscribe [OF Some] split: if_splits\<close>)
qed (simp add: assms)

lemma set_map_filter: "set (List.map_filter f xs) = {y. \<exists>x \<in> set xs. f x = Some y}"
  by (induction xs) (auto simp: List.map_filter_simps split: option.splits)

lemma set_find_affected_filed:
  "set (find_affected c h reg) = {s. \<exists>i \<in> filed reg (c, h). active_subs reg i = Some s}"
  by (auto simp: find_affected_def filed_def active_subs_def set_map_filter split: option.split)

lemma set_find_affected:
  assumes "index_exact reg"
  shows "set (find_affected c h reg) = {s. active_subs reg (sub_id s) = Some s \<and> sub_key s = (c, h)}"
  using index_exactD [OF assms] by (fastforce simp: set_find_affected_filed)

interpretation reg: subscription_index index_exact active_subs subscribe unsubscribe find_affected
proof
  show "index_exact r \<Longrightarrow> active_subs r i = Some s \<Longrightarrow> sub_id s = i" for r i s
    by (auto simp: index_exact_def)
qed (simp_all add: index_exact_subscribe index_exact_unsubscribe set_find_affected)

lemma index_exact_new: "index_exact registry_new"
  by (simp add: index_exact_def active_subs_def filed_def registry_new_def)

lemma connections_unsubscribe [simp]: "connections (unsubscribe i reg) = connections reg"
  by (auto simp: unsubscribe_def Let_def split: option.split)

lemma connections_unsubscribe_all [simp]: "connections (fold unsubscribe is reg) = connections reg"
  by (induction "is" arbitrary: reg) auto

lemma presence_unsubscribe [simp]: "presence (unsubscribe i reg) = presence reg"
  by (auto simp: unsubscribe_def Let_def split: option.split)

definition ids_of :: "string \<Rightarrow> SubscriptionRegistry \<Rightarrow> string set" where
  "ids_of conn reg = (case map_of (connections reg) conn of Some ids \<Rightarrow> set ids | None \<Rightarrow> {})"

lemma disconnect_active:
  "active_subs (disconnect conn reg) = (\<lambda>i. if i \<in> ids_of conn reg then None else active_subs reg i)"
proof (cases "map_of (connections reg) conn")
  case (Some ids)
  then show ?thesis
    using reg.del_all_active [of ids] by (simp add: disconnect_def ids_of_def fun_eq_iff)
qed (simp add: disconnect_def ids_of_def)

lemma disconnect_index_exact: "index_exact reg \<Longrightarrow> index_exact (disconnect conn reg)"
proof (cases "map_of (connections reg) conn")
  case (Some ids)
  assume "index_exact reg"
  then have "index_exact (reg\<lparr>connections := hm_remove conn (connections reg)\<rparr>)"
    by (simp add: index_exact_def filed_def)
  then show ?thesis using Some by (simp add: disconnect_def reg.del_all_inv)
qed (simp add: disconnect_def)

lemma hm_ok_unsubscribe: "hm_ok (subscriptions reg) \<Longrightarrow> hm_ok (subscriptions (unsubscribe i reg))"
  by (auto simp: unsubscribe_def Let_def split: option.split)

lemma hm_ok_disconnect: "hm_ok (subscriptions reg) \<Longrightarrow> hm_ok (subscriptions (disconnect c reg))"
proof -
  have "hm_ok (subscriptions r) \<Longrightarrow> hm_ok (subscriptions (fold unsubscribe is r))" for "is" r
    by (induction "is" arbitrary: r) (auto simp: hm_ok_unsubscribe)
  then show "hm_ok (subscriptions reg) \<Longrightarrow> ?thesis" by (simp add: disconnect_def split: option.split)
qed

subsection \<open>Refinement of a map\<close>

text \<open>The calls that change subscriptions, in any order and with any ids, also ids in use.\<close>

datatype reg_op = OpSubscribe string Subscription | OpUnsubscribe string | OpDisconnect string

fun reg_apply :: "reg_op \<Rightarrow> SubscriptionRegistry \<Rightarrow> SubscriptionRegistry" where
  "reg_apply (OpSubscribe c s) r = subscribe c s r"
| "reg_apply (OpUnsubscribe i) r = unsubscribe i r"
| "reg_apply (OpDisconnect c) r = disconnect c r"

text \<open>The specification: a map of live subscriptions, and for each connection the ids it has used.\<close>

type_synonym reg_spec = "(string \<Rightarrow> Subscription option) \<times> (string \<Rightarrow> string set)"

fun spec_apply :: "reg_op \<Rightarrow> reg_spec \<Rightarrow> reg_spec" where
  "spec_apply (OpSubscribe c s) (m, used) = (m(sub_id s \<mapsto> s), used(c := insert (sub_id s) (used c)))"
| "spec_apply (OpUnsubscribe i) (m, used) = (m(i := None), used)"
| "spec_apply (OpDisconnect c) (m, used) = ((\<lambda>i. if i \<in> used c then None else m i), used(c := {}))"

fun fresh_id :: "reg_op \<Rightarrow> reg_spec \<Rightarrow> bool" where
  "fresh_id (OpSubscribe c s) (m, used) = (m (sub_id s) = None)"
| "fresh_id _ _ = True"

text \<open>Every subscription to a new id, along the calls.\<close>

fun fresh_ids :: "reg_op list \<Rightarrow> reg_spec \<Rightarrow> bool" where
  "fresh_ids [] a = True"
| "fresh_ids (x # xs) a = (fresh_id x a \<and> fresh_ids xs (spec_apply x a))"

definition reg_abs :: "SubscriptionRegistry \<Rightarrow> reg_spec" where
  "reg_abs r = (active_subs r, \<lambda>c. ids_of c r)"

definition covers :: "SubscriptionRegistry \<Rightarrow> bool" where
  "covers r \<longleftrightarrow> hm_ok (subscriptions r) \<and> hm_ok (connections r) \<and> (\<forall>i s. active_subs r i = Some s \<longrightarrow> sub_id s = i \<and> i \<in> filed r (sub_key s))"

lemma ids_of_subscribe:
  "ids_of c (subscribe conn s reg) = (if c = conn then insert (sub_id s) (ids_of c reg) else ids_of c reg)"
  by (auto simp: ids_of_def subscribe_def entry_insert_def split: option.splits)

lemma ids_of_disconnect: "ids_of c (disconnect conn reg) = (if c = conn then {} else ids_of c reg)"
  by (auto simp: disconnect_def ids_of_def split: option.split)

lemma reg_abs_apply: "reg_abs (reg_apply x r) = spec_apply x (reg_abs r)"
proof (cases x)
  case (OpUnsubscribe i)
  then show ?thesis by (simp add: reg_abs_def ids_of_def)
qed (auto simp: reg_abs_def ids_of_subscribe ids_of_disconnect disconnect_active fun_eq_iff)

lemma covers_unsubscribe: "covers r \<Longrightarrow> covers (unsubscribe i r)"
  by (cases "active_subs r i") (auto simp: covers_def hm_ok_unsubscribe filed_unsubscribe split: if_splits, metis)

lemma covers_unsubscribe_all: "covers r \<Longrightarrow> covers (fold unsubscribe is r)"
  by (induction "is" arbitrary: r) (auto simp: covers_unsubscribe)

lemma covers_apply: "covers r \<Longrightarrow> covers (reg_apply x r)"
proof (cases x)
  case (OpSubscribe c s)
  then show "covers r \<Longrightarrow> ?thesis" by (auto simp: covers_def split: if_splits) (auto simp: subscribe_def entry_insert_def, metis)
next
  case (OpUnsubscribe i)
  then show "covers r \<Longrightarrow> ?thesis" by (simp add: covers_unsubscribe)
next
  case (OpDisconnect c)
  assume "covers r"
  then have "covers (r\<lparr>connections := hm_remove c (connections r)\<rparr>)" by (simp add: covers_def filed_def)
  with OpDisconnect \<open>covers r\<close> show ?thesis by (simp add: disconnect_def covers_unsubscribe_all split: option.split)
qed

lemma index_exact_apply: "index_exact r \<Longrightarrow> fresh_id x (reg_abs r) \<Longrightarrow> index_exact (reg_apply x r)"
  by (cases x) (auto simp: reg_abs_def index_exact_subscribe index_exact_unsubscribe disconnect_index_exact)

lemma reg_run:
  "reg_abs (fold reg_apply xs r) = fold spec_apply xs (reg_abs r)" "covers r \<Longrightarrow> covers (fold reg_apply xs r)"
  "index_exact r \<Longrightarrow> fresh_ids xs (reg_abs r) \<Longrightarrow> index_exact (fold reg_apply xs r)"
  by (induction xs arbitrary: r) (auto simp: reg_abs_apply covers_apply index_exact_apply)

text \<open>
  C8. The registry refines a map of subscriptions over every sequence of calls, also when ids are used again: it holds exactly the
  subscriptions of the map, disconnecting removes exactly the ids the connection has used, the lookup by collection that the
  dispatcher uses is exact, and the lookup by filter hash returns only live subscriptions and misses none with that key.
  The lookup by hash is exact when every subscription is made under an id that is free at that time; an id
  subscribed again under another key stays listed under the old one.
\<close>

theorem registry_refines_map:
  assumes "fold spec_apply xs (Map.empty, \<lambda>_. {}) = (m, used)" and "r = fold reg_apply xs registry_new"
  shows "active_subs r = m \<and> (\<forall>conn. ids_of conn r = used conn) \<and>
    set (find_all_for_collection c r) = {s \<in> ran m. sub_collection s = c} \<and>
    {s \<in> ran m. sub_key s = (c, h)} \<subseteq> set (find_affected c h r) \<and> set (find_affected c h r) \<subseteq> ran m \<and>
    (fresh_ids xs (Map.empty, \<lambda>_. {}) \<longrightarrow> set (find_affected c h r) = {s \<in> ran m. sub_key s = (c, h)})"
proof -
  have new: "reg_abs registry_new = (Map.empty, \<lambda>_. {})" "covers registry_new"
    by (auto simp: reg_abs_def covers_def active_subs_def ids_of_def registry_new_def hm_ok_def fun_eq_iff)
  have abs: "active_subs r = m" "ids_of conn r = used conn" for conn
    using reg_run(1) [of xs registry_new] assms new(1) by (auto simp: reg_abs_def)
  have cov: "covers r" unfolding assms(2) by (rule reg_run(2) [OF new(2)])
  have all: "set (find_all_for_collection c r) = {s \<in> ran m. sub_collection s = c}"
    using cov abs(1) by (force simp: find_all_for_collection_def covers_def active_subs_def ran_def simp flip: hm_mem_iff)
  have found: "set (find_affected c h r) = {s. \<exists>i \<in> filed r (c, h). m i = Some s}"
    using abs(1) by (simp add: set_find_affected_filed)
  have super: "{s \<in> ran m. sub_key s = (c, h)} \<subseteq> set (find_affected c h r)"
    unfolding found using cov abs(1) by (auto simp: ran_def covers_def) metis
  have sub: "set (find_affected c h r) \<subseteq> ran m" unfolding found by (auto simp: ran_def)
  have exact: "set (find_affected c h r) = {s \<in> ran m. sub_key s = (c, h)}" if "fresh_ids xs (Map.empty, \<lambda>_. {})"
  proof -
    have "index_exact r" unfolding assms(2) by (rule reg_run(3) [OF index_exact_new]) (use that new(1) in simp)
    then show ?thesis using super unfolding found by (auto simp: ran_def abs(1) dest: index_exactD(2) [THEN iffD1])
  qed
  show ?thesis using abs all super sub exact by blast
qed

definition sample_sub :: "string \<Rightarrow> string \<Rightarrow> Subscription" where
  "sample_sub i coll = \<lparr>sub_id = i, sub_collection = coll, filter_hash = 0, document_id = None,
     sub_user_id = Some ''u1'', sender = 1\<rparr>"

theorem registry_refines_map_witness:
  "set (find_affected ''cart'' 0 (fold reg_apply [OpSubscribe ''c1'' (sample_sub ''s1'' ''orders''), OpUnsubscribe ''s1'',
      OpSubscribe ''c1'' (sample_sub ''s1'' ''cart'')] registry_new)) = {sample_sub ''s1'' ''cart''}"
proof -
  let ?xs = "[OpSubscribe ''c1'' (sample_sub ''s1'' ''orders''), OpUnsubscribe ''s1'', OpSubscribe ''c1'' (sample_sub ''s1'' ''cart'')]"
  have m: "fold spec_apply ?xs (Map.empty, \<lambda>_. {}) = ([''s1'' \<mapsto> sample_sub ''s1'' ''cart''], (\<lambda>_. {})(''c1'' := {''s1''}))"
    by (simp add: sample_sub_def fun_eq_iff)
  have "fresh_ids ?xs (Map.empty, \<lambda>_. {})" by (simp add: sample_sub_def)
  with registry_refines_map [OF m refl, of "''cart''" 0] show ?thesis by (auto simp: sample_sub_def sub_key_def)
qed

subsection \<open>What unsubscribing leaves behind\<close>

lemma unsubscribe_keeps_count [simp]:
  "connection_subscription_count conn (unsubscribe i reg) = connection_subscription_count conn reg"
  by (simp add: connection_subscription_count_def)

text \<open>
  Subscribing again under an id in use, with another collection, leaves the old index entry: the
  lookup for the old key then returns the new subscription, whose collection is another one.
\<close>

theorem resubscribe_leaves_stale_entry:
  assumes "index_exact r" and "active_subs r (sub_id s) = Some old" and "sub_key old \<noteq> sub_key s"
  shows "s \<in> set (find_affected (sub_collection old) (filter_hash old) (subscribe conn s r)) \<and>
    \<not> index_exact (subscribe conn s r)"
proof -
  have "sub_id s \<in> filed r (sub_key old)" using assms(2) index_exactD(2) [OF assms(1)] by blast
  then have f: "sub_id s \<in> filed (subscribe conn s r) (sub_key old)" by simp
  have "\<not> index_exact (subscribe conn s r)"
  proof
    assume "index_exact (subscribe conn s r)"
    then obtain s' where "active_subs (subscribe conn s r) (sub_id s) = Some s'" "sub_key s' = sub_key old"
      using index_exactD(2) f by blast
    with assms(3) show False by simp
  qed
  moreover have "s \<in> set (find_affected (sub_collection old) (filter_hash old) (subscribe conn s r))"
    unfolding set_find_affected_filed sub_key_def [symmetric]
    by (rule CollectI, rule bexI [OF _ f]) simp
  ultimately show ?thesis by simp
qed

theorem resubscribe_leaves_stale_entry_witness:
  "sample_sub ''s1'' ''cart'' \<in> set (find_affected ''orders'' 0
     (subscribe ''c2'' (sample_sub ''s1'' ''cart'') (subscribe ''c1'' (sample_sub ''s1'' ''orders'') registry_new)))"
proof -
  let ?r = "subscribe ''c1'' (sample_sub ''s1'' ''orders'') registry_new"
  have "index_exact ?r"
    by (rule index_exact_subscribe [OF index_exact_new]) (simp add: active_subs_def registry_new_def)
  then show ?thesis
    using resubscribe_leaves_stale_entry [of ?r "sample_sub ''s1'' ''cart''" "sample_sub ''s1'' ''orders''" "''c2''"]
    by (simp add: sample_sub_def sub_key_def)
qed

end
