(* ===== verification/Realtime_Dispatcher.thy ===== *)
theory Realtime_Dispatcher
  imports Realtime_Registry
begin

text \<open>
  The change dispatcher (\<open>crates/ob-realtime/src/dispatcher.rs\<close>): the ownership filter and the loop
  that sends each change event to the subscribers of its collection. A channel is its buffer,
  its capacity and whether its receiver is gone; \<open>try_send\<close> fails on a full or closed channel and
  the loop only logs the failure.
\<close>

record channel =
  buf :: "RealtimeMessage list"
  capacity :: nat
  closed_ch :: bool

type_synonym channels = "nat \<Rightarrow> channel"

definition try_send :: "nat \<Rightarrow> RealtimeMessage \<Rightarrow> channels \<Rightarrow> channels" where
  "try_send ch msg chans =
     (if closed_ch (chans ch) \<or> capacity (chans ch) \<le> length (buf (chans ch)) then chans
      else chans(ch := (chans ch)\<lparr>buf := buf (chans ch) @ [msg]\<rparr>))"

definition retain_users :: "string option list \<Rightarrow> Subscription list \<Rightarrow> Subscription list" where
  "retain_users owners subs =
     filter (\<lambda>sub. case sub_user_id sub of None \<Rightarrow> True | Some uid \<Rightarrow> Some uid \<in> set owners) subs"

definition or_else :: "'a option \<Rightarrow> 'a option \<Rightarrow> 'a option" where
  "or_else a b = (case a of Some x \<Rightarrow> Some x | None \<Rightarrow> b)"

definition filter_by_ownership :: "string \<Rightarrow> json \<Rightarrow> Subscription list \<Rightarrow> Subscription list" where
  "filter_by_ownership coll data subs =
     (if coll = ''orders'' then
        retain_users [jget_str ''buyerId'' data, jget_str ''sellerId'' data] subs
      else if coll \<in> {''cart'', ''notifications'', ''subscriptions''} then
        retain_users [jget_str ''userId'' data] subs
      else if coll = ''return_requests'' then
        retain_users [jget_str ''buyerId'' data, jget_str ''sellerId'' data] subs
      else if coll \<in> {''chat_messages'', ''chat_threads''} then
        retain_users [jget_str ''buyerId'' data, jget_str ''sellerId'' data] subs
      else if coll \<in> {''seller_profiles'', ''warehouses''} then
        retain_users [or_else (jget_str ''sellerId'' data) (jget_str ''parent_id'' data)] subs
      else subs)"

definition dispatch_event :: "SubscriptionRegistry \<Rightarrow> ChangeEvent \<Rightarrow> channels \<Rightarrow> channels" where
  "dispatch_event reg ev chans =
     (let subs = find_all_for_collection (ev_collection ev) reg
      in if subs = [] then chans
         else fold (\<lambda>sub. try_send (sender sub) \<lparr>subscription_id = sub_id sub, event = ev\<rparr>)
                (filter_by_ownership (ev_collection ev) (ev_data ev) subs) chans)"

text \<open>The loop, on the events received until the channel closes, each with the registry at its time.\<close>

definition run_dispatcher :: "(SubscriptionRegistry \<times> ChangeEvent) list \<Rightarrow> channels \<Rightarrow> channels" where
  "run_dispatcher evs chans = fold (\<lambda>(reg, ev). dispatch_event reg ev) evs chans"

definition emit_change :: "ChangeAction \<Rightarrow> string \<Rightarrow> string \<Rightarrow> json \<Rightarrow> string \<Rightarrow> ChangeEvent" where
  "emit_change action coll doc data now =
     \<lparr>ev_action = action, ev_collection = coll, ev_document_id = doc, ev_data = data, ev_before_data = None,
      ev_after_data = Some data, ev_timestamp = now\<rparr>"

subsection \<open>Who receives an event\<close>

text \<open>The users whose documents these are, for the collections the dispatcher treats as private.\<close>

definition owners_of :: "string \<Rightarrow> json \<Rightarrow> string option list option" where
  "owners_of coll data =
     (if coll \<in> {''orders'', ''return_requests'', ''chat_messages'', ''chat_threads''}
        then Some [jget_str ''buyerId'' data, jget_str ''sellerId'' data]
      else if coll \<in> {''cart'', ''notifications'', ''subscriptions''} then Some [jget_str ''userId'' data]
      else if coll \<in> {''seller_profiles'', ''warehouses''}
        then Some [or_else (jget_str ''sellerId'' data) (jget_str ''parent_id'' data)]
      else None)"

definition may_receive :: "ChangeEvent \<Rightarrow> Subscription \<Rightarrow> bool" where
  "may_receive ev sub =
     (case (owners_of (ev_collection ev) (ev_data ev), sub_user_id sub) of
        (Some owners, Some uid) \<Rightarrow> Some uid \<in> set owners
      | _ \<Rightarrow> True)"

definition room :: "channel \<Rightarrow> nat" where
  "room c = (if closed_ch c then 0 else capacity c - length (buf c))"

definition message_for :: "ChangeEvent \<Rightarrow> Subscription \<Rightarrow> RealtimeMessage" where
  "message_for ev sub = \<lparr>subscription_id = sub_id sub, event = ev\<rparr>"

lemma filter_by_ownership_owners:
  "filter_by_ownership coll data subs =
     (case owners_of coll data of Some owners \<Rightarrow> retain_users owners subs | None \<Rightarrow> subs)"
  by (simp add: filter_by_ownership_def owners_of_def)

lemma filter_by_ownership_may_receive:
  "filter_by_ownership (ev_collection ev) (ev_data ev) subs = filter (may_receive ev) subs"
proof -
  have "may_receive ev = (\<lambda>sub. case owners_of (ev_collection ev) (ev_data ev) of
      Some owners \<Rightarrow> (case sub_user_id sub of None \<Rightarrow> True | Some uid \<Rightarrow> Some uid \<in> set owners)
    | None \<Rightarrow> True)"
    by (simp add: may_receive_def fun_eq_iff split: option.split)
  then show ?thesis by (simp add: filter_by_ownership_owners retain_users_def split: option.split)
qed

lemma try_send_frame: "capacity (try_send c m chans ch) = capacity (chans ch) \<and>
    closed_ch (try_send c m chans ch) = closed_ch (chans ch)"
  by (simp add: try_send_def)

lemma buf_try_send:
  "buf (try_send c m chans ch) = buf (chans ch) @ (if c = ch then take (room (chans ch)) [m] else [])"
  by (auto simp: try_send_def room_def)

lemma room_try_send: "room (try_send c m chans ch) = (if c = ch then room (chans ch) - 1 else room (chans ch))"
  by (auto simp: try_send_def room_def)

lemma buf_send_all:
  "buf (fold (\<lambda>sub. try_send (sender sub) (message_for ev sub)) subs chans ch) =
     buf (chans ch) @ take (room (chans ch)) (map (message_for ev) (filter (\<lambda>sub. sender sub = ch) subs))"
proof (induction subs arbitrary: chans)
  case (Cons sub subs)
  show ?case
    by (cases "sender sub = ch"; cases "room (chans ch)") (simp_all add: Cons buf_try_send room_try_send)
qed simp

lemma buf_dispatch:
  "buf (dispatch_event reg ev chans ch) =
     buf (chans ch) @ take (room (chans ch)) (map (message_for ev)
       (filter (\<lambda>sub. may_receive ev sub \<and> sender sub = ch) (find_all_for_collection (ev_collection ev) reg)))"
proof -
  have "dispatch_event reg ev chans =
      fold (\<lambda>sub. try_send (sender sub) (message_for ev sub))
        (filter (may_receive ev) (find_all_for_collection (ev_collection ev) reg)) chans"
    by (auto simp: dispatch_event_def Let_def filter_by_ownership_may_receive message_for_def)
  then show ?thesis by (simp add: buf_send_all conj_commute)
qed

text \<open>
  Dispatching an event appends to each channel, in order and as far as its capacity allows,
  exactly one message per subscription that is for the event's collection, sends to that channel
  and may receive the event: for the private collections that is a subscription of one of the
  document's owners or one without a user. Nothing else is delivered and nothing is reordered.
\<close>

theorem dispatch_delivers_exactly:
  "buf (dispatch_event reg ev chans ch) =
     buf (chans ch) @ take (room (chans ch)) (map (message_for ev)
       (filter (\<lambda>sub. may_receive ev sub \<and> sender sub = ch) (find_all_for_collection (ev_collection ev) reg)))"
  by (rule buf_dispatch)

lemma dispatched_if_room:
  assumes "sub \<in> set (find_all_for_collection (ev_collection ev) reg)" "may_receive ev sub"
    and "length (subscriptions reg) \<le> room (chans (sender sub))"
  shows "message_for ev sub \<in> set (buf (dispatch_event reg ev chans (sender sub)))"
proof -
  let ?subs = "filter (\<lambda>x. may_receive ev x \<and> sender x = sender sub) (find_all_for_collection (ev_collection ev) reg)"
  have "length ?subs \<le> length (subscriptions reg)"
    by (metis (no_types, lifting) find_all_for_collection_def length_filter_le length_map order_trans)
  then have "take (room (chans (sender sub))) (map (message_for ev) ?subs) = map (message_for ev) ?subs"
    using assms(3) by simp
  moreover have "sub \<in> set ?subs" using assms by simp
  ultimately show ?thesis unfolding buf_dispatch by auto
qed

text \<open>
  A subscription to one document is notified of changes to every other document of the
  collection: the dispatcher looks subscribers up by collection only, so the document id of the
  subscription is never compared with that of the event.
\<close>

theorem document_subscription_receives_others:
  assumes "sub \<in> set (find_all_for_collection (ev_collection ev) reg)" and "may_receive ev sub"
    and "document_id sub = Some d" and "ev_document_id ev \<noteq> d"
    and "length (subscriptions reg) \<le> room (chans (sender sub))"
  shows "message_for ev sub \<in> set (buf (dispatch_event reg ev chans (sender sub)))"
  using assms(1,2,5) by (rule dispatched_if_room)

theorem document_subscription_receives_others_witness:
  "\<exists>sub. document_id sub = Some ''p1'' \<and>
    message_for (emit_change Update ''products'' ''p2'' JNull ''t'') sub \<in>
      set (buf (dispatch_event (subscribe ''c1'' sub registry_new) (emit_change Update ''products'' ''p2'' JNull ''t'')
        (\<lambda>_. \<lparr>buf = [], capacity = 256, closed_ch = False\<rparr>) (sender sub)))"
proof -
  let ?sub = "(sample_sub ''s1'' ''products'')\<lparr>document_id := Some ''p1''\<rparr>"
  have "message_for (emit_change Update ''products'' ''p2'' JNull ''t'') ?sub \<in>
      set (buf (dispatch_event (subscribe ''c1'' ?sub registry_new) (emit_change Update ''products'' ''p2'' JNull ''t'')
        (\<lambda>_. \<lparr>buf = [], capacity = 256, closed_ch = False\<rparr>) (sender ?sub)))"
    by (rule document_subscription_receives_others [where d = "''p1''"
          and chans = "\<lambda>_. \<lparr>buf = [], capacity = 256, closed_ch = False\<rparr>"])
      (simp_all add: find_all_for_collection_def subscribe_def registry_new_def emit_change_def sample_sub_def
        may_receive_def owners_of_def room_def)
  then show ?thesis by (intro exI [of _ ?sub]) simp
qed

end
