(* ===== verification/Realtime_Websocket.thy ===== *)
theory Realtime_Websocket
  imports Realtime_Dispatcher
begin

text \<open>
  WebSocket sessions (\<open>crates/ob-realtime/src/websocket.rs\<close>): token extraction and the upgrade
  decision, the handling of each client message, opening and closing a connection, and the two
  presence endpoints. Token verification (\<open>verify_token\<close>), the JSON decoding of a client message
  (\<open>from_str\<close>) and float printing are parameters. The last part interleaves any number of
  sessions and connects the registry with the dispatcher.
\<close>

definition MAX_SUBS_PER_CONNECTION :: nat where
  "MAX_SUBS_PER_CONNECTION = 100"

definition ALLOWED_COLLECTIONS :: "string list" where
  "ALLOWED_COLLECTIONS =
     [''products'', ''orders'', ''cart'', ''users__cart'', ''favorites'', ''notifications'',
      ''users__notifications'', ''chats'', ''chats__messages'', ''chat_messages'', ''chat_threads'',
      ''product_questions'', ''users'', ''reviews'', ''seller_profiles'', ''warehouses'',
      ''return_requests'', ''subscriptions'']"

definition MAX_WS_MESSAGE_SIZE :: nat where
  "MAX_WS_MESSAGE_SIZE = 65536"

definition MAX_CONNECTIONS_PER_USER :: nat where
  "MAX_CONNECTIONS_PER_USER = 5"

record RealtimeState =
  registry :: SubscriptionRegistry
  connection_counts :: "(string \<times> nat) list"

datatype ClientMessage =
    Subscribe string string nat "string option"
  | Unsubscribe string
  | Presence json
  | Ping

datatype ServerMessage =
    Subscribed string
  | Unsubscribed string
  | Change string ChangeEvent
  | PresenceUpdate "PresenceInfo list"
  | Pong
  | Error string

record ws_claims =
  claims_sub :: string
  claims_typ :: string

record connection =
  conn_id :: string
  conn_user :: string
  conn_chan :: nat

subsection \<open>Authentication of the upgrade\<close>

definition extract_ws_token :: "string option \<Rightarrow> string option \<Rightarrow> string option" where
  "extract_ws_token query_token auth_header =
     (case query_token of
        Some (c # cs) \<Rightarrow> Some (c # cs)
      | _ \<Rightarrow> (case auth_header of Some h \<Rightarrow> strip_prefix ''Bearer '' h | None \<Rightarrow> None))"

definition missing_token :: string where
  "missing_token = ''Missing authentication token. Provide ?token=<jwt> or Authorization header.''"

text \<open>The shared first half of the three handlers: a 401 response or the verified claims.\<close>

definition ws_authenticate ::
  "(string \<Rightarrow> string + ws_claims) \<Rightarrow> string option \<Rightarrow> string option \<Rightarrow> (nat \<times> string) + ws_claims" where
  "ws_authenticate verify_token query_token auth_header =
     (case extract_ws_token query_token auth_header of
        None \<Rightarrow> Inl (401, missing_token)
      | Some token \<Rightarrow>
          (case verify_token token of
             Inr claims \<Rightarrow>
               if claims_typ claims = ''access'' then Inr claims else Inl (401, ''Invalid token type'')
           | Inl _ \<Rightarrow> Inl (401, ''Invalid or expired token'')))"

definition presence_to_json :: "PresenceInfo \<Rightarrow> json" where
  "presence_to_json p = json_obj [
     (''user_id'', JString (pr_user_id p)), (''connection_id'', JString (pr_connection_id p)),
     (''status'', JString (pr_status p)), (''last_seen'', JString (last_seen p)), (''metadata'', metadata p)]"

definition presence_handler ::
  "(string \<Rightarrow> string + ws_claims) \<Rightarrow> string option \<Rightarrow> string option \<Rightarrow> RealtimeState \<Rightarrow> (nat \<times> string) + json" where
  "presence_handler verify_token query_token auth_header st =
     rbind (ws_authenticate verify_token query_token auth_header) (\<lambda>_.
       Inr (json_obj [(''online'', JArray (map presence_to_json (get_online_users (registry st)))),
                      (''count'', json_int (int (online_count (registry st))))]))"

definition presence_user_handler ::
  "(string \<Rightarrow> string + ws_claims) \<Rightarrow> string option \<Rightarrow> string option \<Rightarrow> string \<Rightarrow> RealtimeState \<Rightarrow> (nat \<times> string) + json" where
  "presence_user_handler verify_token query_token auth_header uid st =
     rbind (ws_authenticate verify_token query_token auth_header) (\<lambda>_.
       let info = get_presence uid (registry st)
       in Inr (json_obj [(''user_id'', JString uid), (''online'', JBool (info \<noteq> None)),
                         (''presence'', (case info of Some p \<Rightarrow> presence_to_json p | None \<Rightarrow> JNull))]))"

subsection \<open>A session\<close>

text \<open>The per-user limit checked when a connection opens; \<open>None\<close> is the refusal.\<close>

definition open_socket :: "string \<Rightarrow> RealtimeState \<Rightarrow> RealtimeState option" where
  "open_socket uid st =
     (let n = (case map_of (connection_counts st) uid of Some n \<Rightarrow> n | None \<Rightarrow> 0)
      in if MAX_CONNECTIONS_PER_USER \<le> n then None
         else Some (st\<lparr>connection_counts := hm_insert uid (n + 1) (connection_counts st)\<rparr>))"

definition handle_subscribe ::
  "connection \<Rightarrow> string \<Rightarrow> string \<Rightarrow> nat \<Rightarrow> string option \<Rightarrow> RealtimeState \<Rightarrow> ServerMessage \<times> RealtimeState" where
  "handle_subscribe conn i coll hash doc st =
     (if coll \<notin> set ALLOWED_COLLECTIONS then
        (Error (''Subscription to '' @ [CHR 0x27] @ coll @ [CHR 0x27] @ '' is not allowed''), st)
      else if MAX_SUBS_PER_CONNECTION \<le> connection_subscription_count (conn_id conn) (registry st) then
        (Error (''Max subscriptions ('' @ nat_to_string MAX_SUBS_PER_CONNECTION @ '') reached''), st)
      else
        (Subscribed i,
         st\<lparr>registry := subscribe (conn_id conn)
           \<lparr>sub_id = i, sub_collection = coll, filter_hash = hash, document_id = doc,
            sub_user_id = Some (conn_user conn), sender = conn_chan conn\<rparr> (registry st)\<rparr>))"

definition handle_message ::
  "(rat \<Rightarrow> string) \<Rightarrow> connection \<Rightarrow> string \<Rightarrow> ClientMessage \<Rightarrow> RealtimeState \<Rightarrow> ServerMessage \<times> RealtimeState" where
  "handle_message fmt_float conn now msg st =
     (case msg of
        Subscribe i coll hash doc \<Rightarrow> handle_subscribe conn i coll hash doc st
      | Unsubscribe i \<Rightarrow> (Unsubscribed i, st\<lparr>registry := unsubscribe i (registry st)\<rparr>)
      | Presence md \<Rightarrow>
          if 4096 < length (json_to_string fmt_float md) then
            (Error ''Presence metadata too large (max 4KB)'', st)
          else
            (let st' = st\<lparr>registry := set_presence (conn_user conn) (conn_id conn) md now (registry st)\<rparr>
             in (PresenceUpdate (get_online_users (registry st')), st'))
      | Ping \<Rightarrow> (Pong, st\<lparr>registry := heartbeat (conn_id conn) now (registry st)\<rparr>))"

definition handle_text ::
  "(rat \<Rightarrow> string) \<Rightarrow> (string \<Rightarrow> string + ClientMessage) \<Rightarrow> connection \<Rightarrow> string \<Rightarrow> string \<Rightarrow> RealtimeState
     \<Rightarrow> ServerMessage \<times> RealtimeState" where
  "handle_text fmt_float from_str conn now txt st =
     (if MAX_WS_MESSAGE_SIZE < length txt then (Error ''Message too large'', st)
      else (case from_str txt of
          Inl e \<Rightarrow> (Error e, st)
        | Inr msg \<Rightarrow> handle_message fmt_float conn now msg st))"

text \<open>
  The end of a session: presence and subscriptions go, then the counter of the user is decremented; when it
  reaches zero the guard on the entry is dropped and the entry is removed by a second operation.
\<close>

definition count_down :: "string \<Rightarrow> RealtimeState \<Rightarrow> RealtimeState \<times> bool" where
  "count_down uid st =
     (case map_of (connection_counts st) uid of
        None \<Rightarrow> (st, False)
      | Some n \<Rightarrow> (st\<lparr>connection_counts := hm_insert uid (n - 1) (connection_counts st)\<rparr>, n - 1 = 0))"

definition drop_count :: "string \<Rightarrow> RealtimeState \<Rightarrow> RealtimeState" where
  "drop_count uid st = st\<lparr>connection_counts := hm_remove uid (connection_counts st)\<rparr>"

definition close_socket :: "connection \<Rightarrow> RealtimeState \<Rightarrow> RealtimeState" where
  "close_socket conn st =
     (let st' = st\<lparr>registry := disconnect (conn_id conn) (remove_presence (conn_id conn) (registry st))\<rparr>;
          (st'', zero) = count_down (conn_user conn) st'
      in if zero then drop_count (conn_user conn) st'' else st'')"

text \<open>One session on its own: the frames it receives, each with the clock reading at its arrival, up
  to a close frame or the end of the stream.\<close>

datatype ws_frame = Text string | Close | OtherFrame

fun receive_loop ::
  "(rat \<Rightarrow> string) \<Rightarrow> (string \<Rightarrow> string + ClientMessage) \<Rightarrow> connection \<Rightarrow> (string \<times> ws_frame) list \<Rightarrow> RealtimeState
     \<Rightarrow> ServerMessage list \<times> RealtimeState" where
  "receive_loop ff from_str conn [] st = ([], st)"
| "receive_loop ff from_str conn ((now, Text t) # frames) st =
     (let (out, st') = handle_text ff from_str conn now t st;
          (outs, st'') = receive_loop ff from_str conn frames st'
      in (out # outs, st''))"
| "receive_loop ff from_str conn ((now, Close) # frames) st = ([], st)"
| "receive_loop ff from_str conn ((now, OtherFrame) # frames) st = receive_loop ff from_str conn frames st"

definition handle_socket ::
  "(rat \<Rightarrow> string) \<Rightarrow> (string \<Rightarrow> string + ClientMessage) \<Rightarrow> connection \<Rightarrow> (string \<times> ws_frame) list \<Rightarrow> RealtimeState
     \<Rightarrow> ServerMessage list \<times> RealtimeState" where
  "handle_socket ff from_str conn frames st =
     (case open_socket (conn_user conn) st of
        None \<Rightarrow> ([], st)
      | Some st' \<Rightarrow> apsnd (close_socket conn) (receive_loop ff from_str conn frames st'))"

subsection \<open>Many sessions\<close>

text \<open>
  The server state, the live connections and the sessions that are ending. Connection ids are fresh uuids. Every
  operation on the shared maps is a step of its own, so that sessions of one user may open while others end.
\<close>

datatype ending = Counting connection | Dropping string

type_synonym ws_config = "RealtimeState \<times> connection list \<times> ending list"

inductive ws_step :: "(rat \<Rightarrow> string) \<Rightarrow> (string \<Rightarrow> string + ClientMessage) \<Rightarrow> ws_config \<Rightarrow> ws_config \<Rightarrow> bool"
  for ff and from_str where
  ws_open: "conn_id conn \<notin> conn_id ` set live \<Longrightarrow> map_of (connections (registry st)) (conn_id conn) = None \<Longrightarrow>
    open_socket (conn_user conn) st = Some st' \<Longrightarrow> ws_step ff from_str (st, live, es) (st', conn # live, es)"
| ws_refuse: "open_socket uid st = None \<Longrightarrow> ws_step ff from_str (st, live, es) (st, live, es)"
| ws_text: "conn \<in> set live \<Longrightarrow> handle_text ff from_str conn now txt st = (out, st') \<Longrightarrow>
    ws_step ff from_str (st, live, es) (st', live, es)"
| ws_absent: "conn \<in> set live \<Longrightarrow>
    ws_step ff from_str (st, live, es) (st\<lparr>registry := remove_presence (conn_id conn) (registry st)\<rparr>, live, es)"
| ws_leave: "conn \<in> set live \<Longrightarrow>
    ws_step ff from_str (st, live, es) (st\<lparr>registry := disconnect (conn_id conn) (registry st)\<rparr>, remove1 conn live, Counting conn # es)"
| ws_count: "Counting conn \<in> set es \<Longrightarrow> count_down (conn_user conn) st = (st', zero) \<Longrightarrow>
    ws_step ff from_str (st, live, es)
      (st', live, (if zero then [Dropping (conn_user conn)] else []) @ remove1 (Counting conn) es)"
| ws_drop: "Dropping uid \<in> set es \<Longrightarrow> ws_step ff from_str (st, live, es) (drop_count uid st, live, remove1 (Dropping uid) es)"

definition initial_state :: ws_config where
  "initial_state = (\<lparr>registry = registry_new, connection_counts = []\<rparr>, [], [])"

definition user_connections :: "string \<Rightarrow> connection list \<Rightarrow> nat" where
  "user_connections uid live = length (filter (\<lambda>c. conn_user c = uid) live)"

fun is_counting :: "string \<Rightarrow> ending \<Rightarrow> bool" where
  "is_counting uid (Counting c) = (conn_user c = uid)"
| "is_counting uid (Dropping u) = False"

text \<open>The connections of a user that are open or whose end has not been counted yet.\<close>

definition uncounted :: "string \<Rightarrow> connection list \<Rightarrow> ending list \<Rightarrow> nat" where
  "uncounted uid live es = user_connections uid live + length (filter (is_counting uid) es)"

definition counter :: "string \<Rightarrow> RealtimeState \<Rightarrow> nat" where
  "counter uid st = (case map_of (connection_counts st) uid of Some n \<Rightarrow> n | None \<Rightarrow> 0)"

text \<open>A run is calm when nobody connects while the removal of the user's counter is under way.\<close>

definition calm_step :: "(rat \<Rightarrow> string) \<Rightarrow> (string \<Rightarrow> string + ClientMessage) \<Rightarrow> ws_config \<Rightarrow> ws_config \<Rightarrow> bool" where
  "calm_step ff from_str c c' \<longleftrightarrow> ws_step ff from_str c c' \<and>
     (case c of (_, live, es) \<Rightarrow> case c' of (_, live', _) \<Rightarrow> \<forall>conn. live' = conn # live \<longrightarrow> Dropping (conn_user conn) \<notin> set es)"

definition counts_below :: "ws_config \<Rightarrow> bool" where
  "counts_below c = (case c of (st, live, es) \<Rightarrow> \<forall>uid. counter uid st \<le> uncounted uid live es)"

definition counts_exact :: "ws_config \<Rightarrow> bool" where
  "counts_exact c = (case c of (st, live, es) \<Rightarrow> \<forall>uid. counter uid st = uncounted uid live es \<and>
     uncounted uid live es \<le> MAX_CONNECTIONS_PER_USER \<and> (Dropping uid \<in> set es \<longrightarrow> uncounted uid live es = 0))"

definition no_orphans :: "RealtimeState \<times> connection list \<Rightarrow> bool" where
  "no_orphans c = (case c of (st, live) \<Rightarrow> distinct (map conn_id live) \<and> (\<forall>i s.
     active_subs (registry st) i = Some s \<longrightarrow>
       (\<exists>conn \<in> set live. i \<in> ids_of (conn_id conn) (registry st) \<and>
          sub_user_id s = Some (conn_user conn) \<and> sender s = conn_chan conn)))"

lemma ids_of_unsubscribe [simp]: "ids_of c (unsubscribe i reg) = ids_of c reg"
  by (simp add: ids_of_def)

lemma ids_of_frame [simp]:
  "ids_of c (reg\<lparr>presence := ps\<rparr>) = ids_of c reg"
  by (simp add: ids_of_def)

lemmas presence_ops = set_presence_def remove_presence_def heartbeat_def

text \<open>A message of a session changes the subscriptions in one of three ways.\<close>

lemma handle_message_cases:
  assumes "handle_message ff conn now msg st = (out, st')"
  obtains (same) "subscriptions (registry st') = subscriptions (registry st)"
      "\<And>c. ids_of c (registry st') = ids_of c (registry st)" "connection_counts st' = connection_counts st"
  | (sub) s where "registry st' = subscribe (conn_id conn) s (registry st)"
      "sub_user_id s = Some (conn_user conn)" "sender s = conn_chan conn" "sub_collection s \<in> set ALLOWED_COLLECTIONS"
      "connection_counts st' = connection_counts st"
  | (unsub) i where "registry st' = unsubscribe i (registry st)" "connection_counts st' = connection_counts st"
proof (cases msg)
  case (Subscribe i coll hash doc)
  show thesis
  proof (cases "st' = st")
    case False
    then have "coll \<in> set ALLOWED_COLLECTIONS"
      "st' = st\<lparr>registry := subscribe (conn_id conn)
           \<lparr>sub_id = i, sub_collection = coll, filter_hash = hash, document_id = doc,
            sub_user_id = Some (conn_user conn), sender = conn_chan conn\<rparr> (registry st)\<rparr>"
      using assms Subscribe by (auto simp: handle_message_def handle_subscribe_def split: if_splits)
    then show thesis by (intro sub) auto
  qed (rule same, simp_all)
next
  case (Unsubscribe i)
  then show thesis using assms by (intro unsub [of i]) (auto simp: handle_message_def)
next
  case (Presence md)
  then show thesis
    using assms by (intro same) (auto simp: handle_message_def Let_def presence_ops split: if_splits)
next
  case Ping
  then show thesis using assms by (intro same) (auto simp: handle_message_def presence_ops)
qed

lemma handle_text_cases:
  assumes "handle_text ff from_str conn now txt st = (out, st')"
  shows "st' = st \<or> (\<exists>msg. handle_message ff conn now msg st = (out, st'))"
  using assms by (auto simp: handle_text_def split: if_splits sum.splits)

lemma no_orphansI:
  assumes "distinct (map conn_id live)"
    and "\<And>i s. active_subs (registry st) i = Some s \<Longrightarrow>
      \<exists>conn \<in> set live. i \<in> ids_of (conn_id conn) (registry st) \<and>
        sub_user_id s = Some (conn_user conn) \<and> sender s = conn_chan conn"
  shows "no_orphans (st, live)"
  using assms by (simp add: no_orphans_def)

lemma no_orphansD:
  assumes "no_orphans (st, live)"
  shows "distinct (map conn_id live)"
    and "active_subs (registry st) i = Some s \<Longrightarrow>
      \<exists>conn \<in> set live. i \<in> ids_of (conn_id conn) (registry st) \<and>
        sub_user_id s = Some (conn_user conn) \<and> sender s = conn_chan conn"
  using assms by (simp_all add: no_orphans_def)

lemma no_orphans_text:
  assumes inv: "no_orphans (st, live)" and conn: "conn \<in> set live"
    and "handle_text ff from_str conn now txt st = (out, st')"
  shows "no_orphans (st', live)"
proof (cases "st' = st")
  case False
  then obtain msg where "handle_message ff conn now msg st = (out, st')"
    using handle_text_cases [OF assms(3)] by blast
  then show ?thesis
  proof (cases rule: handle_message_cases)
    case same
    then have "active_subs (registry st') = active_subs (registry st)" by (simp add: active_subs_def)
    with no_orphansD [OF inv] same(2) show ?thesis by (intro no_orphansI) simp_all
  next
    case (sub s)
    show ?thesis
    proof (rule no_orphansI)
      fix i s' assume a: "active_subs (registry st') i = Some s'"
      show "\<exists>conn \<in> set live. i \<in> ids_of (conn_id conn) (registry st') \<and>
        sub_user_id s' = Some (conn_user conn) \<and> sender s' = conn_chan conn"
      proof (cases "i = sub_id s")
        case True
        then show ?thesis using a sub conn by (intro bexI [of _ conn]) (auto simp: ids_of_subscribe)
      next
        case i: False
        then have "active_subs (registry st) i = Some s'" using a sub by simp
        from no_orphansD(2) [OF inv this] show ?thesis using sub(1) by (fastforce simp: ids_of_subscribe)
      qed
    qed (rule no_orphansD(1) [OF inv])
  next
    case (unsub i)
    show ?thesis
      by (rule no_orphansI) (use no_orphansD [OF inv] unsub in \<open>auto split: if_splits\<close>)
  qed
qed (use inv in simp)

lemma no_orphans_leave:
  assumes inv: "no_orphans (st, live)" and conn: "conn \<in> set live"
  shows "no_orphans (st\<lparr>registry := disconnect (conn_id conn) (registry st)\<rparr>, remove1 conn live)"
proof (rule no_orphansI)
  show "distinct (map conn_id (remove1 conn live))"
    using no_orphansD(1) [OF inv] by (simp add: distinct_map distinct_remove1 inj_on_def)
next
  let ?st = "st\<lparr>registry := disconnect (conn_id conn) (registry st)\<rparr>"
  fix i s assume "active_subs (registry ?st) i = Some s"
  then have a: "active_subs (registry st) i = Some s" "i \<notin> ids_of (conn_id conn) (registry st)"
    by (auto simp: disconnect_active split: if_splits)
  then obtain c where c: "c \<in> set live" "i \<in> ids_of (conn_id c) (registry st)"
    "sub_user_id s = Some (conn_user c)" "sender s = conn_chan c"
    using no_orphansD(2) [OF inv] by blast
  then have ne: "conn_id c \<noteq> conn_id conn" using a(2) by auto
  then have "ids_of (conn_id c) (registry ?st) = ids_of (conn_id c) (registry st)" by (simp add: ids_of_disconnect)
  moreover have "c \<in> set (remove1 conn live)" using c(1) ne by (metis in_set_remove1)
  ultimately show "\<exists>c \<in> set (remove1 conn live). i \<in> ids_of (conn_id c) (registry ?st) \<and>
      sub_user_id s = Some (conn_user c) \<and> sender s = conn_chan c"
    using c by auto
qed

lemma no_orphans_registry:
  assumes "no_orphans (st, live)" "active_subs (registry st') = active_subs (registry st)"
    and "\<And>c. ids_of c (registry st') = ids_of c (registry st)"
  shows "no_orphans (st', live)"
  using assms by (simp add: no_orphans_def)

lemma count_registry:
  "open_socket uid st = Some st' \<Longrightarrow> registry st' = registry st" "count_down uid st = (st', zero) \<Longrightarrow> registry st' = registry st"
  "registry (drop_count uid st) = registry st"
  by (auto simp: open_socket_def count_down_def drop_count_def Let_def split: if_splits option.splits)

definition untied :: "ws_config \<Rightarrow> RealtimeState \<times> connection list" where
  "untied c = (case c of (st, live, es) \<Rightarrow> (st, live))"

lemma ws_step_no_orphans: "ws_step ff from_str c c' \<Longrightarrow> no_orphans (untied c) \<Longrightarrow> no_orphans (untied c')"
proof (induction rule: ws_step.induct)
  case (ws_open conn live st st' es)
  then show ?case using count_registry(1) [OF ws_open.hyps(3)] by (auto simp: no_orphans_def untied_def)
next
  case (ws_text conn live now frame st out st' es)
  then show ?case by (auto simp: untied_def intro: no_orphans_text)
next
  case (ws_absent conn live st es)
  then show ?case by (auto simp: untied_def presence_ops intro: no_orphans_registry)
next
  case (ws_leave conn live st es)
  then show ?case by (simp add: untied_def no_orphans_leave)
next
  case (ws_count conn es st st' zero live)
  then show ?case using count_registry(2) [OF ws_count.hyps(2)] by (auto simp: untied_def intro: no_orphans_registry)
next
  case (ws_drop uid es st live)
  then show ?case by (auto simp: untied_def count_registry(3) intro: no_orphans_registry)
qed (auto simp: untied_def)

text \<open>The counters.\<close>

lemma uncounted_open: "uncounted uid (conn # live) es = (if uid = conn_user conn then Suc (uncounted uid live es) else uncounted uid live es)"
  by (simp add: uncounted_def user_connections_def)

lemma length_filter_remove1:
  "x \<in> set xs \<Longrightarrow> length (filter P xs) = (if P x then Suc (length (filter P (remove1 x xs))) else length (filter P (remove1 x xs)))"
  by (induction xs) auto

lemma uncounted_leave: "conn \<in> set live \<Longrightarrow> uncounted uid (remove1 conn live) (Counting conn # es) = uncounted uid live es"
  using length_filter_remove1 [of conn live "\<lambda>c. conn_user c = uid"] by (simp add: uncounted_def user_connections_def)

lemma uncounted_count:
  "Counting conn \<in> set es \<Longrightarrow> uncounted uid live es =
     (if uid = conn_user conn then Suc (uncounted uid live (remove1 (Counting conn) es)) else uncounted uid live (remove1 (Counting conn) es))"
  using length_filter_remove1 [of "Counting conn" es "is_counting uid"] by (auto simp: uncounted_def)

lemma uncounted_drop:
  "uncounted uid live (remove1 (Dropping u) es) = uncounted uid live es" "uncounted uid live (Dropping u # es) = uncounted uid live es"
proof -
  show "uncounted uid live (remove1 (Dropping u) es) = uncounted uid live es"
    using length_filter_remove1 [of "Dropping u" es "is_counting uid"]
    by (cases "Dropping u \<in> set es") (simp_all add: uncounted_def remove1_idem)
qed (simp add: uncounted_def)

lemma counter_steps:
  "open_socket u st = Some st' \<Longrightarrow> counter uid st' = (if uid = u then Suc (counter uid st) else counter uid st) \<and> counter u st < MAX_CONNECTIONS_PER_USER"
  "count_down u st = (st', zero) \<Longrightarrow> counter uid st' = (if uid = u then counter uid st - 1 else counter uid st) \<and> (zero \<longrightarrow> counter u st \<le> 1)"
  "counter uid (drop_count u st) = (if uid = u then 0 else counter uid st)"
  by (auto simp: counter_def open_socket_def count_down_def drop_count_def Let_def split: if_splits option.splits)

lemma counter_text:
  assumes "handle_text ff from_str conn now txt st = (out, st')"
  shows "counter uid st' = counter uid st"
proof (cases "st' = st")
  case False
  then obtain msg where "handle_message ff conn now msg st = (out, st')"
    using handle_text_cases [OF assms] by blast
  then show ?thesis by (cases rule: handle_message_cases) (auto simp: counter_def)
qed simp

lemma counter_frame [simp]: "counter uid (st\<lparr>registry := r\<rparr>) = counter uid st"
  by (simp add: counter_def)

lemma ws_step_counts_below: "ws_step ff from_str c c' \<Longrightarrow> counts_below c \<Longrightarrow> counts_below c'"
proof (induction rule: ws_step.induct)
  case (ws_open conn live st st' es)
  then show ?case using counter_steps(1) [OF ws_open.hyps(3)] by (auto simp: counts_below_def uncounted_open)
next
  case (ws_text conn live now frame st out st' es)
  then show ?case using counter_text [OF ws_text.hyps(2)] by (simp add: counts_below_def)
next
  case (ws_leave conn live st es)
  then show ?case by (simp add: counts_below_def uncounted_leave)
next
  case (ws_count conn es st st' zero live)
  have "counter uid st' \<le> uncounted uid live (remove1 (Counting conn) es)" for uid
    using ws_count.prems counter_steps(2) [OF ws_count.hyps(2), of uid] uncounted_count [OF ws_count.hyps(1), of uid live]
    by (auto simp: counts_below_def dest!: spec [of _ uid] split: if_splits)
  then show ?case by (simp add: counts_below_def uncounted_drop)
next
  case (ws_drop uid es st live)
  then show ?case by (auto simp: counts_below_def counter_steps(3) uncounted_drop)
qed (simp_all add: counts_below_def)

lemma counts_exactI:
  assumes "\<And>uid. counter uid st = uncounted uid live es" "\<And>uid. uncounted uid live es \<le> MAX_CONNECTIONS_PER_USER"
    and "\<And>uid. Dropping uid \<in> set es \<Longrightarrow> uncounted uid live es = 0"
  shows "counts_exact (st, live, es)"
  using assms by (simp add: counts_exact_def)

lemma counts_exactD:
  assumes "counts_exact (st, live, es)"
  shows "counter uid st = uncounted uid live es" "uncounted uid live es \<le> MAX_CONNECTIONS_PER_USER"
    "Dropping uid \<in> set es \<Longrightarrow> uncounted uid live es = 0"
  using assms by (simp_all add: counts_exact_def)

lemma exact_count:
  assumes inv: "counts_exact (st, live, es)" and c: "Counting conn \<in> set es" and down: "count_down (conn_user conn) st = (st', zero)"
  shows "counts_exact (st', live, (if zero then [Dropping (conn_user conn)] else []) @ remove1 (Counting conn) es)"
proof -
  note d = counts_exactD [OF inv]
  have c': "counter uid st' = uncounted uid live (remove1 (Counting conn) es)"
    "uncounted uid live (remove1 (Counting conn) es) \<le> uncounted uid live es" for uid
    using d(1) [of uid] counter_steps(2) [OF down, of uid] uncounted_count [OF c, of uid live] by (auto split: if_splits)
  have zero: "uncounted (conn_user conn) live (remove1 (Counting conn) es) = 0" if zero
    using that d(1) [of "conn_user conn"] counter_steps(2) [OF down, of "conn_user conn"] uncounted_count [OF c, of "conn_user conn" live] by simp
  have old: "uncounted uid live (remove1 (Counting conn) es) = 0" if "Dropping uid \<in> set es" for uid
    using d(3) [OF that] c'(2) [of uid] by simp
  show ?thesis
    by (rule counts_exactI)
      (use c'(1) order_trans [OF c'(2) d(2)] zero old in \<open>auto simp: uncounted_drop split: if_splits dest: notin_set_remove1\<close>)
qed

lemma calm_step_counts_exact:
  assumes "calm_step ff from_str c c'" "counts_exact c"
  shows "counts_exact c'"
proof -
  from assms(1) have "ws_step ff from_str c c'" by (simp add: calm_step_def)
  then show ?thesis using assms
  proof (induction rule: ws_step.induct)
    case (ws_open conn live st st' es)
    note d = counts_exactD [OF ws_open.prems(2)]
    have no: "Dropping (conn_user conn) \<notin> set es" using ws_open.prems(1) by (simp add: calm_step_def)
    show ?case
      by (rule counts_exactI)
        (use d counter_steps(1) [OF ws_open.hyps(3)] no in \<open>auto simp: uncounted_open Suc_le_eq split: if_splits\<close>)
  next
    case (ws_text conn live now frame st out st' es)
    then show ?case using counter_text [OF ws_text.hyps(2)] by (simp add: counts_exact_def)
  next
    case (ws_leave conn live st es)
    then show ?case by (simp add: counts_exact_def uncounted_leave)
  next
    case (ws_count conn es st st' zero live)
    then show ?case by (intro exact_count) auto
  next
    case (ws_drop uid es st live)
    note d = counts_exactD [OF ws_drop.prems(2)]
    show ?case
      by (rule counts_exactI)
        (use d d(3) [OF ws_drop.hyps] in \<open>auto simp: uncounted_drop counter_steps(3) dest: notin_set_remove1\<close>)
  qed (simp_all add: counts_exact_def)
qed

lemma initial_counts: "counts_below initial_state" "counts_exact initial_state" "no_orphans (untied initial_state)"
  by (simp_all add: counts_below_def counts_exact_def no_orphans_def untied_def initial_state_def uncounted_def user_connections_def
      counter_def active_subs_def registry_new_def)

lemma reachable_ok:
  assumes "(ws_step ff from_str)\<^sup>*\<^sup>* initial_state c"
  shows "counts_below c \<and> no_orphans (untied c)"
  using assms by (induction rule: rtranclp_induct) (auto simp: initial_counts intro: ws_step_counts_below ws_step_no_orphans)

lemma calm_ok: "(calm_step ff from_str)\<^sup>*\<^sup>* initial_state c \<Longrightarrow> counts_exact c"
  by (induction rule: rtranclp_induct) (auto simp: initial_counts intro: calm_step_counts_exact)

lemma handle_text_keys:
  assumes "hm_ok (subscriptions (registry st))" "handle_text ff from_str conn now txt st = (out, st')"
  shows "hm_ok (subscriptions (registry st'))"
proof (cases "st' = st")
  case False
  then obtain msg where "handle_message ff conn now msg st = (out, st')"
    using handle_text_cases [OF assms(2)] by blast
  then show ?thesis
    using assms(1) by (cases rule: handle_message_cases) (simp_all add: subscribe_def hm_ok_unsubscribe)
qed (use assms in simp)

lemma registry_keys_ok:
  assumes "(ws_step ff from_str)\<^sup>*\<^sup>* initial_state (st, live, es)"
  shows "hm_ok (subscriptions (registry st))"
proof -
  have step: "hm_ok (subscriptions (registry (fst c')))"
    if "ws_step ff from_str c c'" "hm_ok (subscriptions (registry (fst c)))" for c c'
    using that
    by (induction rule: ws_step.induct)
      (auto simp: handle_text_keys hm_ok_disconnect presence_ops dest: count_registry(1,2) simp: count_registry(3))
  have "hm_ok (subscriptions (registry (fst c)))" if "(ws_step ff from_str)\<^sup>*\<^sup>* initial_state c" for c
    using that
    by (induction rule: rtranclp_induct) (simp_all add: initial_state_def registry_new_def step)
  from this [OF assms] show ?thesis by simp
qed

text \<open>
  C6. Whatever the sessions do and in whatever order, with every operation on the shared maps a step of its own, the connection
  counter of a user never exceeds the number of the user's connections that are open or whose end is not counted yet, so that nobody is
  refused too early, and every subscription in the registry belongs to a live connection, with that connection's
  user and channel. In runs in which no connection of a user opens while the removal of the user's counter is
  under way the counter is exact and at most five.
\<close>

theorem sessions_invariant:
  assumes "(ws_step ff from_str)\<^sup>*\<^sup>* initial_state (st, live, es)"
  shows "counter uid st \<le> uncounted uid live es \<and>
    ((calm_step ff from_str)\<^sup>*\<^sup>* initial_state (st, live, es) \<longrightarrow>
       counter uid st = uncounted uid live es \<and> uncounted uid live es \<le> 5) \<and>
    (\<forall>i s. active_subs (registry st) i = Some s \<longrightarrow>
       (\<exists>conn \<in> set live. sub_user_id s = Some (conn_user conn) \<and> sender s = conn_chan conn))"
proof -
  have "counter uid st \<le> uncounted uid live es" using reachable_ok [OF assms] by (simp add: counts_below_def)
  moreover have "counter uid st = uncounted uid live es \<and> uncounted uid live es \<le> 5"
    if "(calm_step ff from_str)\<^sup>*\<^sup>* initial_state (st, live, es)"
    using calm_ok [OF that] by (simp add: counts_exact_def MAX_CONNECTIONS_PER_USER_def)
  moreover have "\<exists>conn \<in> set live. sub_user_id s = Some (conn_user conn) \<and> sender s = conn_chan conn"
    if "active_subs (registry st) i = Some s" for i s
    using reachable_ok [OF assms] that by (fastforce simp: no_orphans_def untied_def)
  ultimately show ?thesis by blast
qed

definition sample_conn :: "string \<Rightarrow> string \<Rightarrow> nat \<Rightarrow> connection" where
  "sample_conn c u ch = \<lparr>conn_id = c, conn_user = u, conn_chan = ch\<rparr>"

definition counted_state :: "(string \<times> nat) list \<Rightarrow> RealtimeState" where
  "counted_state cs = \<lparr>registry = registry_new, connection_counts = cs\<rparr>"

definition sample_state :: ws_config where
  "sample_state = (counted_state [(''u1'', 1)], [sample_conn ''c1'' ''u1'' 1], [])"

lemma sample_open:
  assumes "c \<notin> conn_id ` set live" "n < 5" "cs = (if n = 0 then [] else [(''u1'', n)]) \<or> cs = [(''u1'', n)]"
  shows "ws_step ff from_str (counted_state cs, live, es) (counted_state [(''u1'', Suc n)], sample_conn c ''u1'' ch # live, es)"
  by (rule ws_open) (use assms in \<open>auto simp: counted_state_def registry_new_def open_socket_def MAX_CONNECTIONS_PER_USER_def sample_conn_def split: if_splits\<close>)

lemma initial_counted: "initial_state = (counted_state [], [], [])"
  by (simp add: initial_state_def counted_state_def)

lemma sample_state_reachable: "(ws_step ff from_str)\<^sup>*\<^sup>* initial_state sample_state"
  unfolding initial_counted sample_state_def by (rule r_into_rtranclp) (use sample_open [of "''c1''" "[]" 0] in simp)

theorem sessions_invariant_witness:
  "counter ''u1'' (fst sample_state) = uncounted ''u1'' [sample_conn ''c1'' ''u1'' 1] [] \<and> uncounted ''u1'' [sample_conn ''c1'' ''u1'' 1] [] \<le> 5"
proof -
  have "calm_step (\<lambda>_. []) Inl initial_state (fst sample_state, [sample_conn ''c1'' ''u1'' 1], [])"
    using sample_open [of "''c1''" "[]" 0 "[]" "\<lambda>_. []" Inl "[]" 1] by (simp add: calm_step_def initial_counted sample_state_def)
  then have "(calm_step (\<lambda>_. []) Inl)\<^sup>*\<^sup>* initial_state (fst sample_state, [sample_conn ''c1'' ''u1'' 1], [])" by (rule r_into_rtranclp)
  moreover have "(ws_step (\<lambda>_. []) Inl)\<^sup>*\<^sup>* initial_state (fst sample_state, [sample_conn ''c1'' ''u1'' 1], [])"
    using sample_state_reachable by (simp add: sample_state_def)
  ultimately show ?thesis using sessions_invariant [of "\<lambda>_. []" Inl "fst sample_state" _ _ "''u1''"] by blast
qed

text \<open>
  The removal of a counter and the opening of a connection race: a connection that opens after the counter
  was decremented to zero and before it is removed is forgotten, and the user gets a sixth connection.
\<close>

theorem closing_race_exceeds_limit:
  "\<exists>st live. (ws_step ff from_str)\<^sup>*\<^sup>* initial_state (st, live, []) \<and> user_connections ''u1'' live = 6"
proof -
  let ?c = "\<lambda>n. sample_conn (replicate n CHR ''c'') ''u1'' n" and ?u = "\<lambda>n. counted_state [(''u1'', n)]"
  have id: "conn_id (?c n) = replicate n CHR ''c''" "conn_user (?c n) = ''u1''" for n by (simp_all add: sample_conn_def)
  have "ws_step ff from_str (counted_state [], [], []) (?u 1, [?c 1], [])"
    using sample_open [of "replicate 1 CHR ''c''" "[]" 0] by simp
  moreover have "ws_step ff from_str (?u 1, [?c 1], []) (?u 1, [], [Counting (?c 1)])"
    using ws_leave [of "?c 1" "[?c 1]" ff from_str "?u 1" "[]"] by (simp add: counted_state_def disconnect_def registry_new_def)
  moreover have "ws_step ff from_str (?u 1, [], [Counting (?c 1)]) (?u 0, [], [Dropping ''u1''])"
    using ws_count [of "?c 1" "[Counting (?c 1)]" "?u 1" "?u 0" True ff from_str "[]"]
    by (simp add: count_down_def sample_conn_def counted_state_def)
  moreover have "ws_step ff from_str (?u 0, [], [Dropping ''u1'']) (?u 1, [?c 2], [Dropping ''u1''])"
    using sample_open [of "replicate 2 CHR ''c''" "[]" 0 "[(''u1'', 0)]" ff from_str "[Dropping ''u1'']" 2] by simp
  moreover have "ws_step ff from_str (?u 1, [?c 2], [Dropping ''u1'']) (counted_state [], [?c 2], [])"
    using ws_drop [of "''u1''" "[Dropping ''u1'']" ff from_str "?u 1" "[?c 2]"] by (simp add: drop_count_def counted_state_def hm_remove_def)
  moreover have "ws_step ff from_str (counted_state [], [?c 2], []) (?u 1, [?c 3, ?c 2], [])"
    using sample_open [of "replicate 3 CHR ''c''" "[?c 2]" 0 "[]"] by (simp add: id)
  moreover have "ws_step ff from_str (?u 1, [?c 3, ?c 2], []) (?u 2, [?c 4, ?c 3, ?c 2], [])"
    using sample_open [of "replicate 4 CHR ''c''" "[?c 3, ?c 2]" 1] unfolding Suc_1 by (simp add: id)
  moreover have "ws_step ff from_str (?u 2, [?c 4, ?c 3, ?c 2], []) (?u 3, [?c 5, ?c 4, ?c 3, ?c 2], [])"
    using sample_open [of "replicate 5 CHR ''c''" "[?c 4, ?c 3, ?c 2]" 2] by (simp add: id)
  moreover have "ws_step ff from_str (?u 3, [?c 5, ?c 4, ?c 3, ?c 2], []) (?u 4, [?c 6, ?c 5, ?c 4, ?c 3, ?c 2], [])"
    using sample_open [of "replicate 6 CHR ''c''" "[?c 5, ?c 4, ?c 3, ?c 2]" 3] by (simp add: id)
  moreover have "ws_step ff from_str (?u 4, [?c 6, ?c 5, ?c 4, ?c 3, ?c 2], []) (?u 5, [?c 7, ?c 6, ?c 5, ?c 4, ?c 3, ?c 2], [])"
    using sample_open [of "replicate 7 CHR ''c''" "[?c 6, ?c 5, ?c 4, ?c 3, ?c 2]" 4] by (simp add: id)
  ultimately have "(ws_step ff from_str)\<^sup>*\<^sup>* initial_state (?u 5, [?c 7, ?c 6, ?c 5, ?c 4, ?c 3, ?c 2], [])"
    unfolding initial_counted by (meson rtranclp.rtrancl_refl converse_rtranclp_into_rtranclp)
  then show ?thesis by (intro exI [of _ "?u 5"] exI [of _ "[?c 7, ?c 6, ?c 5, ?c 4, ?c 3, ?c 2]"]) (simp add: user_connections_def id)
qed

text \<open>
  C7. An event of a collection the dispatcher treats as private, dispatched in any reachable state,
  adds messages only to channels of live connections whose user is one of the document's owners:
  the subscriptions without a user that the filter lets through cannot exist.
\<close>

theorem private_events_reach_owners:
  assumes "(ws_step ff from_str)\<^sup>*\<^sup>* initial_state (st, live, es)"
    and "owners_of (ev_collection ev) (ev_data ev) = Some owners"
    and "buf (dispatch_event (registry st) ev chans ch) \<noteq> buf (chans ch)"
  shows "\<exists>conn \<in> set live. conn_chan conn = ch \<and> Some (conn_user conn) \<in> set owners"
proof -
  obtain sub where sub: "sub \<in> set (find_all_for_collection (ev_collection ev) (registry st))"
    "may_receive ev sub" "sender sub = ch"
    using assms(3) by (auto simp: buf_dispatch filter_empty_conv)
  then obtain i where "(i, sub) \<in> set (subscriptions (registry st))"
    by (auto simp: find_all_for_collection_def)
  then obtain i where "active_subs (registry st) i = Some sub"
    using registry_keys_ok [OF assms(1)] by (auto simp: active_subs_def hm_mem_iff)
  then obtain conn where "conn \<in> set live" "sub_user_id sub = Some (conn_user conn)" "sender sub = conn_chan conn"
    using reachable_ok [OF assms(1)] by (fastforce simp: no_orphans_def untied_def)
  with sub assms(2) show ?thesis by (intro bexI [of _ conn]) (auto simp: may_receive_def)
qed

definition order_event :: ChangeEvent where
  "order_event = emit_change Update ''orders'' ''o1'' (JObject [(''buyerId'', JString ''u1'')]) ''t''"

definition subscribed_state :: RealtimeState where
  "subscribed_state = (fst sample_state)\<lparr>registry := subscribe ''c1''
     \<lparr>sub_id = ''s1'', sub_collection = ''orders'', filter_hash = 0, document_id = None,
      sub_user_id = Some ''u1'', sender = 1\<rparr> registry_new\<rparr>"

lemma subscribed_state_reachable:
  "(ws_step (\<lambda>_. []) (\<lambda>_. Inr (Subscribe ''s1'' ''orders'' 0 None)))\<^sup>*\<^sup>* initial_state
     (subscribed_state, [sample_conn ''c1'' ''u1'' 1], [])"
proof (rule rtranclp.rtrancl_into_rtrancl [OF sample_state_reachable])
  have "handle_text (\<lambda>_. []) (\<lambda>_. Inr (Subscribe ''s1'' ''orders'' 0 None)) (sample_conn ''c1'' ''u1'' 1) ''t'' []
      (fst sample_state) = (Subscribed ''s1'', subscribed_state)"
    by (simp add: handle_text_def handle_message_def handle_subscribe_def sample_conn_def sample_state_def counted_state_def
        subscribed_state_def ALLOWED_COLLECTIONS_def MAX_SUBS_PER_CONNECTION_def connection_subscription_count_def
        registry_new_def MAX_WS_MESSAGE_SIZE_def)
  then show "ws_step (\<lambda>_. []) (\<lambda>_. Inr (Subscribe ''s1'' ''orders'' 0 None)) sample_state
      (subscribed_state, [sample_conn ''c1'' ''u1'' 1], [])"
    unfolding sample_state_def fst_conv by (intro ws_text) auto
qed

theorem private_events_reach_owners_witness:
  "\<exists>conn \<in> set [sample_conn ''c1'' ''u1'' 1]. conn_chan conn = 1 \<and>
     Some (conn_user conn) \<in> set [Some ''u1'', None]"
proof (rule private_events_reach_owners [OF subscribed_state_reachable, of order_event _
      "\<lambda>_. \<lparr>buf = [], capacity = 9, closed_ch = False\<rparr>"])
  show "owners_of (ev_collection order_event) (ev_data order_event) = Some [Some ''u1'', None]"
    by (simp add: owners_of_def order_event_def emit_change_def jget_defs)
  show "buf (dispatch_event (registry subscribed_state) order_event (\<lambda>_. \<lparr>buf = [], capacity = 9, closed_ch = False\<rparr>) 1) \<noteq>
      buf \<lparr>buf = [], capacity = 9, closed_ch = False\<rparr>"
    by (simp add: buf_dispatch room_def find_all_for_collection_def subscribed_state_def subscribe_def registry_new_def
        order_event_def emit_change_def may_receive_def owners_of_def jget_defs)
qed

text \<open>
  Several collections clients may subscribe to hold one user's data but are not filtered: any
  user who subscribes to \<open>users__cart\<close>, \<open>favorites\<close>, \<open>users__notifications\<close>, \<open>chats\<close> or
  \<open>chats__messages\<close> receives every change of every other user's documents there, given room in the
  channel.
\<close>

theorem unfiltered_private_collections:
  assumes "coll \<in> {''users__cart'', ''favorites'', ''users__notifications'', ''chats'', ''chats__messages''}"
    and "ev_collection ev = coll"
    and "connection_subscription_count (conn_id conn) (registry st) < MAX_SUBS_PER_CONNECTION"
    and "handle_message ff conn now (Subscribe i coll hash doc) st = (out, st')"
    and "length (subscriptions (registry st')) \<le> room (chans (conn_chan conn))"
  shows "out = Subscribed i \<and>
    \<lparr>subscription_id = i, event = ev\<rparr> \<in> set (buf (dispatch_event (registry st') ev chans (conn_chan conn)))"
proof -
  let ?s = "\<lparr>sub_id = i, sub_collection = coll, filter_hash = hash, document_id = doc,
    sub_user_id = Some (conn_user conn), sender = conn_chan conn\<rparr>"
  have "{''users__cart'', ''favorites'', ''users__notifications'', ''chats'', ''chats__messages''} \<subseteq> set ALLOWED_COLLECTIONS"
    by (simp add: ALLOWED_COLLECTIONS_def)
  with assms(1) have coll: "coll \<in> set ALLOWED_COLLECTIONS" by blast
  then have st': "out = Subscribed i" "registry st' = subscribe (conn_id conn) ?s (registry st)"
    using assms(3,4) by (auto simp: handle_message_def handle_subscribe_def)
  have "map_of (subscriptions (registry st')) i = Some ?s" by (simp add: st' subscribe_def)
  then have "?s \<in> set (find_all_for_collection (ev_collection ev) (registry st'))"
    by (auto simp: find_all_for_collection_def assms(2) dest!: map_of_SomeD intro!: image_eqI)
  moreover have none: "\<forall>c \<in> {''users__cart'', ''favorites'', ''users__notifications'', ''chats'', ''chats__messages''}.
      owners_of c (ev_data ev) = None"
    by (simp add: owners_of_def)
  have "owners_of coll (ev_data ev) = None" by (rule bspec [OF none assms(1)])
  then have "may_receive ev ?s" by (simp add: may_receive_def assms(2))
  ultimately have "message_for ev ?s \<in> set (buf (dispatch_event (registry st') ev chans (sender ?s)))"
    using assms(5) by (intro dispatched_if_room) simp_all
  then show ?thesis using st' by (simp add: message_for_def)
qed

theorem unfiltered_private_collections_witness:
  "\<lparr>subscription_id = ''s9'', event = emit_change Update ''users__cart'' ''k'' (JObject [(''userId'', JString ''victim'')]) ''t''\<rparr> \<in>
    set (buf (dispatch_event (registry (snd (handle_message (\<lambda>_. []) (sample_conn ''c1'' ''u1'' 1) ''t''
        (Subscribe ''s9'' ''users__cart'' 0 None) (fst sample_state))))
      (emit_change Update ''users__cart'' ''k'' (JObject [(''userId'', JString ''victim'')]) ''t'')
      (\<lambda>_. \<lparr>buf = [], capacity = 9, closed_ch = False\<rparr>) 1))"
proof -
  obtain out st' where m: "handle_message (\<lambda>_. []) (sample_conn ''c1'' ''u1'' 1) ''t''
      (Subscribe ''s9'' ''users__cart'' 0 None) (fst sample_state) = (out, st')" by (meson surj_pair)
  have "length (subscriptions (registry st')) \<le> 9"
    using m by (auto simp: handle_message_def handle_subscribe_def subscribe_def sample_state_def counted_state_def registry_new_def split: if_splits)
  then show ?thesis
    using unfiltered_private_collections [where coll = "''users__cart''" and conn = "sample_conn ''c1'' ''u1'' 1"
        and ev = "emit_change Update ''users__cart'' ''k'' (JObject [(''userId'', JString ''victim'')]) ''t''"
        and chans = "\<lambda>_. \<lparr>buf = [], capacity = 9, closed_ch = False\<rparr>", OF _ _ _ m] m
    by (simp add: emit_change_def sample_conn_def sample_state_def counted_state_def registry_new_def room_def
        connection_subscription_count_def MAX_SUBS_PER_CONNECTION_def)
qed

subsection \<open>The subscription limit counts past subscriptions\<close>

text \<open>A client that subscribes and unsubscribes one id after the other.\<close>

fun churn :: "connection \<Rightarrow> string \<Rightarrow> string list \<Rightarrow> RealtimeState \<Rightarrow> RealtimeState" where
  "churn conn coll [] st = st"
| "churn conn coll (i # is) st =
     churn conn coll is (snd (handle_message (\<lambda>_. []) conn [] (Unsubscribe i)
       (snd (handle_message (\<lambda>_. []) conn [] (Subscribe i coll 0 None) st))))"

lemma count_subscribe:
  "sub_id s \<notin> ids_of conn reg \<Longrightarrow>
     connection_subscription_count conn (subscribe conn s reg) = Suc (connection_subscription_count conn reg)"
  by (auto simp: connection_subscription_count_def ids_of_def subscribe_def entry_insert_def hs_insert_def
      split: option.splits)

lemma churn_count:
  assumes "coll \<in> set ALLOWED_COLLECTIONS" "distinct is" "set is \<inter> ids_of (conn_id conn) (registry st) = {}"
    and "connection_subscription_count (conn_id conn) (registry st) + length is \<le> MAX_SUBS_PER_CONNECTION"
  shows "connection_subscription_count (conn_id conn) (registry (churn conn coll is st)) =
      connection_subscription_count (conn_id conn) (registry st) + length is \<and>
    active_subs (registry (churn conn coll is st)) = (\<lambda>i. if i \<in> set is then None else active_subs (registry st) i)"
  using assms(2-)
proof (induction "is" arbitrary: st)
  case (Cons i "is")
  let ?s = "\<lparr>sub_id = i, sub_collection = coll, filter_hash = 0, document_id = None,
    sub_user_id = Some (conn_user conn), sender = conn_chan conn\<rparr>"
  let ?st = "st\<lparr>registry := unsubscribe i (subscribe (conn_id conn) ?s (registry st))\<rparr>"
  have one: "churn conn coll (i # is) st = churn conn coll is ?st"
    using assms(1) Cons.prems by (simp add: handle_message_def handle_subscribe_def)
  have "i \<notin> ids_of (conn_id conn) (registry st)" using Cons.prems by auto
  then have c: "connection_subscription_count (conn_id conn) (registry ?st) =
      Suc (connection_subscription_count (conn_id conn) (registry st))"
    using count_subscribe [of ?s] by simp
  have pre: "distinct is" "set is \<inter> ids_of (conn_id conn) (registry ?st) = {}"
    "connection_subscription_count (conn_id conn) (registry ?st) + length is \<le> MAX_SUBS_PER_CONNECTION"
    using Cons.prems c by (auto simp: ids_of_subscribe)
  show ?case using Cons.IH [OF pre] c unfolding one by (auto simp: fun_eq_iff)
qed (simp_all add: fun_eq_iff)

text \<open>
  The limit of 100 subscriptions per connection counts every id ever used: a client that has
  subscribed and unsubscribed 100 different ids, and so has no live subscription of its own, is
  refused any further subscription for the rest of the connection.
\<close>

theorem subscription_slots_leak:
  assumes "coll \<in> set ALLOWED_COLLECTIONS" and "distinct is" and "length is = 100"
    and "map_of (connections (registry st)) (conn_id conn) = None"
  shows "(\<forall>i \<in> set is. active_subs (registry (churn conn coll is st)) i = None) \<and>
    fst (handle_message ff conn now (Subscribe j coll hash doc) (churn conn coll is st)) =
      Error ''Max subscriptions (100) reached''"
proof -
  have zero: "connection_subscription_count (conn_id conn) (registry st) = 0" "ids_of (conn_id conn) (registry st) = {}"
    using assms(4) by (simp_all add: connection_subscription_count_def ids_of_def)
  have pre: "set is \<inter> ids_of (conn_id conn) (registry st) = {}"
    "connection_subscription_count (conn_id conn) (registry st) + length is \<le> MAX_SUBS_PER_CONNECTION"
    using zero assms(3) by (simp_all add: MAX_SUBS_PER_CONNECTION_def)
  note churned = conjunct1 [OF churn_count [OF assms(1,2) pre]] conjunct2 [OF churn_count [OF assms(1,2) pre]]
  have "nat_to_string MAX_SUBS_PER_CONNECTION = ''100''"
    unfolding MAX_SUBS_PER_CONNECTION_def by code_simp
  then have "fst (handle_message ff conn now (Subscribe j coll hash doc) (churn conn coll is st)) =
      Error ''Max subscriptions (100) reached''"
    using churned(1) assms(1,3) zero
    by (simp add: handle_message_def handle_subscribe_def) (simp add: MAX_SUBS_PER_CONNECTION_def)
  with churned(2) show ?thesis by simp
qed

theorem subscription_slots_leak_witness:
  "fst (handle_message (\<lambda>_. []) (sample_conn ''c1'' ''u1'' 1) [] (Subscribe ''next'' ''orders'' 0 None)
     (churn (sample_conn ''c1'' ''u1'' 1) ''orders'' (map (\<lambda>n. replicate n CHR ''x'') [0..<100]) (fst sample_state))) =
   Error ''Max subscriptions (100) reached''"
proof -
  have "inj_on (\<lambda>n. replicate n (CHR ''x'')) A" for A by (rule inj_onI) (metis length_replicate)
  then have "distinct (map (\<lambda>n. replicate n (CHR ''x'')) [0..<100])" by (simp only: distinct_map distinct_upt)
  from subscription_slots_leak [where coll = "''orders''", OF _ this] show ?thesis
    by (simp add: ALLOWED_COLLECTIONS_def sample_state_def counted_state_def registry_new_def del: upt_rec_numeral)
qed

text \<open>
  Subscription ids are global and unprotected: any session can end any other session's
  subscription by naming its id, and can take an id over, after which the first session no longer
  receives anything under it.
\<close>

theorem foreign_subscription_removed:
  assumes "active_subs (registry st) i = Some s" and "sender s \<noteq> conn_chan conn"
  shows "active_subs (registry (snd (handle_message ff conn now (Unsubscribe i) st))) i = None \<and>
    (\<forall>coll hash doc out st'. handle_message ff conn now (Subscribe i coll hash doc) st = (out, st') \<longrightarrow>
       out = Subscribed i \<longrightarrow> map_option sender (active_subs (registry st') i) = Some (conn_chan conn))"
  by (auto simp: handle_message_def handle_subscribe_def split: if_splits)

theorem foreign_subscription_removed_witness:
  "active_subs (registry (snd (handle_message (\<lambda>_. []) (sample_conn ''c2'' ''u2'' 2) [] (Unsubscribe ''s1'')
     subscribed_state))) ''s1'' = None"
  using foreign_subscription_removed [of subscribed_state "''s1''"
      "\<lparr>sub_id = ''s1'', sub_collection = ''orders'', filter_hash = 0, document_id = None,
        sub_user_id = Some ''u1'', sender = 1\<rparr>" "sample_conn ''c2'' ''u2'' 2" "\<lambda>_. []" "[]"]
  by (simp add: subscribed_state_def active_subs_def subscribe_def registry_new_def sample_conn_def)

end
