(* ===== verification/Pg_Store.thy ===== *)
theory Pg_Store
  imports Rules_Parser
begin

text \<open>
  The document store on PostgreSQL (\<open>crates/ob-database/src/pg_store.rs\<close>). A collection is a table
  of rows \<open>(id, data, created_at, updated_at)\<close>, kept as a list in arbitrary physical order; every
  statement consumes one entry of a schedule of database faults and a failed statement changes
  nothing. Clock readings of the database and new uuids are inputs; the text and jsonb
  conversions that PostgreSQL and chrono perform are the fields of \<open>pg_env\<close>.
\<close>

record doc_row =
  d_id :: string
  d_data :: json
  d_created_at :: int
  d_updated_at :: int

record pg_env =
  pg_to_jsonb :: "json \<Rightarrow> string + json"
  pg_rfc3339 :: "int \<Rightarrow> string"
  pg_value_text :: "json \<Rightarrow> string"

record pg_state =
  tables :: "string \<Rightarrow> doc_row list"
  pg_faults :: "string option list"

type_synonym 'a pg_action = "(pg_state, ob_error, 'a) action"

subsection \<open>Statements\<close>

definition sanitize_table_name :: "string \<Rightarrow> string ob_result" where
  "sanitize_table_name name = rbind (validate_identifier name) (\<lambda>_. Inr name)"

text \<open>A statement on one table; the error gets the operation's prefix.\<close>

definition pg_exec :: "string \<Rightarrow> string \<Rightarrow> (doc_row list \<Rightarrow> string + ('a \<times> doc_row list)) \<Rightarrow> 'a pg_action" where
  "pg_exec prefx table stmt s =
     (case pg_faults s of
        Some e # fs \<Rightarrow> (Inl (Database (prefx @ e)), s\<lparr>pg_faults := fs\<rparr>)
      | fs \<Rightarrow>
          (case stmt (tables s table) of
             Inl e \<Rightarrow> (Inl (Database (prefx @ e)), s\<lparr>pg_faults := tl fs\<rparr>)
           | Inr (x, rs) \<Rightarrow> (Inr x, s\<lparr>tables := (tables s)(table := rs), pg_faults := tl fs\<rparr>)))"

fun contains_str :: "string \<Rightarrow> string \<Rightarrow> bool" where
  "contains_str pat [] = (pat = [])"
| "contains_str pat (c # cs) = (starts_with pat (c # cs) \<or> contains_str pat cs)"

text \<open>
  The four statements that create the table, migrate a legacy one and install the trigger; the
  third tolerates the error of a concurrent creation. None of them changes a row of a table that
  already has the document schema.
\<close>

definition ensure_table :: "string \<Rightarrow> unit pg_action" where
  "ensure_table coll =
     abind (alift (sanitize_table_name coll)) (\<lambda>table.
     abind (pg_exec (''Failed to create table '' @ table @ '': '') table (\<lambda>rs. Inr ((), rs))) (\<lambda>_.
     abind (pg_exec (''Failed to migrate table '' @ table @ '': '') table (\<lambda>rs. Inr ((), rs))) (\<lambda>_.
     abind (\<lambda>s. case pg_faults s of
         Some e # fs \<Rightarrow>
           ((if contains_str ''tuple concurrently updated'' e then Inr ()
             else Inl (Database (''Failed to create set_updated_at function: '' @ e))), s\<lparr>pg_faults := fs\<rparr>)
       | fs \<Rightarrow> (Inr (), s\<lparr>pg_faults := tl fs\<rparr>)) (\<lambda>_.
     abind (pg_exec (''Failed to create trigger for '' @ table @ '': '') table (\<lambda>rs. Inr ((), rs))) (\<lambda>_.
       areturn ())))))"

definition json_to_text :: "(rat \<Rightarrow> string) \<Rightarrow> json \<Rightarrow> string" where
  "json_to_text fmt_float val =
     (case val of JString s \<Rightarrow> s | JNull \<Rightarrow> [] | other \<Rightarrow> json_to_string fmt_float other)"

text \<open>\<open>a || b\<close> of jsonb: objects merge, anything else is joined as arrays.\<close>

fun jsonb_elems :: "json \<Rightarrow> json list" where
  "jsonb_elems (JArray vs) = vs"
| "jsonb_elems v = [v]"

fun jsonb_concat :: "json \<Rightarrow> json \<Rightarrow> json" where
  "jsonb_concat (JObject a) (JObject b) = JObject (obj_merge a b)"
| "jsonb_concat a b = JArray (jsonb_elems a @ jsonb_elems b)"

text \<open>\<open>v #>> '{}'\<close> and \<open>data->>'f'\<close>: the text of a value, SQL null for JSON null.\<close>

definition jsonb_text :: "pg_env \<Rightarrow> json \<Rightarrow> string option" where
  "jsonb_text env v =
     (case v of JNull \<Rightarrow> None | JString s \<Rightarrow> Some s | other \<Rightarrow> Some (pg_value_text env other))"

definition member_text :: "pg_env \<Rightarrow> string \<Rightarrow> json \<Rightarrow> string option" where
  "member_text env f d = Option.bind (jget f d) (jsonb_text env)"

definition sql_eq :: "string option \<Rightarrow> string option \<Rightarrow> bool" where
  "sql_eq a b = (case (a, b) of (Some x, Some y) \<Rightarrow> x = y | _ \<Rightarrow> False)"

definition inject_document_metadata :: "pg_env \<Rightarrow> doc_row \<Rightarrow> json" where
  "inject_document_metadata env row =
     (case d_data row of
        JObject m \<Rightarrow>
          JObject (obj_insert ''updatedAt'' (JString (pg_rfc3339 env (d_updated_at row)))
            (obj_insert ''createdAt'' (JString (pg_rfc3339 env (d_created_at row)))
              (obj_insert ''id'' (JString (d_id row)) m)))
      | v \<Rightarrow> v)"

definition bare_id :: "string \<Rightarrow> string \<Rightarrow> string" where
  "bare_id coll i = (case strip_prefix (coll @ '':'') i of Some r \<Rightarrow> r | None \<Rightarrow> i)"

definition doc_of :: "string \<Rightarrow> doc_row list \<Rightarrow> doc_row option" where
  "doc_of i rs = List.find (\<lambda>r. d_id r = i) rs"

subsection \<open>CRUD\<close>

definition create_document :: "pg_env \<Rightarrow> string \<Rightarrow> int \<Rightarrow> string \<Rightarrow> json \<Rightarrow> json pg_action" where
  "create_document env new_uuid now coll data =
     abind (ensure_table coll) (\<lambda>_.
     abind (alift (sanitize_table_name coll)) (\<lambda>table.
     let i = (case jget_str ''id'' data of Some s \<Rightarrow> s | None \<Rightarrow> new_uuid) in
     abind (pg_exec ''Create failed: '' table (\<lambda>rs.
       rbind (pg_to_jsonb env data) (\<lambda>body.
         case doc_of i rs of
           Some _ \<Rightarrow> Inr (None, rs)
         | None \<Rightarrow>
             (let row = \<lparr>d_id = i, d_data = body, d_created_at = now, d_updated_at = now\<rparr>
              in Inr (Some row, rs @ [row]))))) (\<lambda>row.
     abind (alift (ok_or (Validation (''Document already exists in collection '' @ coll @ '': '' @ i)) row)) (\<lambda>row.
       areturn (inject_document_metadata env row)))))"

definition not_found :: "string \<Rightarrow> string \<Rightarrow> ob_error" where
  "not_found coll i = NotFound (coll @ '':'' @ i @ '' not found'')"

definition get_document :: "pg_env \<Rightarrow> string \<Rightarrow> string \<Rightarrow> json pg_action" where
  "get_document env coll i =
     abind (ensure_table coll) (\<lambda>_.
     abind (alift (sanitize_table_name coll)) (\<lambda>table.
     abind (pg_exec ''Get failed: '' table (\<lambda>rs. Inr (doc_of (bare_id coll i) rs, rs))) (\<lambda>row.
     abind (alift (ok_or (not_found coll (bare_id coll i)) row)) (\<lambda>row.
       areturn (inject_document_metadata env row)))))"

text \<open>\<open>SET data = data || body\<close>, with the trigger's new \<open>updated_at\<close>.\<close>

definition merged :: "int \<Rightarrow> json \<Rightarrow> doc_row \<Rightarrow> doc_row" where
  "merged now body r = r\<lparr>d_data := jsonb_concat (d_data r) body, d_updated_at := now\<rparr>"

definition update_rows :: "(doc_row \<Rightarrow> doc_row) \<Rightarrow> (doc_row \<Rightarrow> bool) \<Rightarrow> doc_row list \<Rightarrow> doc_row option \<times> doc_row list" where
  "update_rows f P rs = (map_option f (List.find P rs), map (\<lambda>r. if P r then f r else r) rs)"

definition update_document :: "pg_env \<Rightarrow> int \<Rightarrow> string \<Rightarrow> string \<Rightarrow> json \<Rightarrow> json pg_action" where
  "update_document env now coll i data =
     abind (ensure_table coll) (\<lambda>_.
     abind (alift (sanitize_table_name coll)) (\<lambda>table.
     abind (pg_exec ''Update failed: '' table (\<lambda>rs.
       rbind (pg_to_jsonb env data) (\<lambda>body.
         Inr (update_rows (merged now body) (\<lambda>r. d_id r = bare_id coll i) rs)))) (\<lambda>row.
     abind (alift (ok_or (not_found coll (bare_id coll i)) row)) (\<lambda>row.
       areturn (inject_document_metadata env row)))))"

definition upsert_document :: "pg_env \<Rightarrow> int \<Rightarrow> string \<Rightarrow> string \<Rightarrow> json \<Rightarrow> json pg_action" where
  "upsert_document env now coll i data =
     abind (ensure_table coll) (\<lambda>_.
     abind (alift (sanitize_table_name coll)) (\<lambda>table.
     abind (pg_exec ''Upsert failed: '' table (\<lambda>rs.
       rbind (pg_to_jsonb env data) (\<lambda>body.
         case doc_of (bare_id coll i) rs of
           Some r \<Rightarrow>
             Inr (merged now body r, map (\<lambda>r. if d_id r = bare_id coll i then merged now body r else r) rs)
         | None \<Rightarrow>
             (let row = \<lparr>d_id = bare_id coll i, d_data = body, d_created_at = now, d_updated_at = now\<rparr>
              in Inr (row, rs @ [row]))))) (\<lambda>row.
       areturn (inject_document_metadata env row))))"

definition delete_document :: "string \<Rightarrow> string \<Rightarrow> json pg_action" where
  "delete_document coll i =
     abind (ensure_table coll) (\<lambda>_.
     abind (alift (sanitize_table_name coll)) (\<lambda>table.
     abind (pg_exec ''Delete failed: '' table (\<lambda>rs.
       Inr (doc_of (bare_id coll i) rs, filter (\<lambda>r. d_id r \<noteq> bare_id coll i) rs))) (\<lambda>row.
     abind (alift (ok_or (not_found coll (bare_id coll i)) row)) (\<lambda>row.
       areturn (case d_data row of
           JObject m \<Rightarrow> JObject (obj_insert ''id'' (JString (d_id row)) m)
         | v \<Rightarrow> v)))))"

text \<open>\<open>ORDER BY created_at DESC\<close>.\<close>

definition newest_first :: "doc_row list \<Rightarrow> doc_row list" where
  "newest_first rs = sort_key (\<lambda>r. - d_created_at r) rs"

definition list_documents :: "pg_env \<Rightarrow> string \<Rightarrow> nat option \<Rightarrow> nat option \<Rightarrow> json list pg_action" where
  "list_documents env coll lmt offset =
     abind (ensure_table coll) (\<lambda>_.
     abind (alift (sanitize_table_name coll)) (\<lambda>table.
     let n = min (case lmt of Some k \<Rightarrow> k | None \<Rightarrow> 1000) 10000;
         off = wrap_i64 (int (case offset of Some k \<Rightarrow> k | None \<Rightarrow> 0))
     in pg_exec ''List failed: '' table (\<lambda>rs.
          if off < 0 then Inl ''OFFSET must not be negative''
          else Inr (map (inject_document_metadata env) (take n (drop (nat off) (newest_first rs))), rs))))"

fun batch_create :: "pg_env \<Rightarrow> string \<Rightarrow> (string \<times> int \<times> json) list \<Rightarrow> json list pg_action" where
  "batch_create env coll [] = areturn []"
| "batch_create env coll ((new_uuid, now, doc) # docs) =
     abind (create_document env new_uuid now coll doc) (\<lambda>v.
     abind (batch_create env coll docs) (\<lambda>vs. areturn (v # vs)))"

fun batch_update :: "pg_env \<Rightarrow> string \<Rightarrow> (int \<times> string \<times> json) list \<Rightarrow> json list pg_action" where
  "batch_update env coll [] = areturn []"
| "batch_update env coll ((now, i, data) # updates) =
     abind (update_document env now coll i data) (\<lambda>v.
     abind (batch_update env coll updates) (\<lambda>vs. areturn (v # vs)))"

fun batch_delete :: "string \<Rightarrow> string list \<Rightarrow> json list pg_action" where
  "batch_delete coll [] = areturn []"
| "batch_delete coll (i # is) =
     abind (delete_document coll i) (\<lambda>v.
     abind (batch_delete coll is) (\<lambda>vs. areturn (v # vs)))"

definition update_with_field_values :: "pg_env \<Rightarrow> int \<Rightarrow> string \<Rightarrow> string \<Rightarrow> json \<Rightarrow> json pg_action" where
  "update_with_field_values env now coll i data = update_document env now coll i data"

definition cas_matches :: "pg_env \<Rightarrow> string \<Rightarrow> string \<Rightarrow> json \<Rightarrow> doc_row \<Rightarrow> bool" where
  "cas_matches env i check_field expected r \<longleftrightarrow>
     d_id r = i \<and> sql_eq (member_text env check_field (d_data r)) (jsonb_text env expected)"

definition update_document_cas ::
  "pg_env \<Rightarrow> int \<Rightarrow> string \<Rightarrow> string \<Rightarrow> json \<Rightarrow> string \<Rightarrow> json \<Rightarrow> json option pg_action" where
  "update_document_cas env now coll i data check_field expected =
     abind (ensure_table coll) (\<lambda>_.
     abind (alift (sanitize_table_name coll)) (\<lambda>table.
     abind (pg_exec ''CAS update failed: '' table (\<lambda>rs.
       rbind (pg_to_jsonb env data) (\<lambda>body.
         Inr (update_rows (merged now body) (cas_matches env (bare_id coll i) check_field expected) rs)))) (\<lambda>row.
       areturn (map_option (\<lambda>row.
         case d_data row of
           JObject m \<Rightarrow>
             JObject (obj_insert ''updatedAt'' (JString (pg_rfc3339 env (d_updated_at row)))
               (obj_insert ''id'' (JString (d_id row)) m))
         | v \<Rightarrow> v) row))))"

subsection \<open>Named parameters\<close>

fun bind_names :: "nat \<Rightarrow> json_map \<Rightarrow> string \<Rightarrow> string" where
  "bind_names i [] qry = qry"
| "bind_names i ((name, _) # binds) qry =
     bind_names (i + 1) binds (replace_str (CHR ''$'' # name) (CHR ''$'' # nat_to_string (i + 1)) qry)"

definition named_to_positional :: "string \<Rightarrow> json \<Rightarrow> (string \<times> json list) ob_result" where
  "named_to_positional qry binds =
     (case as_object binds of
        None \<Rightarrow> Inl (Database ''Binds must be a JSON object'')
      | Some obj \<Rightarrow> Inr (bind_names 0 obj qry, map snd obj))"

subsection \<open>The contract of a document store\<close>

text \<open>
  What the handlers rely on: each collection is a map from ids to documents; \<open>put\<close> merges into the
  stored document or creates it, \<open>del\<close> removes it, \<open>get\<close> reads it, and no operation touches
  another id. \<open>key\<close> normalises an id, \<open>encode\<close> is what the database stores for a value.
\<close>

locale document_store =
  fixes calm :: "'s \<Rightarrow> bool"
    and view :: "'s \<Rightarrow> string \<Rightarrow> json option"
    and key :: "string \<Rightarrow> string"
    and encode :: "json \<Rightarrow> json option"
    and get :: "string \<Rightarrow> 's \<Rightarrow> ('e + 'a) \<times> 's"
    and put :: "string \<Rightarrow> json \<Rightarrow> 's \<Rightarrow> ('e + 'a) \<times> 's"
    and del :: "string \<Rightarrow> 's \<Rightarrow> ('e + 'a) \<times> 's"
  assumes get_frame: "calm s \<Longrightarrow> snd (get i s) = s"
    and get_ok: "calm s \<Longrightarrow> is_ok (fst (get i s)) \<longleftrightarrow> view s (key i) \<noteq> None"
    and put_ok: "calm s \<Longrightarrow> encode d = Some b \<Longrightarrow> is_ok (fst (put i d s)) \<and> calm (snd (put i d s))"
    and put_view: "calm s \<Longrightarrow> encode d = Some b \<Longrightarrow>
      view (snd (put i d s)) = (view s)(key i \<mapsto> (case view s (key i) of None \<Rightarrow> b | Some old \<Rightarrow> jsonb_concat old b))"
    and del_calm: "calm s \<Longrightarrow> calm (snd (del i s))"
    and del_ok: "calm s \<Longrightarrow> is_ok (fst (del i s)) \<longleftrightarrow> view s (key i) \<noteq> None"
    and del_view: "calm s \<Longrightarrow> view (snd (del i s)) = (view s)(key i := None)"
begin

lemma get_after_put: "calm s \<Longrightarrow> encode d = Some b \<Longrightarrow> is_ok (fst (get i (snd (put i d s))))"
  using get_ok [of "snd (put i d s)" i] put_ok [of s d b i] put_view [of s d b i] by simp

lemma get_after_del: "calm s \<Longrightarrow> \<not> is_ok (fst (get i (snd (del i s))))"
  using get_ok [of "snd (del i s)" i] del_calm [of s i] del_view [of s i] by simp

lemma others_untouched:
  assumes "calm s" "encode d = Some b" "key j \<noteq> key i"
  shows "view (snd (put i d s)) (key j) = view s (key j) \<and> view (snd (del i s)) (key j) = view s (key j)"
  using put_view [OF assms(1,2), of i] del_view [OF assms(1), of i] assms(3) by simp

end

definition doc_view :: "string \<Rightarrow> pg_state \<Rightarrow> string \<Rightarrow> json option" where
  "doc_view coll s i = map_option d_data (doc_of i (tables s coll))"

definition pg_calm :: "string \<Rightarrow> pg_state \<Rightarrow> bool" where
  "pg_calm coll s \<longleftrightarrow> pg_faults s = [] \<and> safe_identifier coll"

lemma pg_exec_calm:
  "pg_faults s = [] \<Longrightarrow> pg_exec p t stmt s =
     (case stmt (tables s t) of
        Inl e \<Rightarrow> (Inl (Database (p @ e)), s)
      | Inr (x, rs) \<Rightarrow> (Inr x, s\<lparr>tables := (tables s)(t := rs)\<rparr>))"
  by (simp add: pg_exec_def split: sum.split prod.split)

lemma sanitize_ok: "safe_identifier coll \<Longrightarrow> sanitize_table_name coll = Inr coll"
  by (simp add: sanitize_table_name_def validate_identifier_ok)

lemma ensure_table_calm: "pg_calm coll s \<Longrightarrow> ensure_table coll s = (Inr (), s)"
  by (simp add: ensure_table_def pg_calm_def sanitize_ok abind_def pg_exec_calm)

lemma begin_calm:
  "pg_calm coll s \<Longrightarrow>
     abind (ensure_table coll) (\<lambda>_. abind (alift (sanitize_table_name coll)) f) s = f coll s"
  by (simp add: abind_def ensure_table_calm sanitize_ok pg_calm_def)

lemma get_document_calm:
  assumes "pg_calm coll s"
  shows "get_document env coll i s =
    (case doc_of (bare_id coll i) (tables s coll) of
       None \<Rightarrow> (Inl (not_found coll (bare_id coll i)), s)
     | Some r \<Rightarrow> (Inr (inject_document_metadata env r), s))"
  using assms unfolding get_document_def begin_calm [OF assms]
  by (simp add: abind_def pg_exec_calm pg_calm_def split: option.split)

lemma upsert_document_calm:
  assumes "pg_calm coll s" "pg_to_jsonb env data = Inr body"
  shows "upsert_document env now coll i data s =
    (case doc_of (bare_id coll i) (tables s coll) of
       None \<Rightarrow>
         (let row = \<lparr>d_id = bare_id coll i, d_data = body, d_created_at = now, d_updated_at = now\<rparr>
          in (Inr (inject_document_metadata env row), s\<lparr>tables := (tables s)(coll := tables s coll @ [row])\<rparr>))
     | Some r \<Rightarrow>
         (Inr (inject_document_metadata env (merged now body r)),
          s\<lparr>tables := (tables s)(coll := map (\<lambda>r. if d_id r = bare_id coll i then merged now body r else r) (tables s coll))\<rparr>))"
  using assms unfolding upsert_document_def begin_calm [OF assms(1)]
  by (simp add: abind_def pg_exec_calm pg_calm_def Let_def split: option.split)

lemma delete_document_calm:
  assumes "pg_calm coll s"
  shows "delete_document coll i s =
    (case doc_of (bare_id coll i) (tables s coll) of
       None \<Rightarrow> (Inl (not_found coll (bare_id coll i)), s)
     | Some r \<Rightarrow>
         (Inr (case d_data r of JObject m \<Rightarrow> JObject (obj_insert ''id'' (JString (d_id r)) m) | v \<Rightarrow> v),
          s\<lparr>tables := (tables s)(coll := filter (\<lambda>r. d_id r \<noteq> bare_id coll i) (tables s coll))\<rparr>))"
proof -
  have "filter (\<lambda>r. d_id r \<noteq> j) rs = rs" if "doc_of j rs = None" for j rs
    using that by (auto simp: doc_of_def find_None_iff filter_id_conv)
  then show ?thesis
    using assms unfolding delete_document_def begin_calm [OF assms]
    by (simp add: abind_def pg_exec_calm pg_calm_def split: option.split)
qed

lemma create_document_calm:
  assumes "pg_calm coll s" "pg_to_jsonb env data = Inr body"
  shows "create_document env uuid now coll data s =
    (let i = (case jget_str ''id'' data of Some i \<Rightarrow> i | None \<Rightarrow> uuid);
         row = \<lparr>d_id = i, d_data = body, d_created_at = now, d_updated_at = now\<rparr>
     in case doc_of i (tables s coll) of
          None \<Rightarrow> (Inr (inject_document_metadata env row), s\<lparr>tables := (tables s)(coll := tables s coll @ [row])\<rparr>)
        | Some _ \<Rightarrow> (Inl (Validation (''Document already exists in collection '' @ coll @ '': '' @ i)), s))"
  using assms unfolding create_document_def begin_calm [OF assms(1)]
  by (simp add: abind_def pg_exec_calm pg_calm_def Let_def split: option.split)

lemma update_document_calm:
  assumes "pg_calm coll s" "pg_to_jsonb env data = Inr body" "doc_of (bare_id coll i) (tables s coll) = Some row"
  shows "update_document env now coll i data s =
    (Inr (inject_document_metadata env (merged now body row)),
     s\<lparr>tables := (tables s)(coll := map (\<lambda>r. if d_id r = bare_id coll i then merged now body r else r) (tables s coll))\<rparr>)"
  using assms unfolding update_document_def begin_calm [OF assms(1)]
  by (simp add: abind_def pg_exec_calm pg_calm_def update_rows_def doc_of_def)

lemma doc_of_map:
  "(\<And>r. d_id (f r) = d_id r) \<Longrightarrow> doc_of i (map f rs) = map_option f (doc_of i rs)"
  by (induction rs) (auto simp: doc_of_def)

lemma doc_of_distinct: "distinct (map d_id rs) \<Longrightarrow> r \<in> set rs \<Longrightarrow> doc_of (d_id r) rs = Some r"
  by (induction rs) (auto simp: doc_of_def)

lemma doc_of_append: "doc_of i (rs @ [r]) = (case doc_of i rs of None \<Rightarrow> if d_id r = i then Some r else None | Some x \<Rightarrow> Some x)"
  by (induction rs) (auto simp: doc_of_def)

lemma doc_of_filter: "doc_of j (filter (\<lambda>r. d_id r \<noteq> i) rs) = (if j = i then None else doc_of j rs)"
  by (induction rs) (auto simp: doc_of_def)

lemma doc_of_id: "doc_of i rs = Some r \<Longrightarrow> d_id r = i \<and> r \<in> set rs"
  by (auto simp: doc_of_def find_Some_iff)

lemma merged_id [simp]: "d_id (merged now body r) = d_id r" "d_data (merged now body r) = jsonb_concat (d_data r) body"
  by (simp_all add: merged_def)

lemma doc_of_merge:
  "doc_of j (map (\<lambda>r. if d_id r = i then merged now body r else r) rs) =
     map_option (\<lambda>r. if j = i then merged now body r else r) (doc_of j rs)"
  by (subst doc_of_map) (auto dest: doc_of_id intro!: option.map_cong)

subsection \<open>Effects under faults\<close>

text \<open>
  What an operation leaves behind whatever faults the database reports: an error means that no
  table changed, a result determines the one table that did.
\<close>

lemma pg_exec_cases:
  assumes "pg_exec p t stmt s = (r, s')"
  shows "case r of Inl _ \<Rightarrow> tables s' = tables s
    | Inr x \<Rightarrow> \<exists>rs. stmt (tables s t) = Inr (x, rs) \<and> tables s' = (tables s)(t := rs)"
  using assms by (auto simp: pg_exec_def split: list.splits option.splits sum.splits prod.splits)

lemma pg_exec_read: "pg_exec p t (\<lambda>rs. Inr (h rs, rs)) s = (r, s') \<Longrightarrow> tables s' = tables s"
  by (auto dest!: pg_exec_cases split: sum.splits)

lemma sanitize_eq: "sanitize_table_name coll = Inr t \<Longrightarrow> t = coll"
  by (auto simp: sanitize_table_name_def rbind_def split: sum.splits)

lemma abind_cases:
  assumes "abind m f s = (r, s')"
  obtains (err) e where "m s = (Inl e, s')" "r = Inl e"
  | (ok) x u where "m s = (Inr x, u)" "f x u = (r, s')"
  using assms by (auto simp: abind_def split: prod.splits sum.splits)

lemma ensure_table_tables:
  assumes "ensure_table coll s = (r, s')"
  shows "tables s' = tables s"
proof -
  have third: "tables u' = tables u"
    if "(case pg_faults u of
         Some e # fs \<Rightarrow> ((if c e then Inr () else Inl (h e)), u\<lparr>pg_faults := fs\<rparr>)
       | fs \<Rightarrow> (Inr (), u\<lparr>pg_faults := tl fs\<rparr>)) = (q, u')" for u u' q c h
    using that by (auto split: list.splits option.splits)
  show ?thesis
    using assms unfolding ensure_table_def
    by (auto elim!: abind_cases dest!: pg_exec_read third split: sum.splits)
qed

lemma begin_cases:
  assumes "abind (ensure_table coll) (\<lambda>_. abind (alift (sanitize_table_name coll)) f) s = (r, s')"
  obtains (err) e where "r = Inl e" "tables s' = tables s"
  | (ok) u where "tables u = tables s" "f coll u = (r, s')"
  using assms
proof (cases rule: abind_cases)
  case (err e)
  then show ?thesis using ensure_table_tables that(1) by blast
next
  case (ok x u)
  note u = ensure_table_tables [OF ok(1)]
  show ?thesis
    using ok(2)
  proof (cases rule: abind_cases)
    case (err e)
    then show ?thesis using that(1) u by simp
  next
    case (ok t v)
    then have "t = coll" "v = u" using sanitize_eq [of coll t] by simp_all
    then show ?thesis using that(2) u ok(2) by simp
  qed
qed

text \<open>A statement followed by a check of the row it returned and the rendering of the row.\<close>

lemma stmt_cases:
  assumes "abind (pg_exec p t stmt) (\<lambda>row. abind (alift (ok_or e row)) (\<lambda>row. areturn (h row))) s = (r, s')"
    and none: "\<And>rs rs'. stmt rs = Inr (None, rs') \<Longrightarrow> rs' = rs"
  shows "case r of Inl _ \<Rightarrow> tables s' = tables s
    | Inr d \<Rightarrow> \<exists>row rs. stmt (tables s t) = Inr (Some row, rs) \<and> d = h row \<and> tables s' = (tables s)(t := rs)"
  using assms(1)
proof (cases rule: abind_cases)
  case (err e')
  then show ?thesis using pg_exec_cases [OF err(1)] by simp
next
  case (ok row u)
  then obtain rs where rs: "stmt (tables s t) = Inr (row, rs)" "tables u = (tables s)(t := rs)"
    using pg_exec_cases [OF ok(1)] by auto
  show ?thesis
  proof (cases row)
    case None
    with rs none have "rs = tables s t" by blast
    with None ok(2) rs(2) show ?thesis by auto
  qed (use ok(2) rs in auto)
qed

lemma get_document_cases:
  assumes "get_document env coll i s = (r, s')"
  shows "tables s' = tables s \<and>
    (\<forall>d. r = Inr d \<longrightarrow> (\<exists>row. doc_of (bare_id coll i) (tables s coll) = Some row \<and> d = inject_document_metadata env row))"
  using assms unfolding get_document_def
proof (cases rule: begin_cases)
  case (ok u)
  then show ?thesis by (auto dest!: stmt_cases split: sum.splits)
qed auto

lemma update_document_cases:
  assumes "update_document env now coll i data s = (r, s')"
  shows "case r of Inl _ \<Rightarrow> tables s' = tables s
    | Inr d \<Rightarrow> \<exists>row body. doc_of (bare_id coll i) (tables s coll) = Some row \<and> pg_to_jsonb env data = Inr body \<and>
        d = inject_document_metadata env (merged now body row) \<and>
        tables s' = (tables s)(coll :=
          map (\<lambda>r. if d_id r = bare_id coll i then merged now body r else r) (tables s coll))"
  using assms unfolding update_document_def
proof (cases rule: begin_cases)
  case (ok u)
  have "rs' = rs" if "rbind (pg_to_jsonb env data) (\<lambda>body. Inr (update_rows (merged now body) (\<lambda>r. d_id r = bare_id coll i) rs))
      = Inr (None, rs')" for rs rs'
    using that by (auto simp: update_rows_def rbind_eq_Inr find_None_iff intro!: map_idI)
  from stmt_cases [OF ok(2) this] show ?thesis
    using ok(1) by (auto simp: update_rows_def rbind_eq_Inr doc_of_def split: sum.splits)
qed auto

lemma create_document_cases:
  assumes "create_document env uuid now coll data s = (r, s')"
  shows "case r of Inl _ \<Rightarrow> tables s' = tables s
    | Inr d \<Rightarrow> \<exists>row body. row = \<lparr>d_id = (case jget_str ''id'' data of Some i \<Rightarrow> i | None \<Rightarrow> uuid), d_data = body,
          d_created_at = now, d_updated_at = now\<rparr> \<and>
        doc_of (d_id row) (tables s coll) = None \<and> pg_to_jsonb env data = Inr body \<and>
        d = inject_document_metadata env row \<and> tables s' = (tables s)(coll := tables s coll @ [row])"
  using assms unfolding create_document_def Let_def
proof (cases rule: begin_cases)
  case (ok u)
  define j where "j = (case jget_str ''id'' data of Some i \<Rightarrow> i | None \<Rightarrow> uuid)"
  define stmt where "stmt = (\<lambda>rs. rbind (pg_to_jsonb env data) (\<lambda>body. case doc_of j rs of
      Some _ \<Rightarrow> Inr (None, rs)
    | None \<Rightarrow> Inr (Some \<lparr>d_id = j, d_data = body, d_created_at = now, d_updated_at = now\<rparr>,
        rs @ [\<lparr>d_id = j, d_data = body, d_created_at = now, d_updated_at = now\<rparr>])))"
  have none: "rs' = rs" if "stmt rs = Inr (None, rs')" for rs rs'
    using that by (auto simp: stmt_def rbind_eq_Inr split: option.splits)
  have some: "\<exists>body. row = \<lparr>d_id = j, d_data = body, d_created_at = now, d_updated_at = now\<rparr> \<and> pg_to_jsonb env data = Inr body \<and>
      rs' = rs @ [row] \<and> doc_of j rs = None" if "stmt rs = Inr (Some row, rs')" for rs rs' row
    using that by (auto simp: stmt_def rbind_eq_Inr split: option.splits)
  show ?thesis
    using stmt_cases [OF ok(2) [folded j_def, folded stmt_def] none] ok(1)
    by (auto simp flip: j_def dest!: some split: sum.splits)
qed auto

lemma delete_document_cases:
  assumes "delete_document coll i s = (r, s')"
  shows "case r of Inl _ \<Rightarrow> tables s' = tables s
    | Inr d \<Rightarrow> \<exists>row. doc_of (bare_id coll i) (tables s coll) = Some row \<and>
        tables s' = (tables s)(coll := filter (\<lambda>r. d_id r \<noteq> bare_id coll i) (tables s coll))"
  using assms unfolding delete_document_def
proof (cases rule: begin_cases)
  case (ok u)
  have "rs' = rs" if "(Inr (doc_of (bare_id coll i) rs, filter (\<lambda>r. d_id r \<noteq> bare_id coll i) rs) :: string + _) = Inr (None, rs')"
    for rs rs'
    using that by (auto simp: doc_of_def find_None_iff filter_id_conv)
  from stmt_cases [OF ok(2) this] show ?thesis using ok(1) by (auto split: sum.splits)
qed auto

lemma upsert_document_rows:
  assumes "upsert_document env now coll i data s = (r, s')"
  shows "case r of Inl _ \<Rightarrow> tables s' = tables s
    | Inr d \<Rightarrow> \<exists>body row rs. pg_to_jsonb env data = Inr body \<and> d = inject_document_metadata env row \<and>
        tables s' = (tables s)(coll := rs) \<and>
        (case doc_of (bare_id coll i) (tables s coll) of
           None \<Rightarrow> row = \<lparr>d_id = bare_id coll i, d_data = body, d_created_at = now, d_updated_at = now\<rparr> \<and> rs = tables s coll @ [row]
         | Some old \<Rightarrow> row = merged now body old \<and>
             rs = map (\<lambda>r. if d_id r = bare_id coll i then merged now body r else r) (tables s coll))"
  using assms unfolding upsert_document_def
proof (cases rule: begin_cases)
  case (ok u)
  note u = ok(1)
  from ok(2) show ?thesis
  proof (cases rule: abind_cases)
    case (err e)
    then show ?thesis using pg_exec_cases [OF err(1)] u by simp
  next
    case (ok row v)
    from pg_exec_cases [OF ok(1), unfolded u] obtain body rs where
      "pg_to_jsonb env data = Inr body" "tables v = (tables s)(coll := rs)"
      "(case doc_of (bare_id coll i) (tables s coll) of
          Some r \<Rightarrow> Inr (merged now body r, map (\<lambda>r. if d_id r = bare_id coll i then merged now body r else r) (tables s coll))
        | None \<Rightarrow> (let row = \<lparr>d_id = bare_id coll i, d_data = body, d_created_at = now, d_updated_at = now\<rparr>
             in Inr (row, tables s coll @ [row]))) = (Inr (row, rs) :: string + _)"
      by (auto simp: rbind_eq_Inr)
    then show ?thesis
      using ok(2) by (intro sum.splits [THEN iffD2]) (auto simp: Let_def split: option.splits)
  qed
qed auto

lemma upsert_document_cases:
  assumes "upsert_document env now coll i data s = (r, s')"
  shows "case r of Inl _ \<Rightarrow> tables s' = tables s
    | Inr d \<Rightarrow> \<exists>row. doc_of (bare_id coll i) (tables s' coll) = Some row \<and> d = inject_document_metadata env row \<and>
        (\<forall>c. c \<noteq> coll \<longrightarrow> tables s' c = tables s c) \<and>
        (\<forall>k. k \<noteq> bare_id coll i \<longrightarrow> doc_of k (tables s' coll) = doc_of k (tables s coll))"
  using upsert_document_rows [OF assms]
  by (auto simp: doc_of_append doc_of_merge option.map_ident split: sum.splits option.splits)

lemma update_document_cas_cases:
  assumes "update_document_cas env now coll i data f expected s = (r, s')"
  shows "case r of Inl _ \<Rightarrow> tables s' = tables s
    | Inr v \<Rightarrow> \<exists>body. pg_to_jsonb env data = Inr body \<and>
        tables s' = (tables s)(coll := map (\<lambda>r. if cas_matches env (bare_id coll i) f expected r then merged now body r else r)
          (tables s coll)) \<and>
        (v = None \<longleftrightarrow> (\<forall>r \<in> set (tables s coll). \<not> cas_matches env (bare_id coll i) f expected r))"
  using assms unfolding update_document_cas_def
proof (cases rule: begin_cases)
  case (ok u)
  note u = ok(1)
  from ok(2) show ?thesis
  proof (cases rule: abind_cases)
    case (err e)
    then show ?thesis using pg_exec_cases [OF err(1)] u by simp
  next
    case (ok row v)
    then show ?thesis
      using pg_exec_cases [OF ok(1)] u by (auto simp: rbind_eq_Inr update_rows_def find_None_iff)
  qed
qed auto

lemma upsert_view:
  assumes "pg_calm coll s" "pg_to_jsonb env data = Inr body"
  shows "doc_view coll (snd (upsert_document env now coll i data s)) =
    (doc_view coll s)(bare_id coll i \<mapsto>
      (case doc_view coll s (bare_id coll i) of None \<Rightarrow> body | Some old \<Rightarrow> jsonb_concat old body))"
  unfolding upsert_document_calm [OF assms]
  by (auto simp: doc_view_def doc_of_append doc_of_merge fun_eq_iff Let_def option.map_comp comp_def split: option.split)

lemma upsert_other:
  assumes "pg_calm coll s" "pg_to_jsonb env data = Inr body" "bare_id coll j \<noteq> bare_id coll i"
  shows "doc_of (bare_id coll j) (tables (snd (upsert_document env now coll i data s)) coll) =
    doc_of (bare_id coll j) (tables s coll)"
  unfolding upsert_document_calm [OF assms(1,2)] using assms(3)
  by (auto simp: doc_of_append doc_of_merge Let_def option.map_ident split: option.split)

lemma delete_view:
  assumes "pg_calm coll s"
  shows "doc_view coll (snd (delete_document coll i s)) = (doc_view coll s)(bare_id coll i := None)"
  unfolding delete_document_calm [OF assms]
  by (auto simp: doc_view_def doc_of_filter fun_eq_iff split: option.split)

interpretation pg: document_store "pg_calm coll" "doc_view coll" "bare_id coll"
    "\<lambda>d. case pg_to_jsonb env d of Inr b \<Rightarrow> Some b | Inl _ \<Rightarrow> None"
    "get_document env coll" "upsert_document env now coll" "delete_document coll" for env now coll
proof
  fix s i d b
  assume calm: "pg_calm coll s"
  show "snd (get_document env coll i s) = s"
    by (simp add: get_document_calm [OF calm] split: option.split)
  show "is_ok (fst (get_document env coll i s)) \<longleftrightarrow> doc_view coll s (bare_id coll i) \<noteq> None"
    by (simp add: get_document_calm [OF calm] doc_view_def split: option.split)
  show "pg_calm coll (snd (delete_document coll i s))"
    using calm by (simp add: delete_document_calm [OF calm] pg_calm_def split: option.split)
  show "is_ok (fst (delete_document coll i s)) \<longleftrightarrow> doc_view coll s (bare_id coll i) \<noteq> None"
    by (simp add: delete_document_calm [OF calm] doc_view_def split: option.split)
  show "doc_view coll (snd (delete_document coll i s)) = (doc_view coll s)(bare_id coll i := None)"
    by (rule delete_view [OF calm])
  assume "(case pg_to_jsonb env d of Inr b \<Rightarrow> Some b | Inl _ \<Rightarrow> None) = Some b"
  then have enc: "pg_to_jsonb env d = Inr b" by (simp split: sum.splits)
  show "is_ok (fst (upsert_document env now coll i d s)) \<and> pg_calm coll (snd (upsert_document env now coll i d s))"
    using calm by (simp add: upsert_document_calm [OF calm enc] pg_calm_def Let_def split: option.split)
  show "doc_view coll (snd (upsert_document env now coll i d s)) = (doc_view coll s)(bare_id coll i \<mapsto>
      (case doc_view coll s (bare_id coll i) of None \<Rightarrow> b | Some old \<Rightarrow> jsonb_concat old b))"
    by (rule upsert_view [OF calm enc])
qed

definition stored_members :: "json option \<Rightarrow> json_map" where
  "stored_members v = (case v of Some (JObject m) \<Rightarrow> m | _ \<Rightarrow> [])"

lemma map_of_inject:
  "d_data r = JObject m \<Longrightarrow> f \<notin> {''id'', ''createdAt'', ''updatedAt''} \<Longrightarrow>
     jget f (inject_document_metadata env r) = map_of m f"
  by (simp add: inject_document_metadata_def jget_def)

text \<open>
  C9. With no database fault, a document written by \<open>upsert_document\<close> is read back by \<open>get_document\<close>
  with every written member, the members it had before that were not written, and the id it was
  written under; a document with another id is not affected; and after \<open>delete_document\<close> the read
  fails. So an upsert merges into a stored document, although it is documented as create or replace.
\<close>

theorem store_reads_back:
  assumes "pg_calm coll s" and "pg_to_jsonb env data = Inr (JObject b)" and "obj_ok b"
    and "doc_view coll s (bare_id coll i) = None \<or> (\<exists>m. doc_view coll s (bare_id coll i) = Some (JObject m))"
    and "bare_id coll j \<noteq> bare_id coll i"
  shows "(\<exists>v. fst (get_document env coll i (snd (upsert_document env now coll i data s))) = Inr v \<and>
      jget ''id'' v = Some (JString (bare_id coll i)) \<and>
      (\<forall>f. f \<notin> {''id'', ''createdAt'', ''updatedAt''} \<longrightarrow>
         jget f v = (map_of (stored_members (doc_view coll s (bare_id coll i))) ++ map_of b) f)) \<and>
    fst (get_document env coll j (snd (upsert_document env now coll i data s))) = fst (get_document env coll j s) \<and>
    \<not> is_ok (fst (get_document env coll i (snd (delete_document coll i s))))"
proof -
  let ?s = "snd (upsert_document env now coll i data s)"
  have enc: "(case pg_to_jsonb env data of Inr b \<Rightarrow> Some b | Inl _ \<Rightarrow> None) = Some (JObject b)" by (simp add: assms(2))
  have calm: "pg_calm coll ?s" using pg.put_ok [OF assms(1), of env data "JObject b" now i] enc by simp
  obtain r where r: "doc_of (bare_id coll i) (tables ?s coll) = Some r"
    "d_data r = JObject (obj_merge (stored_members (doc_view coll s (bare_id coll i))) b)"
  proof -
    have "doc_view coll ?s (bare_id coll i) =
        Some (case doc_view coll s (bare_id coll i) of None \<Rightarrow> JObject b | Some old \<Rightarrow> jsonb_concat old (JObject b))"
      using upsert_view [OF assms(1,2), of now i] by simp
    also have "\<dots> = Some (JObject (obj_merge (stored_members (doc_view coll s (bare_id coll i))) b))"
      using assms(3,4) fold_obj_insert_sorted [of "[]" b] by (auto simp: stored_members_def obj_merge_def)
    finally show thesis using that by (auto simp: doc_view_def)
  qed
  have "fst (get_document env coll i ?s) = Inr (inject_document_metadata env r)"
    by (simp add: get_document_calm [OF calm] r)
  moreover have "jget ''id'' (inject_document_metadata env r) = Some (JString (bare_id coll i))"
    using doc_of_id [OF r(1)] by (simp add: inject_document_metadata_def r(2) jget_def)
  moreover have "fst (get_document env coll j ?s) = fst (get_document env coll j s)"
    using upsert_other [OF assms(1,2,5)] by (simp add: get_document_calm [OF calm] get_document_calm [OF assms(1)] split: option.split)
  ultimately show ?thesis
    using map_of_inject [OF r(2)] map_of_obj_merge [OF assms(3)] pg.get_after_del [OF assms(1)] by auto
qed

definition sample_pg :: pg_env where
  "sample_pg = \<lparr>pg_to_jsonb = Inr, pg_rfc3339 = int_to_string, pg_value_text = json_to_string (\<lambda>_. ''0.5'')\<rparr>"

definition sample_store :: pg_state where
  "sample_store = \<lparr>tables = (\<lambda>_. [])(''orders'' := [\<lparr>d_id = ''o1'', d_data = JObject [(''status'', JString ''paid'')],
     d_created_at = 1, d_updated_at = 1\<rparr>]), pg_faults = []\<rparr>"

lemma orders_safe [simp]: "safe_identifier ''orders''"
  by (simp add: safe_identifier_def ident_char_def ascii_defs)

lemma sample_store_calm [simp]: "pg_calm ''orders'' sample_store"
  by (simp add: pg_calm_def sample_store_def)

lemma sample_bare [simp]: "bare_id ''orders'' ''o1'' = ''o1''" "bare_id ''orders'' ''o2'' = ''o2''"
  by (simp_all add: bare_id_def strip_prefix_def starts_with_def)

lemma sample_view: "doc_view ''orders'' sample_store ''o1'' = Some (JObject [(''status'', JString ''paid'')])"
  by (simp add: doc_view_def sample_store_def doc_of_def)

theorem store_reads_back_witness:
  "\<exists>v. fst (get_document sample_pg ''orders'' ''o1''
      (snd (upsert_document sample_pg 5 ''orders'' ''o1'' (JObject [(''total'', JNull)]) sample_store))) = Inr v \<and>
    jget ''status'' v = Some (JString ''paid'') \<and> jget ''total'' v = Some JNull"
proof -
  let ?s = "snd (upsert_document sample_pg 5 ''orders'' ''o1'' (JObject [(''total'', JNull)]) sample_store)"
  obtain v where v: "fst (get_document sample_pg ''orders'' ''o1'' ?s) = Inr v"
    "\<And>f. f \<notin> {''id'', ''createdAt'', ''updatedAt''} \<Longrightarrow>
       jget f v = (map_of [(''status'', JString ''paid'')] ++ map_of [(''total'', JNull)]) f"
    using store_reads_back [OF sample_store_calm, of sample_pg "JObject [(''total'', JNull)]" "[(''total'', JNull)]" "''o1''" "''o2''" 5]
    by (auto simp: sample_pg_def obj_ok_def sample_view stored_members_def)
  then show ?thesis using v(2) [of "''status''"] v(2) [of "''total''"] by (intro exI [of _ v]) simp
qed

subsection \<open>Compare and swap\<close>

lemma update_document_cas_calm:
  assumes "pg_calm coll s" "pg_to_jsonb env data = Inr body"
  shows "fst (update_document_cas env now coll i data f expected s) = Inr None \<longleftrightarrow>
      (\<forall>r \<in> set (tables s coll). \<not> cas_matches env (bare_id coll i) f expected r)"
    and "is_ok (fst (update_document_cas env now coll i data f expected s))"
    and "snd (update_document_cas env now coll i data f expected s) =
      s\<lparr>tables := (tables s)(coll := map (\<lambda>r. if cas_matches env (bare_id coll i) f expected r then merged now body r else r)
        (tables s coll))\<rparr>"
  using assms unfolding update_document_cas_def begin_calm [OF assms(1)]
  by (simp_all add: abind_def pg_exec_calm pg_calm_def update_rows_def find_None_iff Ball_def)

lemma member_after_merge:
  assumes "sql_eq (member_text env f (d_data r)) (jsonb_text env expected)" "obj_ok b" "map_of b f = Some nv"
  shows "member_text env f (d_data (merged now (JObject b) r)) = jsonb_text env nv"
proof -
  obtain m where "d_data r = JObject m"
    using assms(1) by (cases "d_data r") (auto simp: sql_eq_def member_text_def jget_def)
  then show ?thesis using assms(2,3) by (simp add: member_text_def jget_def map_of_obj_merge)
qed

text \<open>
  Compare-and-swap lets one caller win: once a swap has changed the checked member to a value
  with another text, a second swap that expects the old value, whatever it wants to write,
  changes nothing and reports that it lost.
\<close>

theorem cas_has_one_winner:
  assumes "pg_calm coll s" and "pg_to_jsonb env data = Inr (JObject b)" and "obj_ok b"
    and "map_of b f = Some nv" and "jsonb_text env nv \<noteq> jsonb_text env expected"
    and "fst (update_document_cas env now coll i data f expected s) \<noteq> Inr None"
    and "s' = snd (update_document_cas env now coll i data f expected s)"
    and "pg_to_jsonb env data' = Inr body'"
  shows "update_document_cas env now' coll i data' f expected s' = (Inr None, s')"
proof -
  have calm: "pg_calm coll s'"
    using assms(1,7) update_document_cas_calm(3) [OF assms(1,2)] by (simp add: pg_calm_def)
  have no: "\<not> cas_matches env (bare_id coll i) f expected r" if mem: "r \<in> set (tables s' coll)" for r
  proof -
    have "tables s' coll =
        map (\<lambda>r. if cas_matches env (bare_id coll i) f expected r then merged now (JObject b) r else r) (tables s coll)"
      using assms(7) update_document_cas_calm(3) [OF assms(1,2), of now i f expected] by simp
    with mem have "r \<in> (\<lambda>r. if cas_matches env (bare_id coll i) f expected r then merged now (JObject b) r else r) ` set (tables s coll)"
      by (simp only: set_map)
    then obtain r0
      where r: "r = (if cas_matches env (bare_id coll i) f expected r0 then merged now (JObject b) r0 else r0)"
      by (rule imageE)
    show ?thesis
    proof (cases "cas_matches env (bare_id coll i) f expected r0")
      case True
      then have "member_text env f (d_data r) = jsonb_text env nv"
        using r member_after_merge [OF _ assms(3,4), of env r0 expected now] by (simp add: cas_matches_def)
      with assms(5) show ?thesis by (auto simp: cas_matches_def sql_eq_def split: option.splits)
    qed (use r in simp)
  qed
  let ?u = "update_document_cas env now' coll i data' f expected s'"
  have "fst ?u = Inr None" using update_document_cas_calm(1) [OF calm assms(8)] no by blast
  moreover have "map (\<lambda>r. if cas_matches env (bare_id coll i) f expected r then merged now' body' r else r) (tables s' coll) =
      tables s' coll"
    using no by (intro map_idI) auto
  then have "snd ?u = s'" using update_document_cas_calm(3) [OF calm assms(8)] by simp
  ultimately show ?thesis by (simp add: prod_eq_iff)
qed

theorem cas_has_one_winner_witness:
  "update_document_cas sample_pg 7 ''orders'' ''o1'' (JObject [(''status'', JString ''cancelled'')]) ''status'' (JString ''paid'')
     (snd (update_document_cas sample_pg 6 ''orders'' ''o1'' (JObject [(''status'', JString ''shipped'')]) ''status'' (JString ''paid'') sample_store)) =
   (Inr None, snd (update_document_cas sample_pg 6 ''orders'' ''o1'' (JObject [(''status'', JString ''shipped'')]) ''status'' (JString ''paid'') sample_store))"
proof (rule cas_has_one_winner [OF sample_store_calm, where nv = "JString ''shipped''"])
  show "pg_to_jsonb sample_pg (JObject [(''status'', JString ''shipped'')]) = Inr (JObject [(''status'', JString ''shipped'')])"
    "pg_to_jsonb sample_pg (JObject [(''status'', JString ''cancelled'')]) = Inr (JObject [(''status'', JString ''cancelled'')])"
    by (simp_all add: sample_pg_def)
  then show "fst (update_document_cas sample_pg 6 ''orders'' ''o1'' (JObject [(''status'', JString ''shipped'')]) ''status''
      (JString ''paid'') sample_store) \<noteq> Inr None"
    by (subst update_document_cas_calm(1) [OF sample_store_calm])
      (auto simp: sample_store_def cas_matches_def member_text_def jget_def jsonb_text_def sql_eq_def)
qed (simp_all add: obj_ok_def jsonb_text_def)

subsection \<open>Listing\<close>

lemma list_documents_calm:
  assumes "pg_calm coll s" "n \<le> 10000" "off < 2 ^ 63"
  shows "list_documents env coll (Some n) (Some off) s =
    (Inr (map (inject_document_metadata env) (take n (drop off (newest_first (tables s coll))))), s)"
proof -
  have "wrap_i64 (int off) = int off" using assms(3) by (simp add: i64_range_def)
  then show ?thesis
    using assms unfolding list_documents_def begin_calm [OF assms(1)]
    by (simp add: Let_def pg_exec_calm pg_calm_def min_def)
qed

subsection \<open>Named parameters that are prefixes of one another\<close>

lemma replace_str_no_dollar: "CHR ''$'' \<notin> set t \<Longrightarrow> replace_str (CHR ''$'' # p) rep t = t"
  by (induction t) (auto simp: starts_with_def)

lemma safe_no_dollar: "safe_identifier n \<Longrightarrow> CHR ''$'' \<notin> set n"
  using safe_identifier_chars [of n "CHR ''$''"] by (auto simp: ascii_defs)

text \<open>
  Parameters are substituted by plain text replacement in key order, so a parameter whose name
  extends another parameter's name is never bound: in a statement that mentions \<open>$n2\<close> where \<open>n2\<close>
  extends \<open>n1\<close>, the text becomes \<open>$1\<close> followed by the rest of the name, and the second value is
  referred to nowhere.
\<close>

theorem prefix_parameters_clash:
  assumes "safe_identifier n1" and "n2 = n1 @ suf" and "suf \<noteq> []" and "list_all ident_char suf"
  shows "named_to_positional (CHR ''$'' # n2) (JObject [(n1, v1), (n2, v2)]) = Inr (''$1'' @ suf, [v1, v2])"
proof -
  have d: "CHR ''$'' \<notin> set n1" "CHR ''$'' \<notin> set suf"
    using safe_no_dollar [OF assms(1)] assms(4) by (auto simp: list_all_iff ident_char_def ascii_defs)
  have one: "nat_to_string (Suc 0) = ''1''" by code_simp
  have "starts_with (CHR ''$'' # n1) (CHR ''$'' # n2)" by (simp add: starts_with_def assms(2))
  then have first: "replace_str (CHR ''$'' # n1) ''$1'' (CHR ''$'' # n2) = ''$1'' @ suf"
    using replace_str_no_dollar [OF d(2)] by (simp add: assms(2))
  obtain c cs where c: "n1 = c # cs" using assms(1) by (cases n1) (auto simp: safe_identifier_def)
  with assms(1) have "c \<noteq> CHR ''1''" by (auto simp: safe_identifier_def ascii_defs)
  then have "\<not> starts_with (CHR ''$'' # n2) (''$1'' @ suf)" by (simp add: starts_with_def assms(2) c)
  then have "replace_str (CHR ''$'' # n2) rep (''$1'' @ suf) = ''$1'' @ suf" for rep
    using replace_str_no_dollar [of "CHR ''1'' # suf"] d(2) by simp
  with first show ?thesis by (simp add: named_to_positional_def one del: replace_str.simps)
qed

theorem prefix_parameters_clash_witness:
  "named_to_positional ''$userId'' (JObject [(''user'', JString ''a''), (''userId'', JString ''b'')]) =
     Inr (''$1Id'', [JString ''a'', JString ''b''])"
  using prefix_parameters_clash [of "''user''" "''userId''" "''Id''" "JString ''a''" "JString ''b''"]
  by (simp add: safe_identifier_def ident_char_def ascii_defs)

end
