(* ===== verification/Auth_Tokens.thy ===== *)
theory Auth_Tokens
  imports Pg_Store
begin

text \<open>
  Tokens and sessions of the authentication service: issuing and verifying tokens
  (\<open>crates/ob-auth/src/jwt.rs\<close>), the extraction of a caller's identity (\<open>middleware.rs\<close>), token
  revocation (\<open>revocation.rs\<close>) and the \<open>refresh\<close> and \<open>logout\<close> handlers (\<open>routes.rs\<close>) on the PostgreSQL
  store. Signing and checking a token is done by the \<open>jsonwebtoken\<close> crate and hashing by \<open>sha2\<close>:
  they are the fields of \<open>auth_lib\<close>. Clock readings are inputs.
\<close>

record Claims =
  c_sub :: string
  c_iat :: int
  c_exp :: int
  c_roles :: "string list"
  c_typ :: string
  c_email_verified :: bool
  c_mfa_required :: bool
  c_custom_claims :: json

datatype Algorithm = RS256 | HS256

text \<open>Encoding and decoding keys are whatever the library made of the PEM text or the secret.\<close>

datatype JwtKeys =
    Rsa (encoding: string) (decoding: string) (previous_decoding: "string list")
  | Hmac (secret: string)

record auth_lib =
  al_encode :: "Algorithm \<Rightarrow> string \<Rightarrow> Claims \<Rightarrow> string + string"
  al_decode :: "Algorithm \<Rightarrow> string \<Rightarrow> nat \<Rightarrow> int \<Rightarrow> string \<Rightarrow> string + Claims"
  al_private_pem :: "string \<Rightarrow> string + string"
  al_public_pem :: "string \<Rightarrow> string + string"
  al_secret_key :: "string \<Rightarrow> string"
  al_sha256_hex :: "string \<Rightarrow> string"

subsection \<open>Keys\<close>

definition from_rsa_pem :: "auth_lib \<Rightarrow> string \<Rightarrow> string \<Rightarrow> JwtKeys ob_result" where
  "from_rsa_pem lib private_pem public_pem =
     rbind (map_err (\<lambda>e. Auth (''Invalid RSA private key: '' @ e)) (al_private_pem lib private_pem)) (\<lambda>enc.
     rbind (map_err (\<lambda>e. Auth (''Invalid RSA public key: '' @ e)) (al_public_pem lib public_pem)) (\<lambda>dec.
       Inr (Rsa enc dec [])))"

definition from_rsa_pem_with_rotation :: "auth_lib \<Rightarrow> string \<Rightarrow> string \<Rightarrow> string list \<Rightarrow> JwtKeys ob_result" where
  "from_rsa_pem_with_rotation lib private_pem public_pem previous_public_pems =
     rbind (map_err (\<lambda>e. Auth (''Invalid RSA private key: '' @ e)) (al_private_pem lib private_pem)) (\<lambda>enc.
     rbind (map_err (\<lambda>e. Auth (''Invalid RSA public key: '' @ e)) (al_public_pem lib public_pem)) (\<lambda>dec.
     rbind (rmap (\<lambda>prev. map_err (\<lambda>e. Auth (''Invalid RSA previous public key: '' @ e)) (al_public_pem lib prev))
              previous_public_pems) (\<lambda>prevs.
       Inr (Rsa enc dec prevs))))"

definition from_secret :: "string \<Rightarrow> JwtKeys" where
  "from_secret s = Hmac s"

fun jwt_header :: "JwtKeys \<Rightarrow> Algorithm" where
  "jwt_header (Rsa _ _ _) = RS256"
| "jwt_header (Hmac _) = HS256"

fun encoding_key :: "auth_lib \<Rightarrow> JwtKeys \<Rightarrow> string" where
  "encoding_key lib (Rsa enc _ _) = enc"
| "encoding_key lib (Hmac s) = al_secret_key lib s"

text \<open>The algorithm and the leeway in seconds that a token is checked with.\<close>

fun jwt_validation :: "JwtKeys \<Rightarrow> Algorithm \<times> nat" where
  "jwt_validation (Rsa _ _ _) = (RS256, 30)"
| "jwt_validation (Hmac _) = (HS256, 30)"

fun decoding_key :: "auth_lib \<Rightarrow> JwtKeys \<Rightarrow> string" where
  "decoding_key lib (Rsa _ dec _) = dec"
| "decoding_key lib (Hmac s) = al_secret_key lib s"

fun previous_decoding_keys :: "JwtKeys \<Rightarrow> string list" where
  "previous_decoding_keys (Rsa _ _ prevs) = prevs"
| "previous_decoding_keys (Hmac _) = []"

subsection \<open>Issuing tokens\<close>

text \<open>\<open>now + ttl_secs as i64\<close>, with the wrap-around of a 64-bit addition.\<close>

definition expiry_at :: "int \<Rightarrow> nat \<Rightarrow> int" where
  "expiry_at now ttl_secs = wrap_i64 (now + wrap_i64 (int ttl_secs))"

definition issue :: "string \<Rightarrow> auth_lib \<Rightarrow> JwtKeys \<Rightarrow> Claims \<Rightarrow> string ob_result" where
  "issue prefx lib keys claims =
     map_err (\<lambda>e. Auth (prefx @ e)) (al_encode lib (jwt_header keys) (encoding_key lib keys) claims)"

definition plain_claims :: "string \<Rightarrow> int \<Rightarrow> int \<Rightarrow> string \<Rightarrow> Claims" where
  "plain_claims user now expires typ =
     \<lparr>c_sub = user, c_iat = now, c_exp = expires, c_roles = [], c_typ = typ, c_email_verified = False,
      c_mfa_required = False, c_custom_claims = JNull\<rparr>"

definition issue_access_token_with_claims ::
  "auth_lib \<Rightarrow> int \<Rightarrow> string \<Rightarrow> string list \<Rightarrow> JwtKeys \<Rightarrow> nat \<Rightarrow> bool \<Rightarrow> json \<Rightarrow> string ob_result" where
  "issue_access_token_with_claims lib now user rls keys ttl_secs verified custom =
     issue ''Token creation failed: '' lib keys
       \<lparr>c_sub = user, c_iat = now, c_exp = expiry_at now ttl_secs, c_roles = rls, c_typ = ''access'',
        c_email_verified = verified, c_mfa_required = False, c_custom_claims = custom\<rparr>"

definition issue_access_token :: "auth_lib \<Rightarrow> int \<Rightarrow> string \<Rightarrow> string list \<Rightarrow> JwtKeys \<Rightarrow> nat \<Rightarrow> bool \<Rightarrow> string ob_result" where
  "issue_access_token lib now user rls keys ttl_secs verified =
     issue_access_token_with_claims lib now user rls keys ttl_secs verified JNull"

definition issue_refresh_token :: "auth_lib \<Rightarrow> int \<Rightarrow> string \<Rightarrow> JwtKeys \<Rightarrow> nat \<Rightarrow> string ob_result" where
  "issue_refresh_token lib now user keys ttl_secs =
     issue ''Refresh token creation failed: '' lib keys (plain_claims user now (expiry_at now ttl_secs) ''refresh'')"

definition issue_verification_token :: "auth_lib \<Rightarrow> int \<Rightarrow> string \<Rightarrow> JwtKeys \<Rightarrow> string ob_result" where
  "issue_verification_token lib now user keys =
     issue ''Verification token creation failed: '' lib keys (plain_claims user now (now + 86400) ''email_verify'')"

definition issue_reset_token :: "auth_lib \<Rightarrow> int \<Rightarrow> string \<Rightarrow> JwtKeys \<Rightarrow> string ob_result" where
  "issue_reset_token lib now user keys =
     issue ''Reset token creation failed: '' lib keys (plain_claims user now (now + 3600) ''password_reset'')"

definition issue_magic_link_token :: "auth_lib \<Rightarrow> int \<Rightarrow> string \<Rightarrow> JwtKeys \<Rightarrow> string ob_result" where
  "issue_magic_link_token lib now user keys =
     issue ''Magic link token creation failed: '' lib keys (plain_claims user now (now + 900) ''magic_link'')"

definition issue_challenge_token :: "auth_lib \<Rightarrow> int \<Rightarrow> string \<Rightarrow> JwtKeys \<Rightarrow> string ob_result" where
  "issue_challenge_token lib now user keys =
     issue ''Challenge token creation failed: '' lib keys
       ((plain_claims user now (now + 300) ''mfa_challenge'')\<lparr>c_mfa_required := True\<rparr>)"

definition verify_token :: "auth_lib \<Rightarrow> int \<Rightarrow> string \<Rightarrow> JwtKeys \<Rightarrow> Claims ob_result" where
  "verify_token lib now token keys =
     (let (alg, leeway) = jwt_validation keys
      in case al_decode lib alg (decoding_key lib keys) leeway now token of
           Inr claims \<Rightarrow> Inr claims
         | Inl _ \<Rightarrow>
             (case previous_decoding_keys keys of
                prev # _ \<Rightarrow>
                  (case al_decode lib alg prev leeway now token of
                     Inr claims \<Rightarrow> Inr claims
                   | Inl _ \<Rightarrow> Inl (Auth ''Token verification failed''))
              | [] \<Rightarrow> Inl (Auth ''Token verification failed'')))"

subsection \<open>The caller's identity\<close>

record AuthContext =
  au_user_id :: string
  au_roles :: "string list"
  au_authenticated :: bool
  au_email_verified :: bool
  au_custom_claims :: json

definition anonymous_auth :: AuthContext where
  "anonymous_auth = \<lparr>au_user_id = [], au_roles = [], au_authenticated = False, au_email_verified = False,
     au_custom_claims = JNull\<rparr>"

definition from_claims :: "Claims \<Rightarrow> AuthContext" where
  "from_claims c = \<lparr>au_user_id = c_sub c, au_roles = c_roles c, au_authenticated = True,
     au_email_verified = c_email_verified c, au_custom_claims = c_custom_claims c\<rparr>"

definition has_role :: "AuthContext \<Rightarrow> string \<Rightarrow> bool" where
  "has_role ctx role \<longleftrightarrow> role \<in> set (au_roles ctx)"

text \<open>
  The middleware: the header is \<open>None\<close> when absent and \<open>Some None\<close> when it is not text. The result
  is the context the request continues with, or the error it is answered with.
\<close>

definition auth_extractor ::
  "auth_lib \<Rightarrow> int \<Rightarrow> bool \<Rightarrow> JwtKeys option \<Rightarrow> string option option \<Rightarrow> AuthContext ob_result" where
  "auth_extractor lib now test_mode jwt_keys header =
     (case header of
        None \<Rightarrow> Inr anonymous_auth
      | Some None \<Rightarrow> Inl (Auth ''Invalid Authorization header'')
      | Some (Some header_str) \<Rightarrow>
          (case strip_prefix ''Bearer '' header_str of
             Some token \<Rightarrow>
               (case jwt_keys of
                  Some keys \<Rightarrow>
                    (case verify_token lib now token keys of
                       Inr claims \<Rightarrow>
                         if c_typ claims = ''access'' then Inr (from_claims claims)
                         else if test_mode then Inr anonymous_auth
                         else Inl (Auth ''Invalid token type'')
                     | Inl _ \<Rightarrow>
                         if test_mode then Inr anonymous_auth
                         else Inl (Auth ''Invalid or expired token''))
                | None \<Rightarrow>
                    if test_mode then Inr anonymous_auth
                    else Inl (Auth ''JWT validation keys not configured''))
           | None \<Rightarrow>
               if test_mode then Inr anonymous_auth
               else Inl (Auth ''Invalid Authorization header format'')))"

subsection \<open>Revocation\<close>

text \<open>\<open>s.parse::<i64>()\<close>.\<close>

definition parse_i64 :: "string \<Rightarrow> int option" where
  "parse_i64 s =
     (case s of
        CHR ''-'' # ds \<Rightarrow>
          if ds = [] then None
          else (case digits_value 0 ds of Some n \<Rightarrow> if n \<le> 2 ^ 63 then Some (- int n) else None | None \<Rightarrow> None)
      | _ \<Rightarrow> map_option int (parse_unsigned (2 ^ 63) s))"

definition REVOKED_TABLE :: string where "REVOKED_TABLE = ''_revoked_tokens''"

definition ensure_revoked_tokens_table :: "unit pg_action" where
  "ensure_revoked_tokens_table =
     pg_exec ''Failed to ensure _revoked_tokens table: '' REVOKED_TABLE (\<lambda>rs. Inr ((), rs))"

definition revocation_doc :: "string \<Rightarrow> int \<Rightarrow> string \<Rightarrow> json" where
  "revocation_doc token_hash expires_at revoked_at =
     json_obj [(''hash'', JString token_hash), (''expiresAt'', json_int expires_at), (''revokedAt'', JString revoked_at)]"

definition revoke_token :: "auth_lib \<Rightarrow> pg_env \<Rightarrow> int \<Rightarrow> string \<Rightarrow> nat \<Rightarrow> unit pg_action" where
  "revoke_token lib env now token ttl_secs =
     (let token_hash = al_sha256_hex lib token in
      abind ensure_revoked_tokens_table (\<lambda>_.
      abind (amap_err (\<lambda>e. Internal (''Failed to revoke token: '' @ error_to_string e))
        (upsert_document env now REVOKED_TABLE token_hash
           (revocation_doc token_hash (expiry_at now ttl_secs) (pg_rfc3339 env now)))) (\<lambda>_.
        areturn ())))"

definition latest_revocation :: "pg_env \<Rightarrow> string \<Rightarrow> doc_row list \<Rightarrow> doc_row option" where
  "latest_revocation env token_hash rs =
     (case sort_key (\<lambda>r. - d_updated_at r) (filter (\<lambda>r. sql_eq (member_text env ''hash'' (d_data r)) (Some token_hash)) rs) of
        [] \<Rightarrow> None | r # _ \<Rightarrow> Some r)"

definition is_token_revoked :: "auth_lib \<Rightarrow> pg_env \<Rightarrow> int \<Rightarrow> string \<Rightarrow> bool pg_action" where
  "is_token_revoked lib env now token =
     (let token_hash = al_sha256_hex lib token in
      abind ensure_revoked_tokens_table (\<lambda>_.
      abind (pg_exec ''Failed to load revoked token: '' REVOKED_TABLE (\<lambda>rs.
        Inr (latest_revocation env token_hash rs, rs))) (\<lambda>row.
        areturn (case Option.bind (Option.bind row (\<lambda>r. member_text env ''expiresAt'' (d_data r))) parse_i64 of
            Some expires_at \<Rightarrow> now < expires_at
          | None \<Rightarrow> False))))"

text \<open>\<open>COALESCE(NULLIF(data->>'expiresAt', ''), '0')::bigint\<close>; the cast is the parameter \<open>bigint\<close>.\<close>

definition expires_bigint :: "(string \<Rightarrow> string + int) \<Rightarrow> pg_env \<Rightarrow> doc_row \<Rightarrow> string + int" where
  "expires_bigint bigint env r =
     bigint (case member_text env ''expiresAt'' (d_data r) of
               None \<Rightarrow> ''0'' | Some t \<Rightarrow> if t = [] then ''0'' else t)"

definition cleanup_revoked_tokens :: "(string \<Rightarrow> string + int) \<Rightarrow> pg_env \<Rightarrow> int \<Rightarrow> nat pg_action" where
  "cleanup_revoked_tokens bigint env now =
     abind ensure_revoked_tokens_table (\<lambda>_.
       pg_exec ''Failed to cleanup revoked tokens: '' REVOKED_TABLE (\<lambda>rs.
         rbind (rmap (expires_bigint bigint env) rs) (\<lambda>ts.
           let kept = map snd (filter (\<lambda>(t, r). \<not> t < now) (zip ts rs))
           in Inr (length rs - length kept, kept))))"

subsection \<open>Refresh and logout\<close>

record AuthState =
  as_keys :: JwtKeys
  as_access_ttl :: nat
  as_refresh_ttl :: nat

definition ensure_user_not_disabled :: "json \<Rightarrow> unit ob_result" where
  "ensure_user_not_disabled user =
     (if jget_bool ''disabled'' user = Some True then Inl (Auth ''Account is disabled'') else Inr ())"

text \<open>\<open>SELECT * FROM users WHERE id = $uid\<close> through \<open>query_bind\<close>, whose table check only warns.\<close>

definition find_user :: "pg_env \<Rightarrow> string \<Rightarrow> json option pg_action" where
  "find_user env uid =
     abind (atry (ensure_table ''users'')) (\<lambda>_.
       pg_exec ''Query failed: '' ''users'' (\<lambda>rs.
         Inr (map_option (inject_document_metadata env) (doc_of uid rs), rs)))"

definition refresh_check :: "auth_lib \<Rightarrow> pg_env \<Rightarrow> AuthState \<Rightarrow> int \<Rightarrow> string \<Rightarrow> (Claims \<times> json) pg_action" where
  "refresh_check lib env st now token =
     abind (alift (verify_token lib now token (as_keys st))) (\<lambda>claims.
     if c_typ claims \<noteq> ''refresh'' then athrow (Auth ''Invalid token type'')
     else
       abind (is_token_revoked lib env now token) (\<lambda>revoked.
       if revoked then athrow (Auth ''Token has been revoked'')
       else
         abind (find_user env (last (split_on CHR '':'' (c_sub claims)))) (\<lambda>found.
         abind (alift (ok_or (Auth ''User not found'') found)) (\<lambda>user.
         abind (alift (ensure_user_not_disabled user)) (\<lambda>_.
           (case jget_i64 ''password_changed_at'' user of
              Some pw_changed \<Rightarrow>
                if c_iat claims < pw_changed
                then athrow (Auth ''Session invalidated by password change. Please log in again.'')
                else areturn (claims, user)
            | None \<Rightarrow> areturn (claims, user)))))))"

definition user_roles :: "json \<Rightarrow> string list" where
  "user_roles user = (case jget_array ''roles'' user of Some arr \<Rightarrow> List.map_filter as_str arr | None \<Rightarrow> [])"

definition refresh_issue :: "auth_lib \<Rightarrow> AuthState \<Rightarrow> int \<Rightarrow> Claims \<Rightarrow> json \<Rightarrow> json ob_result" where
  "refresh_issue lib st now claims user =
     rbind (issue_access_token_with_claims lib now (c_sub claims) (user_roles user) (as_keys st) (as_access_ttl st)
              (jget_bool ''email_verified'' user = Some True)
              (case jget ''custom_claims'' user of Some v \<Rightarrow> v | None \<Rightarrow> JNull)) (\<lambda>access_token.
     rbind (issue_refresh_token lib now (c_sub claims) (as_keys st) (as_refresh_ttl st)) (\<lambda>new_refresh_token.
       Inr (json_obj [(''access_token'', JString access_token), (''refresh_token'', JString new_refresh_token)])))"

text \<open>
  The advisory lock of a refresh belongs to an open transaction: it is taken before anything is
  checked and freed when the transaction commits, or is dropped on an error.
\<close>

record refresh_db =
  rd_store :: pg_state
  rd_locks :: "int list"

definition on_store :: "'a pg_action \<Rightarrow> (refresh_db, ob_error, 'a) action" where
  "on_store a d = (case a (rd_store d) of (r, s) \<Rightarrow> (r, d\<lparr>rd_store := s\<rparr>))"

text \<open>The first eight bytes of the hash as a big-endian signed integer.\<close>

definition hex_value :: "char \<Rightarrow> nat" where
  "hex_value c = (if is_ascii_digit c then byte c - 48 else byte c - 87)"

definition rotation_lock_key :: "auth_lib \<Rightarrow> string \<Rightarrow> int" where
  "rotation_lock_key lib token =
     wrap_i64 (int (fold (\<lambda>c n. 16 * n + hex_value c) (take 16 (al_sha256_hex lib token)) 0))"

definition acquire_refresh_rotation_lock :: "auth_lib \<Rightarrow> string \<Rightarrow> (refresh_db, ob_error, int) action" where
  "acquire_refresh_rotation_lock lib token =
     (let key = rotation_lock_key lib token in
      abind (on_store (pg_exec ''Failed to begin refresh lock transaction: '' [] (\<lambda>rs. Inr ((), rs)))) (\<lambda>_.
      abind (on_store (pg_exec ''Failed to acquire refresh lock: '' [] (\<lambda>rs. Inr ((), rs)))) (\<lambda>_. \<lambda>d.
        if key \<in> set (rd_locks d)
        then (Inl (Auth ''Refresh token is already being rotated. Please retry.''), d)
        else (Inr key, d\<lparr>rd_locks := key # rd_locks d\<rparr>))))"

definition refresh :: "auth_lib \<Rightarrow> pg_env \<Rightarrow> AuthState \<Rightarrow> int \<Rightarrow> string \<Rightarrow> (refresh_db, ob_error, json) action" where
  "refresh lib env st now token =
     abind (acquire_refresh_rotation_lock lib token) (\<lambda>key. \<lambda>d.
       case abind (on_store (refresh_check lib env st now token)) (\<lambda>(claims, user).
            abind (alift (refresh_issue lib st now claims user)) (\<lambda>response.
            abind (on_store (revoke_token lib env now token (as_refresh_ttl st))) (\<lambda>_.
            abind (on_store (pg_exec ''Failed to release refresh lock transaction: '' [] (\<lambda>rs. Inr ((), rs)))) (\<lambda>_.
              areturn response)))) d
       of (r, d') \<Rightarrow> (r, d'\<lparr>rd_locks := remove1 key (rd_locks d')\<rparr>))"

definition logout :: "auth_lib \<Rightarrow> pg_env \<Rightarrow> AuthState \<Rightarrow> int \<Rightarrow> string \<Rightarrow> json pg_action" where
  "logout lib env st now token =
     (if token = [] then athrow (Auth ''Refresh token is required'')
      else abind (revoke_token lib env now token (as_refresh_ttl st)) (\<lambda>_.
             areturn (json_obj [(''message'', JString ''Logged out successfully'')])))"

subsection \<open>What revocation relies on\<close>

text \<open>
  The documented behaviour of the libraries on the documents of the revocation table: SHA-256 hashes
  are written in lower-case hexadecimal, the database stores such a document unchanged as jsonb,
  \<open>->>\<close> of an integer is its decimal form, and the cast to \<open>bigint\<close> reads that form back.
\<close>

definition hex_string :: "string \<Rightarrow> bool" where
  "hex_string s \<longleftrightarrow> list_all (\<lambda>c. is_ascii_digit c \<or> (CHR ''a'' \<le> c \<and> c \<le> CHR ''f'')) s"

definition revocation_libs :: "auth_lib \<Rightarrow> pg_env \<Rightarrow> bool" where
  "revocation_libs lib env \<longleftrightarrow>
     (\<forall>t. hex_string (al_sha256_hex lib t)) \<and>
     (\<forall>t e w. pg_to_jsonb env (revocation_doc (al_sha256_hex lib t) e w) = Inr (revocation_doc (al_sha256_hex lib t) e w)) \<and>
     (\<forall>i. pg_value_text env (json_int i) = int_to_string i)"

definition bigint_cast :: "(string \<Rightarrow> string + int) \<Rightarrow> bool" where
  "bigint_cast bigint \<longleftrightarrow> (\<forall>i. i64_range i \<longrightarrow> bigint (int_to_string i) = Inr i)"

lemma minus_not_digit: "\<not> is_ascii_digit (CHR ''-'')"
  by (simp add: is_ascii_digit_def byte_def)

lemma digits_value_chars: "digits_value acc s = Some n \<Longrightarrow> c \<in> set s \<Longrightarrow> is_ascii_digit c"
  by (induction acc s rule: digits_value.induct) (auto split: if_splits)

text \<open>What parses is a sign or not and digits, and the value has 64 bits.\<close>

lemma parse_i64_cases:
  assumes "parse_i64 s = Some n"
  shows "i64_range n \<and> (\<forall>c \<in> set s. is_ascii_digit c \<or> c = CHR ''+'' \<or> c = CHR ''-'')"
proof -
  have "(\<exists>ds k. s = CHR ''-'' # ds \<and> digits_value 0 ds = Some k \<and> k \<le> 2 ^ 63 \<and> n = - int k) \<or>
      (\<exists>k. parse_unsigned (2 ^ 63) s = Some k \<and> n = int k)"
    using assms by (cases s) (auto simp: parse_i64_def split: char.splits bool.splits option.splits if_splits)
  then show ?thesis
  proof (elim disjE exE conjE)
    fix k
    assume k: "parse_unsigned (2 ^ 63) s = Some k" "n = int k"
    then have "\<forall>c \<in> set s. is_ascii_digit c \<or> c = CHR ''+''"
      by (cases s) (auto simp: parse_unsigned_def Let_def dest: digits_value_chars split: if_splits option.splits)
    then show ?thesis using k parse_unsigned_lt [OF k(1)] by (auto simp: i64_range_def)
  qed (auto simp: i64_range_def dest: digits_value_chars)
qed

lemma parse_i64_int_to_string: "i64_range i \<Longrightarrow> parse_i64 (int_to_string i) = Some i"
proof (cases "0 \<le> i")
  case True
  assume "i64_range i"
  with True have n: "nat i < 2 ^ 63" by (simp add: i64_range_def)
  obtain c cs where s: "nat_to_string (nat i) = c # cs" by (cases "nat_to_string (nat i)") auto
  have "c \<noteq> CHR ''-''" using nat_to_string_digits [of c "nat i"] s minus_not_digit by auto
  then have "parse_i64 (nat_to_string (nat i)) = map_option int (parse_unsigned (2 ^ 63) (nat_to_string (nat i)))"
    unfolding s parse_i64_def by (cases c) (auto split: list.split char.split bool.split)
  then show ?thesis using True parse_unsigned_roundtrip [OF n] by (simp add: int_to_string_def)
next
  case False
  assume "i64_range i"
  with False show ?thesis
    by (auto simp: parse_i64_def int_to_string_def digits_value_nat_to_string i64_range_def)
qed

lemma revoked_table_safe [simp]: "safe_identifier REVOKED_TABLE"
  by (simp add: REVOKED_TABLE_def safe_identifier_def ident_char_def ascii_defs)

lemma hash_bare_id [simp]:
  assumes "revocation_libs lib env"
  shows "bare_id REVOKED_TABLE (al_sha256_hex lib t) = al_sha256_hex lib t"
proof -
  have "hex_string (al_sha256_hex lib t)" using assms by (simp add: revocation_libs_def)
  then show ?thesis
    by (cases "al_sha256_hex lib t")
      (auto simp: bare_id_def strip_prefix_def starts_with_def REVOKED_TABLE_def hex_string_def is_ascii_digit_def byte_def)
qed

lemma revocation_doc_eq:
  "revocation_doc h e w = JObject [(''expiresAt'', json_int e), (''hash'', JString h), (''revokedAt'', JString w)]"
  by (simp add: revocation_doc_def json_obj_def)

lemma revocation_doc_merge: "jsonb_concat (revocation_doc h e w) (revocation_doc h' e' w') = revocation_doc h' e' w'"
  by (simp add: revocation_doc_eq obj_merge_def)

text \<open>The rows of the revocation table, and the expiry it holds for a hash.\<close>

definition revocation_rows :: "auth_lib \<Rightarrow> doc_row list \<Rightarrow> bool" where
  "revocation_rows lib rs \<longleftrightarrow> distinct (map d_id rs) \<and>
     (\<forall>r \<in> set rs. \<exists>t e w. d_id r = al_sha256_hex lib t \<and> d_data r = revocation_doc (al_sha256_hex lib t) e w \<and> i64_range e)"

definition rev_entry :: "doc_row list \<Rightarrow> string \<Rightarrow> int option" where
  "rev_entry rs h = Option.bind (doc_of h rs) (\<lambda>r. jget_i64 ''expiresAt'' (d_data r))"

lemma revocation_row:
  assumes "revocation_rows lib rs" "r \<in> set rs"
  obtains e w where "d_data r = revocation_doc (d_id r) e w" "i64_range e"
  using assms by (force simp: revocation_rows_def)

lemma member_text_revocation:
  assumes "revocation_libs lib env"
  shows "member_text env ''hash'' (revocation_doc h e w) = Some h"
    and "member_text env ''expiresAt'' (revocation_doc h e w) = Some (int_to_string e)"
  using assms
  by (simp_all add: revocation_doc_eq member_text_def jget_def jsonb_text_def json_int_def revocation_libs_def split: json.split)

lemma as_i64_json_int: "i64_range e \<Longrightarrow> as_i64 (json_int e) = Some e"
  by (auto simp: json_int_def i64_range_def)

lemma expiresAt_revocation: "i64_range e \<Longrightarrow> jget_i64 ''expiresAt'' (revocation_doc h e w) = Some e"
  by (simp add: revocation_doc_eq jget_defs as_i64_json_int)

lemma filter_by_id: "distinct (map d_id rs) \<Longrightarrow> filter (\<lambda>r. d_id r = h) rs = (case doc_of h rs of None \<Rightarrow> [] | Some r \<Rightarrow> [r])"
proof (induction rs)
  case (Cons r rs)
  then show ?case
    by (auto simp: doc_of_def image_iff find_None_iff find_Some_iff filter_empty_conv split: option.splits)
qed (simp add: doc_of_def)

lemma latest_revocation_eq:
  assumes "revocation_rows lib rs" "revocation_libs lib env"
  shows "latest_revocation env h rs = doc_of h rs"
proof -
  have "filter (\<lambda>r. sql_eq (member_text env ''hash'' (d_data r)) (Some h)) rs = filter (\<lambda>r. d_id r = h) rs"
  proof (rule filter_cong [OF refl])
    fix r
    assume "r \<in> set rs"
    then obtain e w where "d_data r = revocation_doc (d_id r) e w" using revocation_row [OF assms(1)] by blast
    then show "sql_eq (member_text env ''hash'' (d_data r)) (Some h) = (d_id r = h)"
      using member_text_revocation [OF assms(2)] by (simp add: sql_eq_def)
  qed
  then show ?thesis
    using assms(1) by (simp add: latest_revocation_def filter_by_id revocation_rows_def split: option.split)
qed

lemma entry_row:
  assumes "revocation_rows lib rs" "doc_of h rs = Some r"
  obtains e w where "d_data r = revocation_doc h e w" "i64_range e" "rev_entry rs h = Some e"
proof -
  have r: "d_id r = h" "r \<in> set rs" using doc_of_id [OF assms(2)] by simp_all
  then obtain e w where e: "d_data r = revocation_doc h e w" "i64_range e" using revocation_row [OF assms(1)] by metis
  then have "rev_entry rs h = Some e" by (simp add: rev_entry_def assms(2) expiresAt_revocation)
  with e show thesis by (rule that)
qed

lemma is_token_revoked_cases:
  assumes "is_token_revoked lib env now token s = (r, s')" "revocation_libs lib env"
    and rows: "revocation_rows lib (tables s REVOKED_TABLE)"
  shows "tables s' = tables s \<and> (\<forall>b. r = Inr b \<longrightarrow>
    b = (case rev_entry (tables s REVOKED_TABLE) (al_sha256_hex lib token) of Some e \<Rightarrow> now < e | None \<Rightarrow> False))"
proof -
  let ?h = "al_sha256_hex lib token"
  have eval: "(case Option.bind (Option.bind (doc_of ?h (tables s REVOKED_TABLE)) (\<lambda>r. member_text env ''expiresAt'' (d_data r))) parse_i64 of
      Some e \<Rightarrow> now < e | None \<Rightarrow> False) = (case rev_entry (tables s REVOKED_TABLE) ?h of Some e \<Rightarrow> now < e | None \<Rightarrow> False)"
  proof (cases "doc_of ?h (tables s REVOKED_TABLE)")
    case (Some row)
    then obtain e w where "d_data row = revocation_doc ?h e w" "i64_range e" "rev_entry (tables s REVOKED_TABLE) ?h = Some e"
      by (rule entry_row [OF rows])
    then show ?thesis by (simp add: Some member_text_revocation [OF assms(2)] parse_i64_int_to_string)
  qed (simp add: rev_entry_def)
  from assms(1) show ?thesis
    unfolding is_token_revoked_def Let_def ensure_revoked_tokens_table_def
    using eval latest_revocation_eq [OF rows assms(2)]
    by (auto elim!: abind_cases dest!: pg_exec_cases split: sum.splits)
qed

lemma expiry_range [simp]: "i64_range (expiry_at now ttl)"
  by (simp add: expiry_at_def)

lemma revocation_rows_map:
  assumes "revocation_rows lib rs" "\<And>r. r \<in> set rs \<Longrightarrow> d_id (f r) = d_id r"
    and "\<And>r. r \<in> set rs \<Longrightarrow> d_data (f r) = d_data r \<or> (\<exists>e w. d_data (f r) = revocation_doc (d_id r) e w \<and> i64_range e)"
  shows "revocation_rows lib (map f rs)"
proof -
  have "map d_id (map f rs) = map d_id rs" using assms(2) by simp
  then have "distinct (map d_id (map f rs))" using assms(1) by (simp only: revocation_rows_def)
  moreover have "\<exists>t e w. d_id (f r) = al_sha256_hex lib t \<and> d_data (f r) = revocation_doc (al_sha256_hex lib t) e w \<and> i64_range e"
    if "r \<in> set rs" for r
  proof -
    from assms(1) that obtain t e w where "d_id r = al_sha256_hex lib t" "d_data r = revocation_doc (al_sha256_hex lib t) e w" "i64_range e"
      unfolding revocation_rows_def by blast
    then show ?thesis using assms(2) [OF that] assms(3) [OF that] by metis
  qed
  ultimately show ?thesis unfolding revocation_rows_def by simp
qed

lemma revoke_rows:
  assumes "revocation_rows lib rs" "h = al_sha256_hex lib token" "i64_range e"
    and "case doc_of h rs of
        None \<Rightarrow> rs' = rs @ [\<lparr>d_id = h, d_data = revocation_doc h e w, d_created_at = now, d_updated_at = now\<rparr>]
      | Some old \<Rightarrow> rs' = map (\<lambda>r. if d_id r = h then merged now (revocation_doc h e w) r else r) rs"
  shows "revocation_rows lib rs' \<and> rev_entry rs' = (rev_entry rs)(h \<mapsto> e)"
proof (cases "doc_of h rs")
  case None
  then have "h \<notin> d_id ` set rs" by (auto simp: doc_of_def find_None_iff)
  moreover have "rev_entry rs' k = ((rev_entry rs)(h \<mapsto> e)) k" for k
    using None assms(3,4) by (auto simp: rev_entry_def doc_of_append expiresAt_revocation split: option.split)
  ultimately show ?thesis using None assms by (auto simp: revocation_rows_def)
next
  case (Some old)
  have data: "d_data (merged now (revocation_doc h e w) r) = revocation_doc h e w" if "r \<in> set rs" for r
    using revocation_row [OF assms(1) that] revocation_doc_merge by (metis merged_id(2))
  have "revocation_rows lib (map (\<lambda>r. if d_id r = h then merged now (revocation_doc h e w) r else r) rs)"
    by (rule revocation_rows_map [OF assms(1)]) (use data assms(3) in auto)
  moreover have "rev_entry rs' k = ((rev_entry rs)(h \<mapsto> e)) k" for k
  proof (cases "k = h")
    case True
    then show ?thesis
      using Some assms(3,4) data doc_of_id [OF Some] by (simp add: rev_entry_def doc_of_merge expiresAt_revocation)
  next
    case False
    then show ?thesis using Some assms(4) by (simp add: rev_entry_def doc_of_merge option.map_ident)
  qed
  ultimately show ?thesis using Some assms(4) by auto
qed

lemma revoke_token_cases:
  assumes "revoke_token lib env now token ttl s = (r, s')" "revocation_libs lib env"
    and rows: "revocation_rows lib (tables s REVOKED_TABLE)"
  shows "revocation_rows lib (tables s' REVOKED_TABLE) \<and> (\<forall>c. c \<noteq> REVOKED_TABLE \<longrightarrow> tables s' c = tables s c) \<and>
    (case r of
       Inl _ \<Rightarrow> tables s' = tables s
     | Inr _ \<Rightarrow> rev_entry (tables s' REVOKED_TABLE) =
         (rev_entry (tables s REVOKED_TABLE))(al_sha256_hex lib token \<mapsto> expiry_at now ttl))"
proof -
  let ?h = "al_sha256_hex lib token"
  let ?doc = "revocation_doc ?h (expiry_at now ttl) (pg_rfc3339 env now)"
  from assms(1) show ?thesis
    unfolding revoke_token_def Let_def ensure_revoked_tokens_table_def
  proof (cases rule: abind_cases)
    case (err e)
    then show ?thesis using pg_exec_read [OF err(1)] rows by simp
  next
    case (ok x u)
    note u = pg_exec_read [OF ok(1)]
    from ok(2) obtain q where put: "upsert_document env now REVOKED_TABLE ?h ?doc u = (q, s')" and q: "is_ok q = is_ok r"
      by (auto simp: amap_err_def is_ok_def map_err_def elim!: abind_cases split: prod.splits sum.splits)
    note rows' = upsert_document_rows [OF put, unfolded u hash_bare_id [OF assms(2)]]
    show ?thesis
    proof (cases q)
      case (Inl e)
      then show ?thesis using rows' q rows by (cases r) simp_all
    next
      case (Inr d)
      have json: "pg_to_jsonb env ?doc = Inr ?doc" using assms(2) by (simp add: revocation_libs_def)
      from rows' Inr obtain rs where rs: "tables s' = (tables s)(REVOKED_TABLE := rs)"
        "case doc_of ?h (tables s REVOKED_TABLE) of
           None \<Rightarrow> rs = tables s REVOKED_TABLE @ [\<lparr>d_id = ?h, d_data = ?doc, d_created_at = now, d_updated_at = now\<rparr>]
         | Some old \<Rightarrow> rs = map (\<lambda>r. if d_id r = ?h then merged now ?doc r else r) (tables s REVOKED_TABLE)"
        using json by (auto split: option.splits)
      from revoke_rows [OF rows refl expiry_range rs(2)] rs(1) Inr q show ?thesis by (cases r) simp_all
    qed
  qed
qed

definition row_expiry :: "doc_row \<Rightarrow> int" where
  "row_expiry r = (case jget_i64 ''expiresAt'' (d_data r) of Some e \<Rightarrow> e | None \<Rightarrow> 0)"

lemma expires_bigint_row:
  assumes "revocation_rows lib rs" "revocation_libs lib env" "bigint_cast bigint" "r \<in> set rs"
  shows "expires_bigint bigint env r = Inr (row_expiry r)"
proof -
  obtain e w where r: "d_data r = revocation_doc (d_id r) e w" "i64_range e"
    using revocation_row [OF assms(1,4)] by blast
  have "int_to_string e \<noteq> []" by (simp add: int_to_string_def)
  then show ?thesis
    using r assms(3) by (simp add: expires_bigint_def row_expiry_def member_text_revocation [OF assms(2)]
        expiresAt_revocation bigint_cast_def)
qed

lemma zip_map_filter: "map snd (filter (\<lambda>(t, r). P t) (zip (map g rs) rs)) = filter (\<lambda>r. P (g r)) rs"
  by (induction rs) auto

lemma entry_filter:
  assumes "revocation_rows lib rs"
  shows "rev_entry (filter (\<lambda>r. \<not> row_expiry r < now) rs) h =
    (case rev_entry rs h of Some e \<Rightarrow> if e < now then None else Some e | None \<Rightarrow> None)"
  using assms
proof (induction rs)
  case Nil
  then show ?case by (simp add: rev_entry_def doc_of_def)
next
  case (Cons r rs)
  have rows: "revocation_rows lib rs" using Cons.prems by (simp add: revocation_rows_def)
  obtain e w where r: "d_data r = revocation_doc (d_id r) e w" "i64_range e"
    using revocation_row [OF Cons.prems] by (metis list.set_intros(1))
  have gone: "rev_entry rs' (d_id r) = None" if "set rs' \<subseteq> set rs" for rs'
  proof -
    have "d_id r \<notin> d_id ` set rs'" using Cons.prems that by (auto simp: revocation_rows_def)
    then have "doc_of (d_id r) rs' = None" unfolding doc_of_def find_None_iff by (metis imageI)
    then show ?thesis by (simp add: rev_entry_def)
  qed
  have head: "rev_entry (r # rs') h = (if d_id r = h then Some e else rev_entry rs' h)" for rs'
    using r by (simp add: rev_entry_def doc_of_def expiresAt_revocation)
  have "row_expiry r = e" using r by (simp add: row_expiry_def expiresAt_revocation)
  then show ?case
    using Cons.IH [OF rows] gone [of "filter (\<lambda>r. \<not> row_expiry r < now) rs"] by (auto simp: head)
qed

lemma cleanup_cases:
  assumes "cleanup_revoked_tokens bigint env now s = (r, s')" "revocation_libs lib env" "bigint_cast bigint"
    and rows: "revocation_rows lib (tables s REVOKED_TABLE)"
  shows "revocation_rows lib (tables s' REVOKED_TABLE) \<and> (\<forall>c. c \<noteq> REVOKED_TABLE \<longrightarrow> tables s' c = tables s c) \<and>
    (tables s' = tables s \<or> rev_entry (tables s' REVOKED_TABLE) = (\<lambda>h.
       case rev_entry (tables s REVOKED_TABLE) h of Some e \<Rightarrow> if e < now then None else Some e | None \<Rightarrow> None))"
  using assms(1) unfolding cleanup_revoked_tokens_def ensure_revoked_tokens_table_def
proof (cases rule: abind_cases)
  case (err e)
  then show ?thesis using pg_exec_read [OF err(1)] rows by simp
next
  case (ok x u)
  note u = pg_exec_read [OF ok(1)]
  let ?rs = "tables s REVOKED_TABLE"
  have "rmap (expires_bigint bigint env) ?rs = Inr (map row_expiry ?rs)"
    using expires_bigint_row [OF rows assms(2,3)] by (intro rmap_Inr) auto
  moreover have "revocation_rows lib (filter P ?rs)" for P
    using rows by (auto simp: revocation_rows_def distinct_map inj_on_def)
  ultimately show ?thesis
    using pg_exec_cases [OF ok(2), unfolded u] rows entry_filter [OF rows]
    by (auto simp: zip_map_filter fun_eq_iff Let_def split: sum.splits)
qed

lemma find_user_tables: "find_user env uid u = (q, v) \<Longrightarrow> tables v = tables u"
  unfolding find_user_def atry_def
  by (auto elim!: abind_cases dest!: pg_exec_read ensure_table_tables split: prod.splits)

text \<open>The checks after the revocation check only read.\<close>

lemma refresh_user_tables:
  assumes "abind (find_user env uid) (\<lambda>found. abind (alift (ok_or e found)) (\<lambda>user.
      abind (alift (ensure_user_not_disabled user)) (\<lambda>_.
        (case jget_i64 ''password_changed_at'' user of
           Some pw \<Rightarrow> if c_iat claims < pw then athrow e' else areturn (claims, user)
         | None \<Rightarrow> areturn (claims, user))))) s = (r, s')"
  shows "tables s' = tables s \<and> (\<forall>c u. r = Inr (c, u) \<longrightarrow> c = claims)"
  using assms
proof (cases rule: abind_cases)
  case (err x)
  then show ?thesis using find_user_tables [OF err(1)] by simp
next
  case (ok found v)
  have "s' = v \<and> (\<forall>c u. r = Inr (c, u) \<longrightarrow> c = claims)"
    using ok(2) by (cases found) (auto split: sum.splits option.splits if_splits)
  then show ?thesis using find_user_tables [OF ok(1)] by simp
qed

lemma refresh_check_cases:
  assumes "refresh_check lib env st now token s = (r, s')" "revocation_libs lib env"
    and rows: "revocation_rows lib (tables s REVOKED_TABLE)"
  shows "tables s' = tables s \<and> (\<forall>claims user. r = Inr (claims, user) \<longrightarrow>
    verify_token lib now token (as_keys st) = Inr claims \<and> c_typ claims = ''refresh'' \<and>
    (\<forall>e. rev_entry (tables s REVOKED_TABLE) (al_sha256_hex lib token) = Some e \<longrightarrow> e \<le> now))"
proof (cases "verify_token lib now token (as_keys st)")
  case (Inl e)
  then show ?thesis using assms(1) by (auto simp: refresh_check_def)
next
  case (Inr claims)
  show ?thesis
  proof (cases "c_typ claims = ''refresh''")
    case False
    then show ?thesis using assms(1) Inr by (auto simp: refresh_check_def)
  next
    case True
    from assms(1) have run: "abind (is_token_revoked lib env now token) (\<lambda>revoked.
        if revoked then athrow (Auth ''Token has been revoked'')
        else abind (find_user env (last (split_on CHR '':'' (c_sub claims)))) (\<lambda>found.
          abind (alift (ok_or (Auth ''User not found'') found)) (\<lambda>user.
          abind (alift (ensure_user_not_disabled user)) (\<lambda>_.
            (case jget_i64 ''password_changed_at'' user of
               Some pw_changed \<Rightarrow>
                 if c_iat claims < pw_changed
                 then athrow (Auth ''Session invalidated by password change. Please log in again.'')
                 else areturn (claims, user)
             | None \<Rightarrow> areturn (claims, user)))))) s = (r, s')"
      using Inr True by (simp add: refresh_check_def)
    then show ?thesis
    proof (cases rule: abind_cases)
      case (err e)
      then show ?thesis using is_token_revoked_cases [OF err(1) assms(2) rows] by simp
    next
      case (ok revoked u)
      note rev = is_token_revoked_cases [OF ok(1) assms(2) rows]
      show ?thesis
      proof (cases revoked)
        case True
        then show ?thesis using ok(2) rev by auto
      next
        case False
        note user = refresh_user_tables [OF ok(2) [unfolded if_not_P [OF False]]]
        have "e \<le> now" if "rev_entry (tables s REVOKED_TABLE) (al_sha256_hex lib token) = Some e" for e
          using rev False that by auto
        then show ?thesis using user rev Inr True by auto
      qed
    qed
  qed
qed

subsection \<open>Identity\<close>

text \<open>
  C13. Identity comes from a verified token. A request continues as an authenticated caller exactly
  when its header is \<open>Bearer\<close> followed by a token that verifies under the configured keys and has the
  type of an access token, and the identity is then the one of the claims; outside test mode
  a request with an authorisation header never continues as anonymous.
\<close>

theorem identity_from_verified_token:
  "((auth_extractor lib now test_mode keys header = Inr ctx \<and> au_authenticated ctx) \<longleftrightarrow>
      (\<exists>token ks claims. header = Some (Some (''Bearer '' @ token)) \<and> keys = Some ks \<and>
         verify_token lib now token ks = Inr claims \<and> c_typ claims = ''access'' \<and> ctx = from_claims claims)) \<and>
   auth_extractor lib now False keys (Some h) \<noteq> Inr anonymous_auth"
proof (intro conjI)
  define bearer where "bearer = (''Bearer '' :: string)"
  have ext: "auth_extractor lib now test_mode keys (Some (Some hs)) = (case strip_prefix bearer hs of
      Some token \<Rightarrow> (case keys of
          Some ks \<Rightarrow> (case verify_token lib now token ks of
              Inr claims \<Rightarrow> if c_typ claims = ''access'' then Inr (from_claims claims)
                else if test_mode then Inr anonymous_auth else Inl (Auth ''Invalid token type'')
            | Inl _ \<Rightarrow> if test_mode then Inr anonymous_auth else Inl (Auth ''Invalid or expired token''))
        | None \<Rightarrow> if test_mode then Inr anonymous_auth else Inl (Auth ''JWT validation keys not configured''))
    | None \<Rightarrow> if test_mode then Inr anonymous_auth else Inl (Auth ''Invalid Authorization header format''))"
    for test_mode keys hs by (simp add: auth_extractor_def bearer_def)
  have anon: "\<not> au_authenticated anonymous_auth" "au_authenticated (from_claims c)" for c
    by (simp_all add: anonymous_auth_def from_claims_def)
  show "auth_extractor lib now False keys (Some h) \<noteq> Inr anonymous_auth"
  proof (cases h)
    case None
    then show ?thesis by (simp add: auth_extractor_def)
  next
    case (Some hs)
    have "from_claims c \<noteq> anonymous_auth" for c using anon by metis
    then show ?thesis by (simp add: Some ext split: option.split sum.split)
  qed
  show "(auth_extractor lib now test_mode keys header = Inr ctx \<and> au_authenticated ctx) \<longleftrightarrow>
      (\<exists>token ks claims. header = Some (Some (''Bearer '' @ token)) \<and> keys = Some ks \<and>
         verify_token lib now token ks = Inr claims \<and> c_typ claims = ''access'' \<and> ctx = from_claims claims)"
    unfolding bearer_def [symmetric]
  proof
    assume *: "auth_extractor lib now test_mode keys header = Inr ctx \<and> au_authenticated ctx"
    then obtain hs where h: "header = Some (Some hs)"
      using anon(1) by (cases header) (auto simp: auth_extractor_def split: option.splits)
    then obtain token where "hs = bearer @ token"
      using * anon(1) by (cases "strip_prefix bearer hs") (auto simp: ext strip_prefix_Some split: if_splits)
    with * h show "\<exists>token ks claims. header = Some (Some (bearer @ token)) \<and> keys = Some ks \<and>
         verify_token lib now token ks = Inr claims \<and> c_typ claims = ''access'' \<and> ctx = from_claims claims"
      using anon(1) by (cases keys; cases "verify_token lib now token (the keys)") (auto simp: ext split: if_splits)
  next
    assume "\<exists>token ks claims. header = Some (Some (bearer @ token)) \<and> keys = Some ks \<and>
         verify_token lib now token ks = Inr claims \<and> c_typ claims = ''access'' \<and> ctx = from_claims claims"
    then show "auth_extractor lib now test_mode keys header = Inr ctx \<and> au_authenticated ctx"
      using anon(2) by (auto simp: ext)
  qed
qed

end
