(* ===== verification/Graphql_Resolvers.thy ===== *)
theory Graphql_Resolvers
  imports Rules_Evaluator Query_Translator Auth_Tokens
begin

text \<open>
  The GraphQL query resolvers (\<open>crates/ob-graphql/src/resolvers.rs\<close>): \<open>get\<close>, \<open>list\<close>, \<open>config\<close>,
  \<open>config_all\<close> and \<open>vector_search\<close>. The database calls of a resolver are the fields of \<open>gql_db\<close>, JSON decoding
  of a string is the parameter \<open>parse_json\<close>. The loop of \<open>list\<close> may run forever, so it is a partial
  function whose value is \<open>None\<close> when it does not return. A GraphQL error is its message.
\<close>

record gql_db =
  gd_get :: "string \<Rightarrow> string \<Rightarrow> json ob_result"
  gd_list :: "string \<Rightarrow> nat \<Rightarrow> nat \<Rightarrow> json list ob_result"
  gd_query_raw :: "string \<Rightarrow> json list ob_result"
  gd_config :: "string \<Rightarrow> json list ob_result"

definition SENSITIVE_FIELDS_ALL :: "string list" where
  "SENSITIVE_FIELDS_ALL = [''hashedPassword'', ''mfaSecret'', ''mfaRecoveryCodes'', ''refreshToken'',
     ''encryptedTotpSecret'', ''passwordSalt'']"

definition SENSITIVE_FIELDS_NON_ADMIN :: "string list" where
  "SENSITIVE_FIELDS_NON_ADMIN = [''stripeConnectId'', ''stripeCustomerId'', ''bankAccountLast4'', ''internalNotes'']"

definition strip_sensitive_fields :: "SecurityContext \<Rightarrow> json \<Rightarrow> json" where
  "strip_sensitive_fields ctx doc =
     (case doc of
        JObject m \<Rightarrow>
          (let m' = fold obj_remove SENSITIVE_FIELDS_ALL m
           in JObject (if ''admin'' \<in> set (SecurityContext.roles ctx) then m' else fold obj_remove SENSITIVE_FIELDS_NON_ADMIN m'))
      | _ \<Rightarrow> doc)"

definition normalize_data :: "(string \<Rightarrow> json option) \<Rightarrow> json \<Rightarrow> json" where
  "normalize_data parse_json data =
     (case data of JString s \<Rightarrow> (case parse_json s of Some v \<Rightarrow> v | None \<Rightarrow> data) | _ \<Rightarrow> data)"

definition doc_is_readable :: "rule_map \<Rightarrow> string \<Rightarrow> SecurityContext \<Rightarrow> json \<Rightarrow> bool" where
  "doc_is_readable engine coll sec doc =
     (case check engine coll ''read'' (sec\<lparr>resource := Some doc, incoming := None\<rparr>) of Inr b \<Rightarrow> b | Inl _ \<Rightarrow> False)"

definition filter_readable_docs :: "rule_map \<Rightarrow> string \<Rightarrow> SecurityContext \<Rightarrow> json list \<Rightarrow> json list" where
  "filter_readable_docs engine coll sec docs = filter (doc_is_readable engine coll sec) docs"

definition security_context :: "AuthContext option \<Rightarrow> json option \<Rightarrow> SecurityContext" where
  "security_context auth_opt res =
     (let auth = (case auth_opt of Some a \<Rightarrow> a | None \<Rightarrow> anonymous_auth)
      in \<lparr>user_id = (if au_authenticated auth then Some (au_user_id auth) else None),
          roles = au_roles auth, authenticated = au_authenticated auth, resource = res, incoming = None\<rparr>)"

definition internal_error :: string where
  "internal_error = ''Internal server error''"

text \<open>\<open>rules.check(...).map_err(...)?\<close> followed by the denial.\<close>

definition require :: "rule_map \<Rightarrow> string \<Rightarrow> string \<Rightarrow> SecurityContext \<Rightarrow> string + unit" where
  "require engine coll operation sec =
     (case check engine coll operation sec of
        Inl _ \<Rightarrow> Inl internal_error
      | Inr allowed \<Rightarrow> if allowed then Inr () else Inl ''Permission denied'')"

definition get_resolver :: "gql_db \<Rightarrow> rule_map \<Rightarrow> AuthContext option \<Rightarrow> string \<Rightarrow> string \<Rightarrow> string + json" where
  "get_resolver db engine auth coll i =
     (case gd_get db coll i of
        Inl (NotFound _) \<Rightarrow> Inr JNull
      | Inl (Validation _) \<Rightarrow> Inr JNull
      | Inl _ \<Rightarrow> Inl internal_error
      | Inr doc \<Rightarrow>
          (let sec = security_context auth (Some doc)
           in rbind (require engine coll ''read'' sec) (\<lambda>_. Inr (strip_sensitive_fields sec doc))))"

partial_function (option) list_loop ::
  "(nat \<Rightarrow> string + json list) \<Rightarrow> (json \<Rightarrow> bool) \<Rightarrow> nat \<Rightarrow> nat \<Rightarrow> nat \<Rightarrow> json list \<Rightarrow> (string + json list) option" where
  "list_loop fetch readable requested_limit fetch_limit current_offset filtered =
     (if length filtered < requested_limit then
        (case fetch current_offset of
           Inl e \<Rightarrow> Some (Inl e)
         | Inr docs \<Rightarrow>
             if docs = [] then Some (Inr filtered)
             else if length docs < fetch_limit then Some (Inr (filtered @ filter readable docs))
             else list_loop fetch readable requested_limit fetch_limit (current_offset + length docs)
                    (filtered @ filter readable docs))
      else Some (Inr filtered))"

declare list_loop.simps [code]

record list_args =
  la_collection :: string
  la_filters :: "json option"
  la_order_by :: "string option"
  la_descending :: bool
  la_limit :: "int option"
  la_offset :: "int option"
  la_start_after :: "string option"
  la_fields :: "string list option"

definition requested_limit_of :: "list_args \<Rightarrow> nat" where
  "requested_limit_of args = nat (min 100 (max 1 (case la_limit args of Some n \<Rightarrow> n | None \<Rightarrow> 20)))"

definition fetch_limit_of :: "list_args \<Rightarrow> nat" where
  "fetch_limit_of args =
     (if la_start_after args \<noteq> None then requested_limit_of args + 1 else requested_limit_of args)"

definition offset_of :: "list_args \<Rightarrow> nat" where
  "offset_of args = (case la_offset args of Some n \<Rightarrow> nat (max n 0) | None \<Rightarrow> 0)"

definition list_fetch ::
  "(rat \<Rightarrow> string) \<Rightarrow> (string \<Rightarrow> json option) \<Rightarrow> gql_db \<Rightarrow> list_args \<Rightarrow> nat \<Rightarrow> string + json list" where
  "list_fetch fmt_float parse_json db args off =
     (let filters = map_option (normalize_data parse_json) (la_filters args);
          use_simple_list = (filters = None \<and> la_order_by args = None \<and> \<not> la_descending args \<and>
            la_start_after args = None \<and> la_fields args = None)
      in map_err (\<lambda>_. internal_error)
           (if use_simple_list then gd_list db (la_collection args) (fetch_limit_of args) off
            else gd_query_raw db (build_select_ext fmt_float (la_collection args) filters (la_order_by args)
                   (la_descending args) (Some (fetch_limit_of args)) (Some off) (la_fields args) (la_start_after args))))"

definition list_resolver ::
  "(rat \<Rightarrow> string) \<Rightarrow> (string \<Rightarrow> json option) \<Rightarrow> gql_db \<Rightarrow> rule_map \<Rightarrow> AuthContext option \<Rightarrow> list_args
     \<Rightarrow> (string + json list) option" where
  "list_resolver fmt_float parse_json db engine auth args =
     (let sec = security_context auth None
      in case require engine (la_collection args) ''list'' sec of
           Inl e \<Rightarrow> Some (Inl e)
         | Inr _ \<Rightarrow>
             map_option (\<lambda>res. rbind res (\<lambda>filtered.
                 Inr (map (strip_sensitive_fields sec) (take (requested_limit_of args) filtered))))
               (list_loop (list_fetch fmt_float parse_json db args)
                 (doc_is_readable engine (la_collection args) sec)
                 (requested_limit_of args) (fetch_limit_of args) (offset_of args) []))"

definition config_resolver :: "gql_db \<Rightarrow> AuthContext option \<Rightarrow> string \<Rightarrow> string + json" where
  "config_resolver db auth_opt key =
     (let auth = (case auth_opt of Some a \<Rightarrow> a | None \<Rightarrow> anonymous_auth)
      in if \<not> au_authenticated auth then Inl ''Authentication required''
         else rbind (map_err (\<lambda>_. internal_error) (gd_config db key)) (\<lambda>results.
           Inr (case results of
                  [] \<Rightarrow> JNull
                | r # _ \<Rightarrow> (case jget ''value'' r of Some v \<Rightarrow> v | None \<Rightarrow> JNull))))"

definition config_all_query :: string where
  "config_all_query = ''SELECT data->>'' @ q @ ''key'' @ q @ '' AS key, data->'' @ q @ ''value'' @ q @
     '' AS value FROM _config ORDER BY data->>'' @ q @ ''key'' @ q @ '' ASC''"

definition config_all_resolver :: "gql_db \<Rightarrow> AuthContext option \<Rightarrow> string + json" where
  "config_all_resolver db auth_opt =
     (let auth = (case auth_opt of Some a \<Rightarrow> a | None \<Rightarrow> anonymous_auth)
      in if \<not> au_authenticated auth then Inl ''Authentication required''
         else if ''admin'' \<notin> set (au_roles auth) then Inl ''Admin role required''
         else rbind (map_err (\<lambda>_. internal_error) (gd_query_raw db config_all_query)) (\<lambda>configs.
           Inr (json_obj (List.map_filter (\<lambda>c.
             Option.bind (jget_str ''key'' c) (\<lambda>key. map_option (\<lambda>v. (key, v)) (jget ''value'' c))) configs))))"

definition vector_search_client :: "string \<Rightarrow> string \<Rightarrow> f64 list \<Rightarrow> nat \<Rightarrow> f64 option \<Rightarrow> json list ob_result" where
  "vector_search_client coll vector_field embedding top_k threshold =
     Inl (Database ''vector_search not yet implemented for PostgreSQL adapter'')"

definition vector_search_resolver ::
  "rule_map \<Rightarrow> AuthContext option \<Rightarrow> string \<Rightarrow> string \<Rightarrow> f64 list \<Rightarrow> int option \<Rightarrow> f64 option \<Rightarrow> string + json list" where
  "vector_search_resolver engine auth coll vector_field embedding top_k threshold =
     rbind (require engine coll ''read'' (security_context auth None)) (\<lambda>_.
       map_err (\<lambda>_. internal_error)
         (vector_search_client coll vector_field embedding
           (case top_k of Some n \<Rightarrow> nat (min 100 (max 1 n)) | None \<Rightarrow> 10) threshold))"

subsection \<open>Stripping\<close>

lemma map_of_fold_remove: "map_of (fold obj_remove fs m) = (\<lambda>k. if k \<in> set fs then None else map_of m k)"
  by (induction fs arbitrary: m) (auto simp: fun_eq_iff)

lemma jget_strip:
  "jget f (strip_sensitive_fields ctx doc) =
     (if f \<in> set SENSITIVE_FIELDS_ALL \<or>
         (''admin'' \<notin> set (SecurityContext.roles ctx) \<and> f \<in> set SENSITIVE_FIELDS_NON_ADMIN) then None
      else jget f doc)"
  by (cases doc) (auto simp: strip_sensitive_fields_def jget_def map_of_fold_remove Let_def)

text \<open>A member is withheld from a caller when one of the two lists names it for the caller's role.\<close>

definition withheld :: "AuthContext option \<Rightarrow> string \<Rightarrow> bool" where
  "withheld auth f \<longleftrightarrow> f \<in> set SENSITIVE_FIELDS_ALL \<or>
     (f \<in> set SENSITIVE_FIELDS_NON_ADMIN \<and> \<not> (\<exists>a. auth = Some a \<and> ''admin'' \<in> set (au_roles a)))"

lemma jget_strip_withheld:
  "withheld auth f \<Longrightarrow> jget f (strip_sensitive_fields (security_context auth r) doc) = None"
  by (cases auth) (auto simp: jget_strip withheld_def security_context_def Let_def anonymous_auth_def)

subsection \<open>The pages of a listing\<close>

text \<open>
  A source of pages: at every offset below a bound, the next page of a fixed table. The loop over
  such a source returns, and returns what one pass over the table would.
\<close>

locale paged_source =
  fixes ready :: "'s \<Rightarrow> bool"
    and table :: "'s \<Rightarrow> json list"
    and fetch :: "'s \<Rightarrow> nat \<Rightarrow> string + json list"
    and page :: nat
    and bound :: nat
  assumes fetch_page: "ready s \<Longrightarrow> off < bound \<Longrightarrow> fetch s off = Inr (take page (drop off (table s)))"
begin

lemma loop_reads_all:
  assumes "ready s" "0 < page" "length (table s) < bound" "off < bound"
  shows "\<exists>res. list_loop (fetch s) readable n page off acc = Some (Inr res) \<and>
    take n res = take n (acc @ filter readable (drop off (table s)))"
  using assms(4)
proof (induction "length (table s) - off" arbitrary: off acc rule: less_induct)
  case less
  let ?docs = "take page (drop off (table s))"
  have f: "fetch s off = Inr ?docs" using fetch_page [OF assms(1)] less.prems by simp
  consider "n \<le> length acc" | "length acc < n" "length (table s) \<le> off"
    | "length acc < n" "off < length (table s)" "length (table s) - off < page"
    | "length acc < n" "off < length (table s)" "page \<le> length (table s) - off" by linarith
  then show ?case
  proof cases
    case 1
    then show ?thesis by (subst list_loop.simps) simp
  next
    case 2
    then show ?thesis by (subst list_loop.simps) (simp add: f)
  next
    case 3
    then have "?docs = drop off (table s)" by simp
    with 3 f show ?thesis by (subst list_loop.simps) simp
  next
    case 4
    then have len: "length ?docs = page" by simp
    have docs: "drop off (table s) = ?docs @ drop (off + page) (table s)"
      by (metis append_take_drop_id drop_drop add.commute)
    have "length (table s) - (off + page) < length (table s) - off" using 4 assms(2) by linarith
    moreover have "off + page < bound" using assms(3) 4 by linarith
    ultimately obtain res where
      "list_loop (fetch s) readable n page (off + page) (acc @ filter readable ?docs) = Some (Inr res)"
      "take n res = take n ((acc @ filter readable ?docs) @ filter readable (drop (off + page) (table s)))"
      using less.hyps [of "off + page" "acc @ filter readable ?docs"] by blast
    moreover have "list_loop (fetch s) readable n page off acc =
        list_loop (fetch s) readable n page (off + page) (acc @ filter readable ?docs)"
      using 4 f len assms(2) by (subst list_loop.simps) auto
    ultimately show ?thesis by (subst docs) simp
  qed
qed

end

interpretation pg_pages: paged_source "\<lambda>s. pg_calm coll s \<and> n \<le> 10000"
    "\<lambda>s. map (inject_document_metadata env) (newest_first (tables s coll))"
    "\<lambda>s off. map_err (\<lambda>_. internal_error) (fst (list_documents env coll (Some n) (Some off) s))" n "2 ^ 63"
    for env coll n
  by unfold_locales (auto simp: list_documents_calm take_map drop_map)

text \<open>The resolver on the document store: listing goes to \<open>list_documents\<close>.\<close>

definition pg_backed :: "pg_env \<Rightarrow> pg_state \<Rightarrow> gql_db \<Rightarrow> gql_db" where
  "pg_backed env s db = db\<lparr>gd_list := (\<lambda>c n off. fst (list_documents env c (Some n) (Some off) s))\<rparr>"

definition plain_list :: "list_args \<Rightarrow> bool" where
  "plain_list args \<longleftrightarrow> la_filters args = None \<and> la_order_by args = None \<and> \<not> la_descending args \<and>
     la_start_after args = None \<and> la_fields args = None"

lemma requested_limit_bounds: "0 < requested_limit_of args" "requested_limit_of args \<le> 100"
  by (auto simp: requested_limit_of_def)

text \<open>
  A plain listing on the document store always returns, and its result is the first \<open>n\<close>
  documents the caller may read, newest first, from the requested offset on, stripped of the
  withheld fields, with \<open>n\<close> the limit clamped to 1..100: documents the caller may not read neither
  appear nor take up places of the page.
\<close>

theorem list_returns_first_readable:
  assumes "pg_calm (la_collection args) s" and "plain_list args"
    and "length (tables s (la_collection args)) < 2 ^ 63" and "offset_of args < 2 ^ 63"
    and "check engine (la_collection args) ''list'' (security_context auth None) = Inr True"
  shows "list_resolver fmt_float parse_json (pg_backed env s db) engine auth args =
    Some (Inr (map (strip_sensitive_fields (security_context auth None))
      (take (requested_limit_of args)
        (filter (doc_is_readable engine (la_collection args) (security_context auth None))
          (drop (offset_of args) (map (inject_document_metadata env) (newest_first (tables s (la_collection args)))))))))"
proof -
  have lim: "fetch_limit_of args = requested_limit_of args" using assms(2) by (simp add: fetch_limit_of_def plain_list_def)
  have fetch: "list_fetch fmt_float parse_json (pg_backed env s db) args =
      (\<lambda>off. map_err (\<lambda>_. internal_error) (fst (list_documents env (la_collection args) (Some (fetch_limit_of args)) (Some off) s)))"
    using assms(2) by (auto simp: list_fetch_def pg_backed_def plain_list_def)
  have "requested_limit_of args \<le> 10000" using requested_limit_bounds(2) [of args] by simp
  then obtain res where res:
    "list_loop (list_fetch fmt_float parse_json (pg_backed env s db) args)
        (doc_is_readable engine (la_collection args) (security_context auth None))
        (requested_limit_of args) (requested_limit_of args) (offset_of args) [] = Some (Inr res)"
    "take (requested_limit_of args) res = take (requested_limit_of args)
        (filter (doc_is_readable engine (la_collection args) (security_context auth None))
          (drop (offset_of args) (map (inject_document_metadata env) (newest_first (tables s (la_collection args))))))"
    using pg_pages.loop_reads_all [of "la_collection args" s "requested_limit_of args" env "offset_of args"
        "doc_is_readable engine (la_collection args) (security_context auth None)" "requested_limit_of args" "[]"]
      assms(1,3,4) requested_limit_bounds(1) [of args]
    by (auto simp: fetch lim newest_first_def)
  then show ?thesis using assms(5) by (simp add: list_resolver_def require_def lim Let_def)
qed

lemma list_loop_readable:
  assumes "list_loop fetch readable n m off acc = Some (Inr res)" "\<forall>d \<in> set acc. readable d"
  shows "\<forall>d \<in> set res. readable d"
proof -
  define P where "P = (\<lambda>(fetch :: nat \<Rightarrow> string + json list) (readable :: json \<Rightarrow> bool) (n :: nat) (m :: nat) (off :: nat)
      (acc :: json list) (r :: string + json list).
    (\<forall>d \<in> set acc. readable d) \<longrightarrow> (\<forall>x. r = Inr x \<longrightarrow> (\<forall>d \<in> set x. readable d)))"
  have "P fetch readable n m off acc (Inr res)"
  proof (rule list_loop.raw_induct [OF _ assms(1)])
    fix f :: "(nat \<Rightarrow> string + json list) \<Rightarrow> (json \<Rightarrow> bool) \<Rightarrow> nat \<Rightarrow> nat \<Rightarrow> nat \<Rightarrow> json list \<Rightarrow> (string + json list) option"
    fix fetch readable n m off acc r
    assume IH: "\<And>fetch readable n m off acc r. f fetch readable n m off acc = Some r \<Longrightarrow> P fetch readable n m off acc r"
      and eq: "(if length acc < n then
        (case fetch off of
           Inl e \<Rightarrow> Some (Inl e)
         | Inr docs \<Rightarrow>
             if docs = [] then Some (Inr acc)
             else if length docs < m then Some (Inr (acc @ filter readable docs))
             else f fetch readable n m (off + length docs) (acc @ filter readable docs))
        else Some (Inr acc)) = Some r"
    show "P fetch readable n m off acc r"
    proof (cases "\<exists>docs. length acc < n \<and> fetch off = Inr docs \<and> docs \<noteq> [] \<and> \<not> length docs < m")
      case True
      then obtain docs where d: "length acc < n" "fetch off = Inr docs" "docs \<noteq> []" "\<not> length docs < m" by blast
      have "f fetch readable n m (off + length docs) (acc @ filter readable docs) = Some r"
        using eq unfolding d(2) sum.case if_P [OF d(1)] if_not_P [OF d(3)] if_not_P [OF d(4)] .
      then have step: "P fetch readable n m (off + length docs) (acc @ filter readable docs) r" by (rule IH)
      have ok: "\<forall>d \<in> set (acc @ filter readable docs). readable d" if "\<forall>d \<in> set acc. readable d"
        using that by auto
      show ?thesis unfolding P_def by (rule impI) (rule mp [OF step [unfolded P_def] ok])
    next
      case False
      then show ?thesis using eq by (cases "fetch off") (auto simp: P_def split: if_splits)
    qed
  qed
  then show ?thesis using assms(2) by (simp add: P_def)
qed

lemma require_ok: "require engine coll operation sec = Inr () \<longleftrightarrow> check engine coll operation sec = Inr True"
  by (auto simp: require_def split: sum.splits)

text \<open>
  C10. Whatever the database returns and whatever the arguments are, a document \<open>get\<close> or \<open>list\<close>
  returns is one the rules let this caller read, evaluated on that very document, with every
  withheld field removed, and a listing has at most 100 documents.
\<close>

theorem resolvers_return_readable:
  "(get_resolver db engine auth coll i = Inr v \<longrightarrow> v = JNull \<or>
      (\<exists>doc. gd_get db coll i = Inr doc \<and> doc_is_readable engine coll (security_context auth None) doc \<and>
         v = strip_sensitive_fields (security_context auth None) doc \<and> (\<forall>f. withheld auth f \<longrightarrow> jget f v = None))) \<and>
   (list_resolver fmt_float parse_json db engine auth args = Some (Inr docs) \<longrightarrow> length docs \<le> 100 \<and>
      (\<forall>v \<in> set docs. \<exists>doc. doc_is_readable engine (la_collection args) (security_context auth None) doc \<and>
         v = strip_sensitive_fields (security_context auth None) doc \<and> (\<forall>f. withheld auth f \<longrightarrow> jget f v = None)))"
proof (intro conjI impI)
  assume get: "get_resolver db engine auth coll i = Inr v"
  show "v = JNull \<or> (\<exists>doc. gd_get db coll i = Inr doc \<and> doc_is_readable engine coll (security_context auth None) doc \<and>
      v = strip_sensitive_fields (security_context auth None) doc \<and> (\<forall>f. withheld auth f \<longrightarrow> jget f v = None))"
  proof (cases "gd_get db coll i")
    case (Inr doc)
    have sec: "(security_context auth None)\<lparr>resource := Some doc, incoming := None\<rparr> = security_context auth (Some doc)"
      by (simp add: security_context_def Let_def)
    have strip: "strip_sensitive_fields (security_context auth (Some doc)) doc = strip_sensitive_fields (security_context auth None) doc"
      by (cases doc) (simp_all add: strip_sensitive_fields_def security_context_def Let_def)
    have "check engine coll ''read'' (security_context auth (Some doc)) = Inr True"
      "v = strip_sensitive_fields (security_context auth (Some doc)) doc"
      using get Inr by (auto simp: get_resolver_def Let_def rbind_eq_Inr require_ok)
    then show ?thesis
      using Inr sec strip jget_strip_withheld by (auto simp: doc_is_readable_def)
  qed (use get in \<open>auto simp: get_resolver_def split: ob_error.splits\<close>)
next
  assume "list_resolver fmt_float parse_json db engine auth args = Some (Inr docs)"
  then obtain res where res: "list_loop (list_fetch fmt_float parse_json db args)
      (doc_is_readable engine (la_collection args) (security_context auth None))
      (requested_limit_of args) (fetch_limit_of args) (offset_of args) [] = Some (Inr res)"
    and docs: "docs = map (strip_sensitive_fields (security_context auth None)) (take (requested_limit_of args) res)"
    by (auto simp: list_resolver_def Let_def rbind_eq_Inr split: sum.splits)
  show "length docs \<le> 100" using docs requested_limit_bounds(2) [of args] by simp
  show "\<forall>v \<in> set docs. \<exists>doc. doc_is_readable engine (la_collection args) (security_context auth None) doc \<and>
         v = strip_sensitive_fields (security_context auth None) doc \<and> (\<forall>f. withheld auth f \<longrightarrow> jget f v = None)"
    using list_loop_readable [OF res] docs jget_strip_withheld by (fastforce dest: in_set_takeD)
qed

subsection \<open>Witnesses and limits\<close>

definition open_engine :: rule_map where
  "open_engine = [(''orders'', \<lparr>collection = ''orders'', rules =
     [\<lparr>operations = [''list'', ''read''], condition = EBool True, validation = None\<rparr>]\<rparr>)]"

definition owner_engine :: rule_map where
  "owner_engine = [(''orders'', \<lparr>collection = ''orders'', rules =
     [\<lparr>operations = [''list''], condition = EBool True, validation = None\<rparr>,
      \<lparr>operations = [''read''], condition = EFunctionCall ''isOwner'' [EPath ''resource.owner''], validation = None\<rparr>]\<rparr>)]"

definition no_db :: gql_db where
  "no_db = \<lparr>gd_get = (\<lambda>_ _. Inr (JObject [(''mfaSecret'', JString ''x''), (''status'', JString ''paid'')])),
     gd_list = (\<lambda>_ _ _. Inr []), gd_query_raw = (\<lambda>_. Inr (replicate 30 (JObject []))),
     gd_config = (\<lambda>_. Inr [])\<rparr>"

definition default_args :: list_args where
  "default_args = \<lparr>la_collection = ''orders'', la_filters = None, la_order_by = None, la_descending = False,
     la_limit = None, la_offset = None, la_start_after = None, la_fields = None\<rparr>"

lemma open_engine_allows: "check open_engine ''orders'' ''list'' ctx = Inr True" "check open_engine ''orders'' ''read'' ctx = Inr True"
  by (simp_all add: check_def open_engine_def)

theorem list_returns_first_readable_witness:
  "list_resolver (\<lambda>_. []) (\<lambda>_. None) (pg_backed sample_pg sample_store no_db) open_engine None default_args =
     Some (Inr (map (strip_sensitive_fields (security_context None None)) (take 20
       (filter (doc_is_readable open_engine ''orders'' (security_context None None))
         (drop 0 (map (inject_document_metadata sample_pg) (newest_first (tables sample_store ''orders''))))))))"
  using list_returns_first_readable [of default_args sample_store open_engine None "\<lambda>_. []" "\<lambda>_. None" sample_pg no_db]
  by (simp add: default_args_def plain_list_def offset_of_def open_engine_allows requested_limit_of_def)
    (simp add: sample_store_def)

theorem resolvers_return_readable_witness:
  "\<exists>v. get_resolver no_db open_engine None ''orders'' ''o1'' = Inr v \<and> jget ''mfaSecret'' v = None \<and>
     jget ''status'' v = Some (JString ''paid'')"
proof -
  let ?doc = "JObject [(''mfaSecret'', JString ''x''), (''status'', JString ''paid'')]"
  let ?v = "strip_sensitive_fields (security_context None None) ?doc"
  have g: "get_resolver no_db open_engine None ''orders'' ''o1'' = Inr ?v"
    by (simp add: get_resolver_def no_db_def require_def open_engine_allows strip_sensitive_fields_def
        security_context_def anonymous_auth_def)
  moreover have w: "withheld None ''mfaSecret''" by (simp add: withheld_def SENSITIVE_FIELDS_ALL_def)
  moreover have "?v \<noteq> JNull" by (simp add: strip_sensitive_fields_def Let_def)
  ultimately have "jget ''mfaSecret'' ?v = None"
    using resolvers_return_readable [of no_db open_engine None "''orders''" "''o1''" ?v] w by blast
  moreover have "jget ''status'' ?v = Some (JString ''paid'')"
    by (subst jget_strip) (simp add: SENSITIVE_FIELDS_ALL_def SENSITIVE_FIELDS_NON_ADMIN_def jget_def)
  ultimately show ?thesis using g by blast
qed

text \<open>
  The two lists of withheld fields miss the names the user documents really use: a document's
  \<open>password_hash\<close> and \<open>mfa_secret\<close>, written by the authentication routes, are returned to every
  caller who may read the document, administrator or not.
\<close>

theorem password_hash_is_returned:
  assumes "gd_get db coll i = Inr doc" and "check engine coll ''read'' (security_context auth (Some doc)) = Inr True"
    and "f \<in> {''password_hash'', ''mfa_secret''}"
  shows "\<exists>v. get_resolver db engine auth coll i = Inr v \<and> jget f v = jget f doc"
proof -
  have "f \<notin> set SENSITIVE_FIELDS_ALL" "f \<notin> set SENSITIVE_FIELDS_NON_ADMIN"
    using assms(3) by (auto simp: SENSITIVE_FIELDS_ALL_def SENSITIVE_FIELDS_NON_ADMIN_def)
  then show ?thesis using assms(1,2) by (auto simp: get_resolver_def Let_def require_def jget_strip)
qed

theorem password_hash_is_returned_witness:
  "\<exists>v. get_resolver (no_db\<lparr>gd_get := (\<lambda>_ _. Inr (JObject [(''password_hash'', JString ''argon'')]))\<rparr>) open_engine None ''orders'' ''u1'' = Inr v \<and>
     jget ''password_hash'' v = Some (JString ''argon'')"
  using password_hash_is_returned [of "no_db\<lparr>gd_get := (\<lambda>_ _. Inr (JObject [(''password_hash'', JString ''argon'')]))\<rparr>"
      "''orders''" "''u1''" "JObject [(''password_hash'', JString ''argon'')]" open_engine None "''password_hash''"]
  by (simp add: open_engine_allows jget_def)

lemma list_loop_diverges:
  assumes "\<And>off. fetch off = Inr docs" "docs \<noteq> []" "m \<le> length docs" "\<And>d. d \<in> set docs \<Longrightarrow> \<not> readable d"
    and "length acc < n"
  shows "list_loop fetch readable n m off acc = None"
proof (rule ccontr)
  assume "list_loop fetch readable n m off acc \<noteq> None"
  then obtain r where r: "list_loop fetch readable n m off acc = Some r" by blast
  have "\<not> (f = fetch \<and> p = readable \<and> k = n \<and> j = m \<and> a = acc)"
    if "list_loop f p k j off a = Some r" for f p k j off a
  proof (rule list_loop.raw_induct [where P = "\<lambda>f p k j off a r. \<not> (f = fetch \<and> p = readable \<and> k = n \<and> j = m \<and> a = acc)", OF _ that])
    fix g :: "(nat \<Rightarrow> string + json list) \<Rightarrow> (json \<Rightarrow> bool) \<Rightarrow> nat \<Rightarrow> nat \<Rightarrow> nat \<Rightarrow> json list \<Rightarrow> (string + json list) option"
    fix f p k j off a r
    assume IH: "\<And>f p k j off a r. g f p k j off a = Some r \<Longrightarrow> \<not> (f = fetch \<and> p = readable \<and> k = n \<and> j = m \<and> a = acc)"
      and eq: "(if length a < k then (case f off of Inl e \<Rightarrow> Some (Inl e) | Inr docs \<Rightarrow>
             if docs = [] then Some (Inr a)
             else if length docs < j then Some (Inr (a @ filter p docs))
             else g f p k j (off + length docs) (a @ filter p docs)) else Some (Inr a)) = Some r"
    show "\<not> (f = fetch \<and> p = readable \<and> k = n \<and> j = m \<and> a = acc)"
    proof
      assume e: "f = fetch \<and> p = readable \<and> k = n \<and> j = m \<and> a = acc"
      have "filter readable docs = []" using assms(4) by (simp add: filter_empty_conv)
      then have "g fetch readable n m (off + length docs) acc = Some r"
        using eq assms(1-3,5) e by simp
      from IH [OF this] show False by simp
    qed
  qed
  with r show False by blast
qed

text \<open>
  A listing can run forever: with a malformed projection the statement carries no limit and no
  offset, so every round of the loop reads the same whole collection; when the collection fills
  a page and the caller may list it but read none of its documents, the resolver never returns.
\<close>

theorem list_never_returns:
  assumes "safe_identifier (la_collection args)" and "la_fields args = Some fs"
    and "f \<in> set fs" and "\<not> list_all ident_char f"
    and "gd_query_raw db (''SELECT * FROM '' @ la_collection args) = Inr docs" and "fetch_limit_of args \<le> length docs"
    and "\<forall>d \<in> set docs. \<not> doc_is_readable engine (la_collection args) (security_context auth None) d"
    and "check engine (la_collection args) ''list'' (security_context auth None) = Inr True"
  shows "list_resolver fmt_float parse_json db engine auth args = None"
proof -
  have "\<not> list_all (list_all ident_char) fs" "fs \<noteq> []" using assms(3,4) by (auto simp: list_all_iff)
  then have sel: "select_fields (Some fs) = None" by (cases fs) (auto simp: select_fields_def)
  have fetch: "list_fetch fmt_float parse_json db args off = Inr docs" for off
    using assms(1,2,5) sel by (simp add: list_fetch_def build_select_ext_def)
  have "0 < fetch_limit_of args" using requested_limit_bounds(1) [of args] by (simp add: fetch_limit_of_def)
  then have "docs \<noteq> []" using assms(6) by auto
  then have "list_loop (list_fetch fmt_float parse_json db args)
      (doc_is_readable engine (la_collection args) (security_context auth None))
      (requested_limit_of args) (fetch_limit_of args) (offset_of args) [] = None"
    using list_loop_diverges [of "list_fetch fmt_float parse_json db args" docs] fetch assms(6,7)
      requested_limit_bounds(1) [of args] by auto
  then show ?thesis using assms(8) by (simp add: list_resolver_def Let_def require_def)
qed

theorem list_never_returns_witness:
  "list_resolver (\<lambda>_. []) (\<lambda>_. None) no_db owner_engine None (default_args\<lparr>la_fields := Some [''a.b'']\<rparr>) = None"
proof (rule list_never_returns [where f = "''a.b''" and fs = "[''a.b'']" and docs = "replicate 30 (JObject [])"])
  show "gd_query_raw no_db (''SELECT * FROM '' @ la_collection (default_args\<lparr>la_fields := Some [''a.b'']\<rparr>)) = Inr (replicate 30 (JObject []))"
    by (simp add: no_db_def)
qed (simp_all add: default_args_def fetch_limit_of_def requested_limit_of_def doc_is_readable_def owner_engine_def
    check_def eval_function_def security_context_def anonymous_auth_def ident_char_def ascii_defs)

end
