(* ===== verification/Graphql_Mutations.thy ===== *)
theory Graphql_Mutations
  imports Graphql_Resolvers Realtime_Registry
begin

text \<open>
  The GraphQL mutations (\<open>MutationRoot\<close> of \<open>crates/ob-graphql/src/resolvers.rs\<close>) on the PostgreSQL
  store. A mutation runs in a state of the store and the queue of change events; what the request
  brings is the record \<open>gql_request\<close>: the rules engine, the caller, the JSON decoder, and
  the uuids, database clock readings and timestamps it will meet, indexed by the document they
  are used for. An event is queued when the request has a sender whose receiver is alive.
\<close>

record gql_state =
  g_store :: pg_state
  g_events :: "ChangeEvent list"
  g_sender :: bool

type_synonym 'a gql_action = "(gql_state, string, 'a) action"

record gql_request =
  rq_env :: pg_env
  rq_engine :: rule_map
  rq_auth :: "AuthContext option"
  rq_parse :: "string \<Rightarrow> json option"
  rq_uuid :: "nat \<Rightarrow> string"
  rq_clock :: "nat \<Rightarrow> int"
  rq_stamp :: "nat \<Rightarrow> string"

subsection \<open>Steps shared by the mutations\<close>

text \<open>A store call whose error is logged and replaced, and one whose error is ignored (\<open>.ok()\<close>).\<close>

definition db_call :: "'a pg_action \<Rightarrow> 'a gql_action" where
  "db_call a g = (case a (g_store g) of (r, s) \<Rightarrow> (map_err (\<lambda>_. internal_error) r, g\<lparr>g_store := s\<rparr>))"

definition db_try :: "'a pg_action \<Rightarrow> 'a option gql_action" where
  "db_try a g =
     (case a (g_store g) of (r, s) \<Rightarrow> (Inr (case r of Inr x \<Rightarrow> Some x | Inl _ \<Rightarrow> None), g\<lparr>g_store := s\<rparr>))"

definition request_context :: "gql_request \<Rightarrow> json option \<Rightarrow> json option \<Rightarrow> SecurityContext" where
  "request_context rq res inc = (security_context (rq_auth rq) res)\<lparr>incoming := inc\<rparr>"

definition permit :: "string \<Rightarrow> gql_request \<Rightarrow> string \<Rightarrow> string \<Rightarrow> json option \<Rightarrow> json option \<Rightarrow> unit gql_action" where
  "permit denial rq coll operation res inc =
     alift (case check (rq_engine rq) coll operation (request_context rq res inc) of
              Inl _ \<Rightarrow> Inl internal_error
            | Inr allowed \<Rightarrow> if allowed then Inr () else Inl denial)"

definition emit :: "ChangeEvent \<Rightarrow> unit gql_action" where
  "emit ev g = (Inr (), if g_sender g then g\<lparr>g_events := g_events g @ [ev]\<rparr> else g)"

definition change :: "ChangeAction \<Rightarrow> string \<Rightarrow> string \<Rightarrow> json \<Rightarrow> json option \<Rightarrow> json option \<Rightarrow> string \<Rightarrow> ChangeEvent" where
  "change act coll i data before after stamp =
     \<lparr>ev_action = act, ev_collection = coll, ev_document_id = i, ev_data = data, ev_before_data = before,
      ev_after_data = after, ev_timestamp = stamp\<rparr>"

definition id_of_doc :: "string \<Rightarrow> json \<Rightarrow> string" where
  "id_of_doc dflt doc = (case jget_str ''id'' doc of Some s \<Rightarrow> s | None \<Rightarrow> dflt)"

definition denied :: string where "denied = ''Permission denied''"

definition denied_for :: "string \<Rightarrow> string" where "denied_for i = ''Permission denied for document '' @ i"

definition batch_limit_error :: string where "batch_limit_error = ''Batch operations limited to 500 items''"

definition FIELD_MARKERS :: "string list" where
  "FIELD_MARKERS = [''_serverTimestamp'', ''_increment'', ''_arrayUnion'', ''_arrayRemove'', ''_deleteField'']"

definition has_field_values :: "json \<Rightarrow> bool" where
  "has_field_values data =
     (case as_object data of
        None \<Rightarrow> False
      | Some obj \<Rightarrow> list_ex (\<lambda>v. case as_object v of
            None \<Rightarrow> False
          | Some inner \<Rightarrow> list_ex (\<lambda>m. map_of inner m \<noteq> None) FIELD_MARKERS) (map snd obj))"

subsection \<open>Single documents\<close>

definition gql_create :: "gql_request \<Rightarrow> string \<Rightarrow> json \<Rightarrow> json gql_action" where
  "gql_create rq coll raw =
     (let data = normalize_data (rq_parse rq) raw in
      abind (permit denied rq coll ''create'' None (Some data)) (\<lambda>_.
      abind (db_call (create_document (rq_env rq) (rq_uuid rq 0) (rq_clock rq 0) coll data)) (\<lambda>doc.
      abind (emit (change Create coll (id_of_doc ''unknown'' doc) doc None (Some doc) (rq_stamp rq 0))) (\<lambda>_.
        areturn doc))))"

definition gql_update :: "gql_request \<Rightarrow> string \<Rightarrow> string \<Rightarrow> json \<Rightarrow> json gql_action" where
  "gql_update rq coll i raw =
     (let data = normalize_data (rq_parse rq) raw in
      abind (db_call (get_document (rq_env rq) coll i)) (\<lambda>existing.
      abind (permit denied rq coll ''update'' (Some existing) (Some data)) (\<lambda>_.
      abind (if has_field_values data
             then db_call (update_with_field_values (rq_env rq) (rq_clock rq 0) coll i data)
             else db_call (update_document (rq_env rq) (rq_clock rq 0) coll i data)) (\<lambda>doc.
      abind (emit (change Update coll (id_of_doc i doc) doc (Some existing) (Some doc) (rq_stamp rq 0))) (\<lambda>_.
        areturn doc)))))"

definition gql_set :: "gql_request \<Rightarrow> string \<Rightarrow> string \<Rightarrow> json \<Rightarrow> json gql_action" where
  "gql_set rq coll i raw =
     (let data = normalize_data (rq_parse rq) raw in
      abind (db_try (get_document (rq_env rq) coll i)) (\<lambda>existing.
      abind (permit denied rq coll (if existing \<noteq> None then ''update'' else ''create'') existing (Some data)) (\<lambda>_.
      abind (db_call (upsert_document (rq_env rq) (rq_clock rq 0) coll i data)) (\<lambda>doc.
      abind (emit (change (if existing \<noteq> None then Update else Create) coll i doc existing (Some doc) (rq_stamp rq 0))) (\<lambda>_.
        areturn doc)))))"

definition gql_delete :: "gql_request \<Rightarrow> string \<Rightarrow> string \<Rightarrow> json gql_action" where
  "gql_delete rq coll i =
     abind (db_call (get_document (rq_env rq) coll i)) (\<lambda>existing.
     abind (permit denied rq coll ''delete'' (Some existing) None) (\<lambda>_.
     abind (db_call (delete_document coll i)) (\<lambda>doc.
     abind (emit (change Delete coll i doc (Some existing) None (rq_stamp rq 0))) (\<lambda>_.
       areturn doc))))"

definition gql_update_with_field_values :: "gql_request \<Rightarrow> string \<Rightarrow> string \<Rightarrow> json \<Rightarrow> json gql_action" where
  "gql_update_with_field_values rq coll i raw =
     (let data = normalize_data (rq_parse rq) raw in
      abind (db_call (get_document (rq_env rq) coll i)) (\<lambda>existing.
      abind (permit denied rq coll ''update'' (Some existing) (Some data)) (\<lambda>_.
      abind (db_call (update_with_field_values (rq_env rq) (rq_clock rq 0) coll i data)) (\<lambda>doc.
      abind (emit (change Update coll i doc (Some existing) (Some doc) (rq_stamp rq 0))) (\<lambda>_.
        areturn doc)))))"

subsection \<open>Batches\<close>

definition flatten_docs :: "(string \<Rightarrow> json option) \<Rightarrow> json list \<Rightarrow> json list" where
  "flatten_docs parse docs =
     concat (map (\<lambda>d. case normalize_data parse d of JArray arr \<Rightarrow> arr | v \<Rightarrow> [v]) docs)"

fun permit_creates :: "gql_request \<Rightarrow> string \<Rightarrow> json list \<Rightarrow> unit gql_action" where
  "permit_creates rq coll [] = areturn ()"
| "permit_creates rq coll (doc # docs) =
     abind (permit denied rq coll ''create'' None (Some doc)) (\<lambda>_. permit_creates rq coll docs)"

fun emit_all :: "ChangeEvent list \<Rightarrow> unit gql_action" where
  "emit_all [] = areturn ()"
| "emit_all (ev # evs) = abind (emit ev) (\<lambda>_. emit_all evs)"

definition gql_batch_create :: "gql_request \<Rightarrow> string \<Rightarrow> json list \<Rightarrow> json list gql_action" where
  "gql_batch_create rq coll raw =
     (let docs = flatten_docs (rq_parse rq) raw in
      if 500 < length docs then athrow batch_limit_error
      else
        abind (permit_creates rq coll docs) (\<lambda>_.
        abind (db_call (batch_create (rq_env rq) coll
                 (map (\<lambda>(n, d). (rq_uuid rq n, rq_clock rq n, d)) (enumerate 0 docs)))) (\<lambda>results.
        abind (emit_all (map (\<lambda>(n, doc). change Create coll (id_of_doc ''unknown'' doc) doc None (Some doc) (rq_stamp rq n))
                 (enumerate 0 results))) (\<lambda>_.
          areturn results))))"

fun permit_deletes :: "gql_request \<Rightarrow> string \<Rightarrow> string list \<Rightarrow> unit gql_action" where
  "permit_deletes rq coll [] = areturn ()"
| "permit_deletes rq coll (i # ids) =
     abind (db_call (get_document (rq_env rq) coll i)) (\<lambda>existing.
     abind (permit (denied_for i) rq coll ''delete'' (Some existing) None) (\<lambda>_.
       permit_deletes rq coll ids))"

definition gql_batch_delete :: "gql_request \<Rightarrow> string \<Rightarrow> string list \<Rightarrow> json list gql_action" where
  "gql_batch_delete rq coll ids =
     (if 500 < length ids then athrow batch_limit_error
      else
        abind (permit_deletes rq coll ids) (\<lambda>_.
        abind (db_call (batch_delete coll ids)) (\<lambda>results.
        abind (emit_all (map (\<lambda>(n, doc). change Delete coll (if n < length ids then ids ! n else ''unknown'') doc
                 (Some doc) None (rq_stamp rq n)) (enumerate 0 results))) (\<lambda>_.
          areturn results))))"

definition update_entry :: "json \<Rightarrow> string + (string \<times> json)" where
  "update_entry entry =
     (case as_object entry of
        None \<Rightarrow> Inl ''Each update entry must be an object with id and data''
      | Some obj \<Rightarrow>
          (case Option.bind (map_of obj ''id'') as_str of
             None \<Rightarrow> Inl ''Each update must have an id''
           | Some i \<Rightarrow> Inr (i, case map_of obj ''data'' of Some d \<Rightarrow> d | None \<Rightarrow> JObject [])))"

fun update_entries :: "gql_request \<Rightarrow> string \<Rightarrow> nat \<Rightarrow> json list \<Rightarrow> json list gql_action" where
  "update_entries rq coll n [] = areturn []"
| "update_entries rq coll n (entry # entries) =
     abind (alift (update_entry entry)) (\<lambda>(i, data).
     abind (db_call (get_document (rq_env rq) coll i)) (\<lambda>existing.
     abind (permit (denied_for i) rq coll ''update'' (Some existing) (Some data)) (\<lambda>_.
     abind (db_call (update_document (rq_env rq) (rq_clock rq n) coll i data)) (\<lambda>doc.
     abind (emit (change Update coll i doc (Some existing) (Some doc) (rq_stamp rq n))) (\<lambda>_.
     abind (update_entries rq coll (n + 1) entries) (\<lambda>docs.
       areturn (doc # docs)))))))"

definition gql_batch_update :: "gql_request \<Rightarrow> string \<Rightarrow> json \<Rightarrow> json list gql_action" where
  "gql_batch_update rq coll raw =
     (case normalize_data (rq_parse rq) raw of
        JArray arr \<Rightarrow>
          if 500 < length arr then athrow batch_limit_error else update_entries rq coll 0 arr
      | _ \<Rightarrow> athrow ''updates must be an array'')"

subsection \<open>The mutation root\<close>

datatype mutation =
    MCreate json
  | MUpdate string json
  | MSet string json
  | MDelete string
  | MBatchCreate "json list"
  | MBatchDelete "string list"
  | MBatchUpdate json
  | MUpdateWithFieldValues string json

definition single :: "json gql_action \<Rightarrow> json list gql_action" where
  "single a = abind a (\<lambda>doc. areturn [doc])"

fun run_mutation :: "gql_request \<Rightarrow> string \<Rightarrow> mutation \<Rightarrow> json list gql_action" where
  "run_mutation rq coll (MCreate d) = single (gql_create rq coll d)"
| "run_mutation rq coll (MUpdate i d) = single (gql_update rq coll i d)"
| "run_mutation rq coll (MSet i d) = single (gql_set rq coll i d)"
| "run_mutation rq coll (MDelete i) = single (gql_delete rq coll i)"
| "run_mutation rq coll (MBatchCreate ds) = gql_batch_create rq coll ds"
| "run_mutation rq coll (MBatchDelete is) = gql_batch_delete rq coll is"
| "run_mutation rq coll (MBatchUpdate u) = gql_batch_update rq coll u"
| "run_mutation rq coll (MUpdateWithFieldValues i d) = single (gql_update_with_field_values rq coll i d)"

subsection \<open>Authorisation\<close>

text \<open>
  A merge of some data into a stored document that the rules allow the caller, judged on the
  document before it and on the very data that are merged.
\<close>

definition allowed_update :: "gql_request \<Rightarrow> string \<Rightarrow> doc_row \<Rightarrow> doc_row \<Rightarrow> bool" where
  "allowed_update rq coll row row' \<longleftrightarrow> (\<exists>data body now.
     check (rq_engine rq) coll ''update'' (request_context rq (Some (inject_document_metadata (rq_env rq) row)) (Some data)) = Inr True \<and>
     pg_to_jsonb (rq_env rq) data = Inr body \<and> row' = merged now body row)"

text \<open>
  A change of one document that the rules allow the caller. A batch may update a document several
  times, each time judged on what the entries before it have left.
\<close>

definition allowed_change :: "gql_request \<Rightarrow> string \<Rightarrow> doc_row option \<Rightarrow> doc_row option \<Rightarrow> bool" where
  "allowed_change rq coll old new =
     (case (old, new) of
        (None, Some row) \<Rightarrow> \<exists>data. pg_to_jsonb (rq_env rq) data = Inr (d_data row) \<and>
          check (rq_engine rq) coll ''create'' (request_context rq None (Some data)) = Inr True
      | (Some row, Some row') \<Rightarrow> (allowed_update rq coll)\<^sup>+\<^sup>+ row row'
      | (Some row, None) \<Rightarrow> check (rq_engine rq) coll ''delete''
          (request_context rq (Some (inject_document_metadata (rq_env rq) row)) None) = Inr True
      | (None, None) \<Rightarrow> True)"

definition row_of :: "string \<Rightarrow> gql_state \<Rightarrow> string \<Rightarrow> doc_row option" where
  "row_of coll g k = doc_of k (tables (g_store g) coll)"

definition changes_by :: "(doc_row option \<Rightarrow> doc_row option \<Rightarrow> bool) \<Rightarrow> gql_request \<Rightarrow> string \<Rightarrow> gql_state \<Rightarrow> gql_state \<Rightarrow> bool" where
  "changes_by kind rq coll g g' \<longleftrightarrow>
     (\<forall>c. c \<noteq> coll \<longrightarrow> tables (g_store g') c = tables (g_store g) c) \<and>
     (\<forall>k. row_of coll g' k \<noteq> row_of coll g k \<longrightarrow>
        kind (row_of coll g k) (row_of coll g' k) \<and> allowed_change rq coll (row_of coll g k) (row_of coll g' k))"

definition creating :: "doc_row option \<Rightarrow> doc_row option \<Rightarrow> bool" where
  "creating old new \<longleftrightarrow> old = None"

definition updating :: "doc_row option \<Rightarrow> doc_row option \<Rightarrow> bool" where
  "updating old new \<longleftrightarrow> old \<noteq> None \<and> new \<noteq> None"

definition deleting :: "doc_row option \<Rightarrow> doc_row option \<Rightarrow> bool" where
  "deleting old new \<longleftrightarrow> old \<noteq> None \<and> new = None"


lemma changes_refl: "tables (g_store g') = tables (g_store g) \<Longrightarrow> changes_by kind rq coll g g'"
  by (simp add: changes_by_def row_of_def)

lemma changes_trans:
  assumes gh: "changes_by kind rq coll g h" and hg: "changes_by kind rq coll h g'"
    and join: "\<And>a b c. kind a b \<Longrightarrow> kind b c \<Longrightarrow> a \<noteq> b \<Longrightarrow> b \<noteq> c \<Longrightarrow>
      allowed_change rq coll a b \<Longrightarrow> allowed_change rq coll b c \<Longrightarrow> kind a c \<and> allowed_change rq coll a c"
  shows "changes_by kind rq coll g g'"
proof -
  have "kind (row_of coll g k) (row_of coll g' k) \<and> allowed_change rq coll (row_of coll g k) (row_of coll g' k)"
    if "row_of coll g' k \<noteq> row_of coll g k" for k
  proof (cases "row_of coll h k = row_of coll g k \<or> row_of coll g' k = row_of coll h k")
    case True
    with that gh hg show ?thesis unfolding changes_by_def by metis
  next
    case False
    with gh hg show ?thesis unfolding changes_by_def by (intro join [of _ "row_of coll h k"]) auto
  qed
  with gh hg show ?thesis by (simp add: changes_by_def)
qed

lemma updating_trans:
  assumes "changes_by updating rq coll g h" "changes_by updating rq coll h g'"
  shows "changes_by updating rq coll g g'"
  by (rule changes_trans [OF assms]) (auto simp: updating_def allowed_change_def intro: tranclp_trans)

lemma creating_trans:
  assumes "changes_by creating rq coll g h" "changes_by creating rq coll h g'"
  shows "changes_by creating rq coll g g'"
  by (rule changes_trans [OF assms]) (auto simp: creating_def)

lemma deleting_trans:
  assumes "changes_by deleting rq coll g h" "changes_by deleting rq coll h g'"
  shows "changes_by deleting rq coll g g'"
  by (rule changes_trans [OF assms]) (auto simp: deleting_def)

lemma changes_weaken: "changes_by kind rq coll g g' \<Longrightarrow> changes_by (\<lambda>_ _. True) rq coll g g'"
  by (simp add: changes_by_def)

lemma db_call_eq:
  "db_call a g = (r, g') \<longleftrightarrow> (\<exists>r0. a (g_store g) = (r0, g_store g') \<and> r = map_err (\<lambda>_. internal_error) r0 \<and>
     g' = g\<lparr>g_store := g_store g'\<rparr>)"
  by (auto simp: db_call_def split: prod.split)

lemma db_call_cases:
  assumes "db_call a g = (r, g')"
  obtains (err) e where "a (g_store g) = (Inl e, g_store g')" "r = Inl internal_error"
  | (ok) x where "a (g_store g) = (Inr x, g_store g')" "r = Inr x"
proof -
  from assms obtain r0 where "a (g_store g) = (r0, g_store g')" "r = map_err (\<lambda>_. internal_error) r0"
    by (auto simp: db_call_eq)
  then show thesis using that by (cases r0) auto
qed

lemma permit_eq:
  "permit msg rq coll operation res inc g = (r, g') \<longleftrightarrow> g' = g \<and>
     r = (case check (rq_engine rq) coll operation (request_context rq res inc) of
            Inl _ \<Rightarrow> Inl internal_error | Inr allowed \<Rightarrow> if allowed then Inr () else Inl msg)"
  by (auto simp: permit_def)

lemma permit_Inr:
  "permit msg rq coll operation res inc g = (Inr x, g') \<longleftrightarrow>
     g' = g \<and> check (rq_engine rq) coll operation (request_context rq res inc) = Inr True"
  by (auto simp: permit_eq split: sum.splits if_splits)

lemma emit_store: "emit ev g = (r, g') \<Longrightarrow> tables (g_store g') = tables (g_store g) \<and> r = Inr ()"
  by (auto simp: emit_def split: if_splits)

lemma emit_all_store: "emit_all evs g = (r, g') \<Longrightarrow> tables (g_store g') = tables (g_store g)"
  by (induction evs arbitrary: g) (auto elim!: abind_cases dest: emit_store)

lemma get_call:
  assumes "db_call (get_document env coll i) g = (r, g')"
  shows "tables (g_store g') = tables (g_store g) \<and>
    (\<forall>d. r = Inr d \<longrightarrow> (\<exists>row. row_of coll g (bare_id coll i) = Some row \<and> d = inject_document_metadata env row))"
  using assms by (cases rule: db_call_cases) (auto dest!: get_document_cases simp: row_of_def)

lemma row_of_merge:
  assumes "tables (g_store g') =
      (tables (g_store g))(coll := map (\<lambda>r. if d_id r = j then merged now body r else r) (tables (g_store g) coll))"
  shows "row_of coll g' k = map_option (\<lambda>r. if k = j then merged now body r else r) (row_of coll g k)"
  using assms by (simp add: row_of_def doc_of_merge)

lemma update_call:
  assumes "db_call (update_document env now coll i data) g = (r, g')" "env = rq_env rq"
    and "\<And>row. row_of coll g (bare_id coll i) = Some row \<Longrightarrow>
      check (rq_engine rq) coll ''update'' (request_context rq (Some (inject_document_metadata env row)) (Some data)) = Inr True"
  shows "changes_by updating rq coll g g'"
  using assms(1)
proof (cases rule: db_call_cases)
  case (err e)
  then show ?thesis using update_document_cases by (fastforce intro!: changes_refl)
next
  case (ok d)
  from update_document_cases [OF ok(1)] obtain body where body: "pg_to_jsonb env data = Inr body" and
    rows: "tables (g_store g') = (tables (g_store g))(coll :=
        map (\<lambda>r. if d_id r = bare_id coll i then merged now body r else r) (tables (g_store g) coll))"
    by auto
  have "(allowed_update rq coll)\<^sup>+\<^sup>+ row (merged now body row)" if "row_of coll g (bare_id coll i) = Some row" for row
    using assms(2,3) that body unfolding allowed_update_def by blast
  then show ?thesis
    using rows by (auto simp: updating_def changes_by_def row_of_merge [OF rows] allowed_change_def option.map_ident split: option.split if_splits)
qed

lemma create_call:
  assumes "db_call (create_document env uuid now coll data) g = (r, g')" "env = rq_env rq"
    and "check (rq_engine rq) coll ''create'' (request_context rq None (Some data)) = Inr True"
  shows "changes_by creating rq coll g g'"
  using assms(1)
proof (cases rule: db_call_cases)
  case (err e)
  then show ?thesis using create_document_cases by (fastforce intro!: changes_refl)
next
  case (ok d)
  from create_document_cases [OF ok(1)] obtain row where row:
    "tables (g_store g') = (tables (g_store g))(coll := tables (g_store g) coll @ [row])"
    "row_of coll g (d_id row) = None" "pg_to_jsonb env data = Inr (d_data row)"
    unfolding row_of_def sum.case by (metis doc_row.select_convs(2))
  have "row_of coll g' k = (if k = d_id row then Some row else row_of coll g k)" for k
    using row(1,2) by (auto simp: row_of_def doc_of_append split: option.split)
  then show ?thesis
    using assms(2,3) row by (auto simp: creating_def updating_def deleting_def changes_by_def allowed_change_def split: option.split)
qed

lemma delete_call:
  assumes "db_call (delete_document coll i) g = (r, g')"
    and "\<And>row. row_of coll g (bare_id coll i) = Some row \<Longrightarrow> check (rq_engine rq) coll ''delete''
      (request_context rq (Some (inject_document_metadata (rq_env rq) row)) None) = Inr True"
  shows "changes_by deleting rq coll g g'"
  using assms(1)
proof (cases rule: db_call_cases)
  case (err e)
  then show ?thesis using delete_document_cases by (fastforce intro!: changes_refl)
next
  case (ok d)
  from delete_document_cases [OF ok(1)] have rows: "tables (g_store g') =
      (tables (g_store g))(coll := filter (\<lambda>r. d_id r \<noteq> bare_id coll i) (tables (g_store g) coll))"
    by auto
  then have "row_of coll g' k = (if k = bare_id coll i then None else row_of coll g k)" for k
    by (simp add: row_of_def doc_of_filter)
  then show ?thesis
    using assms(2) rows by (auto simp: creating_def updating_def deleting_def changes_by_def allowed_change_def split: option.split if_splits)
qed

lemma changes_frame:
  assumes "changes_by kind rq coll g h" "tables (g_store g') = tables (g_store h)"
  shows "changes_by kind rq coll g g'"
  using assms by (simp add: changes_by_def row_of_def)

lemma changes_frame_left:
  assumes "changes_by kind rq coll h g'" "tables (g_store h) = tables (g_store g)"
  shows "changes_by kind rq coll g g'"
  using assms by (simp add: changes_by_def row_of_def)

text \<open>The common shape: read the document, check the rules on it, write, queue an event.\<close>

lemma read_check_write:
  assumes "abind (db_call (get_document (rq_env rq) coll i)) (\<lambda>existing.
      abind (permit msg rq coll operation (Some existing) inc) (\<lambda>_.
      abind wr (\<lambda>doc. abind (emit (ev existing doc)) (\<lambda>_. areturn doc)))) g = (r, g')"
    and wr: "\<And>h h' q. wr h = (q, h') \<Longrightarrow>
      (\<And>row. row_of coll h (bare_id coll i) = Some row \<Longrightarrow> check (rq_engine rq) coll operation
         (request_context rq (Some (inject_document_metadata (rq_env rq) row)) inc) = Inr True) \<Longrightarrow>
      changes_by kind rq coll h h'"
  shows "changes_by kind rq coll g g'"
  using assms(1)
proof (cases rule: abind_cases)
  case (err e)
  then show ?thesis using get_call [OF err(1)] by (simp add: changes_refl)
next
  case (ok existing u)
  note u = get_call [OF ok(1)]
  from ok(2) show ?thesis
  proof (cases rule: abind_cases)
    case (err e)
    then show ?thesis using u by (simp add: changes_refl permit_eq)
  next
    case (ok x v)
    then have v: "v = u" and allowed: "check (rq_engine rq) coll operation (request_context rq (Some existing) inc) = Inr True"
      by (simp_all add: permit_Inr)
    have step: "changes_by kind rq coll u w" if "wr u = (q, w)" for q w
      using u allowed by (intro wr [OF that]) (auto simp: row_of_def)
    from ok(2) have "changes_by kind rq coll u g'"
      unfolding v
    proof (cases rule: abind_cases)
      case (err e)
      then show ?thesis using step by blast
    next
      case (ok doc w)
      from ok(2) have "tables (g_store g') = tables (g_store w)"
        by (auto elim!: abind_cases dest: emit_store)
      then show ?thesis by (rule changes_frame [OF step [OF ok(1)]])
    qed
    then show ?thesis using u by (auto intro: changes_frame_left)
  qed
qed

lemma gql_update_changes: "gql_update rq coll i raw g = (r, g') \<Longrightarrow> changes_by updating rq coll g g'"
  unfolding gql_update_def Let_def update_with_field_values_def if_cancel
  by (erule read_check_write, erule update_call) simp_all

lemma gql_field_values_changes:
  "gql_update_with_field_values rq coll i raw g = (r, g') \<Longrightarrow> changes_by updating rq coll g g'"
  unfolding gql_update_with_field_values_def Let_def update_with_field_values_def
  by (erule read_check_write, erule update_call) simp_all

lemma gql_delete_changes: "gql_delete rq coll i g = (r, g') \<Longrightarrow> changes_by deleting rq coll g g'"
  unfolding gql_delete_def by (erule read_check_write, erule delete_call) simp_all

lemma gql_create_changes:
  assumes "gql_create rq coll raw g = (r, g')"
  shows "changes_by creating rq coll g g'"
  using assms unfolding gql_create_def Let_def
proof (cases rule: abind_cases)
  case (err e)
  then show ?thesis by (simp add: changes_refl permit_eq)
next
  case (ok x u)
  note permitted = ok(1) [unfolded permit_Inr]
  from ok(2) show ?thesis
  proof (cases rule: abind_cases)
    case (err e)
    then show ?thesis using permitted by (auto intro: create_call)
  next
    case (ok doc w)
    have "changes_by creating rq coll g w" using ok(1) permitted by (auto intro: create_call)
    moreover have "tables (g_store g') = tables (g_store w)" using ok(2) by (auto elim!: abind_cases dest: emit_store)
    ultimately show ?thesis by (rule changes_frame)
  qed
qed

text \<open>
  A \<open>set\<close> whose first read fails although the document is stored: \<open>get_document(..).ok()\<close> takes it as
  absent, and the rules are asked for a creation.
\<close>

definition unread_set :: "gql_request \<Rightarrow> string \<Rightarrow> mutation \<Rightarrow> gql_state \<Rightarrow> string \<Rightarrow> bool" where
  "unread_set rq coll m g k \<longleftrightarrow> (\<exists>i raw e. m = MSet i raw \<and> k = bare_id coll i \<and> row_of coll g k \<noteq> None \<and>
     fst (get_document (rq_env rq) coll i (g_store g)) = Inl e \<and>
     check (rq_engine rq) coll ''create'' (request_context rq None (Some (normalize_data (rq_parse rq) raw))) = Inr True)"

definition set_changes :: "gql_request \<Rightarrow> string \<Rightarrow> string \<Rightarrow> json \<Rightarrow> gql_state \<Rightarrow> gql_state \<Rightarrow> bool" where
  "set_changes rq coll i raw g g' \<longleftrightarrow> (\<forall>c. c \<noteq> coll \<longrightarrow> tables (g_store g') c = tables (g_store g) c) \<and>
     (\<forall>k. row_of coll g' k = row_of coll g k \<or> allowed_change rq coll (row_of coll g k) (row_of coll g' k) \<or>
        unread_set rq coll (MSet i raw) g k)"

lemma set_changes_refl: "tables (g_store g') = tables (g_store g) \<Longrightarrow> set_changes rq coll i raw g g'"
  by (simp add: set_changes_def row_of_def)

lemma upsert_call:
  assumes "db_call (upsert_document (rq_env rq) now coll i data) h = (r, g')" "tables (g_store h) = tables (g_store g)"
    and new: "row_of coll g (bare_id coll i) = None \<Longrightarrow>
      check (rq_engine rq) coll ''create'' (request_context rq None (Some data)) = Inr True"
    and old: "\<And>row. row_of coll g (bare_id coll i) = Some row \<Longrightarrow> unread_set rq coll (MSet i raw) g (bare_id coll i) \<or>
      check (rq_engine rq) coll ''update'' (request_context rq (Some (inject_document_metadata (rq_env rq) row)) (Some data)) = Inr True"
  shows "set_changes rq coll i raw g g'"
  using assms(1)
proof (cases rule: db_call_cases)
  case (err e)
  then show ?thesis using upsert_document_rows [OF err(1)] assms(2) by (simp add: set_changes_refl)
next
  case (ok d)
  from upsert_document_rows [OF ok(1)] obtain body rs where body: "pg_to_jsonb (rq_env rq) data = Inr body"
    and rows: "tables (g_store g') = (tables (g_store g))(coll := rs)"
      "rs = (case row_of coll g (bare_id coll i) of
         None \<Rightarrow> tables (g_store g) coll @ [\<lparr>d_id = bare_id coll i, d_data = body, d_created_at = now, d_updated_at = now\<rparr>]
       | Some _ \<Rightarrow> map (\<lambda>r. if d_id r = bare_id coll i then merged now body r else r) (tables (g_store g) coll))"
    by (auto simp: assms(2) row_of_def split: option.splits)
  show ?thesis
  proof (cases "row_of coll g (bare_id coll i)")
    case None
    then have "row_of coll g' k = (if k = bare_id coll i then Some \<lparr>d_id = bare_id coll i, d_data = body, d_created_at = now, d_updated_at = now\<rparr>
        else row_of coll g k)" for k
      using rows by (auto simp: row_of_def doc_of_append split: option.split)
    then show ?thesis using None new body rows(1) by (auto simp: set_changes_def allowed_change_def)
  next
    case (Some row)
    then have after: "row_of coll g' k = map_option (\<lambda>r. if k = bare_id coll i then merged now body r else r) (row_of coll g k)" for k
      using rows by (intro row_of_merge) simp
    have "unread_set rq coll (MSet i raw) g (bare_id coll i) \<or> (allowed_update rq coll)\<^sup>+\<^sup>+ row (merged now body row)"
      using old [OF Some] body unfolding allowed_update_def by blast
    then show ?thesis
      using Some rows(1) by (auto simp: set_changes_def after allowed_change_def option.map_ident split: option.split if_splits)
  qed
qed

lemma gql_set_changes:
  assumes "gql_set rq coll i raw g = (r, g')"
  shows "set_changes rq coll i raw g g'"
proof -
  define data where "data = normalize_data (rq_parse rq) raw"
  obtain q s where get: "get_document (rq_env rq) coll i (g_store g) = (q, s)" by force
  note found = get_document_cases [OF get]
  define h where "h = g\<lparr>g_store := s\<rparr>"
  have same: "tables (g_store h) = tables (g_store g)" using found by (simp add: h_def)
  define existing where "existing = (case q of Inr x \<Rightarrow> Some x | Inl _ \<Rightarrow> None)"
  define operation where "operation = (if existing \<noteq> None then ''update'' else ''create'')"
  have "db_try (get_document (rq_env rq) coll i) g = (Inr existing, h)"
    by (simp add: db_try_def get existing_def h_def)
  then have run: "abind (permit denied rq coll operation existing (Some data)) (\<lambda>_.
      abind (db_call (upsert_document (rq_env rq) (rq_clock rq 0) coll i data)) (\<lambda>doc.
      abind (emit (change (if existing \<noteq> None then Update else Create) coll i doc existing (Some doc) (rq_stamp rq 0))) (\<lambda>_.
        areturn doc))) h = (r, g')"
    using assms by (simp add: gql_set_def Let_def abind_def data_def operation_def)
  show ?thesis
    using run
  proof (cases rule: abind_cases)
    case (err e)
    then show ?thesis using same by (simp add: set_changes_refl permit_eq)
  next
    case (ok x u)
    then have u: "u = h" and allowed: "check (rq_engine rq) coll operation (request_context rq existing (Some data)) = Inr True"
      by (simp_all add: permit_Inr)
    have step: "set_changes rq coll i raw g w"
      if put: "db_call (upsert_document (rq_env rq) (rq_clock rq 0) coll i data) h = (q', w)" for q' w
    proof (rule upsert_call [OF put same])
      show "check (rq_engine rq) coll ''create'' (request_context rq None (Some data)) = Inr True"
        if "row_of coll g (bare_id coll i) = None"
        using that found allowed by (cases q) (simp_all add: operation_def existing_def row_of_def)
      show "unread_set rq coll (MSet i raw) g (bare_id coll i) \<or>
          check (rq_engine rq) coll ''update'' (request_context rq (Some (inject_document_metadata (rq_env rq) row)) (Some data)) = Inr True"
        if "row_of coll g (bare_id coll i) = Some row" for row
        using that found allowed by (cases q) (simp_all add: operation_def existing_def row_of_def unread_set_def get data_def)
    qed
    from ok(2) show ?thesis
      unfolding u
    proof (cases rule: abind_cases)
      case (err e)
      then show ?thesis using step by blast
    next
      case (ok doc w)
      from ok(2) have "tables (g_store g') = tables (g_store w)" by (auto elim!: abind_cases dest: emit_store)
      with step [OF ok(1)] show ?thesis by (simp add: set_changes_def row_of_def)
    qed
  qed
qed

text \<open>A sequence of store calls is the sequence of its parts.\<close>

lemma db_call_abind: "db_call (abind a f) = abind (db_call a) (\<lambda>x. db_call (f x))"
  by (rule ext) (auto simp: db_call_def abind_def split: prod.split sum.split)

lemma db_call_areturn: "db_call (areturn x) = areturn x"
  by (rule ext) (simp add: db_call_def)

lemma permit_creates_eq:
  "permit_creates rq coll docs g = (r, g') \<Longrightarrow> g' = g \<and> (is_ok r \<longrightarrow> (\<forall>d \<in> set docs.
     check (rq_engine rq) coll ''create'' (request_context rq None (Some d)) = Inr True))"
  by (induction docs) (auto elim!: abind_cases simp: permit_eq split: sum.splits if_splits)

lemma batch_create_changes:
  assumes "db_call (batch_create (rq_env rq) coll docs) g = (r, g')"
    and "\<And>u t d. (u, t, d) \<in> set docs \<Longrightarrow>
      check (rq_engine rq) coll ''create'' (request_context rq None (Some d)) = Inr True"
  shows "changes_by creating rq coll g g'"
  using assms
proof (induction docs arbitrary: g r)
  case Nil
  then show ?case unfolding batch_create.simps db_call_areturn by (simp add: changes_refl)
next
  case (Cons x docs)
  obtain uuid now d where x: "x = (uuid, now, d)" by (cases x)
  have allowed: "check (rq_engine rq) coll ''create'' (request_context rq None (Some d)) = Inr True"
    using Cons.prems(2) [of uuid now d] x by simp
  from Cons.prems(1) show ?case
    unfolding x batch_create.simps db_call_abind db_call_areturn
  proof (cases rule: abind_cases)
    case (err e)
    from create_call [OF err(1) refl allowed] show ?thesis .
  next
    case (ok v u)
    have rest: "changes_by creating rq coll u g'" if "db_call (batch_create (rq_env rq) coll docs) u = (q, g')" for q
      using Cons.prems(2) by (intro Cons.IH [OF that]) auto
    from ok(2) have "changes_by creating rq coll u g'" by (auto elim!: abind_cases intro: rest)
    with create_call [OF ok(1) refl allowed] show ?thesis by (rule creating_trans)
  qed
qed

lemma gql_batch_create_changes:
  assumes "gql_batch_create rq coll raw g = (r, g')"
  shows "changes_by creating rq coll g g'"
proof (cases "500 < length (flatten_docs (rq_parse rq) raw)")
  case True
  then show ?thesis using assms by (simp add: gql_batch_create_def changes_refl)
next
  case False
  have run: "abind (permit_creates rq coll (flatten_docs (rq_parse rq) raw)) (\<lambda>_.
     abind (db_call (batch_create (rq_env rq) coll
        (map (\<lambda>(n, d). (rq_uuid rq n, rq_clock rq n, d)) (enumerate 0 (flatten_docs (rq_parse rq) raw))))) (\<lambda>results.
     abind (emit_all (map (\<lambda>(n, doc). change Create coll (id_of_doc ''unknown'' doc) doc None (Some doc) (rq_stamp rq n))
        (enumerate 0 results))) (\<lambda>_. areturn results))) g = (r, g')"
    using assms False by (simp add: gql_batch_create_def Let_def)
  then show ?thesis
  proof (cases rule: abind_cases)
    case (err e)
    then show ?thesis using permit_creates_eq [OF err(1)] by (simp add: changes_refl)
  next
    case (ok x u)
    note allowed = permit_creates_eq [OF ok(1)]
    have mem: "(a, b, d) \<in> set (map (\<lambda>(n, d). (rq_uuid rq n, rq_clock rq n, d)) (enumerate 0 docs)) \<Longrightarrow> d \<in> set docs"
      for a b d and docs :: "json list"
      by (auto simp: in_set_enumerate_eq)
    from ok(2) show ?thesis
    proof (cases rule: abind_cases)
      case (err e)
      then show ?thesis using allowed mem by (auto intro!: batch_create_changes)
    next
      case (ok res w)
      have "changes_by creating rq coll g w"
        using ok(1) allowed mem by (auto intro!: batch_create_changes)
      moreover have "tables (g_store g') = tables (g_store w)"
        using ok(2) by (auto elim!: abind_cases dest: emit_all_store)
      ultimately show ?thesis by (rule changes_frame)
    qed
  qed
qed

text \<open>The documents of a batch that may be deleted, judged in the current state.\<close>

definition deletable :: "gql_request \<Rightarrow> string \<Rightarrow> string list \<Rightarrow> gql_state \<Rightarrow> bool" where
  "deletable rq coll ids g \<longleftrightarrow> (\<forall>i \<in> set ids. \<forall>row. row_of coll g (bare_id coll i) = Some row \<longrightarrow>
     check (rq_engine rq) coll ''delete'' (request_context rq (Some (inject_document_metadata (rq_env rq) row)) None) = Inr True)"

lemma permit_deletes_eq:
  assumes "permit_deletes rq coll ids g = (r, g')"
  shows "tables (g_store g') = tables (g_store g) \<and> (is_ok r \<longrightarrow> deletable rq coll ids g)"
  using assms
proof (induction ids arbitrary: g)
  case (Cons i ids)
  from Cons.prems show ?case
    unfolding permit_deletes.simps
  proof (cases rule: abind_cases)
    case (err e)
    then show ?thesis using get_call [OF err(1)] by simp
  next
    case (ok existing u)
    note get = get_call [OF ok(1)]
    from ok(2) show ?thesis
    proof (cases rule: abind_cases)
      case (ok x v)
      then have "v = u" by (simp add: permit_Inr)
      with Cons.IH ok get show ?thesis by (auto simp: deletable_def permit_Inr row_of_def)
    next
      case (err e)
      then have "g' = u" by (simp add: permit_eq)
      with err(2) get show ?thesis by simp
    qed
  qed
qed (simp add: deletable_def)

lemma deletable_mono:
  "changes_by deleting rq coll g h \<Longrightarrow> deletable rq coll ids g \<Longrightarrow> deletable rq coll ids h"
  unfolding changes_by_def deletable_def deleting_def by (metis option.distinct(1))

lemma batch_delete_changes:
  assumes "db_call (batch_delete coll ids) g = (r, g')" "deletable rq coll ids g"
  shows "changes_by deleting rq coll g g'"
  using assms
proof (induction ids arbitrary: g r)
  case (Cons i ids)
  have step: "changes_by deleting rq coll g h" if "db_call (delete_document coll i) g = (q, h)" for q h
    using Cons.prems(2) by (intro delete_call [OF that]) (simp add: deletable_def)
  from Cons.prems(1) show ?case
    unfolding batch_delete.simps db_call_abind db_call_areturn
  proof (cases rule: abind_cases)
    case (err e)
    then show ?thesis using step by blast
  next
    case (ok v u)
    have "deletable rq coll ids u"
      using Cons.prems(2) by (intro deletable_mono [OF step [OF ok(1)]]) (simp add: deletable_def)
    then have rest: "changes_by deleting rq coll u g'" if "db_call (batch_delete coll ids) u = (q, g')" for q
      by (rule Cons.IH [OF that])
    from ok(2) have "changes_by deleting rq coll u g'" by (auto elim!: abind_cases intro: rest)
    with step [OF ok(1)] show ?thesis by (rule deleting_trans)
  qed
next
  case Nil
  then show ?case unfolding batch_delete.simps db_call_areturn by (simp add: changes_refl)
qed

lemma gql_batch_delete_changes:
  assumes "gql_batch_delete rq coll ids g = (r, g')"
  shows "changes_by deleting rq coll g g'"
proof (cases "500 < length ids")
  case True
  then show ?thesis using assms by (simp add: gql_batch_delete_def changes_refl)
next
  case False
  note run = assms [unfolded gql_batch_delete_def if_not_P [OF False]]
  from run show ?thesis
  proof (cases rule: abind_cases)
    case (err e)
    then show ?thesis using permit_deletes_eq [OF err(1)] by (simp add: changes_refl)
  next
    case (ok x u)
    note perm = permit_deletes_eq [OF ok(1)]
    then have del: "deletable rq coll ids u" by (simp add: deletable_def row_of_def)
    from ok(2) have "changes_by deleting rq coll u g'"
    proof (cases rule: abind_cases)
      case (err e)
      from batch_delete_changes [OF err(1) del] show ?thesis .
    next
      case (ok res w)
      have "tables (g_store g') = tables (g_store w)"
        using ok(2) by (auto elim!: abind_cases dest: emit_all_store)
      with batch_delete_changes [OF ok(1) del] show ?thesis by (rule changes_frame)
    qed
    then show ?thesis using perm by (auto intro: changes_frame_left)
  qed
qed

lemma update_entries_changes:
  assumes "update_entries rq coll n entries g = (r, g')"
  shows "changes_by updating rq coll g g'"
  using assms
proof (induction entries arbitrary: n g r)
  case Nil
  then show ?case by (simp add: changes_refl)
next
  case (Cons entry entries)
  show ?case
  proof (cases "update_entry entry")
    case (Inl e)
    then show ?thesis using Cons.prems by (simp add: changes_refl)
  next
    case (Inr ent)
    obtain i data where ent: "ent = (i, data)" by (cases ent)
    define first where "first = abind (db_call (get_document (rq_env rq) coll i)) (\<lambda>existing.
      abind (permit (denied_for i) rq coll ''update'' (Some existing) (Some data)) (\<lambda>_.
      abind (db_call (update_document (rq_env rq) (rq_clock rq n) coll i data)) (\<lambda>doc.
      abind (emit (change Update coll i doc (Some existing) (Some doc) (rq_stamp rq n))) (\<lambda>_. areturn doc))))"
    have split: "update_entries rq coll n (entry # entries) g =
        abind first (\<lambda>doc. abind (update_entries rq coll (n + 1) entries) (\<lambda>docs. areturn (doc # docs))) g"
      by (simp add: Inr ent first_def abind_def split: prod.split sum.split)
    have step: "changes_by updating rq coll g h" if "first g = (q, h)" for q h
      using that unfolding first_def by (rule read_check_write) (erule update_call, simp_all)
    from Cons.prems [unfolded split] show ?thesis
    proof (cases rule: abind_cases)
      case (err e)
      then show ?thesis using step by blast
    next
      case (ok doc u)
      from ok(2) have "changes_by updating rq coll u g'" by (auto elim!: abind_cases intro: Cons.IH)
      with step [OF ok(1)] show ?thesis by (rule updating_trans)
    qed
  qed
qed

lemma gql_batch_update_changes:
  "gql_batch_update rq coll raw g = (r, g') \<Longrightarrow> changes_by updating rq coll g g'"
  by (auto simp: gql_batch_update_def changes_refl update_entries_changes split: json.splits if_splits)

lemma single_eq: "single a g = (r, g') \<Longrightarrow> \<exists>q. a g = (q, g')"
  by (auto simp: single_def elim!: abind_cases)

lemma run_mutation_changes:
  assumes "run_mutation rq coll m g = (r, g')"
  shows "(\<exists>i raw. m = MSet i raw \<and> set_changes rq coll i raw g g') \<or> changes_by (\<lambda>_ _. True) rq coll g g'"
proof (cases m)
  case (MSet i d)
  with assms obtain q where "gql_set rq coll i d g = (q, g')" by (auto dest: single_eq)
  then show ?thesis using MSet gql_set_changes by blast
qed (use assms in \<open>auto dest!: single_eq gql_create_changes gql_update_changes gql_delete_changes
      gql_batch_create_changes gql_batch_delete_changes gql_batch_update_changes gql_field_values_changes intro: changes_weaken\<close>)

text \<open>
  C11. Authorisation of mutations. Whatever mutation a request runs, and whatever faults the
  database reports on the way, every document whose row it creates, changes or removes is one the
  rules allow the caller to create with the content that is stored, to update with the data that
  are merged into it (judged, for each entry of a batch, on the document that entry found), or to
  delete; every other document of the collection and every other collection is left as it was, also
  when the mutation ends in an error. The one exception is the case of the code in which \<open>set\<close> takes
  a document whose read failed as absent: then it is the create rule that allows the merge.
\<close>

theorem mutations_authorized:
  assumes "run_mutation rq coll m g = (r, g')"
  shows "(\<forall>c. c \<noteq> coll \<longrightarrow> tables (g_store g') c = tables (g_store g) c) \<and>
    (\<forall>k. row_of coll g' k = row_of coll g k \<or> allowed_change rq coll (row_of coll g k) (row_of coll g' k) \<or>
       unread_set rq coll m g k)"
  using run_mutation_changes [OF assms] unfolding changes_by_def set_changes_def by blast

subsection \<open>Change events\<close>

text \<open>
  \<open>queued coll g docs g'\<close>: the state \<open>g'\<close> has one more event than \<open>g\<close> for each of \<open>docs\<close>, in order,
  when the request has a sender.
\<close>

definition queued :: "string \<Rightarrow> gql_state \<Rightarrow> json list \<Rightarrow> gql_state \<Rightarrow> bool" where
  "queued coll g docs g' \<longleftrightarrow> g_sender g' = g_sender g \<and>
     (\<exists>evs. g_events g' = g_events g @ evs \<and> map ev_data evs = (if g_sender g then docs else []) \<and>
        (\<forall>ev \<in> set evs. ev_collection ev = coll))"

lemma queued_refl: "g_events g' = g_events g \<Longrightarrow> g_sender g' = g_sender g \<Longrightarrow> queued coll g [] g'"
  by (simp add: queued_def)

lemma queued_trans:
  assumes "queued coll g xs h" "queued coll h ys g'"
  shows "queued coll g (xs @ ys) g'"
proof -
  from assms(1) obtain e1 where "g_events h = g_events g @ e1" "map ev_data e1 = (if g_sender g then xs else [])"
    "\<forall>ev \<in> set e1. ev_collection ev = coll" "g_sender h = g_sender g"
    by (auto simp: queued_def)
  moreover from assms(2) obtain e2 where "g_events g' = g_events h @ e2" "map ev_data e2 = (if g_sender h then ys else [])"
    "\<forall>ev \<in> set e2. ev_collection ev = coll" "g_sender g' = g_sender h"
    by (auto simp: queued_def)
  ultimately show ?thesis unfolding queued_def by (intro conjI exI [of _ "e1 @ e2"]) auto
qed

lemma db_call_queued: "db_call a g = (r, g') \<Longrightarrow> queued coll g [] g'"
  by (auto simp: db_call_def intro!: queued_refl split: prod.splits)

lemma db_try_queued: "db_try a g = (r, g') \<Longrightarrow> queued coll g [] g'"
  by (auto simp: db_try_def intro!: queued_refl split: prod.splits)

lemma permit_queued: "permit msg rq coll' operation res inc g = (r, g') \<Longrightarrow> queued coll g [] g'"
  by (simp add: permit_eq queued_refl)

lemma emit_queued: "emit (change act coll i data b a t) g = (r, g') \<Longrightarrow> queued coll g [data] g'"
  by (auto simp: emit_def change_def queued_def split: if_splits)

lemma emit_all_queued:
  "emit_all (map (\<lambda>(n, doc). change act coll (f n doc) doc (b n doc) (a n doc) (t n doc)) (enumerate k docs)) g = (r, g')
     \<Longrightarrow> queued coll g docs g'"
proof (induction docs arbitrary: k g)
  case (Cons d docs)
  from Cons.prems obtain u where
    "emit (change act coll (f k d) d (b k d) (a k d) (t k d)) g = (Inr (), u)"
    "emit_all (map (\<lambda>(n, doc). change act coll (f n doc) doc (b n doc) (a n doc) (t n doc)) (enumerate (Suc k) docs)) u = (r, g')"
    by (auto elim!: abind_cases dest: emit_store)
  then have "queued coll g [d] u" "queued coll u docs g'" using Cons.IH by (blast dest: emit_queued)+
  then show ?case using queued_trans by force
qed (simp add: queued_refl)

text \<open>Sequencing: the events of a successful sequence are those of its parts.\<close>

definition reports :: "string \<Rightarrow> ('a \<Rightarrow> json list) \<Rightarrow> 'a gql_action \<Rightarrow> bool" where
  "reports coll out a \<longleftrightarrow> (\<forall>g x g'. a g = (Inr x, g') \<longrightarrow> queued coll g (out x) g')"

lemma reports_before:
  assumes "reports coll (\<lambda>_. []) a" "\<And>x. reports coll out (f x)"
  shows "reports coll out (abind a f)"
proof -
  have "queued coll g (out y) g'" if "a g = (Inr x, u)" "f x u = (Inr y, g')" for g x u y g'
    using queued_trans [of coll g "[]" u "out y" g'] assms that by (auto simp: reports_def)
  then show ?thesis by (auto simp: reports_def abind_eq_Inr)
qed

lemma reports_emit: "reports coll (\<lambda>x. [x]) (abind (emit (change act coll i doc b a t)) (\<lambda>_. areturn doc))"
  by (auto simp: reports_def abind_eq_Inr dest: emit_queued)

lemma reports_emit_all:
  "reports coll (\<lambda>x. x) (abind (emit_all (map (\<lambda>(n, doc). change act coll (f n doc) doc (b n doc) (a n doc) (t n doc))
     (enumerate k docs))) (\<lambda>_. areturn docs))"
  by (auto simp: reports_def abind_eq_Inr dest: emit_all_queued)

lemma reports_steps [simp]:
  "reports coll (\<lambda>_. []) (db_call c)" "reports coll (\<lambda>_. []) (db_try c')"
  "reports coll (\<lambda>_. []) (permit msg rq coll' operation res inc)" "reports coll out (athrow e)"
  by (auto simp: reports_def dest: db_call_queued db_try_queued permit_queued)

lemma reports_permit_creates [simp]: "reports coll (\<lambda>_. []) (permit_creates rq coll' docs)"
  by (auto simp: reports_def dest!: permit_creates_eq intro: queued_refl)

lemma reports_permit_deletes [simp]: "reports coll (\<lambda>_. []) (permit_deletes rq coll' ids)"
proof (induction ids)
  case Nil
  then show ?case by (simp add: reports_def queued_refl)
qed (auto intro!: reports_before)

lemmas reports_intros = reports_before reports_emit reports_emit_all

lemma reports_singles:
  "reports coll (\<lambda>x. [x]) (gql_create rq coll d)" "reports coll (\<lambda>x. [x]) (gql_update rq coll i d)"
  "reports coll (\<lambda>x. [x]) (gql_set rq coll i d)" "reports coll (\<lambda>x. [x]) (gql_delete rq coll i)"
  "reports coll (\<lambda>x. [x]) (gql_update_with_field_values rq coll i d)"
  unfolding gql_create_def gql_update_def gql_set_def gql_delete_def gql_update_with_field_values_def Let_def
  by (auto intro!: reports_intros)

lemma reports_batches:
  "reports coll (\<lambda>x. x) (gql_batch_create rq coll ds)" "reports coll (\<lambda>x. x) (gql_batch_delete rq coll ids)"
  unfolding gql_batch_create_def gql_batch_delete_def Let_def
  by (auto intro!: reports_intros)

lemma update_entries_queued:
  "update_entries rq coll n entries g = (Inr docs, g') \<Longrightarrow> queued coll g docs g'"
proof (induction entries arbitrary: n g docs)
  case Nil
  then show ?case by (simp add: queued_refl)
next
  case (Cons entry entries)
  then obtain i data existing u v doc w x rest where steps:
    "db_call (get_document (rq_env rq) coll i) g = (Inr existing, u)"
    "permit (denied_for i) rq coll ''update'' (Some existing) (Some data) u = (Inr (), v)"
    "db_call (update_document (rq_env rq) (rq_clock rq n) coll i data) v = (Inr doc, w)"
    "emit (change Update coll i doc (Some existing) (Some doc) (rq_stamp rq n)) w = (Inr (), x)"
    "update_entries rq coll (n + 1) entries x = (Inr rest, g')" "docs = doc # rest"
    by (auto simp: abind_eq_Inr simp del: abind_alift split: prod.splits)
  note before = queued_trans [OF db_call_queued [OF steps(1)] permit_queued [OF steps(2)]]
  from queued_trans [OF queued_trans [OF queued_trans [OF before db_call_queued [OF steps(3)]]
      emit_queued [OF steps(4)]] Cons.IH [OF steps(5)]]
  show ?case by (simp add: steps(6))
qed

lemma run_mutation_queued:
  assumes "run_mutation rq coll m g = (Inr docs, g')"
  shows "queued coll g docs g'"
proof -
  have one: "queued coll g docs g'" if "single a g = (Inr docs, g')" "reports coll (\<lambda>x. [x]) a" for a
    using that by (auto simp: single_def abind_eq_Inr reports_def)
  show ?thesis
    using assms reports_singles reports_batches
    by (cases m) (auto intro: one simp: reports_def gql_batch_update_def update_entries_queued split: json.splits if_splits)
qed

text \<open>A mutation of one document that ends in an error has changed nothing and queued nothing.\<close>

definition same_state :: "gql_state \<Rightarrow> gql_state \<Rightarrow> bool" where
  "same_state g g' \<longleftrightarrow> tables (g_store g') = tables (g_store g) \<and> g_events g' = g_events g"

definition error_free_effect :: "'a gql_action \<Rightarrow> bool" where
  "error_free_effect a \<longleftrightarrow> (\<forall>g e g'. a g = (Inl e, g') \<longrightarrow> same_state g g')"

definition only_reads :: "'a gql_action \<Rightarrow> bool" where
  "only_reads a \<longleftrightarrow> (\<forall>g r g'. a g = (r, g') \<longrightarrow> same_state g g')"

lemma read_then: "only_reads a \<Longrightarrow> (\<And>x. error_free_effect (f x)) \<Longrightarrow> error_free_effect (abind a f)"
  unfolding error_free_effect_def only_reads_def same_state_def by (auto elim!: abind_cases)

lemma write_then_emit: "error_free_effect a \<Longrightarrow> error_free_effect (abind a (\<lambda>x. abind (emit (ev x)) (\<lambda>_. areturn (h x))))"
  unfolding error_free_effect_def by (auto elim!: abind_cases dest: emit_store)

lemma only_reads_steps:
  "only_reads (db_call (get_document env coll i))" "only_reads (db_try (get_document env coll i))"
  "only_reads (permit msg rq coll operation res inc)"
  by (auto simp: only_reads_def same_state_def db_call_def db_try_def permit_eq split: prod.splits dest!: get_document_cases)

lemma error_free_steps:
  "error_free_effect (db_call (create_document env uuid now coll d))" "error_free_effect (db_call (update_document env now coll i d))"
  "error_free_effect (db_call (upsert_document env now coll i d))" "error_free_effect (db_call (delete_document coll i))"
  by (auto simp: error_free_effect_def same_state_def db_call_def map_err_def split: prod.splits sum.splits
      dest!: create_document_cases update_document_cases upsert_document_cases delete_document_cases)

lemma error_free_singles:
  "error_free_effect (gql_create rq coll d)" "error_free_effect (gql_update rq coll i d)"
  "error_free_effect (gql_set rq coll i d)" "error_free_effect (gql_delete rq coll i)"
  "error_free_effect (gql_update_with_field_values rq coll i d)"
  unfolding gql_create_def gql_update_def gql_set_def gql_delete_def gql_update_with_field_values_def Let_def
    update_with_field_values_def if_cancel
  by (intro read_then write_then_emit only_reads_steps error_free_steps)+

fun is_batch :: "mutation \<Rightarrow> bool" where
  "is_batch (MBatchCreate _) = True"
| "is_batch (MBatchDelete _) = True"
| "is_batch (MBatchUpdate _) = True"
| "is_batch _ = False"

text \<open>
  Change events. A mutation that succeeds has queued exactly one event per returned document,
  in the order of the documents and with the document as its data (none when the request has no
  live sender); a mutation of a single document that fails has changed no document and
  queued no event, whatever faults the database reported.
\<close>

theorem mutations_report_changes:
  assumes "run_mutation rq coll m g = (r, g')"
  shows "case r of
      Inr docs \<Rightarrow> (\<exists>evs. g_events g' = g_events g @ evs \<and> map ev_data evs = (if g_sender g then docs else []) \<and>
        (\<forall>ev \<in> set evs. ev_collection ev = coll))
    | Inl e \<Rightarrow> is_batch m \<or> tables (g_store g') = tables (g_store g) \<and> g_events g' = g_events g"
proof (cases r)
  case (Inr docs)
  then show ?thesis using run_mutation_queued assms by (auto simp: queued_def)
next
  case (Inl e)
  have one: "same_state g g'" if "single a g = (Inl e, g')" "error_free_effect a" for a
    using that by (auto simp: single_def error_free_effect_def elim!: abind_cases)
  have "is_batch m \<or> same_state g g'"
    using assms Inl error_free_singles by (cases m) (auto intro: one)
  then show ?thesis by (simp add: Inl same_state_def)
qed

subsection \<open>Limits\<close>

lemma get_document_fault:
  assumes "safe_identifier coll" "pg_faults s = [Some e]"
  shows "get_document env coll i s =
    (Inl (Database (''Failed to create table '' @ coll @ '': '' @ e)), s\<lparr>pg_faults := []\<rparr>)"
  using assms by (simp add: get_document_def ensure_table_def abind_def sanitize_ok pg_exec_def)

text \<open>
  A failed read makes \<open>set\<close> check the wrong rule. When the read of the existing document fails
  with a database error, \<open>set\<close> takes the document as absent: it checks the create rule, on no
  resource, and then merges the data into the stored document, whatever the update rule says.
\<close>

theorem set_checks_create_rule_after_fault:
  assumes "safe_identifier coll" "pg_faults (g_store g) = [Some e]"
    and row: "row_of coll g (bare_id coll i) = Some row"
    and allowed: "check (rq_engine rq) coll ''create''
      (request_context rq None (Some (normalize_data (rq_parse rq) raw))) = Inr True"
    and body: "pg_to_jsonb (rq_env rq) (normalize_data (rq_parse rq) raw) = Inr body"
  shows "\<exists>doc g'. run_mutation rq coll (MSet i raw) g = (Inr [doc], g') \<and>
    row_of coll g' (bare_id coll i) = Some (merged (rq_clock rq 0) body row)"
proof -
  define s where "s = (g_store g)\<lparr>pg_faults := []\<rparr>"
  have calm: "pg_calm coll s" using assms(1) by (simp add: s_def pg_calm_def)
  have "doc_of (bare_id coll i) (tables s coll) = Some row" using row by (simp add: s_def row_of_def)
  with upsert_document_calm [OF calm body, of "rq_clock rq 0" i]
  have put: "upsert_document (rq_env rq) (rq_clock rq 0) coll i (normalize_data (rq_parse rq) raw) s =
      (Inr (inject_document_metadata (rq_env rq) (merged (rq_clock rq 0) body row)),
       s\<lparr>tables := (tables s)(coll := map (\<lambda>r. if d_id r = bare_id coll i then merged (rq_clock rq 0) body r else r) (tables s coll))\<rparr>)"
    by simp
  show ?thesis
    using row allowed put
    by (simp add: single_def gql_set_def abind_def db_try_def db_call_def get_document_fault [OF assms(1,2)] Let_def
        permit_def emit_def row_of_def doc_of_merge flip: s_def) (simp add: s_def)
qed

text \<open>
  Field markers are stored as they are. An update whose data carries a marker such as
  \<open>_increment\<close> for a field, by \<open>update\<close> or by \<open>update_with_field_values\<close>, stores the marker object
  itself as the new value of the field: nothing is incremented, joined, removed or stamped.
\<close>

theorem field_markers_are_stored:
  assumes calm: "pg_calm coll (g_store g)"
    and row: "row_of coll g (bare_id coll i) = Some row" "d_data row = JObject old"
    and allowed: "check (rq_engine rq) coll ''update''
      (request_context rq (Some (inject_document_metadata (rq_env rq) row)) (Some (normalize_data (rq_parse rq) raw))) = Inr True"
    and body: "pg_to_jsonb (rq_env rq) (normalize_data (rq_parse rq) raw) = Inr (JObject body)"
    and marker: "obj_ok body" "map_of body f = Some (JObject mk)"
    and m: "m = MUpdate i raw \<or> m = MUpdateWithFieldValues i raw"
  shows "\<exists>doc g' row'. run_mutation rq coll m g = (Inr [doc], g') \<and>
    row_of coll g' (bare_id coll i) = Some row' \<and> jget f (d_data row') = Some (JObject mk)"
proof -
  have rd: "doc_of (bare_id coll i) (tables (g_store g) coll) = Some row" using row(1) by (simp add: row_of_def)
  have get: "get_document (rq_env rq) coll i (g_store g) = (Inr (inject_document_metadata (rq_env rq) row), g_store g)"
    by (simp add: get_document_calm [OF calm] rd)
  have val: "jget f (d_data (merged t (JObject body) row)) = Some (JObject mk)" for t
    using row(2) marker by (simp add: jget_def map_of_obj_merge)
  show ?thesis
    using m allowed val
    by (auto simp: single_def gql_update_def gql_update_with_field_values_def update_with_field_values_def abind_def
        db_call_def get update_document_calm [OF calm body rd] Let_def permit_def emit_def row_of_def doc_of_merge rd)
qed

text \<open>
  A batch is not atomic. When two documents of a batch carry the same new id, the batch ends in
  an error, and yet the first document is stored, without a change event.
\<close>

theorem batch_create_is_partial:
  assumes calm: "pg_calm coll (g_store g)"
    and ids: "map_of m1 ''id'' = Some (JString i)" "map_of m2 ''id'' = Some (JString i)"
    and free: "row_of coll g i = None"
    and allowed: "\<And>m. m \<in> {m1, m2} \<Longrightarrow>
      check (rq_engine rq) coll ''create'' (request_context rq None (Some (JObject m))) = Inr True"
    and body: "pg_to_jsonb (rq_env rq) (JObject m1) = Inr b1" "pg_to_jsonb (rq_env rq) (JObject m2) = Inr b2"
  shows "\<exists>g' row. run_mutation rq coll (MBatchCreate [JObject m1, JObject m2]) g = (Inl internal_error, g') \<and>
    g_events g' = g_events g \<and> row_of coll g' i = Some row \<and> d_data row = b1"
proof -
  define s1 where "s1 = (g_store g)\<lparr>tables := (tables (g_store g))(coll := tables (g_store g) coll @
    [\<lparr>d_id = i, d_data = b1, d_created_at = rq_clock rq 0, d_updated_at = rq_clock rq 0\<rparr>])\<rparr>"
  have calm1: "pg_calm coll s1" using calm by (simp add: s1_def pg_calm_def)
  have id: "jget_str ''id'' (JObject m) = Some i" if "map_of m ''id'' = Some (JString i)" for m
    using that by (simp add: jget_str_def jget_def)
  have first: "create_document (rq_env rq) (rq_uuid rq 0) (rq_clock rq 0) coll (JObject m1) (g_store g) =
      (Inr (inject_document_metadata (rq_env rq) \<lparr>d_id = i, d_data = b1, d_created_at = rq_clock rq 0, d_updated_at = rq_clock rq 0\<rparr>), s1)"
    using free by (simp add: create_document_calm [OF calm body(1)] id [OF ids(1)] row_of_def s1_def Let_def)
  have "doc_of i (tables s1 coll) \<noteq> None" using free by (simp add: s1_def row_of_def doc_of_append)
  then have second: "\<exists>e. create_document (rq_env rq) (rq_uuid rq 1) (rq_clock rq 1) coll (JObject m2) s1 = (Inl e, s1)"
    by (auto simp: create_document_calm [OF calm1 body(2)] id [OF ids(2)])
  then show ?thesis
    using allowed free first
    by (auto simp: gql_batch_create_def flatten_docs_def normalize_data_def abind_def permit_def db_call_def
        row_of_def s1_def doc_of_append)
qed

subsection \<open>Witnesses\<close>

definition orders_engine :: rule_map where
  "orders_engine = [(''orders'', \<lparr>collection = ''orders'', rules =
     [\<lparr>operations = [''create''], condition = EFunctionCall ''isAuthenticated'' [], validation = None\<rparr>,
      \<lparr>operations = [''update'', ''delete''], condition = EFunctionCall ''isOwner'' [EPath ''resource.owner''], validation = None\<rparr>]\<rparr>)]"

definition request_of :: "string \<Rightarrow> gql_request" where
  "request_of user = \<lparr>rq_env = sample_pg, rq_engine = orders_engine,
     rq_auth = Some \<lparr>au_user_id = user, au_roles = [], au_authenticated = True, au_email_verified = True, au_custom_claims = JNull\<rparr>,
     rq_parse = (\<lambda>_. None), rq_uuid = (\<lambda>n. ''u'' @ nat_to_string n), rq_clock = int, rq_stamp = (\<lambda>_. ''t'')\<rparr>"

definition alices_order :: doc_row where
  "alices_order = \<lparr>d_id = ''o1'', d_data = JObject [(''owner'', JString ''alice''), (''qty'', JNumber (PosInt 1))],
     d_created_at = 0, d_updated_at = 0\<rparr>"

definition orders_state :: "string option list \<Rightarrow> gql_state" where
  "orders_state faults = \<lparr>g_store = \<lparr>tables = (\<lambda>_. [])(''orders'' := [alices_order]), pg_faults = faults\<rparr>,
     g_events = [], g_sender = True\<rparr>"

lemma orders_row [simp]: "row_of ''orders'' (orders_state fs) ''o1'' = Some alices_order"
  by (simp add: row_of_def orders_state_def doc_of_def alices_order_def)

lemma orders_check:
  "check orders_engine ''orders'' ''create'' (request_context (request_of u) None inc) = Inr True"
  "check orders_engine ''orders'' ''update'' (request_context (request_of ''mallory'') (Some (inject_document_metadata sample_pg alices_order)) inc)
     = Inr False"
  "check orders_engine ''orders'' ''update'' (request_context (request_of ''alice'') (Some (inject_document_metadata sample_pg alices_order)) inc)
     = Inr True"
  "check orders_engine ''orders'' ''delete'' (request_context (request_of ''mallory'') (Some (inject_document_metadata sample_pg alices_order)) inc)
     = Inr False"
  by code_simp+

lemma request_of_simps [simp]:
  "rq_env (request_of u) = sample_pg" "rq_engine (request_of u) = orders_engine" "rq_clock (request_of u) n = int n"
  by (simp_all add: request_of_def)

lemma sample_jsonb [simp]: "pg_to_jsonb sample_pg d = Inr d"
  by (simp add: sample_pg_def)

lemma normalize_object [simp]: "normalize_data p (JObject m) = JObject m"
  by (simp add: normalize_data_def)

theorem mutations_authorized_witness:
  "row_of ''orders'' (snd (run_mutation (request_of ''mallory'') ''orders'' (MDelete ''o1'') (orders_state [None, Some ''timeout'']))) ''o1''
     = Some alices_order"
proof -
  let ?g = "orders_state [None, Some ''timeout'']"
  obtain r g' where run: "run_mutation (request_of ''mallory'') ''orders'' (MDelete ''o1'') ?g = (r, g')" by fastforce
  have "row_of ''orders'' g' ''o1'' = row_of ''orders'' ?g ''o1'' \<or>
      allowed_change (request_of ''mallory'') ''orders'' (row_of ''orders'' ?g ''o1'') (row_of ''orders'' g' ''o1'')"
    using mutations_authorized [OF run, THEN conjunct2, THEN spec, of "''o1''"] by (simp only: unread_set_def mutation.distinct simp_thms)
  moreover have "\<not> allowed_update (request_of ''mallory'') ''orders'' alices_order row" for row
    by (simp add: allowed_update_def orders_check)
  ultimately have "row_of ''orders'' g' ''o1'' = Some alices_order"
    by (cases "row_of ''orders'' g' ''o1''") (auto simp: allowed_change_def orders_check dest: tranclpD)
  then show ?thesis unfolding run by simp
qed

lemma create_runs: "is_ok (fst (run_mutation (request_of ''alice'') ''orders'' (MCreate (JObject [])) (orders_state [])))"
  by code_simp

theorem mutations_report_changes_witness:
  "\<exists>docs g'. run_mutation (request_of ''alice'') ''orders'' (MCreate (JObject [])) (orders_state []) = (Inr docs, g') \<and>
     map ev_data (g_events g') = docs"
proof -
  obtain docs g' where run: "run_mutation (request_of ''alice'') ''orders'' (MCreate (JObject [])) (orders_state []) = (Inr docs, g')"
    using create_runs by (auto simp: is_ok_def split: sum.splits prod.splits simp del: run_mutation.simps) (metis surjective_pairing)
  have "g_sender (orders_state [])" "g_events (orders_state []) = []" by (simp_all add: orders_state_def)
  then show ?thesis using mutations_report_changes [OF run] unfolding run by simp
qed

theorem set_checks_create_rule_after_fault_witness:
  "(\<exists>doc g'. run_mutation (request_of ''mallory'') ''orders'' (MSet ''o1'' (JObject [(''owner'', JString ''mallory'')]))
       (orders_state [Some ''timeout'']) = (Inr [doc], g') \<and>
     row_of ''orders'' g' ''o1'' = Some (merged 0 (JObject [(''owner'', JString ''mallory'')]) alices_order)) \<and>
   check orders_engine ''orders'' ''update'' (request_context (request_of ''mallory'')
     (Some (inject_document_metadata sample_pg alices_order)) None) = Inr False"
  using set_checks_create_rule_after_fault [of "''orders''" "orders_state [Some ''timeout'']" "''timeout''" "''o1''" alices_order
      "request_of ''mallory''" "JObject [(''owner'', JString ''mallory'')]" "JObject [(''owner'', JString ''mallory'')]"]
  by (simp add: orders_check del: run_mutation.simps) (simp add: orders_state_def)

theorem field_markers_are_stored_witness:
  "\<exists>doc g' row'. run_mutation (request_of ''alice'') ''orders''
       (MUpdateWithFieldValues ''o1'' (JObject [(''qty'', JObject [(''_increment'', JNumber (PosInt 5))])])) (orders_state []) = (Inr [doc], g') \<and>
     row_of ''orders'' g' ''o1'' = Some row' \<and> jget ''qty'' (d_data row') = Some (JObject [(''_increment'', JNumber (PosInt 5))])"
  using field_markers_are_stored [of "''orders''" "orders_state []" "''o1''" alices_order
      "[(''owner'', JString ''alice''), (''qty'', JNumber (PosInt 1))]" "request_of ''alice''"
      "JObject [(''qty'', JObject [(''_increment'', JNumber (PosInt 5))])]" "[(''qty'', JObject [(''_increment'', JNumber (PosInt 5))])]"
      "''qty''" "[(''_increment'', JNumber (PosInt 5))]"
      "MUpdateWithFieldValues ''o1'' (JObject [(''qty'', JObject [(''_increment'', JNumber (PosInt 5))])])"]
  by (simp add: orders_check obj_ok_def pg_calm_def del: run_mutation.simps) (simp add: orders_state_def alices_order_def)

theorem batch_create_is_partial_witness:
  "\<exists>g' row. run_mutation (request_of ''bob'') ''orders'' (MBatchCreate
       [JObject [(''id'', JString ''x''), (''n'', JNull)], JObject [(''id'', JString ''x'')]]) (orders_state []) = (Inl internal_error, g') \<and>
     g_events g' = [] \<and> row_of ''orders'' g' ''x'' = Some row \<and> d_data row = JObject [(''id'', JString ''x''), (''n'', JNull)]"
  using batch_create_is_partial [of "''orders''" "orders_state []" "[(''id'', JString ''x''), (''n'', JNull)]" "''x''"
      "[(''id'', JString ''x'')]" "request_of ''bob''" "JObject [(''id'', JString ''x''), (''n'', JNull)]" "JObject [(''id'', JString ''x'')]"]
  by (simp add: orders_check pg_calm_def del: run_mutation.simps) (simp add: orders_state_def row_of_def doc_of_def alices_order_def)

end
