(* ===== verification/Auth_Rotation.thy ===== *)
theory Auth_Rotation
  imports Auth_Tokens
begin

text \<open>
  Concurrent refreshes. Any number of refresh requests, logouts, cleanups and unrelated writers run
  against one database; a request moves from phase to phase by the statements of the \<open>refresh\<close>
  handler (\<open>crates/ob-auth/src/routes.rs\<close>): it takes the advisory lock of its token, checks the token
  and the user, revokes the token, and releases the lock when its transaction ends, which may happen
  at any moment by an error or a dropped connection. The clock may advance between any
  two steps.
\<close>

datatype phase =
    Idle
  | Locked string
  | Checked string int
  | Rotated string
  | Finished

record rotation =
  rt_token :: string
  rt_checked :: int
  rt_revoked :: int

record rot_sys =
  r_store :: pg_state
  r_clock :: int
  r_phase :: "nat \<Rightarrow> phase"
  r_rotations :: "rotation list"

fun holder :: "phase \<Rightarrow> string option" where
  "holder (Locked tok) = Some tok"
| "holder (Checked tok _) = Some tok"
| "holder (Rotated tok) = Some tok"
| "holder _ = None"

definition lock_free :: "auth_lib \<Rightarrow> rot_sys \<Rightarrow> string \<Rightarrow> bool" where
  "lock_free lib \<sigma> tok \<longleftrightarrow>
     (\<forall>n tok'. holder (r_phase \<sigma> n) = Some tok' \<longrightarrow> rotation_lock_key lib tok' \<noteq> rotation_lock_key lib tok)"

abbreviation to_phase :: "rot_sys \<Rightarrow> nat \<Rightarrow> phase \<Rightarrow> rot_sys" where
  "to_phase \<sigma> n p \<equiv> \<sigma>\<lparr>r_phase := (r_phase \<sigma>)(n := p)\<rparr>"

inductive rot_step :: "auth_lib \<Rightarrow> pg_env \<Rightarrow> (string \<Rightarrow> string + int) \<Rightarrow> AuthState \<Rightarrow> rot_sys \<Rightarrow> rot_sys \<Rightarrow> bool"
  for lib env bigint st where
  tick: "r_clock \<sigma> \<le> t \<Longrightarrow> t < 2 ^ 62 \<Longrightarrow> rot_step lib env bigint st \<sigma> (\<sigma>\<lparr>r_clock := t\<rparr>)"
| acquire: "r_phase \<sigma> n = Idle \<Longrightarrow> lock_free lib \<sigma> tok \<Longrightarrow> rot_step lib env bigint st \<sigma> (to_phase \<sigma> n (Locked tok))"
| check_ok: "r_phase \<sigma> n = Locked tok \<Longrightarrow>
    refresh_check lib env st (r_clock \<sigma>) tok (r_store \<sigma>) = (Inr (claims, user), s') \<Longrightarrow>
    refresh_issue lib st (r_clock \<sigma>) claims user = Inr response \<Longrightarrow>
    rot_step lib env bigint st \<sigma> ((to_phase \<sigma> n (Checked tok (r_clock \<sigma>)))\<lparr>r_store := s'\<rparr>)"
| check_err: "r_phase \<sigma> n = Locked tok \<Longrightarrow>
    refresh_check lib env st (r_clock \<sigma>) tok (r_store \<sigma>) = (r, s') \<Longrightarrow>
    rot_step lib env bigint st \<sigma> ((to_phase \<sigma> n Finished)\<lparr>r_store := s'\<rparr>)"
| rotate_ok: "r_phase \<sigma> n = Checked tok t \<Longrightarrow>
    revoke_token lib env (r_clock \<sigma>) tok (as_refresh_ttl st) (r_store \<sigma>) = (Inr (), s') \<Longrightarrow>
    rot_step lib env bigint st \<sigma> ((to_phase \<sigma> n (Rotated tok))\<lparr>r_store := s',
      r_rotations := r_rotations \<sigma> @ [\<lparr>rt_token = tok, rt_checked = t, rt_revoked = r_clock \<sigma>\<rparr>]\<rparr>)"
| rotate_err: "r_phase \<sigma> n = Checked tok t \<Longrightarrow>
    revoke_token lib env (r_clock \<sigma>) tok (as_refresh_ttl st) (r_store \<sigma>) = (Inl e, s') \<Longrightarrow>
    rot_step lib env bigint st \<sigma> ((to_phase \<sigma> n Finished)\<lparr>r_store := s'\<rparr>)"
| release: "holder (r_phase \<sigma> n) \<noteq> None \<Longrightarrow> rot_step lib env bigint st \<sigma> (to_phase \<sigma> n Finished)"
| log_out: "logout lib env st (r_clock \<sigma>) tok (r_store \<sigma>) = (r, s') \<Longrightarrow>
    rot_step lib env bigint st \<sigma> (\<sigma>\<lparr>r_store := s'\<rparr>)"
| cleanup: "cleanup_revoked_tokens bigint env (r_clock \<sigma>) (r_store \<sigma>) = (q, s') \<Longrightarrow>
    rot_step lib env bigint st \<sigma> (\<sigma>\<lparr>r_store := s'\<rparr>)"
| others: "tables s' REVOKED_TABLE = tables (r_store \<sigma>) REVOKED_TABLE \<Longrightarrow>
    rot_step lib env bigint st \<sigma> (\<sigma>\<lparr>r_store := s'\<rparr>)"

definition rot_init :: "auth_lib \<Rightarrow> rot_sys \<Rightarrow> bool" where
  "rot_init lib \<sigma> \<longleftrightarrow> revocation_rows lib (tables (r_store \<sigma>) REVOKED_TABLE) \<and> 0 \<le> r_clock \<sigma> \<and> r_clock \<sigma> < 2 ^ 62 \<and>
     (\<forall>n. r_phase \<sigma> n = Idle) \<and> r_rotations \<sigma> = []"

subsection \<open>The invariant\<close>

definition entry_of :: "auth_lib \<Rightarrow> rot_sys \<Rightarrow> string \<Rightarrow> int option" where
  "entry_of lib \<sigma> tok = rev_entry (tables (r_store \<sigma>) REVOKED_TABLE) (al_sha256_hex lib tok)"

text \<open>A rotation is on record, or so old that its record may have been cleaned up.\<close>

definition recorded :: "auth_lib \<Rightarrow> nat \<Rightarrow> rot_sys \<Rightarrow> rotation \<Rightarrow> bool" where
  "recorded lib ttl \<sigma> w \<longleftrightarrow> 0 \<le> rt_revoked w \<and> rt_revoked w \<le> r_clock \<sigma> \<and>
     ((\<exists>e. entry_of lib \<sigma> (rt_token w) = Some e \<and> rt_revoked w + int ttl \<le> e) \<or> rt_revoked w + int ttl < r_clock \<sigma>)"

definition apart :: "nat \<Rightarrow> rotation \<Rightarrow> rotation \<Rightarrow> bool" where
  "apart ttl w w' \<longleftrightarrow> (rt_token w = rt_token w' \<longrightarrow> rt_revoked w + int ttl \<le> rt_checked w')"

definition rot_inv :: "auth_lib \<Rightarrow> nat \<Rightarrow> rot_sys \<Rightarrow> bool" where
  "rot_inv lib ttl \<sigma> \<longleftrightarrow>
     revocation_rows lib (tables (r_store \<sigma>) REVOKED_TABLE) \<and> 0 \<le> r_clock \<sigma> \<and> r_clock \<sigma> < 2 ^ 62 \<and>
     (\<forall>n m tok. holder (r_phase \<sigma> n) = Some tok \<longrightarrow> holder (r_phase \<sigma> m) = Some tok \<longrightarrow> n = m) \<and>
     (\<forall>w \<in> set (r_rotations \<sigma>). recorded lib ttl \<sigma> w) \<and>
     (\<forall>n tok t. r_phase \<sigma> n = Checked tok t \<longrightarrow> (\<forall>w \<in> set (r_rotations \<sigma>). rt_token w = tok \<longrightarrow> rt_revoked w + int ttl \<le> t)) \<and>
     sorted_wrt (apart ttl) (r_rotations \<sigma>)"

lemma rot_invI:
  assumes "revocation_rows lib (tables (r_store \<sigma>) REVOKED_TABLE)" "0 \<le> r_clock \<sigma>" "r_clock \<sigma> < 2 ^ 62"
    and "\<And>n m tok. holder (r_phase \<sigma> n) = Some tok \<Longrightarrow> holder (r_phase \<sigma> m) = Some tok \<Longrightarrow> n = m"
    and "\<And>w. w \<in> set (r_rotations \<sigma>) \<Longrightarrow> recorded lib ttl \<sigma> w"
    and "\<And>n tok t w. r_phase \<sigma> n = Checked tok t \<Longrightarrow> w \<in> set (r_rotations \<sigma>) \<Longrightarrow> rt_token w = tok \<Longrightarrow>
      rt_revoked w + int ttl \<le> t"
    and "sorted_wrt (apart ttl) (r_rotations \<sigma>)"
  shows "rot_inv lib ttl \<sigma>"
  using assms unfolding rot_inv_def by blast

text \<open>Steps that keep the rotations, lose no record and only release locks or leave them as they are.\<close>

lemma rot_inv_frame:
  assumes inv: "rot_inv lib ttl \<sigma>" and rows: "revocation_rows lib (tables (r_store \<sigma>') REVOKED_TABLE)"
    and clock: "r_clock \<sigma> \<le> r_clock \<sigma>'" "r_clock \<sigma>' < 2 ^ 62"
    and rot: "r_rotations \<sigma>' = r_rotations \<sigma>"
    and phases: "\<And>n. r_phase \<sigma>' n = r_phase \<sigma> n \<or> r_phase \<sigma>' n = Finished"
    and kept: "\<And>tok e. entry_of lib \<sigma> tok = Some e \<Longrightarrow>
      (\<exists>e'. entry_of lib \<sigma>' tok = Some e' \<and> (e \<le> e' \<or> r_clock \<sigma> + int ttl \<le> e')) \<or> e < r_clock \<sigma>'"
  shows "rot_inv lib ttl \<sigma>'"
proof -
  have rec: "recorded lib ttl \<sigma>' w" if "recorded lib ttl \<sigma> w" for w
  proof (cases "rt_revoked w + int ttl < r_clock \<sigma>")
    case True
    with that clock show ?thesis by (simp add: recorded_def)
  next
    case False
    with that obtain e where "entry_of lib \<sigma> (rt_token w) = Some e" "rt_revoked w + int ttl \<le> e" "rt_revoked w \<le> r_clock \<sigma>"
      "0 \<le> rt_revoked w"
      by (auto simp: recorded_def)
    with kept [of "rt_token w" e] clock show ?thesis by (auto simp: recorded_def)
  qed
  have hold: "holder (r_phase \<sigma>' n) = Some tok \<Longrightarrow> holder (r_phase \<sigma> n) = Some tok" for n tok
    using phases [of n] by auto
  have chk: "r_phase \<sigma>' n = Checked tok t \<Longrightarrow> r_phase \<sigma> n = Checked tok t" for n tok t
    using phases [of n] by auto
  from inv have I: "0 \<le> r_clock \<sigma>" "\<And>n m tok. holder (r_phase \<sigma> n) = Some tok \<Longrightarrow> holder (r_phase \<sigma> m) = Some tok \<Longrightarrow> n = m"
    "\<And>w. w \<in> set (r_rotations \<sigma>) \<Longrightarrow> recorded lib ttl \<sigma> w"
    "\<And>n tok t w. r_phase \<sigma> n = Checked tok t \<Longrightarrow> w \<in> set (r_rotations \<sigma>) \<Longrightarrow> rt_token w = tok \<Longrightarrow> rt_revoked w + int ttl \<le> t"
    "sorted_wrt (apart ttl) (r_rotations \<sigma>)"
    unfolding rot_inv_def by blast+
  show ?thesis
    unfolding rot_inv_def rot using rows clock I(1,5) rec I(3) hold I(2) chk I(4) by (intro conjI allI ballI impI) (auto, blast)
qed

lemma expiry_at_sum: "0 \<le> now \<Longrightarrow> now < 2 ^ 62 \<Longrightarrow> ttl < 2 ^ 62 \<Longrightarrow> expiry_at now ttl = now + int ttl"
proof -
  assume b: "0 \<le> now" "now < 2 ^ 62" "ttl < 2 ^ 62"
  then have "int ttl < int (2 ^ 62)" by (simp only: of_nat_less_iff)
  with b show ?thesis by (simp add: expiry_at_def i64_range_def)
qed

lemma revoke_keeps:
  assumes "revoke_token lib env (r_clock \<sigma>) tok ttl (r_store \<sigma>) = (r, s')" "revocation_libs lib env"
    and "rot_inv lib ttl \<sigma>" "ttl < 2 ^ 62"
  shows "revocation_rows lib (tables s' REVOKED_TABLE)"
    and "rev_entry (tables (r_store \<sigma>) REVOKED_TABLE) h = Some e \<Longrightarrow>
      \<exists>e'. rev_entry (tables s' REVOKED_TABLE) h = Some e' \<and> (e \<le> e' \<or> r_clock \<sigma> + int ttl \<le> e')"
    and "r = Inr () \<Longrightarrow> rev_entry (tables s' REVOKED_TABLE) (al_sha256_hex lib tok) = Some (r_clock \<sigma> + int ttl)"
proof -
  have rows: "revocation_rows lib (tables (r_store \<sigma>) REVOKED_TABLE)" and clock: "0 \<le> r_clock \<sigma>" "r_clock \<sigma> < 2 ^ 62"
    using assms(3) by (simp_all add: rot_inv_def)
  note cases = revoke_token_cases [OF assms(1,2) rows] expiry_at_sum [OF clock assms(4)]
  show "revocation_rows lib (tables s' REVOKED_TABLE)" using cases by blast
  show "rev_entry (tables (r_store \<sigma>) REVOKED_TABLE) h = Some e \<Longrightarrow>
      \<exists>e'. rev_entry (tables s' REVOKED_TABLE) h = Some e' \<and> (e \<le> e' \<or> r_clock \<sigma> + int ttl \<le> e')"
    using cases by (cases r) auto
  show "r = Inr () \<Longrightarrow> rev_entry (tables s' REVOKED_TABLE) (al_sha256_hex lib tok) = Some (r_clock \<sigma> + int ttl)"
    using cases by simp
qed

lemma rot_inv_acquire:
  assumes "rot_inv lib ttl \<sigma>" "lock_free lib \<sigma> tok" "r_phase \<sigma> n = Idle"
  shows "rot_inv lib ttl (to_phase \<sigma> n (Locked tok))"
  using assms unfolding rot_inv_def lock_free_def recorded_def entry_of_def by auto

lemma rot_inv_checked:
  assumes inv: "rot_inv lib ttl \<sigma>" and ph: "r_phase \<sigma> n = Locked tok" and same: "tables s' = tables (r_store \<sigma>)"
    and old: "\<And>e. entry_of lib \<sigma> tok = Some e \<Longrightarrow> e \<le> r_clock \<sigma>"
  shows "rot_inv lib ttl ((to_phase \<sigma> n (Checked tok (r_clock \<sigma>)))\<lparr>r_store := s'\<rparr>)"
proof -
  have "rt_revoked w + int ttl \<le> r_clock \<sigma>" if "recorded lib ttl \<sigma> w" "rt_token w = tok" for w
    using that old by (auto simp: recorded_def)
  moreover have "holder (r_phase \<sigma> n) = Some tok" using ph by simp
  ultimately show ?thesis
    using inv same ph unfolding rot_inv_def recorded_def entry_of_def by (auto split: if_splits)
qed

lemma rot_inv_rotated:
  assumes inv: "rot_inv lib ttl \<sigma>" and ph: "r_phase \<sigma> n = Checked tok t" and "ttl < 2 ^ 62"
    and rows: "revocation_rows lib (tables s' REVOKED_TABLE)"
    and kept: "\<And>h e. rev_entry (tables (r_store \<sigma>) REVOKED_TABLE) h = Some e \<Longrightarrow>
      \<exists>e'. rev_entry (tables s' REVOKED_TABLE) h = Some e' \<and> (e \<le> e' \<or> r_clock \<sigma> + int ttl \<le> e')"
    and new: "rev_entry (tables s' REVOKED_TABLE) (al_sha256_hex lib tok) = Some (r_clock \<sigma> + int ttl)"
  shows "rot_inv lib ttl ((to_phase \<sigma> n (Rotated tok))\<lparr>r_store := s',
      r_rotations := r_rotations \<sigma> @ [\<lparr>rt_token = tok, rt_checked = t, rt_revoked = r_clock \<sigma>\<rparr>]\<rparr>)"
    (is "rot_inv lib ttl ?\<sigma>'")
proof -
  let ?w = "\<lparr>rt_token = tok, rt_checked = t, rt_revoked = r_clock \<sigma>\<rparr>"
  from inv have I: "0 \<le> r_clock \<sigma>" "r_clock \<sigma> < 2 ^ 62"
    "\<And>n m tok. holder (r_phase \<sigma> n) = Some tok \<Longrightarrow> holder (r_phase \<sigma> m) = Some tok \<Longrightarrow> n = m"
    "\<And>w. w \<in> set (r_rotations \<sigma>) \<Longrightarrow> recorded lib ttl \<sigma> w"
    "\<And>n tok t w. r_phase \<sigma> n = Checked tok t \<Longrightarrow> w \<in> set (r_rotations \<sigma>) \<Longrightarrow> rt_token w = tok \<Longrightarrow> rt_revoked w + int ttl \<le> t"
    "sorted_wrt (apart ttl) (r_rotations \<sigma>)"
    unfolding rot_inv_def by blast+
  have rec: "recorded lib ttl ?\<sigma>' w" if "recorded lib ttl \<sigma> w" for w
    using that kept [of "al_sha256_hex lib (rt_token w)"] by (fastforce simp: recorded_def entry_of_def)
  have rec_new: "recorded lib ttl ?\<sigma>' ?w" using new I(1) by (simp add: recorded_def entry_of_def)
  have hold: "holder (r_phase ?\<sigma>' m) = holder (r_phase \<sigma> m)" for m using ph by simp
  have chk: "r_phase \<sigma> m = Checked tok' t' \<and> tok' \<noteq> tok" if "r_phase ?\<sigma>' m = Checked tok' t'" for m tok' t'
    using that I(3) [of n tok m] ph by (auto split: if_splits)
  show ?thesis
  proof (rule rot_invI)
    show "revocation_rows lib (tables (r_store ?\<sigma>') REVOKED_TABLE)" using rows by simp
    show "0 \<le> r_clock ?\<sigma>'" "r_clock ?\<sigma>' < 2 ^ 62" using I(1,2) by simp_all
    show "m = m'" if "holder (r_phase ?\<sigma>' m) = Some tok'" "holder (r_phase ?\<sigma>' m') = Some tok'" for m m' tok'
      using I(3) that unfolding hold by blast
    show "recorded lib ttl ?\<sigma>' w" if "w \<in> set (r_rotations ?\<sigma>')" for w
      using that rec rec_new I(4) by auto
    show "rt_revoked w + int ttl \<le> t'" if "r_phase ?\<sigma>' m = Checked tok' t'" "w \<in> set (r_rotations ?\<sigma>')" "rt_token w = tok'"
      for m tok' t' w
      using chk [OF that(1)] that(2,3) I(5) by auto
    show "sorted_wrt (apart ttl) (r_rotations ?\<sigma>')"
      using I(6) I(5) [OF ph] by (auto simp: sorted_wrt_append apart_def)
  qed
qed

lemma rot_step_inv:
  assumes "rot_step lib env bigint st \<sigma> \<sigma>'" and inv: "rot_inv lib (as_refresh_ttl st) \<sigma>"
    and libs: "revocation_libs lib env" "bigint_cast bigint" "as_refresh_ttl st < 2 ^ 62"
  shows "rot_inv lib (as_refresh_ttl st) \<sigma>'"
proof -
  have rows: "revocation_rows lib (tables (r_store \<sigma>) REVOKED_TABLE)" and clock: "r_clock \<sigma> < 2 ^ 62"
    using inv by (simp_all add: rot_inv_def)
  from assms(1) show ?thesis
  proof cases
    case (tick t)
    then show ?thesis using rows by (intro rot_inv_frame [OF inv]) (auto simp: entry_of_def)
  next
    case (acquire n tok)
    then show ?thesis using rot_inv_acquire [OF inv] by simp
  next
    case (check_ok n tok claims user s' response)
    note check = refresh_check_cases [OF check_ok(3) libs(1) rows]
    show ?thesis unfolding check_ok(1)
      by (rule rot_inv_checked [OF inv check_ok(2)]) (use check in \<open>auto simp: entry_of_def\<close>)
  next
    case (check_err n tok r s')
    note check = refresh_check_cases [OF check_err(3) libs(1) rows]
    show ?thesis unfolding check_err(1)
      using check rows clock by (intro rot_inv_frame [OF inv]) (auto simp: entry_of_def)
  next
    case (rotate_ok n tok t s')
    note keeps = revoke_keeps [OF rotate_ok(3) libs(1) inv libs(3)]
    show ?thesis unfolding rotate_ok(1)
      by (rule rot_inv_rotated [OF inv rotate_ok(2) libs(3) keeps(1,2) keeps(3) [OF refl]])
  next
    case (rotate_err n tok t e s')
    note keeps = revoke_keeps [OF rotate_err(3) libs(1) inv libs(3)]
    show ?thesis unfolding rotate_err(1)
      using keeps(1,2) clock by (intro rot_inv_frame [OF inv]) (auto simp: entry_of_def)
  next
    case (release n)
    then show ?thesis using rows clock by (intro rot_inv_frame [OF inv]) (auto simp: entry_of_def)
  next
    case (log_out tok r s')
    from log_out(2) consider "s' = r_store \<sigma>"
      | q where "revoke_token lib env (r_clock \<sigma>) tok (as_refresh_ttl st) (r_store \<sigma>) = (q, s')"
      by (auto simp: logout_def split: if_splits elim!: abind_cases)
    then show ?thesis
    proof cases
      case 1
      then show ?thesis using log_out(1) inv by simp
    next
      case (2 q)
      note keeps = revoke_keeps [OF 2 libs(1) inv libs(3)]
      show ?thesis unfolding log_out(1)
        using keeps(1,2) clock by (intro rot_inv_frame [OF inv]) (auto simp: entry_of_def)
    qed
  next
    case (cleanup q s')
    note clean = cleanup_cases [OF cleanup(2) libs(1,2) rows]
    show ?thesis unfolding cleanup(1)
      using clean clock by (intro rot_inv_frame [OF inv]) (auto simp: entry_of_def)
  next
    case (others s')
    then show ?thesis using rows clock by (intro rot_inv_frame [OF inv]) (auto simp: entry_of_def)
  qed
qed

abbreviation rot_run :: "auth_lib \<Rightarrow> pg_env \<Rightarrow> (string \<Rightarrow> string + int) \<Rightarrow> AuthState \<Rightarrow> rot_sys \<Rightarrow> rot_sys \<Rightarrow> bool" where
  "rot_run lib env bigint st \<equiv> (rot_step lib env bigint st)\<^sup>*\<^sup>*"

lemma rot_run_inv:
  assumes "rot_run lib env bigint st \<sigma>0 \<sigma>" "rot_init lib \<sigma>0"
    and "revocation_libs lib env" "bigint_cast bigint" "as_refresh_ttl st < 2 ^ 62"
  shows "rot_inv lib (as_refresh_ttl st) \<sigma>"
  using assms(1)
proof (induction rule: rtranclp_induct)
  case base
  then show ?case using assms(2) by (simp add: rot_init_def rot_inv_def)
next
  case (step \<sigma> \<sigma>')
  then show ?case using rot_step_inv assms(3-5) by blast
qed

text \<open>
  C12. A refresh token is rotated once. However refreshes, logouts, cleanups and other writers
  interleave, and whatever fails on the way, when the same token is rotated twice, the second
  rotation checked the token at least one refresh lifetime after the first one revoked it: no two
  concurrent refreshes both succeed, and a stolen token is refused for a whole lifetime. This rests on
  a refresh failing when it cannot record the revocation, which the code does with \<open>?\<close> although the
  function is documented to log and tolerate that failure.
\<close>

theorem refresh_token_rotates_once:
  assumes "rot_run lib env bigint st \<sigma>0 \<sigma>" "rot_init lib \<sigma>0"
    and "revocation_libs lib env" "bigint_cast bigint" "as_refresh_ttl st < 2 ^ 62"
    and "i < j" "j < length (r_rotations \<sigma>)" "rt_token (r_rotations \<sigma> ! i) = rt_token (r_rotations \<sigma> ! j)"
  shows "rt_revoked (r_rotations \<sigma> ! i) + int (as_refresh_ttl st) \<le> rt_checked (r_rotations \<sigma> ! j)"
proof -
  have "sorted_wrt (apart (as_refresh_ttl st)) (r_rotations \<sigma>)"
    using rot_run_inv [OF assms(1-5)] by (simp add: rot_inv_def)
  from sorted_wrt_nth_less [OF this assms(6,7)] assms(8) show ?thesis by (simp add: apart_def)
qed

subsection \<open>The last seconds of a revoked token\<close>

lemma is_token_revoked_calm:
  assumes "pg_faults s = []" "revocation_libs lib env" "revocation_rows lib (tables s REVOKED_TABLE)"
  shows "is_token_revoked lib env now token s =
    (Inr (case rev_entry (tables s REVOKED_TABLE) (al_sha256_hex lib token) of Some e \<Rightarrow> now < e | None \<Rightarrow> False), s)"
proof -
  obtain r s' where run: "is_token_revoked lib env now token s = (r, s')" by fastforce
  have "s' = s \<and> (\<exists>b. r = Inr b)"
    using run assms(1) by (auto simp: is_token_revoked_def ensure_revoked_tokens_table_def abind_def pg_exec_calm)
  then show ?thesis using is_token_revoked_cases [OF run assms(2,3)] run by auto
qed

lemma users_safe: "safe_identifier ''users''"
  by (simp add: safe_identifier_def ident_char_def ascii_defs)

lemma find_user_calm:
  assumes "pg_faults s = []"
  shows "find_user env uid s = (Inr (map_option (inject_document_metadata env) (doc_of uid (tables s ''users''))), s)"
proof -
  have "pg_calm ''users'' s" using assms users_safe by (simp add: pg_calm_def)
  then show ?thesis
    using assms by (simp add: find_user_def abind_def atry_def ensure_table_calm pg_exec_calm)
qed

lemma refresh_check_calm:
  assumes "pg_faults s = []" "revocation_libs lib env" "revocation_rows lib (tables s REVOKED_TABLE)"
    and "verify_token lib now token (as_keys st) = Inr claims" "c_typ claims = ''refresh''"
    and "\<And>e. rev_entry (tables s REVOKED_TABLE) (al_sha256_hex lib token) = Some e \<Longrightarrow> e \<le> now"
    and "doc_of (last (split_on CHR '':'' (c_sub claims))) (tables s ''users'') = Some row"
    and "user = inject_document_metadata env row" "jget_bool ''disabled'' user \<noteq> Some True" "jget_i64 ''password_changed_at'' user = None"
  shows "refresh_check lib env st now token s = (Inr (claims, user), s)"
proof -
  have "\<not> (case rev_entry (tables s REVOKED_TABLE) (al_sha256_hex lib token) of Some e \<Rightarrow> now < e | None \<Rightarrow> False)"
    using assms(6) by (force split: option.splits)
  then show ?thesis
    using assms(4,5,7-) by (simp add: refresh_check_def abind_def is_token_revoked_calm [OF assms(1-3)]
        find_user_calm [OF assms(1)] ensure_user_not_disabled_def)
qed

lemma revoke_token_calm:
  assumes "pg_faults s = []" "revocation_libs lib env"
  shows "\<exists>s'. revoke_token lib env now token ttl s = (Inr (), s') \<and> pg_faults s' = []"
proof -
  have calm: "pg_calm REVOKED_TABLE s" using assms by (simp add: pg_calm_def)
  have json: "pg_to_jsonb env (revocation_doc (al_sha256_hex lib token) e w) = Inr (revocation_doc (al_sha256_hex lib token) e w)" for e w
    using assms(2) by (simp add: revocation_libs_def)
  show ?thesis
    using assms(1)
    by (auto simp: revoke_token_def Let_def ensure_revoked_tokens_table_def abind_def amap_err_def pg_exec_calm
        upsert_document_calm [OF calm json] split: option.split)
qed

text \<open>One whole refresh of a request, as steps.\<close>

lemma refresh_run:
  assumes inv: "rot_inv lib (as_refresh_ttl st) \<sigma>" and ttl: "as_refresh_ttl st < 2 ^ 62"
    and idle: "r_phase \<sigma> n = Idle" "\<And>m. holder (r_phase \<sigma> m) = None"
    and db: "pg_faults (r_store \<sigma>) = []" "revocation_libs lib env"
    and claims: "verify_token lib (r_clock \<sigma>) tok (as_keys st) = Inr claims" "c_typ claims = ''refresh''"
    and old: "\<forall>e. entry_of lib \<sigma> tok = Some e \<longrightarrow> e \<le> r_clock \<sigma>"
    and user: "doc_of (last (split_on CHR '':'' (c_sub claims))) (tables (r_store \<sigma>) ''users'') = Some row"
      "user = inject_document_metadata env row" "jget_bool ''disabled'' user \<noteq> Some True" "jget_i64 ''password_changed_at'' user = None"
    and issue: "refresh_issue lib st (r_clock \<sigma>) claims user = Inr response"
  shows "\<exists>s'. rot_run lib env bigint st \<sigma> (\<sigma>\<lparr>r_store := s',
      r_rotations := r_rotations \<sigma> @ [\<lparr>rt_token = tok, rt_checked = r_clock \<sigma>, rt_revoked = r_clock \<sigma>\<rparr>],
      r_phase := (r_phase \<sigma>)(n := Finished)\<rparr>) \<and>
    pg_faults s' = [] \<and> tables s' ''users'' = tables (r_store \<sigma>) ''users'' \<and>
    rev_entry (tables s' REVOKED_TABLE) (al_sha256_hex lib tok) = Some (r_clock \<sigma> + int (as_refresh_ttl st))"
proof -
  have rows: "revocation_rows lib (tables (r_store \<sigma>) REVOKED_TABLE)" using inv by (simp add: rot_inv_def)
  have check: "refresh_check lib env st (r_clock \<sigma>) tok (r_store \<sigma>) = (Inr (claims, user), r_store \<sigma>)"
    using old by (intro refresh_check_calm [OF db rows claims _ user]) (simp add: entry_of_def)
  obtain s' where rev: "revoke_token lib env (r_clock \<sigma>) tok (as_refresh_ttl st) (r_store \<sigma>) = (Inr (), s')" "pg_faults s' = []"
    using revoke_token_calm [OF db] by blast
  define \<sigma>1 where "\<sigma>1 = to_phase \<sigma> n (Locked tok)"
  define \<sigma>2 where "\<sigma>2 = to_phase \<sigma> n (Checked tok (r_clock \<sigma>))"
  define \<sigma>3 where "\<sigma>3 = (to_phase \<sigma> n (Rotated tok))\<lparr>r_store := s',
      r_rotations := r_rotations \<sigma> @ [\<lparr>rt_token = tok, rt_checked = r_clock \<sigma>, rt_revoked = r_clock \<sigma>\<rparr>]\<rparr>"
  have "rot_step lib env bigint st \<sigma> \<sigma>1"
    unfolding \<sigma>1_def using idle by (intro rot_step.acquire) (simp_all add: lock_free_def)
  moreover have "rot_step lib env bigint st \<sigma>1 \<sigma>2"
    using rot_step.check_ok [of \<sigma>1 n tok lib env st claims user "r_store \<sigma>" response bigint] check issue
    by (simp add: \<sigma>1_def \<sigma>2_def)
  moreover have "rot_step lib env bigint st \<sigma>2 \<sigma>3"
    using rot_step.rotate_ok [of \<sigma>2 n tok "r_clock \<sigma>" lib env st s' bigint] rev by (simp add: \<sigma>2_def \<sigma>3_def)
  moreover have "rot_step lib env bigint st \<sigma>3 (to_phase \<sigma>3 n Finished)"
    by (rule rot_step.release) (simp add: \<sigma>3_def)
  ultimately have "rot_run lib env bigint st \<sigma> (to_phase \<sigma>3 n Finished)"
    by (meson converse_rtranclp_into_rtranclp rtranclp.rtrancl_refl)
  moreover have "tables s' ''users'' = tables (r_store \<sigma>) ''users''"
    using revoke_token_cases [OF rev(1) db(2) rows] by (simp add: REVOKED_TABLE_def)
  moreover note revoke_keeps(3) [OF rev(1) db(2) inv ttl refl]
  ultimately show ?thesis using rev(2) by (intro exI [of _ s']) (simp add: \<sigma>3_def)
qed

lemma second_rotation:
  assumes init: "rot_init lib \<sigma>0" and faults: "pg_faults (r_store \<sigma>0) = []"
    and libs: "revocation_libs lib env" "bigint_cast bigint" "as_refresh_ttl st < 2 ^ 62"
    and new: "entry_of lib \<sigma>0 tok = None"
    and claims: "\<forall>now. now \<le> c_exp claims + 30 \<longrightarrow> verify_token lib now tok (as_keys st) = Inr claims"
      "c_typ claims = ''refresh''"
    and early: "r_clock \<sigma>0 \<le> c_exp claims" "r_clock \<sigma>0 + int (as_refresh_ttl st) \<le> c_exp claims + 30"
      "r_clock \<sigma>0 + int (as_refresh_ttl st) < 2 ^ 62"
    and user: "doc_of (last (split_on CHR '':'' (c_sub claims))) (tables (r_store \<sigma>0) ''users'') = Some row"
      "jget_bool ''disabled'' (inject_document_metadata env row) \<noteq> Some True"
      "jget_i64 ''password_changed_at'' (inject_document_metadata env row) = None"
    and issue: "\<And>now. \<exists>response. refresh_issue lib st now claims (inject_document_metadata env row) = Inr response"
  shows "\<exists>\<sigma>. rot_run lib env bigint st \<sigma>0 \<sigma> \<and> map rt_token (r_rotations \<sigma>) = [tok, tok]"
proof -
  let ?w = "\<lambda>t. \<lparr>rt_token = tok, rt_checked = t, rt_revoked = t\<rparr>"
  let ?t = "r_clock \<sigma>0 + int (as_refresh_ttl st)"
  have inv0: "rot_inv lib (as_refresh_ttl st) \<sigma>0" by (rule rot_run_inv [OF _ init libs]) simp
  have idle: "r_phase \<sigma>0 n = Idle" for n using init by (simp add: rot_init_def)
  obtain resp where resp: "refresh_issue lib st (r_clock \<sigma>0) claims (inject_document_metadata env row) = Inr resp"
    using issue by blast
  have hold0: "holder (r_phase \<sigma>0 m) = None" for m by (simp add: idle)
  have ver0: "verify_token lib (r_clock \<sigma>0) tok (as_keys st) = Inr claims" using early(1) claims(1) by simp
  have old0: "\<forall>e. entry_of lib \<sigma>0 tok = Some e \<longrightarrow> e \<le> r_clock \<sigma>0" using new by simp
  from refresh_run [OF inv0 libs(3) idle [of 0] hold0 faults libs(1) ver0 claims(2) old0 user(1) refl user(2,3) resp, where bigint = bigint]
  obtain s1 where run1: "rot_run lib env bigint st \<sigma>0 (\<sigma>0\<lparr>r_store := s1, r_rotations := [?w (r_clock \<sigma>0)],
        r_phase := (r_phase \<sigma>0)(0 := Finished)\<rparr>)" (is "rot_run _ _ _ _ _ ?\<sigma>1")
    and s1: "pg_faults s1 = []" "tables s1 ''users'' = tables (r_store \<sigma>0) ''users''"
      "rev_entry (tables s1 REVOKED_TABLE) (al_sha256_hex lib tok) = Some ?t"
    using init by (auto simp: rot_init_def)
  define \<sigma>2 where "\<sigma>2 = ?\<sigma>1\<lparr>r_clock := ?t\<rparr>"
  have "rot_step lib env bigint st ?\<sigma>1 \<sigma>2"
    unfolding \<sigma>2_def using early(3) by (intro rot_step.tick) simp_all
  with run1 have run2: "rot_run lib env bigint st \<sigma>0 \<sigma>2" by (rule rtranclp.rtrancl_into_rtrancl)
  have inv2: "rot_inv lib (as_refresh_ttl st) \<sigma>2" by (rule rot_run_inv [OF run2 init libs])
  have clock2: "r_clock \<sigma>2 = ?t" by (simp add: \<sigma>2_def)
  obtain resp2 where resp2: "refresh_issue lib st (r_clock \<sigma>2) claims (inject_document_metadata env row) = Inr resp2"
    using issue by blast
  have idle2: "r_phase \<sigma>2 1 = Idle" "holder (r_phase \<sigma>2 m) = None" for m using idle by (simp_all add: \<sigma>2_def)
  have db2: "pg_faults (r_store \<sigma>2) = []" using s1 by (simp add: \<sigma>2_def)
  have old2: "\<forall>e. entry_of lib \<sigma>2 tok = Some e \<longrightarrow> e \<le> r_clock \<sigma>2"
    using s1(3) by (simp add: \<sigma>2_def entry_of_def)
  have user2: "doc_of (last (split_on CHR '':'' (c_sub claims))) (tables (r_store \<sigma>2) ''users'') = Some row"
    using user(1) s1(2) by (simp add: \<sigma>2_def)
  have ver2: "verify_token lib (r_clock \<sigma>2) tok (as_keys st) = Inr claims"
    using early(2) clock2 claims(1) by simp
  from refresh_run [OF inv2 libs(3) idle2 db2 libs(1) ver2 claims(2) old2 user2 refl user(2,3) resp2, where bigint = bigint]
  obtain s3 where "rot_run lib env bigint st \<sigma>2 (\<sigma>2\<lparr>r_store := s3, r_rotations := r_rotations \<sigma>2 @ [?w ?t],
        r_phase := (r_phase \<sigma>2)(1 := Finished)\<rparr>)" (is "rot_run _ _ _ _ _ ?\<sigma>3")
    unfolding clock2 by (elim exE conjE) (rule that)
  with run2 have "rot_run lib env bigint st \<sigma>0 ?\<sigma>3" by (rule rtranclp_trans)
  moreover have "map rt_token (r_rotations ?\<sigma>3) = [tok, tok]" by (simp add: \<sigma>2_def)
  ultimately show ?thesis by (intro exI conjI)
qed

text \<open>
  A revoked refresh token comes back to life. The record of a revocation ends one refresh
  lifetime after the revocation, but a token is accepted until thirty seconds after its expiry. A
  token that was rotated within thirty seconds of being issued is therefore accepted and rotated
  once more at the end of its life.
\<close>

theorem revoked_token_rotates_again:
  assumes "rot_init lib \<sigma>0" and "pg_faults (r_store \<sigma>0) = []"
    and "revocation_libs lib env" "bigint_cast bigint" "as_refresh_ttl st < 2 ^ 62"
    and "entry_of lib \<sigma>0 tok = None"
    and "\<forall>now. now \<le> c_exp claims + 30 \<longrightarrow> verify_token lib now tok (as_keys st) = Inr claims"
      "c_typ claims = ''refresh''"
    and "r_clock \<sigma>0 \<le> c_exp claims" "r_clock \<sigma>0 + int (as_refresh_ttl st) \<le> c_exp claims + 30"
      "r_clock \<sigma>0 + int (as_refresh_ttl st) < 2 ^ 62"
    and "doc_of (last (split_on CHR '':'' (c_sub claims))) (tables (r_store \<sigma>0) ''users'') = Some row"
      "jget_bool ''disabled'' (inject_document_metadata env row) \<noteq> Some True"
      "jget_i64 ''password_changed_at'' (inject_document_metadata env row) = None"
    and "\<And>now. \<exists>response. refresh_issue lib st now claims (inject_document_metadata env row) = Inr response"
  shows "\<exists>\<sigma>. rot_run lib env bigint st \<sigma>0 \<sigma> \<and> map rt_token (r_rotations \<sigma>) = [tok, tok]"
  using assms by (rule second_rotation)

subsection \<open>Witnesses\<close>

definition demo_claims :: Claims where
  "demo_claims = plain_claims ''u1'' 0 100 ''refresh''"

definition demo_lib :: auth_lib where
  "demo_lib = \<lparr>al_encode = (\<lambda>_ _ _. Inr ''new''),
     al_decode = (\<lambda>_ _ leeway now tok. if tok = ''tok'' \<and> now \<le> 100 + int leeway then Inr demo_claims else Inl ''invalid''),
     al_private_pem = Inr, al_public_pem = Inr, al_secret_key = (\<lambda>s. s),
     al_sha256_hex = (\<lambda>t. if t = ''tok'' then ''0123456789abcdef'' else ''fedcba9876543210'')\<rparr>"

definition demo_auth :: AuthState where
  "demo_auth = \<lparr>as_keys = Hmac ''s'', as_access_ttl = 10, as_refresh_ttl = 100\<rparr>"

definition demo_user :: doc_row where
  "demo_user = \<lparr>d_id = ''u1'', d_data = JObject [], d_created_at = 0, d_updated_at = 0\<rparr>"

definition demo_sys :: rot_sys where
  "demo_sys = \<lparr>r_store = \<lparr>tables = (\<lambda>_. [])(''users'' := [demo_user]), pg_faults = []\<rparr>, r_clock = 0,
     r_phase = (\<lambda>_. Idle), r_rotations = []\<rparr>"

definition demo_bigint :: "string \<Rightarrow> string + int" where
  "demo_bigint s = (case parse_i64 s of Some i \<Rightarrow> Inr i | None \<Rightarrow> Inl ''invalid input syntax'')"

lemma demo_bigint_cast: "bigint_cast demo_bigint"
  by (simp add: bigint_cast_def demo_bigint_def parse_i64_int_to_string)

lemma demo_revocation_libs: "revocation_libs demo_lib sample_pg"
  by (simp add: revocation_libs_def demo_lib_def sample_pg_def hex_string_def is_ascii_digit_def byte_def json_int_def
      int_to_string_def)

lemma demo_init: "rot_init demo_lib demo_sys"
  by (simp add: rot_init_def demo_sys_def REVOKED_TABLE_def revocation_rows_def)

lemma demo_facts:
  "pg_faults (r_store demo_sys) = []" "as_refresh_ttl demo_auth < 2 ^ 62" "entry_of demo_lib demo_sys ''tok'' = None"
  "r_clock demo_sys \<le> c_exp demo_claims" "r_clock demo_sys + int (as_refresh_ttl demo_auth) \<le> c_exp demo_claims + 30"
  "r_clock demo_sys + int (as_refresh_ttl demo_auth) < 2 ^ 62" "c_typ demo_claims = ''refresh''"
  "doc_of (last (split_on CHR '':'' (c_sub demo_claims))) (tables (r_store demo_sys) ''users'') = Some demo_user"
  "jget_bool ''disabled'' (inject_document_metadata sample_pg demo_user) \<noteq> Some True"
  "jget_i64 ''password_changed_at'' (inject_document_metadata sample_pg demo_user) = None"
  "\<exists>response. refresh_issue demo_lib demo_auth now demo_claims (inject_document_metadata sample_pg demo_user) = Inr response"
  by (simp_all add: demo_sys_def demo_auth_def entry_of_def rev_entry_def doc_of_def REVOKED_TABLE_def demo_claims_def plain_claims_def
      demo_user_def inject_document_metadata_def jget_defs refresh_issue_def issue_access_token_with_claims_def
      issue_refresh_token_def issue_def demo_lib_def)

lemma demo_verify: "\<forall>now. now \<le> c_exp demo_claims + 30 \<longrightarrow> verify_token demo_lib now ''tok'' (as_keys demo_auth) = Inr demo_claims"
  by (simp add: verify_token_def demo_auth_def demo_lib_def demo_claims_def plain_claims_def)

theorem revoked_token_rotates_again_witness:
  "\<exists>\<sigma>. rot_run demo_lib sample_pg demo_bigint demo_auth demo_sys \<sigma> \<and> map rt_token (r_rotations \<sigma>) = [''tok'', ''tok'']"
  by (rule revoked_token_rotates_again [OF demo_init demo_facts(1) demo_revocation_libs demo_bigint_cast demo_facts(2,3)
        demo_verify demo_facts(7,4,5,6,8,9,10,11)])

theorem refresh_token_rotates_once_witness:
  "\<exists>\<sigma>. rot_run demo_lib sample_pg demo_bigint demo_auth demo_sys \<sigma> \<and> rt_token (r_rotations \<sigma> ! 0) = rt_token (r_rotations \<sigma> ! 1) \<and>
     rt_revoked (r_rotations \<sigma> ! 0) + 100 \<le> rt_checked (r_rotations \<sigma> ! 1)"
proof -
  obtain \<sigma> where run: "rot_run demo_lib sample_pg demo_bigint demo_auth demo_sys \<sigma>"
    and toks: "map rt_token (r_rotations \<sigma>) = [''tok'', ''tok'']"
    using second_rotation [OF demo_init demo_facts(1) demo_revocation_libs demo_bigint_cast demo_facts(2,3)
        demo_verify demo_facts(7,4,5,6,8,9,10,11)] by (elim exE conjE) (rule that)
  obtain w w' where rots: "r_rotations \<sigma> = [w, w']" "rt_token w = rt_token w'"
    using toks by (cases "r_rotations \<sigma>") auto
  have "rt_revoked (r_rotations \<sigma> ! 0) + int (as_refresh_ttl demo_auth) \<le> rt_checked (r_rotations \<sigma> ! 1)"
    by (rule refresh_token_rotates_once [OF run demo_init demo_revocation_libs demo_bigint_cast demo_facts(2)])
      (simp_all add: rots)
  then show ?thesis using run rots by (intro exI [of _ \<sigma>]) (simp add: demo_auth_def)
qed

end
