(* ===== verification/Handlers_Shared.thy ===== *)
theory Handlers_Shared
  imports Auth_Tokens
begin

text \<open>
  What the marketplace handlers share (\<open>crates/ob-handlers/src/shared\<close>): input validation, the
  identity checks, the order and payment states of the schema and the rate limiter that counts
  requests in the document store. A handler is an action on \<open>h_state\<close>: the store and the log of
  the calls to the email module and to the payment provider. Its clock readings and new uuids are the fields
  of \<open>h_io\<close>, numbered in the order the handler takes them. Writing a member of a JSON value
  that is neither an object nor null panics; the request then ends without an answer.
\<close>

datatype h_error = Fail ob_error | Panicked

text \<open>The calls to the email module and to the payment provider that a handler has made.\<close>

datatype outcall =
    ShippingMail json string "string option"
  | PayoutMail json
  | StripeRefund string "int option" string string "(string \<times> string) list"
  | StripeCancel string
  | StripeSession string "(string \<times> string) list"
  | OrderMail json
  | StripePost string "(string \<times> string) list"

record h_state =
  hs_db :: pg_state
  hs_outbox :: "outcall list"

record h_io =
  io_now :: "nat \<Rightarrow> string"
  io_secs :: int
  io_db_now :: "nat \<Rightarrow> int"
  io_uuid :: "nat \<Rightarrow> string"
  io_test_mode :: bool

record h_env =
  he_pg :: pg_env
  he_bigint :: "string \<Rightarrow> string + int"
  he_regex_escape :: "string \<Rightarrow> string"
  he_replace_all :: "string \<Rightarrow> string \<Rightarrow> string option"

type_synonym 'a h_action = "(h_state, h_error, 'a) action"

definition hdb :: "'a pg_action \<Rightarrow> 'a h_action" where
  "hdb m s = (case m (hs_db s) of (r, d) \<Rightarrow> (map_err Fail r, s\<lparr>hs_db := d\<rparr>))"

definition hres :: "'a ob_result \<Rightarrow> 'a h_action" where
  "hres r = alift (map_err Fail r)"

definition notify :: "outcall \<Rightarrow> unit h_action" where
  "notify n s = (Inr (), s\<lparr>hs_outbox := hs_outbox s @ [n]\<rparr>)"

subsection \<open>Validation\<close>

definition validate_string :: "string \<Rightarrow> string \<Rightarrow> nat \<Rightarrow> unit ob_result" where
  "validate_string field v max_len =
     (if v = [] then Inl (Validation (field @ '' cannot be empty''))
      else if max_len < length v then Inl (Validation (field @ '' exceeds max length of '' @ nat_to_string max_len))
      else Inr ())"

definition validate_amount_cents :: "string \<Rightarrow> int \<Rightarrow> unit ob_result" where
  "validate_amount_cents field cents =
     (if cents \<le> 0 then Inl (Validation (field @ '' must be greater than zero''))
      else if 10000000 < cents then Inl (Validation (field @ '' exceeds maximum''))
      else Inr ())"

definition validate_nutrition_amount :: "string \<Rightarrow> int \<Rightarrow> unit ob_result" where
  "validate_nutrition_amount field v =
     (if v < 0 then Inl (Validation (field @ '' cannot be negative''))
      else if 999999 < v then Inl (Validation (field @ '' exceeds maximum (999999)''))
      else Inr ())"

definition validate_uid :: "string \<Rightarrow> string \<Rightarrow> unit ob_result" where
  "validate_uid field v =
     (if v = [] then Inl (Validation (field @ '' cannot be empty''))
      else if 128 < length v then Inl (Validation (field @ '' is too long''))
      else Inr ())"

text \<open>
  \<open>sanitize_html\<close>: the regular expressions are matched by \<open>regex_lite\<close> (a pattern that does not
  compile is skipped), the second pass drops everything between angle brackets.
\<close>

definition dangerous_tags :: "string list" where
  "dangerous_tags = [''script'', ''style'', ''iframe'', ''object'', ''embed'', ''form'']"

definition replace_pattern :: "h_env \<Rightarrow> string \<Rightarrow> string \<Rightarrow> string" where
  "replace_pattern he pattern s = (case he_replace_all he pattern s of Some t \<Rightarrow> t | None \<Rightarrow> s)"

definition strip_dangerous :: "h_env \<Rightarrow> string \<Rightarrow> string \<Rightarrow> string" where
  "strip_dangerous he tag s =
     (let t = he_regex_escape he tag;
          s = replace_pattern he (''(?i)<'' @ t @ ''[^>]*>['' @ [CHR 0x5C] @ ''s'' @ [CHR 0x5C] @ ''S]*?</'' @ t @ ''>'') s
      in replace_pattern he (''(?i)<'' @ t @ ''[^>]*>'') s)"

fun strip_tags :: "bool \<Rightarrow> string \<Rightarrow> string" where
  "strip_tags in_tag [] = []"
| "strip_tags in_tag (c # cs) =
     (if c = CHR ''<'' then strip_tags True cs
      else if c = CHR ''>'' then strip_tags False cs
      else if \<not> in_tag then c # strip_tags in_tag cs
      else strip_tags in_tag cs)"

definition sanitize_html :: "h_env \<Rightarrow> string \<Rightarrow> string" where
  "sanitize_html he input = strip_tags False (fold (strip_dangerous he) dangerous_tags input)"

text \<open>\<open>s.chars().take(n)\<close>: a character is a byte that continues no other and the continuation bytes after it.\<close>

definition utf8_continuation :: "char \<Rightarrow> bool" where
  "utf8_continuation c \<longleftrightarrow> 128 \<le> byte c \<and> byte c < 192"

fun take_chars :: "nat \<Rightarrow> string \<Rightarrow> string" where
  "take_chars n [] = []"
| "take_chars n (c # cs) =
     (if utf8_continuation c then c # take_chars n cs
      else if n = 0 then []
      else c # take_chars (n - 1) cs)"

subsection \<open>Identity\<close>

definition require_authenticated :: "AuthContext \<Rightarrow> string ob_result" where
  "require_authenticated auth =
     (if \<not> au_authenticated auth \<or> au_user_id auth = [] then Inl (Auth ''Authentication required'')
      else Inr (au_user_id auth))"

definition require_admin :: "AuthContext \<Rightarrow> string ob_result" where
  "require_admin auth =
     rbind (require_authenticated auth) (\<lambda>user_id.
       if \<not> has_role auth ''admin'' then Inl (Forbidden ''Admin role required'') else Inr user_id)"

definition resolve_self_user_id :: "AuthContext \<Rightarrow> string option \<Rightarrow> string \<Rightarrow> string ob_result" where
  "resolve_self_user_id auth provided field_name =
     rbind (require_authenticated auth) (\<lambda>user_id.
       case provided of
         Some p \<Rightarrow>
           if p \<noteq> [] \<and> p \<noteq> user_id then Inl (Forbidden (field_name @ '' must match the authenticated user''))
           else Inr user_id
       | None \<Rightarrow> Inr user_id)"

definition resolve_admin_user_id :: "AuthContext \<Rightarrow> string option \<Rightarrow> string \<Rightarrow> string ob_result" where
  "resolve_admin_user_id auth provided field_name =
     rbind (require_admin auth) (\<lambda>admin_id.
       case provided of
         Some p \<Rightarrow>
           if p \<noteq> [] \<and> p \<noteq> admin_id then Inl (Forbidden (field_name @ '' must match the authenticated admin''))
           else Inr admin_id
       | None \<Rightarrow> Inr admin_id)"

subsection \<open>Rate limits\<close>

definition RATE_LIMITS :: string where "RATE_LIMITS = ''rate_limits''"

text \<open>
  \<open>COUNT(*) ... WHERE data->>'userId' = $user_id AND data->>'action' = $action AND
  (data->>'createdAt')::bigint >= ($window_start)::bigint\<close>, the conditions taken from left to right:
  PostgreSQL does not promise that order, and with the other one a row of another user whose \<open>createdAt\<close>
  is no number would fail the count.
\<close>

definition rate_row_matches :: "h_env \<Rightarrow> string \<Rightarrow> string \<Rightarrow> int \<Rightarrow> doc_row \<Rightarrow> string + bool" where
  "rate_row_matches he user action window_start r =
     (if sql_eq (member_text (he_pg he) ''userId'' (d_data r)) (Some user) \<and>
         sql_eq (member_text (he_pg he) ''action'' (d_data r)) (Some action)
      then (case member_text (he_pg he) ''createdAt'' (d_data r) of
              None \<Rightarrow> Inr False
            | Some t \<Rightarrow> rbind (he_bigint he t) (\<lambda>c.
                rbind (he_bigint he (int_to_string window_start)) (\<lambda>w. Inr (w \<le> c))))
      else Inr False)"

definition count_requests :: "h_env \<Rightarrow> string \<Rightarrow> string \<Rightarrow> int \<Rightarrow> nat pg_action" where
  "count_requests he user action window_start =
     abind (atry (ensure_table RATE_LIMITS)) (\<lambda>_.
       pg_exec ''Query failed: '' RATE_LIMITS (\<lambda>rs.
         rbind (rmap (rate_row_matches he user action window_start) rs) (\<lambda>bs.
           Inr (length (filter id bs), rs))))"

definition rate_doc :: "string \<Rightarrow> string \<Rightarrow> int \<Rightarrow> json" where
  "rate_doc user action now_secs =
     json_obj [(''userId'', JString user), (''action'', JString action), (''createdAt'', json_int now_secs)]"

definition check_user_rate_limit :: "h_env \<Rightarrow> h_io \<Rightarrow> string \<Rightarrow> string \<Rightarrow> nat \<Rightarrow> int \<Rightarrow> unit pg_action" where
  "check_user_rate_limit he io user action max_requests window_minutes =
     (if io_test_mode io then areturn ()
      else
        abind (count_requests he user action (io_secs io - window_minutes * 60)) (\<lambda>count.
        if max_requests \<le> count then athrow (Validation ''Rate limit exceeded. Please try again later.'')
        else
          abind (atry (create_document (he_pg he) (io_uuid io 0) (io_db_now io 0) RATE_LIMITS
                   (rate_doc user action (io_secs io)))) (\<lambda>_. areturn ())))"

subsection \<open>Order and payment states\<close>

datatype OrderStatus =
    PendingPayment | PaymentAuthorized | AwaitingShippingApproval | Processing | Shipped | Delivered | InTransit
  | Cancelled | Refunded | PartiallyRefunded | Disputed | Expired | Failed | ReturnRequested | ReturnApproved
  | ReturnRejected | Returned | Archived

fun OrderStatus_as_str :: "OrderStatus \<Rightarrow> string" where
  "OrderStatus_as_str PendingPayment = ''pending''"
| "OrderStatus_as_str PaymentAuthorized = ''confirmed''"
| "OrderStatus_as_str AwaitingShippingApproval = ''awaiting_shipping_approval''"
| "OrderStatus_as_str Processing = ''processing''"
| "OrderStatus_as_str Shipped = ''shipped''"
| "OrderStatus_as_str InTransit = ''in_transit''"
| "OrderStatus_as_str Delivered = ''delivered''"
| "OrderStatus_as_str Cancelled = ''cancelled''"
| "OrderStatus_as_str Refunded = ''refunded''"
| "OrderStatus_as_str PartiallyRefunded = ''partially_refunded''"
| "OrderStatus_as_str Disputed = ''disputed''"
| "OrderStatus_as_str Expired = ''expired''"
| "OrderStatus_as_str Failed = ''failed''"
| "OrderStatus_as_str ReturnRequested = ''return_requested''"
| "OrderStatus_as_str ReturnApproved = ''return_approved''"
| "OrderStatus_as_str ReturnRejected = ''return_rejected''"
| "OrderStatus_as_str Returned = ''returned''"
| "OrderStatus_as_str Archived = ''archived''"

fun is_terminal :: "OrderStatus \<Rightarrow> bool" where
  "is_terminal Delivered = True"
| "is_terminal Cancelled = True"
| "is_terminal Expired = True"
| "is_terminal Failed = True"
| "is_terminal Disputed = True"
| "is_terminal Refunded = True"
| "is_terminal PartiallyRefunded = True"
| "is_terminal _ = False"

text \<open>The names serde derives for the variants: snake case, two of them renamed.\<close>

definition OrderStatus_names :: "(string \<times> OrderStatus) list" where
  "OrderStatus_names =
     [(''pending'', PendingPayment), (''confirmed'', PaymentAuthorized),
      (''awaiting_shipping_approval'', AwaitingShippingApproval), (''processing'', Processing),
      (''shipped'', Shipped), (''delivered'', Delivered), (''in_transit'', InTransit),
      (''cancelled'', Cancelled), (''refunded'', Refunded), (''partially_refunded'', PartiallyRefunded),
      (''disputed'', Disputed), (''expired'', Expired), (''failed'', Failed),
      (''return_requested'', ReturnRequested), (''return_approved'', ReturnApproved),
      (''return_rejected'', ReturnRejected), (''returned'', Returned), (''archived'', Archived)]"

datatype PaymentStatus =
    PayPending | PayAuthorized | PayCaptured | PayRefunded | PayPartialRefund | PayFailed | PayCancelled
  | PayDisputed | PayExpired

fun PaymentStatus_as_str :: "PaymentStatus \<Rightarrow> string" where
  "PaymentStatus_as_str PayPending = ''awaiting_payment''"
| "PaymentStatus_as_str PayAuthorized = ''authorized''"
| "PaymentStatus_as_str PayCaptured = ''captured''"
| "PaymentStatus_as_str PayRefunded = ''refunded''"
| "PaymentStatus_as_str PayPartialRefund = ''partially_refunded''"
| "PaymentStatus_as_str PayFailed = ''payment_failed''"
| "PaymentStatus_as_str PayCancelled = ''cancelled''"
| "PaymentStatus_as_str PayDisputed = ''disputed''"
| "PaymentStatus_as_str PayExpired = ''expired''"

definition parse_order_status :: "string \<Rightarrow> OrderStatus option" where
  "parse_order_status s = map_of OrderStatus_names s"

lemma parse_as_str [simp]: "parse_order_status (OrderStatus_as_str st) = Some st"
  by (cases st) (simp_all add: parse_order_status_def OrderStatus_names_def)

lemma parse_order_status_Some: "parse_order_status s = Some st \<Longrightarrow> s = OrderStatus_as_str st"
  by (auto simp: parse_order_status_def OrderStatus_names_def split: if_splits)

lemma OrderStatus_as_str_inj: "OrderStatus_as_str a = OrderStatus_as_str b \<longleftrightarrow> a = b"
  by (metis option.inject parse_as_str)

subsection \<open>Reading documents\<close>

definition str_field :: "json \<Rightarrow> string \<Rightarrow> string" where
  "str_field v field = (case jget_str field v of Some s \<Rightarrow> s | None \<Rightarrow> [])"

definition bool_field :: "json \<Rightarrow> string \<Rightarrow> bool" where
  "bool_field v field = (case jget_bool field v of Some b \<Rightarrow> b | None \<Rightarrow> False)"

definition items_array :: "json \<Rightarrow> json list" where
  "items_array order = (case jget_array ''items'' order of Some vs \<Rightarrow> vs | None \<Rightarrow> [])"

text \<open>\<open>value[key] = v\<close>: null becomes an object, any other value that is not one panics.\<close>

definition set_member :: "string \<Rightarrow> json \<Rightarrow> json \<Rightarrow> h_error + json" where
  "set_member k v j =
     (case j of JObject _ \<Rightarrow> Inr (jset k v j) | JNull \<Rightarrow> Inr (jset k v j) | _ \<Rightarrow> Inl Panicked)"

fun set_members :: "(string \<times> json) list \<Rightarrow> json \<Rightarrow> h_error + json" where
  "set_members [] j = Inr j"
| "set_members ((k, v) # kvs) j = rbind (set_member k v j) (set_members kvs)"

definition member_ok :: "json \<Rightarrow> bool" where
  "member_ok j = (case j of JObject _ \<Rightarrow> True | JNull \<Rightarrow> True | _ \<Rightarrow> False)"

end
