(* ===== verification/Order_Status.thy ===== *)
theory Order_Status
  imports Handlers_Shared
begin

text \<open>
  The order status handlers (\<open>crates/ob-handlers/src/orders/status.rs\<close>) on the document store. Each
  handler is a chain of reads and checks, a pure plan of what to write, one conditional or plain
  update of the order, and the event log; the plan is a definition of its own, so that the theorems
  can put arbitrary work of other requests between the read and the update.
\<close>

subsection \<open>Delivery states and transitions\<close>

datatype DeliveryStatus = DPending | DShipped | DDelivered | DRefunded

fun DeliveryStatus_as_str :: "DeliveryStatus \<Rightarrow> string" where
  "DeliveryStatus_as_str DPending = ''pending''"
| "DeliveryStatus_as_str DShipped = ''shipped''"
| "DeliveryStatus_as_str DDelivered = ''delivered''"
| "DeliveryStatus_as_str DRefunded = ''refunded''"

definition DeliveryStatus_from_str :: "string \<Rightarrow> DeliveryStatus option" where
  "DeliveryStatus_from_str s =
     (if s = ''pending'' then Some DPending
      else if s = ''shipped'' then Some DShipped
      else if s = ''delivered'' then Some DDelivered
      else if s = ''refunded'' then Some DRefunded
      else None)"

fun is_valid_item_transition :: "DeliveryStatus \<Rightarrow> DeliveryStatus \<Rightarrow> bool" where
  "is_valid_item_transition DPending DShipped = True"
| "is_valid_item_transition DShipped DDelivered = True"
| "is_valid_item_transition DDelivered DRefunded = True"
| "is_valid_item_transition _ _ = False"

definition order_transitions :: "(OrderStatus \<times> OrderStatus) list" where
  "order_transitions =
     [(PendingPayment, PaymentAuthorized), (PendingPayment, Cancelled), (PendingPayment, Failed),
      (PaymentAuthorized, Processing), (PaymentAuthorized, AwaitingShippingApproval), (PaymentAuthorized, Cancelled),
      (AwaitingShippingApproval, Processing), (AwaitingShippingApproval, Cancelled),
      (Processing, Shipped), (Processing, Cancelled),
      (Shipped, Delivered), (Shipped, ReturnRequested),
      (Delivered, ReturnRequested), (Delivered, Refunded),
      (ReturnRequested, ReturnApproved), (ReturnRequested, ReturnRejected),
      (ReturnApproved, Returned), (Returned, Refunded)]"

definition is_valid_order_transition :: "OrderStatus \<Rightarrow> OrderStatus \<Rightarrow> bool" where
  "is_valid_order_transition from to \<longleftrightarrow> List.member order_transitions (from, to)"

subsection \<open>Requests and responses\<close>

record ConfirmItemReceiptRequest =
  ci_order_id :: string
  ci_product_id :: string

record ConfirmItemReceiptResponse =
  ci_success :: bool
  ci_all_delivered :: bool
  ci_message :: "string option"

record UpdateOrderStatusRequest =
  uo_order_id :: string
  uo_new_status :: string
  uo_tracking_number :: "string option"
  uo_carrier :: "string option"

record UpdateOrderStatusResponse =
  uo_success :: bool
  uo_status :: string
  uo_all_items_shipped :: "bool option"

record UpdateItemStatusRequest =
  ui_order_id :: string
  ui_product_id :: string
  ui_new_status :: string
  ui_tracking_number :: "string option"
  ui_carrier :: "string option"

record UpdateItemStatusResponse =
  ui_success :: bool
  ui_item_status :: string
  ui_all_items_delivered :: bool
  ui_all_items_shipped :: bool

subsection \<open>Helpers\<close>

fun position :: "('a \<Rightarrow> bool) \<Rightarrow> 'a list \<Rightarrow> nat option" where
  "position P [] = None"
| "position P (x # xs) = (if P x then Some 0 else map_option Suc (position P xs))"

definition find_item_index :: "json list \<Rightarrow> string \<Rightarrow> nat option" where
  "find_item_index items product_id = position (\<lambda>it. str_field it ''productId'' = product_id) items"

definition all_items_delivered :: "json list \<Rightarrow> bool" where
  "all_items_delivered items =
     list_all (\<lambda>it. str_field it ''status'' = DeliveryStatus_as_str DDelivered) items"

definition all_items_shipped :: "json list \<Rightarrow> bool" where
  "all_items_shipped items =
     list_all (\<lambda>it. str_field it ''status'' = DeliveryStatus_as_str DShipped \<or>
                    str_field it ''status'' = DeliveryStatus_as_str DDelivered) items"

definition should_promote_order_to_delivered :: "string \<Rightarrow> bool \<Rightarrow> bool" where
  "should_promote_order_to_delivered payment_status all_delivered \<longleftrightarrow>
     all_delivered \<and> payment_status = PaymentStatus_as_str PayCaptured"

definition is_user_admin :: "h_env \<Rightarrow> string \<Rightarrow> bool h_action" where
  "is_user_admin he user =
     abind (hdb (atry (get_document (he_pg he) ''users'' user))) (\<lambda>r.
       areturn (case r of
           Inl _ \<Rightarrow> False
         | Inr u \<Rightarrow> list_ex (\<lambda>v. as_str v = Some ''admin'')
             (case jget_array ''roles'' u of Some vs \<Rightarrow> vs | None \<Rightarrow> [])))"

definition log_order_event :: "h_env \<Rightarrow> h_io \<Rightarrow> string \<Rightarrow> string \<Rightarrow> string \<Rightarrow> string \<Rightarrow> json \<Rightarrow> unit h_action" where
  "log_order_event he io order_id user event_type message metadata =
     abind (hdb (atry (create_document (he_pg he) (io_uuid io 1) (io_db_now io 2) ''events''
       (json_obj [(''orderId'', JString order_id), (''userId'', JString user), (''eventType'', JString event_type),
         (''message'', JString message), (''metadata'', metadata), (''createdAt'', JString (io_now io 1))])))) (\<lambda>_.
       areturn ())"

definition read_order :: "h_env \<Rightarrow> string \<Rightarrow> json h_action" where
  "read_order he order_id =
     hdb (amap_err (\<lambda>_. NotFound ''Order not found'') (get_document (he_pg he) ''orders'' order_id))"

definition update_failed :: "ob_error \<Rightarrow> ob_error" where
  "update_failed e = Database (''Failed to update order: '' @ error_to_string e)"

definition cas_order :: "h_env \<Rightarrow> h_io \<Rightarrow> string \<Rightarrow> json \<Rightarrow> string \<Rightarrow> json option h_action" where
  "cas_order he io order_id data expected =
     hdb (amap_err update_failed
       (update_document_cas (he_pg he) (io_db_now io 1) ''orders'' order_id data ''orderStatus'' (JString expected)))"

definition update_order :: "h_env \<Rightarrow> h_io \<Rightarrow> string \<Rightarrow> json \<Rightarrow> json h_action" where
  "update_order he io order_id data =
     hdb (amap_err update_failed (update_document (he_pg he) (io_db_now io 1) ''orders'' order_id data))"

definition em_dash :: string where
  "em_dash = [CHR 0xE2, CHR 0x80, CHR 0x94]"

definition sanitized :: "h_env \<Rightarrow> nat \<Rightarrow> string option \<Rightarrow> string option" where
  "sanitized he n v = map_option (\<lambda>s. take_chars n (sanitize_html he s)) v"

text \<open>Members written to one item of the array.\<close>

definition set_item :: "json list \<Rightarrow> nat \<Rightarrow> (string \<times> json) list \<Rightarrow> h_error + json list" where
  "set_item items idx kvs = rbind (set_members kvs (items ! idx)) (\<lambda>it. Inr (items[idx := it]))"

subsection \<open>\<open>confirm_item_receipt\<close>\<close>

datatype confirm_plan = AlreadyDelivered | ConfirmWrite json bool string

definition confirm_item_receipt_plan ::
  "string \<Rightarrow> string \<Rightarrow> string \<Rightarrow> json \<Rightarrow> h_error + confirm_plan" where
  "confirm_item_receipt_plan user product_id now order =
     (if str_field order ''userId'' \<noteq> user
      then Inl (Fail (Forbidden ''Only the order owner can confirm receipt''))
      else
        let items = items_array order
        in case find_item_index items product_id of
             None \<Rightarrow> Inl (Fail (NotFound ''Item not found in order''))
           | Some idx \<Rightarrow>
               if str_field (items ! idx) ''sellerId'' = user
               then Inl (Fail (Forbidden ''Sellers cannot confirm receipt of their own items''))
               else
                 let current_status_str = str_field (items ! idx) ''status'';
                     current_status = DeliveryStatus_from_str current_status_str
                 in if current_status = Some DDelivered then Inr AlreadyDelivered
                    else if current_status \<noteq> Some DShipped
                    then Inl (Fail (Validation
                      (''Cannot confirm receipt: item must be shipped first (current: '' @ current_status_str @ '')'')))
                    else
                      rbind (set_item items idx
                        [(''status'', JString ''delivered''), (''deliveredAt'', JString now),
                         (''confirmedByBuyer'', JBool True)]) (\<lambda>items.
                      let all_delivered = all_items_delivered items;
                          update_data = json_obj [(''items'', JArray items), (''updatedAt'', JString now)];
                          update_data =
                            (if all_delivered \<and>
                                should_promote_order_to_delivered (str_field order ''paymentStatus'') all_delivered
                             then jset ''confirmedByClient'' (JBool True)
                                    (jset ''confirmedAt'' (JString now)
                                      (jset ''orderStatus'' (JString (OrderStatus_as_str Delivered)) update_data))
                             else update_data)
                      in Inr (ConfirmWrite update_data all_delivered (str_field order ''orderStatus''))))"

definition confirm_item_receipt_write ::
  "h_env \<Rightarrow> h_io \<Rightarrow> string \<Rightarrow> ConfirmItemReceiptRequest \<Rightarrow> json \<Rightarrow> bool \<Rightarrow> string \<Rightarrow> ConfirmItemReceiptResponse h_action" where
  "confirm_item_receipt_write he io user req update_data all_delivered expected =
     abind (cas_order he io (ci_order_id req) update_data expected) (\<lambda>updated.
     if updated = None
     then athrow (Fail (Validation (''Order was modified concurrently '' @ em_dash @ '' please retry'')))
     else
       abind (log_order_event he io (ci_order_id req) user ''item_receipt_confirmed''
         (''Item '' @ ci_product_id req @ '' receipt confirmed by buyer'')
         (json_obj [(''productId'', JString (ci_product_id req)), (''allDelivered'', JBool all_delivered)])) (\<lambda>_.
       areturn \<lparr>ci_success = True, ci_all_delivered = all_delivered, ci_message = None\<rparr>))"

definition confirm_item_receipt ::
  "h_env \<Rightarrow> h_io \<Rightarrow> AuthContext \<Rightarrow> ConfirmItemReceiptRequest \<Rightarrow> ConfirmItemReceiptResponse h_action" where
  "confirm_item_receipt he io auth req =
     (let user = au_user_id auth in
     abind (hres (validate_uid ''orderId'' (ci_order_id req))) (\<lambda>_.
     abind (hres (validate_uid ''productId'' (ci_product_id req))) (\<lambda>_.
     abind (hres (validate_uid ''userId'' user)) (\<lambda>_.
     abind (hdb (check_user_rate_limit he io user ''confirm_item_receipt'' 10 1)) (\<lambda>_.
     abind (read_order he (ci_order_id req)) (\<lambda>order.
     abind (alift (confirm_item_receipt_plan user (ci_product_id req) (io_now io 0) order)) (\<lambda>plan.
     case plan of
       AlreadyDelivered \<Rightarrow>
         areturn \<lparr>ci_success = True, ci_all_delivered = False, ci_message = Some ''Item already marked as delivered''\<rparr>
     | ConfirmWrite update_data all_delivered expected \<Rightarrow>
         confirm_item_receipt_write he io user req update_data all_delivered expected)))))))"

subsection \<open>\<open>update_order_status\<close>\<close>

text \<open>The members that a tracking number adds to an item or to the order.\<close>

definition tracking_members :: "string option \<Rightarrow> string option \<Rightarrow> (string \<times> json) list" where
  "tracking_members tracking carrier =
     (case tracking of
        None \<Rightarrow> []
      | Some tn \<Rightarrow> [(''trackingNumber'', JString tn),
                     (''shippingCarrier'', JString (case carrier of Some c \<Rightarrow> c | None \<Rightarrow> []))])"

definition shipped_members :: "string \<Rightarrow> string option \<Rightarrow> string option \<Rightarrow> (string \<times> json) list" where
  "shipped_members now tracking carrier =
     [(''status'', JString ''shipped''), (''shippedAt'', JString now)] @ tracking_members tracking carrier"

definition is_seller_item :: "string \<Rightarrow> json \<Rightarrow> bool" where
  "is_seller_item user it \<longleftrightarrow> str_field it ''sellerId'' = user"

definition all_seller_ids :: "json list \<Rightarrow> string list" where
  "all_seller_ids items = remdups (List.map_filter (jget_str ''sellerId'') items)"

text \<open>The checks between the permission test and the transition test.\<close>

definition ship_allowed :: "json \<Rightarrow> json list \<Rightarrow> unit ob_result" where
  "ship_allowed order seller_items =
     (if list_ex (\<lambda>it. bool_field it ''isDigital'') seller_items
      then Inl (Validation ''Digital products cannot be manually shipped'')
      else
        (case Option.bind (jget ''shippingApproval'' order) as_object of
           None \<Rightarrow> Inr ()
         | Some approval \<Rightarrow>
             let approval_status =
               (case Option.bind (map_of approval ''status'') as_str of Some s \<Rightarrow> s | None \<Rightarrow> [])
             in if approval_status = ''pending''
                then Inl (Validation ''Cannot ship: shipping cost approval is pending from buyer'')
                else if approval_status = ''rejected''
                then Inl (Validation ''Cannot ship: buyer rejected the shipping cost'')
                else Inr ()))"

definition order_status_checks ::
  "string \<Rightarrow> bool \<Rightarrow> json \<Rightarrow> OrderStatus \<Rightarrow> OrderStatus \<Rightarrow> unit ob_result" where
  "order_status_checks user is_admin order old_status new_status =
     (let items = items_array order;
          seller_items = filter (is_seller_item user) items;
          is_seller = (seller_items \<noteq> [])
      in if \<not> is_admin \<and> \<not> is_seller
         then Inl (Forbidden ''Only seller or admin can update order status'')
         else if is_seller \<and> \<not> is_admin \<and> new_status = Delivered
         then Inl (Forbidden (''Sellers cannot mark orders as delivered. '' @
           ''Use per-item status updates or wait for buyer confirmation.''))
         else if is_seller \<and> \<not> is_admin \<and> 1 < length (all_seller_ids items)
         then Inl (Validation (''Multi-seller order: use update_item_status to update per-item status '' @
           ''instead of order-level status.''))
         else
           rbind (if new_status = Shipped then ship_allowed order seller_items else Inr ()) (\<lambda>_.
           if \<not> is_valid_order_transition old_status new_status
           then Inl (Validation (''Invalid transition from '' @ OrderStatus_as_str old_status @ '' to '' @
             OrderStatus_as_str new_status))
           else Inr ()))"

datatype order_plan =
    SellerShip json "json list" bool
  | DirectWrite json

definition seller_ship_plan ::
  "string \<Rightarrow> string option \<Rightarrow> string option \<Rightarrow> string \<Rightarrow> json list \<Rightarrow> h_error + order_plan" where
  "seller_ship_plan user tracking carrier now items =
     rbind (rmap (\<lambda>it. if is_seller_item user it then set_members (shipped_members now tracking carrier) it else Inr it)
              items) (\<lambda>updated_items.
     if \<not> list_ex (is_seller_item user) items then Inl (Fail (Forbidden ''No items belong to this seller''))
     else
       let all_shipped = all_items_shipped updated_items;
           update_data = json_obj [(''items'', JArray updated_items), (''updatedAt'', JString now), (''lastActorId'', JString user)];
           update_data =
             (if all_shipped
              then fold (\<lambda>(k, v). jset k v)
                     ([(''orderStatus'', JString (OrderStatus_as_str Shipped)), (''shippedAt'', JString now)] @
                      tracking_members tracking carrier) update_data
              else update_data)
       in Inr (SellerShip update_data updated_items all_shipped))"

definition direct_plan ::
  "bool \<Rightarrow> OrderStatus \<Rightarrow> string option \<Rightarrow> string option \<Rightarrow> string \<Rightarrow> json list \<Rightarrow> h_error + order_plan" where
  "direct_plan is_admin new_status tracking carrier now items =
     (let update_data = json_obj [(''orderStatus'', JString (OrderStatus_as_str new_status)), (''updatedAt'', JString now)] in
      rbind (if new_status = Shipped
             then rbind (rmap (\<lambda>it.
                     if str_field it ''status'' \<noteq> DeliveryStatus_as_str DDelivered \<and>
                        str_field it ''status'' \<noteq> DeliveryStatus_as_str DRefunded
                     then set_members (shipped_members now tracking carrier) it
                     else Inr it) items) (\<lambda>updated_items.
                   Inr (fold (\<lambda>(k, v). jset k v)
                     ([(''items'', JArray updated_items), (''shippedAt'', JString now)] @
                      tracking_members tracking carrier) update_data))
             else Inr update_data) (\<lambda>update_data.
      rbind (if is_admin \<and> new_status = Delivered
             then rbind (rmap (set_members [(''status'', JString ''delivered''), (''deliveredAt'', JString now)]) items)
                   (\<lambda>updated_items. Inr (jset ''items'' (JArray updated_items) update_data))
             else Inr update_data) (\<lambda>update_data.
      Inr (DirectWrite update_data))))"

definition order_status_plan ::
  "string \<Rightarrow> bool \<Rightarrow> json \<Rightarrow> OrderStatus \<Rightarrow> OrderStatus \<Rightarrow> string option \<Rightarrow> string option \<Rightarrow> string \<Rightarrow> h_error + order_plan" where
  "order_status_plan user is_admin order old_status new_status tracking carrier now =
     rbind (map_err Fail (order_status_checks user is_admin order old_status new_status)) (\<lambda>_.
     let items = items_array order;
         is_seller = (filter (is_seller_item user) items \<noteq> [])
     in if is_seller \<and> \<not> is_admin \<and> new_status = Shipped
        then seller_ship_plan user tracking carrier now items
        else direct_plan is_admin new_status tracking carrier now items)"

definition opt_member :: "string \<Rightarrow> string option \<Rightarrow> (string \<times> json) list" where
  "opt_member k v = (case v of Some s \<Rightarrow> [(k, JString s)] | None \<Rightarrow> [])"

definition seller_ship_write ::
  "h_env \<Rightarrow> h_io \<Rightarrow> UpdateOrderStatusRequest \<Rightarrow> json \<Rightarrow> OrderStatus \<Rightarrow> string option \<Rightarrow> string option \<Rightarrow>
     json \<Rightarrow> json list \<Rightarrow> bool \<Rightarrow> UpdateOrderStatusResponse h_action" where
  "seller_ship_write he io req order old_status tracking carrier update_data updated_items all_shipped =
     abind (update_order he io (uo_order_id req) update_data) (\<lambda>_.
     abind (case tracking of
         Some tn \<Rightarrow>
           if all_shipped
           then abind (alift (set_members
                  ([(''items'', JArray updated_items), (''orderStatus'', JString (OrderStatus_as_str Shipped)),
                    (''shippedAt'', JString (io_now io 0)), (''trackingNumber'', JString tn)] @
                   opt_member ''shippingCarrier'' carrier) order)) (\<lambda>email_order.
                notify (ShippingMail email_order tn carrier))
           else areturn ()
       | None \<Rightarrow> areturn ()) (\<lambda>_.
     areturn \<lparr>uo_success = True,
       uo_status = (if all_shipped then OrderStatus_as_str Shipped else OrderStatus_as_str old_status),
       uo_all_items_shipped = Some all_shipped\<rparr>))"

definition direct_write ::
  "h_env \<Rightarrow> h_io \<Rightarrow> string \<Rightarrow> UpdateOrderStatusRequest \<Rightarrow> json \<Rightarrow> OrderStatus \<Rightarrow> OrderStatus \<Rightarrow> string option \<Rightarrow>
     string option \<Rightarrow> json \<Rightarrow> UpdateOrderStatusResponse h_action" where
  "direct_write he io user req order old_status new_status tracking carrier update_data =
     abind (cas_order he io (bare_id ''orders'' (uo_order_id req)) update_data (OrderStatus_as_str old_status)) (\<lambda>cas_result.
     if cas_result = None
     then athrow (Fail (Validation (''Order status changed concurrently '' @ em_dash @ '' expected '' @ [CHR 0x27] @
       OrderStatus_as_str old_status @ [CHR 0x27] @ '', please retry'')))
     else
       abind (log_order_event he io (uo_order_id req) user
         (''order_status_updated_to_'' @ OrderStatus_as_str new_status)
         (''Order status updated from '' @ OrderStatus_as_str old_status @ '' to '' @ OrderStatus_as_str new_status)
         (json_obj [(''oldStatus'', JString (OrderStatus_as_str old_status)),
                    (''newStatus'', JString (OrderStatus_as_str new_status))])) (\<lambda>_.
       let updates = (case as_object update_data of Some m \<Rightarrow> m | None \<Rightarrow> []) in
       abind (case tracking of
           Some tn \<Rightarrow>
             if new_status = Shipped
             then abind (alift (set_members (updates @ [(''trackingNumber'', JString tn)] @
                           opt_member ''shippingCarrier'' carrier) order)) (\<lambda>email_order.
                    notify (ShippingMail email_order tn carrier))
             else areturn ()
         | None \<Rightarrow> areturn ()) (\<lambda>_.
       abind (if new_status = Delivered
              then abind (alift (set_members updates order)) (\<lambda>email_order. notify (PayoutMail email_order))
              else areturn ()) (\<lambda>_.
       areturn \<lparr>uo_success = True, uo_status = OrderStatus_as_str new_status, uo_all_items_shipped = None\<rparr>))))"

text \<open>The reads of the order and of the caller's roles, and the plan made from them.\<close>

definition order_status_read ::
  "h_env \<Rightarrow> string \<Rightarrow> UpdateOrderStatusRequest \<Rightarrow> (json \<times> OrderStatus \<times> bool) h_action" where
  "order_status_read he user req =
     abind (read_order he (uo_order_id req)) (\<lambda>order.
     let old_status_str = (case jget_str ''orderStatus'' order of Some s \<Rightarrow> s | None \<Rightarrow> ''pending'') in
     abind (hres (ok_or (Internal (''Unknown stored status: '' @ old_status_str)) (parse_order_status old_status_str))) (\<lambda>old_status.
     if bool_field order ''archived'' then athrow (Fail (Validation ''Cannot update archived order''))
     else abind (is_user_admin he user) (\<lambda>is_admin. areturn (order, old_status, is_admin))))"

definition update_order_status ::
  "h_env \<Rightarrow> h_io \<Rightarrow> AuthContext \<Rightarrow> UpdateOrderStatusRequest \<Rightarrow> UpdateOrderStatusResponse h_action" where
  "update_order_status he io auth req =
     (let user = au_user_id auth in
     abind (hres (validate_uid ''orderId'' (uo_order_id req))) (\<lambda>_.
     abind (hres (validate_uid ''userId'' user)) (\<lambda>_.
     abind (hres (validate_string ''newStatus'' (uo_new_status req) 50)) (\<lambda>_.
     abind (hdb (check_user_rate_limit he io user ''update_order_status'' 20 1)) (\<lambda>_.
     let tracking = sanitized he 100 (uo_tracking_number req);
         carrier = sanitized he 50 (uo_carrier req) in
     abind (hres (ok_or (Validation ''Invalid order status provided'') (parse_order_status (uo_new_status req)))) (\<lambda>new_status.
     abind (order_status_read he user req) (\<lambda>(order, old_status, is_admin).
     abind (alift (order_status_plan user is_admin order old_status new_status tracking carrier (io_now io 0))) (\<lambda>plan.
     case plan of
       SellerShip update_data updated_items all_shipped \<Rightarrow>
         seller_ship_write he io req order old_status tracking carrier update_data updated_items all_shipped
     | DirectWrite update_data \<Rightarrow>
         direct_write he io user req order old_status new_status tracking carrier update_data))))))))"

subsection \<open>\<open>update_item_status\<close>\<close>

datatype item_plan = ItemWrite json bool bool

definition item_members :: "DeliveryStatus \<Rightarrow> string option \<Rightarrow> string option \<Rightarrow> string \<Rightarrow> (string \<times> json) list" where
  "item_members new_delivery tracking carrier now =
     (''status'', JString (DeliveryStatus_as_str new_delivery)) #
     (case new_delivery of
        DShipped \<Rightarrow> (''shippedAt'', JString now) # opt_member ''trackingNumber'' tracking @ opt_member ''shippingCarrier'' carrier
      | DDelivered \<Rightarrow> [(''deliveredAt'', JString now)]
      | _ \<Rightarrow> [])"

definition item_status_checks ::
  "string \<Rightarrow> bool \<Rightarrow> json \<Rightarrow> json \<Rightarrow> DeliveryStatus \<Rightarrow> string \<Rightarrow> string option \<Rightarrow> unit ob_result" where
  "item_status_checks user is_admin order item new_delivery new_status tracking =
     (let is_item_seller = (str_field item ''sellerId'' = user);
          current_str = str_field item ''status'';
          current_delivery = (case DeliveryStatus_from_str current_str of Some d \<Rightarrow> d | None \<Rightarrow> DPending)
      in if \<not> is_admin \<and> \<not> is_item_seller
         then Inl (Forbidden ''Only the item seller or admin can update item status'')
         else if is_item_seller \<and> \<not> is_admin \<and> new_delivery = DDelivered
         then Inl (Forbidden ''Sellers cannot mark items as delivered. Buyer must confirm receipt.'')
         else if \<not> is_admin \<and> \<not> is_valid_item_transition current_delivery new_delivery
         then Inl (Validation (''Invalid item status transition from '' @ current_str @ '' to '' @ new_status))
         else if new_delivery = DShipped \<and> tracking = None \<and> str_field order ''deliverySpeed'' \<noteq> ''pickup''
         then Inl (Validation ''Tracking number required for shipped status'')
         else Inr ())"

definition item_status_plan ::
  "string \<Rightarrow> bool \<Rightarrow> json \<Rightarrow> string \<Rightarrow> DeliveryStatus \<Rightarrow> string \<Rightarrow> string option \<Rightarrow> string option \<Rightarrow> string \<Rightarrow>
     h_error + item_plan" where
  "item_status_plan user is_admin order product_id new_delivery new_status tracking carrier now =
     (let items = items_array order
      in case find_item_index items product_id of
           None \<Rightarrow> Inl (Fail (NotFound (''Product '' @ product_id @ '' not found in order'')))
         | Some idx \<Rightarrow>
             rbind (map_err Fail (item_status_checks user is_admin order (items ! idx) new_delivery new_status tracking)) (\<lambda>_.
             rbind (set_item items idx (item_members new_delivery tracking carrier now)) (\<lambda>items.
             let all_delivered = all_items_delivered items;
                 all_shipped = all_items_shipped items;
                 update_data = json_obj [(''items'', JArray items), (''updatedAt'', JString now)];
                 current = str_field order ''orderStatus'';
                 update_data =
                   (if all_delivered \<and> current \<noteq> OrderStatus_as_str Delivered
                    then (if str_field order ''paymentStatus'' = PaymentStatus_as_str PayCaptured
                          then jset ''orderStatus'' (JString (OrderStatus_as_str Delivered)) update_data
                          else update_data)
                    else if all_shipped \<and> \<not> all_delivered
                    then (case parse_order_status current of
                            Some os \<Rightarrow>
                              if os = Processing \<or> os = PaymentAuthorized
                              then jset ''orderStatus'' (JString (OrderStatus_as_str Shipped)) update_data
                              else update_data
                          | None \<Rightarrow> update_data)
                    else update_data)
             in Inr (ItemWrite update_data all_delivered all_shipped))))"

definition item_status_write ::
  "h_env \<Rightarrow> h_io \<Rightarrow> string \<Rightarrow> UpdateItemStatusRequest \<Rightarrow> DeliveryStatus \<Rightarrow> json \<Rightarrow> bool \<Rightarrow> bool \<Rightarrow>
     UpdateItemStatusResponse h_action" where
  "item_status_write he io user req new_delivery update_data all_delivered all_shipped =
     abind (update_order he io (ui_order_id req) update_data) (\<lambda>_.
     abind (log_order_event he io (ui_order_id req) user
       (''item_status_updated_to_'' @ DeliveryStatus_as_str new_delivery)
       (''Item '' @ ui_product_id req @ '' status updated to '' @ DeliveryStatus_as_str new_delivery)
       (json_obj [(''productId'', JString (ui_product_id req)),
                  (''newStatus'', JString (DeliveryStatus_as_str new_delivery))])) (\<lambda>_.
     areturn \<lparr>ui_success = True, ui_item_status = DeliveryStatus_as_str new_delivery,
       ui_all_items_delivered = all_delivered, ui_all_items_shipped = all_shipped\<rparr>))"

definition update_item_status ::
  "h_env \<Rightarrow> h_io \<Rightarrow> AuthContext \<Rightarrow> UpdateItemStatusRequest \<Rightarrow> UpdateItemStatusResponse h_action" where
  "update_item_status he io auth req =
     (let user = au_user_id auth in
     abind (hres (validate_uid ''orderId'' (ui_order_id req))) (\<lambda>_.
     abind (hres (validate_uid ''productId'' (ui_product_id req))) (\<lambda>_.
     abind (hres (validate_uid ''userId'' user)) (\<lambda>_.
     abind (hres (validate_string ''newStatus'' (ui_new_status req) 20)) (\<lambda>_.
     abind (hdb (check_user_rate_limit he io user ''update_item_status'' 20 1)) (\<lambda>_.
     abind (hres (ok_or (Validation (''Status must be one of: pending, shipped, delivered, refunded. Got: '' @
              ui_new_status req)) (DeliveryStatus_from_str (ui_new_status req)))) (\<lambda>new_delivery.
     let tracking = sanitized he 100 (ui_tracking_number req);
         carrier = sanitized he 50 (ui_carrier req) in
     abind (read_order he (ui_order_id req)) (\<lambda>order.
     if bool_field order ''archived'' then athrow (Fail (Validation ''Cannot update archived order''))
     else
       abind (is_user_admin he user) (\<lambda>is_admin.
       abind (alift (item_status_plan user is_admin order (ui_product_id req) new_delivery (ui_new_status req)
                tracking carrier (io_now io 0))) (\<lambda>plan.
       case plan of ItemWrite update_data all_delivered all_shipped \<Rightarrow>
         item_status_write he io user req new_delivery update_data all_delivered all_shipped))))))))))"

end
