(* ===== verification/Order_Safety.thy ===== *)
theory Order_Safety
  imports Order_Status
begin

text \<open>
  What the order status handlers guarantee. First which tables each step can touch, whatever faults
  the database reports; then who can change an order, along which transitions, and what happens to
  requests that overlap. The state at the time of the write is arbitrary in the theorems about
  overlapping requests: it stands for whatever other requests did since the order was read.
\<close>

subsection \<open>Steps and the tables they leave alone\<close>

abbreviation tbl :: "h_state \<Rightarrow> string \<Rightarrow> doc_row list" where
  "tbl s t \<equiv> tables (hs_db s) t"

definition keeps :: "string set \<Rightarrow> 'a h_action \<Rightarrow> bool" where
  "keeps T m \<longleftrightarrow> (\<forall>s t. t \<in> T \<longrightarrow> tbl (snd (m s)) t = tbl s t)"

lemma keepsD: "keeps T m \<Longrightarrow> m s = (r, s') \<Longrightarrow> t \<in> T \<Longrightarrow> tbl s' t = tbl s t"
  by (metis keeps_def snd_conv)

lemma keepsI: "(\<And>s r s' t. m s = (r, s') \<Longrightarrow> t \<in> T \<Longrightarrow> tbl s' t = tbl s t) \<Longrightarrow> keeps T m"
  by (metis keeps_def prod.collapse)

lemma keeps_pure [simp, intro]: "keeps T (areturn x)" "keeps T (athrow e)" "keeps T (alift r)" "keeps T (hres q)"
  "keeps T (notify n)"
  by (simp_all add: keeps_def hres_def notify_def)

lemma keeps_abind [intro]: "keeps T m \<Longrightarrow> (\<And>x. keeps T (f x)) \<Longrightarrow> keeps T (abind m f)"
  unfolding keeps_def abind_def by (auto split: prod.splits sum.splits) (metis snd_conv)+

lemma hdb_eq: "hdb m s = (r, s') \<longleftrightarrow> (\<exists>q d. m (hs_db s) = (q, d) \<and> r = map_err Fail q \<and> s' = s\<lparr>hs_db := d\<rparr>)"
  by (auto simp: hdb_def split: prod.splits)

lemma keeps_hdb: "(\<And>s r s' t. m s = (r, s') \<Longrightarrow> t \<in> T \<Longrightarrow> tables s' t = tables s t) \<Longrightarrow> keeps T (hdb m)"
  by (rule keepsI) (auto simp: hdb_eq)

lemma atry_eq: "atry m s = (r, s') \<longleftrightarrow> (\<exists>q. m s = (q, s') \<and> r = Inr q)"
  by (auto simp: atry_def split: prod.splits)

lemma amap_err_eq: "amap_err f m s = (r, s') \<longleftrightarrow> (\<exists>q. m s = (q, s') \<and> r = map_err f q)"
  by (auto simp: amap_err_def split: prod.splits)

lemma map_err_eq_Inr [simp]: "map_err f r = Inr x \<longleftrightarrow> r = Inr x" "Inr x = map_err f r \<longleftrightarrow> r = Inr x"
  by (cases r; auto)+

text \<open>A step that calls neither the email module nor the payment provider.\<close>

definition quiet :: "'a h_action \<Rightarrow> bool" where
  "quiet m \<longleftrightarrow> (\<forall>s. hs_outbox (snd (m s)) = hs_outbox s)"

lemma quiet_steps [simp, intro]: "quiet (areturn x)" "quiet (athrow e)" "quiet (alift r)" "quiet (hres q)" "quiet (hdb m)"
  by (simp_all add: quiet_def hres_def hdb_def split: prod.splits)

lemma quiet_Pair [simp]: "quiet (Pair r)"
  by (simp add: quiet_def)

lemma quiet_case_prod: "(\<And>a b. quiet (f a b)) \<Longrightarrow> quiet (case p of (a, b) \<Rightarrow> f a b)"
  by (cases p) simp

lemma quiet_abind [intro]: "quiet m \<Longrightarrow> (\<And>x. quiet (f x)) \<Longrightarrow> quiet (abind m f)"
  unfolding quiet_def abind_def by (auto split: prod.splits sum.splits) (metis snd_conv)+

lemma create_other: "create_document env u n coll d s = (r, s') \<Longrightarrow> t \<noteq> coll \<Longrightarrow> tables s' t = tables s t"
  by (drule create_document_cases) (auto split: sum.splits)

lemma count_requests_tables: "count_requests he u a w s = (r, s') \<Longrightarrow> tables s' = tables s"
  unfolding count_requests_def
proof (elim abind_cases)
  fix x v
  assume a: "atry (ensure_table RATE_LIMITS) s = (Inr x, v)"
    "pg_exec ''Query failed: '' RATE_LIMITS (\<lambda>rs. rbind (rmap (rate_row_matches he u a w) rs)
       (\<lambda>bs. Inr (length (filter id bs), rs))) v = (r, s')"
  have "tables v = tables s" using a(1) by (auto simp: atry_eq dest: ensure_table_tables)
  then show ?thesis using pg_exec_cases [OF a(2)] by (auto simp: rbind_eq_Inr split: sum.splits)
qed (auto simp: atry_eq dest: ensure_table_tables)

lemma rate_limit_tables:
  "check_user_rate_limit he io u a n w s = (r, s') \<Longrightarrow> t \<noteq> RATE_LIMITS \<Longrightarrow> tables s' t = tables s t"
  unfolding check_user_rate_limit_def
  by (auto simp: atry_eq split: if_splits elim!: abind_cases dest!: count_requests_tables) (metis create_other)

text \<open>The tables that no step but the write of the order changes.\<close>

definition core_tables :: "string set" where
  "core_tables = - {RATE_LIMITS, ''events''}"

lemma core_mem [simp]: "''orders'' \<in> core_tables" "''users'' \<in> core_tables"
  by (simp_all add: core_tables_def RATE_LIMITS_def)

lemma keeps_rate_limit [intro]: "keeps core_tables (hdb (check_user_rate_limit he io u a n w))"
  by (rule keeps_hdb) (auto simp: core_tables_def dest: rate_limit_tables)

lemma keeps_read_order [intro]: "keeps T (read_order he i)"
  unfolding read_order_def by (rule keeps_hdb) (auto simp: amap_err_eq dest: get_document_cases)

lemma keeps_is_user_admin [intro]: "keeps T (is_user_admin he u)"
  unfolding is_user_admin_def
  by (intro keeps_abind keeps_hdb) (auto simp: atry_eq dest: get_document_cases)

lemma keeps_log [intro]: "keeps core_tables (log_order_event he io i u e m d)"
  unfolding log_order_event_def
  by (intro keeps_abind keeps_hdb) (auto simp: atry_eq core_tables_def dest: create_other)

text \<open>A change of a table through a sequence: the first action left it alone and succeeded.\<close>

lemma changed_abind:
  assumes "tbl (snd (abind m f s)) ''orders'' \<noteq> tbl s ''orders''" "keeps core_tables m"
  obtains x u where "m s = (Inr x, u)" "\<forall>t \<in> core_tables. tbl u t = tbl s t"
    "tbl (snd (f x u)) ''orders'' \<noteq> tbl u ''orders''"
proof -
  obtain r u where m: "m s = (r, u)" by force
  have same: "\<forall>t \<in> core_tables. tbl u t = tbl s t" using keepsD [OF assms(2) m] by blast
  show ?thesis
  proof (cases r)
    case (Inl e)
    then show ?thesis using assms(1) m same by (simp add: abind_def)
  next
    case (Inr x)
    then show ?thesis using assms(1) m same by (intro that [of x u]) (auto simp: abind_def)
  qed
qed

lemma changed_if:
  assumes "tbl (snd ((if b then athrow e else m) s)) t \<noteq> tbl s t"
  obtains "\<not> b" "tbl (snd (m s)) t \<noteq> tbl s t"
  using assms by (cases b) auto

lemma read_order_row:
  assumes "read_order he i s = (Inr order, u)"
  obtains row where "doc_of (bare_id ''orders'' i) (tbl s ''orders'') = Some row"
    "order = inject_document_metadata (he_pg he) row"
proof -
  from assms obtain d where "get_document (he_pg he) ''orders'' i (hs_db s) = (Inr order, d)"
    unfolding read_order_def hdb_eq amap_err_eq by auto
  from get_document_cases [OF this] show ?thesis using that by blast
qed

lemma jget_inject:
  "f \<notin> {''id'', ''createdAt'', ''updatedAt''} \<Longrightarrow> jget f (inject_document_metadata env r) = jget f (d_data r)"
  by (simp add: inject_document_metadata_def jget_def split: json.split)

lemma str_field_inject:
  "f \<notin> {''id'', ''createdAt'', ''updatedAt''} \<Longrightarrow> str_field (inject_document_metadata env r) f = str_field (d_data r) f"
  by (simp add: str_field_def jget_str_def jget_inject)

lemma items_inject: "items_array (inject_document_metadata env r) = items_array (d_data r)"
  by (simp add: items_array_def jget_array_def jget_inject)

subsection \<open>Who can change an order\<close>

definition has_admin_role :: "h_state \<Rightarrow> string \<Rightarrow> bool" where
  "has_admin_role s user \<longleftrightarrow> (\<exists>r. doc_of (bare_id ''users'' user) (tbl s ''users'') = Some r \<and>
     (\<exists>vs. jget_array ''roles'' (d_data r) = Some vs \<and> JString ''admin'' \<in> set vs))"

lemma as_str_eq: "as_str v = Some x \<longleftrightarrow> v = JString x"
  by (cases v) auto

lemma is_user_admin_true:
  assumes "is_user_admin he user s = (Inr True, u)"
  shows "has_admin_role s user"
proof -
  obtain q where q: "get_document (he_pg he) ''users'' user (hs_db s) = (q, hs_db u)"
    and res: "case q of Inl _ \<Rightarrow> False | Inr d \<Rightarrow>
      list_ex (\<lambda>v. as_str v = Some ''admin'') (case jget_array ''roles'' d of Some vs \<Rightarrow> vs | None \<Rightarrow> [])"
    using assms by (auto simp: is_user_admin_def abind_eq_Inr hdb_eq atry_eq)
  then obtain d where "get_document (he_pg he) ''users'' user (hs_db s) = (Inr d, hs_db u)"
    and admin: "list_ex (\<lambda>v. as_str v = Some ''admin'') (case jget_array ''roles'' d of Some vs \<Rightarrow> vs | None \<Rightarrow> [])"
    by (cases q) auto
  from get_document_cases [OF this(1)] obtain row where row: "doc_of (bare_id ''users'' user) (tbl s ''users'') = Some row"
    and d: "d = inject_document_metadata (he_pg he) row" by blast
  from admin have "\<exists>vs. jget_array ''roles'' (d_data row) = Some vs \<and> JString ''admin'' \<in> set vs"
    by (cases "jget_array ''roles'' (d_data row)") (auto simp: d list_ex_iff as_str_eq jget_array_def jget_inject)
  with row show ?thesis unfolding has_admin_role_def by blast
qed

text \<open>The callers each handler serves, read off the stored order.\<close>

definition buyer_of_item :: "json \<Rightarrow> string \<Rightarrow> string \<Rightarrow> bool" where
  "buyer_of_item order user product_id \<longleftrightarrow> str_field order ''userId'' = user \<and>
     (\<exists>it \<in> set (items_array order). str_field it ''productId'' = product_id \<and>
        str_field it ''sellerId'' \<noteq> user \<and> str_field it ''status'' = ''shipped'')"

definition seller_of_item :: "json \<Rightarrow> string \<Rightarrow> string \<Rightarrow> bool" where
  "seller_of_item order user product_id \<longleftrightarrow>
     (\<exists>it \<in> set (items_array order). str_field it ''productId'' = product_id \<and> str_field it ''sellerId'' = user)"

definition only_seller :: "json \<Rightarrow> string \<Rightarrow> bool" where
  "only_seller order user \<longleftrightarrow>
     (\<exists>it \<in> set (items_array order). str_field it ''sellerId'' = user) \<and>
     (\<forall>it \<in> set (items_array order). \<forall>u. jget_str ''sellerId'' it = Some u \<longrightarrow> u = user)"

lemma entitled_inject:
  "buyer_of_item (inject_document_metadata env r) u p \<longleftrightarrow> buyer_of_item (d_data r) u p"
  "seller_of_item (inject_document_metadata env r) u p \<longleftrightarrow> seller_of_item (d_data r) u p"
  "only_seller (inject_document_metadata env r) u \<longleftrightarrow> only_seller (d_data r) u"
  by (simp_all add: buyer_of_item_def seller_of_item_def only_seller_def items_inject str_field_inject)

lemma position_Some: "position P xs = Some i \<Longrightarrow> i < length xs \<and> P (xs ! i)"
proof (induction xs arbitrary: i)
  case (Cons x xs)
  then show ?case by (auto split: if_splits)
qed simp

lemma DeliveryStatus_from_str_eq: "DeliveryStatus_from_str s = Some d \<longleftrightarrow> s = DeliveryStatus_as_str d"
  by (cases d) (auto simp: DeliveryStatus_from_str_def)

lemma confirm_plan_write:
  assumes "confirm_item_receipt_plan user pid now order = Inr (ConfirmWrite upd alld expected)"
  shows "buyer_of_item order user pid"
  using assms unfolding confirm_item_receipt_plan_def buyer_of_item_def find_item_index_def Let_def
  by (auto simp: DeliveryStatus_from_str_eq split: if_splits option.splits dest!: position_Some intro!: bexI [OF _ nth_mem])

lemma map_filter_set: "set (List.map_filter f xs) = {y. \<exists>x \<in> set xs. f x = Some y}"
  by (induction xs) (auto simp: List.map_filter_simps split: option.splits)

lemma distinct_length_le1: "distinct xs \<Longrightarrow> length xs \<le> 1 \<Longrightarrow> a \<in> set xs \<Longrightarrow> b \<in> set xs \<Longrightarrow> a = b"
  by (cases xs; cases "tl xs") auto

lemma only_sellerI:
  assumes "it \<in> set (items_array order)" "str_field it ''sellerId'' = user" "user \<noteq> []"
    and "\<not> 1 < length (all_seller_ids (items_array order))"
  shows "only_seller order user"
proof -
  have it: "jget_str ''sellerId'' it = Some user"
    using assms(2,3) by (auto simp: str_field_def split: option.splits)
  have "u = user" if "x \<in> set (items_array order)" "jget_str ''sellerId'' x = Some u" for x u
    using distinct_length_le1 [of "all_seller_ids (items_array order)" u user] assms(1,4) it that
    by (auto simp: all_seller_ids_def map_filter_set)
  then show ?thesis using assms(1,2) by (auto simp: only_seller_def)
qed

lemma order_status_checks_ok:
  assumes "order_status_checks user is_admin order old new = Inr ()" "user \<noteq> []"
  shows "(is_admin \<or> (only_seller order user \<and> new \<noteq> Delivered)) \<and> is_valid_order_transition old new"
  using assms only_sellerI [of _ order user]
  by (auto simp: order_status_checks_def Let_def rbind_eq_Inr is_seller_item_def filter_empty_conv split: if_splits)

lemma validate_uid_ok: "validate_uid f v = Inr x \<Longrightarrow> v \<noteq> []"
  by (auto simp: validate_uid_def split: if_splits)

lemma hres_Inr: "hres r s = (Inr x, u) \<longleftrightarrow> r = Inr x \<and> u = s"
  by (auto simp: hres_def)

lemma confirm_changed:
  assumes "tbl (snd (confirm_item_receipt he io auth req s)) ''orders'' \<noteq> tbl s ''orders''"
  shows "\<exists>r. doc_of (bare_id ''orders'' (ci_order_id req)) (tbl s ''orders'') = Some r \<and>
    buyer_of_item (d_data r) (au_user_id auth) (ci_product_id req)"
proof -
  obtain order u v upd alld expected where read: "read_order he (ci_order_id req) u = (Inr order, v)"
    and same: "tbl u ''orders'' = tbl s ''orders''"
    and plan: "confirm_item_receipt_plan (au_user_id auth) (ci_product_id req) (io_now io 0) order = Inr (ConfirmWrite upd alld expected)"
    using assms unfolding confirm_item_receipt_def Let_def
    by (elim changed_abind; (intro keeps_pure keeps_rate_limit keeps_read_order)?)
      (auto simp: hres_def split: confirm_plan.splits)
  with confirm_plan_write plan have "buyer_of_item order (au_user_id auth) (ci_product_id req)" by blast
  then show ?thesis
    using read_order_row [OF read] same by (metis entitled_inject(1))
qed

lemma keeps_order_status_read [intro]: "keeps T (order_status_read he user req)"
  unfolding order_status_read_def Let_def by (intro keeps_abind keeps_read_order keeps_pure) auto

lemma order_status_read_row:
  assumes "order_status_read he user req s = (Inr (order, old, is_admin), u)"
  obtains row where "doc_of (bare_id ''orders'' (uo_order_id req)) (tbl s ''orders'') = Some row"
    "order = inject_document_metadata (he_pg he) row" "is_admin \<longrightarrow> has_admin_role s user"
    "parse_order_status (case jget_str ''orderStatus'' (d_data row) of Some st \<Rightarrow> st | None \<Rightarrow> ''pending'') = Some old"
proof -
  obtain v w where read: "read_order he (uo_order_id req) s = (Inr order, v)"
    and admin: "is_user_admin he user v = (Inr is_admin, w)"
    and old: "parse_order_status (case jget_str ''orderStatus'' order of Some st \<Rightarrow> st | None \<Rightarrow> ''pending'') = Some old"
    using assms by (auto simp: order_status_read_def abind_eq_Inr hres_Inr ok_or_eq_Inr Let_def split: if_splits)
  have "tbl v t = tbl s t" for t using keepsD [OF keeps_read_order read, of t UNIV] by simp
  then have "is_admin \<longrightarrow> has_admin_role s user"
    using admin is_user_admin_true [of he user v w] by (auto simp: has_admin_role_def)
  moreover obtain row where "doc_of (bare_id ''orders'' (uo_order_id req)) (tbl s ''orders'') = Some row"
    "order = inject_document_metadata (he_pg he) row"
    by (rule read_order_row [OF read])
  ultimately show ?thesis using old that by (simp add: jget_str_def jget_inject)
qed

lemma update_order_changed:
  assumes "tbl (snd (update_order_status he io auth req s)) ''orders'' \<noteq> tbl s ''orders''"
  shows "\<exists>r. doc_of (bare_id ''orders'' (uo_order_id req)) (tbl s ''orders'') = Some r \<and>
    (has_admin_role s (au_user_id auth) \<or> only_seller (d_data r) (au_user_id auth))"
proof -
  obtain order u v old new is_admin plan tracking carrier where
      read: "order_status_read he (au_user_id auth) req u = (Inr (order, old, is_admin), v)"
    and same: "\<forall>t \<in> core_tables. tbl u t = tbl s t"
    and user: "au_user_id auth \<noteq> []"
    and plan: "order_status_plan (au_user_id auth) is_admin order old new tracking carrier (io_now io 0) = Inr plan"
    using assms unfolding update_order_status_def Let_def
    by (elim changed_abind; (intro keeps_pure keeps_rate_limit keeps_order_status_read)?)
      (auto simp: hres_Inr dest!: validate_uid_ok split: sum.splits)
  obtain row where row: "doc_of (bare_id ''orders'' (uo_order_id req)) (tbl u ''orders'') = Some row"
      "order = inject_document_metadata (he_pg he) row" "is_admin \<longrightarrow> has_admin_role u (au_user_id auth)"
    by (rule order_status_read_row [OF read])
  have "is_admin \<or> only_seller order (au_user_id auth)"
    using plan order_status_checks_ok [OF _ user] by (auto simp: order_status_plan_def rbind_eq_Inr)
  then show ?thesis
    using row same by (auto simp: entitled_inject has_admin_role_def)
qed

lemma item_status_checks_ok:
  assumes "item_status_checks user is_admin order item new_delivery nst tracking = Inr ()"
  shows "is_admin \<or> (str_field item ''sellerId'' = user \<and> new_delivery \<noteq> DDelivered \<and>
    is_valid_item_transition (case DeliveryStatus_from_str (str_field item ''status'') of Some d \<Rightarrow> d | None \<Rightarrow> DPending) new_delivery)"
  using assms unfolding item_status_checks_def Let_def by (cases is_admin) (simp_all split: if_splits)

lemma jget_json_obj [simp]: "jget k (json_obj kvs) = map_of (rev kvs) k"
  by (simp add: json_obj_def jget_def map_of_fold_obj_insert)

lemma jget_jset_obj: "jset k v (json_obj kvs) = json_obj (kvs @ [(k, v)])"
  by (simp add: json_obj_def)

lemma item_plan_cases:
  assumes "item_status_plan user is_admin order pid new_delivery nst tracking carrier now = Inr (ItemWrite upd alld alls)"
  obtains idx items' where "find_item_index (items_array order) pid = Some idx"
    "item_status_checks user is_admin order (items_array order ! idx) new_delivery nst tracking = Inr ()"
    "set_item (items_array order) idx (item_members new_delivery tracking carrier now) = Inr items'"
    "jget ''items'' upd = Some (JArray items')" "alld = all_items_delivered items'" "alls = all_items_shipped items'"
proof (cases "find_item_index (items_array order) pid")
  case None
  then show ?thesis using assms by (simp add: item_status_plan_def)
next
  case (Some idx)
  from assms obtain items' where "item_status_checks user is_admin order (items_array order ! idx) new_delivery nst tracking = Inr ()"
      "set_item (items_array order) idx (item_members new_delivery tracking carrier now) = Inr items'"
      "jget ''items'' upd = Some (JArray items')" "alld = all_items_delivered items'" "alls = all_items_shipped items'"
    by (fastforce simp: item_status_plan_def Some rbind_eq_Inr Let_def jget_jset_obj split: if_splits option.splits)
  with Some that show ?thesis by blast
qed

lemma item_plan_seller:
  assumes "item_status_plan user is_admin order pid new_delivery nst tracking carrier now = Inr plan"
  shows "is_admin \<or> seller_of_item order user pid"
proof -
  obtain upd alld alls where plan: "plan = ItemWrite upd alld alls" by (cases plan)
  from assms [unfolded plan] show ?thesis
  proof (cases rule: item_plan_cases)
    case (1 idx items')
    then show ?thesis
      using position_Some [OF 1(1) [unfolded find_item_index_def]] item_status_checks_ok [OF 1(2)]
      by (auto simp: seller_of_item_def intro!: bexI [OF _ nth_mem])
  qed
qed

lemma update_item_changed:
  assumes "tbl (snd (update_item_status he io auth req s)) ''orders'' \<noteq> tbl s ''orders''"
  shows "\<exists>r. doc_of (bare_id ''orders'' (ui_order_id req)) (tbl s ''orders'') = Some r \<and>
    (has_admin_role s (au_user_id auth) \<or> seller_of_item (d_data r) (au_user_id auth) (ui_product_id req))"
proof -
  obtain order u v w is_admin plan new_delivery tracking carrier where
      read: "read_order he (ui_order_id req) u = (Inr order, v)"
    and admin: "is_user_admin he (au_user_id auth) v = (Inr is_admin, w)"
    and same: "\<forall>t \<in> core_tables. tbl u t = tbl s t" "\<forall>t \<in> core_tables. tbl v t = tbl u t"
    and plan: "item_status_plan (au_user_id auth) is_admin order (ui_product_id req) new_delivery (ui_new_status req)
      tracking carrier (io_now io 0) = Inr plan"
    using assms unfolding update_item_status_def Let_def
    by (elim changed_abind changed_if;
        (intro keeps_pure keeps_rate_limit keeps_read_order keeps_is_user_admin)?)
      (auto simp: hres_Inr)
  have "is_admin \<longrightarrow> has_admin_role s (au_user_id auth)"
    using admin is_user_admin_true [of he "au_user_id auth" v w] same by (auto simp: has_admin_role_def)
  then show ?thesis
    using item_plan_seller [OF plan] read_order_row [OF read] same by (metis core_mem(1) entitled_inject(2))
qed

subsection \<open>Only the addressed order\<close>

definition other_rows :: "string \<Rightarrow> doc_row option \<Rightarrow> h_state \<Rightarrow> bool" where
  "other_rows k x s \<longleftrightarrow> doc_of k (tbl s ''orders'') = x"

lemma keeps_other_rows: "keeps core_tables m \<Longrightarrow> preserves (other_rows k x) m"
  unfolding preserves_def other_rows_def by (metis core_mem(1) keeps_def)

lemma preserves_hdb:
  "(\<And>s r s'. m s = (r, s') \<Longrightarrow> doc_of k (tables s' ''orders'') = doc_of k (tables s ''orders'')) \<Longrightarrow>
     preserves (other_rows k x) (hdb m)"
  unfolding preserves_def other_rows_def by (auto simp: hdb_def split: prod.splits)

lemma doc_of_cas:
  "k \<noteq> i \<Longrightarrow> doc_of k (map (\<lambda>r. if cas_matches env i f e r then merged n b r else r) rs) = doc_of k rs"
  by (induction rs) (auto simp: doc_of_def cas_matches_def)

lemma preserves_cas_order:
  "k \<noteq> bare_id ''orders'' i \<Longrightarrow> preserves (other_rows k x) (cas_order he io i d e)"
  unfolding cas_order_def
  by (rule preserves_hdb) (auto simp: amap_err_eq doc_of_cas dest!: update_document_cas_cases split: sum.splits)

lemma preserves_update_order:
  "k \<noteq> bare_id ''orders'' i \<Longrightarrow> preserves (other_rows k x) (update_order he io i d)"
  unfolding update_order_def
  by (rule preserves_hdb)
    (auto simp: amap_err_eq doc_of_merge option.map_ident dest!: update_document_cases split: sum.splits)

lemmas other_rows_intros = preserves_abind preserves_areturn preserves_athrow preserves_alift
  preserves_cas_order preserves_update_order
  keeps_rate_limit [THEN keeps_other_rows] keeps_log [THEN keeps_other_rows] keeps_pure(4,5) [THEN keeps_other_rows]
  keeps_read_order [THEN keeps_other_rows] keeps_is_user_admin [THEN keeps_other_rows]
  keeps_order_status_read [THEN keeps_other_rows]

lemma writes_other_rows:
  "k \<noteq> bare_id ''orders'' (ci_order_id creq) \<Longrightarrow>
     preserves (other_rows k x) (confirm_item_receipt_write he io user creq upd d e)"
  "k \<noteq> bare_id ''orders'' (ui_order_id ireq) \<Longrightarrow>
     preserves (other_rows k x) (item_status_write he io user ireq new_delivery upd d sh)"
  "k \<noteq> bare_id ''orders'' (uo_order_id oreq) \<Longrightarrow>
     preserves (other_rows k x) (seller_ship_write he io oreq order old tracking carrier upd items sh)"
  "k \<noteq> bare_id ''orders'' (bare_id ''orders'' (uo_order_id oreq)) \<Longrightarrow>
     preserves (other_rows k x) (direct_write he io user oreq order old new tracking carrier upd)"
  unfolding confirm_item_receipt_write_def item_status_write_def seller_ship_write_def direct_write_def Let_def
  by (auto intro!: other_rows_intros split: option.split)

lemma handlers_other_rows:
  "k \<noteq> bare_id ''orders'' (ci_order_id creq) \<Longrightarrow> preserves (other_rows k x) (confirm_item_receipt he io auth creq)"
  "k \<noteq> bare_id ''orders'' (ui_order_id ireq) \<Longrightarrow> preserves (other_rows k x) (update_item_status he io auth ireq)"
  "k \<noteq> bare_id ''orders'' (uo_order_id oreq) \<Longrightarrow> k \<noteq> bare_id ''orders'' (bare_id ''orders'' (uo_order_id oreq)) \<Longrightarrow>
     preserves (other_rows k x) (update_order_status he io auth oreq)"
  unfolding confirm_item_receipt_def update_item_status_def update_order_status_def Let_def
  by (auto intro!: other_rows_intros writes_other_rows split: confirm_plan.split item_plan.split order_plan.split)

subsection \<open>What a write leaves in the store\<close>

text \<open>
  Documented behaviour of \<open>jsonb\<close>: an object stays an object with the same members, and members
  that are strings keep their value.
\<close>

definition jsonb_keeps_strings :: "pg_env \<Rightarrow> bool" where
  "jsonb_keeps_strings env \<longleftrightarrow> (\<forall>m v. obj_ok m \<longrightarrow> pg_to_jsonb env (JObject m) = Inr v \<longrightarrow>
     (\<exists>b. v = JObject b \<and> obj_ok b \<and> (\<forall>k. map_of b k = None \<longleftrightarrow> map_of m k = None) \<and>
        (\<forall>k x. map_of m k = Some (JString x) \<longrightarrow> map_of b k = Some (JString x))))"

lemma jsonb_string:
  assumes "jsonb_keeps_strings env" "pg_to_jsonb env (json_obj kvs) = Inr body" "jget k (json_obj kvs) = Some (JString x)"
  obtains b where "body = JObject b" "obj_ok b" "map_of b k = Some (JString x)"
proof -
  have ok: "obj_ok (fold (\<lambda>(k, v). obj_insert k v) kvs [])" by (rule obj_ok_fold) simp
  obtain b where b: "body = JObject b" "obj_ok b"
      "\<forall>k x. map_of (fold (\<lambda>(k, v). obj_insert k v) kvs []) k = Some (JString x) \<longrightarrow> map_of b k = Some (JString x)"
    using assms(1,2) ok unfolding jsonb_keeps_strings_def json_obj_def by blast
  moreover have "map_of (fold (\<lambda>(k, v). obj_insert k v) kvs []) k = Some (JString x)"
    using assms(3) by (simp add: json_obj_def jget_def)
  ultimately show ?thesis using that by blast
qed

lemma fold_jset: "fold (\<lambda>(k, v). jset k v) l (json_obj kvs) = json_obj (kvs @ l)"
  by (induction l arbitrary: kvs) (auto simp: jget_jset_obj)

lemma jget_concat_obj:
  "jget k (jsonb_concat (JObject m) (json_obj kvs)) = (case map_of (rev kvs) k of Some v \<Rightarrow> Some v | None \<Rightarrow> map_of m k)"
  by (simp add: json_obj_def jget_def map_of_obj_merge obj_ok_fold map_of_fold_obj_insert map_add_def)

lemma direct_plan_status:
  assumes "direct_plan is_admin new tracking carrier now items = Inr (DirectWrite upd)"
  shows "\<exists>kvs. upd = json_obj kvs \<and> jget ''orderStatus'' upd = Some (JString (OrderStatus_as_str new))"
  using assms unfolding direct_plan_def Let_def rbind_eq_Inr fold_jset jget_jset_obj
  by (auto simp: rbind_eq_Inr fold_jset jget_jset_obj tracking_members_def split: if_splits option.splits)

lemma seller_plan_status:
  assumes "seller_ship_plan user tracking carrier now items = Inr (SellerShip upd items' True)"
  shows "\<exists>kvs. upd = json_obj kvs \<and> jget ''orderStatus'' upd = Some (JString (OrderStatus_as_str Shipped))"
  using assms unfolding seller_ship_plan_def Let_def fold_jset
  by (auto simp: rbind_eq_Inr fold_jset tracking_members_def split: if_splits option.splits)

lemma cas_order_row:
  assumes "cas_order he io i upd e s = (Inr (Some v), s')" "distinct (map d_id (tbl s ''orders''))"
  obtains r body where "doc_of (bare_id ''orders'' i) (tbl s ''orders'') = Some r"
    "member_text (he_pg he) ''orderStatus'' (d_data r) = Some e" "pg_to_jsonb (he_pg he) upd = Inr body"
    "doc_of (bare_id ''orders'' i) (tbl s' ''orders'') = Some (merged (io_db_now io 1) body r)"
proof -
  let ?P = "cas_matches (he_pg he) (bare_id ''orders'' i) ''orderStatus'' (JString e)"
  let ?rs = "tbl s ''orders''"
  from assms(1) obtain q d where "update_document_cas (he_pg he) (io_db_now io 1) ''orders'' i upd ''orderStatus'' (JString e) (hs_db s)
      = (Inr (Some v), d)" and d: "s' = s\<lparr>hs_db := d\<rparr>"
    unfolding cas_order_def hdb_eq amap_err_eq by auto
  from update_document_cas_cases [OF this(1)] obtain body r where body: "pg_to_jsonb (he_pg he) upd = Inr body"
      "tables d ''orders'' = map (\<lambda>r. if ?P r then merged (io_db_now io 1) body r else r) ?rs"
      and r: "r \<in> set ?rs" "?P r" by fastforce
  have rid: "d_id r = bare_id ''orders'' i" and e: "member_text (he_pg he) ''orderStatus'' (d_data r) = Some e"
    using r(2) by (auto simp: cas_matches_def sql_eq_def jsonb_text_def split: option.splits)
  have doc: "doc_of (bare_id ''orders'' i) ?rs = Some r"
    using assms(2) r(1) rid by (metis doc_of_distinct)
  have "doc_of (bare_id ''orders'' i) (tables d ''orders'') =
      map_option (\<lambda>r. if ?P r then merged (io_db_now io 1) body r else r) (doc_of (bare_id ''orders'' i) ?rs)"
    unfolding body(2) by (rule doc_of_map) simp
  with doc e body(1) r(2) d show ?thesis by (intro that [of r body]) auto
qed

lemma update_order_row:
  assumes "update_order he io i upd s = (Inr v, s')"
  obtains r body where "doc_of (bare_id ''orders'' i) (tbl s ''orders'') = Some r" "pg_to_jsonb (he_pg he) upd = Inr body"
    "doc_of (bare_id ''orders'' i) (tbl s' ''orders'') = Some (merged (io_db_now io 1) body r)"
proof -
  from assms obtain d where "update_document (he_pg he) (io_db_now io 1) ''orders'' i upd (hs_db s) = (Inr v, d)"
    and d: "s' = s\<lparr>hs_db := d\<rparr>"
    unfolding update_order_def hdb_eq amap_err_eq by auto
  from update_document_cases [OF this(1)] obtain r body where
    "doc_of (bare_id ''orders'' i) (tbl s ''orders'') = Some r" "pg_to_jsonb (he_pg he) upd = Inr body"
    "tables d ''orders'' = map (\<lambda>r. if d_id r = bare_id ''orders'' i then merged (io_db_now io 1) body r else r) (tbl s ''orders'')"
    by auto
  with d that show ?thesis by (simp add: doc_of_merge)
qed

lemma status_after_merge:
  assumes "jget_str f (JObject b) = Some x" "obj_ok b"
  shows "member_text env f (jsonb_concat d (JObject b)) = (case d of JObject _ \<Rightarrow> Some x | _ \<Rightarrow> None)"
  using assms by (cases d) (auto simp: member_text_def jget_def jget_str_def map_of_obj_merge jsonb_text_def bind_eq_Some_conv as_str_eq)

lemma cas_then_rest:
  assumes "abind m (\<lambda>c. if c = None then athrow e else rest) s = (Inr x, s')" "keeps core_tables rest"
  shows "\<exists>v u. m s = (Inr (Some v), u) \<and> tbl s' ''orders'' = tbl u ''orders''"
  using assms(1) keepsD [OF assms(2)] by (auto simp: abind_eq_Inr split: if_splits)

lemma direct_write_cases:
  assumes "direct_write he io user req order old new tracking carrier upd s = (Inr resp, s')"
  shows "\<exists>v u. cas_order he io (bare_id ''orders'' (uo_order_id req)) upd (OrderStatus_as_str old) s = (Inr (Some v), u) \<and>
    tbl s' ''orders'' = tbl u ''orders''"
  using assms unfolding direct_write_def Let_def
  by (rule cas_then_rest) (auto intro!: keeps_abind split: option.split)

text \<open>
  C15. The conditional path of \<open>update_order_status\<close> is safe under concurrency. Whatever happened to the store
  between the read of the order and the write, a successful answer means that at the time of the
  write the stored status was the one the plan was made for, that the step to the new status is an
  edge of the transition graph, and that the order now has the new status.
\<close>

theorem direct_update_follows_graph:
  assumes "jsonb_keeps_strings (he_pg he)"
    and "order_status_plan user is_admin order old new tracking carrier now = Inr (DirectWrite upd)"
    and "user \<noteq> []"
    and "distinct (map d_id (tbl s ''orders''))"
    and "direct_write he io user req order old new tracking carrier upd s = (Inr resp, s')"
    and "i = bare_id ''orders'' (bare_id ''orders'' (uo_order_id req))"
  shows "is_valid_order_transition old new \<and> (is_admin \<or> only_seller order user \<and> new \<noteq> Delivered) \<and>
    (\<exists>r r'. doc_of i (tbl s ''orders'') = Some r \<and> doc_of i (tbl s' ''orders'') = Some r' \<and>
       member_text (he_pg he) ''orderStatus'' (d_data r) = Some (OrderStatus_as_str old) \<and>
       member_text (he_pg he) ''orderStatus'' (d_data r') = Some (OrderStatus_as_str new))"
proof -
  have checks: "order_status_checks user is_admin order old new = Inr ()"
    and plan: "direct_plan is_admin new tracking carrier now (items_array order) = Inr (DirectWrite upd)"
    using assms(2) by (auto simp: order_status_plan_def rbind_eq_Inr Let_def seller_ship_plan_def split: if_splits)
  obtain v u where cas: "cas_order he io (bare_id ''orders'' (uo_order_id req)) upd (OrderStatus_as_str old) s = (Inr (Some v), u)"
    and rest: "tbl s' ''orders'' = tbl u ''orders''"
    using direct_write_cases [OF assms(5)] by blast
  obtain r body where r: "doc_of i (tbl s ''orders'') = Some r"
    "member_text (he_pg he) ''orderStatus'' (d_data r) = Some (OrderStatus_as_str old)" "pg_to_jsonb (he_pg he) upd = Inr body"
    "doc_of i (tbl u ''orders'') = Some (merged (io_db_now io 1) body r)"
    using cas_order_row [OF cas assms(4)] assms(6) by blast
  obtain kvs where kvs: "upd = json_obj kvs" "jget ''orderStatus'' upd = Some (JString (OrderStatus_as_str new))"
    using direct_plan_status [OF plan] by blast
  obtain b where b: "body = JObject b" "obj_ok b" "map_of b ''orderStatus'' = Some (JString (OrderStatus_as_str new))"
    using jsonb_string [OF assms(1)] r(3) kvs by metis
  have "\<exists>m. d_data r = JObject m"
    using r(2) by (cases "d_data r") (auto simp: member_text_def jget_def)
  then have "member_text (he_pg he) ''orderStatus'' (d_data (merged (io_db_now io 1) body r)) = Some (OrderStatus_as_str new)"
    using status_after_merge [of "''orderStatus''" b "OrderStatus_as_str new" "he_pg he" "d_data r"] b
    by (auto simp: jget_str_def jget_def)
  with r rest order_status_checks_ok [OF checks assms(3)] show ?thesis by auto
qed

lemma write_then_rest:
  assumes "abind m (\<lambda>_. rest) s = (Inr x, s')" "keeps core_tables rest"
  shows "\<exists>v u. m s = (Inr v, u) \<and> tbl s' ''orders'' = tbl u ''orders''"
  using assms(1) keepsD [OF assms(2)] by (auto simp: abind_eq_Inr)

lemma seller_ship_write_cases:
  assumes "seller_ship_write he io req order old tracking carrier upd items sh s = (Inr resp, s')"
  shows "\<exists>v u. update_order he io (uo_order_id req) upd s = (Inr v, u) \<and> tbl s' ''orders'' = tbl u ''orders''"
  using assms unfolding seller_ship_write_def
  by (rule write_then_rest) (auto intro!: keeps_abind split: option.split)

lemma confirm_write_cases:
  assumes "confirm_item_receipt_write he io user req upd alld e s = (Inr resp, s')"
  shows "\<exists>v u. cas_order he io (ci_order_id req) upd e s = (Inr (Some v), u) \<and> tbl s' ''orders'' = tbl u ''orders''"
  using assms unfolding confirm_item_receipt_write_def
  by (rule cas_then_rest) (auto intro!: keeps_abind)

lemma item_write_cases:
  assumes "item_status_write he io user req new_delivery upd alld alls s = (Inr resp, s')"
  shows "\<exists>v u. update_order he io (ui_order_id req) upd s = (Inr v, u) \<and> tbl s' ''orders'' = tbl u ''orders''"
  using assms unfolding item_status_write_def
  by (rule write_then_rest) (auto intro!: keeps_abind)

text \<open>
  The seller's path has no such guard. A plan to ship made from an order that was still being processed
  is written whatever the order has become: any stored status, a cancellation included, is replaced by
  \<open>shipped\<close> when the write succeeds.
\<close>

theorem seller_ship_ignores_concurrent_changes:
  assumes "jsonb_keeps_strings (he_pg he)"
    and "order_status_plan user is_admin order old new tracking carrier now = Inr (SellerShip upd items True)"
    and "seller_ship_write he io req order old tracking carrier upd items True s = (Inr resp, s')"
    and "doc_of (bare_id ''orders'' (uo_order_id req)) (tbl s ''orders'') = Some r" and "d_data r = JObject m"
  shows "\<exists>r'. doc_of (bare_id ''orders'' (uo_order_id req)) (tbl s' ''orders'') = Some r' \<and>
    member_text (he_pg he) ''orderStatus'' (d_data r') = Some ''shipped''"
proof -
  have plan: "seller_ship_plan user tracking carrier now (items_array order) = Inr (SellerShip upd items True)"
    using assms(2) by (auto simp: order_status_plan_def rbind_eq_Inr Let_def direct_plan_def split: if_splits)
  obtain v u where upd: "update_order he io (uo_order_id req) upd s = (Inr v, u)" and rest: "tbl s' ''orders'' = tbl u ''orders''"
    using seller_ship_write_cases [OF assms(3)] by blast
  obtain body where r: "pg_to_jsonb (he_pg he) upd = Inr body"
    "doc_of (bare_id ''orders'' (uo_order_id req)) (tbl u ''orders'') = Some (merged (io_db_now io 1) body r)"
    using update_order_row [OF upd] assms(4) by (metis option.inject)
  obtain kvs where kvs: "upd = json_obj kvs" "jget ''orderStatus'' upd = Some (JString (OrderStatus_as_str Shipped))"
    using seller_plan_status [OF plan] by blast
  obtain b where b: "body = JObject b" "obj_ok b" "map_of b ''orderStatus'' = Some (JString (OrderStatus_as_str Shipped))"
    using jsonb_string [OF assms(1)] r(1) kvs by metis
  show ?thesis
    using status_after_merge [of "''orderStatus''" b "''shipped''" "he_pg he" "d_data r"] b assms(5) r rest
    by (auto simp: jget_str_def jget_def)
qed

subsection \<open>Overlapping confirmations\<close>

lemma confirm_plan_cases:
  assumes "confirm_item_receipt_plan user pid now order = Inr (ConfirmWrite upd alld expected)"
  obtains idx items' where "find_item_index (items_array order) pid = Some idx"
    "str_field (items_array order ! idx) ''status'' = ''shipped''"
    "set_item (items_array order) idx [(''status'', JString ''delivered''), (''deliveredAt'', JString now),
       (''confirmedByBuyer'', JBool True)] = Inr items'"
    "alld = all_items_delivered items'" "expected = str_field order ''orderStatus''"
    "upd = json_obj ([(''items'', JArray items'), (''updatedAt'', JString now)] @
       (if alld \<and> str_field order ''paymentStatus'' = ''captured''
        then [(''orderStatus'', JString ''delivered''), (''confirmedAt'', JString now), (''confirmedByClient'', JBool True)]
        else []))"
proof (cases "find_item_index (items_array order) pid")
  case None
  then show ?thesis using assms by (simp add: confirm_item_receipt_plan_def split: if_splits)
next
  case (Some idx)
  show ?thesis
    using assms that [OF Some]
    by (auto simp: confirm_item_receipt_plan_def Some rbind_eq_Inr Let_def jget_jset_obj DeliveryStatus_from_str_eq
        should_promote_order_to_delivered_def split: if_splits)
qed

lemma set_item_nth:
  assumes "set_item items i kvs = Inr items'"
  shows "length items' = length items \<and> (\<forall>j. j \<noteq> i \<longrightarrow> items' ! j = items ! j)"
  using assms by (auto simp: set_item_def rbind_eq_Inr)

text \<open>
  Two confirmations of different items of an order that overlap both report success and one of
  them is lost: both plans come from the same read, the guard only compares the order status, and
  the second write replaces the whole array of items, so the item confirmed first is stored as it
  was before.
\<close>

theorem overlapping_confirmation_is_lost:
  assumes "confirm_item_receipt_plan user (ci_product_id req1) now1 order = Inr (ConfirmWrite upd1 alld1 e1)"
    and "confirm_item_receipt_plan user (ci_product_id req2) now2 order = Inr (ConfirmWrite upd2 alld2 e2)"
    and "find_item_index (items_array order) (ci_product_id req1) = Some idx"
    and "ci_product_id req1 \<noteq> ci_product_id req2" and "ci_order_id req2 = ci_order_id req1"
    and "confirm_item_receipt_write he io1 user req1 upd1 alld1 e1 s = (Inr resp1, s1)"
    and "confirm_item_receipt_write he io2 user req2 upd2 alld2 e2 s1 = (Inr resp2, s2)"
    and "distinct (map d_id (tbl s1 ''orders''))" and "pg_to_jsonb (he_pg he) upd2 = Inr upd2"
  shows "\<exists>r. doc_of (bare_id ''orders'' (ci_order_id req1)) (tbl s2 ''orders'') = Some r \<and>
    items_array (d_data r) ! idx = items_array order ! idx \<and>
    str_field (items_array (d_data r) ! idx) ''status'' = ''shipped''"
proof -
  obtain idx2 items' where p2: "find_item_index (items_array order) (ci_product_id req2) = Some idx2"
    "set_item (items_array order) idx2 [(''status'', JString ''delivered''), (''deliveredAt'', JString now2),
       (''confirmedByBuyer'', JBool True)] = Inr items'"
    "upd2 = json_obj ([(''items'', JArray items'), (''updatedAt'', JString now2)] @
       (if alld2 \<and> str_field order ''paymentStatus'' = ''captured''
        then [(''orderStatus'', JString ''delivered''), (''confirmedAt'', JString now2), (''confirmedByClient'', JBool True)]
        else []))"
    using assms(2) by (rule confirm_plan_cases) 
  then have items: "jget ''items'' upd2 = Some (JArray items')" by simp
  have shipped: "str_field (items_array order ! idx) ''status'' = ''shipped''"
    using assms(1,3) by (auto elim!: confirm_plan_cases)
  have "idx2 \<noteq> idx"
    using assms(3,4) p2(1) by (auto simp: find_item_index_def dest!: position_Some)
  then have same: "items' ! idx = items_array order ! idx" using set_item_nth [OF p2(2)] by auto
  obtain v u where cas: "cas_order he io2 (ci_order_id req2) upd2 e2 s1 = (Inr (Some v), u)"
    and rest: "tbl s2 ''orders'' = tbl u ''orders''"
    using confirm_write_cases [OF assms(7)] by blast
  obtain r where r: "member_text (he_pg he) ''orderStatus'' (d_data r) = Some e2"
    "doc_of (bare_id ''orders'' (ci_order_id req2)) (tbl u ''orders'') = Some (merged (io_db_now io2 1) upd2 r)"
    using cas_order_row [OF cas assms(8)] assms(9) by (metis sum.inject(2))
  obtain m where m: "d_data r = JObject m"
    using r(1) by (cases "d_data r") (auto simp: member_text_def jget_def)
  obtain b where b: "upd2 = JObject b" "obj_ok b" using p2(3) by (metis json_obj_def obj_ok_Nil obj_ok_fold)
  then have "map_of b ''items'' = Some (JArray items')" using items by (simp add: jget_def)
  then have "items_array (d_data (merged (io_db_now io2 1) upd2 r)) = items'"
    using m b by (simp add: items_array_def jget_array_def jget_def map_of_obj_merge)
  then show ?thesis using r(2) rest same shipped assms(5) by auto
qed

subsection \<open>A confirmation on a healthy store\<close>

definition no_faults :: "pg_state \<Rightarrow> bool" where
  "no_faults s \<longleftrightarrow> pg_faults s = []"

lemma no_faults_exec [intro]: "preserves no_faults (pg_exec p t stmt)"
  by (auto simp: preserves_def no_faults_def pg_exec_def split: sum.splits prod.splits)

lemma no_faults_ensure [intro]: "preserves no_faults (ensure_table coll)"
  unfolding ensure_table_def
  by (intro preserves_abind preserves_alift no_faults_exec preserves_areturn)
    (simp add: preserves_def no_faults_def)

lemma no_faults_create [intro]: "preserves no_faults (create_document env u n coll d)"
  unfolding create_document_def Let_def
  by (intro preserves_abind preserves_alift no_faults_exec no_faults_ensure preserves_areturn)

lemma no_faults_rate_limit: "preserves no_faults (check_user_rate_limit he io u a n w)"
proof (cases "io_test_mode io")
  case False
  have "preserves no_faults (count_requests he u a k)" for k
    unfolding count_requests_def by (intro preserves_abind preserves_atry no_faults_ensure no_faults_exec)
  moreover have "preserves no_faults (if b then athrow e else abind (atry (create_document e1 u1 n1 c1 d1)) (\<lambda>_. areturn ()))"
    for b e e1 u1 n1 c1 d1 by (auto intro!: preserves_abind preserves_atry)
  ultimately show ?thesis using False unfolding check_user_rate_limit_def by (simp add: preserves_abind)
qed (auto simp: check_user_rate_limit_def)

lemma log_order_event_total: "\<exists>s'. log_order_event he io i u e m x s = (Inr (), s')"
proof -
  have "\<exists>s'. abind (hdb (atry c)) (\<lambda>_. areturn ()) s = (Inr (), s')" for c :: "json pg_action"
    by (cases "c (hs_db s)") (simp add: abind_def hdb_def atry_def)
  then show ?thesis unfolding log_order_event_def by blast
qed

lemma read_order_calm:
  assumes "no_faults (hs_db s)" "doc_of (bare_id ''orders'' i) (tbl s ''orders'') = Some r"
  shows "read_order he i s = (Inr (inject_document_metadata (he_pg he) r), s)"
  using assms
  by (simp add: read_order_def hdb_def amap_err_def get_document_calm pg_calm_def no_faults_def)

lemma cas_order_calm:
  assumes "no_faults (hs_db s)" "doc_of (bare_id ''orders'' i) (tbl s ''orders'') = Some r"
    and "member_text (he_pg he) ''orderStatus'' (d_data r) = Some e" "pg_to_jsonb (he_pg he) upd = Inr body"
    and "distinct (map d_id (tbl s ''orders''))"
  obtains v s' where "cas_order he io i upd e s = (Inr (Some v), s')"
proof -
  let ?c = "update_document_cas (he_pg he) (io_db_now io 1) ''orders'' i upd ''orderStatus'' (JString e) (hs_db s)"
  have calm: "pg_calm ''orders'' (hs_db s)" using assms(1) by (simp add: pg_calm_def no_faults_def)
  have "cas_matches (he_pg he) (bare_id ''orders'' i) ''orderStatus'' (JString e) r \<and> r \<in> set (tbl s ''orders'')"
    using assms(2,3) doc_of_id [OF assms(2)] by (simp add: cas_matches_def sql_eq_def jsonb_text_def)
  then have "fst ?c \<noteq> Inr None" "is_ok (fst ?c)"
    using update_document_cas_calm(1,2) [OF calm assms(4)] by blast+
  then obtain v where "fst ?c = Inr (Some v)" by (cases "fst ?c") auto
  then show ?thesis
    using that by (cases ?c) (auto simp: cas_order_def hdb_def amap_err_def)
qed

text \<open>
  On a store without faults, the buyer's confirmation of a shipped item that another user sells
  succeeds and stores exactly that: the item is delivered, every other item is as before, and the
  order becomes delivered when this was the last item and the payment is captured, and keeps its
  status otherwise.
\<close>

theorem confirm_item_receipt_effect:
  assumes "no_faults (hs_db s)" and "distinct (map d_id (tbl s ''orders''))"
    and "validate_uid ''orderId'' (ci_order_id req) = Inr ()" and "validate_uid ''productId'' (ci_product_id req) = Inr ()"
    and "validate_uid ''userId'' (au_user_id auth) = Inr ()"
    and "check_user_rate_limit he io (au_user_id auth) ''confirm_item_receipt'' 10 1 (hs_db s) = (Inr (), d)"
    and "doc_of i (tbl s ''orders'') = Some r" and "i = bare_id ''orders'' (ci_order_id req)" and "d_data r = JObject m"
    and "jget_str ''userId'' (d_data r) = Some (au_user_id auth)" and "jget_str ''orderStatus'' (d_data r) = Some st"
    and "find_item_index (items_array (d_data r)) (ci_product_id req) = Some idx"
    and "items_array (d_data r) ! idx = JObject it" and "str_field (JObject it) ''sellerId'' \<noteq> au_user_id auth"
    and "str_field (JObject it) ''status'' = ''shipped''"
    and "items' = (items_array (d_data r))[idx := JObject (obj_insert ''confirmedByBuyer'' (JBool True)
           (obj_insert ''deliveredAt'' (JString (io_now io 0)) (obj_insert ''status'' (JString ''delivered'') it)))]"
    and "\<forall>kvs. jget ''items'' (json_obj kvs) = Some (JArray items') \<longrightarrow> pg_to_jsonb (he_pg he) (json_obj kvs) = Inr (json_obj kvs)"
  shows "\<exists>s' r'. confirm_item_receipt he io auth req s =
      (Inr \<lparr>ci_success = True, ci_all_delivered = all_items_delivered items', ci_message = None\<rparr>, s') \<and>
    doc_of i (tbl s' ''orders'') = Some r' \<and> items_array (d_data r') = items' \<and>
    jget_str ''orderStatus'' (d_data r') = Some
      (if all_items_delivered items' \<and> str_field (d_data r) ''paymentStatus'' = ''captured'' then ''delivered'' else st)"
proof -
  let ?order = "inject_document_metadata (he_pg he) r"
  let ?u = "s\<lparr>hs_db := d\<rparr>"
  define upd where "upd = json_obj ([(''items'', JArray items'), (''updatedAt'', JString (io_now io 0))] @
    (if all_items_delivered items' \<and> str_field (d_data r) ''paymentStatus'' = ''captured''
     then [(''orderStatus'', JString ''delivered''), (''confirmedAt'', JString (io_now io 0)), (''confirmedByClient'', JBool True)]
     else []))"
  have enc: "pg_to_jsonb (he_pg he) upd = Inr upd" using assms(17) unfolding upd_def by (auto simp del: append.simps)
  have plan: "confirm_item_receipt_plan (au_user_id auth) (ci_product_id req) (io_now io 0) ?order =
      Inr (ConfirmWrite upd (all_items_delivered items') st)"
    using assms(10-16) unfolding confirm_item_receipt_plan_def upd_def
    by (simp add: str_field_inject items_inject set_item_def set_member_def DeliveryStatus_from_str_def Let_def
        jget_jset_obj should_promote_order_to_delivered_def) (simp add: str_field_def)
  have nf: "no_faults d" using no_faults_rate_limit assms(1,6) by (metis preserves_def snd_conv)
  have orders: "tables d ''orders'' = tbl s ''orders''"
    by (rule rate_limit_tables [OF assms(6)]) (simp add: RATE_LIMITS_def)
  have r: "doc_of (bare_id ''orders'' (ci_order_id req)) (tbl ?u ''orders'') = Some r" using assms(7,8) orders by simp
  have stored: "member_text (he_pg he) ''orderStatus'' (d_data r) = Some st"
    using assms(11) by (auto simp: member_text_def jget_str_def jsonb_text_def bind_eq_Some_conv as_str_eq)
  obtain v w where cas: "cas_order he io (ci_order_id req) upd st ?u = (Inr (Some v), w)"
    by (rule cas_order_calm [OF _ r stored enc]) (use nf assms(2) orders in simp_all)
  obtain s' where s': "log_order_event he io (ci_order_id req) (au_user_id auth) ''item_receipt_confirmed''
       (''Item '' @ ci_product_id req @ '' receipt confirmed by buyer'')
       (json_obj [(''productId'', JString (ci_product_id req)), (''allDelivered'', JBool (all_items_delivered items'))]) w = (Inr (), s')"
    using log_order_event_total by blast
  have run: "confirm_item_receipt he io auth req s =
      (Inr \<lparr>ci_success = True, ci_all_delivered = all_items_delivered items', ci_message = None\<rparr>, s')"
    using assms(3-6) read_order_calm [OF _ r] nf plan cas s'
    by (simp add: confirm_item_receipt_def confirm_item_receipt_write_def Let_def abind_def hres_def hdb_def)
  have "distinct (map d_id (tbl ?u ''orders''))" using assms(2) orders by simp
  then have "doc_of i (tbl w ''orders'') = Some (merged (io_db_now io 1) upd r)"
    using cas_order_row [OF cas] r enc assms(8) by (metis option.inject sum.inject(2))
  moreover have "tbl s' ''orders'' = tbl w ''orders''" using keepsD [OF keeps_log s'] by simp
  moreover have "items_array (d_data (merged (io_db_now io 1) upd r)) = items' \<and>
      jget_str ''orderStatus'' (d_data (merged (io_db_now io 1) upd r)) = Some
        (if all_items_delivered items' \<and> str_field (d_data r) ''paymentStatus'' = ''captured'' then ''delivered'' else st)"
    using assms(9,11) by (simp add: upd_def items_array_def jget_array_def jget_str_def jget_concat_obj jget_def [of _ "JObject m"])
  ultimately show ?thesis using run by auto
qed

subsection \<open>Entitlement and examples\<close>

text \<open>
  C14. Only entitled callers change orders, whatever the database does. If a receipt confirmation changes
  the orders table, the caller is the buyer of the order and the item is a shipped one that somebody else
  sells; if a status update does, the caller is an administrator or the only seller of the order; if
  an item update does, the caller is an administrator or a seller of that item, who need not sell the
  others. No handler changes another order than the one that is checked, up to one case of the code:
  a status update strips the prefix \<open>orders:\<close> once for the check and twice for the write, so for an id
  that carries it twice it may change the order named without it.
\<close>

theorem orders_change_only_for_entitled:
  "(tbl (snd (confirm_item_receipt he io auth creq s)) ''orders'' \<noteq> tbl s ''orders'' \<longrightarrow>
      (\<exists>r. doc_of (bare_id ''orders'' (ci_order_id creq)) (tbl s ''orders'') = Some r \<and>
         buyer_of_item (d_data r) (au_user_id auth) (ci_product_id creq))) \<and>
   (tbl (snd (update_order_status he io auth oreq s)) ''orders'' \<noteq> tbl s ''orders'' \<longrightarrow>
      (\<exists>r. doc_of (bare_id ''orders'' (uo_order_id oreq)) (tbl s ''orders'') = Some r \<and>
         (has_admin_role s (au_user_id auth) \<or> only_seller (d_data r) (au_user_id auth)))) \<and>
   (tbl (snd (update_item_status he io auth ireq s)) ''orders'' \<noteq> tbl s ''orders'' \<longrightarrow>
      (\<exists>r. doc_of (bare_id ''orders'' (ui_order_id ireq)) (tbl s ''orders'') = Some r \<and>
         (has_admin_role s (au_user_id auth) \<or> seller_of_item (d_data r) (au_user_id auth) (ui_product_id ireq)))) \<and>
   (\<forall>k. k \<noteq> bare_id ''orders'' (ci_order_id creq) \<longrightarrow>
      doc_of k (tbl (snd (confirm_item_receipt he io auth creq s)) ''orders'') = doc_of k (tbl s ''orders'')) \<and>
   (\<forall>k. k \<noteq> bare_id ''orders'' (ui_order_id ireq) \<longrightarrow>
      doc_of k (tbl (snd (update_item_status he io auth ireq s)) ''orders'') = doc_of k (tbl s ''orders'')) \<and>
   (\<forall>k. k \<notin> {bare_id ''orders'' (uo_order_id oreq), bare_id ''orders'' (bare_id ''orders'' (uo_order_id oreq))} \<longrightarrow>
      doc_of k (tbl (snd (update_order_status he io auth oreq s)) ''orders'') = doc_of k (tbl s ''orders''))"
  using confirm_changed [of he io auth creq s] update_order_changed [of he io auth oreq s]
    update_item_changed [of he io auth ireq s]
  by (intro conjI) (auto simp: preserves_def other_rows_def dest!: handlers_other_rows)

definition sample_he :: h_env where
  "sample_he = \<lparr>he_pg = sample_pg, he_bigint = (\<lambda>t. ok_or ''invalid input'' (parse_i64 t)), he_regex_escape = (\<lambda>s. s),
     he_replace_all = (\<lambda>_ s. Some s)\<rparr>"

definition sample_io :: h_io where
  "sample_io = \<lparr>io_now = (\<lambda>_. ''t''), io_secs = 1000, io_db_now = (\<lambda>_. 5), io_uuid = nat_to_string, io_test_mode = False\<rparr>"

definition sample_item :: "string \<Rightarrow> string \<Rightarrow> json" where
  "sample_item p st = JObject [(''productId'', JString p), (''sellerId'', JString ''v1''), (''status'', JString st)]"

definition sample_order :: "string \<Rightarrow> string \<Rightarrow> json" where
  "sample_order st ist = JObject [(''items'', JArray [sample_item ''p1'' ist, sample_item ''p2'' ist]), (''orderStatus'', JString st),
     (''paymentStatus'', JString ''captured''), (''userId'', JString ''u1'')]"

definition sample_h :: "string \<Rightarrow> string \<Rightarrow> h_state" where
  "sample_h st ist = \<lparr>hs_db = \<lparr>tables = (\<lambda>_. [])(''orders'' := [\<lparr>d_id = ''o1'', d_data = sample_order st ist,
     d_created_at = 1, d_updated_at = 1\<rparr>]), pg_faults = []\<rparr>, hs_outbox = []\<rparr>"

definition sample_auth :: "string \<Rightarrow> AuthContext" where
  "sample_auth u = anonymous_auth\<lparr>au_user_id := u, au_authenticated := True\<rparr>"

lemmas sample_simps = sample_he_def sample_pg_def

definition sample_confirm :: "string \<Rightarrow> ConfirmItemReceiptRequest" where
  "sample_confirm p = \<lparr>ci_order_id = ''o1'', ci_product_id = p\<rparr>"

theorem orders_change_only_for_entitled_witness:
  "\<exists>r. doc_of ''o1'' (tbl (sample_h ''shipped'' ''shipped'') ''orders'') = Some r \<and> buyer_of_item (d_data r) ''u1'' ''p1''"
proof -
  have "tbl (snd (confirm_item_receipt sample_he sample_io (sample_auth ''u1'') (sample_confirm ''p1'') (sample_h ''shipped'' ''shipped''))) ''orders''
      \<noteq> tbl (sample_h ''shipped'' ''shipped'') ''orders''" by code_simp
  moreover have "bare_id ''orders'' (ci_order_id (sample_confirm ''p1'')) = ''o1''" "au_user_id (sample_auth ''u1'') = ''u1''"
    "ci_product_id (sample_confirm ''p1'') = ''p1''" by code_simp+
  ultimately show ?thesis
    using orders_change_only_for_entitled [of sample_he sample_io "sample_auth ''u1''" "sample_confirm ''p1''" "sample_h ''shipped'' ''shipped''"]
    by auto
qed

lemma sample_keeps_strings [simp]: "jsonb_keeps_strings (he_pg sample_he)"
  by (simp add: jsonb_keeps_strings_def sample_simps)

definition sample_update :: "string \<Rightarrow> UpdateOrderStatusRequest" where
  "sample_update st = \<lparr>uo_order_id = ''o1'', uo_new_status = st, uo_tracking_number = None, uo_carrier = None\<rparr>"

definition sample_cancel :: json where
  "sample_cancel = json_obj [(''orderStatus'', JString ''cancelled''), (''updatedAt'', JString ''t'')]"

theorem direct_update_follows_graph_witness:
  "\<exists>r'. doc_of ''o1'' (tbl (snd (direct_write sample_he sample_io ''v1'' (sample_update ''cancelled'') (sample_order ''processing'' ''pending'')
      Processing Cancelled None None sample_cancel (sample_h ''processing'' ''pending''))) ''orders'') = Some r' \<and>
    member_text sample_pg ''orderStatus'' (d_data r') = Some ''cancelled''"
proof -
  let ?w = "direct_write sample_he sample_io ''v1'' (sample_update ''cancelled'') (sample_order ''processing'' ''pending'')
      Processing Cancelled None None sample_cancel (sample_h ''processing'' ''pending'')"
  have plan: "order_status_plan ''v1'' False (sample_order ''processing'' ''pending'') Processing Cancelled None None ''t''
      = Inr (DirectWrite sample_cancel)" by code_simp
  have "fst ?w = Inr \<lparr>uo_success = True, uo_status = ''cancelled'', uo_all_items_shipped = None\<rparr>" by code_simp
  then have w: "?w = (Inr \<lparr>uo_success = True, uo_status = ''cancelled'', uo_all_items_shipped = None\<rparr>, snd ?w)"
    by (metis prod.collapse)
  have dist: "distinct (map d_id (tbl (sample_h ''processing'' ''pending'') ''orders''))" by (simp add: sample_h_def)
  have i: "''o1'' = bare_id ''orders'' (bare_id ''orders'' (uo_order_id (sample_update ''cancelled'')))" by code_simp
  have user: "''v1'' \<noteq> []" by simp
  show ?thesis
    using direct_update_follows_graph [OF sample_keeps_strings plan user dist w i] by (auto simp: sample_simps)
qed

definition sample_ship :: "json \<times> json list" where
  "sample_ship = (case order_status_plan ''v1'' False (sample_order ''processing'' ''pending'') Processing Shipped None None ''t'' of
     Inr (SellerShip upd items _) \<Rightarrow> (upd, items) | _ \<Rightarrow> (JNull, []))"

theorem seller_ship_ignores_concurrent_changes_witness:
  "\<exists>r'. doc_of ''o1'' (tbl (snd (seller_ship_write sample_he sample_io (sample_update ''shipped'') (sample_order ''processing'' ''pending'')
      Processing None None (fst sample_ship) (snd sample_ship) True (sample_h ''cancelled'' ''pending''))) ''orders'') = Some r' \<and>
    member_text sample_pg ''orderStatus'' (d_data r') = Some ''shipped''"
proof -
  let ?w = "seller_ship_write sample_he sample_io (sample_update ''shipped'') (sample_order ''processing'' ''pending'')
      Processing None None (fst sample_ship) (snd sample_ship) True (sample_h ''cancelled'' ''pending'')"
  have plan: "order_status_plan ''v1'' False (sample_order ''processing'' ''pending'') Processing Shipped None None ''t''
      = Inr (SellerShip (fst sample_ship) (snd sample_ship) True)" by code_simp
  have "fst ?w = Inr \<lparr>uo_success = True, uo_status = ''shipped'', uo_all_items_shipped = Some True\<rparr>" by code_simp
  then have w: "?w = (Inr \<lparr>uo_success = True, uo_status = ''shipped'', uo_all_items_shipped = Some True\<rparr>, snd ?w)"
    by (metis prod.collapse)
  have i: "bare_id ''orders'' (uo_order_id (sample_update ''shipped'')) = ''o1''" by code_simp
  have r: "doc_of (bare_id ''orders'' (uo_order_id (sample_update ''shipped''))) (tbl (sample_h ''cancelled'' ''pending'') ''orders'') =
      Some \<lparr>d_id = ''o1'', d_data = sample_order ''cancelled'' ''pending'', d_created_at = 1, d_updated_at = 1\<rparr>"
    unfolding i by (simp add: sample_h_def doc_of_def)
  have m: "\<exists>m. d_data \<lparr>d_id = ''o1'', d_data = sample_order ''cancelled'' ''pending'', d_created_at = 1, d_updated_at = 1\<rparr> = JObject m"
    by (simp add: sample_order_def)
  show ?thesis
    using seller_ship_ignores_concurrent_changes [OF sample_keeps_strings plan w r] m unfolding i by (auto simp: sample_simps)
qed

definition sample_confirm_upd :: "string \<Rightarrow> json" where
  "sample_confirm_upd p = (case confirm_item_receipt_plan ''u1'' p ''t'' (sample_order ''shipped'' ''shipped'') of
     Inr (ConfirmWrite upd _ _) \<Rightarrow> upd | _ \<Rightarrow> JNull)"

definition sample_after :: "string \<Rightarrow> h_state \<Rightarrow> h_state" where
  "sample_after p s = snd (confirm_item_receipt_write sample_he sample_io ''u1'' (sample_confirm p) (sample_confirm_upd p) False ''shipped'' s)"

theorem overlapping_confirmation_is_lost_witness:
  "\<exists>r. doc_of ''o1'' (tbl (sample_after ''p2'' (sample_after ''p1'' (sample_h ''shipped'' ''shipped''))) ''orders'') = Some r \<and>
    str_field (items_array (d_data r) ! 0) ''status'' = ''shipped''"
proof -
  let ?s = "sample_h ''shipped'' ''shipped''"
  let ?w = "\<lambda>p s. confirm_item_receipt_write sample_he sample_io ''u1'' (sample_confirm p) (sample_confirm_upd p) False ''shipped'' s"
  let ?ok = "\<lparr>ci_success = True, ci_all_delivered = False, ci_message = None\<rparr>"
  have plan1: "confirm_item_receipt_plan ''u1'' (ci_product_id (sample_confirm ''p1'')) ''t'' (sample_order ''shipped'' ''shipped'') =
      Inr (ConfirmWrite (sample_confirm_upd ''p1'') False ''shipped'')" by code_simp
  have plan2: "confirm_item_receipt_plan ''u1'' (ci_product_id (sample_confirm ''p2'')) ''t'' (sample_order ''shipped'' ''shipped'') =
      Inr (ConfirmWrite (sample_confirm_upd ''p2'') False ''shipped'')" by code_simp
  have w1: "?w ''p1'' ?s = (Inr ?ok, sample_after ''p1'' ?s)"
  proof -
    have "fst (?w ''p1'' ?s) = Inr ?ok" by code_simp
    then show ?thesis unfolding sample_after_def by (metis prod.collapse)
  qed
  have w2: "?w ''p2'' (sample_after ''p1'' ?s) = (Inr ?ok, sample_after ''p2'' (sample_after ''p1'' ?s))"
  proof -
    have "fst (?w ''p2'' (sample_after ''p1'' ?s)) = Inr ?ok" by code_simp
    then show ?thesis unfolding sample_after_def [of "''p2''"] by (metis prod.collapse)
  qed
  have idx: "find_item_index (items_array (sample_order ''shipped'' ''shipped'')) (ci_product_id (sample_confirm ''p1'')) = Some 0"
    by code_simp
  have dist: "distinct (map d_id (tbl (sample_after ''p1'' ?s) ''orders''))" by code_simp
  have i: "bare_id ''orders'' (ci_order_id (sample_confirm ''p1'')) = ''o1''" by code_simp
  show ?thesis
    using overlapping_confirmation_is_lost [OF plan1 plan2 idx _ _ w1 w2 dist]
    unfolding i by (auto simp: sample_simps sample_confirm_def)
qed

definition sample_members :: "string \<Rightarrow> string \<Rightarrow> json_map" where
  "sample_members st ist = [(''items'', JArray [sample_item ''p1'' ist, sample_item ''p2'' ist]), (''orderStatus'', JString st),
     (''paymentStatus'', JString ''captured''), (''userId'', JString ''u1'')]"

theorem confirm_item_receipt_effect_witness:
  "\<exists>s' r'. confirm_item_receipt sample_he sample_io (sample_auth ''u1'') (sample_confirm ''p1'') (sample_h ''shipped'' ''shipped'') =
      (Inr \<lparr>ci_success = True, ci_all_delivered = False, ci_message = None\<rparr>, s') \<and>
    doc_of ''o1'' (tbl s' ''orders'') = Some r' \<and> jget_str ''orderStatus'' (d_data r') = Some ''shipped''"
proof -
  let ?s = "sample_h ''shipped'' ''shipped''"
  let ?r = "\<lparr>d_id = ''o1'', d_data = sample_order ''shipped'' ''shipped'', d_created_at = 1, d_updated_at = 1\<rparr>"
  let ?it = "[(''productId'', JString ''p1''), (''sellerId'', JString ''v1''), (''status'', JString ''shipped'')]"
  let ?items = "(items_array (d_data ?r))[0 := JObject (obj_insert ''confirmedByBuyer'' (JBool True)
           (obj_insert ''deliveredAt'' (JString (io_now sample_io 0)) (obj_insert ''status'' (JString ''delivered'') ?it)))]"
  let ?c = "check_user_rate_limit sample_he sample_io (au_user_id (sample_auth ''u1'')) ''confirm_item_receipt'' 10 1 (hs_db ?s)"
  have c: "?c = (Inr (), snd ?c)"
  proof -
    have "fst ?c = Inr ()" by code_simp
    then show ?thesis by (metis prod.collapse)
  qed
  have nf: "no_faults (hs_db ?s)" "distinct (map d_id (tbl ?s ''orders''))" by (simp_all add: sample_h_def no_faults_def)
  have v: "validate_uid ''orderId'' (ci_order_id (sample_confirm ''p1'')) = Inr ()"
    "validate_uid ''productId'' (ci_product_id (sample_confirm ''p1'')) = Inr ()"
    "validate_uid ''userId'' (au_user_id (sample_auth ''u1'')) = Inr ()" by code_simp+
  have i: "''o1'' = bare_id ''orders'' (ci_order_id (sample_confirm ''p1''))" by code_simp
  have r: "doc_of ''o1'' (tbl ?s ''orders'') = Some ?r" by (simp add: sample_h_def doc_of_def)
  have m: "d_data ?r = JObject (sample_members ''shipped'' ''shipped'')" by (simp add: sample_order_def sample_members_def)
  have f: "jget_str ''userId'' (d_data ?r) = Some (au_user_id (sample_auth ''u1''))" "jget_str ''orderStatus'' (d_data ?r) = Some ''shipped''"
    "find_item_index (items_array (d_data ?r)) (ci_product_id (sample_confirm ''p1'')) = Some 0"
    "items_array (d_data ?r) ! 0 = JObject ?it" "str_field (JObject ?it) ''sellerId'' \<noteq> au_user_id (sample_auth ''u1'')"
    "str_field (JObject ?it) ''status'' = ''shipped''" by code_simp+
  have e: "\<forall>kvs. jget ''items'' (json_obj kvs) = Some (JArray ?items) \<longrightarrow> pg_to_jsonb (he_pg sample_he) (json_obj kvs) = Inr (json_obj kvs)"
    by (simp add: sample_simps)
  have all: "all_items_delivered ?items = False" by code_simp
  show ?thesis
    using confirm_item_receipt_effect [OF nf v c r i m f refl e] unfolding all by auto
qed

end
