(* ===== verification/Rate_Limiter.thy ===== *)
theory Rate_Limiter
  imports Order_Safety
begin

text \<open>
  The contract of the rate limiter of \<open>crates/ob-handlers/src/shared/rate_limiter.rs\<close>, stated as a
  sliding window over recorded requests, and its proof for the implementation that counts documents
  of the store.
\<close>

subsection \<open>Sliding windows\<close>

text \<open>Calls made one after the other, and whether each was admitted.\<close>

fun run_calls :: "('c \<Rightarrow> 's \<Rightarrow> bool \<times> 's) \<Rightarrow> 'c list \<Rightarrow> 's \<Rightarrow> bool list" where
  "run_calls admit [] s = []"
| "run_calls admit (c # cs) s = fst (admit c s) # run_calls admit cs (snd (admit c s))"

fun all_fresh :: "('c \<Rightarrow> 's \<Rightarrow> bool) \<Rightarrow> ('c \<Rightarrow> 's \<Rightarrow> bool \<times> 's) \<Rightarrow> 'c list \<Rightarrow> 's \<Rightarrow> bool" where
  "all_fresh fresh admit [] s = True"
| "all_fresh fresh admit (c # cs) s = (fresh c s \<and> all_fresh fresh admit cs (snd (admit c s)))"

text \<open>The calls among the first \<open>k\<close> that were admitted at time \<open>a\<close> or later.\<close>

definition admitted_since :: "('c \<Rightarrow> int) \<Rightarrow> 'c list \<Rightarrow> bool list \<Rightarrow> nat \<Rightarrow> int \<Rightarrow> nat" where
  "admitted_since time cs bs k a = length (filter (\<lambda>(c, b). b \<and> a \<le> time c) (take k (zip cs bs)))"

lemma length_run_calls [simp]: "length (run_calls admit cs s) = length cs"
  by (induction cs arbitrary: s) auto

locale sliding_window =
  fixes ok :: "'s \<Rightarrow> bool"
    and fresh :: "'c \<Rightarrow> 's \<Rightarrow> bool"
    and time :: "'c \<Rightarrow> int"
    and admit :: "'c \<Rightarrow> 's \<Rightarrow> bool \<times> 's"
    and recent :: "int \<Rightarrow> 's \<Rightarrow> nat"
    and width :: int
    and limit :: nat
  assumes admit_ok: "ok s \<Longrightarrow> fresh c s \<Longrightarrow> ok (snd (admit c s))"
    and admit_iff: "ok s \<Longrightarrow> fresh c s \<Longrightarrow> fst (admit c s) \<longleftrightarrow> recent (time c - width) s < limit"
    and admit_counted: "ok s \<Longrightarrow> fresh c s \<Longrightarrow>
      recent a (snd (admit c s)) = recent a s + (if fst (admit c s) \<and> a \<le> time c then 1 else 0)"
begin

text \<open>A call is admitted exactly when fewer than \<open>limit\<close> requests of its window were recorded before.\<close>

lemma admitted_iff:
  assumes "ok s" "all_fresh fresh admit cs s" "k < length cs"
  shows "run_calls admit cs s ! k \<longleftrightarrow>
    recent (time (cs ! k) - width) s +
      admitted_since time cs (run_calls admit cs s) k (time (cs ! k) - width) < limit"
  using assms
proof (induction cs arbitrary: s k)
  case (Cons c cs)
  have s': "ok (snd (admit c s))" using Cons.prems admit_ok by simp
  show ?case
  proof (cases k)
    case 0
    then show ?thesis using Cons.prems admit_iff [of s c] by (simp add: admitted_since_def)
  next
    case (Suc j)
    then show ?thesis
      using Cons.IH [OF s', of j] Cons.prems admit_counted [of s c "time (cs ! j) - width"]
      by (simp add: admitted_since_def)
  qed
qed simp

end

subsection \<open>The document store as a request log\<close>

definition admit_request :: "h_env \<Rightarrow> string \<Rightarrow> string \<Rightarrow> nat \<Rightarrow> int \<Rightarrow> h_io \<Rightarrow> pg_state \<Rightarrow> bool \<times> pg_state" where
  "admit_request he user action max_requests window_minutes io s =
     (let (r, s') = check_user_rate_limit he io user action max_requests window_minutes s in (is_ok r, s'))"

text \<open>
  What the limiter relies on: the store keeps its documents unchanged, prints their integers in
  decimal and casts them back.
\<close>

definition rate_libs :: "h_env \<Rightarrow> string \<Rightarrow> string \<Rightarrow> bool" where
  "rate_libs he user action \<longleftrightarrow>
     (\<forall>t. pg_to_jsonb (he_pg he) (rate_doc user action t) = Inr (rate_doc user action t)) \<and>
     (\<forall>i. pg_value_text (he_pg he) (json_int i) = int_to_string i) \<and> bigint_cast (he_bigint he)"

definition own_row :: "h_env \<Rightarrow> string \<Rightarrow> string \<Rightarrow> doc_row \<Rightarrow> bool" where
  "own_row he user action r \<longleftrightarrow>
     sql_eq (member_text (he_pg he) ''userId'' (d_data r)) (Some user) \<and>
     sql_eq (member_text (he_pg he) ''action'' (d_data r)) (Some action)"

definition row_time :: "doc_row \<Rightarrow> int option" where
  "row_time r = jget_i64 ''createdAt'' (d_data r)"

text \<open>The rows of the table that the caller's requests left behind.\<close>

definition rate_rows :: "h_env \<Rightarrow> string \<Rightarrow> string \<Rightarrow> doc_row list \<Rightarrow> bool" where
  "rate_rows he user action rs \<longleftrightarrow>
     list_all (\<lambda>r. own_row he user action r \<longrightarrow>
       (\<exists>t. i64_range t \<and> jget ''createdAt'' (d_data r) = Some (json_int t))) rs"

definition recent_requests :: "h_env \<Rightarrow> string \<Rightarrow> string \<Rightarrow> int \<Rightarrow> pg_state \<Rightarrow> nat" where
  "recent_requests he user action a s =
     length (filter (\<lambda>r. own_row he user action r \<and> (case row_time r of Some t \<Rightarrow> a \<le> t | None \<Rightarrow> False))
       (tables s RATE_LIMITS))"

definition rate_ok :: "h_env \<Rightarrow> string \<Rightarrow> string \<Rightarrow> pg_state \<Rightarrow> bool" where
  "rate_ok he user action s \<longleftrightarrow> no_faults s \<and> rate_rows he user action (tables s RATE_LIMITS)"

definition rate_fresh :: "int \<Rightarrow> h_io \<Rightarrow> pg_state \<Rightarrow> bool" where
  "rate_fresh window_minutes io s \<longleftrightarrow> \<not> io_test_mode io \<and> doc_of (io_uuid io 0) (tables s RATE_LIMITS) = None \<and>
     i64_range (io_secs io) \<and> i64_range (io_secs io - window_minutes * 60)"

lemma text_json_int: "rate_libs he u a \<Longrightarrow> jsonb_text (he_pg he) (json_int t) = Some (int_to_string t)"
  by (auto simp: rate_libs_def jsonb_text_def json_int_def split: json.splits)

lemma rate_row_matches_eq:
  assumes "rate_libs he user action" "rate_rows he user action rs" "r \<in> set rs" "i64_range a"
  shows "rate_row_matches he user action a r =
    Inr (own_row he user action r \<and> (case row_time r of Some t \<Rightarrow> a \<le> t | None \<Rightarrow> False))"
proof (cases "own_row he user action r")
  case True
  then obtain t where t: "i64_range t" "jget ''createdAt'' (d_data r) = Some (json_int t)"
    using assms(2,3) by (auto simp: rate_rows_def list_all_iff)
  have "member_text (he_pg he) ''createdAt'' (d_data r) = Some (int_to_string t)"
    using t(2) text_json_int [OF assms(1)] by (simp add: member_text_def)
  moreover have "he_bigint he (int_to_string t) = Inr t" "he_bigint he (int_to_string a) = Inr a"
    using assms(1,4) t(1) by (auto simp: rate_libs_def bigint_cast_def)
  moreover have "row_time r = Some t" using t by (simp add: row_time_def jget_i64_def as_i64_json_int)
  ultimately show ?thesis using True by (simp add: rate_row_matches_def own_row_def)
qed (auto simp: rate_row_matches_def own_row_def)

lemma filter_id_map: "length (filter id (map f xs)) = length (filter f xs)"
  by (induction xs) auto

lemma rate_limits_safe [simp]: "safe_identifier RATE_LIMITS"
  by (simp add: RATE_LIMITS_def safe_identifier_def ident_char_def ascii_defs)

lemma count_requests_calm:
  assumes "rate_libs he user action" "rate_ok he user action s" "i64_range a"
  shows "count_requests he user action a s = (Inr (recent_requests he user action a s), s)"
proof -
  have calm: "pg_calm RATE_LIMITS s" using assms(2) by (simp add: rate_ok_def no_faults_def pg_calm_def)
  let ?P = "\<lambda>r. own_row he user action r \<and> (case row_time r of Some t \<Rightarrow> a \<le> t | None \<Rightarrow> False)"
  have "rmap (rate_row_matches he user action a) (tables s RATE_LIMITS) = Inr (map ?P (tables s RATE_LIMITS))"
    using rate_row_matches_eq [OF assms(1) _ _ assms(3)] assms(2) by (intro rmap_Inr) (auto simp: rate_ok_def)
  then show ?thesis
    using calm
    by (simp add: count_requests_def abind_def atry_def ensure_table_calm pg_exec_calm pg_calm_def filter_id_map
        recent_requests_def)
qed

lemma rate_doc_row:
  assumes "rate_libs he user action"
  shows "own_row he user action \<lparr>d_id = i, d_data = rate_doc user action t, d_created_at = n, d_updated_at = n\<rparr>"
    and "jget ''createdAt'' (rate_doc user action t) = Some (json_int t)" "jget_str ''id'' (rate_doc user action t) = None"
  by (simp_all add: own_row_def rate_doc_def member_text_def jsonb_text_def sql_eq_def jget_str_def)

lemma record_request_calm:
  assumes "rate_libs he user action" "no_faults s" "doc_of i (tables s RATE_LIMITS) = None"
  shows "create_document (he_pg he) i n RATE_LIMITS (rate_doc user action t) s =
    (Inr (inject_document_metadata (he_pg he) \<lparr>d_id = i, d_data = rate_doc user action t, d_created_at = n, d_updated_at = n\<rparr>),
     s\<lparr>tables := (tables s)(RATE_LIMITS := tables s RATE_LIMITS @
       [\<lparr>d_id = i, d_data = rate_doc user action t, d_created_at = n, d_updated_at = n\<rparr>])\<rparr>)"
proof -
  have calm: "pg_calm RATE_LIMITS s" using assms(2) by (simp add: no_faults_def pg_calm_def)
  show ?thesis
    using assms by (simp add: create_document_calm [OF calm] rate_doc_row(3) rate_libs_def Let_def)
qed

lemma admit_request_calm:
  assumes "rate_libs he user action" "rate_ok he user action s" "rate_fresh w io s"
  shows "admit_request he user action n w io s =
    (if recent_requests he user action (io_secs io - w * 60) s < n
     then (True, s\<lparr>tables := (tables s)(RATE_LIMITS := tables s RATE_LIMITS @
       [\<lparr>d_id = io_uuid io 0, d_data = rate_doc user action (io_secs io), d_created_at = io_db_now io 0, d_updated_at = io_db_now io 0\<rparr>])\<rparr>)
     else (False, s))"
proof -
  have fresh: "\<not> io_test_mode io" "doc_of (io_uuid io 0) (tables s RATE_LIMITS) = None" "i64_range (io_secs io - w * 60)"
    using assms(3) by (simp_all add: rate_fresh_def)
  have nf: "no_faults s" using assms(2) by (simp add: rate_ok_def)
  show ?thesis
    using fresh(1)
    by (simp add: admit_request_def check_user_rate_limit_def abind_def atry_def
        count_requests_calm [OF assms(1,2) fresh(3)] record_request_calm [OF assms(1) nf fresh(2)])
qed

text \<open>The database-backed limiter is a sliding window of its width and limit.\<close>

interpretation rate: sliding_window
    "\<lambda>s. rate_libs he user action \<and> rate_ok he user action s" "rate_fresh w" io_secs "admit_request he user action n w"
    "recent_requests he user action" "w * 60" n for he user action n w
proof
  fix s io a
  assume ok: "rate_libs he user action \<and> rate_ok he user action s" and fresh: "rate_fresh w io s"
  note eq = admit_request_calm [OF conjunct1 [OF ok] conjunct2 [OF ok] fresh]
  have range: "i64_range (io_secs io)" using fresh by (simp add: rate_fresh_def)
  show "rate_libs he user action \<and> rate_ok he user action (snd (admit_request he user action n w io s))"
    using ok range rate_doc_row(2) [of he user action "io_secs io"]
    by (auto simp: eq rate_ok_def no_faults_def rate_rows_def)
  show "fst (admit_request he user action n w io s) \<longleftrightarrow> recent_requests he user action (io_secs io - w * 60) s < n"
    by (simp add: eq)
  show "recent_requests he user action a (snd (admit_request he user action n w io s)) =
      recent_requests he user action a s + (if fst (admit_request he user action n w io s) \<and> a \<le> io_secs io then 1 else 0)"
    using rate_doc_row(1,2) [of he user action] ok range
    by (simp add: eq recent_requests_def row_time_def jget_i64_def as_i64_json_int)
qed

lemma rate_all_fresh:
  assumes "rate_libs he user action" "rate_ok he user action s"
    and "distinct (map (\<lambda>io. io_uuid io 0) ios)"
    and "\<forall>io \<in> set ios. rate_fresh w io s"
  shows "all_fresh (rate_fresh w) (admit_request he user action n w) ios s"
  using assms
proof (induction ios arbitrary: s)
  case (Cons io ios)
  let ?s = "snd (admit_request he user action n w io s)"
  have fresh: "rate_fresh w io s" using Cons.prems by simp
  note eq = admit_request_calm [OF Cons.prems(1,2) fresh]
  have "rate_fresh w io' ?s" if "io' \<in> set ios" for io'
  proof -
    have "rate_fresh w io' s" using Cons.prems(4) that by simp
    moreover have "io_uuid io 0 \<notin> (\<lambda>io. io_uuid io 0) ` set ios" using Cons.prems(3) by simp
    then have "io_uuid io' 0 \<noteq> io_uuid io 0" using that by (metis imageI)
    ultimately have "rate_fresh w io' s" "io_uuid io' 0 \<noteq> io_uuid io 0" by blast+
    then show ?thesis by (auto simp: eq rate_fresh_def doc_of_append)
  qed
  moreover have "rate_ok he user action ?s" using rate.admit_ok [OF _ fresh] Cons.prems(1,2) by blast
  ultimately show ?case using Cons fresh by simp
qed simp

text \<open>
  C16. Requests of one user for one action that follow each other on a healthy store are admitted
  exactly as a sliding window says: a request passes if and only if fewer than the maximum were
  recorded or admitted in the minutes before it, so no window ever holds more admitted requests
  than the maximum.
\<close>

theorem rate_limit_is_sliding_window:
  assumes "rate_libs he user action" and "rate_ok he user action s"
    and "distinct (map (\<lambda>io. io_uuid io 0) ios)" and "\<forall>io \<in> set ios. rate_fresh w io s"
    and "k < length ios" and "bs = run_calls (admit_request he user action n w) ios s"
    and "a = io_secs (ios ! k) - w * 60"
  shows "bs ! k \<longleftrightarrow> recent_requests he user action a s + admitted_since io_secs ios bs k a < n"
  using rate.admitted_iff [OF conjI [OF assms(1,2)] rate_all_fresh [OF assms(1-4)] assms(5)] assms(6,7) by simp

definition sample_call :: "nat \<Rightarrow> h_io" where
  "sample_call k = sample_io\<lparr>io_uuid := (\<lambda>_. nat_to_string k), io_secs := 1000 + int k\<rparr>"

theorem rate_limit_is_sliding_window_witness:
  "run_calls (admit_request sample_he ''u1'' ''ship'' 2 1) [sample_call 0, sample_call 1, sample_call 2, sample_call 61]
     (hs_db (sample_h ''shipped'' ''shipped'')) ! 2 = False"
proof -
  let ?cs = "[sample_call 0, sample_call 1, sample_call 2, sample_call 61]"
  let ?s = "hs_db (sample_h ''shipped'' ''shipped'')"
  have pg: "he_pg sample_he = sample_pg" "he_bigint sample_he = (\<lambda>t. ok_or ''invalid input'' (parse_i64 t))"
    by (simp_all add: sample_he_def)
  have printed: "pg_value_text sample_pg (json_int i) = int_to_string i" for i
    by (simp add: sample_pg_def json_int_def int_to_string_def)
  have libs: "rate_libs sample_he ''u1'' ''ship''"
    by (simp add: rate_libs_def pg printed bigint_cast_def parse_i64_int_to_string) (simp add: sample_pg_def)
  have empty: "tables ?s RATE_LIMITS = []" by (simp add: sample_h_def RATE_LIMITS_def)
  have ok: "rate_ok sample_he ''u1'' ''ship'' ?s"
    by (simp add: rate_ok_def empty rate_rows_def) (simp add: sample_h_def no_faults_def)
  have dist: "distinct (map (\<lambda>io. io_uuid io 0) ?cs)" by code_simp
  have fresh: "\<forall>io \<in> set ?cs. rate_fresh 1 io ?s"
    by (simp add: rate_fresh_def empty doc_of_def sample_call_def sample_io_def i64_range_def)
  define bs where "bs = run_calls (admit_request sample_he ''u1'' ''ship'' 2 1) ?cs ?s"
  note window = rate_limit_is_sliding_window [OF libs ok dist fresh _ bs_def refl]
  have len: "length bs = 4" by (simp add: bs_def)
  then obtain b0 b1 b2 b3 where bs: "bs = [b0, b1, b2, b3]"
    by (auto simp: numeral_eq_Suc length_Suc_conv)
  have none: "recent_requests sample_he ''u1'' ''ship'' a ?s = 0" for a by (simp add: recent_requests_def empty)
  have "b0" using window [of 0] by (simp add: bs none admitted_since_def)
  moreover have "b1" using window [of 1] by (simp add: bs none admitted_since_def split: if_splits)
  ultimately have "\<not> b2" using window [of 2] by (simp add: bs none admitted_since_def sample_call_def numeral_2_eq_2)
  then show ?thesis unfolding bs_def [symmetric] bs by simp
qed

end
