(* ===== verification/Order_Refunds.thy ===== *)
theory Order_Refunds
  imports Order_Safety
begin

text \<open>
  Refunds and cancellations (\<open>crates/ob-handlers/src/orders/refunds.rs\<close>). The answers of the payment
  provider, the parser of timestamps and PostgreSQL's reading of a raw statement are fields of
  \<open>stripe_io\<close>; every request sent to the provider is recorded in the log of the state. Amounts are 64-bit
  integers that wrap as in a release build.
\<close>

datatype http_outcome = Timeout | SendFailed string | Answered bool "string + json"

record stripe_io =
  si_key :: bool
  si_refund :: http_outcome
  si_cancel :: "string + bool"
  si_now_ns :: int
  si_parse_rfc3339 :: "string \<Rightarrow> int option"
  si_raw_sql :: "string \<Rightarrow> doc_row list \<Rightarrow> string + doc_row list"

record RefundItemRequest =
  rf_order_id :: string
  rf_product_id :: string
  rf_user_id :: string
  rf_reason :: "string option"

record RefundItemResponse =
  rf_success :: bool
  rf_refund_amount_cents :: int
  rf_refund_id :: "string option"
  rf_already_refunded :: "bool option"

record CancelOrderRequest =
  co_order_id :: string
  co_user_id :: string
  co_reason :: "string option"

record CancelOrderResponse =
  co_success :: bool
  co_refunded :: bool

subsection \<open>Amounts\<close>

definition i64_field :: "json \<Rightarrow> string \<Rightarrow> int" where
  "i64_field v field = (case jget_i64 field v of Some i \<Rightarrow> i | None \<Rightarrow> 0)"

definition item_quantity :: "json \<Rightarrow> int" where
  "item_quantity item = (case jget_i64 ''quantity'' item of Some q \<Rightarrow> q | None \<Rightarrow> 1)"

definition RETURN_WINDOW_DAYS :: int where "RETURN_WINDOW_DAYS = 30"

text \<open>\<open>(now - dt).num_days()\<close> of instants in nanoseconds: whole days, rounded towards zero.\<close>

definition num_days :: "int \<Rightarrow> int" where
  "num_days ns = sgn ns * (\<bar>ns\<bar> div 86400000000000)"

definition delivered_at_expired :: "stripe_io \<Rightarrow> json \<Rightarrow> bool" where
  "delivered_at_expired si delivered_at =
     (case Option.bind (as_str delivered_at) (si_parse_rfc3339 si) of
        Some dt \<Rightarrow> RETURN_WINDOW_DAYS < num_days (si_now_ns si - dt)
      | None \<Rightarrow> False)"

text \<open>\<open>(a * b + s / 2) / s\<close>: the share of \<open>a\<close> that \<open>b\<close> has of \<open>s\<close>, rounded to the nearest cent.\<close>

definition share :: "int \<Rightarrow> int \<Rightarrow> int \<Rightarrow> int" where
  "share a b s = i64_div (wrap_i64 (wrap_i64 (a * b) + i64_div s 2)) s"

definition calculate_refund_amount_cents :: "json \<Rightarrow> json \<Rightarrow> int ob_result" where
  "calculate_refund_amount_cents order item =
     (let gross = wrap_i64 (i64_field item ''priceCents'' * item_quantity item);
          order_subtotal = i64_field order ''subtotalCents'';
          order_discount = i64_field order ''discountAmountCents'';
          item_subtotal =
            (if 0 < order_subtotal \<and> 0 < order_discount
             then share gross (max (wrap_i64 (order_subtotal - order_discount)) 0) order_subtotal
             else gross)
      in if order_subtotal \<le> 0
         then Inl (Validation ''Order subtotal must be positive to calculate proportional refund'')
         else
           let shipping_refund =
                 (case jget_i64 ''itemShippingCents'' item of
                    Some snap \<Rightarrow> snap
                  | None \<Rightarrow> share (i64_field order ''shippingCostCents'') item_subtotal order_subtotal);
               proportional_tax = share (i64_field order ''taxAmountCents'') item_subtotal order_subtotal
           in Inr (wrap_i64 (wrap_i64 (item_subtotal + proportional_tax) + shipping_refund)))"

subsection \<open>The payment provider\<close>

definition stripe_refund ::
  "stripe_io \<Rightarrow> string \<Rightarrow> int option \<Rightarrow> string \<Rightarrow> string \<Rightarrow> (string \<times> string) list \<Rightarrow> string option h_action" where
  "stripe_refund si payment_intent_id amount reason idempotency_key metadata =
     (if \<not> si_key si then athrow (Fail (Internal ''Stripe secret key not configured''))
      else
        abind (notify (StripeRefund payment_intent_id amount reason idempotency_key metadata)) (\<lambda>_.
        hres (case si_refund si of
            Timeout \<Rightarrow> Inl (Internal ''Stripe refund request timeout'')
          | SendFailed e \<Rightarrow> Inl (Internal (''Stripe request failed: '' @ e))
          | Answered ok body \<Rightarrow>
              if \<not> ok then Inl (Internal ''Refund failed. Please try again or contact support.'')
              else (case body of
                      Inl e \<Rightarrow> Inl (Internal (''Stripe response parse failed: '' @ e))
                    | Inr b \<Rightarrow> Inr (jget_str ''id'' b)))))"

definition stripe_cancel_pi :: "stripe_io \<Rightarrow> string \<Rightarrow> unit h_action" where
  "stripe_cancel_pi si payment_intent_id =
     (if \<not> si_key si then athrow (Fail (Internal ''Stripe secret key not configured''))
      else
        abind (notify (StripeCancel payment_intent_id)) (\<lambda>_.
        hres (case si_cancel si of
            Inl e \<Rightarrow> Inl (Internal (''Stripe cancel failed: '' @ e))
          | Inr ok \<Rightarrow> if \<not> ok then Inl (Internal ''Payment release could not be confirmed'') else Inr ())))"

subsection \<open>Reserving a refund\<close>

definition db_failed :: "string \<Rightarrow> ob_error \<Rightarrow> ob_error" where
  "db_failed prefx e = Database (prefx @ error_to_string e)"

definition cumulative_of :: "json \<Rightarrow> int" where
  "cumulative_of order = i64_field order ''cumulativeRefundedCents''"

definition cumulative_missing :: "json \<Rightarrow> bool" where
  "cumulative_missing order \<longleftrightarrow>
     jget ''cumulativeRefundedCents'' order = None \<or> jget ''cumulativeRefundedCents'' order = Some JNull"

definition cumulative_doc :: "int \<Rightarrow> json" where
  "cumulative_doc c = json_obj [(''cumulativeRefundedCents'', json_int c)]"

definition reserve_read :: "h_env \<Rightarrow> string \<Rightarrow> json h_action" where
  "reserve_read he i = hdb (amap_err (db_failed ''Failed to read order: '') (get_document (he_pg he) ''orders'' i))"

definition reserve_init :: "h_env \<Rightarrow> int \<Rightarrow> string \<Rightarrow> unit h_action" where
  "reserve_init he now i =
     abind (hdb (atry (update_document (he_pg he) now ''orders'' i (cumulative_doc 0)))) (\<lambda>_. areturn ())"

definition reserve_cas :: "h_env \<Rightarrow> int \<Rightarrow> string \<Rightarrow> int \<Rightarrow> int \<Rightarrow> json option h_action" where
  "reserve_cas he now i expected new =
     hdb (amap_err (db_failed ''Failed to reserve refund: '')
       (update_document_cas (he_pg he) now ''orders'' i (cumulative_doc new) ''cumulativeRefundedCents'' (json_int expected)))"

text \<open>The retry loop; the result says whether the amount was reserved or would exceed the total.\<close>

fun reserve_loop :: "h_env \<Rightarrow> h_io \<Rightarrow> string \<Rightarrow> int \<Rightarrow> nat \<Rightarrow> bool h_action" where
  "reserve_loop he io i amount 0 = areturn False"
| "reserve_loop he io i amount (Suc n) =
     abind (reserve_read he i) (\<lambda>cur_order.
     let cur_cumulative = cumulative_of cur_order;
         total_cents = i64_field cur_order ''totalAmountCents'';
         new_cumulative = wrap_i64 (cur_cumulative + amount)
     in if total_cents < new_cumulative then areturn False
        else
          abind (if cur_cumulative = 0 \<and> cumulative_missing cur_order
                 then reserve_init he (io_db_now io (10 + 2 * n)) i else areturn ()) (\<lambda>_.
          abind (reserve_cas he (io_db_now io (11 + 2 * n)) i cur_cumulative new_cumulative) (\<lambda>cas_result.
          case cas_result of
            Some _ \<Rightarrow> areturn True
          | None \<Rightarrow>
              if 0 < n then reserve_loop he io i amount n
              else athrow (Fail (Validation ''Concurrent refund modification detected. Please retry.'')))))"

text \<open>
  Taking a reservation back: a read whose failure counts as nothing recorded (\<open>unwrap_or_default\<close>),
  and a write without a condition whose failure is only logged.
\<close>

definition rollback_read :: "h_env \<Rightarrow> string \<Rightarrow> int h_action" where
  "rollback_read he i =
     abind (hdb (atry (get_document (he_pg he) ''orders'' i))) (\<lambda>r.
       areturn (cumulative_of (case r of Inr rb_order \<Rightarrow> rb_order | Inl _ \<Rightarrow> JNull)))"

definition rollback_write :: "h_env \<Rightarrow> int \<Rightarrow> string \<Rightarrow> int \<Rightarrow> int \<Rightarrow> (ob_error + json) h_action" where
  "rollback_write he now i amount rb_cumulative =
     hdb (atry (update_document (he_pg he) now ''orders'' i (cumulative_doc (max (wrap_i64 (rb_cumulative - amount)) 0))))"

definition rollback_reservation :: "h_env \<Rightarrow> int \<Rightarrow> string \<Rightarrow> int \<Rightarrow> unit h_action" where
  "rollback_reservation he now i amount =
     abind (rollback_read he i) (\<lambda>rb_cumulative.
     abind (rollback_write he now i amount rb_cumulative) (\<lambda>_. areturn ()))"

subsection \<open>Restoring stock\<close>

fun restore_stock :: "h_env \<Rightarrow> h_io \<Rightarrow> string \<Rightarrow> string \<Rightarrow> int \<Rightarrow> string \<Rightarrow> nat \<Rightarrow> unit h_action" where
  "restore_stock he io prefx pid qty now 0 = areturn ()"
| "restore_stock he io prefx pid qty now (Suc n) =
     abind (hdb (atry (get_document (he_pg he) ''products'' pid))) (\<lambda>r.
     let cur_product = (case r of Inr d \<Rightarrow> d | Inl _ \<Rightarrow> JNull);
         cur_stock = i64_field cur_product ''stockQuantity'' in
     abind (hdb (amap_err (db_failed prefx)
       (update_document_cas (he_pg he) (io_db_now io (20 + n)) ''products'' pid
         (json_obj [(''stockQuantity'', json_int (wrap_i64 (cur_stock + qty))), (''updatedAt'', JString now)])
         ''stockQuantity'' (json_int cur_stock)))) (\<lambda>cas_result.
     if cas_result \<noteq> None then areturn () else restore_stock he io prefx pid qty now n))"

definition order_event :: "h_env \<Rightarrow> h_io \<Rightarrow> string \<Rightarrow> json \<Rightarrow> unit h_action" where
  "order_event he io prefx doc =
     abind (hdb (amap_err (db_failed prefx) (create_document (he_pg he) (io_uuid io 1) (io_db_now io 2) ''events'' doc))) (\<lambda>_.
       areturn ())"

subsection \<open>\<open>refund_order_item\<close>\<close>

datatype refund_plan = AlreadyRefunded | RefundItem nat int

definition refund_checks :: "stripe_io \<Rightarrow> string \<Rightarrow> bool \<Rightarrow> json \<Rightarrow> string \<Rightarrow> refund_plan ob_result" where
  "refund_checks si user is_admin order product_id =
     (let items = items_array order
      in case find_item_index items product_id of
           None \<Rightarrow> Inl (NotFound (''Product '' @ product_id @ '' not found in order''))
         | Some idx \<Rightarrow>
             let item = items ! idx in
             if \<not> is_admin \<and> str_field item ''sellerId'' \<noteq> user
             then Inl (Forbidden ''Only seller of the item or admin can issue refunds'')
             else if str_field order ''paymentStatus'' \<noteq> ''captured''
             then Inl (Validation ''Cannot refund uncaptured payment'')
             else if str_field order ''payoutStatus'' = ''processing''
             then Inl (Validation ''Cannot refund item while payout is currently processing. Please try again later.'')
             else if str_field item ''status'' = OrderStatus_as_str Refunded then Inr AlreadyRefunded
             else if \<not> is_admin \<and> str_field item ''status'' = OrderStatus_as_str Delivered \<and>
                 (case jget ''deliveredAt'' item of Some d \<Rightarrow> delivered_at_expired si d | None \<Rightarrow> False)
             then Inl (Validation (''Return window expired. Returns not accepted after '' @
               nat_to_string (nat RETURN_WINDOW_DAYS) @ '' days post-delivery.''))
             else rbind (calculate_refund_amount_cents order item) (\<lambda>amount. Inr (RefundItem idx amount)))"

definition exceeds_total :: "h_env \<Rightarrow> string \<Rightarrow> int \<Rightarrow> 'a h_action" where
  "exceeds_total he order_id amount =
     abind (hdb (atry (get_document (he_pg he) ''orders'' order_id))) (\<lambda>r.
     let current = (case r of Inr d \<Rightarrow> d | Inl _ \<Rightarrow> JNull) in
     athrow (Fail (Validation (''Cumulative refund ('' @ int_to_string (wrap_i64 (cumulative_of current + amount)) @
       '' cents) would exceed order total ('' @ int_to_string (i64_field current ''totalAmountCents'') @ '' cents)''))))"

definition refunded_members :: "string \<Rightarrow> string \<Rightarrow> int \<Rightarrow> string option \<Rightarrow> (string \<times> json) list" where
  "refunded_members now reason amount refund_id =
     [(''status'', JString (OrderStatus_as_str Refunded)), (''refundedAt'', JString now), (''refundReason'', JString reason),
      (''refundAmountCents'', json_int amount)] @ opt_member ''refundId'' refund_id"

text \<open>The statement that revokes the licenses, as text; its effect on the table is the database's.\<close>

definition revoke_licenses_sql :: "string \<Rightarrow> string \<Rightarrow> string \<Rightarrow> string" where
  "revoke_licenses_sql now order_id product_id =
     (let q = [CHR 0x27]; dq = [CHR 0x22] in
      ''UPDATE licenses SET data = data || '' @ q @ ''{'' @ dq @ ''status'' @ dq @ '':'' @ dq @ ''revoked'' @ dq @ '','' @
      dq @ ''revokedAt'' @ dq @ '':'' @ dq @ escape_sql_string now @ dq @ ''}'' @ q @
      ''::jsonb, updated_at = now() WHERE data->>'' @ q @ ''orderId'' @ q @ '' = '' @ q @ escape_sql_string order_id @ q @
      '' AND data->>'' @ q @ ''productId'' @ q @ '' = '' @ q @ escape_sql_string product_id @ q @
      '' AND data->>'' @ q @ ''status'' @ q @ '' = '' @ q @ ''active'' @ q)"

definition revoke_licenses :: "stripe_io \<Rightarrow> string \<Rightarrow> string \<Rightarrow> string \<Rightarrow> unit h_action" where
  "revoke_licenses si now order_id product_id =
     hdb (amap_err (db_failed ''Failed to revoke digital licenses for refunded item: '')
       (abind (atry (ensure_table ''licenses'')) (\<lambda>_.
          pg_exec ''Query failed: '' ''licenses'' (\<lambda>rs.
            rbind (si_raw_sql si (revoke_licenses_sql now order_id product_id) rs) (\<lambda>rs'. Inr ((), rs'))))))"

definition is_digital_item :: "json \<Rightarrow> bool" where
  "is_digital_item item \<longleftrightarrow>
     bool_field item ''isDigital'' \<or> str_field item ''productType'' \<in> {''software'', ''book'', ''digital''}"

text \<open>The work after the provider has accepted the refund.\<close>

definition record_refund ::
  "h_env \<Rightarrow> h_io \<Rightarrow> stripe_io \<Rightarrow> string \<Rightarrow> RefundItemRequest \<Rightarrow> json list \<Rightarrow> nat \<Rightarrow> int \<Rightarrow> string \<Rightarrow> string option \<Rightarrow>
     RefundItemResponse h_action" where
  "record_refund he io si user req items idx amount reason refund_id =
     (let now = io_now io 0; item = items ! idx in
     abind (alift (set_item items idx (refunded_members now reason amount refund_id))) (\<lambda>updated_items.
     abind (hdb (amap_err (db_failed ''Failed to update refunded order: '')
       (update_document (he_pg he) (io_db_now io 1) ''orders'' (rf_order_id req)
         (json_obj [(''items'', JArray updated_items), (''updatedAt'', JString now)])))) (\<lambda>_.
     abind (if is_digital_item item
            then revoke_licenses si now (rf_order_id req) (rf_product_id req)
            else restore_stock he io ''Failed to restore stock for refunded item: '' (rf_product_id req) (item_quantity item) now 3) (\<lambda>_.
     abind (order_event he io ''Failed to log refund event: ''
       (json_obj [(''orderId'', JString (rf_order_id req)), (''userId'', JString user), (''eventType'', JString ''item_refunded''),
         (''message'', JString (''Item '' @ rf_product_id req @ '' refunded for '' @ int_to_string amount @ '' cents'')),
         (''data'', json_obj [(''productId'', JString (rf_product_id req)), (''refundAmountCents'', json_int amount)]),
         (''createdAt'', JString now)])) (\<lambda>_.
     areturn \<lparr>rf_success = True, rf_refund_amount_cents = amount, rf_refund_id = refund_id, rf_already_refunded = None\<rparr>)))))"

text \<open>The refund of an item that passed the checks: reserve, refund, roll back or record.\<close>

definition refund_item ::
  "h_env \<Rightarrow> h_io \<Rightarrow> stripe_io \<Rightarrow> string \<Rightarrow> RefundItemRequest \<Rightarrow> json \<Rightarrow> nat \<Rightarrow> int \<Rightarrow> string \<Rightarrow> RefundItemResponse h_action" where
  "refund_item he io si user req order idx amount reason =
     (let i = bare_id ''orders'' (rf_order_id req) in
     abind (reserve_loop he io i amount 3) (\<lambda>reserved.
     if \<not> reserved then exceeds_total he (rf_order_id req) amount
     else
       let payment_intent_id = str_field order ''paymentIntentId'' in
       if payment_intent_id = [] then athrow (Fail (Validation ''No payment intent found''))
       else
         abind (atry (stripe_refund si payment_intent_id (Some amount) ''requested_by_customer''
           (''refund_'' @ rf_order_id req @ ''_'' @ rf_product_id req)
           [(''orderId'', rf_order_id req), (''productId'', rf_product_id req)])) (\<lambda>stripe_result.
         case stripe_result of
           Inr refund_id \<Rightarrow> record_refund he io si user req (items_array order) idx amount reason refund_id
         | Inl stripe_err \<Rightarrow>
             abind (rollback_reservation he (io_db_now io 3) i amount) (\<lambda>_. athrow stripe_err))))"

definition refund_reason :: "h_env \<Rightarrow> string \<Rightarrow> string option \<Rightarrow> string" where
  "refund_reason he dflt r = (case sanitized he 500 r of Some t \<Rightarrow> t | None \<Rightarrow> dflt)"

definition refund_order_item ::
  "h_env \<Rightarrow> h_io \<Rightarrow> stripe_io \<Rightarrow> AuthContext \<Rightarrow> RefundItemRequest \<Rightarrow> RefundItemResponse h_action" where
  "refund_order_item he io si auth req =
     (let user = au_user_id auth in
     abind (hres (validate_uid ''orderId'' (rf_order_id req))) (\<lambda>_.
     abind (hres (validate_uid ''productId'' (rf_product_id req))) (\<lambda>_.
     abind (hdb (check_user_rate_limit he io user ''refund_order_item'' 5 1)) (\<lambda>_.
     abind (read_order he (rf_order_id req)) (\<lambda>order.
     abind (is_user_admin he user) (\<lambda>is_admin.
     abind (hres (refund_checks si user is_admin order (rf_product_id req))) (\<lambda>plan.
     case plan of
       AlreadyRefunded \<Rightarrow>
         areturn \<lparr>rf_success = True, rf_refund_amount_cents = 0, rf_refund_id = None, rf_already_refunded = Some True\<rparr>
     | RefundItem idx amount \<Rightarrow>
         refund_item he io si user req order idx amount (refund_reason he ''Item refund requested'' (rf_reason req)))))))))"

subsection \<open>\<open>cancel_order\<close>\<close>

definition cancellable_from :: "string list" where
  "cancellable_from = [''pending'', ''confirmed'', ''awaiting_shipping_approval'', ''processing'']"

definition order_buyer :: "json \<Rightarrow> string" where
  "order_buyer order =
     (case jget_str ''buyerId'' order of
        Some b \<Rightarrow> if b \<noteq> [] then b else str_field order ''userId''
      | None \<Rightarrow> str_field order ''userId'')"

definition cancel_checks :: "string \<Rightarrow> bool \<Rightarrow> json \<Rightarrow> unit ob_result" where
  "cancel_checks user is_admin order =
     (let items = items_array order;
          seller_items = filter (is_seller_item user) items;
          is_buyer = (order_buyer order = user);
          is_seller = (seller_items \<noteq> []);
          current_status = str_field order ''orderStatus''
      in if \<not> is_admin \<and> \<not> is_buyer \<and> \<not> is_seller
         then Inl (Forbidden ''Only buyer, seller, or admin can cancel order'')
         else if is_seller \<and> \<not> is_buyer \<and> \<not> is_admin \<and> length seller_items < length items
         then Inl (Forbidden ''Cannot cancel a multi-seller order. Use item refund to cancel your items only.'')
         else if current_status \<notin> set cancellable_from
         then Inl (Validation (''Cannot cancel order with status: '' @ current_status))
         else if is_buyer \<and> \<not> is_admin \<and> \<not> is_seller \<and> current_status \<notin> {''pending'', ''confirmed''}
         then Inl (Validation ''Order cannot be cancelled at this stage. Contact support if there is an issue.'')
         else Inr ())"

definition quarantine :: "h_env \<Rightarrow> h_io \<Rightarrow> string \<Rightarrow> h_error \<Rightarrow> 'a h_action" where
  "quarantine he io order_id e =
     abind (hdb (atry (update_document (he_pg he) (io_db_now io 3) ''orders'' order_id
       (json_obj [(''paymentStatus'', JString ''CANCEL_FAILED''), (''requiresManualReview'', JBool True),
         (''updatedAt'', JString (io_now io 0))])))) (\<lambda>_. athrow e)"

text \<open>What happens to the payment: the new payment status and whether money was returned.\<close>

definition settle_payment :: "h_env \<Rightarrow> h_io \<Rightarrow> stripe_io \<Rightarrow> string \<Rightarrow> json \<Rightarrow> (string \<times> bool) h_action" where
  "settle_payment he io si order_id order =
     (let payment_status = str_field order ''paymentStatus'';
          payment_intent_id = str_field order ''paymentIntentId'' in
      if payment_status = ''captured'' \<and> payment_intent_id \<noteq> []
      then abind (atry (stripe_refund si payment_intent_id None ''requested_by_customer'' (''refund_'' @ order_id)
             [(''orderId'', order_id)])) (\<lambda>r.
           case r of Inr _ \<Rightarrow> areturn (''refunded'', True) | Inl e \<Rightarrow> quarantine he io order_id e)
      else if payment_status = ''authorized'' \<and> payment_intent_id \<noteq> []
      then abind (atry (stripe_cancel_pi si payment_intent_id)) (\<lambda>r.
           case r of Inr _ \<Rightarrow> areturn (''cancelled'', False) | Inl e \<Rightarrow> quarantine he io order_id e)
      else areturn (''cancelled'', False))"

fun restore_items :: "h_env \<Rightarrow> h_io \<Rightarrow> string \<Rightarrow> json list \<Rightarrow> unit h_action" where
  "restore_items he io now [] = areturn ()"
| "restore_items he io now (item # items) =
     (let pid = str_field item ''productId''; qty = item_quantity item in
      if bool_field item ''isDigital'' then restore_items he io now items
      else if pid \<noteq> [] \<and> 0 < qty
      then abind (restore_stock he io (''Failed to restore stock for product '' @ pid @ '': '') pid qty now 3) (\<lambda>_.
             restore_items he io now items)
      else restore_items he io now items)"

definition cancel_write :: "h_env \<Rightarrow> h_io \<Rightarrow> string \<Rightarrow> string \<Rightarrow> string \<Rightarrow> json \<Rightarrow> string \<Rightarrow> json option h_action" where
  "cancel_write he io user order_id reason order new_payment_status =
     (let now = io_now io 0 in
      hdb (amap_err (db_failed ''Failed to update cancelled order: '')
        (update_document_cas (he_pg he) (io_db_now io 1) ''orders'' order_id
          (json_obj [(''orderStatus'', JString ''cancelled''), (''paymentStatus'', JString new_payment_status),
            (''cancelledBy'', JString user), (''cancelledAt'', JString now), (''cancellationReason'', JString reason),
            (''stockRestored'', JBool True), (''updatedAt'', JString now)])
          ''orderStatus'' (JString (str_field order ''orderStatus'')))))"

text \<open>The cancellation of an order that passed the checks.\<close>

definition cancel_apply ::
  "h_env \<Rightarrow> h_io \<Rightarrow> stripe_io \<Rightarrow> string \<Rightarrow> CancelOrderRequest \<Rightarrow> json \<Rightarrow> CancelOrderResponse h_action" where
  "cancel_apply he io si user req order =
     abind (settle_payment he io si (co_order_id req) order) (\<lambda>(new_payment_status, refunded).
     abind (cancel_write he io user (co_order_id req) (refund_reason he ''User requested cancellation'' (co_reason req))
       order new_payment_status) (\<lambda>cas_result.
     if cas_result = None
     then athrow (Fail (Validation (''Order status changed concurrently '' @ em_dash @ '' please retry cancellation'')))
     else
       abind (if bool_field order ''stockRestored'' then areturn ()
              else restore_items he io (io_now io 0) (items_array order)) (\<lambda>_.
       abind (order_event he io ''Failed to log order cancellation: ''
         (json_obj [(''orderId'', JString (co_order_id req)), (''userId'', JString user), (''eventType'', JString ''order_cancelled''),
           (''message'', JString (''Order cancelled. Refunded: '' @ (if refunded then ''true'' else ''false''))),
           (''data'', json_obj [(''refunded'', JBool refunded)]), (''createdAt'', JString (io_now io 0))])) (\<lambda>_.
       areturn \<lparr>co_success = True, co_refunded = refunded\<rparr>))))"

definition cancel_order ::
  "h_env \<Rightarrow> h_io \<Rightarrow> stripe_io \<Rightarrow> AuthContext \<Rightarrow> CancelOrderRequest \<Rightarrow> CancelOrderResponse h_action" where
  "cancel_order he io si auth req =
     abind (hres (resolve_self_user_id auth (Some (co_user_id req)) ''userId'')) (\<lambda>user.
     abind (hres (validate_uid ''orderId'' (co_order_id req))) (\<lambda>_.
     abind (hdb (check_user_rate_limit he io user ''cancel_order'' 5 1)) (\<lambda>_.
     abind (read_order he (co_order_id req)) (\<lambda>order.
     if bool_field order ''archived'' then athrow (Fail (Validation ''Cannot cancel archived order''))
     else
       abind (hres (cancel_checks user (has_role auth ''admin'') order)) (\<lambda>_.
       cancel_apply he io si user req order)))))"

end
