(* ===== verification/Refund_Safety.thy ===== *)
theory Refund_Safety
  imports Order_Refunds
begin

text \<open>
  What the refund handlers guarantee: the amounts of an order's items add up, reserved refunds stay
  within the total over all interleavings of concurrent requests, and the payment provider is only
  called for entitled callers; and where these guarantees end.
\<close>

subsection \<open>Amounts\<close>

text \<open>Amounts whose products stay below \<open>2^63\<close>.\<close>

definition cents :: "int \<Rightarrow> bool" where
  "cents x \<longleftrightarrow> 0 \<le> x \<and> x \<le> 1000000000"

lemma cents_mult: "cents a \<Longrightarrow> cents b \<Longrightarrow> 0 \<le> a * b \<and> a * b \<le> 1000000000000000000"
  using mult_mono [of a 1000000000 b 1000000000] by (auto simp: cents_def)

lemma share_cents:
  assumes "cents a" "cents b" "cents s" "0 < s"
  shows "share a b s = (a * b + s div 2) div s"
proof -
  have ab: "0 \<le> a * b" "a * b \<le> 1000000000000000000" using cents_mult assms by blast+
  have s: "0 \<le> s div 2" "s div 2 \<le> 1000000000" using assms by (auto simp: cents_def)
  have half: "i64_div s 2 = s div 2" using assms by (intro i64_div_nonneg) (auto simp: cents_def i64_range_def)
  have prod: "wrap_i64 (a * b) = a * b" using ab by (intro wrap_i64_id) (auto simp: i64_range_def)
  have r: "i64_range (a * b + s div 2)" using ab s by (auto simp: i64_range_def)
  show ?thesis unfolding share_def half prod wrap_i64_id [OF r] using ab s assms(4) r by (intro i64_div_nonneg) auto
qed

text \<open>A share is the exact proportion up to half a cent.\<close>

lemma share_bounds:
  assumes "cents a" "cents b" "cents s" "0 < s"
  shows "\<bar>2 * (s * share a b s) - 2 * (a * b)\<bar> \<le> s" and "0 \<le> share a b s"
proof -
  let ?n = "a * b + s div 2"
  have "s * (?n div s) = ?n - ?n mod s" by (simp add: minus_mod_eq_mult_div)
  moreover have "0 \<le> ?n mod s" "?n mod s < s" using assms(4) by auto
  moreover have "2 * (s div 2) \<le> s" "s - 1 \<le> 2 * (s div 2)" by linarith+
  ultimately show "\<bar>2 * (s * share a b s) - 2 * (a * b)\<bar> \<le> s"
    unfolding share_cents [OF assms] by linarith
  show "0 \<le> share a b s"
    unfolding share_cents [OF assms] using cents_mult [OF assms(1,2)] assms(4) by (simp add: pos_imp_zdiv_nonneg_iff)
qed

lemma share_le: "cents a \<Longrightarrow> cents b \<Longrightarrow> cents s \<Longrightarrow> 0 < s \<Longrightarrow> b \<le> s \<Longrightarrow> share a b s \<le> a"
proof -
  assume a: "cents a" "cents b" "cents s" "0 < s" "b \<le> s"
  have "a * b \<le> a * s" using a by (intro mult_left_mono) (auto simp: cents_def)
  then have lt: "a * b + s div 2 < (a + 1) * s" using a(4) by (auto simp: algebra_simps)
  have "(a * b + s div 2) div s < a + 1"
  proof (rule ccontr)
    assume "\<not> (a * b + s div 2) div s < a + 1"
    then have "(a + 1) * s \<le> (a * b + s div 2) div s * s" using a(4) by (intro mult_right_mono) auto
    also have "\<dots> \<le> a * b + s div 2" using a(4) by (simp add: minus_mod_eq_div_mult [symmetric])
    finally show False using lt by simp
  qed
  then show ?thesis using share_cents [OF a(1-4)] by simp
qed

definition gross_of :: "json \<Rightarrow> int" where
  "gross_of item = i64_field item ''priceCents'' * item_quantity item"

text \<open>
  An order with amounts in range, without a discount, whose items make up its subtotal. Any of its
  items may carry its own shipping cost.
\<close>

definition plain_order :: "json \<Rightarrow> bool" where
  "plain_order order \<longleftrightarrow> 0 < i64_field order ''subtotalCents'' \<and> cents (i64_field order ''subtotalCents'') \<and>
     cents (i64_field order ''taxAmountCents'') \<and> cents (i64_field order ''shippingCostCents'') \<and>
     i64_field order ''discountAmountCents'' = 0 \<and>
     (\<forall>it \<in> set (items_array order). cents (gross_of it) \<and> (\<forall>snap. jget_i64 ''itemShippingCents'' it = Some snap \<longrightarrow> cents snap)) \<and>
     sum_list (map gross_of (items_array order)) = i64_field order ''subtotalCents''"

text \<open>The shipping costs that items carry themselves, and the value of the items that carry none.\<close>

definition snapshots :: "json \<Rightarrow> int" where
  "snapshots order = sum_list (map (\<lambda>it. case jget_i64 ''itemShippingCents'' it of Some snap \<Rightarrow> snap | None \<Rightarrow> 0) (items_array order))"

definition unsnapped :: "json \<Rightarrow> int" where
  "unsnapped order = sum_list (map gross_of (filter (\<lambda>it. jget_i64 ''itemShippingCents'' it = None) (items_array order)))"

definition shipping_of :: "json \<Rightarrow> json \<Rightarrow> int" where
  "shipping_of order it = (case jget_i64 ''itemShippingCents'' it of Some snap \<Rightarrow> snap
     | None \<Rightarrow> share (i64_field order ''shippingCostCents'') (gross_of it) (i64_field order ''subtotalCents''))"

definition refund_of :: "json \<Rightarrow> json \<Rightarrow> int" where
  "refund_of order item = (case calculate_refund_amount_cents order item of Inr a \<Rightarrow> a | Inl _ \<Rightarrow> 0)"

lemma wrap_cents: "cents x \<Longrightarrow> wrap_i64 x = x"
  by (intro wrap_i64_id) (auto simp: cents_def i64_range_def)

lemma refund_plain:
  assumes "plain_order order" "it \<in> set (items_array order)"
  shows "calculate_refund_amount_cents order it = Inr (gross_of it +
    share (i64_field order ''taxAmountCents'') (gross_of it) (i64_field order ''subtotalCents'') + shipping_of order it)"
proof -
  let ?S = "i64_field order ''subtotalCents''" and ?t = "i64_field order ''taxAmountCents''"
    and ?h = "i64_field order ''shippingCostCents''" and ?x = "gross_of it"
  have a: "0 < ?S" "cents ?S" "cents ?t" "cents ?h" "cents ?x" "i64_field order ''discountAmountCents'' = 0"
    using assms by (auto simp: plain_order_def)
  have le: "?x \<le> ?S"
  proof -
    have "gross_of it \<le> sum_list (map gross_of (items_array order))"
      by (rule member_le_sum_list) (use assms in \<open>auto simp: plain_order_def cents_def\<close>)
    then show ?thesis using assms(1) by (simp add: plain_order_def)
  qed
  have g: "wrap_i64 (i64_field it ''priceCents'' * item_quantity it) = ?x"
    using wrap_cents [OF a(5)] by (simp add: gross_of_def)
  have st: "0 \<le> share ?t ?x ?S" "share ?t ?x ?S \<le> ?t" "0 \<le> share ?h ?x ?S" "share ?h ?x ?S \<le> ?h"
    using share_bounds(2) share_le a le by blast+
  have ship: "cents (shipping_of order it)"
    using st a(4) assms by (auto simp: shipping_of_def plain_order_def cents_def split: option.split)
  then have "i64_range (?x + share ?t ?x ?S)" "i64_range (?x + share ?t ?x ?S + shipping_of order it)"
    using st a(3-5) by (auto simp: cents_def i64_range_def)
  then show ?thesis
    using a(1,6) by (simp add: calculate_refund_amount_cents_def Let_def g flip: shipping_of_def)
qed

lemma shipping_parts:
  "sum_list (map (shipping_of order) items) =
     sum_list (map (\<lambda>it. case jget_i64 ''itemShippingCents'' it of Some snap \<Rightarrow> snap | None \<Rightarrow> 0) items) +
     sum_list (map (\<lambda>x. share (i64_field order ''shippingCostCents'') x (i64_field order ''subtotalCents''))
       (map gross_of (filter (\<lambda>it. jget_i64 ''itemShippingCents'' it = None) items)))"
  by (induction items) (auto simp: shipping_of_def split: option.split)

lemma sum_share_error:
  assumes "\<forall>x \<in> set xs. cents x" "cents a" "cents s" "0 < s"
  shows "\<bar>2 * (s * sum_list (map (\<lambda>x. share a x s) xs)) - 2 * (a * sum_list xs)\<bar> \<le> int (length xs) * s"
  using assms(1)
proof (induction xs)
  case (Cons x xs)
  have "\<bar>2 * (s * share a x s) - 2 * (a * x)\<bar> \<le> s" using share_bounds(1) assms Cons.prems by simp
  with Cons show ?case by (auto simp: algebra_simps)
qed simp

lemma scaled_error:
  fixes s d n :: int
  assumes "\<bar>s * d\<bar> \<le> n * s" "0 < s"
  shows "\<bar>d\<bar> \<le> n"
proof -
  have "s * \<bar>d\<bar> \<le> s * n" using assms by (simp add: abs_mult algebra_simps)
  then show ?thesis using assms(2) by simp
qed

text \<open>
  C19. Refunding every item of an order without a discount returns what was paid, with an error of
  at most one cent per item: the refund amounts of its items add up to the subtotal, the tax, the
  shipping costs that items carry themselves, and the order's shipping in the proportion of the
  items that carry none (scaled by the subtotal, to state it without fractions). When these parts
  make up the order's shipping, as when no item carries its own, the sum is subtotal, tax and shipping.
\<close>

theorem refunds_add_up:
  assumes "plain_order order" and "S = i64_field order ''subtotalCents''" and "t = i64_field order ''taxAmountCents''"
    and "h = i64_field order ''shippingCostCents''" and "n = int (length (items_array order))"
    and "refunded = sum_list (map (refund_of order) (items_array order))"
  shows "\<bar>S * (refunded - (S + t + snapshots order)) - h * unsnapped order\<bar> \<le> n * S \<and>
    (S * snapshots order + h * unsnapped order = S * h \<longrightarrow> \<bar>refunded - (S + t + h)\<bar> \<le> n)"
proof -
  let ?items = "items_array order" and ?bare = "filter (\<lambda>it. jget_i64 ''itemShippingCents'' it = None) (items_array order)"
  let ?tax = "sum_list (map (\<lambda>x. share t x S) (map gross_of ?items))" and ?ship = "sum_list (map (\<lambda>x. share h x S) (map gross_of ?bare))"
  have a: "0 < S" "cents S" "cents t" "cents h" "\<forall>x \<in> set (map gross_of ?items). cents x" "sum_list (map gross_of ?items) = S"
    using assms(1) by (auto simp: plain_order_def assms(2-4))
  have "map (refund_of order) ?items = map (\<lambda>it. gross_of it + share t (gross_of it) S + shipping_of order it) ?items"
    using refund_plain [OF assms(1)] by (auto simp: refund_of_def assms(2,3))
  then have sum: "refunded = S + ?tax + sum_list (map (shipping_of order) ?items)"
    unfolding assms(6) using a(6) by (simp only: sum_list_addf map_map comp_def)
  then have sum: "refunded = S + ?tax + (snapshots order + ?ship)"
    unfolding shipping_parts snapshots_def assms(2,4) .
  have tax: "\<bar>2 * (S * ?tax) - 2 * (t * S)\<bar> \<le> n * S"
    using sum_share_error [OF a(5,3,2,1)] unfolding a(6) assms(5) by simp
  have "\<bar>2 * (S * ?ship) - 2 * (h * unsnapped order)\<bar> \<le> int (length ?bare) * S"
    using sum_share_error [of "map gross_of ?bare" h S] a unfolding unsnapped_def by simp
  moreover have "int (length ?bare) * S \<le> n * S" unfolding assms(5) using a(1) by (intro mult_right_mono) auto
  ultimately have ship: "\<bar>2 * (S * ?ship) - 2 * (h * unsnapped order)\<bar> \<le> n * S" by linarith
  have "S * (refunded - (S + t + snapshots order)) - h * unsnapped order = (S * ?tax - t * S) + (S * ?ship - h * unsnapped order)"
    unfolding sum by (simp add: algebra_simps)
  then have all: "\<bar>S * (refunded - (S + t + snapshots order)) - h * unsnapped order\<bar> \<le> n * S" using tax ship by linarith
  have "\<bar>refunded - (S + t + h)\<bar> \<le> n" if "S * snapshots order + h * unsnapped order = S * h"
  proof (rule scaled_error [OF _ a(1)])
    have "S * (refunded - (S + t + h)) = S * (refunded - (S + t + snapshots order)) - h * unsnapped order"
      using that by (simp add: algebra_simps)
    then show "\<bar>S * (refunded - (S + t + h))\<bar> \<le> n * S" using all by simp
  qed
  with all show ?thesis by blast
qed

text \<open>
  With a discount the amounts fall short. For an order with one item that got a discount, the tax
  and the shipping of the refund are scaled by the discounted price over the full price, although
  they were charged for the order as it was sold: the buyer gets back less than was paid as soon
  as tax and shipping are worth a cent of the discount's share.
\<close>

theorem discounted_refund_falls_short:
  assumes "items_array order = [item]" and "gross_of item = i64_field order ''subtotalCents''"
    and "jget_i64 ''itemShippingCents'' item = None"
    and "cents (i64_field order ''subtotalCents'')" and "cents (i64_field order ''taxAmountCents'')"
    and "cents (i64_field order ''shippingCostCents'')"
    and "S = i64_field order ''subtotalCents''" and "D = i64_field order ''discountAmountCents''"
    and "fees = i64_field order ''taxAmountCents'' + i64_field order ''shippingCostCents''"
    and "0 < D" and "D \<le> S" and "S < fees * D"
  shows "\<exists>amount. calculate_refund_amount_cents order item = Inr amount \<and> amount < S - D + fees"
proof -
  let ?t = "i64_field order ''taxAmountCents''" and ?h = "i64_field order ''shippingCostCents''"
  have S: "0 < S" "cents S" "cents (S - D)" "cents ?t" "cents ?h" using assms by (auto simp: cents_def)
  have first: "share S (S - D) S = S - D"
  proof -
    have "(S * (S - D) + S div 2) div S = S - D" using S(1) by (simp add: div_mult_self2)
    then show ?thesis using share_cents [OF S(2,3,2,1)] by simp
  qed
  have bounds: "0 \<le> share ?t (S - D) S" "share ?t (S - D) S \<le> ?t" "0 \<le> share ?h (S - D) S" "share ?h (S - D) S \<le> ?h"
    using share_bounds(2) share_le S assms(10) by auto
  have amount: "calculate_refund_amount_cents order item = Inr (S - D + share ?t (S - D) S + share ?h (S - D) S)"
  proof -
    have g: "wrap_i64 (i64_field item ''priceCents'' * item_quantity item) = S"
      using wrap_cents [OF S(2)] assms(2,7) by (simp add: gross_of_def)
    have "wrap_i64 (S - D) = S - D" by (rule wrap_cents [OF S(3)])
    moreover have "i64_range (S - D + share ?t (S - D) S)" "i64_range (S - D + share ?t (S - D) S + share ?h (S - D) S)"
      using bounds S by (auto simp: cents_def i64_range_def)
    ultimately show ?thesis
      using S(1) assms(3,7,8,10,11) first by (simp add: calculate_refund_amount_cents_def Let_def g max_absorb1)
  qed
  have "2 * (S * share ?t (S - D) S) \<le> 2 * (?t * (S - D)) + S" "2 * (S * share ?h (S - D) S) \<le> 2 * (?h * (S - D)) + S"
    using share_bounds(1) [OF S(4,3,2,1)] share_bounds(1) [OF S(5,3,2,1)] by linarith+
  then have "S * (share ?t (S - D) S + share ?h (S - D) S) \<le> fees * (S - D) + S"
    unfolding assms(9) by (simp add: algebra_simps)
  also have "\<dots> < S * fees" using assms(12) by (simp add: algebra_simps)
  finally have "share ?t (S - D) S + share ?h (S - D) S < fees" using S(1) by simp
  with amount show ?thesis by auto
qed

subsection \<open>Concurrent reservations\<close>

text \<open>
  Any number of refund requests of the same order. A request rests, has read the order and found
  room for its amount (and is ready for its conditional write once it has created the missing
  member), holds a reservation while the payment provider is asked, or is about to take its
  reservation back. Beside the store the configuration has the sum the provider has returned and
  the sum of the reservations that a failed rollback left behind.
\<close>

datatype refunding = RfRest | RfChecked int json bool | RfReserved int | RfFailing int int

record rsv =
  rs_state :: h_state
  rs_phase :: "nat \<Rightarrow> refunding"
  rs_paid :: int
  rs_stuck :: int

datatype rsv_event = ReadAmount | CreateAmount | SwapAmount | MoneyReturned | MoneyRefused | TakeBack int | OtherWrite

definition refund_amount :: "int \<Rightarrow> bool" where
  "refund_amount a \<longleftrightarrow> 0 \<le> a \<and> a < 2 ^ 62"

definition order_row :: "string \<Rightarrow> h_state \<Rightarrow> json_map \<Rightarrow> bool" where
  "order_row i s m \<longleftrightarrow> distinct (map d_id (tbl s ''orders'')) \<and>
     (\<exists>r. doc_of (bare_id ''orders'' i) (tbl s ''orders'') = Some r \<and> d_data r = JObject m)"

definition same_amounts :: "json_map \<Rightarrow> json_map \<Rightarrow> bool" where
  "same_amounts m m' \<longleftrightarrow> (\<forall>f \<in> {''cumulativeRefundedCents'', ''totalAmountCents''}. map_of m' f = map_of m f)"

inductive rsv_step :: "h_env \<Rightarrow> string \<Rightarrow> rsv \<Rightarrow> rsv_event \<Rightarrow> rsv \<Rightarrow> bool" for he i where
  rsv_read: "rs_phase c k = RfRest \<Longrightarrow> refund_amount a \<Longrightarrow> reserve_read he i (rs_state c) = (Inr order, s') \<Longrightarrow>
    wrap_i64 (cumulative_of order + a) \<le> i64_field order ''totalAmountCents'' \<Longrightarrow>
    ready = (\<not> (cumulative_of order = 0 \<and> cumulative_missing order)) \<Longrightarrow>
    rsv_step he i c ReadAmount (c\<lparr>rs_state := s', rs_phase := (rs_phase c)(k := RfChecked a order ready)\<rparr>)"
| rsv_init: "rs_phase c k = RfChecked a order False \<Longrightarrow> reserve_init he now i (rs_state c) = (r, s') \<Longrightarrow>
    rsv_step he i c CreateAmount (c\<lparr>rs_state := s', rs_phase := (rs_phase c)(k := RfChecked a order True)\<rparr>)"
| rsv_swap: "rs_phase c k = RfChecked a order True \<Longrightarrow>
    reserve_cas he now i (cumulative_of order) (wrap_i64 (cumulative_of order + a)) (rs_state c) = (r, s') \<Longrightarrow>
    rsv_step he i c SwapAmount (c\<lparr>rs_state := s',
      rs_phase := (rs_phase c)(k := (case r of Inr (Some _) \<Rightarrow> RfReserved a | _ \<Rightarrow> RfRest))\<rparr>)"
| rsv_pay: "rs_phase c k = RfReserved a \<Longrightarrow>
    rsv_step he i c MoneyReturned (c\<lparr>rs_phase := (rs_phase c)(k := RfRest), rs_paid := rs_paid c + a\<rparr>)"
| rsv_fail: "rs_phase c k = RfReserved a \<Longrightarrow> rollback_read he i (rs_state c) = (Inr n, s') \<Longrightarrow>
    rsv_step he i c MoneyRefused (c\<lparr>rs_state := s', rs_phase := (rs_phase c)(k := RfFailing a n)\<rparr>)"
| rsv_back: "rs_phase c k = RfFailing a n \<Longrightarrow> rollback_write he now i a n (rs_state c) = (Inr q, s') \<Longrightarrow>
    rsv_step he i c (TakeBack n) (c\<lparr>rs_state := s', rs_phase := (rs_phase c)(k := RfRest),
      rs_stuck := (if is_ok q then rs_stuck c else rs_stuck c + a)\<rparr>)"
| rsv_other: "rsv_step he i c OtherWrite (c\<lparr>rs_state := s'\<rparr>)"

definition rsv_next :: "h_env \<Rightarrow> string \<Rightarrow> rsv \<Rightarrow> rsv \<Rightarrow> bool" where
  "rsv_next he i c c' \<longleftrightarrow> (\<exists>e. rsv_step he i c e c')"

text \<open>
  What the code does not guard: the write that creates the member finds an amount recorded meanwhile, a
  rollback finds another amount than it read, and another request changes one of the two amounts.
\<close>

definition recorded_amount :: "string \<Rightarrow> h_state \<Rightarrow> json option" where
  "recorded_amount i s = Option.bind (doc_of (bare_id ''orders'' i) (tbl s ''orders'')) (\<lambda>r. jget ''cumulativeRefundedCents'' (d_data r))"

definition undisturbed :: "string \<Rightarrow> rsv \<Rightarrow> rsv_event \<Rightarrow> rsv \<Rightarrow> bool" where
  "undisturbed i c e c' = (case e of
     CreateAmount \<Rightarrow> recorded_amount i (rs_state c) \<in> {None, Some JNull, Some (json_int 0)}
   | TakeBack n \<Rightarrow> recorded_amount i (rs_state c) = Some (json_int n)
   | OtherWrite \<Rightarrow> \<exists>m m'. order_row i (rs_state c) m \<and> order_row i (rs_state c') m' \<and> same_amounts m m'
   | _ \<Rightarrow> True)"

definition calm_next :: "h_env \<Rightarrow> string \<Rightarrow> rsv \<Rightarrow> rsv \<Rightarrow> bool" where
  "calm_next he i c c' \<longleftrightarrow> (\<exists>e. rsv_step he i c e c' \<and> undisturbed i c e c')"

definition resting :: "h_state \<Rightarrow> rsv" where
  "resting s = \<lparr>rs_state = s, rs_phase = (\<lambda>_. RfRest), rs_paid = 0, rs_stuck = 0\<rparr>"

text \<open>The amount a request has reserved, and their sum.\<close>

fun reserved_by :: "refunding \<Rightarrow> int" where
  "reserved_by (RfReserved a) = a"
| "reserved_by (RfFailing a n) = a"
| "reserved_by _ = 0"

definition reserved_sum :: "(nat \<Rightarrow> refunding) \<Rightarrow> int" where
  "reserved_sum ph = (\<Sum>k | ph k \<noteq> RfRest. reserved_by (ph k))"

lemma reserved_sum_over: "finite A \<Longrightarrow> {k. ph k \<noteq> RfRest} \<subseteq> A \<Longrightarrow> reserved_sum ph = (\<Sum>k \<in> A. reserved_by (ph k))"
  unfolding reserved_sum_def by (intro sum.mono_neutral_left) auto

lemma reserved_sum_upd:
  assumes "finite {k. ph k \<noteq> RfRest}"
  shows "reserved_sum (ph(k := p)) = reserved_sum ph - reserved_by (ph k) + reserved_by p"
proof -
  let ?A = "insert k {k. ph k \<noteq> RfRest}"
  have "reserved_sum (ph(k := p)) = (\<Sum>j \<in> ?A. reserved_by ((ph(k := p)) j))" using assms by (intro reserved_sum_over) auto
  also have "\<dots> = reserved_by p + (\<Sum>j \<in> ?A - {k}. reserved_by (ph j))"
    using assms by (subst sum.remove [of _ k]) (auto intro!: sum.cong)
  finally show ?thesis
    using assms reserved_sum_over [of ?A ph] by (simp add: sum.remove [of ?A k] subset_insertI)
qed

lemma finite_active_upd: "finite {j. ph j \<noteq> RfRest} \<Longrightarrow> finite {j. (ph(k := p)) j \<noteq> RfRest}"
  by (rule finite_subset [of _ "insert k {j. ph j \<noteq> RfRest}"]) auto

lemma reserved_le_sum:
  assumes "finite {k. ph k \<noteq> RfRest}" "\<forall>k. 0 \<le> reserved_by (ph k)"
  shows "0 \<le> reserved_sum ph" "reserved_by (ph k) \<le> reserved_sum ph"
proof -
  show "0 \<le> reserved_sum ph" unfolding reserved_sum_def using assms(2) by (intro sum_nonneg) auto
  show "reserved_by (ph k) \<le> reserved_sum ph"
    using assms member_le_sum [of k "{k. ph k \<noteq> RfRest}" "\<lambda>k. reserved_by (ph k)"]
    by (cases "ph k = RfRest") (auto simp: reserved_sum_def intro!: sum_nonneg)
qed

text \<open>What the reservation relies on: amounts are stored unchanged and printed in decimal.\<close>

definition amount_libs :: "pg_env \<Rightarrow> bool" where
  "amount_libs env \<longleftrightarrow> (\<forall>c. pg_to_jsonb env (cumulative_doc c) = Inr (cumulative_doc c)) \<and>
     (\<forall>c. pg_value_text env (json_int c) = int_to_string c)"

lemma jsonb_text_int: "amount_libs env \<Longrightarrow> jsonb_text env (json_int c) = Some (int_to_string c)"
  by (auto simp: amount_libs_def jsonb_text_def json_int_def split: json.splits)

lemma int_to_string_inj: "i64_range a \<Longrightarrow> i64_range b \<Longrightarrow> int_to_string a = int_to_string b \<longleftrightarrow> a = b"
  by (metis option.inject parse_i64_int_to_string)

lemma i64_field_int: "map_of m f = Some (json_int c) \<Longrightarrow> i64_range c \<Longrightarrow> i64_field (JObject m) f = c"
  by (simp add: i64_field_def jget_i64_def jget_def as_i64_json_int)

lemma json_int_not_null: "json_int c \<noteq> JNull"
  by (simp add: json_int_def)

definition rsv_amounts :: "string \<Rightarrow> int \<Rightarrow> int \<Rightarrow> h_state \<Rightarrow> bool" where
  "rsv_amounts i T c s \<longleftrightarrow> (\<exists>m. order_row i s m \<and> map_of m ''cumulativeRefundedCents'' = Some (json_int c) \<and>
     map_of m ''totalAmountCents'' = Some (json_int T))"

text \<open>The member may still be missing, which the code reads as zero.\<close>

definition rsv_missing :: "string \<Rightarrow> int \<Rightarrow> h_state \<Rightarrow> bool" where
  "rsv_missing i T s \<longleftrightarrow> (\<exists>m. order_row i s m \<and> map_of m ''cumulativeRefundedCents'' \<in> {None, Some JNull} \<and>
     map_of m ''totalAmountCents'' = Some (json_int T))"

definition amount_at :: "string \<Rightarrow> int \<Rightarrow> int \<Rightarrow> h_state \<Rightarrow> bool" where
  "amount_at i T c s \<longleftrightarrow> rsv_amounts i T c s \<or> c = 0 \<and> rsv_missing i T s"

fun phase_ok :: "int \<Rightarrow> refunding \<Rightarrow> bool" where
  "phase_ok T (RfChecked a order ready) \<longleftrightarrow> refund_amount a \<and> 0 \<le> cumulative_of order \<and> cumulative_of order + a \<le> T"
| "phase_ok T (RfReserved a) \<longleftrightarrow> refund_amount a"
| "phase_ok T (RfFailing a n) \<longleftrightarrow> refund_amount a"
| "phase_ok T RfRest \<longleftrightarrow> True"

definition rsv_total :: "rsv \<Rightarrow> int" where
  "rsv_total c = rs_paid c + rs_stuck c + reserved_sum (rs_phase c)"

definition rsv_inv :: "string \<Rightarrow> int \<Rightarrow> int \<Rightarrow> rsv \<Rightarrow> bool" where
  "rsv_inv i T c0 c \<longleftrightarrow> amount_at i T (c0 + rsv_total c) (rs_state c) \<and> 0 \<le> rs_paid c \<and> 0 \<le> rs_stuck c \<and> c0 + rsv_total c \<le> T \<and>
     finite {k. rs_phase c k \<noteq> RfRest} \<and> (\<forall>k. phase_ok T (rs_phase c k))"

lemma refund_range: "0 \<le> c0 \<Longrightarrow> T < 2 ^ 62 \<Longrightarrow> 0 \<le> g \<Longrightarrow> c0 + g \<le> T \<Longrightarrow> i64_range (c0 + g)"
  by (auto simp: i64_range_def)

lemma reserve_read_amounts:
  assumes "reserve_read he i s = (Inr order, s')" "rsv_amounts i T c s" "i64_range c" "i64_range T"
  shows "cumulative_of order = c \<and> i64_field order ''totalAmountCents'' = T \<and> \<not> cumulative_missing order \<and>
    tables (hs_db s') = tables (hs_db s)"
proof -
  obtain d where get: "get_document (he_pg he) ''orders'' i (hs_db s) = (Inr order, d)" and d: "s' = s\<lparr>hs_db := d\<rparr>"
    using assms(1) unfolding reserve_read_def hdb_eq amap_err_eq by auto
  from get_document_cases [OF get] obtain row where row: "tables d = tables (hs_db s)"
      "doc_of (bare_id ''orders'' i) (tbl s ''orders'') = Some row" "order = inject_document_metadata (he_pg he) row" by blast
  from assms(2) row(2) obtain m where m: "d_data row = JObject m"
      "map_of m ''cumulativeRefundedCents'' = Some (json_int c)" "map_of m ''totalAmountCents'' = Some (json_int T)"
    by (auto simp: rsv_amounts_def order_row_def)
  have "jget ''cumulativeRefundedCents'' order = Some (json_int c)" "jget ''totalAmountCents'' order = Some (json_int T)"
    using m by (simp_all add: row(3) jget_inject jget_def [of _ "JObject m"])
  then show ?thesis
    using d row(1) assms(3,4)
    by (simp add: cumulative_of_def i64_field_def jget_i64_def as_i64_json_int cumulative_missing_def json_int_not_null)
qed

lemma reserve_read_missing:
  assumes "reserve_read he i s = (Inr order, s')" "rsv_missing i T s" "i64_range T"
  shows "cumulative_of order = 0 \<and> i64_field order ''totalAmountCents'' = T \<and> tables (hs_db s') = tables (hs_db s)"
proof -
  obtain d where get: "get_document (he_pg he) ''orders'' i (hs_db s) = (Inr order, d)" and d: "s' = s\<lparr>hs_db := d\<rparr>"
    using assms(1) unfolding reserve_read_def hdb_eq amap_err_eq by auto
  from get_document_cases [OF get] obtain row where row: "tables d = tables (hs_db s)"
      "doc_of (bare_id ''orders'' i) (tbl s ''orders'') = Some row" "order = inject_document_metadata (he_pg he) row" by blast
  from assms(2) row(2) obtain m where m: "d_data row = JObject m"
      "map_of m ''cumulativeRefundedCents'' \<in> {None, Some JNull}" "map_of m ''totalAmountCents'' = Some (json_int T)"
    by (auto simp: rsv_missing_def order_row_def)
  have "jget ''cumulativeRefundedCents'' order \<in> {None, Some JNull}" "jget ''totalAmountCents'' order = Some (json_int T)"
    using m by (simp_all add: row(3) jget_inject jget_def [of _ "JObject m"])
  then show ?thesis
    using d row(1) assms(3) by (auto simp: cumulative_of_def i64_field_def jget_i64_def as_i64_json_int)
qed

lemma reserve_read_at:
  assumes "reserve_read he i s = (Inr order, s')" "amount_at i T c s" "i64_range c" "i64_range T"
  shows "cumulative_of order = c \<and> i64_field order ''totalAmountCents'' = T \<and> tables (hs_db s') = tables (hs_db s)"
  using assms(2) reserve_read_amounts [OF assms(1) _ assms(3,4)] reserve_read_missing [OF assms(1) _ assms(4)]
  by (auto simp: amount_at_def)

lemma rsv_amounts_frame: "tables (hs_db s') = tables (hs_db s) \<Longrightarrow> rsv_amounts i T c s' = rsv_amounts i T c s"
  by (simp add: rsv_amounts_def order_row_def)

lemma amount_at_frame: "tables (hs_db s') = tables (hs_db s) \<Longrightarrow> amount_at i T c s' = amount_at i T c s"
  by (simp add: amount_at_def rsv_amounts_def rsv_missing_def order_row_def)

lemma distinct_ids_map: "(\<And>r. d_id (f r) = d_id r) \<Longrightarrow> distinct (map d_id (map f rs)) = distinct (map d_id rs)"
  by (simp add: comp_def)

lemma reserve_cas_amounts:
  assumes "reserve_cas he now i e n s = (r, s')" "amount_libs (he_pg he)" "rsv_amounts i T c s" "i64_range c" "i64_range e"
  shows "case r of Inr (Some _) \<Rightarrow> c = e \<and> rsv_amounts i T n s' | _ \<Rightarrow> rsv_amounts i T c s'"
proof -
  let ?P = "cas_matches (he_pg he) (bare_id ''orders'' i) ''cumulativeRefundedCents'' (json_int e)"
  let ?f = "\<lambda>r. if ?P r then merged now (cumulative_doc n) r else r"
  obtain q d where q: "update_document_cas (he_pg he) now ''orders'' i (cumulative_doc n) ''cumulativeRefundedCents'' (json_int e) (hs_db s)
      = (q, d)" and s': "s' = s\<lparr>hs_db := d\<rparr>" and r: "r = map_err Fail (map_err (db_failed ''Failed to reserve refund: '') q)"
    using assms(1) unfolding reserve_cas_def hdb_eq amap_err_eq by auto
  obtain row m where row: "doc_of (bare_id ''orders'' i) (tbl s ''orders'') = Some row" "d_data row = JObject m"
      "map_of m ''cumulativeRefundedCents'' = Some (json_int c)" "map_of m ''totalAmountCents'' = Some (json_int T)"
      "distinct (map d_id (tbl s ''orders''))"
    using assms(3) by (auto simp: rsv_amounts_def order_row_def)
  have match: "?P x \<longleftrightarrow> x = row \<and> c = e" if "x \<in> set (tbl s ''orders'')" for x
  proof -
    have "x = row \<longleftrightarrow> d_id x = bare_id ''orders'' i"
      using doc_of_id [OF row(1)] doc_of_distinct [OF row(5) that] row(1) by (metis option.inject)
    moreover have "?P row \<longleftrightarrow> c = e"
      using doc_of_id [OF row(1)] row(2,3) int_to_string_inj [OF assms(4,5)]
      by (simp add: cas_matches_def member_text_def jget_def jsonb_text_int [OF assms(2)] sql_eq_def)
    ultimately show ?thesis by (auto simp: cas_matches_def)
  qed
  show ?thesis
  proof (cases q)
    case (Inl x)
    then show ?thesis using update_document_cas_cases [OF q] s' r assms(3) by (simp add: rsv_amounts_def order_row_def)
  next
    case (Inr v)
    from update_document_cas_cases [OF q] Inr assms(2) have tab: "tables d = (tables (hs_db s))(''orders'' := map ?f (tbl s ''orders''))"
      and none: "v = None \<longleftrightarrow> (\<forall>x \<in> set (tbl s ''orders''). \<not> ?P x)"
      by (auto simp: amount_libs_def)
    show ?thesis
    proof (cases v)
      case None
      then have "map ?f (tbl s ''orders'') = tbl s ''orders''" using none by (intro map_idI) auto
      then show ?thesis using None Inr r s' tab assms(3) by (simp add: rsv_amounts_def order_row_def)
    next
      case (Some y)
      then obtain x where "x \<in> set (tbl s ''orders'')" "?P x" using none by blast
      then have ce: "c = e" "?P row" using match by auto
      have "doc_of (bare_id ''orders'' i) (map ?f (tbl s ''orders'')) = Some (merged now (cumulative_doc n) row)"
        using row(1) ce(2) by (subst doc_of_map) auto
      moreover have "distinct (map d_id (map ?f (tbl s ''orders'')))"
        using row(5) by (subst distinct_ids_map) auto
      moreover have "jsonb_concat (JObject m) (cumulative_doc n) = JObject (obj_insert ''cumulativeRefundedCents'' (json_int n) m)"
        by (simp add: cumulative_doc_def json_obj_def obj_merge_def)
      ultimately have "rsv_amounts i T n s'"
        using row(2,4) tab s' by (auto simp: rsv_amounts_def order_row_def simp del: map_map)
      then show ?thesis using ce(1) Some Inr r by simp
    qed
  qed
qed

lemma reserve_cas_missing:
  assumes "reserve_cas he now i e n s = (r, s')" "rsv_missing i T s"
  shows "(\<forall>v. r \<noteq> Inr (Some v)) \<and> rsv_missing i T s'"
proof -
  let ?P = "cas_matches (he_pg he) (bare_id ''orders'' i) ''cumulativeRefundedCents'' (json_int e)"
  obtain q d where q: "update_document_cas (he_pg he) now ''orders'' i (cumulative_doc n) ''cumulativeRefundedCents'' (json_int e) (hs_db s)
      = (q, d)" and s': "s' = s\<lparr>hs_db := d\<rparr>" and r: "r = map_err Fail (map_err (db_failed ''Failed to reserve refund: '') q)"
    using assms(1) unfolding reserve_cas_def hdb_eq amap_err_eq by auto
  obtain row m where row: "doc_of (bare_id ''orders'' i) (tbl s ''orders'') = Some row" "d_data row = JObject m"
      "map_of m ''cumulativeRefundedCents'' \<in> {None, Some JNull}" "distinct (map d_id (tbl s ''orders''))"
    using assms(2) by (auto simp: rsv_missing_def order_row_def)
  have no: "\<not> ?P x" if "x \<in> set (tbl s ''orders'')" for x
  proof
    assume P: "?P x"
    then have "x = row" using doc_of_distinct [OF row(4) that] row(1) by (simp add: cas_matches_def)
    then show False using P row(2,3) by (auto simp: cas_matches_def member_text_def jget_def jsonb_text_def sql_eq_def)
  qed
  have "tables d ''orders'' = tbl s ''orders'' \<and> (\<forall>v. q \<noteq> Inr (Some v))"
    using update_document_cas_cases [OF q] no by (cases q) (auto intro!: map_idI)
  then show ?thesis using r s' assms(2) by (simp add: rsv_missing_def order_row_def)
qed

lemma reserve_cas_at:
  assumes "reserve_cas he now i e n s = (r, s')" "amount_libs (he_pg he)" "amount_at i T c s" "i64_range c" "i64_range e"
  shows "case r of Inr (Some _) \<Rightarrow> c = e \<and> amount_at i T n s' | _ \<Rightarrow> amount_at i T c s'"
  using assms(3) reserve_cas_amounts [OF assms(1,2) _ assms(4,5)] reserve_cas_missing [OF assms(1)]
  by (auto simp: amount_at_def split: sum.splits option.splits)

lemma put_cumulative:
  assumes "update_document (he_pg he) now ''orders'' i (cumulative_doc n) (hs_db s) = (q, d)" "amount_libs (he_pg he)" "order_row i s m"
  shows "case q of Inl _ \<Rightarrow> tables d = tables (hs_db s)
    | Inr _ \<Rightarrow> order_row i (s\<lparr>hs_db := d\<rparr>) (obj_insert ''cumulativeRefundedCents'' (json_int n) m)"
proof (cases q)
  case (Inr v)
  obtain row where row: "doc_of (bare_id ''orders'' i) (tbl s ''orders'') = Some row" "d_data row = JObject m"
      "distinct (map d_id (tbl s ''orders''))"
    using assms(3) by (auto simp: order_row_def)
  let ?rs = "map (\<lambda>r. if d_id r = bare_id ''orders'' i then merged now (cumulative_doc n) r else r) (tbl s ''orders'')"
  have tab: "tables d = (tables (hs_db s))(''orders'' := ?rs)"
    using update_document_cases [OF assms(1)] Inr assms(2) by (auto simp: amount_libs_def)
  have "doc_of (bare_id ''orders'' i) ?rs = Some (merged now (cumulative_doc n) row)" using row(1) by (simp add: doc_of_merge)
  moreover have "distinct (map d_id ?rs)" using row(3) by (subst distinct_ids_map) auto
  moreover have "jsonb_concat (JObject m) (cumulative_doc n) = JObject (obj_insert ''cumulativeRefundedCents'' (json_int n) m)"
    by (simp add: cumulative_doc_def json_obj_def obj_merge_def)
  ultimately show ?thesis using Inr tab row(2) by (simp add: order_row_def del: map_map)
qed (use update_document_cases [OF assms(1)] in auto)

lemma reserve_init_at:
  assumes "reserve_init he now i s = (r, s')" "amount_libs (he_pg he)" "amount_at i T 0 s"
  shows "amount_at i T 0 s'"
proof -
  obtain q d where q: "update_document (he_pg he) now ''orders'' i (cumulative_doc 0) (hs_db s) = (q, d)" "s' = s\<lparr>hs_db := d\<rparr>"
    using assms(1) unfolding reserve_init_def by (auto elim!: abind_cases simp: hdb_eq atry_eq)
  obtain m where "order_row i s m" "map_of m ''totalAmountCents'' = Some (json_int T)"
    using assms(3) by (auto simp: amount_at_def rsv_amounts_def rsv_missing_def)
  then show ?thesis
    using put_cumulative [OF q(1) assms(2)] q(2) assms(3)
    by (cases q) (auto simp: amount_at_def rsv_amounts_def rsv_missing_def order_row_def)
qed

lemma rollback_write_amounts:
  assumes "rollback_write he now i a n s = (Inr q, s')" "amount_libs (he_pg he)" "rsv_amounts i T c s"
  shows "if is_ok q then rsv_amounts i T (max (wrap_i64 (n - a)) 0) s' else rsv_amounts i T c s'"
proof -
  obtain d where q: "update_document (he_pg he) now ''orders'' i (cumulative_doc (max (wrap_i64 (n - a)) 0)) (hs_db s) = (q, d)" "s' = s\<lparr>hs_db := d\<rparr>"
    using assms(1) unfolding rollback_write_def by (auto simp: hdb_eq atry_eq)
  obtain m where "order_row i s m" "map_of m ''totalAmountCents'' = Some (json_int T)" using assms(3) by (auto simp: rsv_amounts_def)
  then show ?thesis
    using put_cumulative [OF q(1) assms(2)] q(2) assms(3)
    by (cases q) (auto simp: rsv_amounts_def order_row_def is_ok_def)
qed

lemma rollback_read_keeps: "rollback_read he i s = (r, s') \<Longrightarrow> tables (hs_db s') = tables (hs_db s)"
  unfolding rollback_read_def by (auto elim!: abind_cases simp: hdb_eq atry_eq dest!: get_document_cases)

lemma recorded_int: "rsv_amounts i T c s \<Longrightarrow> recorded_amount i s = Some (json_int c)"
  by (auto simp: rsv_amounts_def order_row_def recorded_amount_def jget_def)

lemma recorded_missing: "rsv_missing i T s \<Longrightarrow> recorded_amount i s \<in> {None, Some JNull}"
  by (auto simp: rsv_missing_def order_row_def recorded_amount_def jget_def)

lemma json_int_inj [simp]: "json_int a = json_int b \<longleftrightarrow> a = b"
  by (auto simp: json_int_def)

text \<open>A step of one request changes the invariant at its phase and at the stored amount only.\<close>

lemma rsv_inv_step:
  assumes "rsv_inv i T c0 c" "phase_ok T p"
    and "amount_at i T (c0 + paid + stuck + reserved_sum (rs_phase c) - reserved_by (rs_phase c k) + reserved_by p) s'"
    and "0 \<le> paid" "0 \<le> stuck" "c0 + paid + stuck + reserved_sum (rs_phase c) - reserved_by (rs_phase c k) + reserved_by p \<le> T"
  shows "rsv_inv i T c0 \<lparr>rs_state = s', rs_phase = (rs_phase c)(k := p), rs_paid = paid, rs_stuck = stuck\<rparr>"
proof -
  have fin: "finite {k. rs_phase c k \<noteq> RfRest}" using assms(1) by (simp add: rsv_inv_def)
  show ?thesis
    using assms finite_active_upd [OF fin, of k p] unfolding rsv_inv_def rsv_total_def
    by (simp add: reserved_sum_upd [OF fin] algebra_simps del: fun_upd_apply) (simp add: fun_upd_def)
qed

lemma rsv_eta:
  "c\<lparr>rs_state := s, rs_phase := ph\<rparr> = \<lparr>rs_state = s, rs_phase = ph, rs_paid = rs_paid c, rs_stuck = rs_stuck c\<rparr>"
  "c\<lparr>rs_phase := ph, rs_paid := g\<rparr> = \<lparr>rs_state = rs_state c, rs_phase = ph, rs_paid = g, rs_stuck = rs_stuck c\<rparr>"
  "c\<lparr>rs_state := s, rs_phase := ph, rs_stuck := g\<rparr> = \<lparr>rs_state = s, rs_phase = ph, rs_paid = rs_paid c, rs_stuck = g\<rparr>"
  by (cases c; simp)+

lemma calm_next_inv:
  assumes "rsv_step he i c e c'" "undisturbed i c e c'" "amount_libs (he_pg he)" "0 \<le> c0" "T < 2 ^ 62" "rsv_inv i T c0 c"
  shows "rsv_inv i T c0 c'"
proof -
  let ?n = "c0 + rsv_total c"
  note inv = assms(6) [unfolded rsv_inv_def]
  have nonneg: "\<forall>k. 0 \<le> reserved_by (rs_phase c k)"
  proof
    fix k show "0 \<le> reserved_by (rs_phase c k)"
      using inv by (cases "rs_phase c k") (auto simp: refund_amount_def dest: spec [of _ k])
  qed
  note sums = reserved_le_sum [OF _ nonneg]
  have tot: "0 \<le> reserved_sum (rs_phase c)" "\<And>k. reserved_by (rs_phase c k) \<le> reserved_sum (rs_phase c)" using inv sums by blast+
  have n: "0 \<le> ?n" "?n \<le> T" "i64_range ?n" "i64_range T"
    using inv tot assms(4,5) by (auto simp: rsv_total_def i64_range_def)
  note at = conjunct1 [OF inv]
  have phase: "phase_ok T (rs_phase c k)" for k using inv by blast
  note next_inv = rsv_inv_step [OF assms(6), of _ "rs_paid c" "rs_stuck c"]
  from assms(1) show ?thesis
  proof cases
    case (rsv_read k a order s' ready)
    note rd = reserve_read_at [OF rsv_read(5) at n(3,4)]
    have "i64_range (cumulative_of order + a)" using rd n rsv_read(4) assms(5) by (auto simp: refund_amount_def i64_range_def)
    then have "phase_ok T (RfChecked a order ready)" using rsv_read(4,6) rd n by simp
    then show ?thesis
      using next_inv [of "RfChecked a order ready" k s'] rd rsv_read(2,3) inv amount_at_frame [of s' "rs_state c"]
      by (simp add: rsv_eta rsv_total_def algebra_simps)
  next
    case (rsv_init k a order now r s')
    have "?n = 0"
      using at assms(2) recorded_int [of i T ?n "rs_state c"] rsv_init(1) by (auto simp: amount_at_def undisturbed_def json_int_not_null json_int_not_null [symmetric])
    then show ?thesis
      using next_inv [of "RfChecked a order True" k s'] phase [of k] rsv_init(2,3) inv reserve_init_at [OF rsv_init(4) assms(3), of T]
      by (simp add: rsv_eta rsv_total_def algebra_simps)
  next
    case (rsv_swap k a order now r s')
    have p: "refund_amount a" "0 \<le> cumulative_of order" "cumulative_of order + a \<le> T" using phase [of k] rsv_swap(3) by auto
    have ranges: "i64_range (cumulative_of order)" "i64_range (cumulative_of order + a)"
      using p assms(5) by (auto simp: refund_amount_def i64_range_def)
    note swap = reserve_cas_at [OF rsv_swap(4) assms(3) at n(3) ranges(1)]
    show ?thesis
    proof (cases "\<exists>v. r = Inr (Some v)")
      case True
      then have "?n = cumulative_of order" "amount_at i T (?n + a) s'" using swap ranges(2) by auto
      then show ?thesis
        using next_inv [of "RfReserved a" k s'] p rsv_swap(2,3) inv True by (auto simp: rsv_eta rsv_total_def algebra_simps)
    next
      case False
      then have "amount_at i T ?n s'" "(case r of Inr (Some _) \<Rightarrow> RfReserved a | _ \<Rightarrow> RfRest) = RfRest"
        using swap by (auto split: sum.splits option.splits)
      then show ?thesis using next_inv [of RfRest k s'] rsv_swap(2,3) inv by (simp add: rsv_eta rsv_total_def algebra_simps)
    qed
  next
    case (rsv_pay k a)
    then show ?thesis
      using rsv_inv_step [OF assms(6), of RfRest "rs_paid c + a" "rs_stuck c" k "rs_state c"] phase [of k] inv
      by (simp add: rsv_eta rsv_total_def algebra_simps refund_amount_def)
  next
    case (rsv_fail k a m s')
    then show ?thesis
      using next_inv [of "RfFailing a m" k s'] phase [of k] inv amount_at_frame [OF rollback_read_keeps [OF rsv_fail(4)]]
      by (simp add: rsv_eta rsv_total_def algebra_simps)
  next
    case (rsv_back k a m now q s')
    have am: "rsv_amounts i T ?n (rs_state c)" "m = ?n"
      using at assms(2) recorded_int [of i T ?n "rs_state c"] recorded_missing [of i T "rs_state c"] rsv_back(1)
      by (auto simp: amount_at_def undisturbed_def json_int_not_null json_int_not_null [symmetric])
    have a: "0 \<le> a" "a \<le> reserved_sum (rs_phase c)" using phase [of k] tot(2) [of k] rsv_back(3) by (auto simp: refund_amount_def)
    have le: "a \<le> ?n" using a inv assms(4) by (simp add: rsv_total_def)
    then have eq: "max (wrap_i64 (m - a)) 0 = ?n - a" using am(2) n a by (subst wrap_i64_id) (auto simp: i64_range_def)
    have "if is_ok q then rsv_amounts i T (?n - a) s' else rsv_amounts i T ?n s'"
      using rollback_write_amounts [OF rsv_back(4) assms(3) am(1)] unfolding eq .
    then show ?thesis
      using rsv_inv_step [OF assms(6), of RfRest "rs_paid c" "if is_ok q then rs_stuck c else rs_stuck c + a" k s'] rsv_back(2,3) inv a n
      by (auto simp: rsv_eta amount_at_def rsv_total_def algebra_simps split: if_splits)
  next
    case (rsv_other s')
    then obtain m m' where "order_row i (rs_state c) m" "order_row i s' m'" "same_amounts m m'"
      using assms(2) by (auto simp: undisturbed_def)
    then have "amount_at i T ?n s'"
      using at by (auto simp: amount_at_def rsv_amounts_def rsv_missing_def same_amounts_def order_row_def)
    then show ?thesis using inv rsv_other by (simp add: rsv_inv_def rsv_total_def)
  qed
qed

text \<open>
  C17. Refunds stay within the order's total. Any number of refund requests may run their read, check,
  conditional write, provider call and rollback in any interleaving, with faults of the database,
  provided that no request creates the recorded amount when it is there and not zero, that a
  rollback writes over the amount it has read, and that other requests leave the recorded and the
  total amount alone: then the recorded amount has grown by exactly what the provider has returned,
  what is reserved and what failed rollbacks have left behind, and their sum never exceeds the total.
\<close>

theorem reserved_refunds_stay_within_total:
  assumes "(calm_next he i)\<^sup>*\<^sup>* (resting s) c"
    and "amount_libs (he_pg he)" and "amount_at i T c0 s" and "0 \<le> c0" and "c0 \<le> T" and "T < 2 ^ 62"
  shows "amount_at i T (c0 + rs_paid c + rs_stuck c + reserved_sum (rs_phase c)) (rs_state c) \<and>
    0 \<le> rs_paid c \<and> c0 + rs_paid c + rs_stuck c + reserved_sum (rs_phase c) \<le> T \<and> c0 + rs_paid c \<le> T"
proof -
  have inv: "rsv_inv i T c0 c"
    using assms(1)
  proof (induction rule: rtranclp_induct)
    case base
    then show ?case using assms(3-5) by (simp add: rsv_inv_def rsv_total_def reserved_sum_def resting_def)
  next
    case (step y z)
    then show ?case unfolding calm_next_def using calm_next_inv [OF _ _ assms(2,4,6)] by blast
  qed
  have "0 \<le> reserved_by (rs_phase c k)" for k
    using inv unfolding rsv_inv_def by (cases "rs_phase c k") (auto simp: refund_amount_def dest: spec [of _ k])
  then have "0 \<le> reserved_sum (rs_phase c)" using inv reserved_le_sum(1) by (simp add: rsv_inv_def)
  then show ?thesis using inv by (simp add: rsv_inv_def rsv_total_def add.assoc)
qed

lemma reserve_init_calm:
  assumes "amount_libs (he_pg he)" "no_faults (hs_db s)" "order_row i s m" "map_of m ''totalAmountCents'' = Some (json_int T)"
  shows "\<exists>s'. reserve_init he now i s = (Inr (), s') \<and> no_faults (hs_db s') \<and> rsv_amounts i T 0 s'"
proof -
  have calm: "pg_calm ''orders'' (hs_db s)" using assms(2) by (simp add: pg_calm_def no_faults_def)
  have enc: "pg_to_jsonb (he_pg he) (cumulative_doc 0) = Inr (cumulative_doc 0)" using assms(1) by (simp add: amount_libs_def)
  obtain row where row: "doc_of (bare_id ''orders'' i) (tbl s ''orders'') = Some row" "d_data row = JObject m"
      "distinct (map d_id (tbl s ''orders''))"
    using assms(3) by (auto simp: order_row_def)
  let ?rs = "map (\<lambda>r. if d_id r = bare_id ''orders'' i then merged now (cumulative_doc 0) r else r) (tbl s ''orders'')"
  let ?s = "s\<lparr>hs_db := (hs_db s)\<lparr>tables := (tables (hs_db s))(''orders'' := ?rs)\<rparr>\<rparr>"
  have "reserve_init he now i s = (Inr (), ?s)"
    by (simp add: reserve_init_def abind_def hdb_def atry_def update_document_calm [OF calm enc row(1)])
  moreover have "doc_of (bare_id ''orders'' i) ?rs = Some (merged now (cumulative_doc 0) row)"
    using row(1) by (simp add: doc_of_merge)
  moreover have "distinct (map d_id ?rs)" using row(3) by (subst distinct_ids_map) auto
  moreover have "jsonb_concat (JObject m) (cumulative_doc 0) = JObject (obj_insert ''cumulativeRefundedCents'' (json_int 0) m)"
    by (simp add: cumulative_doc_def json_obj_def obj_merge_def)
  ultimately show ?thesis
    using assms(2,4) row(2) by (intro exI [of _ ?s]) (simp add: rsv_amounts_def order_row_def no_faults_def del: map_map)
qed

lemma reserve_cas_calm:
  assumes "amount_libs (he_pg he)" "no_faults (hs_db s)" "rsv_amounts i T c s" "i64_range c"
  shows "\<exists>v s'. reserve_cas he now i c n s = (Inr (Some v), s') \<and> no_faults (hs_db s') \<and> rsv_amounts i T n s'"
proof -
  let ?c = "update_document_cas (he_pg he) now ''orders'' i (cumulative_doc n) ''cumulativeRefundedCents'' (json_int c) (hs_db s)"
  have calm: "pg_calm ''orders'' (hs_db s)" using assms(2) by (simp add: pg_calm_def no_faults_def)
  have enc: "pg_to_jsonb (he_pg he) (cumulative_doc n) = Inr (cumulative_doc n)" using assms(1) by (simp add: amount_libs_def)
  obtain m row where row: "doc_of (bare_id ''orders'' i) (tbl s ''orders'') = Some row" "d_data row = JObject m"
      "map_of m ''cumulativeRefundedCents'' = Some (json_int c)"
    using assms(3) by (auto simp: rsv_amounts_def order_row_def)
  have "cas_matches (he_pg he) (bare_id ''orders'' i) ''cumulativeRefundedCents'' (json_int c) row \<and> row \<in> set (tbl s ''orders'')"
    using doc_of_id [OF row(1)] row(2,3)
    by (simp add: cas_matches_def member_text_def jget_def jsonb_text_int [OF assms(1)] sql_eq_def)
  then have "fst ?c \<noteq> Inr None" "is_ok (fst ?c)" using update_document_cas_calm(1,2) [OF calm enc] by blast+
  then obtain v d where c: "?c = (Inr (Some v), d)" by (cases "fst ?c"; cases ?c) auto
  have "no_faults d" using assms(2) update_document_cas_calm(3) [OF calm enc, of now i "''cumulativeRefundedCents''" "json_int c"] c
    by (simp add: no_faults_def)
  moreover have cas: "reserve_cas he now i c n s = (Inr (Some v), s\<lparr>hs_db := d\<rparr>)"
    by (simp add: reserve_cas_def hdb_def amap_err_def c)
  ultimately show ?thesis using reserve_cas_amounts [OF cas assms(1,3,4,4)] by auto
qed

text \<open>Two requests at work in a configuration, the steps they take, and what the provider has returned.\<close>

definition two_at_work :: "h_state \<Rightarrow> refunding \<Rightarrow> refunding \<Rightarrow> int \<Rightarrow> rsv" where
  "two_at_work s p q paid = \<lparr>rs_state = s, rs_phase = (\<lambda>_. RfRest)(0 := p, 2 := q), rs_paid = paid, rs_stuck = 0\<rparr>"

lemma two_start: "two_at_work s RfRest RfRest 0 = resting s"
  by (auto simp: two_at_work_def resting_def)

lemma two_upd:
  "(two_at_work s p q g)\<lparr>rs_state := s', rs_phase := (rs_phase (two_at_work s p q g))(0 := p')\<rparr> = two_at_work s' p' q g"
  "(two_at_work s p q g)\<lparr>rs_state := s', rs_phase := (rs_phase (two_at_work s p q g))(2 := q')\<rparr> = two_at_work s' p q' g"
  "(two_at_work s p q g)\<lparr>rs_phase := (rs_phase (two_at_work s p q g))(0 := p'), rs_paid := g'\<rparr> = two_at_work s p' q g'"
  "(two_at_work s p q g)\<lparr>rs_phase := (rs_phase (two_at_work s p q g))(2 := q'), rs_paid := g'\<rparr> = two_at_work s p q' g'"
  "(two_at_work s p q g)\<lparr>rs_state := s', rs_phase := (rs_phase (two_at_work s p q g))(0 := p'), rs_stuck := 0\<rparr> = two_at_work s' p' q g"
  "(two_at_work s p q g)\<lparr>rs_stuck := 0\<rparr> = two_at_work s p q g"
  by (auto simp: two_at_work_def)

lemma two_fields:
  "rs_state (two_at_work s p q g) = s" "rs_phase (two_at_work s p q g) 0 = p" "rs_phase (two_at_work s p q g) 2 = q"
  "rs_paid (two_at_work s p q g) = g" "rs_stuck (two_at_work s p q g) = 0"
  by (simp_all add: two_at_work_def)

lemma first_steps:
  assumes "refund_amount a"
  shows "reserve_read he i s = (Inr order, s') \<Longrightarrow> wrap_i64 (cumulative_of order + a) \<le> i64_field order ''totalAmountCents'' \<Longrightarrow>
      ready = (\<not> (cumulative_of order = 0 \<and> cumulative_missing order)) \<Longrightarrow>
      rsv_next he i (two_at_work s RfRest q g) (two_at_work s' (RfChecked a order ready) q g)"
    and "reserve_init he now i s = (r, s') \<Longrightarrow>
      rsv_next he i (two_at_work s (RfChecked a order False) q g) (two_at_work s' (RfChecked a order True) q g)"
    and "reserve_cas he now i (cumulative_of order) (wrap_i64 (cumulative_of order + a)) s = (Inr (Some v), s') \<Longrightarrow>
      rsv_next he i (two_at_work s (RfChecked a order True) q g) (two_at_work s' (RfReserved a) q g)"
    and "rsv_next he i (two_at_work s (RfReserved a) q g) (two_at_work s RfRest q (g + a))"
    and "rollback_read he i s = (Inr n, s') \<Longrightarrow>
      rsv_next he i (two_at_work s (RfReserved a) q g) (two_at_work s' (RfFailing a n) q g)"
    and "rollback_write he now i a n s = (Inr (Inr w), s') \<Longrightarrow>
      rsv_next he i (two_at_work s (RfFailing a n) q g) (two_at_work s' RfRest q g)"
  using assms rsv_read [of "two_at_work s RfRest q g" 0 a he i order s' ready]
    rsv_init [of "two_at_work s (RfChecked a order False) q g" 0 a order he now i r s']
    rsv_swap [of "two_at_work s (RfChecked a order True) q g" 0 a order he now i "Inr (Some v)" s']
    rsv_pay [of "two_at_work s (RfReserved a) q g" 0 a he i]
    rsv_fail [of "two_at_work s (RfReserved a) q g" 0 a he i n s']
    rsv_back [of "two_at_work s (RfFailing a n) q g" 0 a n he now i "Inr w" s']
  unfolding rsv_next_def two_fields by (auto simp: two_upd is_ok_def simp del: fun_upd_apply)

lemma second_steps:
  assumes "refund_amount a"
  shows "reserve_read he i s = (Inr order, s') \<Longrightarrow> wrap_i64 (cumulative_of order + a) \<le> i64_field order ''totalAmountCents'' \<Longrightarrow>
      ready = (\<not> (cumulative_of order = 0 \<and> cumulative_missing order)) \<Longrightarrow>
      rsv_next he i (two_at_work s p RfRest g) (two_at_work s' p (RfChecked a order ready) g)"
    and "reserve_init he now i s = (r, s') \<Longrightarrow>
      rsv_next he i (two_at_work s p (RfChecked a order False) g) (two_at_work s' p (RfChecked a order True) g)"
    and "reserve_cas he now i (cumulative_of order) (wrap_i64 (cumulative_of order + a)) s = (Inr (Some v), s') \<Longrightarrow>
      rsv_next he i (two_at_work s p (RfChecked a order True) g) (two_at_work s' p (RfReserved a) g)"
    and "rsv_next he i (two_at_work s p (RfReserved a) g) (two_at_work s p RfRest (g + a))"
  using assms rsv_read [of "two_at_work s p RfRest g" 2 a he i order s' ready]
    rsv_init [of "two_at_work s p (RfChecked a order False) g" 2 a order he now i r s']
    rsv_swap [of "two_at_work s p (RfChecked a order True) g" 2 a order he now i "Inr (Some v)" s']
    rsv_pay [of "two_at_work s p (RfReserved a) g" 2 a he i]
  unfolding rsv_next_def two_fields by (auto simp: two_upd simp del: fun_upd_apply)

text \<open>
  The first refunds of an order are not safe. For an order that was never refunded two requests
  may both find the recorded amount missing; the second one then creates it again after the first
  has reserved, which resets it to zero, and both are granted: together they exceed the total.
\<close>

theorem first_refunds_can_exceed_total:
  assumes "amount_libs (he_pg he)" and "no_faults (hs_db s)" and "order_row i s m"
    and "map_of m ''cumulativeRefundedCents'' = None" and "map_of m ''totalAmountCents'' = Some (json_int T)"
    and "refund_amount a" and "a \<le> T" and "T < 2 * a" and "T < 2 ^ 62"
  shows "\<exists>c. (rsv_next he i)\<^sup>*\<^sup>* (resting s) c \<and> T < rs_paid c"
proof -
  obtain row where row: "doc_of (bare_id ''orders'' i) (tbl s ''orders'') = Some row" "d_data row = JObject m"
    using assms(3) by (auto simp: order_row_def)
  define order where "order = inject_document_metadata (he_pg he) row"
  have read: "reserve_read he i s = (Inr order, s)"
    using assms(2) row(1) by (simp add: reserve_read_def hdb_def amap_err_def get_document_calm pg_calm_def no_faults_def order_def)
  have ja: "jget ''cumulativeRefundedCents'' order = None" "jget ''totalAmountCents'' order = Some (json_int T)"
    using row(2) assms(4,5) by (simp_all add: order_def jget_inject jget_def [of _ "JObject m"])
  have T: "i64_range T" "i64_range a" using assms(6-9) by (auto simp: refund_amount_def i64_range_def)
  have o: "cumulative_of order = 0" "cumulative_missing order" "i64_field order ''totalAmountCents'' = T"
    using ja T by (simp_all add: cumulative_of_def cumulative_missing_def i64_field_def jget_i64_def as_i64_json_int)
  have room: "wrap_i64 (cumulative_of order + a) \<le> i64_field order ''totalAmountCents''" "wrap_i64 (cumulative_of order + a) = a"
    using o T(2) assms(7) by simp_all
  have unready: "False = (\<not> (cumulative_of order = 0 \<and> cumulative_missing order))" using o by simp
  have zero: "i64_range 0" by (simp add: i64_range_def)
  obtain s1 where s1: "reserve_init he 0 i s = (Inr (), s1)" "no_faults (hs_db s1)" "rsv_amounts i T 0 s1"
    using reserve_init_calm [OF assms(1-3,5)] by blast
  obtain v2 s2 where s2: "reserve_cas he 0 i 0 a s1 = (Inr (Some v2), s2)" "no_faults (hs_db s2)" "rsv_amounts i T a s2"
    using reserve_cas_calm [OF assms(1) s1(2,3) zero] by blast
  obtain m2 where m2: "order_row i s2 m2" "map_of m2 ''totalAmountCents'' = Some (json_int T)"
    using s2(3) unfolding rsv_amounts_def by blast
  obtain s3 where s3: "reserve_init he 0 i s2 = (Inr (), s3)" "no_faults (hs_db s3)" "rsv_amounts i T 0 s3"
    using reserve_init_calm [OF assms(1) s2(2) m2] by blast
  obtain v4 s4 where s4: "reserve_cas he 0 i 0 a s3 = (Inr (Some v4), s4)"
    using reserve_cas_calm [OF assms(1) s3(2,3) zero] by blast
  note st = first_steps [where he = he and i = i, OF assms(6)] and nd = second_steps [where he = he and i = i, OF assms(6)]
  have cas_s21: "reserve_cas he 0 i (cumulative_of order) (wrap_i64 (cumulative_of order + a)) s1 = (Inr (Some v2), s2)"
    and cas_s4: "reserve_cas he 0 i (cumulative_of order) (wrap_i64 (cumulative_of order + a)) s3 = (Inr (Some v4), s4)"
    by (simp only: room(2), simp only: o(1) s2(1) s4)+
  have "(rsv_next he i)\<^sup>*\<^sup>* (two_at_work s RfRest RfRest 0) (two_at_work s4 RfRest RfRest (0 + a + a))"
    by (rule converse_rtranclp_into_rtranclp [where r = "rsv_next he i", OF st(1) [OF read room(1) unready]],
        rule converse_rtranclp_into_rtranclp [where r = "rsv_next he i", OF nd(1) [OF read room(1) unready]],
        rule converse_rtranclp_into_rtranclp [where r = "rsv_next he i", OF st(2) [OF s1(1)]],
        rule converse_rtranclp_into_rtranclp [where r = "rsv_next he i", OF st(3) [OF cas_s21]],
        rule converse_rtranclp_into_rtranclp [where r = "rsv_next he i", OF st(4)],
        rule converse_rtranclp_into_rtranclp [where r = "rsv_next he i", OF nd(2) [OF s3(1)]],
        rule converse_rtranclp_into_rtranclp [where r = "rsv_next he i", OF nd(3) [OF cas_s4]],
        rule r_into_rtranclp [where r = "rsv_next he i", OF nd(4)])
  then show ?thesis unfolding two_start using assms(8) by (intro exI conjI) (auto simp: two_fields)
qed

lemma reserve_read_calm:
  assumes "no_faults (hs_db s)" "rsv_amounts i T c s" "i64_range c" "i64_range T"
  shows "\<exists>order. reserve_read he i s = (Inr order, s) \<and> rollback_read he i s = (Inr c, s) \<and> cumulative_of order = c \<and>
    i64_field order ''totalAmountCents'' = T \<and> \<not> cumulative_missing order"
proof -
  obtain row where row: "doc_of (bare_id ''orders'' i) (tbl s ''orders'') = Some row"
    using assms(2) by (auto simp: rsv_amounts_def order_row_def)
  have get: "get_document (he_pg he) ''orders'' i (hs_db s) = (Inr (inject_document_metadata (he_pg he) row), hs_db s)"
    using assms(1) row by (simp add: get_document_calm pg_calm_def no_faults_def)
  then have read: "reserve_read he i s = (Inr (inject_document_metadata (he_pg he) row), s)"
    by (simp add: reserve_read_def hdb_def amap_err_def)
  moreover have "cumulative_of (inject_document_metadata (he_pg he) row) = c" using reserve_read_amounts [OF read assms(2-4)] by simp
  then have "rollback_read he i s = (Inr c, s)" by (simp add: rollback_read_def hdb_def atry_def abind_def get)
  ultimately show ?thesis using reserve_read_amounts [OF read assms(2-4)] by blast
qed

lemma rollback_write_calm:
  assumes "amount_libs (he_pg he)" "no_faults (hs_db s)" "rsv_amounts i T c s" "i64_range (n - a)" "a \<le> n"
  shows "\<exists>w s'. rollback_write he now i a n s = (Inr (Inr w), s') \<and> no_faults (hs_db s') \<and> rsv_amounts i T (n - a) s'"
proof -
  let ?doc = "cumulative_doc (max (wrap_i64 (n - a)) 0)"
  have calm: "pg_calm ''orders'' (hs_db s)" using assms(2) by (simp add: pg_calm_def no_faults_def)
  have enc: "pg_to_jsonb (he_pg he) ?doc = Inr ?doc" using assms(1) by (simp add: amount_libs_def)
  obtain row where row: "doc_of (bare_id ''orders'' i) (tbl s ''orders'') = Some row"
    using assms(3) by (auto simp: rsv_amounts_def order_row_def)
  obtain w s' where run: "rollback_write he now i a n s = (Inr (Inr w), s')" "no_faults (hs_db s')"
    using assms(2) by (simp add: rollback_write_def hdb_def atry_def update_document_calm [OF calm enc row] no_faults_def)
  then show ?thesis using rollback_write_amounts [OF run(1) assms(1,3)] assms(4,5) by (auto simp: is_ok_def max_absorb1)
qed

text \<open>
  A rollback is not safe beside another refund. A rollback that has read the recorded amount
  before another request reserves writes over that reservation: the amount the other request then
  returns is recorded nowhere, and a third request for everything that seems to be left is granted.
\<close>

theorem rollback_can_exceed_total:
  assumes "amount_libs (he_pg he)" and "no_faults (hs_db s)" and "rsv_amounts i T c0 s" and "0 \<le> c0" and "T < 2 ^ 62"
    and "refund_amount a" and "refund_amount b" and "0 < b" and "c0 + a + b \<le> T"
  shows "\<exists>c. (rsv_next he i)\<^sup>*\<^sup>* (resting s) c \<and> T < c0 + rs_paid c"
proof -
  have r: "i64_range T" "i64_range c0" "i64_range (c0 + a)" "i64_range (c0 + a + b)" "i64_range (c0 + (T - c0))" "i64_range (c0 + a - a)"
    using assms(4-9) by (auto simp: i64_range_def refund_amount_def)
  obtain o1 where o1: "reserve_read he i s = (Inr o1, s)" "cumulative_of o1 = c0" "i64_field o1 ''totalAmountCents'' = T" "\<not> cumulative_missing o1"
    using reserve_read_calm [OF assms(2,3) r(2,1)] by blast
  obtain v1 s1 where s1: "reserve_cas he 0 i c0 (c0 + a) s = (Inr (Some v1), s1)" "no_faults (hs_db s1)" "rsv_amounts i T (c0 + a) s1"
    using reserve_cas_calm [OF assms(1-3) r(2)] by blast
  obtain o2 where o2: "reserve_read he i s1 = (Inr o2, s1)" "rollback_read he i s1 = (Inr (c0 + a), s1)" "cumulative_of o2 = c0 + a"
      "i64_field o2 ''totalAmountCents'' = T" "\<not> cumulative_missing o2"
    using reserve_read_calm [OF s1(2,3) r(3,1)] by blast
  obtain v2 s2 where s2: "reserve_cas he 0 i (c0 + a) (c0 + a + b) s1 = (Inr (Some v2), s2)" "no_faults (hs_db s2)" "rsv_amounts i T (c0 + a + b) s2"
    using reserve_cas_calm [OF assms(1) s1(2,3) r(3)] by blast
  have "a \<le> c0 + a" using assms(4) by simp
  then obtain w s3 where s3: "rollback_write he 0 i a (c0 + a) s2 = (Inr (Inr w), s3)" "no_faults (hs_db s3)" "rsv_amounts i T c0 s3"
    using rollback_write_calm [OF assms(1) s2(2,3) r(6), of 0] by auto
  obtain o4 where o4: "reserve_read he i s3 = (Inr o4, s3)" "cumulative_of o4 = c0" "i64_field o4 ''totalAmountCents'' = T" "\<not> cumulative_missing o4"
    using reserve_read_calm [OF s3(2,3) r(2,1)] by blast
  obtain v5 s5 where s5: "reserve_cas he 0 i c0 (c0 + (T - c0)) s3 = (Inr (Some v5), s5)"
    using reserve_cas_calm [OF assms(1) s3(2,3) r(2)] by blast
  have rest: "refund_amount (T - c0)" using assms(4-9) by (auto simp: refund_amount_def)
  note st = first_steps [where he = he and i = i, OF assms(6)] and nd = second_steps [where he = he and i = i, OF assms(7)] and rd = first_steps [where he = he and i = i, OF rest]
  have w: "wrap_i64 (cumulative_of o1 + a) = c0 + a" "wrap_i64 (cumulative_of o2 + b) = c0 + a + b" "wrap_i64 (cumulative_of o4 + (T - c0)) = c0 + (T - c0)"
    using o1(2) o2(3) o4(2) r(3-5) by simp_all
  have cas_s11: "reserve_cas he 0 i (cumulative_of o1) (wrap_i64 (cumulative_of o1 + a)) s = (Inr (Some v1), s1)"
    and cas_s21: "reserve_cas he 0 i (cumulative_of o2) (wrap_i64 (cumulative_of o2 + b)) s1 = (Inr (Some v2), s2)"
    and cas_s5: "reserve_cas he 0 i (cumulative_of o4) (wrap_i64 (cumulative_of o4 + (T - c0))) s3 = (Inr (Some v5), s5)"
    by (simp only: w, simp only: o1(2) o2(3) o4(2) s1(1) s2(1) s5)+
  have le: "wrap_i64 (cumulative_of o1 + a) \<le> i64_field o1 ''totalAmountCents''" "wrap_i64 (cumulative_of o2 + b) \<le> i64_field o2 ''totalAmountCents''"
    "wrap_i64 (cumulative_of o4 + (T - c0)) \<le> i64_field o4 ''totalAmountCents''"
    unfolding w using o1(3) o2(4) o4(3) assms(7,9) by (simp_all add: refund_amount_def)
  have rdy: "True = (\<not> (cumulative_of o1 = 0 \<and> cumulative_missing o1))" "True = (\<not> (cumulative_of o2 = 0 \<and> cumulative_missing o2))"
    "True = (\<not> (cumulative_of o4 = 0 \<and> cumulative_missing o4))"
    using o1(4) o2(5) o4(4) by simp_all
  have "(rsv_next he i)\<^sup>*\<^sup>* (two_at_work s RfRest RfRest 0) (two_at_work s5 RfRest RfRest (0 + b + (T - c0)))"
    by (rule converse_rtranclp_into_rtranclp [where r = "rsv_next he i", OF st(1) [OF o1(1) le(1) rdy(1)]],
        rule converse_rtranclp_into_rtranclp [where r = "rsv_next he i", OF st(3) [OF cas_s11]],
        rule converse_rtranclp_into_rtranclp [where r = "rsv_next he i", OF st(5) [OF o2(2)]],
        rule converse_rtranclp_into_rtranclp [where r = "rsv_next he i", OF nd(1) [OF o2(1) le(2) rdy(2)]],
        rule converse_rtranclp_into_rtranclp [where r = "rsv_next he i", OF nd(3) [OF cas_s21]],
        rule converse_rtranclp_into_rtranclp [where r = "rsv_next he i", OF st(6) [OF s3(1)]],
        rule converse_rtranclp_into_rtranclp [where r = "rsv_next he i", OF nd(4)],
        rule converse_rtranclp_into_rtranclp [where r = "rsv_next he i", OF rd(1) [OF o4(1) le(3) rdy(3)]],
        rule converse_rtranclp_into_rtranclp [where r = "rsv_next he i", OF rd(3) [OF cas_s5]],
        rule r_into_rtranclp [where r = "rsv_next he i", OF rd(4)])
  then show ?thesis unfolding two_start using assms(8) by (intro exI conjI) (auto simp: two_fields)
qed

subsection \<open>Calls to the payment provider\<close>

lemma quiet_helpers [intro]: "quiet (read_order he i)" "quiet (is_user_admin he u)" "quiet (reserve_read he i)"
  "quiet (reserve_init he now i)" "quiet (reserve_cas he now i e n)" "quiet (order_event he io p d)"
  "quiet (exceeds_total he i a)" "quiet (revoke_licenses si nw i p)" "quiet (rollback_reservation he now i a)"
  "quiet (quarantine he io i err)" "quiet (cancel_write he io u i r order st)"
  unfolding read_order_def is_user_admin_def reserve_read_def reserve_init_def reserve_cas_def order_event_def
    exceeds_total_def revoke_licenses_def rollback_reservation_def rollback_read_def rollback_write_def quarantine_def cancel_write_def Let_def
  by (auto intro!: quiet_abind)

lemma quiet_reserve_loop [intro]: "quiet (reserve_loop he io i a n)"
  by (induction n) (auto simp: Let_def intro!: quiet_abind split: option.split)

lemma quiet_restore_stock [intro]: "quiet (restore_stock he io p pid q now n)"
  by (induction n) (auto simp: Let_def intro!: quiet_abind)

lemma quiet_restore_items [intro]: "quiet (restore_items he io now items)"
  by (induction items) (auto simp: Let_def intro!: quiet_abind)

text \<open>The first call that a sequence makes comes after steps that succeeded and made none.\<close>

lemma called_abind:
  assumes "hs_outbox (snd (abind m f s)) \<noteq> hs_outbox s" "quiet m"
  obtains x u where "m s = (Inr x, u)" "hs_outbox u = hs_outbox s" "hs_outbox (snd (f x u)) \<noteq> hs_outbox u"
proof -
  obtain r u where m: "m s = (r, u)" by force
  then have same: "hs_outbox u = hs_outbox s" using assms(2) by (metis quiet_def snd_conv)
  show ?thesis
  proof (cases r)
    case (Inl e)
    then show ?thesis using assms(1) m same by (simp add: abind_def)
  next
    case (Inr x)
    then show ?thesis using assms(1) m same by (intro that [of x u]) (auto simp: abind_def)
  qed
qed

lemma called_if:
  assumes "hs_outbox (snd ((if b then athrow e else m) s)) \<noteq> hs_outbox s"
  obtains "\<not> b" "hs_outbox (snd (m s)) \<noteq> hs_outbox s"
  using assms by (cases b) auto

definition refundable :: "json \<Rightarrow> string \<Rightarrow> json \<Rightarrow> bool" where
  "refundable order product_id item \<longleftrightarrow> item \<in> set (items_array order) \<and> str_field item ''productId'' = product_id \<and>
     str_field item ''status'' \<noteq> ''refunded'' \<and> str_field order ''paymentStatus'' = ''captured'' \<and>
     str_field order ''payoutStatus'' \<noteq> ''processing''"

lemma refund_checks_item:
  assumes "refund_checks si user is_admin order pid = Inr (RefundItem idx amount)"
  shows "refundable order pid (items_array order ! idx) \<and>
    (is_admin \<or> str_field (items_array order ! idx) ''sellerId'' = user) \<and>
    calculate_refund_amount_cents order (items_array order ! idx) = Inr amount"
proof (cases "find_item_index (items_array order) pid")
  case None
  then show ?thesis using assms by (simp add: refund_checks_def)
next
  case (Some j)
  have "j < length (items_array order)" "str_field (items_array order ! j) ''productId'' = pid"
    using position_Some [OF Some [unfolded find_item_index_def]] by simp_all
  then show ?thesis
    using assms by (auto simp: refund_checks_def Some Let_def rbind_eq_Inr refundable_def split: if_splits)
qed

text \<open>
  Who may have an item refunded: an administrator, the seller of the item, and, since the two ids are
  compared without a test that there is one, a caller without an id for an item without a seller.
\<close>

definition refund_role :: "h_state \<Rightarrow> string \<Rightarrow> json \<Rightarrow> bool" where
  "refund_role s user item \<longleftrightarrow> has_admin_role s user \<or> user \<noteq> [] \<and> str_field item ''sellerId'' = user \<or>
     user = [] \<and> str_field item ''sellerId'' = []"

text \<open>
  Who may cancel an order in which status: an administrator, the seller of all of its items, of which
  there is one, and the buyer who sells one of them while it is not shipped; any other buyer while it
  is pending or confirmed.
\<close>

definition cancel_role :: "AuthContext \<Rightarrow> json \<Rightarrow> bool" where
  "cancel_role auth order \<longleftrightarrow>
     (let user = au_user_id auth; status = str_field order ''orderStatus''; sells = (\<lambda>it. str_field it ''sellerId'' = user) in
      status \<in> {''pending'', ''confirmed'', ''awaiting_shipping_approval'', ''processing''} \<and>
        (has_role auth ''admin'' \<or> items_array order \<noteq> [] \<and> (\<forall>it \<in> set (items_array order). sells it) \<or>
         order_buyer order = user \<and> (\<exists>it \<in> set (items_array order). sells it)) \<or>
      status \<in> {''pending'', ''confirmed''} \<and> order_buyer order = user)"

text \<open>The entitlements of a refund and of a cancellation, read off the stored order.\<close>

definition may_refund :: "h_state \<Rightarrow> string \<Rightarrow> RefundItemRequest \<Rightarrow> bool" where
  "may_refund s user req \<longleftrightarrow> (\<exists>r item. doc_of (bare_id ''orders'' (rf_order_id req)) (tbl s ''orders'') = Some r \<and>
     refundable (d_data r) (rf_product_id req) item \<and> refund_role s user item)"

definition may_cancel :: "h_state \<Rightarrow> AuthContext \<Rightarrow> CancelOrderRequest \<Rightarrow> bool" where
  "may_cancel s auth req \<longleftrightarrow> au_authenticated auth \<and> au_user_id auth \<noteq> [] \<and>
     (\<exists>r. doc_of (bare_id ''orders'' (co_order_id req)) (tbl s ''orders'') = Some r \<and>
        str_field (d_data r) ''paymentStatus'' \<in> {''captured'', ''authorized''} \<and> cancel_role auth (d_data r))"

lemma items_bool_inject: "refundable (inject_document_metadata env r) p it \<longleftrightarrow> refundable (d_data r) p it"
  "order_buyer (inject_document_metadata env r) = order_buyer (d_data r)"
  by (simp_all add: refundable_def items_inject str_field_inject order_buyer_def jget_str_def jget_inject split: option.split)

lemma cancel_role_inject: "cancel_role auth (inject_document_metadata env r) \<longleftrightarrow> cancel_role auth (d_data r)"
  by (simp add: cancel_role_def Let_def items_inject str_field_inject items_bool_inject)

lemma cancel_checks_role:
  assumes "cancel_checks (au_user_id auth) (has_role auth ''admin'') order = Inr ()"
  shows "cancel_role auth order"
  using assms length_filter_less [of _ "items_array order" "is_seller_item (au_user_id auth)"]
  unfolding cancel_checks_def cancel_role_def Let_def cancellable_from_def
  by (auto simp: is_seller_item_def filter_empty_conv split: if_splits)

lemma refund_called:
  assumes "hs_outbox (snd (refund_order_item he io si auth req s)) \<noteq> hs_outbox s"
  shows "may_refund s (au_user_id auth) req"
proof -
  obtain order u v w is_admin plan d r where lim: "hdb (check_user_rate_limit he io (au_user_id auth) ''refund_order_item'' 5 1) s = (Inr d, u)"
    and read: "read_order he (rf_order_id req) u = (Inr order, v)"
    and admin: "is_user_admin he (au_user_id auth) v = (Inr is_admin, w)"
    and plan: "refund_checks si (au_user_id auth) is_admin order (rf_product_id req) = Inr plan"
    and call: "hs_outbox (snd ((case plan of AlreadyRefunded \<Rightarrow>
         areturn \<lparr>rf_success = True, rf_refund_amount_cents = 0, rf_refund_id = None, rf_already_refunded = Some True\<rparr>
       | RefundItem idx amount \<Rightarrow> refund_item he io si (au_user_id auth) req order idx amount
           (refund_reason he ''Item refund requested'' (rf_reason req))) w)) \<noteq> hs_outbox w"
    using assms unfolding refund_order_item_def Let_def
    by (elim called_abind; (intro quiet_steps quiet_helpers)?) (auto simp: hres_Inr)
  from call obtain idx amount where p: "plan = RefundItem idx amount" by (cases plan) auto
  have same: "tbl u t = tbl s t" if "t \<in> core_tables" for t using keepsD [OF keeps_rate_limit lim that] .
  have vu: "tbl v t = tbl u t" for t using keepsD [OF keeps_read_order read, of t UNIV] by simp
  have adm: "is_admin \<longrightarrow> has_admin_role s (au_user_id auth)"
    using admin is_user_admin_true [of he "au_user_id auth" v w] vu same by (auto simp: has_admin_role_def)
  obtain row where row: "doc_of (bare_id ''orders'' (rf_order_id req)) (tbl u ''orders'') = Some row"
    "order = inject_document_metadata (he_pg he) row" by (rule read_order_row [OF read])
  show ?thesis
    using refund_checks_item [OF plan [unfolded p]] adm row same unfolding may_refund_def row(2) items_bool_inject
    by (auto simp: items_inject refund_role_def)
qed

lemma settle_called:
  assumes "hs_outbox (snd (settle_payment he io si i order s)) \<noteq> hs_outbox s"
  shows "str_field order ''paymentStatus'' \<in> {''captured'', ''authorized''}"
  using assms by (auto simp: settle_payment_def Let_def split: if_splits)

lemma called_first:
  assumes "hs_outbox (snd (abind m f s)) \<noteq> hs_outbox s" "\<And>x. quiet (f x)"
  shows "hs_outbox (snd (m s)) \<noteq> hs_outbox s"
proof -
  obtain r u where m: "m s = (r, u)" by force
  show ?thesis using assms(1) assms(2) [unfolded quiet_def] by (cases r) (simp_all add: abind_def m)
qed

lemma cancel_apply_called:
  assumes "hs_outbox (snd (cancel_apply he io si user req order s)) \<noteq> hs_outbox s"
  shows "hs_outbox (snd (settle_payment he io si (co_order_id req) order s)) \<noteq> hs_outbox s"
  using assms unfolding cancel_apply_def
  by (rule called_first) (auto intro!: quiet_case_prod quiet_abind)

lemma cancel_called:
  assumes "hs_outbox (snd (cancel_order he io si auth req s)) \<noteq> hs_outbox s"
  shows "may_cancel s auth req"
proof -
  obtain user u order v d w where user: "resolve_self_user_id auth (Some (co_user_id req)) ''userId'' = Inr user"
    and lim: "hdb (check_user_rate_limit he io user ''cancel_order'' 5 1) s = (Inr d, u)"
    and read: "read_order he (co_order_id req) u = (Inr order, v)"
    and checks: "cancel_checks user (has_role auth ''admin'') order = Inr ()"
    and call: "hs_outbox (snd (cancel_apply he io si user req order w)) \<noteq> hs_outbox w"
    using assms unfolding cancel_order_def
    by (elim called_abind called_if; (intro quiet_steps quiet_helpers)?) (auto simp: hres_Inr, metis)
  have auth: "au_authenticated auth" "user = au_user_id auth" "user \<noteq> []"
    using user by (auto simp: resolve_self_user_id_def require_authenticated_def rbind_eq_Inr split: if_splits)
  have same: "tbl u ''orders'' = tbl s ''orders''" using keepsD [OF keeps_rate_limit lim core_mem(1)] .
  obtain row where row: "doc_of (bare_id ''orders'' (co_order_id req)) (tbl u ''orders'') = Some row"
    "order = inject_document_metadata (he_pg he) row" by (rule read_order_row [OF read])
  have pay: "str_field order ''paymentStatus'' \<in> {''captured'', ''authorized''}"
    by (rule settle_called [OF cancel_apply_called [OF call]])
  have "cancel_role auth order" by (rule cancel_checks_role [OF checks [unfolded auth(2)]])
  with pay auth row same show ?thesis
    unfolding may_cancel_def row(2) cancel_role_inject by (auto simp: str_field_inject)
qed

text \<open>
  C18. The payment provider is only asked to return money for entitled callers, whatever faults occur: a
  refund call is made for an administrator or the seller of an item that is not refunded yet (or,
  with no test for an empty id, for an anonymous caller and an item without a seller), on an order
  whose payment is captured and not being paid out; a cancellation calls the provider for an
  authenticated administrator, the seller of every item or a buyer who sells one while the order
  is not shipped, and for any other buyer while it is pending or confirmed. Both go beyond the
  documentation of the requests, as the findings record.
\<close>

theorem provider_called_for_entitled:
  "(hs_outbox (snd (refund_order_item he io si auth rreq s)) \<noteq> hs_outbox s \<longrightarrow> may_refund s (au_user_id auth) rreq) \<and>
   (hs_outbox (snd (cancel_order he io si auth creq s)) \<noteq> hs_outbox s \<longrightarrow> may_cancel s auth creq)"
  using refund_called cancel_called by blast

text \<open>
  A cancellation returns the money before it checks that it may cancel. If the status of the order
  changed after it was read, the whole payment has been refunded by then, the request fails, and
  the order keeps its new status and its payment as captured.
\<close>

theorem cancel_refunds_before_guard:
  assumes "si_key si" and "si_refund si = Answered True (Inr answer)"
    and "str_field order ''paymentStatus'' = ''captured''" and "str_field order ''paymentIntentId'' = intent" and "intent \<noteq> []"
    and "\<forall>r \<in> set (tbl s ''orders''). d_id r = bare_id ''orders'' (co_order_id req) \<longrightarrow>
      member_text (he_pg he) ''orderStatus'' (d_data r) \<noteq> Some (str_field order ''orderStatus'')"
  shows "\<exists>e s'. cancel_apply he io si user req order s = (Inl e, s') \<and> tbl s' ''orders'' = tbl s ''orders'' \<and>
    hs_outbox s' = hs_outbox s @ [StripeRefund intent None ''requested_by_customer'' (''refund_'' @ co_order_id req)
      [(''orderId'', co_order_id req)]]"
proof -
  let ?s = "s\<lparr>hs_outbox := hs_outbox s @ [StripeRefund intent None ''requested_by_customer'' (''refund_'' @ co_order_id req)
      [(''orderId'', co_order_id req)]]\<rparr>"
  let ?w = "cancel_write he io user (co_order_id req) (refund_reason he ''User requested cancellation'' (co_reason req)) order ''refunded'' ?s"
  have settle: "settle_payment he io si (co_order_id req) order s = (Inr (''refunded'', True), ?s)"
    using assms(1-5) by (simp add: settle_payment_def Let_def abind_def atry_def stripe_refund_def notify_def hres_def)
  obtain r s' where w: "?w = (r, s')" by force
  obtain q d doc where q: "update_document_cas (he_pg he) (io_db_now io 1) ''orders'' (co_order_id req) doc ''orderStatus''
      (JString (str_field order ''orderStatus'')) (hs_db s) = (q, d)" "s' = ?s\<lparr>hs_db := d\<rparr>"
      "r = map_err Fail (map_err (db_failed ''Failed to update cancelled order: '') q)"
    using w unfolding cancel_write_def Let_def hdb_eq amap_err_eq by auto
  have no: "\<not> cas_matches (he_pg he) (bare_id ''orders'' (co_order_id req)) ''orderStatus'' (JString (str_field order ''orderStatus'')) x"
    if "x \<in> set (tbl s ''orders'')" for x
    using assms(6) that by (auto simp: cas_matches_def sql_eq_def jsonb_text_def split: option.splits)
  have "(r = Inr None \<or> (\<exists>e. r = Inl e)) \<and> tables d ''orders'' = tbl s ''orders''"
    using update_document_cas_cases [OF q(1)] no q(3) by (cases q) (auto intro!: map_idI)
  then show ?thesis
    using settle w q(2) by (auto simp: cancel_apply_def abind_def)
qed

subsection \<open>Examples\<close>

definition sample_si :: stripe_io where
  "sample_si = \<lparr>si_key = True, si_refund = Answered True (Inr (JObject [(''id'', JString ''re_1'')])), si_cancel = Inr True,
     si_now_ns = 0, si_parse_rfc3339 = (\<lambda>_. None), si_raw_sql = (\<lambda>_ rs. Inr rs)\<rparr>"

definition paid_item :: "string \<Rightarrow> nat \<Rightarrow> json" where
  "paid_item p price = JObject [(''priceCents'', JNumber (PosInt price)), (''productId'', JString p), (''sellerId'', JString ''v1'')]"

definition paid_order :: "nat \<Rightarrow> json" where
  "paid_order discount = JObject [(''discountAmountCents'', JNumber (PosInt discount)), (''items'', JArray [paid_item ''p1'' 1000]),
     (''orderStatus'', JString ''confirmed''), (''paymentIntentId'', JString ''pi_1''), (''paymentStatus'', JString ''captured''),
     (''shippingCostCents'', JNumber (PosInt 0)), (''subtotalCents'', JNumber (PosInt 1000)), (''taxAmountCents'', JNumber (PosInt 65)),
     (''totalAmountCents'', JNumber (PosInt (1065 - discount))), (''userId'', JString ''u1'')]"

definition paid_store :: "json \<Rightarrow> h_state" where
  "paid_store order = \<lparr>hs_db = \<lparr>tables = (\<lambda>_. [])(''orders'' := [\<lparr>d_id = ''o1'', d_data = order,
     d_created_at = 1, d_updated_at = 1\<rparr>]), pg_faults = []\<rparr>, hs_outbox = []\<rparr>"

lemma paid_fields:
  "i64_field (paid_order d) ''subtotalCents'' = 1000" "i64_field (paid_order d) ''taxAmountCents'' = 65"
  "i64_field (paid_order d) ''shippingCostCents'' = 0"
  "d < 1000 \<Longrightarrow> i64_field (paid_order d) ''discountAmountCents'' = int d"
  by (simp_all add: paid_order_def i64_field_def jget_i64_def jget_def)

lemma paid_items:
  "items_array (paid_order d) = [paid_item ''p1'' 1000]" "jget_i64 ''itemShippingCents'' (paid_item ''p1'' 1000) = None"
  by (simp_all add: paid_order_def items_array_def jget_array_def jget_i64_def jget_def paid_item_def)

lemma gross_of_paid: "gross_of (paid_item ''p1'' 1000) = 1000"
  by (simp add: gross_of_def i64_field_def item_quantity_def jget_i64_def jget_def paid_item_def)

definition mixed_order :: json where
  "mixed_order = JObject [(''items'', JArray [JObject [(''itemShippingCents'', JNumber (PosInt 250)), (''priceCents'', JNumber (PosInt 1000)),
       (''productId'', JString ''p2'')], paid_item ''p1'' 1000]),
     (''shippingCostCents'', JNumber (PosInt 500)), (''subtotalCents'', JNumber (PosInt 2000)), (''taxAmountCents'', JNumber (PosInt 130))]"

theorem refunds_add_up_witness:
  "\<bar>sum_list (map (refund_of mixed_order) (items_array mixed_order)) - 2630\<bar> \<le> 2"
proof -
  have f: "2000 = i64_field mixed_order ''subtotalCents''" "130 = i64_field mixed_order ''taxAmountCents''" "500 = i64_field mixed_order ''shippingCostCents''"
    "2 = int (length (items_array mixed_order))"
    by (simp_all add: mixed_order_def i64_field_def jget_i64_def jget_def items_array_def jget_array_def)
  have snap: "snapshots mixed_order = 250" "unsnapped mixed_order = 1000"
    by (simp_all add: snapshots_def unsnapped_def mixed_order_def jget_i64_def jget_def items_array_def jget_array_def paid_item_def gross_of_def i64_field_def item_quantity_def)
  have "plain_order mixed_order"
    by (simp add: plain_order_def mixed_order_def cents_def gross_of_def i64_field_def item_quantity_def jget_i64_def jget_def items_array_def jget_array_def paid_item_def)
  from refunds_add_up [OF this f refl] show ?thesis by (simp add: snap)
qed

theorem discounted_refund_falls_short_witness:
  "\<exists>amount. calculate_refund_amount_cents (paid_order 500) (paid_item ''p1'' 1000) = Inr amount \<and> amount < 565"
proof -
  have a: "items_array (paid_order 500) = [paid_item ''p1'' 1000]" "gross_of (paid_item ''p1'' 1000) = i64_field (paid_order 500) ''subtotalCents''"
    "jget_i64 ''itemShippingCents'' (paid_item ''p1'' 1000) = None" "cents (i64_field (paid_order 500) ''subtotalCents'')"
    "cents (i64_field (paid_order 500) ''taxAmountCents'')" "cents (i64_field (paid_order 500) ''shippingCostCents'')"
    "1000 = i64_field (paid_order 500) ''subtotalCents''" "500 = i64_field (paid_order 500) ''discountAmountCents''"
    "65 = i64_field (paid_order 500) ''taxAmountCents'' + i64_field (paid_order 500) ''shippingCostCents''"
    by (simp_all add: paid_fields paid_items cents_def gross_of_paid)
  show ?thesis using discounted_refund_falls_short [OF a] by simp
qed

lemma sample_amount_libs: "amount_libs (he_pg sample_he)"
  by (simp add: amount_libs_def sample_simps json_int_def int_to_string_def)

definition refunded_members_of :: json_map where
  "refunded_members_of = [(''cumulativeRefundedCents'', json_int 100), (''totalAmountCents'', json_int 1065)]"

lemma paid_store_row: "order_row ''o1'' (paid_store (JObject m)) m"
  by (simp add: order_row_def paid_store_def doc_of_def bare_id_def strip_prefix_def starts_with_def)

lemma paid_store_calm: "no_faults (hs_db (paid_store d))"
  by (simp add: paid_store_def no_faults_def)

lemma paid_store_amounts: "rsv_amounts ''o1'' 1065 100 (paid_store (JObject refunded_members_of))"
  unfolding rsv_amounts_def by (rule exI [of _ refunded_members_of]) (simp add: paid_store_row refunded_members_of_def)

theorem reserved_refunds_stay_within_total_witness:
  "\<exists>c. (calm_next sample_he ''o1'')\<^sup>*\<^sup>* (resting (paid_store (JObject refunded_members_of))) c \<and>
    rs_paid c = 50 \<and> amount_at ''o1'' 1065 150 (rs_state c)"
proof -
  let ?s = "paid_store (JObject refunded_members_of)"
  have r: "i64_range 100" "i64_range 1065" "i64_range 150" by (simp_all add: i64_range_def)
  obtain order where o: "reserve_read sample_he ''o1'' ?s = (Inr order, ?s)" "cumulative_of order = 100" "i64_field order ''totalAmountCents'' = 1065"
      "\<not> cumulative_missing order"
    using reserve_read_calm [OF paid_store_calm paid_store_amounts r(1,2)] by blast
  obtain v s2 where s2: "reserve_cas sample_he 0 ''o1'' 100 150 ?s = (Inr (Some v), s2)"
    using reserve_cas_calm [OF sample_amount_libs paid_store_calm paid_store_amounts r(1), of 0 150] by blast
  have w: "wrap_i64 (100 + 50) = 150" using wrap_i64_id [OF r(3)] by simp
  have a: "refund_amount 50" by (simp add: refund_amount_def)
  have "calm_next sample_he ''o1'' (two_at_work ?s RfRest RfRest 0) (two_at_work ?s (RfChecked 50 order True) RfRest 0)"
    using rsv_read [of "two_at_work ?s RfRest RfRest 0" 0 50 sample_he "''o1''" order ?s True] o a w
    unfolding calm_next_def two_fields two_upd by (intro exI [of _ ReadAmount]) (simp add: undisturbed_def)
  moreover have "calm_next sample_he ''o1'' (two_at_work ?s (RfChecked 50 order True) RfRest 0) (two_at_work s2 (RfReserved 50) RfRest 0)"
    using rsv_swap [of "two_at_work ?s (RfChecked 50 order True) RfRest 0" 0 50 order sample_he 0 "''o1''" "Inr (Some v)" s2] o s2 w
    unfolding calm_next_def two_fields two_upd by (intro exI [of _ SwapAmount]) (simp add: undisturbed_def)
  moreover have "calm_next sample_he ''o1'' (two_at_work s2 (RfReserved 50) RfRest 0) (two_at_work s2 RfRest RfRest (0 + 50))"
    using rsv_pay [of "two_at_work s2 (RfReserved 50) RfRest 0" 0 50 sample_he "''o1''"]
    unfolding calm_next_def two_fields two_upd by (intro exI [of _ MoneyReturned]) (simp add: undisturbed_def)
  ultimately have run: "(calm_next sample_he ''o1'')\<^sup>*\<^sup>* (resting ?s) (two_at_work s2 RfRest RfRest 50)"
    unfolding two_start [symmetric] by (simp add: converse_rtranclp_into_rtranclp)
  have at: "amount_at ''o1'' 1065 100 ?s" using paid_store_amounts by (simp add: amount_at_def)
  have "reserved_sum (rs_phase (two_at_work s2 RfRest RfRest 50)) = 0" by (simp add: reserved_sum_def two_at_work_def)
  then have "amount_at ''o1'' 1065 150 (rs_state (two_at_work s2 RfRest RfRest 50))"
    using reserved_refunds_stay_within_total [OF run sample_amount_libs at] by (simp add: two_fields)
  then show ?thesis using run by (intro exI conjI) (auto simp: two_fields)
qed

theorem first_refunds_can_exceed_total_witness:
  "\<exists>c. (rsv_next sample_he ''o1'')\<^sup>*\<^sup>* (resting (paid_store (JObject [(''totalAmountCents'', json_int 1065)]))) c \<and> 1065 < rs_paid c"
  by (rule first_refunds_can_exceed_total [OF sample_amount_libs paid_store_calm paid_store_row, where T = 1065 and a = 600])
    (simp_all add: refund_amount_def)

theorem rollback_can_exceed_total_witness:
  "\<exists>c. (rsv_next sample_he ''o1'')\<^sup>*\<^sup>* (resting (paid_store (JObject refunded_members_of))) c \<and> 1065 < 100 + rs_paid c"
  by (rule rollback_can_exceed_total [OF sample_amount_libs paid_store_calm paid_store_amounts, where a = 50 and b = 60])
    (simp_all add: refund_amount_def)

definition sample_refund_req :: RefundItemRequest where
  "sample_refund_req = \<lparr>rf_order_id = ''o1'', rf_product_id = ''p1'', rf_user_id = ''v1'', rf_reason = None\<rparr>"

definition sample_cancel_req :: CancelOrderRequest where
  "sample_cancel_req = \<lparr>co_order_id = ''o1'', co_user_id = ''u1'', co_reason = None\<rparr>"

definition captured_order :: json where
  "captured_order = JObject [(''orderStatus'', JString ''confirmed''), (''paymentIntentId'', JString ''pi_1''),
     (''paymentStatus'', JString ''captured''), (''userId'', JString ''u1'')]"

theorem provider_called_for_entitled_witness:
  "hs_outbox (snd (cancel_order sample_he (sample_io\<lparr>io_test_mode := True\<rparr>) sample_si (sample_auth ''u1'') sample_cancel_req (paid_store captured_order))) \<noteq> [] \<and>
   may_cancel (paid_store captured_order) (sample_auth ''u1'') sample_cancel_req"
proof -
  have call: "hs_outbox (snd (cancel_order sample_he (sample_io\<lparr>io_test_mode := True\<rparr>) sample_si (sample_auth ''u1'') sample_cancel_req (paid_store captured_order)))
      \<noteq> hs_outbox (paid_store captured_order)"
    by code_simp
  moreover have "hs_outbox (paid_store captured_order) = []" by (simp add: paid_store_def)
  ultimately show ?thesis
    using provider_called_for_entitled [of sample_he "sample_io\<lparr>io_test_mode := True\<rparr>" sample_si "sample_auth ''u1''" sample_refund_req
        "paid_store captured_order" sample_cancel_req] by simp
qed

theorem cancel_refunds_before_guard_witness:
  "\<exists>e s'. cancel_apply sample_he sample_io sample_si ''u1'' sample_cancel_req (paid_order 0) (sample_h ''shipped'' ''shipped'') = (Inl e, s') \<and>
    hs_outbox s' = [StripeRefund ''pi_1'' None ''requested_by_customer'' ''refund_o1'' [(''orderId'', ''o1'')]]"
proof -
  have a: "si_key sample_si" "si_refund sample_si = Answered True (Inr (JObject [(''id'', JString ''re_1'')]))"
    "str_field (paid_order 0) ''paymentStatus'' = ''captured''" "str_field (paid_order 0) ''paymentIntentId'' = ''pi_1''" "''pi_1'' \<noteq> []"
    by (simp_all add: sample_si_def paid_order_def str_field_def jget_str_def jget_def)
  have b: "\<forall>r \<in> set (tbl (sample_h ''shipped'' ''shipped'') ''orders''). d_id r = bare_id ''orders'' (co_order_id sample_cancel_req) \<longrightarrow>
      member_text (he_pg sample_he) ''orderStatus'' (d_data r) \<noteq> Some (str_field (paid_order 0) ''orderStatus'')"
    by (simp add: sample_h_def sample_order_def paid_order_def str_field_def jget_str_def jget_def member_text_def jsonb_text_def)
  show ?thesis
    using cancel_refunds_before_guard [OF a b, of sample_io "''u1''"] by (auto simp: sample_h_def sample_cancel_req_def)
qed

end
