(* ===== verification/Storage_Local.thy ===== *)
theory Storage_Local
  imports Core_Error F64
begin

text \<open>
  The local storage backend (\<open>crates/ob-storage/src/local.rs\<close>) over a model of the file system calls
  it makes. A disk maps physical paths, lists of names from the root directory, to files,
  directories and symbolic links; \<open>walk\<close> resolves a path as the kernel does: every
  name but the last has to be a directory, dot-dot goes up, and at most 40 links are followed. Each
  call consumes one entry of the fault schedule: an early fault fails without effect, a late one
  leaves the first bytes of a write behind. An append through an open \<open>tokio\<close> file may also report
  success while all but its first bytes are still pending, as the file is neither flushed nor synced.
\<close>

subsection \<open>The file system\<close>

type_synonym fs_path = "string list"

datatype node = File string | Dir | Link string

datatype io_fault = NoFault | FaultEarly | FaultAfter nat | StillPending nat

record disk =
  d_nodes :: "(fs_path \<times> node) list"
  d_faults :: "io_fault list"
  d_dir_len :: nat

type_synonym 'a fs_call = "(disk, string, 'a) action"

definition ENOENT :: string where "ENOENT = ''No such file or directory (os error 2)''"
definition EIO :: string where "EIO = ''Input/output error (os error 5)''"
definition EISDIR :: string where "EISDIR = ''Is a directory (os error 21)''"
definition ENOTDIR :: string where "ENOTDIR = ''Not a directory (os error 20)''"

definition node_at :: "disk \<Rightarrow> fs_path \<Rightarrow> node option" where
  "node_at d p = (if p = [] then Some Dir else map_of (d_nodes d) p)"

text \<open>\<open>PathBuf::join\<close>: a path with a leading slash replaces the base.\<close>

definition path_join :: "fs_path \<Rightarrow> string \<Rightarrow> fs_path" where
  "path_join base s = (if starts_with ''/'' s then split_on (CHR ''/'') s else base @ split_on (CHR ''/'') s)"

text \<open>The names \<open>Path::components\<close> yields, and \<open>Path::parent\<close>.\<close>

definition path_names :: "fs_path \<Rightarrow> string list" where
  "path_names p = filter (\<lambda>c. c \<noteq> [] \<and> c \<noteq> ''.'') p"

definition path_parent :: "fs_path \<Rightarrow> fs_path option" where
  "path_parent p = (if path_names p = [] then None else Some (butlast (path_names p)))"

function walk :: "disk \<Rightarrow> nat \<Rightarrow> fs_path \<Rightarrow> fs_path \<Rightarrow> fs_path option" where
  "walk d n acc [] = Some acc"
| "walk d n acc (c # cs) =
     (if node_at d acc \<noteq> Some Dir then None
      else if c = [] \<or> c = ''.'' then walk d n acc cs
      else if c = ''..'' then walk d n (butlast acc) cs
      else (case node_at d (acc @ [c]) of
              Some (Link t) \<Rightarrow>
                if n = 0 then None
                else walk d (n - 1) (if starts_with ''/'' t then [] else acc) (split_on (CHR ''/'') t @ cs)
            | _ \<Rightarrow> walk d n (acc @ [c]) cs))"
  by pat_completeness auto
termination
  by (relation "measures [\<lambda>(d, n, acc, cs). n, \<lambda>(d, n, acc, cs). length cs]") auto

definition max_links :: nat where "max_links = 40"

definition resolve :: "disk \<Rightarrow> fs_path \<Rightarrow> fs_path option" where
  "resolve d p = walk d max_links [] p"

definition next_fault :: "disk \<Rightarrow> io_fault \<times> disk" where
  "next_fault d = (case d_faults d of [] \<Rightarrow> (NoFault, d) | f # fs \<Rightarrow> (f, d\<lparr>d_faults := fs\<rparr>))"

definition set_node :: "fs_path \<Rightarrow> node \<Rightarrow> disk \<Rightarrow> disk" where
  "set_node p n d = d\<lparr>d_nodes := hm_insert p n (d_nodes d)\<rparr>"

definition drop_node :: "fs_path \<Rightarrow> disk \<Rightarrow> disk" where
  "drop_node p d = d\<lparr>d_nodes := hm_remove p (d_nodes d)\<rparr>"

text \<open>\<open>Path::exists\<close> answers no when the call fails.\<close>

definition path_exists :: "fs_path \<Rightarrow> disk \<Rightarrow> bool \<times> disk" where
  "path_exists p d =
     (case next_fault d of (f, d') \<Rightarrow>
        (f = NoFault \<and> (case resolve d p of None \<Rightarrow> False | Some q \<Rightarrow> node_at d q \<noteq> None), d'))"

definition canonicalize :: "fs_path \<Rightarrow> fs_path fs_call" where
  "canonicalize p d =
     (case next_fault d of (f, d') \<Rightarrow>
        if f \<noteq> NoFault then (Inl EIO, d')
        else (case resolve d p of
                None \<Rightarrow> (Inl ENOENT, d')
              | Some q \<Rightarrow> if node_at d q = None then (Inl ENOENT, d') else (Inr q, d')))"

text \<open>\<open>create_dir_all\<close>: one \<open>mkdir\<close> for every ancestor that is missing, from the top.\<close>

fun create_dirs :: "fs_path \<Rightarrow> fs_path \<Rightarrow> unit fs_call" where
  "create_dirs done [] d = (Inr (), d)"
| "create_dirs done (c # cs) d =
     (case resolve d (done @ [c]) of
        None \<Rightarrow> (Inl ENOTDIR, d)
      | Some q \<Rightarrow>
          (case node_at d q of
             Some Dir \<Rightarrow> create_dirs (done @ [c]) cs d
           | Some _ \<Rightarrow> (Inl ENOTDIR, d)
           | None \<Rightarrow>
               (case next_fault d of (f, d') \<Rightarrow>
                  if f \<noteq> NoFault then (Inl EIO, d')
                  else create_dirs (done @ [c]) cs (set_node q Dir d'))))"

definition create_dir_all :: "fs_path \<Rightarrow> unit fs_call" where
  "create_dir_all p = create_dirs [] (path_names p)"

text \<open>The physical path at which opening \<open>p\<close> for writing with \<open>O_CREAT\<close> finds or makes a file.\<close>

definition open_target :: "disk \<Rightarrow> fs_path \<Rightarrow> string + fs_path" where
  "open_target d p =
     (case resolve d p of
        None \<Rightarrow> Inl ENOENT
      | Some q \<Rightarrow>
          (case node_at d q of
             Some Dir \<Rightarrow> Inl EISDIR
           | _ \<Rightarrow> if node_at d (butlast q) = Some Dir then Inr q else Inl ENOENT))"

definition file_bytes :: "disk \<Rightarrow> fs_path \<Rightarrow> string" where
  "file_bytes d q = (case node_at d q of Some (File s) \<Rightarrow> s | _ \<Rightarrow> [])"

text \<open>\<open>tokio::fs::write\<close> truncates the file and writes the bytes.\<close>

definition fs_write :: "fs_path \<Rightarrow> string \<Rightarrow> unit fs_call" where
  "fs_write p bytes d =
     (case next_fault d of (f, d') \<Rightarrow>
        (case open_target d p of
           Inl e \<Rightarrow> (Inl e, d')
         | Inr q \<Rightarrow>
             (case f of
                FaultAfter n \<Rightarrow> (Inl EIO, set_node q (File (take n bytes)) d')
              | NoFault \<Rightarrow> (Inr (), set_node q (File bytes) d')
              | _ \<Rightarrow> (Inl EIO, d'))))"

text \<open>\<open>OpenOptions::create(true).append(true)\<close>, the open.\<close>

definition fs_open_append :: "fs_path \<Rightarrow> fs_path fs_call" where
  "fs_open_append p d =
     (case next_fault d of (f, d') \<Rightarrow>
        (case open_target d p of
           Inl e \<Rightarrow> (Inl e, d')
         | Inr q \<Rightarrow>
             if f \<noteq> NoFault then (Inl EIO, d')
             else (Inr q, if node_at d q = None then set_node q (File []) d' else d')))"

text \<open>
  \<open>write_all\<close> on the open file; a late fault has appended a part of the data. \<open>tokio\<close> hands the bytes to
  a background write and returns: what is still pending is not in the file for the calls that follow.
\<close>

definition fs_append :: "fs_path \<Rightarrow> string \<Rightarrow> unit fs_call" where
  "fs_append q bytes d =
     (case next_fault d of (f, d') \<Rightarrow>
        (case f of
           FaultEarly \<Rightarrow> (Inl EIO, d')
         | FaultAfter n \<Rightarrow> (Inl EIO, set_node q (File (file_bytes d q @ take n bytes)) d')
         | StillPending n \<Rightarrow> (Inr (), set_node q (File (file_bytes d q @ take n bytes)) d')
         | NoFault \<Rightarrow> (Inr (), set_node q (File (file_bytes d q @ bytes)) d')))"

definition fs_read :: "fs_path \<Rightarrow> string fs_call" where
  "fs_read p d =
     (case next_fault d of (f, d') \<Rightarrow>
        if f \<noteq> NoFault then (Inl EIO, d')
        else (case resolve d p of
                None \<Rightarrow> (Inl ENOENT, d')
              | Some q \<Rightarrow>
                  (case node_at d q of
                     Some (File s) \<Rightarrow> (Inr s, d')
                   | Some Dir \<Rightarrow> (Inl EISDIR, d')
                   | _ \<Rightarrow> (Inl ENOENT, d'))))"

text \<open>\<open>remove_file\<close> resolves the directory and unlinks the last name, a link itself included.\<close>

definition fs_remove_file :: "fs_path \<Rightarrow> unit fs_call" where
  "fs_remove_file p d =
     (case next_fault d of (f, d') \<Rightarrow>
        if f \<noteq> NoFault then (Inl EIO, d')
        else if p = [] \<or> last p \<in> {[], ''.'', ''..''} then (Inl ENOTDIR, d')
        else (case resolve d (butlast p) of
                None \<Rightarrow> (Inl ENOENT, d')
              | Some q \<Rightarrow>
                  if node_at d q \<noteq> Some Dir then (Inl ENOTDIR, d')
                  else (case node_at d (q @ [last p]) of
                          None \<Rightarrow> (Inl ENOENT, d')
                        | Some Dir \<Rightarrow> (Inl EISDIR, d')
                        | Some _ \<Rightarrow> (Inr (), drop_node (q @ [last p]) d'))))"

definition fs_metadata_len :: "fs_path \<Rightarrow> nat fs_call" where
  "fs_metadata_len p d =
     (case next_fault d of (f, d') \<Rightarrow>
        if f \<noteq> NoFault then (Inl EIO, d')
        else (case resolve d p of
                None \<Rightarrow> (Inl ENOENT, d')
              | Some q \<Rightarrow>
                  (case node_at d q of
                     Some (File s) \<Rightarrow> (Inr (length s), d')
                   | Some Dir \<Rightarrow> (Inr (d_dir_len d), d')
                   | _ \<Rightarrow> (Inl ENOENT, d'))))"

text \<open>The names in a directory with what they stand for, links not followed, in the order of the disk.\<close>

definition fs_read_dir :: "fs_path \<Rightarrow> (string \<times> node) list fs_call" where
  "fs_read_dir p d =
     (case next_fault d of (f, d') \<Rightarrow>
        if f \<noteq> NoFault then (Inl EIO, d')
        else (case resolve d p of
                None \<Rightarrow> (Inl ENOENT, d')
              | Some q \<Rightarrow>
                  if node_at d q = None then (Inl ENOENT, d')
                  else if node_at d q \<noteq> Some Dir then (Inl ENOTDIR, d')
                  else (Inr (map (\<lambda>(k, n). (last k, n)) (filter (\<lambda>(k, n). k \<noteq> [] \<and> butlast k = q) (d_nodes d))), d')))"

subsection \<open>Sanitizing\<close>

text \<open>The loop that removes dot-dot until nothing changes, shared by the three sanitizers.\<close>

function strip_dots :: "string \<Rightarrow> string" where
  "strip_dots s = (let next = replace_str ''..'' [] s in if next = s then s else strip_dots next)"
  by pat_completeness auto

lemma replace_shrinks:
  "replace_str pat [] s \<noteq> s \<Longrightarrow> length (replace_str pat [] s) < length s"
proof (induction pat "[] :: string" s rule: replace_str.induct)
  case (2 pat c cs)
  then show ?case
    using length_replace_str_Nil [of pat "drop (length pat - 1) cs"] by (auto split: if_splits)
qed simp

termination strip_dots
  by (relation "measure length") (auto simp: Let_def intro: replace_shrinks)

declare strip_dots.simps [simp del]

definition sanitize_raw :: "string \<Rightarrow> string" where
  "sanitize_raw path = trim_start_matches (CHR ''/'') (strip_dots (replace_char (CHR 0x5C) ''/'' path))"

lemma strip_dots_no_dots: "\<not> sublist ''..'' (strip_dots s)"
proof (induction s rule: strip_dots.induct)
  case (1 s)
  show ?case
  proof (cases "replace_str ''..'' [] s = s")
    case True
    then have "\<not> sublist ''..'' s" using replace_str_fixpoint [of "''..''" s] by simp
    then show ?thesis using True by (simp add: strip_dots.simps)
  next
    case False
    then have "strip_dots s = strip_dots (replace_str ''..'' [] s)"
      by (subst strip_dots.simps) (simp add: Let_def)
    then show ?thesis using 1 [OF refl False] by simp
  qed
qed

lemma strip_dots_id: "\<not> sublist ''..'' s \<Longrightarrow> strip_dots s = s"
  using replace_str_fixpoint [of "''..''" s] by (subst strip_dots.simps) (simp add: Let_def)

lemma set_strip_dots: "set (strip_dots s) \<subseteq> set s"
proof (induction s rule: strip_dots.induct)
  case (1 s)
  then show ?case
    using set_replace_str_Nil [of "''..''" s] by (subst strip_dots.simps) (auto simp: Let_def)
qed

lemma sanitize_raw_no_dots: "\<not> sublist ''..'' (sanitize_raw path)"
proof
  assume "sublist ''..'' (sanitize_raw path)"
  then have "sublist ''..'' (strip_dots (replace_char (CHR 0x5C) ''/'' path))"
    unfolding sanitize_raw_def
    by (meson suffix_trim_start suffix_imp_sublist sublist_order.order_trans)
  then show False using strip_dots_no_dots by blast
qed

lemma sanitize_raw_relative: "\<not> starts_with ''/'' (sanitize_raw path)"
proof (cases "sanitize_raw path")
  case (Cons x xs)
  then have "x \<noteq> CHR ''/''" unfolding sanitize_raw_def by (rule trim_start_matches_hd)
  then show ?thesis using Cons by (simp add: starts_with_def)
qed (simp add: starts_with_def)

lemma sublist_join: "p \<in> set ps \<Longrightarrow> sublist p (join sep ps)"
proof (induction sep ps rule: join.induct)
  case (3 sep s t ss)
  show ?case
  proof (cases "p = s")
    case True
    then show ?thesis by (simp add: sublist_append_rightI)
  next
    case False
    then have "sublist p (join sep (t # ss))" using 3 by simp
    then obtain u v where "join sep (t # ss) = u @ p @ v" unfolding sublist_def by blast
    then have "join sep (s # t # ss) = (s @ sep @ u) @ p @ v" by simp
    then show ?thesis unfolding sublist_def by blast
  qed
qed auto

lemma sanitized_names_not_up:
  assumes "c \<in> set (split_on (CHR ''/'') (sanitize_raw path))"
  shows "c \<noteq> ''..''"
proof
  assume "c = ''..''"
  then have "sublist ''..'' (join [CHR ''/''] (split_on (CHR ''/'') (sanitize_raw path)))"
    using sublist_join [OF assms] by simp
  then show False using sanitize_raw_no_dots by (simp only: join_split_on)
qed

lemma sanitize_raw_idem: "sanitize_raw (sanitize_raw path) = sanitize_raw path"
proof -
  let ?s = "sanitize_raw path"
  have "CHR 0x5C \<notin> set ?s"
    unfolding sanitize_raw_def trim_start_matches_def
    using set_strip_dots [of "replace_char (CHR 0x5C) ''/'' path"] set_replace_char [of "CHR 0x5C" "''/''" path]
    by (auto dest!: set_dropWhileD)
  then have "strip_dots (replace_char (CHR 0x5C) ''/'' ?s) = ?s"
    using sanitize_raw_no_dots by (simp add: replace_char_no_occurrence strip_dots_id)
  moreover have "trim_start_matches (CHR ''/'') ?s = ?s"
    using sanitize_raw_relative [of path] by (cases ?s) (auto simp: trim_start_matches_def starts_with_def)
  ultimately show ?thesis unfolding sanitize_raw_def [of ?s] by simp
qed

subsection \<open>The local backend\<close>

record ObjectMeta =
  om_path :: string
  om_size :: nat
  om_content_type :: string
  om_created_at :: string
  om_updated_at :: string

text \<open>\<open>Path::extension\<close> of a file name: what follows its last dot, unless that dot is its first character.\<close>

definition file_extension :: "string \<Rightarrow> string option" where
  "file_extension path =
     (let names = path_names (split_on (CHR ''/'') path)
      in if names = [] \<or> last names = ''..'' then None
         else let name = last names; pieces = split_on (CHR ''.'') name
              in if length pieces \<le> 1 \<or> (length pieces = 2 \<and> hd pieces = []) then None else Some (last pieces))"

definition guess_content_type :: "string \<Rightarrow> string" where
  "guess_content_type path =
     (case map_of [(''jpg'', ''image/jpeg''), (''jpeg'', ''image/jpeg''), (''png'', ''image/png''),
        (''gif'', ''image/gif''), (''webp'', ''image/webp''), (''svg'', ''image/svg+xml''),
        (''pdf'', ''application/pdf''), (''json'', ''application/json''), (''html'', ''text/html''),
        (''css'', ''text/css''), (''js'', ''application/javascript''), (''txt'', ''text/plain''),
        (''mp4'', ''video/mp4''), (''mp3'', ''audio/mpeg''), (''zip'', ''application/zip'')]
        (case file_extension path of None \<Rightarrow> [] | Some e \<Rightarrow> e) of
        Some t \<Rightarrow> t
      | None \<Rightarrow> ''application/octet-stream'')"

type_synonym 'a st_action = "(disk, ob_error, 'a) action"

definition full_path :: "fs_path \<Rightarrow> string \<Rightarrow> fs_path st_action" where
  "full_path rdir path d =
     (let full = path_join rdir (sanitize_raw path)
      in case path_exists full d of (ex, d1) \<Rightarrow>
           if ex then (case canonicalize full d1 of
                         (Inr canonical, d2) \<Rightarrow>
                           if prefix rdir canonical then (Inr canonical, d2)
                           else (Inl (Forbidden ''Path traversal detected''), d2)
                       | (Inl _, d2) \<Rightarrow> (Inr full, d2))
           else (Inr full, d1))"

definition io_error :: "(string \<Rightarrow> ob_error) \<Rightarrow> string \<Rightarrow> 'a fs_call \<Rightarrow> 'a st_action" where
  "io_error k msg c = amap_err (\<lambda>e. k (msg @ e)) c"

definition new_meta :: "string \<Rightarrow> string \<Rightarrow> nat \<Rightarrow> string \<Rightarrow> ObjectMeta" where
  "new_meta now path len content_type =
     \<lparr>om_path = path, om_size = len, om_content_type = content_type, om_created_at = now, om_updated_at = now\<rparr>"

definition ls_upload :: "string \<Rightarrow> fs_path \<Rightarrow> string \<Rightarrow> string \<Rightarrow> string \<Rightarrow> ObjectMeta st_action" where
  "ls_upload now rdir path data content_type =
     abind (full_path rdir path) (\<lambda>full.
     abind (case path_parent full of
              None \<Rightarrow> areturn ()
            | Some parent \<Rightarrow> io_error Internal ''Failed to create dirs: '' (create_dir_all parent)) (\<lambda>_.
     abind (io_error Internal ''Write failed: '' (fs_write full data)) (\<lambda>_.
       areturn (new_meta now path (length data) content_type))))"

definition ls_download :: "fs_path \<Rightarrow> string \<Rightarrow> string st_action" where
  "ls_download rdir path =
     abind (full_path rdir path) (\<lambda>full. io_error NotFound ''File not found: '' (fs_read full))"

definition ls_delete :: "fs_path \<Rightarrow> string \<Rightarrow> unit st_action" where
  "ls_delete rdir path =
     abind (full_path rdir path) (\<lambda>full. io_error NotFound ''File not found: '' (fs_remove_file full))"

definition ls_exists :: "fs_path \<Rightarrow> string \<Rightarrow> bool st_action" where
  "ls_exists rdir path =
     abind (full_path rdir path) (\<lambda>full d. case path_exists full d of (ex, d') \<Rightarrow> (Inr ex, d'))"

definition ls_metadata :: "string \<Rightarrow> fs_path \<Rightarrow> string \<Rightarrow> ObjectMeta st_action" where
  "ls_metadata now rdir path =
     abind (full_path rdir path) (\<lambda>full.
     abind (io_error NotFound ''File not found: '' (fs_metadata_len full)) (\<lambda>len.
       areturn (new_meta now path len (guess_content_type path))))"

text \<open>The name of an entry below the root, as \<open>strip_prefix\<close> and \<open>to_string_lossy\<close> give it.\<close>

definition relative_name :: "fs_path \<Rightarrow> fs_path \<Rightarrow> string" where
  "relative_name rdir p =
     (if prefix rdir (path_names p) then join ''/'' (drop (length rdir) (path_names p)) else ''/'' @ join ''/'' p)"

definition ls_list :: "string \<Rightarrow> fs_path \<Rightarrow> string \<Rightarrow> ObjectMeta list st_action" where
  "ls_list now rdir pfx =
     abind (full_path rdir pfx) (\<lambda>dir.
     abind (\<lambda>d. case path_exists dir d of (ex, d') \<Rightarrow> (Inr ex, d')) (\<lambda>ex.
       if \<not> ex then areturn []
       else abind (io_error Internal ''Read dir failed: '' (fs_read_dir dir)) (\<lambda>entries.
              areturn (concat (map (\<lambda>(name, n). case n of
                  File s \<Rightarrow> let relative = relative_name rdir (dir @ [name])
                            in [new_meta now relative (length s) (guess_content_type relative)]
                | _ \<Rightarrow> []) entries)))))"

subsection \<open>Disks without links\<close>

text \<open>
  Without links a path that never goes up resolves to its own names. The effect of every call is
  then confined to the node it names.
\<close>

definition no_links :: "disk \<Rightarrow> bool" where
  "no_links d \<longleftrightarrow> (\<forall>p t. node_at d p \<noteq> Some (Link t))"

definition normal_path :: "fs_path \<Rightarrow> bool" where
  "normal_path p \<longleftrightarrow> (\<forall>c\<in>set p. c \<noteq> [] \<and> c \<noteq> ''.'' \<and> c \<noteq> ''..'')"

definition same_nodes :: "disk \<Rightarrow> disk \<Rightarrow> bool" where
  "same_nodes d d' \<longleftrightarrow> d_nodes d' = d_nodes d"

lemma same_nodes_refl [simp, intro]: "same_nodes d d"
  by (simp add: same_nodes_def)

lemma same_nodes_at: "same_nodes d d' \<Longrightarrow> node_at d' = node_at d"
  by (rule ext) (simp add: same_nodes_def node_at_def)

lemma next_fault_same: "next_fault d = (f, d') \<Longrightarrow> same_nodes d d'"
  by (auto simp: next_fault_def same_nodes_def split: list.splits)

lemma next_fault_none [simp]: "d_faults d = [] \<Longrightarrow> next_fault d = (NoFault, d)"
  by (simp add: next_fault_def)

lemma node_at_set_node [simp]:
  "q \<noteq> [] \<Longrightarrow> node_at (set_node q n d) p = (if p = q then Some n else node_at d p)"
  by (auto simp: node_at_def set_node_def)

lemma node_at_drop_node [simp]:
  "q \<noteq> [] \<Longrightarrow> node_at (drop_node q d) p = (if p = q then None else node_at d p)"
  by (auto simp: node_at_def drop_node_def)

lemma faults_set_node [simp]: "d_faults (set_node q n d) = d_faults d"
  by (simp add: set_node_def)

lemma faults_drop_node [simp]: "d_faults (drop_node q d) = d_faults d"
  by (simp add: drop_node_def)

lemma node_at_Nil [simp]: "node_at d [] = Some Dir"
  by (simp add: node_at_def)

lemma path_names_normal: "normal_path p \<Longrightarrow> path_names p = p"
  by (auto simp: normal_path_def path_names_def filter_id_conv)

lemma path_names_append [simp]: "path_names (p @ q) = path_names p @ path_names q"
  by (simp add: path_names_def)

lemma path_names_Cons: "path_names (c # p) = (if c \<noteq> [] \<and> c \<noteq> ''.'' then c # path_names p else path_names p)"
  by (simp add: path_names_def)

lemma walk_no_links:
  assumes "no_links d" "''..'' \<notin> set cs" "walk d n acc cs = Some q"
  shows "q = acc @ path_names cs"
  using assms
proof (induction d n acc cs rule: walk.induct)
  case (1 d n acc)
  then show ?case by (simp add: path_names_def)
next
  case (2 d n acc c cs)
  have up: "c \<noteq> ''..''" using "2.prems"(2) by auto
  have tail: "''..'' \<notin> set cs" using "2.prems"(2) by auto
  have dir: "node_at d acc = Some Dir" using "2.prems"(3) by (simp split: if_splits)
  show ?case
  proof (cases "c = [] \<or> c = ''.''")
    case True
    then have "walk d n acc cs = Some q" using "2.prems"(3) dir by simp
    then show ?thesis using "2.IH"(1) dir True tail "2.prems"(1) by (simp add: path_names_Cons)
  next
    case False
    obtain k where k: "node_at d (acc @ [c]) = k" by simp
    have nl: "\<not> (\<exists>t. k = Some (Link t))" using "2.prems"(1) k unfolding no_links_def by blast
    have w: "walk d n (acc @ [c]) cs = Some q"
      using "2.prems"(3) dir False up nl k by (simp split: option.splits node.splits)
    have "q = (acc @ [c]) @ path_names cs"
    proof (cases k)
      case None
      then show ?thesis using "2.IH"(3) dir False up k tail "2.prems"(1) w by simp
    next
      case (Some m)
      then show ?thesis using "2.IH"(4,5) dir False up k tail "2.prems"(1) w nl by (cases m) simp_all
    qed
    then show ?thesis using False by (simp add: path_names_Cons)
  qed
qed

end
