(* ===== verification/Storage_Resumable.thy ===== *)
theory Storage_Resumable
  imports Storage_Local
begin

text \<open>
  Resumable uploads (\<open>crates/ob-storage/src/resumable.rs\<close>): a table of sessions in memory and one
  chunk file per session. Appending a chunk is not one step: the session is read and checked, the
  data goes to the file and the new session is stored, so the three phases are
  definitions of their own and the whole operation is their composition.
\<close>

definition MAX_FILE_SIZE :: nat where "MAX_FILE_SIZE = 500 * 1024 * 1024"
definition MAX_ACTIVE_SESSIONS :: nat where "MAX_ACTIVE_SESSIONS = 100"
definition MAX_SESSIONS_PER_USER :: nat where "MAX_SESSIONS_PER_USER = 10"
definition SESSION_TTL_SECS :: int where "SESSION_TTL_SECS = 24 * 3600"

datatype UploadStatus = InProgress | Complete | Cancelled

record UploadSession =
  us_id :: string
  us_path :: string
  us_content_type :: string
  us_total_size :: nat
  us_bytes_received :: nat
  us_created_at :: string
  us_status :: UploadStatus
  us_owner :: string

text \<open>The sessions and the disk; the directory of the chunk files is fixed at start.\<close>

record upload_state =
  up_sessions :: "(string \<times> UploadSession) list"
  up_disk :: disk

type_synonym 'a up_action = "(upload_state, ob_error, 'a) action"

text \<open>Formatting and parsing of timestamps, in milliseconds, by the \<open>chrono\<close> library.\<close>

record clock_lib =
  ck_rfc3339 :: "int \<Rightarrow> string"
  ck_parse :: "string \<Rightarrow> int option"

definition on_disk :: "'a st_action \<Rightarrow> 'a up_action" where
  "on_disk m s = (case m (up_disk s) of (r, d) \<Rightarrow> (r, s\<lparr>up_disk := d\<rparr>))"

text \<open>\<open>let _ = call\<close>: the effect without the answer.\<close>

definition on_disk_ignored :: "'a fs_call \<Rightarrow> upload_state \<Rightarrow> upload_state" where
  "on_disk_ignored m s = s\<lparr>up_disk := snd (m (up_disk s))\<rparr>"

definition sanitize_path :: "string \<Rightarrow> string ob_result" where
  "sanitize_path path =
     (let sanitized = sanitize_raw path
      in if sanitized = [] then Inl (Validation ''Path cannot be empty'') else Inr sanitized)"

text \<open>\<open>num_seconds\<close> truncates the difference towards zero.\<close>

definition session_expired :: "clock_lib \<Rightarrow> int \<Rightarrow> UploadSession \<Rightarrow> bool" where
  "session_expired ck now s =
     (case ck_parse ck (us_created_at s) of
        None \<Rightarrow> False
      | Some created \<Rightarrow> SESSION_TTL_SECS < i64_div (now - created) 1000)"

definition drop_session :: "fs_path \<Rightarrow> string \<Rightarrow> upload_state \<Rightarrow> upload_state" where
  "drop_session chunks_dir sid s =
     on_disk_ignored (fs_remove_file (path_join chunks_dir sid)) (s\<lparr>up_sessions := hm_remove sid (up_sessions s)\<rparr>)"

definition reap_expired :: "clock_lib \<Rightarrow> fs_path \<Rightarrow> int \<Rightarrow> upload_state \<Rightarrow> upload_state" where
  "reap_expired ck chunks_dir now s =
     fold (drop_session chunks_dir)
       (map fst (filter (\<lambda>(k, v). session_expired ck now v) (up_sessions s))) s"

definition active_of :: "string \<Rightarrow> (string \<times> UploadSession) list \<Rightarrow> nat" where
  "active_of owner ss = length (filter (\<lambda>(k, v). us_owner v = owner \<and> us_status v = InProgress) ss)"

definition create_session ::
  "clock_lib \<Rightarrow> fs_path \<Rightarrow> int \<Rightarrow> string \<Rightarrow> string \<Rightarrow> string \<Rightarrow> nat \<Rightarrow> string \<Rightarrow> UploadSession up_action" where
  "create_session ck chunks_dir now uuid path content_type total_size owner s =
     (if total_size = 0 then (Inl (Validation ''total_size must be > 0''), s)
      else if MAX_FILE_SIZE < total_size
      then (Inl (Validation (''total_size exceeds maximum of '' @ nat_to_string MAX_FILE_SIZE @ '' bytes'')), s)
      else let s = reap_expired ck chunks_dir now s in
        if MAX_ACTIVE_SESSIONS \<le> length (up_sessions s)
        then (Inl (Validation ''Too many active upload sessions. Try again later.''), s)
        else if MAX_SESSIONS_PER_USER \<le> active_of owner (up_sessions s)
        then (Inl (Validation (''Too many active sessions for this user (max '' @ nat_to_string MAX_SESSIONS_PER_USER @ '')'')), s)
        else (case sanitize_path path of
                Inl e \<Rightarrow> (Inl e, s)
              | Inr sanitized_path \<Rightarrow>
                  (let session = \<lparr>us_id = uuid, us_path = sanitized_path, us_content_type = content_type,
                         us_total_size = total_size, us_bytes_received = 0, us_created_at = ck_rfc3339 ck now,
                         us_status = InProgress, us_owner = owner\<rparr>
                   in (Inr session, s\<lparr>up_sessions := hm_insert uuid session (up_sessions s)\<rparr>))))"

definition find_session :: "string \<Rightarrow> upload_state \<Rightarrow> UploadSession ob_result" where
  "find_session sid s =
     ok_or (NotFound (''Upload session not found: '' @ sid)) (map_of (up_sessions s) sid)"

definition debug_status :: "UploadStatus \<Rightarrow> string" where
  "debug_status st = (case st of InProgress \<Rightarrow> ''InProgress'' | Complete \<Rightarrow> ''Complete'' | Cancelled \<Rightarrow> ''Cancelled'')"

text \<open>The session is cloned out of the table and checked.\<close>

definition append_checks :: "string \<Rightarrow> nat \<Rightarrow> string \<Rightarrow> string \<Rightarrow> upload_state \<Rightarrow> UploadSession ob_result" where
  "append_checks sid offset data owner s =
     rbind (find_session sid s) (\<lambda>session.
       if us_owner session = [] then Inl (Auth ''Upload requires authenticated user'')
       else if us_owner session \<noteq> owner then Inl (Auth ''Not authorized for this upload session'')
       else if us_status session \<noteq> InProgress
       then Inl (Validation (''Session is '' @ debug_status (us_status session) @ '', not in progress''))
       else if offset \<noteq> us_bytes_received session
       then Inl (Validation (''Expected offset '' @ nat_to_string (us_bytes_received session) @ '', got '' @ nat_to_string offset))
       else if us_total_size session < us_bytes_received session + length data
       then Inl (Validation ''Chunk exceeds total_size'')
       else Inr session)"

definition append_file :: "fs_path \<Rightarrow> string \<Rightarrow> string \<Rightarrow> unit up_action" where
  "append_file chunks_dir sid data =
     on_disk (abind (io_error Internal ''Failed to open chunk file: '' (fs_open_append (path_join chunks_dir sid))) (\<lambda>q.
       io_error Internal ''Failed to write chunk: '' (fs_append q data)))"

definition received :: "string \<Rightarrow> UploadSession \<Rightarrow> UploadSession" where
  "received data session =
     (let n = us_bytes_received session + length data
      in session\<lparr>us_bytes_received := n,
                 us_status := (if n = us_total_size session then Complete else us_status session)\<rparr>)"

definition append_commit :: "string \<Rightarrow> UploadSession \<Rightarrow> upload_state \<Rightarrow> upload_state" where
  "append_commit sid session s = s\<lparr>up_sessions := hm_insert sid session (up_sessions s)\<rparr>"

definition append_chunk :: "fs_path \<Rightarrow> string \<Rightarrow> nat \<Rightarrow> string \<Rightarrow> string \<Rightarrow> UploadSession up_action" where
  "append_chunk chunks_dir sid offset data owner s =
     (case append_checks sid offset data owner s of
        Inl e \<Rightarrow> (Inl e, s)
      | Inr session \<Rightarrow>
          (case append_file chunks_dir sid data s of
             (Inl e, s') \<Rightarrow> (Inl e, s')
           | (Inr _, s') \<Rightarrow> (Inr (received data session), append_commit sid (received data session) s')))"

definition finalize :: "fs_path \<Rightarrow> string \<Rightarrow> (string \<times> UploadSession) up_action" where
  "finalize chunks_dir sid s =
     (case find_session sid s of
        Inl e \<Rightarrow> (Inl e, s)
      | Inr session \<Rightarrow>
          if us_status session \<noteq> Complete then (Inl (Validation ''Upload not complete, cannot finalize''), s)
          else (case on_disk (io_error Internal ''Failed to read assembled file: '' (fs_read (path_join chunks_dir sid))) s of
                  (Inl e, s') \<Rightarrow> (Inl e, s')
                | (Inr data, s') \<Rightarrow>
                    (Inr (data, session),
                     (on_disk_ignored (fs_remove_file (path_join chunks_dir sid)) s')
                       \<lparr>up_sessions := hm_remove sid (up_sessions s')\<rparr>)))"

definition get_session :: "string \<Rightarrow> string \<Rightarrow> upload_state \<Rightarrow> UploadSession ob_result" where
  "get_session sid owner s =
     rbind (find_session sid s) (\<lambda>session.
       if us_owner session \<noteq> [] \<and> us_owner session \<noteq> owner
       then Inl (Auth ''Not authorized for this upload session'') else Inr session)"

text \<open>A session of another user is put back; the chunk file is removed whether there was a session or not.\<close>

definition cancel :: "fs_path \<Rightarrow> string \<Rightarrow> string \<Rightarrow> unit up_action" where
  "cancel chunks_dir sid owner s =
     (case map_of (up_sessions s) sid of
        Some session \<Rightarrow>
          if us_owner session \<noteq> [] \<and> us_owner session \<noteq> owner
          then (Inl (Auth ''Not authorized for this upload session''), s)
          else (Inr (), drop_session chunks_dir sid s)
      | None \<Rightarrow> (Inr (), drop_session chunks_dir sid s))"

text \<open>
  At start the session table is empty, so every plain file in the chunk directory is an orphan. A
  link to a file counts as a file: the test follows it.
\<close>

definition is_plain_file :: "fs_path \<Rightarrow> disk \<Rightarrow> bool" where
  "is_plain_file p d =
     (case resolve d p of None \<Rightarrow> False | Some q \<Rightarrow> (case node_at d q of Some (File _) \<Rightarrow> True | _ \<Rightarrow> False))"

definition cleanup_orphaned_files :: "fs_path \<Rightarrow> upload_state \<Rightarrow> upload_state" where
  "cleanup_orphaned_files chunks_dir s =
     (case fs_read_dir chunks_dir (up_disk s) of
        (Inl _, d) \<Rightarrow> s\<lparr>up_disk := d\<rparr>
      | (Inr entries, d) \<Rightarrow>
          fold (\<lambda>(name, n) s.
              if is_plain_file (chunks_dir @ [name]) (up_disk s) \<and> map_of (up_sessions s) name = None
              then on_disk_ignored (fs_remove_file (chunks_dir @ [name])) s else s)
            entries (s\<lparr>up_disk := d\<rparr>))"

definition resumable_new :: "fs_path \<Rightarrow> disk \<Rightarrow> (ob_error + upload_state) \<times> disk" where
  "resumable_new chunks_dir d =
     (case io_error Internal ''Failed to create chunks dir: '' (create_dir_all chunks_dir) d of
        (Inl e, d') \<Rightarrow> (Inl e, d')
      | (Inr _, d') \<Rightarrow>
          (let s = cleanup_orphaned_files chunks_dir \<lparr>up_sessions = [], up_disk = d'\<rparr> in (Inr s, up_disk s)))"

end
