(* ===== verification/Storage_Transform.thy ===== *)
theory Storage_Transform
  imports Core_Error F64
begin

text \<open>
  Image transformations on download (\<open>crates/ob-storage/src/transform.rs\<close>). The image library is the
  record \<open>image_lib\<close>: decoding, encoding and the pixel operations on an opaque type of images. What
  the module computes itself are the dimensions: they go through \<open>f64\<close> arithmetic and a
  saturating cast to \<open>u32\<close>.
\<close>

definition MAX_DIMENSION :: nat where "MAX_DIMENSION = 4096"
definition DEFAULT_JPEG_QUALITY :: nat where "DEFAULT_JPEG_QUALITY = 85"

record 'i image_lib =
  il_guess :: "string \<Rightarrow> string option"
  il_decode :: "string \<Rightarrow> string + 'i"
  il_width :: "'i \<Rightarrow> nat"
  il_height :: "'i \<Rightarrow> nat"
  il_resize :: "'i \<Rightarrow> nat \<Rightarrow> nat \<Rightarrow> 'i"
  il_resize_exact :: "'i \<Rightarrow> nat \<Rightarrow> nat \<Rightarrow> 'i"
  il_crop :: "'i \<Rightarrow> nat \<Rightarrow> nat \<Rightarrow> nat \<Rightarrow> nat \<Rightarrow> 'i"
  il_jpeg :: "nat \<Rightarrow> 'i \<Rightarrow> string + string"
  il_png :: "'i \<Rightarrow> string + string"
  il_webp :: "'i \<Rightarrow> string + string"

record TransformParams =
  tp_w :: "nat option"
  tp_h :: "nat option"
  tp_fit :: string
  tp_q :: "nat option"
  tp_format :: "string option"

definition default_fit :: string where "default_fit = ''cover''"

definition has_transforms :: "TransformParams \<Rightarrow> bool" where
  "has_transforms p \<longleftrightarrow> tp_w p \<noteq> None \<or> tp_h p \<noteq> None \<or> tp_format p \<noteq> None"

definition clamped_dimensions :: "TransformParams \<Rightarrow> nat option \<times> nat option" where
  "clamped_dimensions p = (map_option (min MAX_DIMENSION) (tp_w p), map_option (min MAX_DIMENSION) (tp_h p))"

definition f64_of_u32 :: "nat \<Rightarrow> f64" where
  "f64_of_u32 n = f64_of_int (int n)"

text \<open>Division of \<open>u32\<close> values as \<open>f64\<close>; by zero it gives an infinity, or NaN for zero itself.\<close>

definition f64_ratio :: "nat \<Rightarrow> nat \<Rightarrow> f64" where
  "f64_ratio a b = (if b = 0 then (if a = 0 then NaN else PosInf) else f64_div_const (f64_of_u32 a) (of_nat b))"

text \<open>\<open>x as u32\<close>: truncating and saturating.\<close>

definition f64_as_u32 :: "f64 \<Rightarrow> nat" where
  "f64_as_u32 x = (case x of
      Finite r \<Rightarrow> nat (min (2 ^ 32 - 1) (trunc_rat r)) | PosInf \<Rightarrow> 2 ^ 32 - 1 | _ \<Rightarrow> 0)"

definition scaled :: "nat \<Rightarrow> f64 \<Rightarrow> nat" where
  "scaled n ratio = f64_as_u32 (f64_round (f64_mul (f64_of_u32 n) ratio))"

definition resize_cover :: "'i image_lib \<Rightarrow> 'i \<Rightarrow> nat \<Rightarrow> nat \<Rightarrow> 'i" where
  "resize_cover il img target_w target_h =
     (let scale = f64_max (f64_ratio target_w (il_width il img)) (f64_ratio target_h (il_height il img));
          intermediate_w = scaled (il_width il img) scale;
          intermediate_h = scaled (il_height il img) scale;
          resized = il_resize_exact il img (max intermediate_w 1) (max intermediate_h 1);
          x = (intermediate_w - target_w) div 2;
          y = (intermediate_h - target_h) div 2
      in il_crop il resized x y target_w target_h)"

text \<open>The dimensions asked for; one missing dimension follows the proportions of the image.\<close>

definition target_dimensions :: "nat \<Rightarrow> nat \<Rightarrow> nat option \<Rightarrow> nat option \<Rightarrow> (nat \<times> nat) option" where
  "target_dimensions iw ih target_w target_h =
     (case (target_w, target_h) of
        (Some w, Some h) \<Rightarrow> if 0 < w \<and> 0 < h then Some (w, h) else None
      | (Some w, None) \<Rightarrow> if 0 < w then Some (w, max (scaled ih (f64_ratio w iw)) 1) else None
      | (None, Some h) \<Rightarrow> if 0 < h then Some (max (scaled iw (f64_ratio h ih)) 1, h) else None
      | (None, None) \<Rightarrow> None)"

definition apply_resize :: "'i image_lib \<Rightarrow> 'i \<Rightarrow> nat option \<Rightarrow> nat option \<Rightarrow> string \<Rightarrow> 'i" where
  "apply_resize il img target_w target_h fit =
     (case target_dimensions (il_width il img) (il_height il img) target_w target_h of
        None \<Rightarrow> img
      | Some (w, h) \<Rightarrow>
          if fit = ''cover'' then resize_cover il img w h
          else if fit = ''contain'' then il_resize il img w h
          else if fit = ''fill'' then il_resize_exact il img w h
          else resize_cover il img w h)"

definition encode_image :: "'i image_lib \<Rightarrow> 'i \<Rightarrow> string \<Rightarrow> nat option \<Rightarrow> (string \<times> string) ob_result" where
  "encode_image il img format quality =
     (if format = ''jpeg'' \<or> format = ''jpg'' then
        rbind (map_err (\<lambda>e. Internal (''JPEG encode failed: '' @ e))
          (il_jpeg il (case quality of None \<Rightarrow> DEFAULT_JPEG_QUALITY | Some q \<Rightarrow> q) img)) (\<lambda>b. Inr (b, ''image/jpeg''))
      else if format = ''png'' then
        rbind (map_err (\<lambda>e. Internal (''PNG encode failed: '' @ e)) (il_png il img)) (\<lambda>b. Inr (b, ''image/png''))
      else if format = ''webp'' then
        rbind (map_err (\<lambda>e. Internal (''WebP encode failed: '' @ e)) (il_webp il img)) (\<lambda>b. Inr (b, ''image/webp''))
      else Inl (Validation (''Unsupported output format: '' @ format @ ''. Use jpeg, png, or webp'')))"

definition transform_image :: "'i image_lib \<Rightarrow> string \<Rightarrow> TransformParams \<Rightarrow> (string \<times> string) ob_result" where
  "transform_image il data params =
     (if \<not> has_transforms params then Inr (data, ''application/octet-stream'')
      else case il_guess il data of
             Some e \<Rightarrow> Inl (Validation (''Cannot read image: '' @ e))
           | None \<Rightarrow>
               rbind (map_err (\<lambda>e. Validation (''Failed to decode image: '' @ e)) (il_decode il data)) (\<lambda>img.
                 let (target_w, target_h) = clamped_dimensions params;
                     img = apply_resize il img target_w target_h (tp_fit params);
                     out_format = (case tp_format params of None \<Rightarrow> ''jpeg'' | Some f \<Rightarrow> f)
                 in encode_image il img out_format (tp_q params)))"

subsection \<open>What is encoded\<close>

text \<open>A successful transformation answers with one of three image types, never with a type taken from the input.\<close>

lemma encode_image_type:
  "encode_image il img format quality = Inr (bytes, t) \<Longrightarrow> t \<in> {''image/jpeg'', ''image/png'', ''image/webp''}"
  by (simp add: encode_image_def rbind_eq_Inr split: if_splits)

lemma transform_image_type:
  assumes "transform_image il data params = Inr (bytes, t)" "has_transforms params"
  shows "t \<in> {''image/jpeg'', ''image/png'', ''image/webp''}"
proof -
  obtain img format where "encode_image il img format (tp_q params) = Inr (bytes, t)"
    using assms by (cases "clamped_dimensions params")
      (auto simp: transform_image_def Let_def rbind_eq_Inr split: option.splits)
  then show ?thesis by (rule encode_image_type)
qed

lemma trunc_of_int [simp]: "trunc_rat (of_int n) = n"
  by (simp add: trunc_rat_def)

lemma round_half_away_of_int: "round_half_away (of_int n :: rat) = n"
  using round_half_away_le_int [of "of_int n" n] round_half_away_ge_int [of n "of_int n"] by simp

lemma f64_as_u32_of_int: "0 \<le> n \<Longrightarrow> n < 2 ^ 32 \<Longrightarrow> f64_as_u32 (f64_of_int n) = nat n"
proof -
  assume n: "0 \<le> n" "n < 2 ^ 32"
  then have "f64_of_int n = Finite (of_int n)" by (intro f64_of_int_exact) simp
  then show ?thesis using n by (simp add: f64_as_u32_def)
qed

text \<open>
  An integral scale is exact as long as the products fit a \<open>u32\<close>: one pixel of width asked for at
  \<open>w\<close> pixels makes an image of height \<open>h\<close> grow to \<open>h * w\<close>.
\<close>

lemma f64_of_rat_of_int: "f64_of_rat (of_int n) = f64_of_int n"
  by (simp add: f64_of_int_def)

lemma scaled_one_pixel:
  assumes "ih < 2 ^ 32" "w < 2 ^ 32" "ih * w < 2 ^ 32"
  shows "scaled ih (f64_ratio w 1) = ih * w"
proof -
  have w: "f64_of_u32 w = Finite (of_int (int w))" and ih: "f64_of_u32 ih = Finite (of_int (int ih))"
    unfolding f64_of_u32_def by (rule f64_of_int_exact, use assms in simp)+
  have lt: "int (ih * w) < 2 ^ 32" using assms(3) by (metis of_nat_less_iff of_nat_numeral of_nat_power)
  then have prod: "f64_of_int (int (ih * w)) = Finite (of_int (int (ih * w)))"
    by (intro f64_of_int_exact) simp
  have "f64_ratio w 1 = Finite (of_int (int w))"
    unfolding f64_ratio_def w using w by (simp add: f64_of_u32_def f64_of_int_def)
  then have "f64_mul (f64_of_u32 ih) (f64_ratio w 1) = f64_of_rat (of_int (int (ih * w)))"
    unfolding ih by simp
  then have "f64_mul (f64_of_u32 ih) (f64_ratio w 1) = Finite (of_int (int (ih * w)))"
    by (simp only: f64_of_rat_of_int prod)
  moreover note round_half_away_of_int [of "int (ih * w)"]
  ultimately have "scaled ih (f64_ratio w 1) = f64_as_u32 (f64_of_int (int (ih * w)))"
    by (simp only: scaled_def f64_round.simps)
  also have "\<dots> = ih * w" using f64_as_u32_of_int [OF _ lt] by (simp only: of_nat_0_le_iff nat_int)
  finally show ?thesis .
qed

text \<open>
  The requested dimension is clamped to 4096, the other one is not: an image one pixel wide and
  \<open>h\<close> pixels high, asked for at width 4096, becomes \<open>4096 * h\<close> pixels high, whatever the fit mode.
\<close>

lemma other_dimension_unbounded:
  assumes "0 < w" "w \<le> MAX_DIMENSION" "0 < ih" "ih * w < 2 ^ 32"
  shows "target_dimensions 1 ih (Some w) None = Some (w, ih * w)"
proof -
  have "w < 2 ^ 32" using assms(2) by (simp add: MAX_DIMENSION_def)
  moreover have "ih < 2 ^ 32" using assms by (cases w) auto
  moreover have "max (ih * w) 1 = ih * w" using assms(1,3) by (intro max_absorb1) (simp add: Suc_le_eq)
  ultimately show ?thesis
    using assms(1,4) scaled_one_pixel [of ih w] by (simp add: target_dimensions_def del: max_Suc_Suc)
qed

end
