(* ===== verification/Storage_Routes.thy ===== *)
theory Storage_Routes
  imports Storage_Resumable Storage_Transform Auth_Tokens
begin

text \<open>
  Signed URLs and the storage handlers (\<open>crates/ob-storage/src/signed_url.rs\<close>, \<open>routes.rs\<close>). The
  message authentication code, the URL-safe base64 alphabet, the detection of a file type from its
  bytes and the clock library are the fields of \<open>storage_lib\<close>. The path a handler receives has
  been percent-decoded by the framework, so it may hold any character, slashes included.
\<close>

record 'i storage_lib =
  sl_hmac :: "string \<Rightarrow> string \<Rightarrow> string + string"
  sl_encode64 :: "string \<Rightarrow> string"
  sl_decode64 :: "string \<Rightarrow> string option"
  sl_infer :: "string \<Rightarrow> string option"
  sl_clock :: clock_lib
  sl_image :: "'i image_lib"

record SignedUrlGenerator =
  sg_secret :: string
  sg_base_url :: string

record StorageState =
  ss_root :: fs_path
  ss_chunks_dir :: fs_path
  ss_signer :: SignedUrlGenerator

subsection \<open>Signed URLs\<close>

definition signer_new :: "string \<Rightarrow> string \<Rightarrow> SignedUrlGenerator" where
  "signer_new key base_url = \<lparr>sg_secret = key, sg_base_url = trim_end_matches (CHR ''/'') base_url\<rparr>"

definition sign_message :: "string \<Rightarrow> string \<Rightarrow> nat \<Rightarrow> string" where
  "sign_message meth path expires = meth @ '':'' @ path @ '':'' @ nat_to_string expires"

definition hmac_init :: "'i storage_lib \<Rightarrow> SignedUrlGenerator \<Rightarrow> string \<Rightarrow> string ob_result" where
  "hmac_init lib g msg = map_err (\<lambda>e. Internal (''HMAC init failed: '' @ e)) (sl_hmac lib (sg_secret g) msg)"

definition compute_signature :: "'i storage_lib \<Rightarrow> SignedUrlGenerator \<Rightarrow> string \<Rightarrow> string ob_result" where
  "compute_signature lib g msg = rbind (hmac_init lib g msg) (\<lambda>mac. Inr (sl_encode64 lib mac))"

text \<open>The clock reading in seconds, as \<open>u64\<close>; the sum wraps.\<close>

definition expiry :: "int \<Rightarrow> nat \<Rightarrow> nat" where
  "expiry now ttl_secs = (nat (now mod 2 ^ 64) + ttl_secs) mod 2 ^ 64"

definition signed_url :: "'i storage_lib \<Rightarrow> SignedUrlGenerator \<Rightarrow> string \<Rightarrow> string \<Rightarrow> string \<Rightarrow> nat \<Rightarrow> string ob_result" where
  "signed_url lib g meth route path expires =
     rbind (compute_signature lib g (sign_message meth path expires)) (\<lambda>signature.
       Inr (sg_base_url g @ route @ path @ ''?expires='' @ nat_to_string expires @ ''&sig='' @ signature))"

definition sign_download :: "'i storage_lib \<Rightarrow> SignedUrlGenerator \<Rightarrow> int \<Rightarrow> string \<Rightarrow> nat \<Rightarrow> string ob_result" where
  "sign_download lib g now path ttl_secs = signed_url lib g ''GET'' ''/storage/download/'' path (expiry now ttl_secs)"

definition sign_upload :: "'i storage_lib \<Rightarrow> SignedUrlGenerator \<Rightarrow> int \<Rightarrow> string \<Rightarrow> nat \<Rightarrow> string ob_result" where
  "sign_upload lib g now path ttl_secs = signed_url lib g ''PUT'' ''/storage/upload/'' path (expiry now ttl_secs)"

definition verify_url ::
  "'i storage_lib \<Rightarrow> SignedUrlGenerator \<Rightarrow> int \<Rightarrow> string \<Rightarrow> string \<Rightarrow> nat \<Rightarrow> string \<Rightarrow> bool ob_result" where
  "verify_url lib g now meth path expires signature =
     (if expires < nat (now mod 2 ^ 64) then Inl (Auth ''Signed URL has expired'')
      else rbind (hmac_init lib g (sign_message meth path expires)) (\<lambda>mac.
        case sl_decode64 lib signature of
          None \<Rightarrow> Inl (Auth ''Invalid signature encoding'')
        | Some bytes \<Rightarrow> Inr (bytes = mac)))"

subsection \<open>Checks of the handlers\<close>

definition ALLOWED_UPLOAD_TYPES :: "string list" where
  "ALLOWED_UPLOAD_TYPES =
     [''image/jpeg'', ''image/png'', ''image/gif'', ''image/webp'', ''application/pdf'', ''application/octet-stream'']"

definition MAX_UPLOAD_SIZE :: nat where "MAX_UPLOAD_SIZE = 500 * 1024 * 1024"
definition MAX_RESUMABLE_SIZE :: nat where "MAX_RESUMABLE_SIZE = 500 * 1024 * 1024"
definition MAX_BATCH_PATHS :: nat where "MAX_BATCH_PATHS = 100"

definition validate_file_signature :: "'i storage_lib \<Rightarrow> string \<Rightarrow> string \<Rightarrow> unit ob_result" where
  "validate_file_signature lib bytes content_type =
     (if content_type \<notin> set ALLOWED_UPLOAD_TYPES
      then Inl (UnsupportedMediaType (''File type '' @ [CHR 0x27] @ content_type @ [CHR 0x27] @ '' is not allowed''))
      else if content_type = ''application/octet-stream'' then Inr ()
      else case sl_infer lib bytes of
             Some detected \<Rightarrow>
               if detected \<noteq> content_type
               then Inl (UnsupportedMediaType (''File content ('' @ detected @ '') doesn'' @ [CHR 0x27] @
                      ''t match declared type ('' @ content_type @ '')''))
               else Inr ()
           | None \<Rightarrow> Inl (UnsupportedMediaType ''Could not verify file type from content''))"

definition sanitize_storage_path :: "string \<Rightarrow> string ob_result" where
  "sanitize_storage_path path =
     (let sanitized = sanitize_raw path
      in if sanitized = [] then Inl (Validation ''Path cannot be empty'')
         else if list_ex (\<lambda>c. c = ''.'' \<or> c = [] \<and> sublist ''//'' sanitized) (split_on (CHR ''/'') sanitized)
         then Inl (Validation ''Invalid path component'')
         else Inr sanitized)"

definition is_public_read_path :: "string \<Rightarrow> bool" where
  "is_public_read_path path \<longleftrightarrow> starts_with ''products/'' path \<or> starts_with ''products/videos/'' path"

definition can_user_write_path :: "AuthContext \<Rightarrow> string \<Rightarrow> bool" where
  "can_user_write_path auth path =
     (if \<not> au_authenticated auth \<or> au_user_id auth = [] then False
      else if starts_with ''products/'' path \<or> starts_with ''products/videos/'' path
      then sublist (''/'' @ au_user_id auth @ ''/'') path \<or> has_role auth ''admin''
      else starts_with (''users/'' @ au_user_id auth @ ''/'') path
         \<or> starts_with (''reviews/'' @ au_user_id auth @ ''/'') path)"

definition require_authenticated_user :: "AuthContext \<Rightarrow> string ob_result" where
  "require_authenticated_user auth =
     (if \<not> au_authenticated auth \<or> au_user_id auth = [] then Inl (Auth ''Authentication required'')
      else Inr (au_user_id auth))"

subsection \<open>Signed uploads, downloads and deletions\<close>

record SignedParams =
  sp_expires :: nat
  sp_sig :: string

record DownloadParams =
  dp_expires :: nat
  dp_sig :: string
  dp_transform :: TransformParams

record download_response =
  dr_content_type :: string
  dr_disposition :: string
  dr_length :: nat
  dr_body :: string

definition check_url :: "'i storage_lib \<Rightarrow> StorageState \<Rightarrow> int \<Rightarrow> string \<Rightarrow> string \<Rightarrow> nat \<Rightarrow> string \<Rightarrow> unit ob_result" where
  "check_url lib st now meth path expires signature =
     rbind (verify_url lib (ss_signer st) now meth path expires signature) (\<lambda>ok.
       if ok then Inr () else Inl (Auth ''Invalid signature''))"

text \<open>The content type is \<open>None\<close> when the header is missing or not readable text.\<close>

definition upload_file ::
  "'i storage_lib \<Rightarrow> StorageState \<Rightarrow> int \<Rightarrow> string \<Rightarrow> SignedParams \<Rightarrow> string option \<Rightarrow> string \<Rightarrow> ObjectMeta up_action" where
  "upload_file lib st now path params content_type body =
     (if MAX_UPLOAD_SIZE < length body
      then athrow (Validation (''File too large: '' @ nat_to_string (length body) @ '' bytes > '' @
             nat_to_string MAX_UPLOAD_SIZE @ '' bytes (500MB)''))
      else abind (alift (check_url lib st now ''PUT'' path (sp_expires params) (sp_sig params))) (\<lambda>_.
           abind (alift (sanitize_storage_path path)) (\<lambda>safe_path.
             let ct = (case content_type of None \<Rightarrow> ''application/octet-stream'' | Some c \<Rightarrow> c)
             in abind (alift (validate_file_signature lib body ct)) (\<lambda>_.
                  on_disk (ls_upload (ck_rfc3339 (sl_clock lib) (now * 1000)) (ss_root st) safe_path body ct)))))"

definition last_segment :: "string \<Rightarrow> string" where
  "last_segment path = last (split_on (CHR ''/'') path)"

definition download_file ::
  "'i storage_lib \<Rightarrow> StorageState \<Rightarrow> int \<Rightarrow> string \<Rightarrow> DownloadParams \<Rightarrow> download_response up_action" where
  "download_file lib st now path params =
     abind (alift (check_url lib st now ''GET'' path (dp_expires params) (dp_sig params))) (\<lambda>_.
     abind (alift (sanitize_storage_path path)) (\<lambda>safe_path.
     abind (on_disk (ls_download (ss_root st) safe_path)) (\<lambda>data.
     abind (on_disk (ls_metadata (ck_rfc3339 (sl_clock lib) (now * 1000)) (ss_root st) safe_path)) (\<lambda>meta.
     abind (alift (if has_transforms (dp_transform params) \<and> starts_with ''image/'' (om_content_type meta)
                      \<and> \<not> sublist ''svg'' (om_content_type meta)
                   then transform_image (sl_image lib) data (dp_transform params)
                   else Inr (data, om_content_type meta))) (\<lambda>(data, content_type).
       let is_safe_inline = starts_with ''image/'' content_type \<and> \<not> sublist ''svg'' content_type;
           disposition = (if is_safe_inline then ''inline'' else ''attachment'')
       in areturn \<lparr>dr_content_type = content_type,
            dr_disposition = disposition @ ''; filename='' @ [CHR 0x22] @ last_segment safe_path @ [CHR 0x22],
            dr_length = length data, dr_body = data\<rparr>)))))"

definition delete_file ::
  "'i storage_lib \<Rightarrow> StorageState \<Rightarrow> int \<Rightarrow> string \<Rightarrow> SignedParams \<Rightarrow> string up_action" where
  "delete_file lib st now path params =
     abind (alift (check_url lib st now ''DELETE'' path (sp_expires params) (sp_sig params))) (\<lambda>_.
     abind (alift (sanitize_storage_path path)) (\<lambda>safe_path.
     abind (on_disk (ls_delete (ss_root st) safe_path)) (\<lambda>_. areturn safe_path)))"

subsection \<open>Resumable uploads\<close>

record InitResumableParams =
  ir_path :: string
  ir_content_type :: string
  ir_total_size :: nat

definition default_content_type :: string where "default_content_type = ''application/octet-stream''"

definition init_resumable ::
  "'i storage_lib \<Rightarrow> StorageState \<Rightarrow> int \<Rightarrow> string \<Rightarrow> AuthContext \<Rightarrow> InitResumableParams \<Rightarrow> UploadSession up_action" where
  "init_resumable lib st now uuid auth params =
     abind (alift (require_authenticated_user auth)) (\<lambda>owner.
       if MAX_RESUMABLE_SIZE < ir_total_size params
       then athrow (Validation (''Total size '' @ nat_to_string (ir_total_size params) @ '' exceeds limit '' @
              nat_to_string MAX_RESUMABLE_SIZE @ '' (500MB)''))
       else abind (alift (sanitize_storage_path (ir_path params))) (\<lambda>safe_path.
         if \<not> can_user_write_path auth safe_path then athrow (Forbidden ''Not allowed to write this storage path'')
         else create_session (sl_clock lib) (ss_chunks_dir st) (now * 1000) uuid safe_path (ir_content_type params)
                (ir_total_size params) owner))"

text \<open>What follows a chunk: the path is checked again and a complete upload goes to the storage.\<close>

definition finish_append :: "'i storage_lib \<Rightarrow> StorageState \<Rightarrow> int \<Rightarrow> AuthContext \<Rightarrow> string \<Rightarrow> UploadSession \<Rightarrow> UploadSession up_action" where
  "finish_append lib st now auth sid session =
     (if \<not> can_user_write_path auth (us_path session) then athrow (Forbidden ''Path access denied'')
      else if us_status session = Complete then
        abind (finalize (ss_chunks_dir st) sid) (\<lambda>(data, final_session).
        abind (alift (validate_file_signature lib data (us_content_type final_session))) (\<lambda>_.
        abind (on_disk (ls_upload (ck_rfc3339 (sl_clock lib) (now * 1000)) (ss_root st) (us_path final_session)
                 data (us_content_type final_session))) (\<lambda>_. areturn final_session)))
      else areturn session)"

text \<open>The offset header is \<open>None\<close> when it is missing or not readable text.\<close>

definition append_resumable ::
  "'i storage_lib \<Rightarrow> StorageState \<Rightarrow> int \<Rightarrow> AuthContext \<Rightarrow> string \<Rightarrow> string option \<Rightarrow> string \<Rightarrow> UploadSession up_action" where
  "append_resumable lib st now auth sid upload_offset body =
     abind (alift (require_authenticated_user auth)) (\<lambda>owner.
     abind (alift (ok_or (Validation ''Missing or invalid Upload-Offset header'')
              (Option.bind upload_offset parse_u64))) (\<lambda>offset.
     abind (append_chunk (ss_chunks_dir st) sid offset body owner) (\<lambda>session.
       finish_append lib st now auth sid session)))"

definition get_resumable_status :: "AuthContext \<Rightarrow> string \<Rightarrow> UploadSession up_action" where
  "get_resumable_status auth sid =
     abind (alift (require_authenticated_user auth)) (\<lambda>owner s. (get_session sid owner s, s))"

definition cancel_resumable :: "StorageState \<Rightarrow> AuthContext \<Rightarrow> string \<Rightarrow> string up_action" where
  "cancel_resumable st auth sid =
     abind (alift (require_authenticated_user auth)) (\<lambda>owner.
     abind (cancel (ss_chunks_dir st) sid owner) (\<lambda>_. areturn sid))"

subsection \<open>Batches\<close>

record BatchPresignRequest =
  bp_paths :: "string list"
  bp_ttl_secs :: nat

definition default_ttl :: nat where "default_ttl = 3600"

definition check_batch :: "string list \<Rightarrow> unit ob_result" where
  "check_batch paths =
     (if paths = [] then Inl (Validation ''paths must not be empty'')
      else if MAX_BATCH_PATHS < length paths
      then Inl (Validation (''Too many paths (max '' @ nat_to_string MAX_BATCH_PATHS @ '')'')) else Inr ())"

definition clamp_ttl :: "nat \<Rightarrow> nat" where
  "clamp_ttl ttl = min 86400 (max 60 ttl)"

text \<open>The entries pair a path with its URL.\<close>

definition batch_presign_upload ::
  "'i storage_lib \<Rightarrow> StorageState \<Rightarrow> int \<Rightarrow> AuthContext \<Rightarrow> BatchPresignRequest \<Rightarrow> (string \<times> string) list ob_result" where
  "batch_presign_upload lib st now auth req =
     rbind (require_authenticated_user auth) (\<lambda>_.
     rbind (check_batch (bp_paths req)) (\<lambda>_.
       rmap (\<lambda>raw_path.
         rbind (sanitize_storage_path raw_path) (\<lambda>safe.
           if \<not> can_user_write_path auth safe
           then Inl (Forbidden (''Not allowed to upload to path '' @ [CHR 0x27] @ safe @ [CHR 0x27]))
           else rbind (sign_upload lib (ss_signer st) now safe (clamp_ttl (bp_ttl_secs req))) (\<lambda>url. Inr (safe, url))))
         (bp_paths req)))"

definition batch_presign_download ::
  "'i storage_lib \<Rightarrow> StorageState \<Rightarrow> int \<Rightarrow> AuthContext \<Rightarrow> BatchPresignRequest \<Rightarrow> (string \<times> string) list ob_result" where
  "batch_presign_download lib st now auth req =
     rbind (check_batch (bp_paths req)) (\<lambda>_.
       rmap (\<lambda>raw_path.
         rbind (sanitize_storage_path raw_path) (\<lambda>safe.
           if \<not> (is_public_read_path safe \<or> (au_authenticated auth \<and> can_user_write_path auth safe))
           then Inl (Forbidden (''Not allowed to download path '' @ [CHR 0x27] @ safe @ [CHR 0x27]))
           else rbind (sign_download lib (ss_signer st) now safe (clamp_ttl (bp_ttl_secs req))) (\<lambda>url. Inr (safe, url))))
         (bp_paths req))"

text \<open>A failed deletion is recorded and the loop goes on.\<close>

fun delete_paths :: "StorageState \<Rightarrow> AuthContext \<Rightarrow> string list \<Rightarrow> disk \<Rightarrow> (string list \<times> (string \<times> string) list) \<times> disk" where
  "delete_paths st auth [] d = (([], []), d)"
| "delete_paths st auth (raw_path # paths) d =
     (case sanitize_storage_path raw_path of
        Inl e \<Rightarrow>
          (case delete_paths st auth paths d of ((del, errs), d') \<Rightarrow> ((del, (raw_path, error_to_string e) # errs), d'))
      | Inr safe \<Rightarrow>
          if \<not> can_user_write_path auth safe then
            (case delete_paths st auth paths d of ((del, errs), d') \<Rightarrow> ((del, (safe, ''forbidden'') # errs), d'))
          else (case ls_delete (ss_root st) safe d of
                  (Inr _, d1) \<Rightarrow>
                    (case delete_paths st auth paths d1 of ((del, errs), d') \<Rightarrow> ((safe # del, errs), d'))
                | (Inl e, d1) \<Rightarrow>
                    (case delete_paths st auth paths d1 of
                       ((del, errs), d') \<Rightarrow> ((del, (safe, error_to_string e) # errs), d'))))"

definition batch_delete ::
  "StorageState \<Rightarrow> AuthContext \<Rightarrow> string list \<Rightarrow> (string list \<times> (string \<times> string) list) up_action" where
  "batch_delete st auth paths =
     abind (alift (require_authenticated_user auth)) (\<lambda>_.
     abind (alift (check_batch paths)) (\<lambda>_.
       on_disk (\<lambda>d. case delete_paths st auth paths d of (r, d') \<Rightarrow> (Inr r, d'))))"

end
