(* ===== verification/Storage_Effects.thy ===== *)
theory Storage_Effects
  imports Storage_Local
begin

text \<open>
  Which nodes the operations of the local backend change. On a disk without links every operation
  is confined to \<open>storage_target\<close>, the names of the sanitized path below the root; an upload
  may besides create the directories above it.
\<close>

definition storage_target :: "fs_path \<Rightarrow> string \<Rightarrow> fs_path" where
  "storage_target rdir path = rdir @ path_names (split_on (CHR ''/'') (sanitize_raw path))"

definition eff :: "disk \<Rightarrow> disk \<Rightarrow> fs_path set \<Rightarrow> bool" where
  "eff d d' T \<longleftrightarrow> no_links d' \<and> (\<forall>p. node_at d' p \<noteq> node_at d p \<longrightarrow> p \<in> T)"

definition made_dir :: "disk \<Rightarrow> disk \<Rightarrow> fs_path \<Rightarrow> bool" where
  "made_dir d d' p \<longleftrightarrow> node_at d p = None \<and> node_at d' p = Some Dir"

lemma eff_trans: "eff d d1 A \<Longrightarrow> eff d1 d2 B \<Longrightarrow> eff d d2 (A \<union> B)"
  unfolding eff_def by (metis UnI1 UnI2)

lemma eff_trans_in: "eff d d1 A \<Longrightarrow> eff d1 d2 B \<Longrightarrow> A \<subseteq> C \<Longrightarrow> B \<subseteq> C \<Longrightarrow> eff d d2 C"
  unfolding eff_def by (metis subsetD)

lemma eff_mono: "eff d d' A \<Longrightarrow> A \<subseteq> B \<Longrightarrow> eff d d' B"
  unfolding eff_def by blast

lemma eff_same: "no_links d \<Longrightarrow> same_nodes d d' \<Longrightarrow> eff d d' T"
  unfolding eff_def no_links_def by (simp add: same_nodes_at)

lemma eff_links: "eff d d' T \<Longrightarrow> no_links d'"
  by (simp add: eff_def)

lemma eff_set: "no_links d \<Longrightarrow> same_nodes d d1 \<Longrightarrow> q \<noteq> [] \<Longrightarrow> \<forall>t. n \<noteq> Link t \<Longrightarrow> eff d (set_node q n d1) {q}"
  unfolding eff_def no_links_def by (auto simp: same_nodes_at)

lemma eff_drop: "no_links d \<Longrightarrow> same_nodes d d1 \<Longrightarrow> q \<noteq> [] \<Longrightarrow> eff d (drop_node q d1) {q}"
  unfolding eff_def no_links_def by (auto simp: same_nodes_at)

lemma resolve_no_links:
  "no_links d \<Longrightarrow> ''..'' \<notin> set p \<Longrightarrow> resolve d p = Some q \<Longrightarrow> q = path_names p"
  using walk_no_links [of d p max_links "[]" q] by (simp add: resolve_def)

lemma path_exists_same: "path_exists p d = (b, d') \<Longrightarrow> same_nodes d d'"
  by (auto simp: path_exists_def split: prod.splits dest: next_fault_same)

lemma canonicalize_same: "canonicalize p d = (r, d') \<Longrightarrow> same_nodes d d'"
  by (auto simp: canonicalize_def split: prod.splits if_splits option.splits dest: next_fault_same)

lemma canonicalize_names:
  "no_links d \<Longrightarrow> ''..'' \<notin> set p \<Longrightarrow> canonicalize p d = (Inr q, d') \<Longrightarrow> q = path_names p"
  using resolve_no_links by (auto simp: canonicalize_def split: prod.splits if_splits option.splits)

lemma fs_read_same: "fs_read p d = (r, d') \<Longrightarrow> same_nodes d d'"
  by (auto simp: fs_read_def split: prod.splits if_splits option.splits node.splits dest: next_fault_same)

lemma set_path_names: "set (path_names p) \<subseteq> set p"
  by (auto simp: path_names_def)

lemma same_nodes_trans: "same_nodes d d1 \<Longrightarrow> same_nodes d1 d2 \<Longrightarrow> same_nodes d d2"
  by (simp add: same_nodes_def)

lemma no_links_same: "no_links d \<Longrightarrow> same_nodes d d' \<Longrightarrow> no_links d'"
  by (auto simp: no_links_def dest: same_nodes_at)

subsection \<open>The resolved path\<close>

lemma joined_names:
  assumes "normal_path rdir"
  shows "path_names (path_join rdir (sanitize_raw path)) = storage_target rdir path"
    and "''..'' \<notin> set (path_join rdir (sanitize_raw path))"
  using assms sanitize_raw_relative [of path] sanitized_names_not_up [of _ path]
  by (auto simp: path_join_def storage_target_def path_names_normal normal_path_def)

lemma full_path_names:
  assumes "no_links d" "normal_path rdir" "full_path rdir path d = (r, d')"
  shows "same_nodes d d'"
    and "r = Inr full \<Longrightarrow> ''..'' \<notin> set full \<and> path_names full = storage_target rdir path"
proof -
  define f where "f = path_join rdir (sanitize_raw path)"
  note names = joined_names [OF assms(2), of path, folded f_def]
  have idem: "path_names (path_names f) = path_names f" by (simp add: path_names_def)
  have up: "''..'' \<notin> set (path_names f)" using names(2) set_path_names by blast
  obtain ex d1 where e: "path_exists f d = (ex, d1)" by force
  note s1 = path_exists_same [OF e]
  obtain c d2 where c: "canonicalize f d1 = (c, d2)" by force
  note s2 = canonicalize_same [OF c]
  have canon: "q = path_names f" if "c = Inr q" for q
    using canonicalize_names [OF no_links_same [OF assms(1) s1] names(2)] c that by simp
  show "same_nodes d d'"
    using assms(3) e c s1 same_nodes_trans [OF s1 s2] unfolding full_path_def f_def [symmetric] Let_def
    by (auto split: if_splits sum.splits)
  show "''..'' \<notin> set full \<and> path_names full = storage_target rdir path" if "r = Inr full"
  proof -
    have "full = f \<or> full = path_names f"
      using assms(3) e c canon that unfolding full_path_def f_def [symmetric] Let_def
      by (auto split: if_splits sum.splits)
    then show ?thesis using names up idem by auto
  qed
qed

subsection \<open>The effect of the calls\<close>

lemma open_target_names:
  assumes "no_links d" "''..'' \<notin> set p" "open_target d p = Inr q"
  shows "q = path_names p" "q \<noteq> []"
proof -
  obtain r where r: "resolve d p = Some r" "q = r"
    using assms(3) by (auto simp: open_target_def split: option.splits node.splits if_splits)
  then show "q = path_names p" using resolve_no_links [OF assms(1,2)] by simp
  show "q \<noteq> []" using assms(3) r by (auto simp: open_target_def)
qed

lemma fs_write_eff:
  assumes "no_links d" "''..'' \<notin> set p" "fs_write p bytes d = (r, d')"
  shows "eff d d' {path_names p}"
proof -
  obtain f d1 where f: "next_fault d = (f, d1)" by force
  note same = next_fault_same [OF f]
  show ?thesis
  proof (cases "open_target d p")
    case (Inl e)
    then show ?thesis using assms(3) f eff_same [OF assms(1) same] by (simp add: fs_write_def)
  next
    case (Inr q)
    note q = open_target_names [OF assms(1,2) Inr]
    show ?thesis
      using assms(3) f Inr eff_same [OF assms(1) same] eff_set [OF assms(1) same q(2)] q(1)
      by (cases f) (auto simp: fs_write_def)
  qed
qed

lemma fs_open_append_eff:
  assumes "no_links d" "''..'' \<notin> set p" "fs_open_append p d = (r, d')"
  shows "eff d d' {path_names p}" and "r = Inr q \<Longrightarrow> q = path_names p \<and> q \<noteq> []"
proof -
  obtain f d1 where f: "next_fault d = (f, d1)" by force
  note same = next_fault_same [OF f]
  show "eff d d' {path_names p}"
  proof (cases "open_target d p")
    case (Inl e)
    then show ?thesis using assms(3) f eff_same [OF assms(1) same] by (simp add: fs_open_append_def)
  next
    case (Inr q)
    note q = open_target_names [OF assms(1,2) Inr]
    show ?thesis
      using assms(3) f Inr eff_same [OF assms(1) same] eff_set [OF assms(1) same q(2)] q(1)
      by (auto simp: fs_open_append_def split: if_splits)
  qed
  show "q = path_names p \<and> q \<noteq> []" if "r = Inr q"
    using assms(3) f that open_target_names [OF assms(1,2)]
    by (auto simp: fs_open_append_def split: sum.splits if_splits)
qed

lemma fs_append_eff:
  assumes "no_links d" "q \<noteq> []" "fs_append q bytes d = (r, d')"
  shows "eff d d' {q}"
proof -
  obtain f d1 where f: "next_fault d = (f, d1)" by force
  note same = next_fault_same [OF f]
  show ?thesis
    using assms(3) f eff_same [OF assms(1) same] eff_set [OF assms(1) same assms(2)]
    by (cases f) (auto simp: fs_append_def)
qed

lemma fs_remove_file_eff:
  assumes "no_links d" "''..'' \<notin> set p" "fs_remove_file p d = (r, d')"
  shows "eff d d' {path_names p}"
proof -
  obtain f d1 where f: "next_fault d = (f, d1)" by force
  note same = next_fault_same [OF f]
  show ?thesis
  proof (cases "same_nodes d d'")
    case True
    then show ?thesis using eff_same [OF assms(1)] by blast
  next
    case False
    then have p: "p \<noteq> []" "last p \<notin> {[], ''.'', ''..''}" and q: "resolve d (butlast p) \<noteq> None"
      and d': "\<And>q. resolve d (butlast p) = Some q \<Longrightarrow> d' = drop_node (q @ [last p]) d1"
      using assms(3) f same
      by (auto simp: fs_remove_file_def split: if_splits option.splits node.splits)
    obtain q where q: "resolve d (butlast p) = Some q" using q by blast
    have "''..'' \<notin> set (butlast p)" using assms(2) by (meson in_set_butlastD)
    then have "q = path_names (butlast p)" using resolve_no_links [OF assms(1) _ q] by simp
    moreover have "path_names p = path_names (butlast p) @ [last p]"
      using p path_names_append [of "butlast p" "[last p]"] by (simp add: path_names_def)
    ultimately have eq: "path_names p = q @ [last p]" by simp
    show ?thesis unfolding d' [OF q] eq by (rule eff_drop [OF assms(1) same]) simp
  qed
qed

lemma create_dirs_eff:
  assumes "no_links d" "normal_path (base @ cs)" "create_dirs base cs d = (r, d')"
  shows "no_links d' \<and> (\<forall>p. node_at d' p \<noteq> node_at d p \<longrightarrow> prefix p (base @ cs) \<and> made_dir d d' p)"
  using assms
proof (induction base cs d rule: create_dirs.induct)
  case (1 base d)
  then show ?case by simp
next
  case (2 base c cs d)
  have norm: "normal_path (base @ [c])" "normal_path ((base @ [c]) @ cs)"
    using "2.prems"(2) by (auto simp: normal_path_def)
  then have up: "''..'' \<notin> set (base @ [c])" by (auto simp: normal_path_def)
  have ids: "path_names (base @ [c]) = base @ [c]" using path_names_normal [OF norm(1)] .
  obtain f d1 where f: "next_fault d = (f, d1)" by force
  note same = next_fault_same [OF f]
  consider (stop) "same_nodes d d'"
    | (dir) "create_dirs (base @ [c]) cs d = (r, d')" "resolve d (base @ [c]) = Some (base @ [c])"
        "node_at d (base @ [c]) = Some Dir"
    | (mkdir) "create_dirs (base @ [c]) cs (set_node (base @ [c]) Dir d1) = (r, d')"
        "resolve d (base @ [c]) = Some (base @ [c])" "node_at d (base @ [c]) = None" "f = NoFault"
    using "2.prems"(3) f same resolve_no_links [OF "2.prems"(1) up] ids
    by (auto split: option.splits node.splits if_splits)
  then show ?case
  proof cases
    case stop
    then show ?thesis using no_links_same [OF "2.prems"(1)] same_nodes_at by (metis (no_types))
  next
    case dir
    then show ?thesis using "2.IH"(2) [OF dir(2,3)] "2.prems"(1) norm(2) by simp
  next
    case mkdir
    let ?d = "set_node (base @ [c]) Dir d1"
    have e: "eff d ?d {base @ [c]}" using eff_set [OF "2.prems"(1) same] by simp
    have at: "node_at ?d p = (if p = base @ [c] then Some Dir else node_at d p)" for p
      using same by (simp add: same_nodes_at)
    have ih: "no_links d' \<and> (\<forall>p. node_at d' p \<noteq> node_at ?d p \<longrightarrow> prefix p (base @ [c] @ cs) \<and> made_dir ?d d' p)"
      using "2.IH"(1) [OF mkdir(2,3) f [symmetric]] mkdir eff_links [OF e] norm(2) by simp
    moreover have "prefix (base @ [c]) (base @ c # cs)" by simp
    ultimately show ?thesis using at mkdir(3) unfolding made_dir_def by (simp only: append_Cons append_Nil) metis
  qed
qed

subsection \<open>The effect of the backend\<close>

lemma io_error_eq: "io_error k msg c d = (r, d') \<Longrightarrow> \<exists>r0. c d = (r0, d')"
  by (auto simp: io_error_def amap_err_def split: prod.splits)

lemma ls_delete_eff:
  assumes "no_links d" "normal_path rdir" "ls_delete rdir path d = (r, d')"
  shows "eff d d' {storage_target rdir path}"
proof -
  obtain f d1 where f: "full_path rdir path d = (f, d1)" by force
  note fp = full_path_names [OF assms(1,2) f]
  note d1 = no_links_same [OF assms(1) fp(1)]
  show ?thesis
  proof (cases f)
    case (Inl e)
    then show ?thesis using assms(3) f eff_same [OF assms(1) fp(1)] by (simp add: ls_delete_def abind_def)
  next
    case (Inr full)
    then obtain r0 where "fs_remove_file full d1 = (r0, d')"
      using assms(3) f by (auto simp: ls_delete_def abind_def dest: io_error_eq)
    then have "eff d1 d' {storage_target rdir path}"
      using fs_remove_file_eff [OF d1] fp(2) [OF Inr] by metis
    then show ?thesis using eff_trans_in [OF eff_same [OF assms(1) fp(1), of "{}"]] by blast
  qed
qed

lemma parent_names: "path_parent p = Some q \<Longrightarrow> q = butlast (path_names p) \<and> path_names p \<noteq> []"
  by (auto simp: path_parent_def split: if_splits)

lemma normal_names: "''..'' \<notin> set p \<Longrightarrow> normal_path (path_names p)"
  by (auto simp: normal_path_def path_names_def)

lemma normal_butlast: "normal_path p \<Longrightarrow> normal_path (butlast p)"
  by (auto simp: normal_path_def dest: in_set_butlastD)

text \<open>An upload changes its target, and creates directories above it that were missing.\<close>

lemma ls_upload_eff:
  assumes "no_links d" "normal_path rdir" "ls_upload now rdir path data ct d = (r, d')"
    and "node_at d' p \<noteq> node_at d p"
  shows "p = storage_target rdir path \<or> strict_prefix p (storage_target rdir path) \<and> made_dir d d' p"
proof -
  let ?t = "storage_target rdir path"
  obtain f d1 where f: "full_path rdir path d = (f, d1)" by force
  note fp = full_path_names [OF assms(1,2) f]
  note d1 = no_links_same [OF assms(1) fp(1)]
  have "\<exists>full. f = Inr full"
    using assms(3,4) f same_nodes_at [OF fp(1)] by (cases f) (auto simp: ls_upload_def abind_def)
  then obtain full where full: "f = Inr full" by blast
  note names = fp(2) [OF full]
  define mk where "mk = (case path_parent full of None \<Rightarrow> areturn ()
     | Some parent \<Rightarrow> io_error Internal ''Failed to create dirs: '' (create_dir_all parent))"
  obtain m d2 where m: "mk d1 = (m, d2)" by force
  have dirs: "no_links d2 \<and> (\<forall>p. node_at d2 p \<noteq> node_at d1 p \<longrightarrow> strict_prefix p ?t \<and> made_dir d1 d2 p)"
  proof (cases "path_parent full")
    case None
    then show ?thesis using m d1 by (simp add: mk_def)
  next
    case (Some parent)
    note pn = parent_names [OF Some]
    have np: "normal_path parent" using names pn normal_butlast [OF normal_names [of full]] by metis
    have "path_names parent = parent" using path_names_normal [OF np] .
    then obtain r0 where "create_dirs [] parent d1 = (r0, d2)"
      using m Some by (auto simp: mk_def create_dir_all_def dest!: io_error_eq)
    then have "no_links d2 \<and> (\<forall>p. node_at d2 p \<noteq> node_at d1 p \<longrightarrow> prefix p parent \<and> made_dir d1 d2 p)"
      using create_dirs_eff [OF d1, of "[]" parent] np by simp
    moreover have "strict_prefix parent ?t"
      using pn names by (metis append_butlast_last_id strict_prefixI')
    ultimately show ?thesis by (metis prefix_order.le_less_trans)
  qed
  show ?thesis
  proof (cases m)
    case (Inl e)
    then have "d' = d2" using assms(3) f full m by (simp add: ls_upload_def abind_def mk_def [symmetric])
    then show ?thesis using dirs assms(4) same_nodes_at [OF fp(1)] by (simp add: made_dir_def)
  next
    case (Inr u)
    obtain w d3 where w: "fs_write full data d2 = (w, d3)" by force
    have "d' = d3"
      using assms(3) f full m Inr w
      by (cases w) (auto simp: ls_upload_def abind_def mk_def [symmetric] io_error_def amap_err_def)
    moreover have "eff d2 d3 {?t}" using fs_write_eff [OF _ _ w] dirs names by metis
    ultimately show ?thesis
      using dirs assms(4) same_nodes_at [OF fp(1)] unfolding eff_def made_dir_def by (metis singletonD)
  qed
qed

subsection \<open>Success\<close>

text \<open>When nothing is in the way and no call fails, the data of an upload is at its target.\<close>

definition all_dirs :: "disk \<Rightarrow> fs_path \<Rightarrow> bool" where
  "all_dirs d p \<longleftrightarrow> (\<forall>q. prefix q p \<longrightarrow> node_at d q = Some Dir)"

definition dirs_free :: "disk \<Rightarrow> fs_path \<Rightarrow> bool" where
  "dirs_free d p \<longleftrightarrow> (\<forall>q. prefix q p \<longrightarrow> node_at d q \<in> {None, Some Dir})"

lemma all_dirs_snoc: "all_dirs d (p @ [c]) \<longleftrightarrow> all_dirs d p \<and> node_at d (p @ [c]) = Some Dir"
  by (auto simp: all_dirs_def)

lemma all_dirs_prefix: "all_dirs d p \<Longrightarrow> prefix q p \<Longrightarrow> all_dirs d q"
  unfolding all_dirs_def by (meson prefix_order.trans)

lemma walk_all_dirs:
  assumes "normal_path p" "all_dirs d (acc @ p)"
  shows "walk d n acc (p @ cs) = walk d n (acc @ p) cs"
  using assms
proof (induction p arbitrary: acc)
  case (Cons c p)
  have "node_at d acc = Some Dir" "node_at d (acc @ [c]) = Some Dir"
    using Cons.prems(2) unfolding all_dirs_def by (simp_all add: prefix_def)
  moreover have "c \<noteq> []" "c \<noteq> ''.''" "c \<noteq> ''..''" "normal_path p"
    using Cons.prems(1) by (auto simp: normal_path_def)
  ultimately show ?case using Cons.IH [of "acc @ [c]"] Cons.prems(2) by simp
qed simp

lemma resolve_dir: "normal_path p \<Longrightarrow> all_dirs d p \<Longrightarrow> resolve d p = Some p"
  using walk_all_dirs [of p d "[]" max_links "[]"] by (simp add: resolve_def)

lemma resolve_leaf:
  assumes "normal_path (p @ [c])" "all_dirs d p" "\<forall>t. node_at d (p @ [c]) \<noteq> Some (Link t)"
  shows "resolve d (p @ [c]) = Some (p @ [c])"
proof -
  have c: "c \<noteq> []" "c \<noteq> ''.''" "c \<noteq> ''..''" and p: "normal_path p" using assms(1) by (auto simp: normal_path_def)
  have "node_at d p = Some Dir" using assms(2) by (simp add: all_dirs_def)
  then have "walk d max_links p [c] = Some (p @ [c])"
    using c assms(3) by (auto split: option.splits node.splits)
  then show ?thesis using walk_all_dirs [OF p, of d "[]" max_links "[c]"] assms(2) by (simp add: resolve_def)
qed

lemma create_dirs_ok:
  assumes "d_faults d = []" "no_links d" "normal_path (base @ cs)" "all_dirs d base" "dirs_free d (base @ cs)"
  shows "\<exists>d'. create_dirs base cs d = (Inr (), d') \<and> d_faults d' = [] \<and> all_dirs d' (base @ cs)"
  using assms
proof (induction cs arbitrary: base d)
  case (Cons c cs)
  have n: "normal_path (base @ [c])" using Cons.prems(3) by (auto simp: normal_path_def)
  have r: "resolve d (base @ [c]) = Some (base @ [c])"
    using resolve_leaf [OF n Cons.prems(4)] Cons.prems(2) by (simp add: no_links_def)
  have free: "node_at d (base @ [c]) \<in> {None, Some Dir}"
    using Cons.prems(5) unfolding dirs_free_def by (metis append_Cons append_Nil append_assoc prefixI)
  show ?case
  proof (cases "node_at d (base @ [c])")
    case None
    let ?d = "set_node (base @ [c]) Dir d"
    have "all_dirs ?d (base @ [c])" using Cons.prems(4) by (auto simp: all_dirs_def)
    moreover have "no_links ?d" using Cons.prems(2) by (auto simp: no_links_def)
    moreover have "dirs_free ?d ((base @ [c]) @ cs)" using Cons.prems(5) by (auto simp: dirs_free_def)
    ultimately have "\<exists>d'. create_dirs (base @ [c]) cs ?d = (Inr (), d') \<and> d_faults d' = [] \<and> all_dirs d' ((base @ [c]) @ cs)"
      using Cons.IH [of ?d "base @ [c]"] Cons.prems(1,3) by simp
    then show ?thesis using None r Cons.prems(1) by simp
  next
    case (Some x)
    then have dir: "node_at d (base @ [c]) = Some Dir" using free by simp
    then have "all_dirs d (base @ [c])" using Cons.prems(4) by (simp add: all_dirs_snoc)
    then have "\<exists>d'. create_dirs (base @ [c]) cs d = (Inr (), d') \<and> d_faults d' = [] \<and> all_dirs d' ((base @ [c]) @ cs)"
      using Cons.IH [of d "base @ [c]"] Cons.prems by simp
    then show ?thesis using dir r by simp
  qed
qed auto

text \<open>A path without empty or dot names stands for itself below the root.\<close>

definition plain_path :: "string \<Rightarrow> bool" where
  "plain_path path \<longleftrightarrow> sanitize_raw path = path \<and> normal_path (split_on (CHR ''/'') path)"

lemma plain_target: "plain_path path \<Longrightarrow> storage_target rdir path = rdir @ split_on (CHR ''/'') path"
  by (simp add: plain_path_def storage_target_def path_names_normal)

lemma full_path_plain:
  assumes "d_faults d = []" "no_links d" "normal_path rdir" "plain_path path"
  shows "full_path rdir path d = (Inr (storage_target rdir path), d)"
proof -
  let ?t = "storage_target rdir path"
  have j: "path_join rdir (sanitize_raw path) = ?t"
    using assms(4) sanitize_raw_relative [of path] by (simp add: path_join_def plain_target plain_path_def)
  have n: "path_names ?t = ?t" and up: "''..'' \<notin> set ?t"
    using joined_names [OF assms(3), of path] unfolding j by simp_all
  have res: "resolve d ?t = Some q \<Longrightarrow> q = ?t" for q using resolve_no_links [OF assms(2) up] n by simp
  show ?thesis
  proof (cases "fst (path_exists ?t d)")
    case True
    then have "resolve d ?t = Some ?t" "node_at d ?t \<noteq> None"
      using res assms(1) by (auto simp: path_exists_def split: option.splits)
    moreover have "prefix rdir ?t" by (simp add: storage_target_def)
    ultimately show ?thesis
      using assms(1) True j by (simp add: full_path_def Let_def path_exists_def canonicalize_def)
  next
    case False
    then show ?thesis
      using assms(1) j by (simp add: full_path_def Let_def path_exists_def split: option.splits)
  qed
qed

lemma target_not_Nil [simp]: "plain_path path \<Longrightarrow> storage_target rdir path \<noteq> []"
  by (simp add: plain_target)

lemma target_normal: "normal_path rdir \<Longrightarrow> plain_path path \<Longrightarrow> normal_path (storage_target rdir path)"
  by (auto simp: plain_target plain_path_def normal_path_def)

text \<open>A file whose directories exist is found at its own path.\<close>

definition stored :: "disk \<Rightarrow> fs_path \<Rightarrow> string \<Rightarrow> bool" where
  "stored d t data \<longleftrightarrow> t \<noteq> [] \<and> all_dirs d (butlast t) \<and> node_at d t = Some (File data)"

lemma resolve_leaf_of:
  assumes "normal_path t" "t \<noteq> []" "all_dirs d (butlast t)" "no_links d"
  shows "resolve d t = Some t"
  using resolve_leaf [of "butlast t" "last t" d] assms by (simp add: no_links_def)

lemma ls_upload_ok:
  assumes "d_faults d = []" "no_links d" "normal_path rdir" "plain_path path"
    and "dirs_free d (butlast (storage_target rdir path))" "node_at d (storage_target rdir path) \<noteq> Some Dir"
  shows "\<exists>d'. ls_upload now rdir path data ct d = (Inr (new_meta now path (length data) ct), d') \<and>
     stored d' (storage_target rdir path) data \<and> no_links d' \<and> d_faults d' = []"
proof -
  let ?t = "storage_target rdir path"
  have t: "?t \<noteq> []" "normal_path ?t" using assms(3,4) target_normal by simp_all
  have nb: "normal_path (butlast ?t)" using t(2) normal_butlast by blast
  have parent: "path_parent ?t = Some (butlast ?t)" "path_names (butlast ?t) = butlast ?t"
    using t path_names_normal [OF t(2)] path_names_normal [OF nb] by (simp_all add: path_parent_def)
  obtain d2 where d2: "create_dirs [] (butlast ?t) d = (Inr (), d2)" "d_faults d2 = []" "all_dirs d2 (butlast ?t)"
    using create_dirs_ok [OF assms(1,2), of "[]" "butlast ?t"] nb assms(5) by (auto simp: all_dirs_def)
  have e: "no_links d2 \<and> (\<forall>p. node_at d2 p \<noteq> node_at d p \<longrightarrow> prefix p (butlast ?t))"
    using create_dirs_eff [OF assms(2) _ d2(1)] nb by simp
  have "\<not> prefix ?t (butlast ?t)" using t(1) prefix_length_le [of ?t "butlast ?t"] by (metis length_butlast diff_less length_greater_0_conv leD less_numeral_extra(1))
  then have same: "node_at d2 ?t = node_at d ?t" using e by blast
  have "resolve d2 ?t = Some ?t" using resolve_leaf_of [OF t(2,1) d2(3)] e by blast
  moreover have "node_at d2 (butlast ?t) = Some Dir" using d2(3) by (simp add: all_dirs_def)
  ultimately have "open_target d2 ?t = Inr ?t"
    using same assms(6) by (auto simp: open_target_def split: option.splits node.splits)
  then have w: "fs_write ?t data d2 = (Inr (), set_node ?t (File data) d2)"
    using d2(2) by (simp add: fs_write_def)
  let ?d = "set_node ?t (File data) d2"
  have "all_dirs ?d (butlast ?t)"
    using d2(3) t(1) \<open>\<not> prefix ?t (butlast ?t)\<close> by (auto simp: all_dirs_def)
  then have "stored ?d ?t data" using t(1) by (simp add: stored_def)
  moreover have "no_links ?d" using e t(1) by (auto simp: no_links_def)
  moreover have "ls_upload now rdir path data ct d = (Inr (new_meta now path (length data) ct), ?d)"
    using full_path_plain [OF assms(1,2,3,4)] parent d2(1) w
    by (simp add: ls_upload_def abind_def io_error_def amap_err_def create_dir_all_def)
  ultimately show ?thesis using d2(2) by simp
qed

lemma stored_resolve:
  "stored d t data \<Longrightarrow> no_links d \<Longrightarrow> normal_path t \<Longrightarrow> resolve d t = Some t"
  using resolve_leaf_of by (simp add: stored_def)

lemma ls_download_ok:
  assumes "d_faults d = []" "no_links d" "normal_path rdir" "plain_path path" "stored d (storage_target rdir path) data"
  shows "ls_download rdir path d = (Inr data, d)"
  using full_path_plain [OF assms(1-4)] stored_resolve [OF assms(5,2) target_normal [OF assms(3,4)]] assms(1,5)
  by (simp add: ls_download_def abind_def io_error_def amap_err_def fs_read_def stored_def)

lemma ls_metadata_ok:
  assumes "d_faults d = []" "no_links d" "normal_path rdir" "plain_path path" "stored d (storage_target rdir path) data"
  shows "ls_metadata now rdir path d = (Inr (new_meta now path (length data) (guess_content_type path)), d)"
  using full_path_plain [OF assms(1-4)] stored_resolve [OF assms(5,2) target_normal [OF assms(3,4)]] assms(1,5)
  by (simp add: ls_metadata_def abind_def io_error_def amap_err_def fs_metadata_len_def stored_def)

end
