(* ===== verification/Storage_Roundtrip.thy ===== *)
theory Storage_Roundtrip
  imports Storage_Safety
begin

text \<open>
  Uploads are read back as they were sent: through signed URLs, and in chunks through a session.
  The chunk protocol is only safe one request at a time: two overlapping chunks both succeed
  and the file holds both of them.
\<close>

subsection \<open>Upload and download through signed URLs\<close>

lemma plain_sanitized: "plain_path path \<Longrightarrow> sanitize_storage_path path = Inr path"
proof -
  assume p: "plain_path path"
  then have n: "normal_path (split_on (CHR ''/'') path)" and r: "sanitize_raw path = path"
    by (simp_all add: plain_path_def)
  have "path \<noteq> []" using n unfolding normal_path_def by (metis list.set_intros(1) split_on.simps(1))
  moreover have "\<not> list_ex (\<lambda>c. c = ''.'' \<or> c = [] \<and> sublist ''//'' path) (split_on (CHR ''/'') path)"
    using n unfolding normal_path_def list_ex_iff by blast
  ultimately show ?thesis using r by (simp add: sanitize_storage_path_def)
qed

definition target_free :: "disk \<Rightarrow> fs_path \<Rightarrow> bool" where
  "target_free d t \<longleftrightarrow> dirs_free d (butlast t) \<and> node_at d t \<noteq> Some Dir"

definition attachment_header :: "string \<Rightarrow> string \<Rightarrow> string" where
  "attachment_header content_type path =
     (if starts_with ''image/'' content_type \<and> \<not> sublist ''svg'' content_type then ''inline'' else ''attachment'')
       @ ''; filename='' @ [CHR 0x22] @ last_segment path @ [CHR 0x22]"

text \<open>
  C24. A file uploaded through a signed URL is returned unchanged by a download through a signed URL, on a healthy disk where nothing
  is in the way of the path. The content type of the answer comes from the extension of the path, not
  from the type checked at upload, and the answer is an attachment unless that type is an
  image other than SVG.
\<close>

theorem upload_then_download:
  assumes "d_faults (up_disk s) = []" "no_links (up_disk s)" "normal_path (ss_root st)" "plain_path path"
    and "target_free (up_disk s) (storage_target (ss_root st) path)" "length body \<le> MAX_UPLOAD_SIZE"
    and "verify_url lib (ss_signer st) now ''PUT'' path (sp_expires up) (sp_sig up) = Inr True"
    and "verify_url lib (ss_signer st) later ''GET'' path (dp_expires down) (dp_sig down) = Inr True"
    and "validate_file_signature lib body ct = Inr ()" "\<not> has_transforms (dp_transform down)"
  shows "\<exists>meta s'. upload_file lib st now path up (Some ct) body s = (Inr meta, s') \<and>
     download_file lib st later path down s' =
       (Inr \<lparr>dr_content_type = guess_content_type path,
             dr_disposition = attachment_header (guess_content_type path) path,
             dr_length = length body, dr_body = body\<rparr>, s')"
proof -
  have free: "dirs_free (up_disk s) (butlast (storage_target (ss_root st) path))"
      "node_at (up_disk s) (storage_target (ss_root st) path) \<noteq> Some Dir"
    using assms(5) by (simp_all add: target_free_def)
  obtain d' where d': "ls_upload (ck_rfc3339 (sl_clock lib) (now * 1000)) (ss_root st) path body ct (up_disk s) =
        (Inr (new_meta (ck_rfc3339 (sl_clock lib) (now * 1000)) path (length body) ct), d')"
      and st': "stored d' (storage_target (ss_root st) path) body" "no_links d'" "d_faults d' = []"
    using ls_upload_ok [OF assms(1-4) free] by blast
  let ?s = "s\<lparr>up_disk := d'\<rparr>"
  have "upload_file lib st now path up (Some ct) body s =
      (Inr (new_meta (ck_rfc3339 (sl_clock lib) (now * 1000)) path (length body) ct), ?s)"
    using assms(6,7,9) d' plain_sanitized [OF assms(4)]
    by (simp add: upload_file_def check_url_def on_disk_def)
  moreover have "download_file lib st later path down ?s =
      (Inr \<lparr>dr_content_type = guess_content_type path,
             dr_disposition = attachment_header (guess_content_type path) path,
             dr_length = length body, dr_body = body\<rparr>, ?s)"
    using assms(8,10) plain_sanitized [OF assms(4)] ls_download_ok [OF st'(3,2) assms(3,4) st'(1)]
      ls_metadata_ok [OF st'(3,2) assms(3,4) st'(1)]
    by (simp add: download_file_def check_url_def on_disk_def abind_def new_meta_def attachment_header_def Let_def)
  ultimately show ?thesis by blast
qed

definition no_transform :: TransformParams where
  "no_transform = \<lparr>tp_w = None, tp_h = None, tp_fit = default_fit, tp_q = None, tp_format = None\<rparr>"

lemma sample_plain: "plain_path ''users/u1/f.html''"
proof -
  have "sanitize_raw ''users/u1/f.html'' = ''users/u1/f.html''" by code_simp
  moreover have "split_on (CHR ''/'') ''users/u1/f.html'' = [''users'', ''u1'', ''f.html'']" by simp
  ultimately show ?thesis by (simp add: plain_path_def normal_path_def)
qed

lemma sample_target: "storage_target (ss_root sample_st) ''users/u1/f.html'' = [''data'', ''users'', ''u1'', ''f.html'']"
  by code_simp

lemma sample_free: "target_free (up_disk sample_files) [''data'', ''users'', ''u1'', ''f.html'']"
  by (auto simp: target_free_def dirs_free_def sample_files_def sample_disk_def node_at_def prefix_Cons)

theorem upload_then_download_witness:
  "\<exists>meta s'. upload_file sample_lib sample_st 0 ''users/u1/f.html''
       \<lparr>sp_expires = 9, sp_sig = sign_message ''PUT'' ''users/u1/f.html'' 9\<rparr> (Some ''application/octet-stream'') ''<b>'' sample_files
       = (Inr meta, s') \<and>
     download_file sample_lib sample_st 5 ''users/u1/f.html''
       \<lparr>dp_expires = 9, dp_sig = sign_message ''GET'' ''users/u1/f.html'' 9, dp_transform = no_transform\<rparr> s' =
       (Inr \<lparr>dr_content_type = guess_content_type ''users/u1/f.html'',
             dr_disposition = attachment_header (guess_content_type ''users/u1/f.html'') ''users/u1/f.html'',
             dr_length = length ''<b>'', dr_body = ''<b>''\<rparr>, s')"
proof -
  have v: "verify_url sample_lib g 0 m p 9 (sign_message m p 9) = Inr True"
    "verify_url sample_lib g 5 m p 9 (sign_message m p 9) = Inr True" for g m p
    by (simp_all add: verify_url_def hmac_init_def sample_lib_def)
  have c: "validate_file_signature sample_lib ''<b>'' ''application/octet-stream'' = Inr ()"
    by (simp add: validate_file_signature_def ALLOWED_UPLOAD_TYPES_def)
  have f: "d_faults (up_disk sample_files) = []" by (simp add: sample_files_def sample_disk_def)
  show ?thesis
    using upload_then_download [OF f sample_no_links(1) sample_normal(1) sample_plain, of "''<b>''" sample_lib 0
        "\<lparr>sp_expires = 9, sp_sig = sign_message ''PUT'' ''users/u1/f.html'' 9\<rparr>" 5
        "\<lparr>dp_expires = 9, dp_sig = sign_message ''GET'' ''users/u1/f.html'' 9, dp_transform = no_transform\<rparr>"
        "''application/octet-stream''"]
      v c sample_free by (simp add: sample_target MAX_UPLOAD_SIZE_def no_transform_def has_transforms_def)
qed

subsection \<open>Chunked uploads\<close>

fun send_chunks ::
  "'i storage_lib \<Rightarrow> StorageState \<Rightarrow> int \<Rightarrow> AuthContext \<Rightarrow> string \<Rightarrow> nat \<Rightarrow> string \<Rightarrow> string list \<Rightarrow> UploadSession up_action" where
  "send_chunks lib st now auth sid off c [] s = append_resumable lib st now auth sid (Some (nat_to_string off)) c s"
| "send_chunks lib st now auth sid off c (c' # cs) s =
     (case append_resumable lib st now auth sid (Some (nat_to_string off)) c s of
        (Inl e, s') \<Rightarrow> (Inl e, s')
      | (Inr v, s') \<Rightarrow> send_chunks lib st now auth sid (off + length c) c' cs s')"

text \<open>The state of an upload of which \<open>sofar\<close> has arrived; nothing but the chunk file has changed since \<open>d0\<close>.\<close>

definition uploading :: "fs_path \<Rightarrow> disk \<Rightarrow> string \<Rightarrow> UploadSession \<Rightarrow> string \<Rightarrow> upload_state \<Rightarrow> bool" where
  "uploading cd d0 sid v sofar s \<longleftrightarrow>
     map_of (up_sessions s) sid = Some (v\<lparr>us_bytes_received := length sofar\<rparr>) \<and>
     d_faults (up_disk s) = [] \<and> no_links (up_disk s) \<and> all_dirs (up_disk s) cd \<and>
     (node_at (up_disk s) (cd @ [sid]) = Some (File sofar) \<or>
      node_at (up_disk s) (cd @ [sid]) = None \<and> sofar = []) \<and>
     (\<forall>q. q \<noteq> cd @ [sid] \<longrightarrow> node_at (up_disk s) q = node_at d0 q)"

lemma all_dirs_set_leaf: "all_dirs d cd \<Longrightarrow> all_dirs (set_node (cd @ [c]) n d) cd"
  by (auto simp: all_dirs_def)

lemma append_file_uploading:
  assumes "uploading cd d0 sid v sofar s" "normal_path cd" "plain_id sid"
  shows "append_file cd sid data s =
     (Inr (), s\<lparr>up_disk := set_node (cd @ [sid]) (File (sofar @ data))
        (if node_at (up_disk s) (cd @ [sid]) = None then set_node (cd @ [sid]) (File []) (up_disk s) else up_disk s)\<rparr>)"
proof -
  let ?f = "cd @ [sid]" and ?d = "up_disk s"
  have s: "d_faults ?d = []" "no_links ?d" "all_dirs ?d cd"
    "node_at ?d ?f = Some (File sofar) \<or> node_at ?d ?f = None \<and> sofar = []"
    using assms(1) by (simp_all add: uploading_def)
  have "resolve ?d ?f = Some ?f"
    using resolve_leaf [OF plain_id_normal [OF assms(3,2)] s(3)] s(2) by (simp add: no_links_def)
  moreover have "node_at ?d cd = Some Dir" using s(3) by (simp add: all_dirs_def)
  ultimately have "open_target ?d ?f = Inr ?f" using s(4) by (auto simp: open_target_def)
  then have "fs_open_append ?f ?d =
      (Inr ?f, if node_at ?d ?f = None then set_node ?f (File []) ?d else ?d)"
    using s(1) by (simp add: fs_open_append_def)
  then show ?thesis
    using s(1,4) by (auto simp: append_file_def on_disk_def abind_def io_error_def amap_err_def
        plain_id_join [OF assms(3)] fs_append_def file_bytes_def)
qed

lemma append_file_step:
  assumes "uploading cd d0 sid v sofar s" "normal_path cd" "plain_id sid"
  shows "\<exists>s1. append_file cd sid data s = (Inr (), s1) \<and> up_sessions s1 = up_sessions s \<and>
     d_faults (up_disk s1) = [] \<and> no_links (up_disk s1) \<and> all_dirs (up_disk s1) cd \<and>
     node_at (up_disk s1) (cd @ [sid]) = Some (File (sofar @ data)) \<and>
     (\<forall>q. q \<noteq> cd @ [sid] \<longrightarrow> node_at (up_disk s1) q = node_at d0 q)"
proof -
  let ?d = "set_node (cd @ [sid]) (File (sofar @ data))
        (if node_at (up_disk s) (cd @ [sid]) = None then set_node (cd @ [sid]) (File []) (up_disk s) else up_disk s)"
  have "d_faults (up_disk s) = []" "no_links (up_disk s)" "all_dirs (up_disk s) cd"
    "\<forall>q. q \<noteq> cd @ [sid] \<longrightarrow> node_at (up_disk s) q = node_at d0 q"
    using assms(1) by (simp_all add: uploading_def)
  moreover from this have "all_dirs ?d cd" by (simp add: all_dirs_set_leaf)
  moreover have "no_links ?d" using \<open>no_links (up_disk s)\<close> by (auto simp: no_links_def)
  ultimately show ?thesis using append_file_uploading [OF assms, of data] by simp
qed

lemma append_chunk_uploading:
  assumes "uploading cd d0 sid v sofar s" "normal_path cd" "plain_id sid"
    and "us_status v = InProgress" "us_owner v = owner" "owner \<noteq> []"
    and "length sofar + length data \<le> us_total_size v"
  shows "\<exists>s'. append_chunk cd sid (length sofar) data owner s =
       (Inr (received data (v\<lparr>us_bytes_received := length sofar\<rparr>)), s') \<and>
     map_of (up_sessions s') sid = Some (received data (v\<lparr>us_bytes_received := length sofar\<rparr>)) \<and>
     d_faults (up_disk s') = [] \<and> no_links (up_disk s') \<and> all_dirs (up_disk s') cd \<and>
     node_at (up_disk s') (cd @ [sid]) = Some (File (sofar @ data)) \<and>
     (\<forall>q. q \<noteq> cd @ [sid] \<longrightarrow> node_at (up_disk s') q = node_at d0 q)"
proof -
  let ?v = "v\<lparr>us_bytes_received := length sofar\<rparr>"
  have u: "map_of (up_sessions s) sid = Some ?v" using assms(1) by (simp add: uploading_def)
  have c: "append_checks sid (length sofar) data owner s = Inr ?v"
    using u assms(4-7) by (simp add: append_checks_def find_session_def)
  obtain s1 where s1: "append_file cd sid data s = (Inr (), s1)" "d_faults (up_disk s1) = []" "no_links (up_disk s1)"
      "all_dirs (up_disk s1) cd" "node_at (up_disk s1) (cd @ [sid]) = Some (File (sofar @ data))"
      "\<forall>q. q \<noteq> cd @ [sid] \<longrightarrow> node_at (up_disk s1) q = node_at d0 q"
    using append_file_step [OF assms(1-3)] by blast
  then have "append_chunk cd sid (length sofar) data owner s =
      (Inr (received data ?v), append_commit sid (received data ?v) s1)"
    using c by (simp add: append_chunk_def)
  then show ?thesis using s1 by (simp add: append_commit_def)
qed

lemma finalize_stored:
  assumes "map_of (up_sessions s) sid = Some w" "us_status w = Complete" "d_faults (up_disk s) = []"
    and "no_links (up_disk s)" "all_dirs (up_disk s) cd" "node_at (up_disk s) (cd @ [sid]) = Some (File data)"
    and "normal_path cd" "plain_id sid"
  shows "finalize cd sid s = (Inr (data, w), s\<lparr>up_disk := drop_node (cd @ [sid]) (up_disk s),
     up_sessions := hm_remove sid (up_sessions s)\<rparr>)"
proof -
  have n: "normal_path (cd @ [sid])" using plain_id_normal [OF assms(8,7)] .
  have r: "resolve (up_disk s) (cd @ [sid]) = Some (cd @ [sid])"
    using resolve_leaf [OF n assms(5)] assms(4) by (simp add: no_links_def)
  have rd: "fs_read (cd @ [sid]) (up_disk s) = (Inr data, up_disk s)"
    using r assms(3,6) by (simp add: fs_read_def)
  have "sid \<notin> {[], ''.'', ''..''}" using assms(8) unfolding plain_id_def by blast
  then have rm: "fs_remove_file (cd @ [sid]) (up_disk s) = (Inr (), drop_node (cd @ [sid]) (up_disk s))"
    using resolve_dir [OF assms(7,5)] assms(3,5,6) by (simp add: fs_remove_file_def all_dirs_def)
  show ?thesis
    using assms(1,2) rd rm plain_id_join [OF assms(8)]
    by (simp add: finalize_def find_session_def on_disk_def io_error_def amap_err_def on_disk_ignored_def)
qed

text \<open>What has to hold of the place the upload goes to.\<close>

definition ready :: "'i storage_lib \<Rightarrow> StorageState \<Rightarrow> AuthContext \<Rightarrow> disk \<Rightarrow> string \<Rightarrow> UploadSession \<Rightarrow> string \<Rightarrow> bool" where
  "ready lib st auth d0 sid v data \<longleftrightarrow>
     normal_path (ss_root st) \<and> normal_path (ss_chunks_dir st) \<and> plain_id sid \<and> plain_path (us_path v) \<and>
     au_authenticated auth \<and> au_user_id auth \<noteq> [] \<and> us_owner v = au_user_id auth \<and> us_status v = InProgress \<and>
     can_user_write_path auth (us_path v) \<and> us_total_size v = length data \<and> length data \<le> MAX_FILE_SIZE \<and>
     validate_file_signature lib data (us_content_type v) = Inr () \<and>
     target_free d0 (storage_target (ss_root st) (us_path v)) \<and>
     \<not> prefix (chunk_file st sid) (storage_target (ss_root st) (us_path v))"

lemma parse_offset: "n \<le> MAX_FILE_SIZE \<Longrightarrow> parse_u64 (nat_to_string n) = Some n"
  by (rule parse_unsigned_roundtrip) (simp add: MAX_FILE_SIZE_def)

lemma append_resumable_run:
  assumes "ready lib st auth d0 sid v data" "uploading (ss_chunks_dir st) d0 sid v sofar s"
    and "length sofar + length c \<le> length data"
  shows "\<exists>s1. append_resumable lib st now auth sid (Some (nat_to_string (length sofar))) c s =
       finish_append lib st now auth sid (received c (v\<lparr>us_bytes_received := length sofar\<rparr>)) s1 \<and>
     map_of (up_sessions s1) sid = Some (received c (v\<lparr>us_bytes_received := length sofar\<rparr>)) \<and>
     d_faults (up_disk s1) = [] \<and> no_links (up_disk s1) \<and> all_dirs (up_disk s1) (ss_chunks_dir st) \<and>
     node_at (up_disk s1) (chunk_file st sid) = Some (File (sofar @ c)) \<and>
     (\<forall>q. q \<noteq> chunk_file st sid \<longrightarrow> node_at (up_disk s1) q = node_at d0 q)"
proof -
  have auth: "require_authenticated_user auth = Inr (au_user_id auth)"
    using assms(1) by (simp add: ready_def require_authenticated_user_def)
  have off: "parse_u64 (nat_to_string (length sofar)) = Some (length sofar)"
    using assms(1,3) by (intro parse_offset) (simp add: ready_def)
  obtain s1 where "append_chunk (ss_chunks_dir st) sid (length sofar) c (au_user_id auth) s =
       (Inr (received c (v\<lparr>us_bytes_received := length sofar\<rparr>)), s1)" and
     s1: "map_of (up_sessions s1) sid = Some (received c (v\<lparr>us_bytes_received := length sofar\<rparr>))"
     "d_faults (up_disk s1) = []" "no_links (up_disk s1)" "all_dirs (up_disk s1) (ss_chunks_dir st)"
     "node_at (up_disk s1) (chunk_file st sid) = Some (File (sofar @ c))"
     "\<forall>q. q \<noteq> chunk_file st sid \<longrightarrow> node_at (up_disk s1) q = node_at d0 q"
    using append_chunk_uploading [OF assms(2), of "au_user_id auth" c] assms(1,3) unfolding ready_def by auto
  then have "append_resumable lib st now auth sid (Some (nat_to_string (length sofar))) c s =
      finish_append lib st now auth sid (received c (v\<lparr>us_bytes_received := length sofar\<rparr>)) s1"
    using auth off by (simp add: append_resumable_def abind_def del: split_paired_All)
  then show ?thesis using s1 by blast
qed

text \<open>What the last chunk does once its bytes are in the chunk file: it stores what that file holds.\<close>

lemma finish_append_stores:
  assumes "ready lib st auth d0 sid v data" "w = received c (v\<lparr>us_bytes_received := length sofar\<rparr>)" "length sofar + length c = length data"
    and "validate_file_signature lib bytes (us_content_type v) = Inr ()"
    and s1: "map_of (up_sessions s1) sid = Some w" "d_faults (up_disk s1) = []" "no_links (up_disk s1)"
     "all_dirs (up_disk s1) (ss_chunks_dir st)" "node_at (up_disk s1) (chunk_file st sid) = Some (File bytes)"
     "\<forall>q. q \<noteq> chunk_file st sid \<longrightarrow> node_at (up_disk s1) q = node_at d0 q"
  shows "\<exists>s'. finish_append lib st now auth sid w s1 = (Inr w, s') \<and> us_status w = Complete \<and> us_bytes_received w = length data \<and>
     stored (up_disk s') (storage_target (ss_root st) (us_path v)) bytes \<and> map_of (up_sessions s') sid = None"
proof -
  let ?t = "storage_target (ss_root st) (us_path v)"
  have r: "normal_path (ss_root st)" "normal_path (ss_chunks_dir st)" "plain_id sid" "plain_path (us_path v)"
    "can_user_write_path auth (us_path v)" "us_total_size v = length data" "target_free d0 ?t" "\<not> prefix (chunk_file st sid) ?t"
    using assms(1) by (simp_all add: ready_def)
  have w: "us_status w = Complete" "us_path w = us_path v" "us_content_type w = us_content_type v" "us_bytes_received w = length data"
    using assms(3) r(6) by (simp_all add: assms(2) received_def Let_def)
  let ?d = "drop_node (chunk_file st sid) (up_disk s1)"
  have fin: "finalize (ss_chunks_dir st) sid s1 =
      (Inr (bytes, w), s1\<lparr>up_disk := ?d, up_sessions := hm_remove sid (up_sessions s1)\<rparr>)"
    using finalize_stored [OF s1(1) w(1) s1(2-5) r(2,3)] .
  have nd: "no_links ?d" using s1(3) by (auto simp: no_links_def)
  have "q \<noteq> chunk_file st sid" if "prefix q ?t" for q using that r(8) by blast
  then have at: "node_at ?d q = node_at d0 q" if "prefix q ?t" for q using that s1(6) by simp
  have "dirs_free ?d (butlast ?t)" "node_at ?d ?t \<noteq> Some Dir"
    using r(7) at unfolding target_free_def dirs_free_def
    by (metis prefix_order.trans prefixeq_butlast, metis prefix_order.refl)
  then obtain d' where up: "ls_upload (ck_rfc3339 (sl_clock lib) (now * 1000)) (ss_root st) (us_path v) bytes (us_content_type v) ?d =
        (Inr (new_meta (ck_rfc3339 (sl_clock lib) (now * 1000)) (us_path v) (length bytes) (us_content_type v)), d')"
      "stored d' ?t bytes"
    using ls_upload_ok [of ?d "ss_root st" "us_path v"] s1(2) nd r(1,4) by fastforce
  have "finish_append lib st now auth sid w s1 =
      (Inr w, s1\<lparr>up_disk := d', up_sessions := hm_remove sid (up_sessions s1)\<rparr>)"
    using fin up(1) w r(5) assms(4) by (simp add: finish_append_def abind_def on_disk_def)
  then show ?thesis using up(2) w by simp
qed

lemma last_chunk:
  assumes "ready lib st auth d0 sid v data" "uploading (ss_chunks_dir st) d0 sid v sofar s" "sofar @ c = data"
  shows "\<exists>w s'. append_resumable lib st now auth sid (Some (nat_to_string (length sofar))) c s = (Inr w, s') \<and>
     us_status w = Complete \<and> stored (up_disk s') (storage_target (ss_root st) (us_path v)) data \<and>
     map_of (up_sessions s') sid = None"
proof -
  let ?w = "received c (v\<lparr>us_bytes_received := length sofar\<rparr>)"
  have len: "length sofar + length c = length data" using assms(3) by auto
  obtain s1 where run: "append_resumable lib st now auth sid (Some (nat_to_string (length sofar))) c s =
       finish_append lib st now auth sid ?w s1"
    and s1: "map_of (up_sessions s1) sid = Some ?w" "d_faults (up_disk s1) = []" "no_links (up_disk s1)"
     "all_dirs (up_disk s1) (ss_chunks_dir st)" "node_at (up_disk s1) (chunk_file st sid) = Some (File data)"
     "\<forall>q. q \<noteq> chunk_file st sid \<longrightarrow> node_at (up_disk s1) q = node_at d0 q"
    using append_resumable_run [OF assms(1,2), of c now] len assms(3) by auto
  have "validate_file_signature lib data (us_content_type v) = Inr ()" using assms(1) by (simp add: ready_def)
  then show ?thesis using finish_append_stores [OF assms(1) refl len _ s1] run by metis
qed

lemma middle_chunk:
  assumes "ready lib st auth d0 sid v data" "uploading (ss_chunks_dir st) d0 sid v sofar s"
    and "length sofar + length c < length data"
  shows "\<exists>w s'. append_resumable lib st now auth sid (Some (nat_to_string (length sofar))) c s = (Inr w, s') \<and>
     uploading (ss_chunks_dir st) d0 sid v (sofar @ c) s'"
proof -
  let ?w = "received c (v\<lparr>us_bytes_received := length sofar\<rparr>)"
  have r: "us_total_size v = length data" "us_status v = InProgress" "can_user_write_path auth (us_path v)"
    using assms(1) by (simp_all add: ready_def)
  have w: "?w = v\<lparr>us_bytes_received := length (sofar @ c)\<rparr>"
    using assms(3) r by (simp add: received_def Let_def)
  obtain s1 where "append_resumable lib st now auth sid (Some (nat_to_string (length sofar))) c s =
       finish_append lib st now auth sid ?w s1" and
      s1: "uploading (ss_chunks_dir st) d0 sid v (sofar @ c) s1"
    using append_resumable_run [OF assms(1,2), of c now] assms(3) w unfolding uploading_def by auto
  moreover have "finish_append lib st now auth sid ?w s1 = (Inr ?w, s1)"
    using r by (simp add: finish_append_def w)
  ultimately show ?thesis by metis
qed

lemma send_chunks_uploading:
  assumes "ready lib st auth d0 sid v data" "uploading (ss_chunks_dir st) d0 sid v sofar s"
    and "sofar @ c @ concat cs = data" "[] \<notin> set cs"
  shows "\<exists>w s'. send_chunks lib st now auth sid (length sofar) c cs s = (Inr w, s') \<and>
     us_status w = Complete \<and> stored (up_disk s') (storage_target (ss_root st) (us_path v)) data \<and>
     map_of (up_sessions s') sid = None"
  using assms(2-4)
proof (induction cs arbitrary: sofar c s)
  case Nil
  then show ?case using last_chunk [OF assms(1) Nil.prems(1)] by simp
next
  case (Cons c' cs)
  have "length sofar + length c < length data"
    using Cons.prems(2,3) by (cases c') auto
  then obtain w s1 where w: "append_resumable lib st now auth sid (Some (nat_to_string (length sofar))) c s = (Inr w, s1)"
      "uploading (ss_chunks_dir st) d0 sid v (sofar @ c) s1"
    using middle_chunk [OF assms(1) Cons.prems(1)] by blast
  then show ?case using Cons.IH [OF w(2)] Cons.prems(2,3) by simp
qed

text \<open>
  C21. A file sent in chunks arrives whole: once a session has been created, sending the chunks of the data one request after the
  other succeeds, the last answer reports the session complete, the data is stored under
  the path of the session and the session is gone. The disk is healthy and without links, and every
  append has reached the file before the next call reads it, which the code does not wait for; the
  caller is the authenticated owner of the session and may write its path, which names a file
  below the root that is no directory, with nothing but directories above it and not under
  the chunk file; the chunk file does not exist yet; the announced size is that of the data and
  within the limit; and the content passes the signature check.
\<close>

theorem chunked_upload_arrives:
  assumes "init_resumable lib st now uuid auth params s = (Inr v, s1)" "ready lib st auth (up_disk s1) uuid v data"
    and "d_faults (up_disk s1) = []" "no_links (up_disk s1)" "all_dirs (up_disk s1) (ss_chunks_dir st)"
    and "node_at (up_disk s1) (chunk_file st uuid) = None" "c @ concat cs = data" "[] \<notin> set cs"
  shows "\<exists>w s'. send_chunks lib st later auth uuid 0 c cs s1 = (Inr w, s') \<and> us_status w = Complete \<and>
     stored (up_disk s') (storage_target (ss_root st) (us_path v)) data \<and> map_of (up_sessions s') uuid = None"
proof -
  obtain ck cd n path ct sz owner where "create_session ck cd n uuid path ct sz owner s = (Inr v, s1)"
    using assms(1) by (cases "require_authenticated_user auth"; cases "sanitize_storage_path (ir_path params)")
      (auto simp: init_resumable_def split: if_splits)
  then have v: "map_of (up_sessions s1) uuid = Some v" "us_bytes_received v = 0"
    by (auto simp: create_session_def Let_def split: if_splits sum.splits)
  then have "uploading (ss_chunks_dir st) (up_disk s1) uuid v [] s1"
    using assms(3-6) by (simp add: uploading_def)
  then show ?thesis using send_chunks_uploading [OF assms(2), of "[]" s1 c cs later] assms(7,8) by simp
qed

definition sample_init :: InitResumableParams where
  "sample_init = \<lparr>ir_path = ''users/u1/f.html'', ir_content_type = default_content_type, ir_total_size = length ''abc''\<rparr>"

definition sample_session :: UploadSession where
  "sample_session = \<lparr>us_id = ''s1'', us_path = ''users/u1/f.html'', us_content_type = default_content_type,
     us_total_size = length ''abc'', us_bytes_received = 0, us_created_at = ck_rfc3339 (sl_clock sample_lib) 0,
     us_status = InProgress, us_owner = ''u1''\<rparr>"

lemma sample_can_write: "can_user_write_path sample_user ''users/u1/f.html''"
  by code_simp

lemma sample_init_run:
  "init_resumable sample_lib sample_st 0 ''s1'' sample_user sample_init sample_files =
     (Inr sample_session, sample_files\<lparr>up_sessions := [(''s1'', sample_session)]\<rparr>)"
  using plain_sanitized [OF sample_plain] sample_plain sample_can_write
  by (simp add: init_resumable_def sample_init_def require_authenticated_user_def sample_user_def plain_path_def
      create_session_def reap_expired_def sample_files_def MAX_RESUMABLE_SIZE_def MAX_FILE_SIZE_def MAX_ACTIVE_SESSIONS_def
      MAX_SESSIONS_PER_USER_def active_of_def sanitize_path_def sample_session_def Let_def)

lemma sample_ready:
  "ready sample_lib sample_st sample_user (up_disk (sample_files\<lparr>up_sessions := [(''s1'', sample_session)]\<rparr>)) ''s1'' sample_session ''abc''"
proof -
  have "chunk_file sample_st ''s1'' = [''data'', ''.uploads'', ''s1'']" by (simp add: sample_st_def)
  then show ?thesis
    using sample_normal sample_can_write sample_plain sample_free
    by (simp add: ready_def plain_id_def sample_session_def sample_user_def MAX_FILE_SIZE_def sample_target
        validate_file_signature_def ALLOWED_UPLOAD_TYPES_def default_content_type_def)
qed

theorem chunked_upload_arrives_witness:
  "\<exists>v s1 w s'. init_resumable sample_lib sample_st 0 ''s1'' sample_user sample_init sample_files = (Inr v, s1) \<and>
     send_chunks sample_lib sample_st 7 sample_user ''s1'' 0 ''a'' [''bc''] s1 = (Inr w, s') \<and>
     us_status w = Complete \<and> stored (up_disk s') [''data'', ''users'', ''u1'', ''f.html''] ''abc''"
proof -
  let ?s = "sample_files\<lparr>up_sessions := [(''s1'', sample_session)]\<rparr>"
  have d: "d_faults (up_disk ?s) = []" "no_links (up_disk ?s)" "all_dirs (up_disk ?s) (ss_chunks_dir sample_st)"
    "node_at (up_disk ?s) (chunk_file sample_st ''s1'') = None"
    using sample_no_links(1)
    by (auto simp: sample_files_def sample_disk_def sample_st_def all_dirs_def node_at_def prefix_Cons)
  have "us_path sample_session = ''users/u1/f.html''" by (simp add: sample_session_def)
  then show ?thesis
    using chunked_upload_arrives [OF sample_init_run sample_ready d, of "''a''" "[''bc'']" 7] sample_init_run
    by (auto simp: sample_target)
qed

subsection \<open>Pending and overlapping chunks\<close>

definition pending_next :: "nat \<Rightarrow> upload_state \<Rightarrow> upload_state" where
  "pending_next n s = s\<lparr>up_disk := (up_disk s)\<lparr>d_faults := [NoFault, StillPending n]\<rparr>\<rparr>"

lemma append_file_pending:
  assumes "uploading cd d0 sid v sofar s" "normal_path cd" "plain_id sid"
  shows "\<exists>s1. append_file cd sid data (pending_next n s) = (Inr (), s1) \<and> up_sessions s1 = up_sessions s \<and>
     d_faults (up_disk s1) = [] \<and> no_links (up_disk s1) \<and> all_dirs (up_disk s1) cd \<and>
     node_at (up_disk s1) (cd @ [sid]) = Some (File (sofar @ take n data)) \<and>
     (\<forall>q. q \<noteq> cd @ [sid] \<longrightarrow> node_at (up_disk s1) q = node_at d0 q)"
proof -
  let ?f = "cd @ [sid]" and ?d = "(up_disk s)\<lparr>d_faults := [NoFault, StillPending n]\<rparr>" and ?e = "(up_disk s)\<lparr>d_faults := [StillPending n]\<rparr>"
  have at: "node_at (d\<lparr>d_faults := fs\<rparr>) = node_at d" for d fs by (rule ext) (simp add: node_at_def)
  have s: "no_links (up_disk s)" "all_dirs (up_disk s) cd"
    "node_at (up_disk s) ?f = Some (File sofar) \<or> node_at (up_disk s) ?f = None \<and> sofar = []"
    "\<forall>q. q \<noteq> ?f \<longrightarrow> node_at (up_disk s) q = node_at d0 q"
    using assms(1) by (simp_all add: uploading_def)
  have "resolve ?d ?f = Some ?f"
    using resolve_leaf [OF plain_id_normal [OF assms(3,2)], of ?d] s(1,2) by (simp add: no_links_def all_dirs_def at)
  moreover have "node_at ?d cd = Some Dir" using s(2) by (simp add: all_dirs_def at)
  ultimately have target: "open_target ?d ?f = Inr ?f" using s(3) by (auto simp: open_target_def at)
  let ?e' = "if node_at (up_disk s) ?f = None then set_node ?f (File []) ?e else ?e"
  have op: "fs_open_append ?f ?d = (Inr ?f, ?e')"
    using target by (simp add: fs_open_append_def next_fault_def at)
  have ap: "fs_append ?f data ?e' = (Inr (), (set_node ?f (File (sofar @ take n data)) ?e')\<lparr>d_faults := []\<rparr>)"
    using s(3) by (auto simp: fs_append_def next_fault_def file_bytes_def at set_node_def node_at_def)
  let ?r = "(set_node ?f (File (sofar @ take n data)) ?e')\<lparr>d_faults := []\<rparr>"
  have run: "append_file cd sid data (pending_next n s) = (Inr (), s\<lparr>up_disk := ?r\<rparr>)"
    using op ap by (simp add: append_file_def on_disk_def abind_def io_error_def amap_err_def plain_id_join [OF assms(3)] pending_next_def)
  have nodes: "node_at ?r q = (if q = ?f then Some (File (sofar @ take n data)) else node_at (up_disk s) q)" for q
    by (simp add: at)
  then have "no_links ?r \<and> all_dirs ?r cd" using s(1,2) by (auto simp: no_links_def all_dirs_def)
  then show ?thesis unfolding run using nodes s(4) by simp
qed

text \<open>
  An append that is still pending is lost. When only \<open>n\<close> bytes of the last chunk have reached the file
  by the time the upload is finalized, the request succeeds and reports the upload complete with all
  of its bytes, and the file that is stored lacks the rest: no step flushes the file or checks its length.
\<close>

theorem pending_append_truncates_upload:
  assumes "ready lib st auth d0 sid v data" "uploading (ss_chunks_dir st) d0 sid v sofar s" "sofar @ c = data"
    and "validate_file_signature lib (sofar @ take n c) (us_content_type v) = Inr ()"
  shows "\<exists>w s'. append_resumable lib st now auth sid (Some (nat_to_string (length sofar))) c (pending_next n s) = (Inr w, s') \<and>
     us_status w = Complete \<and> us_bytes_received w = length data \<and>
     stored (up_disk s') (storage_target (ss_root st) (us_path v)) (sofar @ take n c)"
proof -
  let ?v = "v\<lparr>us_bytes_received := length sofar\<rparr>"
  let ?w = "received c ?v"
  have len: "length sofar + length c = length data" using assms(3) by auto
  have r: "normal_path (ss_chunks_dir st)" "plain_id sid" "us_status v = InProgress" "us_owner v = au_user_id auth" "au_user_id auth \<noteq> []"
    "au_authenticated auth" "us_total_size v = length data" "length data \<le> MAX_FILE_SIZE"
    using assms(1) by (simp_all add: ready_def)
  have u: "map_of (up_sessions (pending_next n s)) sid = Some ?v" using assms(2) by (simp add: uploading_def pending_next_def)
  have chk: "append_checks sid (length sofar) c (au_user_id auth) (pending_next n s) = Inr ?v"
    using u r len by (simp add: append_checks_def find_session_def)
  obtain s1 where s1: "append_file (ss_chunks_dir st) sid c (pending_next n s) = (Inr (), s1)" "d_faults (up_disk s1) = []" "no_links (up_disk s1)"
      "all_dirs (up_disk s1) (ss_chunks_dir st)" "node_at (up_disk s1) (chunk_file st sid) = Some (File (sofar @ take n c))"
      "\<forall>q. q \<noteq> chunk_file st sid \<longrightarrow> node_at (up_disk s1) q = node_at d0 q"
    using append_file_pending [OF assms(2) r(1,2)] by blast
  let ?s = "append_commit sid ?w s1"
  have app: "append_chunk (ss_chunks_dir st) sid (length sofar) c (au_user_id auth) (pending_next n s) = (Inr ?w, ?s)"
    using chk s1(1) by (simp add: append_chunk_def)
  have off: "parse_u64 (nat_to_string (length sofar)) = Some (length sofar)" using parse_offset [of "length sofar"] len r(8) by simp
  have run: "append_resumable lib st now auth sid (Some (nat_to_string (length sofar))) c (pending_next n s) = finish_append lib st now auth sid ?w ?s"
    using r(5,6) off app by (simp add: append_resumable_def abind_def require_authenticated_user_def del: split_paired_All)
  have s: "map_of (up_sessions ?s) sid = Some ?w" "d_faults (up_disk ?s) = []" "no_links (up_disk ?s)"
     "all_dirs (up_disk ?s) (ss_chunks_dir st)" "node_at (up_disk ?s) (chunk_file st sid) = Some (File (sofar @ take n c))"
     "\<forall>q. q \<noteq> chunk_file st sid \<longrightarrow> node_at (up_disk ?s) q = node_at d0 q"
    using s1 by (simp_all add: append_commit_def)
  show ?thesis using finish_append_stores [OF assms(1) refl len assms(4) s, of now] run by auto
qed

theorem pending_append_truncates_upload_witness:
  "\<exists>w s'. append_resumable sample_lib sample_st 7 sample_user ''s1'' (Some (nat_to_string 0)) ''abc''
       (pending_next 1 (sample_files\<lparr>up_sessions := [(''s1'', sample_session)]\<rparr>)) = (Inr w, s') \<and>
     us_status w = Complete \<and> us_bytes_received w = 3 \<and> stored (up_disk s') [''data'', ''users'', ''u1'', ''f.html''] ''a''"
proof -
  let ?s = "sample_files\<lparr>up_sessions := [(''s1'', sample_session)]\<rparr>"
  have u: "uploading (ss_chunks_dir sample_st) (up_disk ?s) ''s1'' sample_session [] ?s"
    using sample_no_links(1)
    by (auto simp: uploading_def sample_session_def sample_files_def sample_disk_def sample_st_def all_dirs_def node_at_def prefix_Cons)
  have sig: "validate_file_signature sample_lib ([] @ take 1 ''abc'') (us_content_type sample_session) = Inr ()"
    by (simp add: validate_file_signature_def ALLOWED_UPLOAD_TYPES_def default_content_type_def sample_session_def)
  have "us_path sample_session = ''users/u1/f.html''" by (simp add: sample_session_def)
  then show ?thesis using pending_append_truncates_upload [OF sample_ready u _ sig, of 7] by (auto simp: sample_target)
qed

text \<open>
  Two overlapping appends corrupt an upload: when two chunks for the same offset pass the checks
  before either is stored, both requests succeed and the file holds both chunks, while the
  session counts only the second one. The comment in the code promises an atomic
  read-check-write.
\<close>

theorem overlapping_chunks_corrupt:
  assumes "uploading cd d0 sid v sofar s" "normal_path cd" "plain_id sid"
    and "append_checks sid (length sofar) a owner s = Inr wa" "append_checks sid (length sofar) b owner s = Inr wb"
  shows "\<exists>s1 s2. append_file cd sid a s = (Inr (), s1) \<and> append_file cd sid b s1 = (Inr (), s2) \<and>
     (let s' = append_commit sid (received b wb) (append_commit sid (received a wa) s2)
      in node_at (up_disk s') (cd @ [sid]) = Some (File (sofar @ a @ b)) \<and>
         map_option us_bytes_received (map_of (up_sessions s') sid) = Some (length sofar + length b))"
proof -
  let ?f = "cd @ [sid]"
  obtain s1 where s1: "append_file cd sid a s = (Inr (), s1)" "node_at (up_disk s1) ?f = Some (File (sofar @ a))"
      "d_faults (up_disk s1) = []" "no_links (up_disk s1)" "all_dirs (up_disk s1) cd"
      "\<forall>q. q \<noteq> ?f \<longrightarrow> node_at (up_disk s1) q = node_at d0 q"
    using append_file_step [OF assms(1-3)] by blast
  let ?s = "s1\<lparr>up_sessions := [(sid, v\<lparr>us_bytes_received := length (sofar @ a)\<rparr>)]\<rparr>"
  have "uploading cd d0 sid v (sofar @ a) ?s" using s1 by (simp add: uploading_def)
  from append_file_uploading [OF this assms(2,3), of b]
  have "append_file cd sid b s1 = (Inr (), s1\<lparr>up_disk := set_node ?f (File (sofar @ a @ b)) (up_disk s1)\<rparr>)"
    using s1(2) by (cases s1) (auto simp: append_file_def on_disk_def split: prod.splits)
  moreover have "us_bytes_received wb = length sofar" using append_checks_session(5) [OF assms(5)] by simp
  ultimately show ?thesis using s1(1) by (simp add: append_commit_def received_def Let_def)
qed

theorem overlapping_chunks_corrupt_witness:
  "\<exists>s1 s2 wa wb. append_file [''data'', ''.uploads''] ''s1'' ''ab'' (sample_files\<lparr>up_sessions := [(''s1'', sample_session)]\<rparr>) = (Inr (), s1) \<and>
     append_file [''data'', ''.uploads''] ''s1'' ''cd'' s1 = (Inr (), s2) \<and>
     append_checks ''s1'' 0 ''ab'' ''u1'' (sample_files\<lparr>up_sessions := [(''s1'', sample_session)]\<rparr>) = Inr wa \<and>
     append_checks ''s1'' 0 ''cd'' ''u1'' (sample_files\<lparr>up_sessions := [(''s1'', sample_session)]\<rparr>) = Inr wb \<and>
     node_at (up_disk (append_commit ''s1'' (received ''cd'' wb) (append_commit ''s1'' (received ''ab'' wa) s2)))
       [''data'', ''.uploads'', ''s1''] = Some (File ''abcd'')"
proof -
  let ?s = "sample_files\<lparr>up_sessions := [(''s1'', sample_session)]\<rparr>" and ?cd = "[''data'', ''.uploads'']"
  have u: "uploading ?cd (up_disk ?s) ''s1'' sample_session [] ?s"
    using sample_no_links(1)
    by (auto simp: uploading_def sample_session_def sample_files_def sample_disk_def all_dirs_def node_at_def prefix_Cons)
  have n: "normal_path ?cd" "plain_id ''s1''" by (simp_all add: normal_path_def plain_id_def)
  have c: "append_checks ''s1'' (length ([] :: string)) data ''u1'' ?s = Inr sample_session" if "data \<in> {''ab'', ''cd''}" for data
    using that by (auto simp: append_checks_def find_session_def sample_session_def)
  show ?thesis
    using overlapping_chunks_corrupt [OF u n c c, of "''ab''" "''cd''"] c [of "''ab''"] c [of "''cd''"] by (auto simp: Let_def)
qed

subsection \<open>Transformed images\<close>

text \<open>
  The limit of 4096 pixels does not bound what the transformation computes: asked for one dimension, an image of width one and height
  \<open>h\<close> is scaled to the requested width \<open>w\<close> and height \<open>h * w\<close>, for every \<open>w\<close> up to the limit.
\<close>

theorem transform_exceeds_limit:
  assumes "0 < w" "w \<le> MAX_DIMENSION" "0 < h" "h * w < 2 ^ 32" "il_width il img = 1" "il_height il img = h"
  shows "apply_resize il img (Some w) None ''fill'' = il_resize_exact il img w (h * w)"
  using other_dimension_unbounded [OF assms(1-4)] assms(5,6) by (simp add: apply_resize_def)

end
