(* ===== verification/Db_Transaction.thy ===== *)
theory Db_Transaction
  imports Handlers_Shared
begin

text \<open>
  Transactions (\<open>crates/ob-database/src/transaction.rs\<close>). A statement is the table it works on and
  what it does to the rows, with the number of rows it affects; a transaction is the list of its
  statements. Beginning, every statement and committing may each fail, and a transaction that
  fails anywhere leaves the tables as they were.
\<close>

type_synonym tx_stmt = "string \<times> (doc_row list \<Rightarrow> string + (nat \<times> doc_row list))"
type_synonym transaction = "tx_stmt list"

definition tx_new :: transaction where
  "tx_new = []"

definition tx_add :: "tx_stmt \<Rightarrow> transaction \<Rightarrow> transaction" where
  "tx_add q tx = tx @ [q]"

definition tx_len :: "transaction \<Rightarrow> nat" where
  "tx_len tx = length tx"

definition rows_affected :: "nat \<Rightarrow> json" where
  "rows_affected n = json_obj [(''rows_affected'', json_int (int n))]"

fun tx_run :: "transaction \<Rightarrow> json list pg_action" where
  "tx_run [] = areturn []"
| "tx_run ((table, stmt) # qs) =
     abind (pg_exec ''Transaction query failed: '' table stmt) (\<lambda>n.
     abind (tx_run qs) (\<lambda>rs. areturn (rows_affected n # rs)))"

definition tx_commit :: "transaction \<Rightarrow> json list pg_action" where
  "tx_commit tx s =
     (if tx = [] then (Inr [], s)
      else case pg_faults s of
        Some e # fs \<Rightarrow> (Inl (Database (''Failed to begin transaction: '' @ e)), s\<lparr>pg_faults := fs\<rparr>)
      | fs \<Rightarrow>
          (case tx_run tx (s\<lparr>pg_faults := tl fs\<rparr>) of
             (Inl e, s') \<Rightarrow> (Inl e, s\<lparr>pg_faults := pg_faults s'\<rparr>)
           | (Inr rs, s') \<Rightarrow>
               (case pg_faults s' of
                  Some e # fs \<Rightarrow> (Inl (Database (''Transaction commit failed: '' @ e)), s\<lparr>pg_faults := fs\<rparr>)
                | fs \<Rightarrow> (Inr rs, s'\<lparr>pg_faults := tl fs\<rparr>))))"

text \<open>The effect of the statements without the faults: the tables after them, or the first error.\<close>

fun tx_effect :: "transaction \<Rightarrow> (string \<Rightarrow> doc_row list) \<Rightarrow> string + (nat list \<times> (string \<Rightarrow> doc_row list))" where
  "tx_effect [] db = Inr ([], db)"
| "tx_effect ((table, stmt) # qs) db =
     rbind (stmt (db table)) (\<lambda>(n, rs).
     rbind (tx_effect qs (db(table := rs))) (\<lambda>(ns, db'). Inr (n # ns, db')))"

lemma tx_run_effect:
  assumes "tx_run tx s = (r, s')"
  shows "case r of Inl _ \<Rightarrow> True
    | Inr rs \<Rightarrow> \<exists>ns. tx_effect tx (tables s) = Inr (ns, tables s') \<and> rs = map rows_affected ns"
  using assms
proof (induction tx arbitrary: s r s')
  case (Cons q tx)
  obtain table stmt where q: "q = (table, stmt)" by (cases q)
  from Cons.prems have "abind (pg_exec ''Transaction query failed: '' table stmt) (\<lambda>n.
      abind (tx_run tx) (\<lambda>rs. areturn (rows_affected n # rs))) s = (r, s')" by (simp add: q)
  then show ?case
  proof (cases rule: abind_cases)
    case (ok n u)
    from pg_exec_cases [OF ok(1)] obtain rs where
      st: "stmt (tables s table) = Inr (n, rs)" "tables u = (tables s)(table := rs)" by auto
    from ok(2) show ?thesis
    proof (cases rule: abind_cases)
      case (ok js v)
      then have "v = s'" "r = Inr (rows_affected n # js)" by simp_all
      with Cons.IH [OF ok(1)] st show ?thesis by (auto simp: q)
    qed simp
  qed simp
qed simp

text \<open>All or nothing: an error leaves every table alone, a result is the effect of all statements.\<close>

lemma tx_commit_cases:
  assumes "tx_commit tx s = (r, s')"
  shows "case r of Inl _ \<Rightarrow> tables s' = tables s
    | Inr rs \<Rightarrow> \<exists>ns. tx_effect tx (tables s) = Inr (ns, tables s') \<and> rs = map rows_affected ns"
proof (cases "tx = []")
  case False
  with assms show ?thesis
    by (auto simp: tx_commit_def split: list.splits option.splits prod.splits sum.splits dest!: tx_run_effect)
qed (use assms in \<open>auto simp: tx_commit_def\<close>)

lemma tx_run_calm:
  "pg_faults s = [] \<Longrightarrow> tx_effect tx (tables s) = Inr (ns, db) \<Longrightarrow>
     tx_run tx s = (Inr (map rows_affected ns), s\<lparr>tables := db\<rparr>)"
proof (induction tx arbitrary: s ns)
  case (Cons q tx)
  obtain table stmt where q: "q = (table, stmt)" by (cases q)
  from Cons.prems(2) obtain n rs ms where
    st: "stmt (tables s table) = Inr (n, rs)" "tx_effect tx ((tables s)(table := rs)) = Inr (ms, db)" "ns = n # ms"
    by (auto simp: q rbind_def split: sum.splits)
  have "tx_run tx (s\<lparr>tables := (tables s)(table := rs)\<rparr>) = (Inr (map rows_affected ms), s\<lparr>tables := db\<rparr>)"
    using Cons.IH [of "s\<lparr>tables := (tables s)(table := rs)\<rparr>" ms] Cons.prems(1) st(2) by (simp del: fun_upd_apply)
  then show ?case using Cons.prems(1) st(1,3) by (simp add: q abind_def pg_exec_calm)
qed simp

lemma faults_unchanged: "pg_faults s = [] \<Longrightarrow> s\<lparr>pg_faults := []\<rparr> = s"
  by (cases s) simp

lemma tx_commit_calm:
  assumes "pg_faults s = []" "tx_effect tx (tables s) = Inr (ns, db)"
  shows "tx_commit tx s = (Inr (map rows_affected ns), s\<lparr>tables := db\<rparr>)"
proof (cases "tx = []")
  case False
  then show ?thesis
    using assms tx_run_calm [OF assms] faults_unchanged [of "s\<lparr>tables := db\<rparr>"]
    by (simp add: tx_commit_def faults_unchanged)
qed (use assms in \<open>simp add: tx_commit_def\<close>)

text \<open>A statement that keeps a property of its table makes a transaction keep it.\<close>

lemma tx_effect_preserves:
  assumes "tx_effect tx db = Inr (ns, db')" "\<forall>t. P t (db t)"
    "\<And>t stmt rs n rs'. (t, stmt) \<in> set tx \<Longrightarrow> stmt rs = Inr (n, rs') \<Longrightarrow> P t rs \<Longrightarrow> P t rs'"
  shows "\<forall>t. P t (db' t)"
  using assms
proof (induction tx arbitrary: db ns)
  case (Cons q tx)
  obtain table stmt where q: "q = (table, stmt)" by (cases q)
  from Cons.prems(1) obtain n rs ms where
    st: "stmt (db table) = Inr (n, rs)" "tx_effect tx (db(table := rs)) = Inr (ms, db')"
    by (auto simp: q rbind_def split: sum.splits)
  have "P table rs" using Cons.prems(3) [of table stmt "db table" n rs] Cons.prems(2) st(1) by (simp add: q)
  then have "\<forall>t. P t ((db(table := rs)) t)" using Cons.prems(2) by simp
  then show ?case using Cons.IH [OF st(2)] Cons.prems(3) by (metis list.set_intros(2))
qed simp

lemma tx_effect_append:
  "tx_effect (a @ b) db =
     rbind (tx_effect a db) (\<lambda>(ns, db'). rbind (tx_effect b db') (\<lambda>(ms, db''). Inr (ns @ ms, db'')))"
  by (induction a arbitrary: db) (auto simp: rbind_def split: sum.splits)

lemma tx_effect_length: "tx_effect tx db = Inr (ns, db') \<Longrightarrow> length ns = length tx"
  by (induction tx arbitrary: db ns) (auto simp: rbind_def split: sum.splits)

lemma tx_effect_other:
  "tx_effect tx db = Inr (ns, db') \<Longrightarrow> t \<notin> fst ` set tx \<Longrightarrow> db' t = db t"
  by (induction tx arbitrary: db ns) (auto simp: rbind_def split: sum.splits)

end
