(* ===== verification/Checkout.thy ===== *)
theory Checkout
  imports Db_Transaction Order_Refunds
begin

text \<open>
  Opening a checkout (\<open>crates/ob-handlers/src/payments/checkout.rs\<close>): the request is validated, the
  products are priced from the store, a coupon is applied, a session is opened at the payment
  provider and the order is written in one transaction with the decrements of the stock. The
  handler is the composition of three parts, \<open>prepare_checkout\<close>, \<open>open_session\<close> and
  \<open>place_order\<close>, so that requests can be interleaved between them. The provider's and the bot
  check's answers, the Unicode tables behind \<open>to_uppercase\<close> and \<open>trim\<close> (outside ASCII), the parser of
  timestamps, the clocks and the new order id are the fields of \<open>ck_io\<close>.
\<close>

subsection \<open>Requests\<close>

record CartItem =
  ca_product_id :: string
  ca_quantity :: nat

record ShippingAddress =
  sa_street :: string
  sa_city :: string
  sa_state :: string
  sa_postal_code :: string
  sa_country :: string

record CreateCheckoutRequest =
  cc_items :: "CartItem list"
  cc_shipping_address :: ShippingAddress
  cc_user_id :: "string option"
  cc_subtotal_cents :: int
  cc_coupon_code :: "string option"
  cc_eula_accepted :: bool
  cc_age_verification_accepted :: bool
  cc_idempotency_key :: "string option"
  cc_turnstile_token :: "string option"

record CheckoutResponse =
  cr_session_id :: string
  cr_order_id :: string
  cr_checkout_url :: "string option"
  cr_success :: bool
  cr_duplicate :: bool
  cr_tax_amount_cents :: int

record ck_io =
  ck_upper :: "string \<Rightarrow> string"
  ck_trim :: "string \<Rightarrow> string"
  ck_turnstile_secret :: "string option"
  ck_turnstile :: "string \<Rightarrow> string \<Rightarrow> string + (string + (bool \<times> string list))"
  ck_stripe_key :: bool
  ck_stripe :: "string \<Rightarrow> (string \<times> string) list \<Rightarrow> string + (bool \<times> (string + json))"
  ck_parse_rfc3339 :: "string \<Rightarrow> int option"
  ck_now_ns :: int
  ck_now_ms :: int
  ck_order_id :: string

definition VALID_PROVINCES :: "string list" where
  "VALID_PROVINCES = [''AB'', ''BC'', ''MB'', ''NB'', ''NL'', ''NS'', ''NT'', ''NU'', ''ON'', ''PE'', ''QC'', ''SK'', ''YT'']"

definition ACTIVE_SHIPPING_COUNTRIES :: "string list" where
  "ACTIVE_SHIPPING_COUNTRIES = [''CA'', ''CANADA'']"

definition ACTIVE_STRIPE_SHIPPING_COUNTRIES :: "string list" where
  "ACTIVE_STRIPE_SHIPPING_COUNTRIES = [''CA'']"

definition MAX_CART_ITEMS :: nat where "MAX_CART_ITEMS = 30"
definition MAX_ITEM_QUANTITY :: nat where "MAX_ITEM_QUANTITY = 100"
definition MAX_CHECKOUT_SUBTOTAL_CENTS :: int where "MAX_CHECKOUT_SUBTOTAL_CENTS = 10000000"
definition PLATFORM_FEE_BPS :: int where "PLATFORM_FEE_BPS = 250"
definition STANDARD_SHIPPING_CENTS :: int where "STANDARD_SHIPPING_CENTS = 899"
definition INTL_SHIPPING_BASE_CENTS :: int where "INTL_SHIPPING_BASE_CENTS = 599"
definition FREE_SHIPPING_THRESHOLD_CENTS :: int where "FREE_SHIPPING_THRESHOLD_CENTS = 7500"

subsection \<open>Text\<close>

definition is_ascii_str :: "string \<Rightarrow> bool" where
  "is_ascii_str s = list_all (\<lambda>c. byte c < 128) s"

definition upper_char :: "char \<Rightarrow> char" where
  "upper_char c = (if is_ascii_lowercase c then char_of (byte c - 32) else c)"

definition to_uppercase :: "ck_io \<Rightarrow> string \<Rightarrow> string" where
  "to_uppercase ck s = (if is_ascii_str s then map upper_char s else ck_upper ck s)"

definition ascii_space :: "char \<Rightarrow> bool" where
  "ascii_space c \<longleftrightarrow> byte c = 32 \<or> 9 \<le> byte c \<and> byte c \<le> 13"

definition trim_str :: "ck_io \<Rightarrow> string \<Rightarrow> string" where
  "trim_str ck s =
     (if is_ascii_str s then rev (dropWhile ascii_space (rev (dropWhile ascii_space s))) else ck_trim ck s)"

definition normalize_country :: "ck_io \<Rightarrow> string \<Rightarrow> string" where
  "normalize_country ck country = to_uppercase ck (trim_str ck country)"

definition is_active_shipping_country :: "ck_io \<Rightarrow> string \<Rightarrow> bool" where
  "is_active_shipping_country ck country \<longleftrightarrow> normalize_country ck country \<in> set ACTIVE_SHIPPING_COUNTRIES"

definition normalize_province :: "ck_io \<Rightarrow> string \<Rightarrow> string" where
  "normalize_province ck province = to_uppercase ck (trim_str ck province)"

definition normalize_postal_code :: "ck_io \<Rightarrow> string \<Rightarrow> string" where
  "normalize_postal_code ck postal_code = to_uppercase ck (replace_char (CHR '' '') [] postal_code)"

definition normalize_coupon_code :: "ck_io \<Rightarrow> string \<Rightarrow> string" where
  "normalize_coupon_code ck code = to_uppercase ck (trim_str ck code)"

definition is_valid_coupon_code :: "string \<Rightarrow> bool" where
  "is_valid_coupon_code code \<longleftrightarrow>
     4 \<le> length code \<and> length code \<le> 20 \<and> list_all (\<lambda>c. is_ascii_uppercase c \<or> is_ascii_digit c) code"

text \<open>Six characters, all ASCII: characters and bytes coincide on what passes.\<close>

definition is_valid_canadian_postal :: "ck_io \<Rightarrow> string \<Rightarrow> bool" where
  "is_valid_canadian_postal ck code =
     (case to_uppercase ck code of
        [a, b, c, d, e, f] \<Rightarrow>
          is_ascii_alphabetic a \<and> is_ascii_digit b \<and> is_ascii_alphabetic c \<and> is_ascii_digit d \<and>
          is_ascii_alphabetic e \<and> is_ascii_digit f
      | _ \<Rightarrow> False)"

subsection \<open>Amounts\<close>

definition province_tax_rate_bps :: "string \<Rightarrow> int" where
  "province_tax_rate_bps province =
     (if province = ''ON'' then 1300
      else if province \<in> {''NB'', ''NL'', ''NS'', ''PE''} then 1500
      else if province = ''QC'' then 1498
      else if province = ''BC'' then 1200
      else if province = ''MB'' then 1200
      else if province = ''SK'' then 1100
      else 500)"

definition calculate_tax_cents :: "int \<Rightarrow> string \<Rightarrow> int" where
  "calculate_tax_cents taxable_base_cents province =
     i64_div (wrap_i64 (wrap_i64 (taxable_base_cents * province_tax_rate_bps province) + 5000)) 10000"

definition local_only_violation :: "string \<Rightarrow> json \<Rightarrow> bool" where
  "local_only_violation buyer_province item \<longleftrightarrow>
     (bool_field item ''isPerishable'' \<or> bool_field item ''isLocalDeliveryOnly'') \<and>
     str_field item ''shipFromProvince'' \<noteq> [] \<and> str_field item ''shipFromProvince'' \<noteq> buyer_province"

definition ships_from_elsewhere :: "ck_io \<Rightarrow> string \<Rightarrow> json \<Rightarrow> bool" where
  "ships_from_elsewhere ck buyer_province item \<longleftrightarrow>
     (let seller_prov = str_field item ''shipFromProvince'';
          seller_country = str_field item ''shipFromCountry'';
          seller_country_upper = to_uppercase ck (trim_str ck seller_country)
      in seller_country \<noteq> [] \<and> seller_country_upper \<noteq> ''CA'' \<and> seller_country_upper \<noteq> ''CANADA'' \<or>
         seller_prov \<noteq> [] \<and> seller_prov \<noteq> buyer_province)"

definition calculate_shipping_cost_cents :: "ck_io \<Rightarrow> int \<Rightarrow> string \<Rightarrow> json list \<Rightarrow> int ob_result" where
  "calculate_shipping_cost_cents ck subtotal_cents buyer_province items =
     (if list_all (\<lambda>item. bool_field item ''isDigital'') items then Inr 0
      else case List.find (local_only_violation buyer_province) items of
        Some item \<Rightarrow>
          Inl (Validation ((if bool_field item ''isPerishable'' then ''Perishable items'' else ''Local-delivery-only items'') @
            '' can only be shipped within the same province (50km local delivery). Seller province: '' @
            str_field item ''shipFromProvince'' @ '', buyer province: '' @ buyer_province))
      | None \<Rightarrow>
          if FREE_SHIPPING_THRESHOLD_CENTS \<le> subtotal_cents then Inr 0
          else if list_ex (ships_from_elsewhere ck buyer_province) items then Inr INTL_SHIPPING_BASE_CENTS
          else Inr STANDARD_SHIPPING_CENTS)"

definition MIN_CHECKOUT_TOTAL_CENTS :: int where "MIN_CHECKOUT_TOTAL_CENTS = 100"

definition MAX_COUPON_DISCOUNT_RATIO :: f64 where "MAX_COUPON_DISCOUNT_RATIO = f64_of_rat (9 / 10)"

definition compute_coupon_discount_cents :: "string \<Rightarrow> f64 \<Rightarrow> int \<Rightarrow> int" where
  "compute_coupon_discount_cents discount_type discount_value cart_subtotal_cents =
     (if cart_subtotal_cents \<le> MIN_CHECKOUT_TOTAL_CENTS then 0
      else if discount_type \<in> {''percentage'', ''percent''} then
        (let effective = f64_min discount_value (f64_mul MAX_COUPON_DISCOUNT_RATIO (Finite 100));
             millipercent = f64_as_i64 (f64_round (f64_mul effective (Finite 1000)));
             discount = i64_div (wrap_i64 (cart_subtotal_cents * millipercent)) 100000
         in if wrap_i64 (cart_subtotal_cents - discount) < MIN_CHECKOUT_TOTAL_CENTS
            then wrap_i64 (cart_subtotal_cents - MIN_CHECKOUT_TOTAL_CENTS) else discount)
      else if discount_type \<in> {''fixed_amount'', ''fixed_cents''} then
        min (f64_as_i64 discount_value) (wrap_i64 (cart_subtotal_cents - MIN_CHECKOUT_TOTAL_CENTS))
      else 0)"

definition checkout_subtotal_tolerance :: "int \<Rightarrow> int" where
  "checkout_subtotal_tolerance actual_subtotal_cents = (if actual_subtotal_cents < 100 then 1 else 200)"

text \<open>\<open>abs\<close> of the smallest \<open>i64\<close> is itself in a release build.\<close>

definition subtotal_matches_with_tolerance :: "int \<Rightarrow> int \<Rightarrow> bool" where
  "subtotal_matches_with_tolerance client actual \<longleftrightarrow>
     wrap_i64 \<bar>wrap_i64 (client - actual)\<bar> \<le> checkout_subtotal_tolerance actual"

subsection \<open>The request\<close>

definition validate_turnstile_token :: "ck_io \<Rightarrow> bool \<Rightarrow> string \<Rightarrow> string \<Rightarrow> unit ob_result" where
  "validate_turnstile_token ck test_mode token secret_key =
     (if test_mode then Inr ()
      else if token = [] then Inl (Validation ''Turnstile token is required'')
      else case ck_turnstile ck token secret_key of
        Inl e \<Rightarrow> Inl (Auth (''Turnstile validation request failed: '' @ e))
      | Inr (Inl e) \<Rightarrow> Inl (Auth (''Turnstile response parsing failed: '' @ e))
      | Inr (Inr (ok, codes)) \<Rightarrow>
          if \<not> ok then Inl (Validation (''Turnstile validation failed: '' @ join '', '' codes)) else Inr ())"

definition checkout_turnstile :: "ck_io \<Rightarrow> bool \<Rightarrow> string option \<Rightarrow> unit ob_result" where
  "checkout_turnstile ck test_mode token =
     (case token of
        Some t \<Rightarrow>
          (case ck_turnstile_secret ck of
             Some k \<Rightarrow> validate_turnstile_token ck test_mode t k
           | None \<Rightarrow>
               if \<not> test_mode
               then Inl (Forbidden (''Turnstile secret not configured '' @ em_dash @ '' cannot validate token''))
               else Inr ())
      | None \<Rightarrow> if \<not> test_mode then Inl (Validation ''Turnstile token is required'') else Inr ())"

definition cart_item_checks :: "CartItem \<Rightarrow> unit ob_result" where
  "cart_item_checks item =
     (if ca_product_id item = [] then Inl (Validation ''Each item must have a productId'')
      else rbind (validate_document_id (ca_product_id item)) (\<lambda>_.
        if ca_quantity item = 0 \<or> MAX_ITEM_QUANTITY < ca_quantity item
        then Inl (Validation (''Invalid quantity for product '' @ ca_product_id item)) else Inr ()))"

text \<open>The early validation; the result is the normalised province and postal code.\<close>

definition checkout_request_checks :: "ck_io \<Rightarrow> CreateCheckoutRequest \<Rightarrow> (string \<times> string) ob_result" where
  "checkout_request_checks ck req =
     (let addr = cc_shipping_address req in
      if cc_items req = [] then Inl (Validation ''No items in cart'')
      else if MAX_CART_ITEMS < length (cc_items req)
      then Inl (Validation (''Cart exceeds maximum of '' @ nat_to_string MAX_CART_ITEMS @ '' items''))
      else
        rbind (rmap cart_item_checks (cc_items req)) (\<lambda>_.
        if cc_subtotal_cents req < 0 then Inl (Validation ''Subtotal cannot be negative'')
        else if MAX_CHECKOUT_SUBTOTAL_CENTS < cc_subtotal_cents req
        then Inl (Validation ''Subtotal exceeds maximum allowed ($100,000)'')
        else
          rbind (validate_string ''street'' (sa_street addr) 200) (\<lambda>_.
          rbind (validate_string ''city'' (sa_city addr) 200) (\<lambda>_.
          rbind (validate_string ''postalCode'' (sa_postal_code addr) 20) (\<lambda>_.
          let province = normalize_province ck (sa_state addr);
              postal = normalize_postal_code ck (sa_postal_code addr)
          in if \<not> is_active_shipping_country ck (normalize_country ck (sa_country addr))
             then Inl (Validation ''Shipping is currently available within Canada only'')
             else if province \<notin> set VALID_PROVINCES
             then Inl (Validation (''Invalid province '' @ [CHR 0x27] @ province @ [CHR 0x27] @ ''. Must be one of: '' @
               join '', '' VALID_PROVINCES))
             else if \<not> is_valid_canadian_postal ck postal
             then Inl (Validation ''Invalid Canadian postal code format'')
             else Inr (province, postal))))))"

subsection \<open>Products\<close>

fun load_products :: "h_env \<Rightarrow> string list \<Rightarrow> json list h_action" where
  "load_products he [] = areturn []"
| "load_products he (pid # pids) =
     abind (hdb (atry (get_document (he_pg he) ''products'' pid))) (\<lambda>r.
     abind (load_products he pids) (\<lambda>rows.
       areturn (case r of Inr doc \<Rightarrow> doc # rows | Inl _ \<Rightarrow> rows)))"

definition row_of_product :: "string \<Rightarrow> json \<Rightarrow> bool" where
  "row_of_product product_id p = (case jget_str ''id'' p of Some i \<Rightarrow> ends_with product_id i | None \<Rightarrow> False)"

definition first_image :: "json \<Rightarrow> string" where
  "first_image product =
     (case jget_array ''imageUrls'' product of
        Some (v # _) \<Rightarrow> (case as_str v of Some u \<Rightarrow> u | None \<Rightarrow> [])
      | _ \<Rightarrow> [])"

definition weight_json :: "json \<Rightarrow> json" where
  "weight_json product =
     (case Option.bind (Option.bind (jget ''weightKg'' product) as_f64) number_from_f64 of
        Some n \<Rightarrow> JNumber n
      | None \<Rightarrow> JNull)"

definition validated_item :: "CartItem \<Rightarrow> json \<Rightarrow> json" where
  "validated_item item product =
     json_obj [(''productId'', JString (ca_product_id item)),
       (''quantity'', json_int (int (ca_quantity item))),
       (''priceCents'', json_int (i64_field product ''priceCents'')),
       (''sellerId'', JString (str_field product ''sellerId'')),
       (''name'', JString (str_field product ''name'')),
       (''imageUrl'', JString (first_image product)),
       (''isDigital'', JBool (bool_field product ''isDigital'')),
       (''isPerishable'', JBool (bool_field product ''isPerishable'')),
       (''isLocalDeliveryOnly'', JBool (bool_field product ''isLocalDeliveryOnly'')),
       (''shipFromProvince'', JString (str_field product ''shipFromProvince'')),
       (''shipFromCountry'', JString (str_field product ''shipFromCountry'')),
       (''weightKg'', weight_json product)]"

definition line_cents :: "CartItem \<Rightarrow> json \<Rightarrow> int" where
  "line_cents item product = wrap_i64 (i64_field product ''priceCents'' * int (ca_quantity item))"

definition product_checks :: "CreateCheckoutRequest \<Rightarrow> string \<Rightarrow> CartItem \<Rightarrow> json \<Rightarrow> unit ob_result" where
  "product_checks req user item product =
     (let pid = ca_product_id item;
          stock = i64_field product ''stockQuantity'';
          seller_id = str_field product ''sellerId'';
          user_short = (case strip_prefix ''users:'' user of Some u \<Rightarrow> u | None \<Rightarrow> user)
      in if str_field product ''lifecycleStatus'' \<noteq> ''active''
         then Inl (Validation (''Product '' @ pid @ '' is not available for purchase''))
         else if stock < int (ca_quantity item)
         then Inl (Validation (''Insufficient stock for product '' @ pid @ ''. Available: '' @ int_to_string stock))
         else if i64_field product ''priceCents'' \<le> 0
         then Inl (Validation (''Product '' @ pid @ '' has invalid price''))
         else if seller_id = user_short
         then Inl (Validation (''Cannot purchase your own products (seller: '' @ seller_id @ '', buyer: '' @ user_short @ '')''))
         else if bool_field product ''isAgeRestricted'' \<and> \<not> cc_age_verification_accepted req
         then Inl (Validation ''Age verification required for restricted items'')
         else if bool_field product ''isDigital'' \<and> \<not> cc_eula_accepted req
         then Inl (Validation ''EULA acceptance required for digital products'')
         else Inr ())"

text \<open>The loop over the cart: the running subtotal and the snapshots of the items.\<close>

fun price_items :: "CreateCheckoutRequest \<Rightarrow> string \<Rightarrow> json list \<Rightarrow> int \<Rightarrow> CartItem list \<Rightarrow> (int \<times> json list) ob_result" where
  "price_items req user rows subtotal [] = Inr (subtotal, [])"
| "price_items req user rows subtotal (item # items) =
     rbind (ok_or (NotFound (''Product '' @ ca_product_id item @ '' not found''))
              (List.find (row_of_product (ca_product_id item)) rows)) (\<lambda>product.
     rbind (product_checks req user item product) (\<lambda>_.
     rbind (price_items req user rows (wrap_i64 (subtotal + line_cents item product)) items) (\<lambda>(total, vs).
       Inr (total, validated_item item product # vs))))"

subsection \<open>Sellers\<close>

definition unique_seller_ids :: "json list \<Rightarrow> string list" where
  "unique_seller_ids items = remdups (List.map_filter (jget_str ''sellerId'') items)"

text \<open>The sellers must not be suspended; their profiles are kept for the connected account.\<close>

fun seller_profiles :: "h_env \<Rightarrow> string list \<Rightarrow> (string \<times> json) list h_action" where
  "seller_profiles he [] = areturn []"
| "seller_profiles he (sid # sids) =
     abind (hdb (atry (get_document (he_pg he) ''users'' sid))) (\<lambda>r.
     if (case r of Inr seller \<Rightarrow> bool_field seller ''suspended'' | Inl _ \<Rightarrow> False)
     then athrow (Fail (Validation (''Seller '' @ sid @ '' is suspended'')))
     else
       abind (hdb (atry (get_document (he_pg he) ''seller_profiles'' sid))) (\<lambda>p.
       abind (seller_profiles he sids) (\<lambda>ps.
         areturn (case p of Inr profile \<Rightarrow> (sid, profile) # ps | Inl _ \<Rightarrow> ps))))"

definition connect_account :: "(string \<times> json) list \<Rightarrow> string list \<Rightarrow> string option" where
  "connect_account profiles sellers =
     List.find (starts_with ''acct_'')
       (List.map_filter (\<lambda>sid. Option.bind (map_of profiles sid) (jget_str ''stripeAccountId'')) sellers)"

subsection \<open>Coupons\<close>

definition unavailable :: string where "unavailable = ''Coupon invalid or unavailable''"

definition coupon_by_code :: "h_env \<Rightarrow> string \<Rightarrow> doc_row option pg_action" where
  "coupon_by_code he code =
     abind (atry (ensure_table ''coupons'')) (\<lambda>_.
       pg_exec ''Query failed: '' ''coupons'' (\<lambda>rs.
         Inr (List.find (\<lambda>r. sql_eq (member_text (he_pg he) ''code'' (d_data r)) (Some code)) rs, rs)))"

definition coupon_fallback :: "h_env \<Rightarrow> string \<Rightarrow> json pg_action" where
  "coupon_fallback he code =
     abind (amap_err (\<lambda>_. NotFound unavailable) (coupon_by_code he code)) (\<lambda>row.
     alift (ok_or (NotFound unavailable) (map_option (inject_document_metadata (he_pg he)) row)))"

definition find_coupon :: "h_env \<Rightarrow> string \<Rightarrow> json pg_action" where
  "find_coupon he code =
     abind (atry (get_document (he_pg he) ''coupons'' code)) (\<lambda>r.
     case r of
       Inr doc \<Rightarrow> if \<not> is_null doc then areturn doc else coupon_fallback he code
     | Inl _ \<Rightarrow> coupon_fallback he code)"

text \<open>\<open>COUNT(*)\<close> of the rows of \<open>coupon_uses\<close> with these members; a failing query counts as none.\<close>

definition count_uses :: "h_env \<Rightarrow> (string \<times> string) list \<Rightarrow> int pg_action" where
  "count_uses he conds =
     abind (atry (abind (atry (ensure_table ''coupon_uses'')) (\<lambda>_.
       pg_exec ''Query failed: '' ''coupon_uses'' (\<lambda>rs.
         Inr (int (length (filter (\<lambda>r. list_all (\<lambda>(f, v). sql_eq (member_text (he_pg he) f (d_data r)) (Some v)) conds) rs)), rs)))))
     (\<lambda>r. areturn (case r of Inr n \<Rightarrow> n | Inl _ \<Rightarrow> 0))"

definition coupon_expired :: "ck_io \<Rightarrow> json \<Rightarrow> bool" where
  "coupon_expired ck coupon =
     (case Option.bind (jget_str ''expiresAt'' coupon) (ck_parse_rfc3339 ck) of
        Some ends_at \<Rightarrow> ends_at < ck_now_ns ck
      | None \<Rightarrow> False)"

definition coupon_checks :: "ck_io \<Rightarrow> json \<Rightarrow> int \<Rightarrow> string list \<Rightarrow> unit ob_result" where
  "coupon_checks ck coupon raw_subtotal seller_ids =
     (if \<not> bool_field coupon ''isActive'' then Inl (Validation unavailable)
      else if coupon_expired ck coupon then Inl (Validation unavailable)
      else if (case jget_str ''sellerId'' coupon of Some s \<Rightarrow> s \<notin> set seller_ids | None \<Rightarrow> False)
      then Inl (Validation unavailable)
      else if (case jget_i64 ''minOrderCents'' coupon of Some m \<Rightarrow> raw_subtotal < m | None \<Rightarrow> False)
      then Inl (Validation ''Cart subtotal does not meet the minimum order requirement for this coupon'')
      else Inr ())"

definition coupon_type :: "json \<Rightarrow> string" where
  "coupon_type coupon =
     (case Option.bind (case jget ''couponType'' coupon of Some v \<Rightarrow> Some v | None \<Rightarrow> jget ''discountType'' coupon) as_str of
        Some t \<Rightarrow> t
      | None \<Rightarrow> [])"

definition coupon_value :: "json \<Rightarrow> f64" where
  "coupon_value coupon = (case Option.bind (jget ''discountValue'' coupon) as_f64 of Some x \<Rightarrow> x | None \<Rightarrow> Finite 0)"

definition validate_checkout_coupon ::
  "h_env \<Rightarrow> ck_io \<Rightarrow> string \<Rightarrow> string \<Rightarrow> int \<Rightarrow> string list \<Rightarrow> (string \<times> int) pg_action" where
  "validate_checkout_coupon he ck coupon_code user raw_subtotal seller_ids =
     (let code = normalize_coupon_code ck coupon_code in
      if \<not> is_valid_coupon_code code then athrow (Validation unavailable)
      else
        abind (find_coupon he code) (\<lambda>coupon.
        abind (alift (coupon_checks ck coupon raw_subtotal seller_ids)) (\<lambda>_.
        abind (count_uses he [(''couponId'', code)]) (\<lambda>reserved.
        if (case jget_i64 ''maxUsesTotal'' coupon of Some m \<Rightarrow> m \<le> reserved | None \<Rightarrow> False)
        then athrow (Validation unavailable)
        else
          abind (count_uses he [(''couponId'', code), (''userId'', user)]) (\<lambda>used.
          if (case jget_i64 ''maxUsesPerUser'' coupon of Some m \<Rightarrow> m | None \<Rightarrow> 1) \<le> used
          then athrow (Validation (''You'' @ [CHR 0x27] @ ''ve reached the maximum uses for this coupon''))
          else areturn (code, compute_coupon_discount_cents (coupon_type coupon) (coupon_value coupon) raw_subtotal))))))"

subsection \<open>From the request to the priced order\<close>

record checkout_plan =
  cp_user :: string
  cp_province :: string
  cp_postal :: string
  cp_items :: "json list"
  cp_sellers :: "string list"
  cp_profiles :: "(string \<times> json) list"
  cp_coupon :: "string option"
  cp_discount :: int
  cp_subtotal :: int
  cp_key :: string
  cp_shipping :: int
  cp_tax :: int
  cp_total :: int
  cp_fee :: int

definition checkout_coupon ::
  "h_env \<Rightarrow> ck_io \<Rightarrow> CreateCheckoutRequest \<Rightarrow> string \<Rightarrow> int \<Rightarrow> string list \<Rightarrow> (string option \<times> int) h_action" where
  "checkout_coupon he ck req user raw_subtotal seller_ids =
     (case map_option (normalize_coupon_code ck) (cc_coupon_code req) of
        Some (c # cs) \<Rightarrow>
          abind (hdb (validate_checkout_coupon he ck (c # cs) user raw_subtotal seller_ids)) (\<lambda>(code, discount).
            areturn (Some code, discount))
      | _ \<Rightarrow> areturn (None, 0))"

definition checkout_key :: "ck_io \<Rightarrow> CreateCheckoutRequest \<Rightarrow> string \<Rightarrow> string" where
  "checkout_key ck req user =
     (case cc_idempotency_key req of
        Some k \<Rightarrow> k
      | None \<Rightarrow> ''checkout_'' @ user @ ''_'' @ int_to_string (ck_now_ms ck))"

text \<open>The order of the buyer with this idempotency key; a failing query finds none.\<close>

definition existing_order :: "h_env \<Rightarrow> string \<Rightarrow> string \<Rightarrow> json option pg_action" where
  "existing_order he user key =
     abind (atry (abind (atry (ensure_table ''orders'')) (\<lambda>_.
       pg_exec ''Query failed: '' ''orders'' (\<lambda>rs.
         Inr (List.find (\<lambda>r. sql_eq (member_text (he_pg he) ''buyerId'' (d_data r)) (Some user) \<and>
                sql_eq (member_text (he_pg he) ''idempotencyKey'' (d_data r)) (Some key)) rs, rs)))))
     (\<lambda>r. areturn (case r of Inr row \<Rightarrow> map_option (inject_document_metadata (he_pg he)) row | Inl _ \<Rightarrow> None))"

definition duplicate_response :: "json \<Rightarrow> CheckoutResponse" where
  "duplicate_response order =
     \<lparr>cr_session_id = str_field order ''stripeSessionId'', cr_order_id = str_field order ''orderId'',
      cr_checkout_url = None, cr_success = True, cr_duplicate = True,
      cr_tax_amount_cents = i64_field order ''taxAmountCents''\<rparr>"

definition checkout_totals :: "ck_io \<Rightarrow> string \<Rightarrow> json list \<Rightarrow> int \<Rightarrow> (int \<times> int \<times> int) ob_result" where
  "checkout_totals ck province items subtotal =
     rbind (calculate_shipping_cost_cents ck subtotal province items) (\<lambda>shipping.
     let tax = calculate_tax_cents (wrap_i64 (subtotal + shipping)) province
     in Inr (shipping, tax, wrap_i64 (wrap_i64 (subtotal + shipping) + tax)))"

definition subtotal_check :: "int \<Rightarrow> int \<Rightarrow> unit ob_result" where
  "subtotal_check client actual =
     (if subtotal_matches_with_tolerance client actual then Inr ()
      else Inl (Validation (''Subtotal mismatch. Expected ~'' @ int_to_string actual @ '' cents, got '' @
        int_to_string client @ '' cents'')))"

text \<open>The cart priced from the store: its items and their subtotal before any discount.\<close>

definition price_cart :: "h_env \<Rightarrow> CreateCheckoutRequest \<Rightarrow> string \<Rightarrow> (int \<times> json list) h_action" where
  "price_cart he req user =
     abind (load_products he (map ca_product_id (cc_items req))) (\<lambda>rows.
     if length rows \<noteq> length (cc_items req) then athrow (Fail (NotFound ''One or more products not found''))
     else hres (price_items req user rows 0 (cc_items req)))"

text \<open>Everything before the provider is called: an earlier order with the same key, or the plan of a new one.\<close>

definition prepare_checkout ::
  "h_env \<Rightarrow> h_io \<Rightarrow> ck_io \<Rightarrow> AuthContext \<Rightarrow> CreateCheckoutRequest \<Rightarrow> (CheckoutResponse + checkout_plan) h_action" where
  "prepare_checkout he io ck auth req =
     abind (hres (checkout_turnstile ck (io_test_mode io) (cc_turnstile_token req))) (\<lambda>_.
     abind (hres (resolve_self_user_id auth (cc_user_id req) ''userId'')) (\<lambda>user.
     abind (hres (validate_uid ''userId'' user)) (\<lambda>_.
     abind (hdb (check_user_rate_limit he io user ''create_checkout_session'' 5 1)) (\<lambda>_.
     abind (hres (checkout_request_checks ck req)) (\<lambda>(province, postal).
     abind (price_cart he req user) (\<lambda>(raw_subtotal, items).
     let sellers = unique_seller_ids items in
     if 1 < length sellers
     then athrow (Fail (Validation ''Multi-seller carts require separate checkout sessions per seller.''))
     else
       abind (seller_profiles he sellers) (\<lambda>profiles.
       abind (checkout_coupon he ck req user raw_subtotal sellers) (\<lambda>(coupon, discount).
       let subtotal = wrap_i64 (raw_subtotal - discount); key = checkout_key ck req user in
       abind (hres (subtotal_check (cc_subtotal_cents req) subtotal)) (\<lambda>_.
       abind (hdb (existing_order he user key)) (\<lambda>existing.
       case existing of
         Some order \<Rightarrow> areturn (Inl (duplicate_response order))
       | None \<Rightarrow>
           abind (hres (checkout_totals ck province items subtotal)) (\<lambda>(shipping, tax, total_cents).
           areturn (Inr \<lparr>cp_user = user, cp_province = province, cp_postal = postal, cp_items = items,
             cp_sellers = sellers, cp_profiles = profiles, cp_coupon = coupon, cp_discount = discount,
             cp_subtotal = subtotal, cp_key = key, cp_shipping = shipping, cp_tax = tax, cp_total = total_cents,
             cp_fee = i64_div (wrap_i64 (subtotal * PLATFORM_FEE_BPS)) 10000\<rparr>))))))))))))"

subsection \<open>The payment provider\<close>

definition SITE_URL :: string where "SITE_URL = ''https://orignagta.ca''"

definition line_item :: "nat \<Rightarrow> string \<Rightarrow> int \<Rightarrow> (string \<times> string) list" where
  "line_item i label cents =
     (let pre = ''line_items['' @ nat_to_string i @ '']'' in
      [(pre @ ''[price_data][currency]'', ''cad''),
       (pre @ ''[price_data][product_data][name]'', label),
       (pre @ ''[price_data][unit_amount]'', int_to_string cents),
       (pre @ ''[quantity]'', ''1'')])"

text \<open>One line per amount that is positive, numbered from zero.\<close>

definition line_items :: "(string \<times> int) list \<Rightarrow> (string \<times> string) list" where
  "line_items amounts =
     concat (map (\<lambda>(i, label, cents). line_item i label cents)
       (enumerate 0 (filter (\<lambda>(label, cents). 0 < cents) amounts)))"

definition connect_params :: "checkout_plan \<Rightarrow> (string \<times> string) list" where
  "connect_params p =
     (if 0 < cp_fee p
      then (case connect_account (cp_profiles p) (cp_sellers p) of
              Some acct \<Rightarrow>
                [(''payment_intent_data[on_behalf_of]'', acct),
                 (''payment_intent_data[transfer_data][destination]'', acct),
                 (''application_fee_amount'', int_to_string (cp_fee p))]
            | None \<Rightarrow> [])
      else [])"

definition checkout_form :: "ck_io \<Rightarrow> checkout_plan \<Rightarrow> (string \<times> string) list" where
  "checkout_form ck p =
     [(''mode'', ''payment''),
      (''success_url'', SITE_URL @ ''/payment-success?session_id={CHECKOUT_SESSION_ID}&order_id='' @ ck_order_id ck),
      (''cancel_url'', SITE_URL @ ''/payment-cancel?order_id='' @ ck_order_id ck),
      (''billing_address_collection'', ''required''),
      (''phone_number_collection[enabled]'', ''true''),
      (''payment_method_types[0]'', ''card''),
      (''payment_method_types[1]'', ''klarna''),
      (''payment_intent_data[capture_method]'', ''manual''),
      (''metadata[order_id]'', ck_order_id ck),
      (''metadata[user_id]'', cp_user p)] @
     map (\<lambda>(i, country). (''shipping_address_collection[allowed_countries]['' @ nat_to_string i @ '']'', country))
       (enumerate 0 ACTIVE_STRIPE_SHIPPING_COUNTRIES) @
     (case cp_coupon p of Some code \<Rightarrow> [(''metadata[coupon_code]'', code)] | None \<Rightarrow> []) @
     connect_params p @
     line_items [(''Order subtotal'', cp_subtotal p), (''Shipping'', cp_shipping p), (''Estimated tax'', cp_tax p)]"

definition open_session :: "ck_io \<Rightarrow> checkout_plan \<Rightarrow> (string \<times> string option) h_action" where
  "open_session ck p =
     (if \<not> ck_stripe_key ck then athrow (Fail (Config ''Missing required secret: stripe_secret_key''))
      else
        abind (notify (StripeSession (cp_key p) (checkout_form ck p))) (\<lambda>_.
        hres (case ck_stripe ck (cp_key p) (checkout_form ck p) of
            Inl e \<Rightarrow> Inl (Internal (''Stripe API error: '' @ e))
          | Inr (ok, body) \<Rightarrow>
              if \<not> ok then Inl (Internal ''Failed to create payment session'')
              else (case body of
                Inl e \<Rightarrow> Inl (Internal (''Failed to parse Stripe response: '' @ e))
              | Inr session \<Rightarrow>
                  rbind (ok_or (Internal ''Missing session ID from Stripe'') (jget_str ''id'' session)) (\<lambda>sid.
                  Inr (sid, jget_str ''url'' session))))))"

subsection \<open>Placing the order\<close>

definition opt_json :: "string option \<Rightarrow> json" where
  "opt_json v = (case v of Some s \<Rightarrow> JString s | None \<Rightarrow> JNull)"

definition order_document :: "h_io \<Rightarrow> ck_io \<Rightarrow> CreateCheckoutRequest \<Rightarrow> checkout_plan \<Rightarrow> string \<Rightarrow> json" where
  "order_document io ck req p session_id =
     json_obj [(''orderId'', JString (ck_order_id ck)),
       (''buyerId'', JString (cp_user p)),
       (''orderStatus'', JString (OrderStatus_as_str PendingPayment)),
       (''paymentStatus'', JString ''awaiting_payment''),
       (''items'', JArray (cp_items p)),
       (''subtotalCents'', json_int (cp_subtotal p)),
       (''couponCode'', opt_json (cp_coupon p)),
       (''discountAmountCents'', json_int (cp_discount p)),
       (''taxAmountCents'', json_int (cp_tax p)),
       (''shippingCostCents'', json_int (cp_shipping p)),
       (''totalAmountCents'', json_int (cp_total p)),
       (''platformFeeTotalCents'', json_int (cp_fee p)),
       (''idempotencyKey'', JString (cp_key p)),
       (''shippingAddress'', json_obj [(''street'', JString (sa_street (cc_shipping_address req))),
          (''city'', JString (sa_city (cc_shipping_address req))), (''state'', JString (cp_province p)),
          (''postalCode'', JString (cp_postal p)), (''country'', JString ''CA'')]),
       (''stripeSessionId'', JString session_id),
       (''createdAt'', JString (io_now io 0)),
       (''updatedAt'', JString (io_now io 0))]"

definition coupon_use_document :: "h_io \<Rightarrow> ck_io \<Rightarrow> string \<Rightarrow> string \<Rightarrow> json" where
  "coupon_use_document io ck code user =
     json_obj [(''couponId'', JString code), (''couponCode'', JString code), (''userId'', JString user),
       (''orderId'', JString (ck_order_id ck)), (''redeemedAt'', JNull),
       (''createdAt'', JString (io_now io 0)), (''updatedAt'', JString (io_now io 0))]"

text \<open>\<open>INSERT INTO table (id, data) VALUES ($id, $data::jsonb)\<close>: the primary key is unique.\<close>

definition row_insert_stmt :: "h_env \<Rightarrow> int \<Rightarrow> string \<Rightarrow> string \<Rightarrow> json \<Rightarrow> tx_stmt" where
  "row_insert_stmt he now table i data =
     (table, \<lambda>rs. rbind (pg_to_jsonb (he_pg he) data) (\<lambda>body.
        case doc_of i rs of
          Some _ \<Rightarrow> Inl (''duplicate key value violates unique constraint'')
        | None \<Rightarrow> Inr (1, rs @ [\<lparr>d_id = i, d_data = body, d_created_at = now, d_updated_at = now\<rparr>])))"

text \<open>
  \<open>UPDATE products SET data = jsonb_set(jsonb_set(data, '{stockQuantity}', ...), '{updatedAt}', ...)
  WHERE id = pid AND (data->>'stockQuantity')::bigint >= qty\<close>.
\<close>

definition stock_of :: "h_env \<Rightarrow> doc_row \<Rightarrow> string + int option" where
  "stock_of he r =
     (case member_text (he_pg he) ''stockQuantity'' (d_data r) of
        None \<Rightarrow> Inr None
      | Some t \<Rightarrow> rbind (he_bigint he t) (\<lambda>n. Inr (Some n)))"

definition take_from_row :: "h_env \<Rightarrow> int \<Rightarrow> string \<Rightarrow> string \<Rightarrow> nat \<Rightarrow> doc_row \<Rightarrow> string + bool \<times> doc_row" where
  "take_from_row he now now_text pid qty r =
     (if d_id r \<noteq> pid then Inr (False, r)
      else rbind (stock_of he r) (\<lambda>stock.
        case stock of
          Some n \<Rightarrow>
            if int qty \<le> n
            then Inr (True, r\<lparr>d_data := jset ''updatedAt'' (JString now_text)
                    (jset ''stockQuantity'' (json_int (n - int qty)) (d_data r)), d_updated_at := now\<rparr>)
            else Inr (False, r)
        | None \<Rightarrow> Inr (False, r)))"

definition take_stock_stmt :: "h_env \<Rightarrow> int \<Rightarrow> string \<Rightarrow> string \<Rightarrow> nat \<Rightarrow> tx_stmt" where
  "take_stock_stmt he now now_text pid qty =
     (''products'', \<lambda>rs. rbind (rmap (take_from_row he now now_text pid qty) rs) (\<lambda>brs.
        Inr (length (filter fst brs), map snd brs)))"

text \<open>The decrements: the product and the quantity of every item that is not digital.\<close>

definition stock_op :: "json \<Rightarrow> (string \<times> nat) option" where
  "stock_op item =
     (if bool_field item ''isDigital'' then None
      else
        let pid = str_field item ''productId'';
            qty = (case Option.bind (jget ''quantity'' item) as_u64 of Some q \<Rightarrow> q | None \<Rightarrow> 1)
        in if is_ok (validate_document_id pid) \<and> 0 < qty then Some (pid, qty) else None)"

definition order_inserts :: "h_env \<Rightarrow> h_io \<Rightarrow> ck_io \<Rightarrow> CreateCheckoutRequest \<Rightarrow> checkout_plan \<Rightarrow> string \<Rightarrow> transaction" where
  "order_inserts he io ck req p session_id =
     (let tx = tx_add (row_insert_stmt he (io_db_now io 1) ''orders'' (ck_order_id ck)
                 (order_document io ck req p session_id)) tx_new
      in case cp_coupon p of
           None \<Rightarrow> tx
         | Some code \<Rightarrow>
             tx_add (row_insert_stmt he (io_db_now io 1) ''coupon_uses''
               (ck_order_id ck @ '':'' @ code @ '':'' @ cp_user p) (coupon_use_document io ck code (cp_user p))) tx)"

fun add_stock_ops :: "h_env \<Rightarrow> h_io \<Rightarrow> json list \<Rightarrow> transaction \<Rightarrow> transaction \<times> (nat \<times> string) list" where
  "add_stock_ops he io [] tx = (tx, [])"
| "add_stock_ops he io (item # items) tx =
     (case stock_op item of
        None \<Rightarrow> add_stock_ops he io items tx
      | Some (pid, qty) \<Rightarrow>
          (case add_stock_ops he io items
                  (tx_add (take_stock_stmt he (io_db_now io 1) (io_now io 0) pid qty) tx) of
             (tx', ops) \<Rightarrow> (tx', (tx_len tx, pid) # ops)))"

text \<open>What the handler takes for a decrement that matched no row.\<close>

definition stock_missed :: "json list \<Rightarrow> nat \<Rightarrow> bool" where
  "stock_missed results idx =
     (if length results \<le> idx then True
      else case results ! idx of JArray arr \<Rightarrow> arr = [] | JNull \<Rightarrow> True | _ \<Rightarrow> False)"

definition place_order ::
  "h_env \<Rightarrow> h_io \<Rightarrow> ck_io \<Rightarrow> CreateCheckoutRequest \<Rightarrow> checkout_plan \<Rightarrow> string \<times> string option \<Rightarrow> CheckoutResponse h_action" where
  "place_order he io ck req p = (\<lambda>(session_id, checkout_url).
     case add_stock_ops he io (cp_items p) (order_inserts he io ck req p session_id) of
       (tx, ops) \<Rightarrow>
         abind (hdb (amap_err (db_failed ''Failed to create order and reserve stock (atomic transaction): '') (tx_commit tx))) (\<lambda>results.
         case List.find (\<lambda>(idx, pid). stock_missed results idx) ops of
           Some (idx, pid) \<Rightarrow>
             athrow (Fail (Validation (''Insufficient stock for product '' @ pid @
               ''. Please reduce quantity or remove from cart.'')))
         | None \<Rightarrow>
             areturn \<lparr>cr_session_id = session_id, cr_order_id = ck_order_id ck, cr_checkout_url = checkout_url,
               cr_success = True, cr_duplicate = False, cr_tax_amount_cents = cp_tax p\<rparr>))"

definition create_checkout_session ::
  "h_env \<Rightarrow> h_io \<Rightarrow> ck_io \<Rightarrow> AuthContext \<Rightarrow> CreateCheckoutRequest \<Rightarrow> CheckoutResponse h_action" where
  "create_checkout_session he io ck auth req =
     abind (prepare_checkout he io ck auth req) (\<lambda>r.
     case r of
       Inl earlier \<Rightarrow> areturn earlier
     | Inr p \<Rightarrow> abind (open_session ck p) (place_order he io ck req p))"

subsection \<open>\<open>verify_cart_prices\<close>\<close>

record VerifyPriceItem =
  vp_product_id :: string
  vp_expected_price_cents :: int
  vp_quantity :: int

definition price_mismatch :: "VerifyPriceItem \<Rightarrow> ob_error + json \<Rightarrow> json option" where
  "price_mismatch item doc =
     (let mismatch = (\<lambda>reason more. Some (json_obj
            ([(''productId'', JString (vp_product_id item)), (''reason'', JString reason)] @ more)))
      in case doc of
        Inl _ \<Rightarrow> mismatch ''product_not_found'' []
      | Inr product \<Rightarrow>
          let db_price = i64_field product ''priceCents'';
              in_stock = i64_field product ''stockQuantity''
          in if db_price \<noteq> vp_expected_price_cents item
             then mismatch ''price_changed'' [(''expectedPriceCents'', json_int (vp_expected_price_cents item)),
               (''actualPriceCents'', json_int db_price)]
             else if in_stock < vp_quantity item
             then mismatch ''insufficient_stock'' [(''requestedQuantity'', json_int (vp_quantity item)),
               (''availableStock'', json_int in_stock)]
             else if str_field product ''lifecycleStatus'' \<noteq> ''active''
             then mismatch ''product_unavailable'' []
             else None)"

text \<open>The loop over the items: the number of verified ones and the mismatches.\<close>

fun verify_items :: "h_env \<Rightarrow> VerifyPriceItem list \<Rightarrow> (nat \<times> json list) h_action" where
  "verify_items he [] = areturn (0, [])"
| "verify_items he (item # items) =
     abind (hres (validate_uid ''productId'' (vp_product_id item))) (\<lambda>_.
     abind (hdb (atry (get_document (he_pg he) ''products'' (vp_product_id item)))) (\<lambda>doc.
     abind (verify_items he items) (\<lambda>(verified, mismatches).
       areturn (case price_mismatch item doc of
           Some m \<Rightarrow> (verified, m # mismatches)
         | None \<Rightarrow> (verified + 1, mismatches)))))"

definition verify_cart_prices :: "h_env \<Rightarrow> h_io \<Rightarrow> string \<Rightarrow> VerifyPriceItem list \<Rightarrow> json h_action" where
  "verify_cart_prices he io user items =
     abind (hres (validate_uid ''userId'' user)) (\<lambda>_.
     abind (hdb (check_user_rate_limit he io user ''verify_cart_prices'' 10 1)) (\<lambda>_.
     if items = [] then athrow (Fail (Validation ''No items to verify''))
     else
       abind (verify_items he items) (\<lambda>(verified, mismatches).
       areturn (json_obj [(''valid'', JBool (mismatches = [])), (''verified'', json_int (int verified)),
         (''mismatches'', JArray mismatches)]))))"

end
