(* ===== verification/Checkout_Amounts.thy ===== *)
theory Checkout_Amounts
  imports Checkout
begin

text \<open>
  The amounts of a checkout: tax is rounded to the nearest cent, a coupon never takes more than its
  limit and leaves a dollar to pay, the accepted subtotal is near the client's, and the form sent
  to the payment provider charges exactly the positive amounts.
\<close>

subsection \<open>Tax\<close>

lemma tax_rate_bounds: "500 \<le> province_tax_rate_bps p \<and> province_tax_rate_bps p \<le> 1500"
  by (simp add: province_tax_rate_bps_def)

lemma tax_no_wrap:
  assumes "0 \<le> base" "base \<le> 1000000000000"
  shows "calculate_tax_cents base p = (base * province_tax_rate_bps p + 5000) div 10000"
proof -
  have le: "base * province_tax_rate_bps p \<le> 1000000000000 * 1500"
    by (rule mult_mono) (use assms tax_rate_bounds [of p] in auto)
  have ge: "0 \<le> base * province_tax_rate_bps p" using assms tax_rate_bounds [of p] by simp
  have "i64_range (base * province_tax_rate_bps p)" "i64_range (base * province_tax_rate_bps p + 5000)"
    using le ge by (auto simp: i64_range_def)
  then show ?thesis using ge by (simp add: calculate_tax_cents_def i64_div_nonneg)
qed

lemma tax_nonneg: "0 \<le> base \<Longrightarrow> base \<le> 1000000000000 \<Longrightarrow> 0 \<le> calculate_tax_cents base p"
  using tax_rate_bounds [of p] by (simp add: tax_no_wrap div_int_pos_iff)

text \<open>
  The tax of a checkout is the province's share of the taxable amount rounded to the nearest
  cent: it is off by at most half a cent, it is never negative, and it is at most 15 percent of
  the amount rounded up.
\<close>

theorem tax_is_rounded_to_the_cent:
  assumes "0 \<le> base" "base \<le> 1000000000000"
  shows "\<bar>10000 * calculate_tax_cents base province - base * province_tax_rate_bps province\<bar> \<le> 5000 \<and>
    0 \<le> calculate_tax_cents base province \<and> 10000 * calculate_tax_cents base province \<le> 1500 * base + 5000"
proof -
  have "base * province_tax_rate_bps province \<le> base * 1500"
    by (rule mult_left_mono) (use assms tax_rate_bounds [of province] in auto)
  moreover have "10000 * (x div 10000) \<le> x \<and> x < 10000 * (x div 10000) + 10000" for x :: int
    by presburger
  ultimately show ?thesis
    using tax_nonneg [OF assms] tax_no_wrap [OF assms, of province] by (smt (verit))
qed

theorem tax_is_rounded_to_the_cent_witness:
  "calculate_tax_cents 10899 ''QC'' = 1633 \<and>
   \<bar>10000 * calculate_tax_cents 10899 ''QC'' - 10899 * province_tax_rate_bps ''QC''\<bar> \<le> 5000"
proof -
  have "calculate_tax_cents 10899 ''QC'' = 1633" by code_simp
  then show ?thesis using tax_is_rounded_to_the_cent [of 10899 "''QC''"] by simp
qed

subsection \<open>Coupons\<close>

definition nonneg_f64 :: "f64 \<Rightarrow> bool" where
  "nonneg_f64 x \<longleftrightarrow> f64_le (Finite 0) x"

lemma ilog2_eq:
  assumes "2 powi k \<le> x" "x < 2 powi (k + 1)"
  shows "ilog2 x = k"
proof -
  have x: "0 < x" using assms(1) powi_pos_rat [of k] by linarith
  have "\<not> ilog2 x + 1 \<le> k"
  proof
    assume "ilog2 x + 1 \<le> k"
    then have "(2 :: rat) powi (ilog2 x + 1) \<le> 2 powi k" by (simp add: power_int_increasing)
    then show False using ilog2_upper [OF x] assms(1) by linarith
  qed
  then show ?thesis using ilog2_less [OF x assms(2)] by simp
qed

lemma round_half_even_nearest: "\<bar>x - of_int n\<bar> < 1 / 2 \<Longrightarrow> round_half_even x = n"
proof -
  assume a: "\<bar>x - of_int n\<bar> < 1 / 2"
  then have "\<lfloor>x\<rfloor> = n \<or> \<lfloor>x\<rfloor> = n - 1" by linarith
  then show ?thesis
  proof
    assume "\<lfloor>x\<rfloor> = n" then show ?thesis using a by (auto simp: round_half_even_def Let_def)
  next
    assume f: "\<lfloor>x\<rfloor> = n - 1"
    have "1 / 2 < x - of_int (n - 1)" using a unfolding of_int_diff of_int_1 abs_less_iff by linarith
    then show ?thesis by (simp add: round_half_even_def Let_def f)
  qed
qed

lemma round_f64_eq:
  assumes "2 powi k \<le> x" "x < 2 powi (k + 1)" "- 1022 \<le> k" "\<bar>x / 2 powi (k - 52) - of_int n\<bar> < 1 / 2"
  shows "round_f64 x = of_int n * 2 powi (k - 52)"
proof -
  have x: "0 < x" using assms(1) powi_pos_rat [of k] by linarith
  then have "ulp_exp x = k - 52" using ilog2_eq [OF assms(1,2)] assms(3) by (simp add: ulp_exp_def)
  then show ?thesis using x round_half_even_nearest [OF assms(4)] by (simp add: round_f64_def Let_def)
qed

text \<open>Nine tenths is not representable; a hundred times the nearest value rounds to ninety exactly.\<close>

lemma ratio_value: "MAX_COUPON_DISCOUNT_RATIO = Finite (8106479329266893 / 9007199254740992)"
proof -
  have "round_f64 (9 / 10) = of_int 8106479329266893 * 2 powi (- 1 - 52)"
    by (rule round_f64_eq) (simp_all add: power_int_def power_divide abs_if)
  then show ?thesis by (simp add: MAX_COUPON_DISCOUNT_RATIO_def f64_of_rat_def power_int_def power_divide Let_def)
qed

lemma ninety: "f64_mul MAX_COUPON_DISCOUNT_RATIO (Finite 100) = Finite 90"
proof -
  have "round_f64 (8106479329266893 / 9007199254740992 * 100) = of_int 6333186975989760 * 2 powi (6 - 52)"
    by (rule round_f64_eq) (simp_all add: power_int_def power_divide abs_if)
  then show ?thesis by (simp add: ratio_value f64_of_rat_def power_int_def power_divide Let_def)
qed

lemma effective_cases:
  assumes "nonneg_f64 x"
  obtains y where "f64_min x (Finite 90) = Finite y" "0 \<le> y" "y \<le> 90"
  using assms that by (cases x) (fastforce simp: nonneg_f64_def f64_le_def f64_min_def split: if_splits)+

lemma f64_mul_bounds:
  assumes "0 \<le> y" "y \<le> 90"
  obtains z where "f64_mul (Finite y) (Finite 1000) = Finite z" "0 \<le> z" "z \<le> 90000"
proof -
  have y: "of_int 0 \<le> y * 1000" "y * 1000 \<le> of_int 90000" "\<bar>y * 1000\<bar> < 2 ^ 53" using assms by auto
  have z: "0 \<le> round_f64 (y * 1000)" "round_f64 (y * 1000) \<le> 90000"
    using round_f64_ge_int [OF y(1,3)] round_f64_le_int [OF y(2,3)] by simp_all
  moreover have "\<not> 2 ^ 1024 \<le> round_f64 (y * 1000)"
  proof -
    have "(90000 :: rat) < 2 ^ 1024" by simp
    then show ?thesis using z(2) by linarith
  qed
  moreover have "\<not> round_f64 (y * 1000) \<le> - (2 ^ 1024)"
  proof -
    have "- (2 ^ 1024) < (0 :: rat)" by simp
    then show ?thesis using z(1) by linarith
  qed
  ultimately show ?thesis using that [of "round_f64 (y * 1000)"] by (simp add: f64_of_rat_def)
qed

lemma millipercent_bounds:
  assumes "nonneg_f64 x"
  shows "0 \<le> f64_as_i64 (f64_round (f64_mul (f64_min x (Finite 90)) (Finite 1000))) \<and>
    f64_as_i64 (f64_round (f64_mul (f64_min x (Finite 90)) (Finite 1000))) \<le> 90000"
proof -
  obtain y where y: "f64_min x (Finite 90) = Finite y" "0 \<le> y" "y \<le> 90" by (rule effective_cases [OF assms])
  obtain z where z: "f64_mul (Finite y) (Finite 1000) = Finite z" "0 \<le> z" "z \<le> 90000" by (rule f64_mul_bounds [OF y(2,3)])
  define k where "k = round_half_away z"
  have k: "0 \<le> k" "k \<le> 90000"
    using round_half_away_ge_int [of 0 z] round_half_away_le_int [of z 90000] z by (simp_all add: k_def)
  then have "f64_of_int k = Finite (of_int k)" by (intro f64_of_int_exact) simp
  then show ?thesis using y z k by (simp add: trunc_rat_def flip: k_def)
qed

lemma f64_as_i64_nonneg: "nonneg_f64 x \<Longrightarrow> 0 \<le> f64_as_i64 x"
  by (cases x) (auto simp: nonneg_f64_def f64_le_def trunc_rat_def)

lemma i64_div_range: "i64_range x \<Longrightarrow> 0 \<le> x \<Longrightarrow> i64_div x 100000 = x div 100000"
  by (rule i64_div_nonneg) auto

text \<open>The discount without the wrap-around, for the carts a checkout can hold.\<close>

lemma discount_percentage:
  assumes "nonneg_f64 x" "100 < raw" "raw \<le> 1000000000000" "t \<in> {''percentage'', ''percent''}"
  obtains m where "0 \<le> m" "m \<le> 90000" "m = f64_as_i64 (f64_round (f64_mul (f64_min x (Finite 90)) (Finite 1000)))"
    "compute_coupon_discount_cents t x raw = min (raw * m div 100000) (raw - 100)"
proof -
  define m where "m = f64_as_i64 (f64_round (f64_mul (f64_min x (Finite 90)) (Finite 1000)))"
  have m: "0 \<le> m" "m \<le> 90000" using millipercent_bounds [OF assms(1)] by (simp_all add: m_def)
  have le: "raw * m \<le> 1000000000000 * 90000" by (rule mult_mono) (use assms m in auto)
  have ge: "0 \<le> raw * m" using assms m by simp
  have div: "i64_div (wrap_i64 (raw * m)) 100000 = raw * m div 100000"
    using le ge by (subst wrap_i64_id) (auto simp: i64_range_def i64_div_range)
  have d: "0 \<le> raw * m div 100000" "raw * m div 100000 \<le> raw * m"
    using ge zdiv_mono2 [of "raw * m" 1 100000] by (simp_all add: pos_imp_zdiv_nonneg_iff)
  have "wrap_i64 (raw - raw * m div 100000) = raw - raw * m div 100000" "wrap_i64 (raw - 100) = raw - 100"
    using assms d le by (auto simp: i64_range_def intro!: wrap_i64_id)
  then have "compute_coupon_discount_cents t x raw = min (raw * m div 100000) (raw - 100)"
    using assms(2,4) unfolding compute_coupon_discount_cents_def ninety MIN_CHECKOUT_TOTAL_CENTS_def Let_def m_def [symmetric] div
    by (simp add: min_def)
  then show ?thesis using that m m_def by blast
qed

lemma discount_fixed:
  assumes "100 < raw" "raw \<le> 1000000000000" "t \<in> {''fixed_amount'', ''fixed_cents''}"
  shows "compute_coupon_discount_cents t x raw = min (f64_as_i64 x) (raw - 100)"
proof -
  have "wrap_i64 (raw - 100) = raw - 100" using assms by (auto simp: i64_range_def intro!: wrap_i64_id)
  then show ?thesis using assms by (auto simp: compute_coupon_discount_cents_def MIN_CHECKOUT_TOTAL_CENTS_def)
qed

lemma discount_small: "raw \<le> 100 \<Longrightarrow> compute_coupon_discount_cents t x raw = 0"
  by (simp add: compute_coupon_discount_cents_def MIN_CHECKOUT_TOTAL_CENTS_def)

lemma discount_other:
  "t \<notin> {''percentage'', ''percent'', ''fixed_amount'', ''fixed_cents''} \<Longrightarrow> compute_coupon_discount_cents t x raw = 0"
  by (simp add: compute_coupon_discount_cents_def)

lemma percentage_at_most_ninety:
  assumes "0 \<le> m" "m \<le> 90000" "0 \<le> (raw :: int)"
  shows "10 * (raw * m div 100000) \<le> 9 * raw"
proof -
  have "raw * m \<le> raw * 90000" using assms by (intro mult_left_mono) auto
  moreover have "100000 * (raw * m div 100000) \<le> raw * m" by presburger
  ultimately show ?thesis by linarith
qed

lemma whole_percentage:
  assumes "0 \<le> k" "k \<le> 90"
  shows "f64_as_i64 (f64_round (f64_mul (f64_min (Finite (of_int k)) (Finite 90)) (Finite 1000))) = 1000 * k"
proof -
  have exact: "f64_of_rat (of_int k * 1000) = Finite (of_int (1000 * k))"
    using f64_of_int_exact [of "1000 * k"] assms by (simp add: f64_of_int_def mult.commute)
  have "f64_min (Finite (of_int k)) (Finite 90) = Finite (of_int k)" using assms by (simp add: f64_min_def not_less)
  moreover have "round_half_away (of_int n) = n" for n
    by (rule order.antisym) (rule round_half_away_le_int round_half_away_ge_int, simp)+
  from this [of "1000 * k"] have "round_half_away (1000 * of_int k) = 1000 * k" by simp
  moreover have "\<lfloor>1000 * rat_of_int k\<rfloor> = 1000 * k" by (metis floor_of_int of_int_mult of_int_numeral)
  ultimately show ?thesis
    using exact f64_of_int_exact [of "1000 * k"] assms by (simp add: trunc_rat_def)
qed

lemma discount_limits:
  assumes "nonneg_f64 x" "0 \<le> raw" "raw \<le> 1000000000000"
  shows "0 \<le> compute_coupon_discount_cents t x raw \<and>
    compute_coupon_discount_cents t x raw \<le> max 0 (raw - 100) \<and>
    (t \<in> {''percentage'', ''percent''} \<longrightarrow> 10 * compute_coupon_discount_cents t x raw \<le> 9 * raw)"
proof (cases "raw \<le> 100")
  case True
  then show ?thesis using assms(2) by (simp add: discount_small)
next
  case False
  then have raw: "100 < raw" by simp
  consider (pct) "t \<in> {''percentage'', ''percent''}" | (fixed) "t \<in> {''fixed_amount'', ''fixed_cents''}"
    | (other) "t \<notin> {''percentage'', ''percent'', ''fixed_amount'', ''fixed_cents''}" by blast
  then show ?thesis
  proof cases
    case pct
    obtain m where m: "0 \<le> m" "m \<le> 90000"
      "compute_coupon_discount_cents t x raw = min (raw * m div 100000) (raw - 100)"
      by (rule discount_percentage [OF assms(1) raw assms(3) pct])
    have "0 \<le> raw * m div 100000" using raw m by (simp add: pos_imp_zdiv_nonneg_iff)
    moreover have "10 * (raw * m div 100000) \<le> 9 * raw" using m raw by (intro percentage_at_most_ninety) auto
    ultimately show ?thesis unfolding m(3) using raw by (intro conjI impI) (auto simp: min_def)
  next
    case fixed
    then have "t \<notin> {''percentage'', ''percent''}" by auto
    then show ?thesis
      using discount_fixed [OF raw assms(3) fixed, of x] f64_as_i64_nonneg [OF assms(1)] raw by simp
  next
    case other
    then show ?thesis using discount_other [OF other] raw by simp
  qed
qed

lemma discount_whole_percentage:
  assumes "t \<in> {''percentage'', ''percent''}" "0 \<le> k" "k \<le> 90" "0 \<le> raw" "raw \<le> 1000000000000" "raw * k div 100 \<le> raw - 100"
  shows "compute_coupon_discount_cents t (Finite (of_int k)) raw = raw * k div 100"
proof (cases "raw \<le> 100")
  case True
  have "0 \<le> raw * k div 100" using assms by (simp add: pos_imp_zdiv_nonneg_iff)
  then show ?thesis using True assms(6) by (simp add: discount_small)
next
  case False
  then have raw: "100 < raw" by simp
  have nn: "nonneg_f64 (Finite (of_int k))" using assms(2) by (auto simp: nonneg_f64_def f64_le_def)
  obtain m where m: "m = f64_as_i64 (f64_round (f64_mul (f64_min (Finite (of_int k)) (Finite 90)) (Finite 1000)))"
      "compute_coupon_discount_cents t (Finite (of_int k)) raw = min (raw * m div 100000) (raw - 100)"
    by (rule discount_percentage [OF nn raw assms(5,1)])
  have "m = 1000 * k" using m(1) assms(2,3) by (simp add: whole_percentage)
  then have "raw * m div 100000 = (1000 * (raw * k)) div (1000 * 100)" by (simp add: mult_ac)
  then have "raw * m div 100000 = raw * k div 100" by (simp add: mult.commute)
  then show ?thesis using m(2) assms(6) by simp
qed

text \<open>
  C29. A coupon with a value that is not negative takes nothing from a cart of at most a dollar,
  never less than nothing and never so much that less than a dollar remains, and one that is a percentage takes at
  most 90 percent, whatever its stored value is; a whole percentage up to 90 takes exactly that share, rounded
  down to the cent, as long as a dollar remains.
\<close>

theorem coupon_discount_within_limits:
  assumes "nonneg_f64 discount_value" "0 \<le> raw" "raw \<le> 1000000000000"
  shows "0 \<le> compute_coupon_discount_cents t discount_value raw \<and>
    compute_coupon_discount_cents t discount_value raw \<le> max 0 (raw - 100) \<and>
    (t \<in> {''percentage'', ''percent''} \<longrightarrow> 10 * compute_coupon_discount_cents t discount_value raw \<le> 9 * raw) \<and>
    (\<forall>k. t \<in> {''percentage'', ''percent''} \<and> 0 \<le> k \<and> k \<le> 90 \<and> discount_value = Finite (of_int k) \<and> raw * k div 100 \<le> raw - 100 \<longrightarrow>
       compute_coupon_discount_cents t discount_value raw = raw * k div 100)"
  using discount_limits [OF assms, of t] discount_whole_percentage [OF _ _ _ assms(2,3), of t] by blast

theorem coupon_discount_within_limits_witness:
  "compute_coupon_discount_cents ''percentage'' (Finite 20) 4999 = 999 \<and>
   10 * compute_coupon_discount_cents ''percentage'' (Finite 20) 4999 \<le> 9 * 4999"
  using coupon_discount_within_limits [of "Finite 20" 4999 "''percentage''"]
  by (auto simp: nonneg_f64_def f64_le_def dest: spec [of _ 20])

subsection \<open>The accepted subtotal\<close>

lemma subtotal_matches_near:
  assumes "subtotal_matches_with_tolerance client actual" "0 \<le> client" "client \<le> MAX_CHECKOUT_SUBTOTAL_CENTS"
    "0 \<le> actual" "actual \<le> 1000000000000"
  shows "\<bar>client - actual\<bar> \<le> 200 \<and> actual \<le> 10000200"
proof -
  have c: "client \<le> 10000000" using assms(3) by (simp add: MAX_CHECKOUT_SUBTOTAL_CENTS_def)
  then have "wrap_i64 (client - actual) = client - actual" "wrap_i64 \<bar>client - actual\<bar> = \<bar>client - actual\<bar>"
    using assms by (auto simp: i64_range_def intro!: wrap_i64_id)
  then have "\<bar>client - actual\<bar> \<le> 200"
    using assms(1) by (simp add: subtotal_matches_with_tolerance_def checkout_subtotal_tolerance_def split: if_splits)
  then show ?thesis using c by linarith
qed

lemma shipping_cases:
  "calculate_shipping_cost_cents ck sub prov items = Inr c \<Longrightarrow> c = 0 \<or> c = 899 \<or> c = 599"
  by (auto simp: calculate_shipping_cost_cents_def INTL_SHIPPING_BASE_CENTS_def STANDARD_SHIPPING_CENTS_def
      split: if_splits option.splits)

lemma totals_add_up:
  assumes "checkout_totals ck prov items sub = Inr (shipping, tax, total_cents)" "0 \<le> sub" "sub \<le> 10000200"
  shows "total_cents = sub + shipping + tax \<and> 0 \<le> shipping \<and> shipping \<le> 899 \<and> 0 \<le> tax \<and> tax \<le> 1600000 \<and>
    tax = calculate_tax_cents (sub + shipping) prov"
proof -
  from assms(1) have sh: "calculate_shipping_cost_cents ck sub prov items = Inr shipping"
    and tax: "tax = calculate_tax_cents (wrap_i64 (sub + shipping)) prov"
    and tot: "total_cents = wrap_i64 (wrap_i64 (sub + shipping) + tax)"
    by (auto simp: checkout_totals_def rbind_eq_Inr Let_def)
  have b: "0 \<le> shipping" "shipping \<le> 899" using shipping_cases [OF sh] by auto
  have w: "wrap_i64 (sub + shipping) = sub + shipping" using b assms by (auto simp: i64_range_def intro!: wrap_i64_id)
  have base: "0 \<le> sub + shipping" "sub + shipping \<le> 1000000000000" using b assms by auto
  have "(sub + shipping) * province_tax_rate_bps prov \<le> 10001099 * 1500"
    by (rule mult_mono) (use b assms tax_rate_bounds [of prov] in auto)
  then have "tax \<le> 1600000" using tax tax_no_wrap [OF base, of prov] w by simp
  moreover have "0 \<le> tax" using tax tax_nonneg [OF base, of prov] w by simp
  moreover from calculation have "wrap_i64 (sub + shipping + tax) = sub + shipping + tax"
    using b assms by (auto simp: i64_range_def intro!: wrap_i64_id)
  ultimately show ?thesis using tot w b tax by simp
qed

subsection \<open>What the provider is asked to charge\<close>

definition charged :: "(string \<times> string) list \<Rightarrow> int" where
  "charged form =
     sum_list (map (\<lambda>(k, v). case digits_value 0 v of Some n \<Rightarrow> int n | None \<Rightarrow> 0)
       (filter (\<lambda>(k, v). ends_with ''[unit_amount]'' k) form))"

lemma charged_append: "charged (a @ b) = charged a + charged b"
  by (simp add: charged_def)

lemma charged_Nil [simp]: "charged [] = 0"
  by (simp add: charged_def)

lemma charged_Cons: "charged (kv # form) = charged [kv] + charged form"
  using charged_append [of "[kv]" form] by simp

lemma ends_with_append: "length p \<le> length t \<Longrightarrow> ends_with p (a @ t) = ends_with p t"
  by (auto simp: ends_with_def)

lemma ends_with_iff_suffix: "ends_with p s \<longleftrightarrow> suffix p s"
proof
  assume "ends_with p s"
  then have "s = take (length s - length p) s @ p" unfolding ends_with_def by (metis append_take_drop_id)
  then show "suffix p s" unfolding suffix_def by blast
qed (auto simp: suffix_def ends_with_def)

lemma ends_with_short: "length t \<le> length p \<Longrightarrow> ends_with p (a @ t) \<Longrightarrow> ends_with t p"
  unfolding ends_with_iff_suffix by (rule suffix_length_suffix [of _ "a @ t"]) (auto simp: suffix_def)

lemma charged_other: "\<not> ends_with ''[unit_amount]'' k \<Longrightarrow> charged [(k, v)] = 0"
  by (simp add: charged_def)

lemma charged_line: "0 < c \<Longrightarrow> charged (line_item i label c) = c"
proof -
  assume c: "0 < c"
  have k: "ends_with ''[unit_amount]'' (''line_items['' @ nat_to_string i @ '']'' @ ''[price_data][unit_amount]'')"
    "\<not> ends_with ''[unit_amount]'' (''line_items['' @ nat_to_string i @ '']'' @ ''[price_data][currency]'')"
    "\<not> ends_with ''[unit_amount]'' (''line_items['' @ nat_to_string i @ '']'' @ ''[price_data][product_data][name]'')"
    "\<not> ends_with ''[unit_amount]'' (''line_items['' @ nat_to_string i @ '']'' @ ''[quantity]'')"
    unfolding append_assoc [symmetric]
    by (subst ends_with_append, simp, simp add: ends_with_def)+
       (rule notI, drule ends_with_short [rotated], simp_all add: ends_with_def)
  then show ?thesis
    using c by (simp add: line_item_def charged_def Let_def int_to_string_def digits_value_nat_to_string)
qed

lemma charged_lines: "charged (line_items amounts) = sum_list (map (\<lambda>(label, cents). max 0 cents) amounts)"
proof -
  have enum: "charged (concat (map (\<lambda>(i, label, cents). line_item i label cents) (enumerate n xs))) = sum_list (map snd xs)"
    if "\<forall>x \<in> set xs. 0 < snd x" for n and xs :: "(string \<times> int) list"
    using that by (induction xs arbitrary: n) (auto simp: charged_append charged_line split_beta)
  have "sum_list (map snd (filter (\<lambda>(label, cents). 0 < cents) xs)) = sum_list (map (\<lambda>(label, cents). max 0 cents) xs)"
    for xs :: "(string \<times> int) list"
    by (induction xs) (auto simp: max_def)
  then show ?thesis
    using enum [of "filter (\<lambda>(label, cents). 0 < cents) amounts" 0] unfolding line_items_def by auto
qed

lemma charged_connect: "charged (connect_params p) = 0"
proof -
  have "\<not> ends_with ''[unit_amount]'' ''payment_intent_data[on_behalf_of]''"
    "\<not> ends_with ''[unit_amount]'' ''payment_intent_data[transfer_data][destination]''"
    "\<not> ends_with ''[unit_amount]'' ''application_fee_amount''"
    by (simp_all add: ends_with_def)
  then have zero: "charged [(''payment_intent_data[on_behalf_of]'', a), (''payment_intent_data[transfer_data][destination]'', b),
      (''application_fee_amount'', c)] = 0" for a b c
    by (simp add: charged_Cons [of _ "_ # _"] charged_other)
  then show ?thesis
    unfolding connect_params_def by (cases "0 < cp_fee p"; cases "connect_account (cp_profiles p) (cp_sellers p)") simp_all
qed

lemma charged_form: "charged (checkout_form ck p) = max 0 (cp_subtotal p) + max 0 (cp_shipping p) + max 0 (cp_tax p)"
proof -
  have country: "charged (map (\<lambda>(i, country). (''shipping_address_collection[allowed_countries]['' @ nat_to_string i @ '']'', country))
      (enumerate 0 ACTIVE_STRIPE_SHIPPING_COUNTRIES)) = 0"
    by (simp add: ACTIVE_STRIPE_SHIPPING_COUNTRIES_def charged_def is_ascii_digit_def byte_def)
  have coupon: "charged (case cp_coupon p of Some code \<Rightarrow> [(''metadata[coupon_code]'', code)] | None \<Rightarrow> []) = 0"
    by (simp add: charged_def ends_with_def split: option.split)
  show ?thesis
    unfolding checkout_form_def charged_append country coupon charged_connect charged_lines
    by (simp add: charged_def ends_with_def)
qed

end
