(* ===== verification/Checkout_Safety.thy ===== *)
theory Checkout_Safety
  imports Checkout_Amounts
begin

text \<open>
  What a checkout does to the store and at the payment provider. Up to the call of the provider
  a checkout only reads, the counter of its rate limit apart; the order, the use of the coupon and
  the decrements of the stock are one transaction.
\<close>

subsection \<open>The reads\<close>

definition shop_tables :: "string set" where
  "shop_tables = - {RATE_LIMITS}"

lemma shop_mem [simp]: "''orders'' \<in> shop_tables" "''products'' \<in> shop_tables" "''coupons'' \<in> shop_tables"
  "''coupon_uses'' \<in> shop_tables"
  by (simp_all add: shop_tables_def RATE_LIMITS_def)

lemma keeps_get: "keeps T (hdb (atry (get_document env coll i)))"
  by (rule keeps_hdb) (auto simp: atry_eq dest: get_document_cases)

lemma keeps_Pair [simp]: "keeps T (Pair r)"
  by (simp add: keeps_def)

lemma keeps_load: "keeps T (load_products he ids)"
  by (induction ids) (auto intro!: keeps_abind keeps_get)

lemma keeps_profiles: "keeps T (seller_profiles he sids)"
  by (induction sids) (auto intro!: keeps_abind keeps_get)

lemma read_tables:
  "abind (atry (ensure_table t)) (\<lambda>_. pg_exec p t (\<lambda>rs. Inr (h rs, rs))) s = (r, s') \<Longrightarrow> tables s' = tables s"
  by (auto elim!: abind_cases simp: atry_eq dest!: ensure_table_tables pg_exec_read)

lemma count_uses_tables: "count_uses he conds s = (r, s') \<Longrightarrow> tables s' = tables s"
  unfolding count_uses_def by (auto elim!: abind_cases simp: atry_eq dest!: ensure_table_tables pg_exec_read)

lemma existing_order_tables: "existing_order he user key s = (r, s') \<Longrightarrow> tables s' = tables s"
  unfolding existing_order_def by (auto elim!: abind_cases simp: atry_eq dest!: ensure_table_tables pg_exec_read)

lemma find_coupon_cases:
  assumes "find_coupon he code s = (r, s')"
  shows "tables s' = tables s \<and>
    (\<forall>c. r = Inr c \<longrightarrow> (\<exists>row \<in> set (tables s ''coupons''). c = inject_document_metadata (he_pg he) row))"
proof -
  have fallback: "tables u' = tables u \<and>
      (\<forall>c. q = Inr c \<longrightarrow> (\<exists>row \<in> set (tables u ''coupons''). c = inject_document_metadata (he_pg he) row))"
    if "coupon_fallback he code u = (q, u')" for q u u'
    using that unfolding coupon_fallback_def coupon_by_code_def
    by (auto elim!: abind_cases simp: atry_eq amap_err_eq ok_or_eq_Inr find_Some_iff
        dest!: ensure_table_tables pg_exec_cases split: sum.splits) (metis nth_mem)+
  obtain g u where g: "get_document (he_pg he) ''coupons'' code s = (g, u)" by force
  have u: "tables u = tables s" using get_document_cases [OF g] by simp
  show ?thesis
  proof (cases "\<exists>doc. g = Inr doc \<and> \<not> is_null doc")
    case True
    then obtain doc where doc: "g = Inr doc" "\<not> is_null doc" by blast
    then have "r = Inr doc" "s' = u" using assms g by (simp_all add: find_coupon_def abind_def atry_def)
    then show ?thesis using get_document_cases [OF g] doc doc_of_id by blast
  next
    case False
    then have "coupon_fallback he code u = (r, s')"
      using assms g by (cases g) (auto simp: find_coupon_def abind_def atry_def)
    from fallback [OF this] show ?thesis using u by simp
  qed
qed

lemma coupon_inject [simp]:
  "coupon_value (inject_document_metadata env r) = coupon_value (d_data r)"
  "coupon_type (inject_document_metadata env r) = coupon_type (d_data r)"
  by (simp_all add: coupon_value_def coupon_type_def jget_inject cong: option.case_cong)

lemma i64_inject [simp]:
  "f \<notin> {''id'', ''createdAt'', ''updatedAt''} \<Longrightarrow> i64_field (inject_document_metadata env r) f = i64_field (d_data r) f"
  by (simp add: i64_field_def jget_i64_def jget_inject)

definition discount_of :: "doc_row list \<Rightarrow> int \<Rightarrow> int \<Rightarrow> bool" where
  "discount_of coupons raw discount \<longleftrightarrow> discount = 0 \<or>
     (\<exists>row \<in> set coupons. discount = compute_coupon_discount_cents (coupon_type (d_data row)) (coupon_value (d_data row)) raw)"

lemma validate_coupon_cases:
  assumes "validate_checkout_coupon he ck code user raw sellers s = (r, s')"
  shows "tables s' = tables s \<and> (\<forall>c d. r = Inr (c, d) \<longrightarrow> discount_of (tables s ''coupons'') raw d)"
  using assms unfolding validate_checkout_coupon_def Let_def
  by (auto elim!: abind_cases simp: discount_of_def split: if_splits dest!: find_coupon_cases count_uses_tables; blast)+

lemma checkout_coupon_cases:
  assumes "checkout_coupon he ck req user raw sellers s = (r, s')"
  shows "tables (hs_db s') = tables (hs_db s) \<and> (\<forall>c d. r = Inr (c, d) \<longrightarrow> discount_of (tbl s ''coupons'') raw d)"
  using assms unfolding checkout_coupon_def
  by (auto elim!: abind_cases simp: hdb_eq discount_of_def split: option.splits list.splits prod.splits
      dest!: validate_coupon_cases)

lemma keeps_price_cart: "keeps T (price_cart he req user)"
  unfolding price_cart_def by (auto intro!: keeps_abind keeps_load)

lemma keeps_coupon: "keeps T (checkout_coupon he ck req user raw sellers)"
  by (rule keepsI) (use checkout_coupon_cases in fastforce)

lemma keeps_existing: "keeps T (hdb (existing_order he user key))"
  by (rule keeps_hdb) (use existing_order_tables in fastforce)

lemma keeps_shop_rate_limit: "keeps shop_tables (hdb (check_user_rate_limit he io u a n w))"
  by (rule keeps_hdb) (auto simp: shop_tables_def dest: rate_limit_tables)

lemma keeps_branch:
  "keeps T a \<Longrightarrow> keeps T b \<Longrightarrow> keeps T (if c then a else b)"
  "(\<And>x y. keeps T (f x y)) \<Longrightarrow> keeps T (case p of (x, y) \<Rightarrow> f x y)"
  "keeps T a \<Longrightarrow> (\<And>x. keeps T (g x)) \<Longrightarrow> keeps T (case v of None \<Rightarrow> a | Some x \<Rightarrow> g x)"
  by (simp_all split: prod.split option.split)

lemmas checkout_keeps = keeps_abind keeps_branch keeps_pure keeps_shop_rate_limit keeps_price_cart keeps_profiles keeps_coupon keeps_existing

lemma keeps_prepare: "keeps shop_tables (prepare_checkout he io ck auth req)"
  unfolding prepare_checkout_def Let_def
  by (intro checkout_keeps)

lemma quiet_load: "quiet (load_products he ids)"
  by (induction ids) (auto intro!: quiet_abind)

lemma quiet_profiles: "quiet (seller_profiles he sids)"
  by (induction sids) (auto intro!: quiet_abind)

lemma quiet_branch:
  "quiet a \<Longrightarrow> quiet b \<Longrightarrow> quiet (if c then a else b)"
  "(\<And>x y. quiet (f x y)) \<Longrightarrow> quiet (case p of (x, y) \<Rightarrow> f x y)"
  "quiet a \<Longrightarrow> (\<And>x. quiet (g x)) \<Longrightarrow> quiet (case v of None \<Rightarrow> a | Some x \<Rightarrow> g x)"
  by (simp_all split: prod.split option.split)

lemma quiet_price_cart: "quiet (price_cart he req user)"
  unfolding price_cart_def by (intro quiet_abind quiet_branch quiet_steps quiet_load)

lemma quiet_coupon: "quiet (checkout_coupon he ck req user raw sellers)"
  unfolding checkout_coupon_def
  by (auto split: option.split list.split intro!: quiet_abind quiet_branch)

lemma quiet_prepare: "quiet (prepare_checkout he io ck auth req)"
  unfolding prepare_checkout_def Let_def
  by (intro quiet_abind quiet_branch quiet_steps quiet_price_cart quiet_coupon quiet_profiles)

text \<open>A new order: its plan comes from the products and coupons as they were at the start.\<close>

lemma prepare_new:
  assumes "prepare_checkout he io ck auth req s = (Inr (Inr p), s')"
  obtains u v raw where "tbl u ''products'' = tbl s ''products''"
    "price_cart he req (cp_user p) u = (Inr (raw, cp_items p), v)"
    "discount_of (tbl s ''coupons'') raw (cp_discount p)"
    "cp_subtotal p = wrap_i64 (raw - cp_discount p)"
    "subtotal_matches_with_tolerance (cc_subtotal_cents req) (cp_subtotal p)"
    "checkout_totals ck (cp_province p) (cp_items p) (cp_subtotal p) = Inr (cp_shipping p, cp_tax p, cp_total p)"
    "cp_fee p = i64_div (wrap_i64 (cp_subtotal p * PLATFORM_FEE_BPS)) 10000"
    "checkout_request_checks ck req = Inr (cp_province p, cp_postal p)"
    "cp_key p = checkout_key ck req (cp_user p)"
    "resolve_self_user_id auth (cc_user_id req) ''userId'' = Inr (cp_user p)"
proof -
  from assms obtain user a b c d e prov postal raw items profiles coupon discount shipping tax total_cents where
    user: "resolve_self_user_id auth (cc_user_id req) ''userId'' = Inr user"
    and rate: "hdb (check_user_rate_limit he io user ''create_checkout_session'' 5 1) s = (Inr (), a)"
    and checks: "checkout_request_checks ck req = Inr (prov, postal)"
    and price: "price_cart he req user a = (Inr (raw, items), b)"
    and prof: "seller_profiles he (unique_seller_ids items) b = (Inr profiles, c)"
    and coup: "checkout_coupon he ck req user raw (unique_seller_ids items) c = (Inr (coupon, discount), d)"
    and sub: "subtotal_check (cc_subtotal_cents req) (wrap_i64 (raw - discount)) = Inr ()"
    and tot: "checkout_totals ck prov items (wrap_i64 (raw - discount)) = Inr (shipping, tax, total_cents)"
    and p: "p = \<lparr>cp_user = user, cp_province = prov, cp_postal = postal, cp_items = items,
             cp_sellers = unique_seller_ids items, cp_profiles = profiles, cp_coupon = coupon, cp_discount = discount,
             cp_subtotal = wrap_i64 (raw - discount), cp_key = checkout_key ck req user, cp_shipping = shipping,
             cp_tax = tax, cp_total = total_cents,
             cp_fee = i64_div (wrap_i64 (wrap_i64 (raw - discount) * PLATFORM_FEE_BPS)) 10000\<rparr>"
    unfolding prepare_checkout_def Let_def
    by (auto simp: abind_eq_Inr hres_Inr split: prod.splits if_splits option.splits)
  have "tbl a t = tbl s t \<and> tbl b t = tbl s t \<and> tbl c t = tbl s t" if "t \<in> shop_tables" for t
    using keepsD [OF keeps_shop_rate_limit rate that] keepsD [OF keeps_price_cart price UNIV_I] keepsD [OF keeps_profiles prof UNIV_I]
    by simp
  then have t: "tbl a ''products'' = tbl s ''products''" "tbl c ''coupons'' = tbl s ''coupons''" by simp_all
  moreover have "discount_of (tbl s ''coupons'') raw discount" using checkout_coupon_cases [OF coup] t by simp
  moreover have "subtotal_matches_with_tolerance (cc_subtotal_cents req) (wrap_i64 (raw - discount))"
    using sub by (simp add: subtotal_check_def split: if_splits)
  ultimately show ?thesis using that [of a raw b] price tot checks user by (simp add: p)
qed

subsection \<open>The prices\<close>

definition stored_product :: "h_env \<Rightarrow> doc_row list \<Rightarrow> string \<Rightarrow> json \<Rightarrow> bool" where
  "stored_product he products pid d \<longleftrightarrow>
     (\<exists>row. doc_of (bare_id ''products'' pid) products = Some row \<and> d = inject_document_metadata (he_pg he) row)"

lemma load_products_rows:
  assumes "load_products he ids s = (Inr rows, s')"
  shows "length rows \<le> length ids \<and>
    (length rows = length ids \<longrightarrow> list_all2 (stored_product he (tbl s ''products'')) ids rows)"
  using assms
proof (induction ids arbitrary: s rows)
  case (Cons pid ids)
  then obtain r u rest where get: "hdb (atry (get_document (he_pg he) ''products'' pid)) s = (Inr r, u)"
    and rest: "load_products he ids u = (Inr rest, s')"
    and rows: "rows = (case r of Inr doc \<Rightarrow> doc # rest | Inl _ \<Rightarrow> rest)"
    by (auto simp: abind_eq_Inr)
  have "tbl u ''products'' = tbl s ''products''" using keepsD [OF keeps_get get UNIV_I] .
  moreover have "stored_product he (tbl s ''products'') pid doc" if "r = Inr doc" for doc
    using get that by (auto simp: hdb_eq atry_eq stored_product_def dest!: get_document_cases)
  ultimately show ?case using Cons.IH [OF rest] rows by (cases r) auto
qed simp

definition cart_prices :: "CreateCheckoutRequest \<Rightarrow> string \<Rightarrow> json list \<Rightarrow> CartItem list \<Rightarrow> json list \<Rightarrow> bool" where
  "cart_prices req user rows items ps \<longleftrightarrow>
     list_all2 (\<lambda>item p. List.find (row_of_product (ca_product_id item)) rows = Some p \<and>
       product_checks req user item p = Inr ()) items ps"

lemma price_items_products:
  assumes "price_items req user rows sub items = Inr (total_cents, vs)"
  shows "\<exists>ps. cart_prices req user rows items ps \<and> vs = map2 validated_item items ps \<and>
    total_cents = fold (\<lambda>(item, p) acc. wrap_i64 (acc + line_cents item p)) (zip items ps) sub"
  using assms
proof (induction items arbitrary: sub vs)
  case (Cons item items)
  then obtain p ws where p: "List.find (row_of_product (ca_product_id item)) rows = Some p"
      "product_checks req user item p = Inr ()" "vs = validated_item item p # ws"
    and rest: "price_items req user rows (wrap_i64 (sub + line_cents item p)) items = Inr (total_cents, ws)"
    by (auto simp: rbind_eq_Inr ok_or_eq_Inr)
  from Cons.IH [OF rest] obtain ps where "cart_prices req user rows items ps" "ws = map2 validated_item items ps"
      "total_cents = fold (\<lambda>(item, p) acc. wrap_i64 (acc + line_cents item p)) (zip items ps) (wrap_i64 (sub + line_cents item p))"
    by blast
  then show ?case using p by (intro exI [of _ "p # ps"]) (simp add: cart_prices_def)
qed (simp add: cart_prices_def)

lemma product_checks_ok:
  assumes "product_checks req user item p = Inr ()"
  shows "0 < i64_field p ''priceCents'' \<and> int (ca_quantity item) \<le> i64_field p ''stockQuantity'' \<and>
    str_field p ''lifecycleStatus'' = ''active''"
  using assms by (auto simp: product_checks_def Let_def split: if_splits)

lemma sum_no_wrap:
  assumes "list_all2 (\<lambda>item p. 0 < i64_field p ''priceCents'' \<and> i64_field p ''priceCents'' \<le> 10000000 \<and> ca_quantity item \<le> 100) items ps"
    "0 \<le> sub" "sub + int (length items) * 1000000000 \<le> 1000000000000"
  shows "fold (\<lambda>(item, p) acc. wrap_i64 (acc + line_cents item p)) (zip items ps) sub =
      sub + sum_list (map2 (\<lambda>item p. i64_field p ''priceCents'' * int (ca_quantity item)) items ps) \<and>
    0 \<le> sum_list (map2 (\<lambda>item p. i64_field p ''priceCents'' * int (ca_quantity item)) items ps) \<and>
    sum_list (map2 (\<lambda>item p. i64_field p ''priceCents'' * int (ca_quantity item)) items ps) \<le> int (length items) * 1000000000"
  using assms
proof (induction items ps arbitrary: sub rule: list_all2_induct)
  case (Cons item items p ps)
  define l where "l = i64_field p ''priceCents'' * int (ca_quantity item)"
  have l: "0 \<le> l" "l \<le> 10000000 * 100"
    using Cons.hyps(1) mult_mono [of "i64_field p ''priceCents''" 10000000 "int (ca_quantity item)" 100] by (simp_all add: l_def)
  have n: "sub + l + int (length items) * 1000000000 \<le> 1000000000000"
    using Cons.prems l by (simp add: algebra_simps)
  have "i64_range l" "i64_range (sub + l)" using l n Cons.prems by (auto simp: i64_range_def)
  then have "wrap_i64 (sub + line_cents item p) = sub + l" by (simp add: line_cents_def l_def)
  then show ?case using Cons.IH [of "sub + l"] Cons.prems l n by (simp flip: l_def)
qed simp

text \<open>The price the store has for a product id, and the value of a cart at these prices.\<close>

definition price_in :: "doc_row list \<Rightarrow> string \<Rightarrow> int" where
  "price_in products pid = (case doc_of pid products of Some r \<Rightarrow> i64_field (d_data r) ''priceCents'' | None \<Rightarrow> 0)"

definition cart_value :: "doc_row list \<Rightarrow> CartItem list \<Rightarrow> int" where
  "cart_value products items = sum_list (map (\<lambda>item. price_in products (ca_product_id item) * int (ca_quantity item)) items)"

definition suffix_free :: "CartItem list \<Rightarrow> bool" where
  "suffix_free items \<longleftrightarrow> (\<forall>a \<in> set items. \<forall>b \<in> set items. suffix (ca_product_id a) (ca_product_id b) \<longrightarrow> ca_product_id a = ca_product_id b)"

lemma bare_id_plain:
  assumes "safe_document_id pid"
  shows "bare_id coll pid = pid"
proof -
  have "CHR '':'' \<notin> set pid" using assms by (auto simp: safe_document_id_def list_all_iff)
  then have "strip_prefix (coll @ '':'') pid = None" by (auto simp: strip_prefix_def starts_with_iff_prefix prefix_def)
  then show ?thesis by (simp add: bare_id_def)
qed

lemma rmap_all: "rmap f xs = Inr ys \<Longrightarrow> x \<in> set xs \<Longrightarrow> \<exists>y. f x = Inr y"
  by (induction xs arbitrary: ys) (auto simp: rbind_eq_Inr)

lemma request_checks_items:
  assumes "checkout_request_checks ck req = Inr x" "item \<in> set (cc_items req)"
  shows "safe_document_id (ca_product_id item) \<and> ca_quantity item \<le> 100 \<and> 0 < ca_quantity item"
proof -
  from assms(1) obtain ys where "rmap cart_item_checks (cc_items req) = Inr ys"
    unfolding checkout_request_checks_def Let_def by (auto simp: rbind_eq_Inr split: if_splits)
  then have "cart_item_checks item = Inr ()" using rmap_all assms(2) by fastforce
  then show ?thesis
    by (auto simp: cart_item_checks_def rbind_eq_Inr validate_document_id_iff MAX_ITEM_QUANTITY_def split: if_splits)
qed

lemma request_checks_bounds:
  "checkout_request_checks ck req = Inr x \<Longrightarrow>
     length (cc_items req) \<le> 30 \<and> 0 \<le> cc_subtotal_cents req \<and> cc_subtotal_cents req \<le> MAX_CHECKOUT_SUBTOTAL_CENTS"
  unfolding checkout_request_checks_def Let_def by (auto simp: rbind_eq_Inr MAX_CART_ITEMS_def split: if_splits)

lemma list_all2_pick: "list_all2 P xs ys \<Longrightarrow> x \<in> set xs \<Longrightarrow> \<exists>y \<in> set ys. P x y"
  by (induction rule: list_all2_induct) auto

lemma list_all2_pick2: "list_all2 P xs ys \<Longrightarrow> y \<in> set ys \<Longrightarrow> \<exists>x \<in> set xs. P x y"
  by (induction rule: list_all2_induct) auto

text \<open>In a cart without an id that ends another id, every item finds its own product.\<close>

lemma found_own_product:
  assumes "list_all2 (stored_product he products) (map ca_product_id items) rows" "suffix_free items"
    "\<forall>item \<in> set items. safe_document_id (ca_product_id item)" "item \<in> set items"
    "List.find (row_of_product (ca_product_id item)) rows = Some p"
  shows "stored_product he products (ca_product_id item) p"
proof -
  have mem: "p \<in> set rows" and row: "row_of_product (ca_product_id item) p"
    using assms(5) by (auto simp: find_Some_iff)
  from list_all2_pick2 [OF assms(1) mem] obtain other where
    o: "other \<in> set items" "stored_product he products (ca_product_id other) p" by auto
  then obtain r where r: "doc_of (ca_product_id other) products = Some r" "p = inject_document_metadata (he_pg he) r"
    using assms(3) by (auto simp: stored_product_def bare_id_plain)
  have "suffix (ca_product_id item) (ca_product_id other)"
    using row r(2) doc_of_id [OF r(1)]
    by (auto simp: row_of_product_def jget_str_def jget_def inject_document_metadata_def ends_with_iff_suffix split: json.splits)
  then show ?thesis using assms(2,4) o by (metis suffix_free_def)
qed

text \<open>
  The catalogue as the creation of products and coupons leaves it: no price above the maximum
  of \<open>validate_amount_cents\<close>, no coupon with a negative value.
\<close>

definition modest_catalogue :: "h_state \<Rightarrow> bool" where
  "modest_catalogue s \<longleftrightarrow> (\<forall>r \<in> set (tbl s ''products''). i64_field (d_data r) ''priceCents'' \<le> 10000000) \<and>
     (\<forall>r \<in> set (tbl s ''coupons''). nonneg_f64 (coupon_value (d_data r)))"

lemma price_cart_value:
  assumes "price_cart he req user u = (Inr (raw, vs), v)" "checkout_request_checks ck req = Inr x"
    "suffix_free (cc_items req)" "\<forall>r \<in> set (tbl u ''products''). i64_field (d_data r) ''priceCents'' \<le> 10000000"
  shows "raw = cart_value (tbl u ''products'') (cc_items req) \<and> 0 \<le> raw \<and> raw \<le> 30000000000"
proof -
  let ?items = "cc_items req"
  from assms(1) obtain rows w where load: "load_products he (map ca_product_id ?items) u = (Inr rows, w)"
    and len: "length rows = length ?items" and price: "price_items req user rows 0 ?items = Inr (raw, vs)"
    by (auto simp: price_cart_def abind_eq_Inr hres_Inr split: if_splits)
  have rows: "list_all2 (stored_product he (tbl u ''products'')) (map ca_product_id ?items) rows"
    using load_products_rows [OF load] len by simp
  obtain ps where ps: "cart_prices req user rows ?items ps"
    "raw = fold (\<lambda>(item, p) acc. wrap_i64 (acc + line_cents item p)) (zip ?items ps) 0"
    using price_items_products [OF price] by blast
  have safe: "\<forall>item \<in> set ?items. safe_document_id (ca_product_id item) \<and> ca_quantity item \<le> 100"
    using request_checks_items [OF assms(2)] by blast
  have own: "i64_field p ''priceCents'' = price_in (tbl u ''products'') (ca_product_id item) \<and>
      0 < i64_field p ''priceCents'' \<and> i64_field p ''priceCents'' \<le> 10000000"
    if "(item, p) \<in> set (zip ?items ps)" for item p
  proof -
    have i: "item \<in> set ?items" using that by (rule set_zip_leftD)
    have f: "List.find (row_of_product (ca_product_id item)) rows = Some p" "product_checks req user item p = Inr ()"
      using ps(1) that by (auto simp: cart_prices_def list_all2_iff)
    from found_own_product [OF rows assms(3) _ i f(1)] safe i obtain r where
      r: "doc_of (ca_product_id item) (tbl u ''products'') = Some r" "p = inject_document_metadata (he_pg he) r"
      by (auto simp: stored_product_def bare_id_plain)
    then show ?thesis using product_checks_ok [OF f(2)] assms(4) doc_of_id [OF r(1)] by (simp add: price_in_def)
  qed
  have all: "list_all2 (\<lambda>item p. 0 < i64_field p ''priceCents'' \<and> i64_field p ''priceCents'' \<le> 10000000 \<and> ca_quantity item \<le> 100) ?items ps"
    using ps(1) own safe by (auto simp: cart_prices_def list_all2_iff dest: set_zip_leftD)
  have n: "int (length ?items) \<le> 30" using request_checks_bounds [OF assms(2)] by simp
  have "map2 (\<lambda>item p. i64_field p ''priceCents'' * int (ca_quantity item)) ?items ps =
      map (\<lambda>item. price_in (tbl u ''products'') (ca_product_id item) * int (ca_quantity item)) ?items"
    using own list_all2_lengthD [OF all] by (intro nth_equalityI) (auto simp: in_set_zip)
  then show ?thesis using sum_no_wrap [OF all, of 0] n ps(2) by (simp add: cart_value_def)
qed

subsection \<open>The transaction\<close>

definition stock_stmts :: "h_env \<Rightarrow> h_io \<Rightarrow> json list \<Rightarrow> transaction" where
  "stock_stmts he io items =
     map (\<lambda>(pid, qty). take_stock_stmt he (io_db_now io 1) (io_now io 0) pid qty) (List.map_filter stock_op items)"

lemma add_stock_ops_eq:
  "add_stock_ops he io items tx =
     (tx @ stock_stmts he io items, map (\<lambda>(i, pid, qty). (i, pid)) (enumerate (length tx) (List.map_filter stock_op items)))"
proof (induction items arbitrary: tx)
  case (Cons item items)
  then show ?case
    by (cases "stock_op item") (simp_all add: stock_stmts_def tx_add_def tx_len_def map_filter_simps split_beta)
qed (simp add: stock_stmts_def map_filter_simps)

lemma stock_stmts_table: "fst ` set (stock_stmts he io items) \<subseteq> {''products''}"
  by (auto simp: stock_stmts_def take_stock_stmt_def split: prod.splits)

lemma rows_affected_not_missed: "i < length ns \<Longrightarrow> \<not> stock_missed (map rows_affected ns) i"
  by (simp add: stock_missed_def rows_affected_def json_obj_def)

text \<open>The inserts of a checkout: the order, and the use of the coupon if there is one.\<close>

lemma order_inserts_effect:
  assumes "tx_effect (order_inserts he io ck req p sid) db = Inr (ns, db')"
  shows "\<exists>row. pg_to_jsonb (he_pg he) (order_document io ck req p sid) = Inr (d_data row) \<and>
    d_id row = ck_order_id ck \<and> doc_of (ck_order_id ck) (db ''orders'') = None \<and>
    db' ''orders'' = db ''orders'' @ [row] \<and> (\<forall>t. t \<notin> {''orders'', ''coupon_uses''} \<longrightarrow> db' t = db t) \<and>
    (cp_coupon p = None \<longrightarrow> db' = db(''orders'' := db ''orders'' @ [row]))"
proof -
  obtain body where body: "pg_to_jsonb (he_pg he) (order_document io ck req p sid) = Inr body"
      "doc_of (ck_order_id ck) (db ''orders'') = None"
    using assms
    by (auto simp: order_inserts_def Let_def tx_add_def tx_new_def row_insert_stmt_def rbind_eq_Inr split: option.splits)
  define row where "row = \<lparr>d_id = ck_order_id ck, d_data = body, d_created_at = io_db_now io 1, d_updated_at = io_db_now io 1\<rparr>"
  have "db' ''orders'' = db ''orders'' @ [row] \<and> (\<forall>t. t \<notin> {''orders'', ''coupon_uses''} \<longrightarrow> db' t = db t) \<and>
      (cp_coupon p = None \<longrightarrow> db' = db(''orders'' := db ''orders'' @ [row]))"
    using assms body
    by (auto simp: order_inserts_def Let_def tx_add_def tx_new_def row_insert_stmt_def rbind_eq_Inr row_def split: option.splits)
  then show ?thesis using body by (intro exI [of _ row]) (simp add: row_def)
qed

lemma place_order_effect:
  assumes "place_order he io ck req p (sid, url) s = (Inr resp, s')"
  shows "\<exists>row ns db. pg_to_jsonb (he_pg he) (order_document io ck req p sid) = Inr (d_data row) \<and>
    d_id row = ck_order_id ck \<and> doc_of (ck_order_id ck) (tbl s ''orders'') = None \<and>
    tbl s' ''orders'' = tbl s ''orders'' @ [row] \<and> hs_outbox s' = hs_outbox s \<and>
    tx_effect (stock_stmts he io (cp_items p)) db = Inr (ns, tables (hs_db s')) \<and>
    db ''orders'' = tbl s ''orders'' @ [row] \<and> (\<forall>t. t \<notin> {''orders'', ''coupon_uses''} \<longrightarrow> db t = tbl s t) \<and>
    cr_order_id resp = ck_order_id ck \<and> cr_session_id resp = sid \<and> \<not> cr_duplicate resp"
proof -
  obtain tx ops where ops: "add_stock_ops he io (cp_items p) (order_inserts he io ck req p sid) = (tx, ops)" by force
  have tx: "tx = order_inserts he io ck req p sid @ stock_stmts he io (cp_items p)"
    using add_stock_ops_eq [of he io "cp_items p" "order_inserts he io ck req p sid"] ops by simp
  from assms obtain results where
    c: "hdb (amap_err (db_failed ''Failed to create order and reserve stock (atomic transaction): '') (tx_commit tx)) s = (Inr results, s')"
    and r: "cr_order_id resp = ck_order_id ck" "cr_session_id resp = sid" "\<not> cr_duplicate resp"
    by (auto simp: place_order_def ops abind_eq_Inr split: option.splits)
  from c obtain d where "tx_commit tx (hs_db s) = (Inr results, d)" and s': "s' = s\<lparr>hs_db := d\<rparr>"
    by (auto simp: hdb_eq amap_err_eq)
  from tx_commit_cases [OF this(1)] obtain ns where "tx_effect tx (tables (hs_db s)) = Inr (ns, tables d)" by auto
  then obtain ms db ks where ins: "tx_effect (order_inserts he io ck req p sid) (tables (hs_db s)) = Inr (ms, db)"
    and st: "tx_effect (stock_stmts he io (cp_items p)) db = Inr (ks, tables d)"
    by (auto simp: tx tx_effect_append rbind_eq_Inr)
  have "tables d ''orders'' = db ''orders''"
    using stock_stmts_table [of he io "cp_items p"] by (intro tx_effect_other [OF st]) auto
  then show ?thesis using order_inserts_effect [OF ins] st r s' by auto
qed

lemma open_session_ok:
  assumes "open_session ck p s = (Inr (sid, url), s')"
  shows "s' = s\<lparr>hs_outbox := hs_outbox s @ [StripeSession (cp_key p) (checkout_form ck p)]\<rparr>"
  using assms by (auto simp: open_session_def abind_eq_Inr notify_def hres_Inr split: if_splits)

lemma create_checkout_new:
  assumes "create_checkout_session he io ck auth req s = (Inr resp, s')" "\<not> cr_duplicate resp"
  obtains p u v sid url where "prepare_checkout he io ck auth req s = (Inr (Inr p), u)"
    "open_session ck p u = (Inr (sid, url), v)" "place_order he io ck req p (sid, url) v = (Inr resp, s')"
proof -
  have "cr_duplicate early" if "prepare_checkout he io ck auth req s = (Inr (Inl early), u)" for early u
    using that unfolding prepare_checkout_def Let_def
    by (auto simp: abind_eq_Inr hres_Inr duplicate_response_def split: prod.splits if_splits option.splits)
  moreover obtain r u where "prepare_checkout he io ck auth req s = (Inr r, u)"
    "(case r of Inl earlier \<Rightarrow> areturn earlier
       | Inr p \<Rightarrow> abind (open_session ck p) (place_order he io ck req p)) u = (Inr resp, s')"
    using assms(1) by (auto simp: create_checkout_session_def abind_eq_Inr)
  ultimately show ?thesis
    using assms(2) that by (cases r) (auto simp: abind_eq_Inr)
qed

lemma compute_discount_bounds:
  assumes "nonneg_f64 x" "0 \<le> raw" "raw \<le> 1000000000000"
  shows "0 \<le> compute_coupon_discount_cents t x raw \<and> compute_coupon_discount_cents t x raw \<le> max 0 (raw - 100)"
  using discount_limits [OF assms] by blast

lemma i64_json_int: "i64_range n \<Longrightarrow> as_i64 (json_int n) = Some n"
  by (auto simp: json_int_def i64_range_def)

lemma order_document_amounts:
  assumes "i64_range (cp_subtotal p)" "i64_range (cp_discount p)" "i64_range (cp_tax p)" "i64_range (cp_shipping p)"
    "i64_range (cp_total p)"
  shows "i64_field (order_document io ck req p sid) ''totalAmountCents'' = cp_total p \<and>
    i64_field (order_document io ck req p sid) ''subtotalCents'' = cp_subtotal p \<and>
    i64_field (order_document io ck req p sid) ''shippingCostCents'' = cp_shipping p \<and>
    i64_field (order_document io ck req p sid) ''taxAmountCents'' = cp_tax p \<and>
    i64_field (order_document io ck req p sid) ''discountAmountCents'' = cp_discount p"
  unfolding i64_field_def jget_i64_def order_document_def by (simp add: i64_json_int assms)

lemma discount_bounds:
  assumes "discount_of coupons raw d" "\<forall>r \<in> set coupons. nonneg_f64 (coupon_value (d_data r))" "0 \<le> raw" "raw \<le> 1000000000000"
  shows "0 \<le> d \<and> d \<le> max 0 (raw - 100)"
  using assms compute_discount_bounds by (auto simp: discount_of_def)

end
