(* ===== verification/Checkout_Stock.thy ===== *)
theory Checkout_Stock
  imports Checkout_Safety
begin

text \<open>
  The stock under checkouts that overlap: the guarded decrements never let it become negative,
  however the parts of the requests interleave. That an accepted order got its units is not
  guaranteed: the handler reads the results of the transaction in a form in which a decrement
  that matched no row is not visible.
\<close>

subsection \<open>The decrement\<close>

text \<open>Documented behaviour of the database: integers print as decimals, and \<open>::bigint\<close> reads what they print as, in 64 bits.\<close>

definition stock_libs :: "h_env \<Rightarrow> bool" where
  "stock_libs he \<longleftrightarrow> (\<forall>i. pg_value_text (he_pg he) (json_int i) = int_to_string i) \<and> bigint_cast (he_bigint he) \<and>
     (\<forall>t n. he_bigint he t = Inr n \<longrightarrow> i64_range n)"

definition no_negative_stock :: "h_env \<Rightarrow> doc_row list \<Rightarrow> bool" where
  "no_negative_stock he rs \<longleftrightarrow> (\<forall>r \<in> set rs. \<forall>n. stock_of he r = Inr (Some n) \<longrightarrow> 0 \<le> n)"

definition readable_stock :: "h_env \<Rightarrow> doc_row list \<Rightarrow> bool" where
  "readable_stock he rs \<longleftrightarrow> (\<forall>r \<in> set rs. \<exists>x. stock_of he r = Inr x)"

lemma stock_of_object:
  assumes "stock_of he r = Inr (Some n)"
  obtains m where "d_data r = JObject m"
  using assms by (auto simp: stock_of_def member_text_def jget_def split: option.splits json.splits)

lemma json_int_text: "stock_libs he \<Longrightarrow> jsonb_text (he_pg he) (json_int i) = Some (int_to_string i)"
  by (simp add: jsonb_text_def stock_libs_def json_int_def split: number.split)

lemma taken_stock:
  assumes "stock_libs he" "stock_of he r = Inr (Some n)" "int qty \<le> n"
  shows "stock_of he (r\<lparr>d_data := jset ''updatedAt'' (JString t) (jset ''stockQuantity'' (json_int (n - int qty)) (d_data r)),
    d_updated_at := now\<rparr>) = Inr (Some (n - int qty))"
proof -
  obtain m where m: "d_data r = JObject m" by (rule stock_of_object [OF assms(2)])
  have "i64_range n" using assms(1,2) by (auto simp: stock_libs_def stock_of_def rbind_eq_Inr split: option.splits)
  then have "i64_range (n - int qty)" using assms(3) by (auto simp: i64_range_def)
  then have "he_bigint he (int_to_string (n - int qty)) = Inr (n - int qty)"
    using assms(1) by (simp add: stock_libs_def bigint_cast_def)
  then show ?thesis
    using json_int_text [OF assms(1)] by (simp add: stock_of_def member_text_def m jget_def)
qed

text \<open>A row after the decrement: the same, or the row of the product with that many units less.\<close>

lemma take_from_row_cases:
  assumes "take_from_row he now t pid qty r = Inr (b, r')"
  shows "r' = r \<and> \<not> b \<or> (b \<and> d_id r = pid \<and> d_id r' = pid \<and> (\<exists>n. stock_of he r = Inr (Some n) \<and> int qty \<le> n \<and>
    r' = r\<lparr>d_data := jset ''updatedAt'' (JString t) (jset ''stockQuantity'' (json_int (n - int qty)) (d_data r)), d_updated_at := now\<rparr>))"
  using assms by (auto simp: take_from_row_def rbind_eq_Inr split: if_splits option.splits)

lemma rmap_list_all2: "rmap f xs = Inr ys \<Longrightarrow> list_all2 (\<lambda>x y. f x = Inr y) xs ys"
  by (induction xs arbitrary: ys) (auto simp: rbind_eq_Inr)

lemma take_stock_keeps:
  assumes "stock_libs he" "snd (take_stock_stmt he now t pid qty) rs = Inr (k, rs')"
  shows "(no_negative_stock he rs \<longrightarrow> no_negative_stock he rs') \<and> (readable_stock he rs \<longrightarrow> readable_stock he rs') \<and>
    map d_id rs' = map d_id rs"
proof -
  from assms(2) obtain brs where "rmap (take_from_row he now t pid qty) rs = Inr brs" and rs': "rs' = map snd brs"
    by (auto simp: take_stock_stmt_def rbind_eq_Inr)
  then have l: "list_all2 (\<lambda>r br. take_from_row he now t pid qty r = Inr br) rs brs" by (simp add: rmap_list_all2)
  have row: "(stock_of he r' = stock_of he r \<or> (\<exists>n. stock_of he r' = Inr (Some n) \<and> 0 \<le> n)) \<and> d_id r' = d_id r"
    if "take_from_row he now t pid qty r = Inr (b, r')" for r b r'
    using take_from_row_cases [OF that] taken_stock [OF assms(1)] by fastforce
  have ids: "map d_id rs' = map d_id rs"
    using l row unfolding rs' by (induction rule: list_all2_induct) auto
  have "no_negative_stock he rs \<longrightarrow> no_negative_stock he rs'" "readable_stock he rs \<longrightarrow> readable_stock he rs'"
    using l unfolding rs'
    by (induction rule: list_all2_induct) (auto simp: no_negative_stock_def readable_stock_def dest!: row)
  then show ?thesis using ids by blast
qed

subsection \<open>Checkouts that overlap\<close>

text \<open>
  Requests in progress: a request is prepared, its plan waits while other requests run, and later
  the session is opened and the order is placed.
\<close>

record checkouts =
  ks_state :: h_state
  ks_waiting :: "(CreateCheckoutRequest \<times> checkout_plan) list"

inductive checkout_step :: "h_env \<Rightarrow> checkouts \<Rightarrow> checkouts \<Rightarrow> bool" for he where
  prepares: "prepare_checkout he io ck auth req (ks_state c) = (r, s') \<Longrightarrow>
     checkout_step he c \<lparr>ks_state = s', ks_waiting = (case r of Inr (Inr p) \<Rightarrow> (req, p) # ks_waiting c | _ \<Rightarrow> ks_waiting c)\<rparr>"
| places: "(req, p) \<in> set (ks_waiting c) \<Longrightarrow>
     abind (open_session ck p) (place_order he io ck req p) (ks_state c) = (r, s') \<Longrightarrow>
     checkout_step he c \<lparr>ks_state = s', ks_waiting = remove1 (req, p) (ks_waiting c)\<rparr>"

lemma open_session_tables: "open_session ck p s = (r, s') \<Longrightarrow> hs_db s' = hs_db s"
  by (auto simp: open_session_def abind_def notify_def hres_def split: if_splits prod.splits sum.splits)

lemma order_inserts_tables: "fst ` set (order_inserts he io ck req p sid) \<subseteq> {''orders'', ''coupon_uses''}"
  by (simp add: order_inserts_def Let_def tx_add_def tx_new_def row_insert_stmt_def split: option.split)

lemma stock_stmts_mem:
  assumes "q \<in> set (stock_stmts he io items)"
  obtains pid qty where "q = take_stock_stmt he (io_db_now io 1) (io_now io 0) pid qty"
  using assms unfolding stock_stmts_def by (auto simp: split_beta)

text \<open>Whether the order is placed or refused, the rows of the products stay and no stock becomes negative.\<close>

lemma place_order_products:
  assumes "stock_libs he" "place_order he io ck req p sess s = (r, s')"
  shows "(no_negative_stock he (tbl s ''products'') \<longrightarrow> no_negative_stock he (tbl s' ''products'')) \<and>
    map d_id (tbl s' ''products'') = map d_id (tbl s ''products'')"
proof -
  obtain sid url where sess: "sess = (sid, url)" by force
  let ?tx = "order_inserts he io ck req p sid @ stock_stmts he io (cp_items p)"
  obtain q d where commit: "tx_commit ?tx (hs_db s) = (q, d)" by force
  then have s': "s' = s\<lparr>hs_db := d\<rparr>"
    using assms(2) by (auto simp: place_order_def sess add_stock_ops_eq abind_def hdb_def amap_err_def split: sum.splits option.splits)
  show ?thesis
  proof (cases q)
    case (Inl e)
    then show ?thesis using tx_commit_cases [OF commit] s' by simp
  next
    case (Inr js)
    then obtain ns where eff: "tx_effect ?tx (tables (hs_db s)) = Inr (ns, tables d)" using tx_commit_cases [OF commit] by auto
    define P where "P t rs \<longleftrightarrow> (t = ''products'' \<longrightarrow> (no_negative_stock he (tbl s ''products'') \<longrightarrow> no_negative_stock he rs) \<and>
      map d_id rs = map d_id (tbl s ''products''))" for t rs
    have keep: "P t rs'" if "(t, stmt) \<in> set ?tx" "stmt rs = Inr (n, rs')" "P t rs" for t stmt rs n rs'
    proof (cases "t = ''products''")
      case True
      have "t \<notin> fst ` set (order_inserts he io ck req p sid)"
        using order_inserts_tables [of he io ck req p sid] True by auto
      then have "(t, stmt) \<in> set (stock_stmts he io (cp_items p))"
        using that(1) rev_image_eqI [of "(t, stmt)" _ t fst] unfolding set_append Un_iff by fastforce
      then obtain pid qty where "(t, stmt) = take_stock_stmt he (io_db_now io 1) (io_now io 0) pid qty"
        by (rule stock_stmts_mem)
      then have "snd (take_stock_stmt he (io_db_now io 1) (io_now io 0) pid qty) rs = Inr (n, rs')"
        using that(2) by (metis snd_conv)
      from take_stock_keeps [OF assms(1) this] show ?thesis using that(3) by (simp add: P_def)
    qed (simp add: P_def)
    have start: "\<forall>t. P t (tbl s t)" by (simp add: P_def)
    have "\<forall>t. P t (tables d t)" by (rule tx_effect_preserves [where P = P, OF eff start]) (rule keep)
    then show ?thesis using s' by (simp add: P_def)
  qed
qed

end
