(* ===== verification/Checkout_Progress.thy ===== *)
theory Checkout_Progress
  imports Checkout_Stock
begin

text \<open>
  When a checkout is accepted: on a database without faults, a request whose items all pass their
  checks gets its order. The checks are made per item, and this is what lets a cart take more
  units than there are.
\<close>

subsection \<open>The reads on a healthy store\<close>

lemma is_ok_iff: "is_ok r \<longleftrightarrow> (\<exists>x. r = Inr x)"
  by (cases r) simp_all

lemma get_try_calm:
  "no_faults (hs_db s) \<Longrightarrow> safe_identifier coll \<Longrightarrow> hdb (atry (get_document env coll i)) s =
     (Inr (case doc_of (bare_id coll i) (tbl s coll) of
        None \<Rightarrow> Inl (not_found coll (bare_id coll i))
      | Some r \<Rightarrow> Inr (inject_document_metadata env r)), s)"
  by (simp add: hdb_def atry_def get_document_calm pg_calm_def no_faults_def split: option.split)

lemma shop_identifiers [simp]:
  "safe_identifier ''products''" "safe_identifier ''users''" "safe_identifier ''seller_profiles''" "safe_identifier ''orders''"
  by (simp_all add: safe_identifier_def ident_char_def ascii_defs byte_def)

definition product_doc :: "h_env \<Rightarrow> doc_row list \<Rightarrow> CartItem \<Rightarrow> json" where
  "product_doc he products item =
     (case doc_of (ca_product_id item) products of
        Some r \<Rightarrow> inject_document_metadata (he_pg he) r
      | None \<Rightarrow> JNull)"

definition product_present :: "doc_row list \<Rightarrow> CartItem \<Rightarrow> bool" where
  "product_present products item \<longleftrightarrow> safe_document_id (ca_product_id item) \<and> doc_of (ca_product_id item) products \<noteq> None"

lemma load_products_calm:
  assumes "no_faults (hs_db s)" "\<forall>item \<in> set items. product_present (tbl s ''products'') item"
  shows "load_products he (map ca_product_id items) s = (Inr (map (product_doc he (tbl s ''products'')) items), s)"
  using assms(2)
proof (induction items)
  case (Cons item items)
  then show ?case
    by (auto simp: abind_def get_try_calm [OF assms(1)] product_present_def product_doc_def bare_id_plain)
qed simp

lemma product_doc_id:
  assumes "doc_of i products = Some r" "str_field (inject_document_metadata env r) f \<noteq> []"
  shows "jget_str ''id'' (inject_document_metadata env r) = Some i"
  using assms doc_of_id [OF assms(1)]
  by (auto simp: jget_str_def str_field_def jget_def inject_document_metadata_def split: json.splits)

lemma find_own_product:
  assumes "\<forall>item \<in> set items. product_present products item" "suffix_free items"
    "\<forall>item \<in> set items. product_checks req user item (product_doc he products item) = Inr ()" "item \<in> set items"
  shows "List.find (row_of_product (ca_product_id item)) (map (product_doc he products) items) = Some (product_doc he products item)"
proof -
  let ?rows = "map (product_doc he products) items"
  obtain r where r: "doc_of (ca_product_id item) products = Some r" using assms(1,4) by (auto simp: product_present_def)
  then have doc: "product_doc he products item = inject_document_metadata (he_pg he) r" by (simp add: product_doc_def)
  have "str_field (product_doc he products item) ''lifecycleStatus'' \<noteq> []"
    using product_checks_ok assms(3,4) by fastforce
  then have own: "row_of_product (ca_product_id item) (product_doc he products item)"
    using product_doc_id [OF r, of "he_pg he" "''lifecycleStatus''"] doc by (simp add: row_of_product_def ends_with_def)
  have stored: "list_all2 (stored_product he products) (map ca_product_id items) ?rows"
    using assms(1) by (auto simp: list_all2_conv_all_nth stored_product_def product_present_def product_doc_def bare_id_plain
        dest!: nth_mem)
  obtain p where p: "List.find (row_of_product (ca_product_id item)) ?rows = Some p"
    using own assms(4) by (cases "List.find (row_of_product (ca_product_id item)) ?rows") (auto simp: find_None_iff)
  have "stored_product he products (ca_product_id item) p"
    by (rule found_own_product [OF stored assms(2) _ assms(4) p]) (use assms(1) in \<open>auto simp: product_present_def\<close>)
  then show ?thesis using p r doc assms(1,4) by (auto simp: stored_product_def product_present_def bare_id_plain)
qed

lemma price_items_ok:
  "\<forall>item \<in> set items. List.find (row_of_product (ca_product_id item)) rows = Some (f item) \<and> product_checks req user item (f item) = Inr () \<Longrightarrow>
   price_items req user rows sub items =
     Inr (fold (\<lambda>(item, p) acc. wrap_i64 (acc + line_cents item p)) (zip items (map f items)) sub, map (\<lambda>i. validated_item i (f i)) items)"
  by (induction items arbitrary: sub) auto

definition validated_cart :: "h_env \<Rightarrow> doc_row list \<Rightarrow> CartItem list \<Rightarrow> json list" where
  "validated_cart he products items = map (\<lambda>i. validated_item i (product_doc he products i)) items"

lemma price_cart_calm:
  assumes "no_faults (hs_db s)" "\<forall>item \<in> set (cc_items req). product_present (tbl s ''products'') item" "suffix_free (cc_items req)"
    "\<forall>item \<in> set (cc_items req). product_checks req user item (product_doc he (tbl s ''products'') item) = Inr ()"
    "checkout_request_checks ck req = Inr x" "\<forall>r \<in> set (tbl s ''products''). i64_field (d_data r) ''priceCents'' \<le> 10000000"
  shows "price_cart he req user s =
    (Inr (cart_value (tbl s ''products'') (cc_items req), validated_cart he (tbl s ''products'') (cc_items req)), s)"
proof -
  obtain raw where "price_cart he req user s = (Inr (raw, validated_cart he (tbl s ''products'') (cc_items req)), s)"
    using load_products_calm [OF assms(1,2), of he] price_items_ok [of "cc_items req" _ "product_doc he (tbl s ''products'')" req user 0]
      find_own_product [OF assms(2,3,4)] assms(4)
    by (simp add: price_cart_def abind_def hres_def validated_cart_def)
  with price_cart_value [OF this assms(5,3,6)] show ?thesis by simp
qed

lemma seller_profiles_calm:
  assumes "no_faults (hs_db s)"
    "\<forall>sid \<in> set sids. \<forall>r. doc_of (bare_id ''users'' sid) (tbl s ''users'') = Some r \<longrightarrow> \<not> bool_field (d_data r) ''suspended''"
  shows "\<exists>ps. seller_profiles he sids s = (Inr ps, s)"
  using assms(2)
proof (induction sids)
  case (Cons sid sids)
  then obtain ps where "seller_profiles he sids s = (Inr ps, s)" by auto
  moreover have "\<not> bool_field (inject_document_metadata (he_pg he) r) ''suspended''"
    if "doc_of (bare_id ''users'' sid) (tbl s ''users'') = Some r" for r
    using Cons.prems that by (simp add: bool_field_def jget_bool_def jget_inject)
  ultimately show ?case
    by (auto simp: abind_def get_try_calm [OF assms(1)] split: option.split)
qed simp

definition order_with_key :: "h_env \<Rightarrow> string \<Rightarrow> string \<Rightarrow> doc_row \<Rightarrow> bool" where
  "order_with_key he user key r \<longleftrightarrow> sql_eq (member_text (he_pg he) ''buyerId'' (d_data r)) (Some user) \<and>
     sql_eq (member_text (he_pg he) ''idempotencyKey'' (d_data r)) (Some key)"

lemma existing_order_calm:
  assumes "no_faults (hs_db s)"
  shows "hdb (existing_order he user key) s =
    (Inr (map_option (inject_document_metadata (he_pg he)) (List.find (order_with_key he user key) (tbl s ''orders''))), s)"
proof -
  have calm: "pg_calm ''orders'' (hs_db s)" using assms by (simp add: pg_calm_def no_faults_def)
  then show ?thesis
    by (simp add: hdb_def existing_order_def abind_def atry_def ensure_table_calm pg_exec_calm pg_calm_def
        order_with_key_def [abs_def])
qed

subsection \<open>The transaction on a healthy store\<close>

lemma take_from_row_total: "stock_of he r = Inr x \<Longrightarrow> \<exists>br. take_from_row he now t pid qty r = Inr br"
  by (auto simp: take_from_row_def split: option.split)

lemma take_stock_total:
  assumes "readable_stock he rs"
  shows "\<exists>k rs'. snd (take_stock_stmt he now t pid qty) rs = Inr (k, rs')"
proof -
  obtain brs where "rmap (take_from_row he now t pid qty) rs = Inr brs"
    using rmap_ok [of rs "take_from_row he now t pid qty"] assms take_from_row_total by (metis readable_stock_def)
  then show ?thesis by (simp add: take_stock_stmt_def)
qed

lemma stock_stmts_total:
  assumes "stock_libs he" "readable_stock he (db ''products'')"
  shows "\<exists>ns db'. tx_effect (map (\<lambda>(pid, qty). take_stock_stmt he now t pid qty) ops) db = Inr (ns, db')"
  using assms(2)
proof (induction ops arbitrary: db)
  case (Cons op ops)
  obtain pid qty where op: "op = (pid, qty)" by force
  obtain k rs where step: "snd (take_stock_stmt he now t pid qty) (db ''products'') = Inr (k, rs)"
    using take_stock_total [OF Cons.prems] by blast
  have "readable_stock he rs" using take_stock_keeps [OF assms(1) step] Cons.prems by blast
  then have "readable_stock he ((db(''products'' := rs)) ''products'')" by simp
  then obtain ns db' where "tx_effect (map (\<lambda>(pid, qty). take_stock_stmt he now t pid qty) ops) (db(''products'' := rs)) = Inr (ns, db')"
    using Cons.IH by blast
  moreover obtain stmt where "take_stock_stmt he now t pid qty = (''products'', stmt)" by (simp add: take_stock_stmt_def)
  ultimately show ?case using step by (simp add: op)
qed simp

lemma place_order_calm:
  assumes "no_faults (hs_db s)" "stock_libs he" "readable_stock he (tbl s ''products'')" "cp_coupon p = None"
    "pg_to_jsonb (he_pg he) (order_document io ck req p sid) = Inr body" "doc_of (ck_order_id ck) (tbl s ''orders'') = None"
  shows "\<exists>resp s'. place_order he io ck req p (sid, url) s = (Inr resp, s') \<and> cr_success resp \<and> \<not> cr_duplicate resp \<and>
    cr_order_id resp = ck_order_id ck \<and> no_faults (hs_db s') \<and> (\<forall>t. t \<notin> {''orders'', ''products''} \<longrightarrow> tbl s' t = tbl s t)"
proof -
  define row where "row = \<lparr>d_id = ck_order_id ck, d_data = body, d_created_at = io_db_now io 1, d_updated_at = io_db_now io 1\<rparr>"
  let ?tx = "order_inserts he io ck req p sid @ stock_stmts he io (cp_items p)"
  let ?db = "(tables (hs_db s))(''orders'' := tbl s ''orders'' @ [row])"
  have ins: "tx_effect (order_inserts he io ck req p sid) (tables (hs_db s)) = Inr ([1], ?db)"
    using assms(4,5,6) by (simp add: order_inserts_def tx_add_def tx_new_def row_insert_stmt_def row_def)
  obtain ns db where st: "tx_effect (stock_stmts he io (cp_items p)) ?db = Inr (ns, db)"
    using stock_stmts_total [OF assms(2), of ?db "io_db_now io 1" "io_now io 0" "List.map_filter stock_op (cp_items p)"] assms(3)
    unfolding stock_stmts_def by auto
  have "tx_effect ?tx (tables (hs_db s)) = Inr (1 # ns, db)"
    using ins st by (simp add: tx_effect_append)
  then have commit: "tx_commit ?tx (hs_db s) = (Inr (map rows_affected (1 # ns)), (hs_db s)\<lparr>tables := db\<rparr>)"
    using tx_commit_calm [of "hs_db s" ?tx] assms(1) unfolding no_faults_def by blast
  have len: "length (order_inserts he io ck req p sid) = 1"
    using assms(4) by (simp add: order_inserts_def tx_add_def tx_new_def)
  have "length ns = length (List.map_filter stock_op (cp_items p))"
    using tx_effect_length [OF st] by (simp add: stock_stmts_def)
  then have "\<not> stock_missed (map rows_affected (1 # ns)) i"
    if "(i, pid, qty) \<in> set (enumerate 1 (List.map_filter stock_op (cp_items p)))" for i pid qty
    using that by (intro rows_affected_not_missed) (auto simp: in_set_enumerate_eq)
  then have none: "List.find (\<lambda>(idx, pid). stock_missed (map rows_affected (1 # ns)) idx)
      (map (\<lambda>(i, pid, qty). (i, pid)) (enumerate 1 (List.map_filter stock_op (cp_items p)))) = None"
    by (auto simp: find_None_iff simp del: list.map enumerate_simps)
  moreover have "db t = tbl s t" if "t \<notin> {''orders'', ''products''}" for t
    using tx_effect_other [OF st, of t] that stock_stmts_table [of he io "cp_items p"] by auto
  ultimately show ?thesis
    using assms(1) by (simp add: place_order_def add_stock_ops_eq len abind_def hdb_def amap_err_def commit no_faults_def del: list.map)
qed

subsection \<open>Accepted requests\<close>

text \<open>What the handler asks of the store for this cart: each item on its own.\<close>

definition cart_ok :: "h_env \<Rightarrow> ck_io \<Rightarrow> CreateCheckoutRequest \<Rightarrow> string \<Rightarrow> string \<Rightarrow> h_state \<Rightarrow> bool" where
  "cart_ok he ck req user province s \<longleftrightarrow>
     (\<forall>item \<in> set (cc_items req). product_present (tbl s ''products'') item \<and>
        product_checks req user item (product_doc he (tbl s ''products'') item) = Inr ()) \<and>
     suffix_free (cc_items req) \<and> length (unique_seller_ids (validated_cart he (tbl s ''products'') (cc_items req))) \<le> 1 \<and>
     (\<forall>sid \<in> set (unique_seller_ids (validated_cart he (tbl s ''products'') (cc_items req))).
        case doc_of (bare_id ''users'' sid) (tbl s ''users'') of Some r \<Rightarrow> \<not> bool_field (d_data r) ''suspended'' | None \<Rightarrow> True) \<and>
     cc_coupon_code req = None \<and>
     subtotal_matches_with_tolerance (cc_subtotal_cents req) (cart_value (tbl s ''products'') (cc_items req)) \<and>
     is_ok (calculate_shipping_cost_cents ck (cart_value (tbl s ''products'') (cc_items req)) province
       (validated_cart he (tbl s ''products'') (cc_items req)))"

text \<open>What it asks of the requester and of the limits around it.\<close>

definition caller_ok :: "h_env \<Rightarrow> h_io \<Rightarrow> ck_io \<Rightarrow> AuthContext \<Rightarrow> CreateCheckoutRequest \<Rightarrow> string \<Rightarrow> h_state \<Rightarrow> bool" where
  "caller_ok he io ck auth req user s \<longleftrightarrow>
     checkout_turnstile ck (io_test_mode io) (cc_turnstile_token req) = Inr () \<and>
     resolve_self_user_id auth (cc_user_id req) ''userId'' = Inr user \<and> validate_uid ''userId'' user = Inr () \<and>
     is_ok (fst (check_user_rate_limit he io user ''create_checkout_session'' 5 1 (hs_db s)))"

definition request_ok :: "h_env \<Rightarrow> h_io \<Rightarrow> ck_io \<Rightarrow> AuthContext \<Rightarrow> CreateCheckoutRequest \<Rightarrow> string \<Rightarrow> h_state \<Rightarrow> bool" where
  "request_ok he io ck auth req user s \<longleftrightarrow> caller_ok he io ck auth req user s \<and>
     \<not> list_ex (order_with_key he user (checkout_key ck req user)) (tbl s ''orders'') \<and>
     doc_of (ck_order_id ck) (tbl s ''orders'') = None"

text \<open>A provider that opens every session it is asked for.\<close>

definition sessions_open :: "ck_io \<Rightarrow> bool" where
  "sessions_open ck \<longleftrightarrow> ck_stripe_key ck \<and>
     (\<forall>key form. \<exists>session sid. ck_stripe ck key form = Inr (True, Inr session) \<and> jget_str ''id'' session = Some sid)"

lemma open_session_calm:
  assumes "sessions_open ck"
  shows "\<exists>sid url. open_session ck p s =
    (Inr (sid, url), s\<lparr>hs_outbox := hs_outbox s @ [StripeSession (cp_key p) (checkout_form ck p)]\<rparr>)"
proof -
  from assms obtain session sid where "ck_stripe ck (cp_key p) (checkout_form ck p) = Inr (True, Inr session)"
    "jget_str ''id'' session = Some sid" unfolding sessions_open_def by blast
  then show ?thesis using assms by (simp add: open_session_def sessions_open_def abind_def notify_def hres_def)
qed

lemma prepare_calm:
  assumes "no_faults (hs_db s)" "modest_catalogue s" "caller_ok he io ck auth req user s"
    "checkout_request_checks ck req = Inr (province, postal)" "cart_ok he ck req user province s"
  shows "\<exists>p u. prepare_checkout he io ck auth req s =
      (Inr (case List.find (order_with_key he user (checkout_key ck req user)) (tbl s ''orders'') of
         Some row \<Rightarrow> Inl (duplicate_response (inject_document_metadata (he_pg he) row))
       | None \<Rightarrow> Inr p), u) \<and> no_faults (hs_db u) \<and> cp_coupon p = None \<and>
    cp_items p = validated_cart he (tbl s ''products'') (cc_items req)"
proof -
  let ?products = "tbl s ''products''"
  obtain d where rate: "check_user_rate_limit he io user ''create_checkout_session'' 5 1 (hs_db s) = (Inr (), d)"
    using assms(3) that [of "snd (check_user_rate_limit he io user ''create_checkout_session'' 5 1 (hs_db s))"]
    by (auto simp: caller_ok_def is_ok_iff prod_eq_iff)
  define a where "a = s\<lparr>hs_db := d\<rparr>"
  have hrate: "hdb (check_user_rate_limit he io user ''create_checkout_session'' 5 1) s = (Inr (), a)"
    by (simp add: hdb_def rate a_def)
  have calm: "no_faults (hs_db a)"
    using no_faults_rate_limit [of he io user "''create_checkout_session''" 5 1] assms(1) rate by (auto simp: preserves_def a_def)
  have t: "tbl a t = tbl s t" if "t \<in> shop_tables" for t using keepsD [OF keeps_shop_rate_limit hrate that] .
  have u: "tbl a ''users'' = tbl s ''users''" by (rule t) (simp add: shop_tables_def RATE_LIMITS_def)
  have items: "\<forall>item \<in> set (cc_items req). product_present (tbl a ''products'') item" "suffix_free (cc_items req)"
    "\<forall>item \<in> set (cc_items req). product_checks req user item (product_doc he (tbl a ''products'') item) = Inr ()"
    "\<forall>r \<in> set (tbl a ''products''). i64_field (d_data r) ''priceCents'' \<le> 10000000"
    using assms(2,5) t by (simp_all add: cart_ok_def modest_catalogue_def)
  have price: "price_cart he req user a = (Inr (cart_value ?products (cc_items req), validated_cart he ?products (cc_items req)), a)"
    using price_cart_calm [OF calm items(1-3) assms(4) items(4)] t by simp
  have val: "wrap_i64 (cart_value ?products (cc_items req)) = cart_value ?products (cc_items req)"
    using price_cart_value [OF price assms(4) items(2,4)] by (auto simp: i64_range_def intro!: wrap_i64_id)
  obtain ps where prof: "seller_profiles he (unique_seller_ids (validated_cart he ?products (cc_items req))) a = (Inr ps, a)"
    using seller_profiles_calm [OF calm, of "unique_seller_ids (validated_cart he ?products (cc_items req))" he] assms(5) u
    by (fastforce simp: cart_ok_def)
  obtain shipping where ship: "calculate_shipping_cost_cents ck (cart_value ?products (cc_items req)) province
       (validated_cart he ?products (cc_items req)) = Inr shipping"
    using assms(5) unfolding cart_ok_def is_ok_def by (auto split: sum.splits)
  have exist: "hdb (existing_order he user (checkout_key ck req user)) a =
      (Inr (map_option (inject_document_metadata (he_pg he))
        (List.find (order_with_key he user (checkout_key ck req user)) (tbl s ''orders''))), a)"
    using existing_order_calm [OF calm] t by simp
  have coup: "checkout_coupon he ck req user raw sids a = (Inr (None, 0), a)" for raw sids
    using assms(5) by (simp add: checkout_coupon_def cart_ok_def)
  have start: "prepare_checkout he io ck auth req s =
      (case List.find (order_with_key he user (checkout_key ck req user)) (tbl s ''orders'') of
         Some row \<Rightarrow> (Inr (Inl (duplicate_response (inject_document_metadata (he_pg he) row))), a)
       | None \<Rightarrow> (Inr (Inr \<lparr>cp_user = user, cp_province = province, cp_postal = postal,
           cp_items = validated_cart he ?products (cc_items req),
           cp_sellers = unique_seller_ids (validated_cart he ?products (cc_items req)), cp_profiles = ps, cp_coupon = None,
           cp_discount = 0, cp_subtotal = cart_value ?products (cc_items req), cp_key = checkout_key ck req user, cp_shipping = shipping,
           cp_tax = calculate_tax_cents (wrap_i64 (cart_value ?products (cc_items req) + shipping)) province,
           cp_total = wrap_i64 (wrap_i64 (cart_value ?products (cc_items req) + shipping) +
             calculate_tax_cents (wrap_i64 (cart_value ?products (cc_items req) + shipping)) province),
           cp_fee = i64_div (wrap_i64 (cart_value ?products (cc_items req) * PLATFORM_FEE_BPS)) 10000\<rparr>), a))"
    using assms(3,4,5) hrate price prof ship exist coup val
    by (simp add: prepare_checkout_def caller_ok_def cart_ok_def abind_def hres_def subtotal_check_def checkout_totals_def Let_def
        split: option.split)
  obtain q :: checkout_plan where q: "cp_coupon q = None" "cp_items q = validated_cart he ?products (cc_items req)"
    by (metis checkout_plan.select_convs(4,7))
  show ?thesis
  proof (cases "List.find (order_with_key he user (checkout_key ck req user)) (tbl s ''orders'')")
    case None
    with start calm show ?thesis by simp
  next
    case (Some row)
    with start calm q show ?thesis by auto
  qed
qed

text \<open>The database takes the order document of this request as \<open>jsonb\<close>, whatever the id of the session.\<close>

definition stores_order :: "h_env \<Rightarrow> h_io \<Rightarrow> ck_io \<Rightarrow> AuthContext \<Rightarrow> CreateCheckoutRequest \<Rightarrow> h_state \<Rightarrow> bool" where
  "stores_order he io ck auth req s \<longleftrightarrow> (\<forall>p u sid. prepare_checkout he io ck auth req s = (Inr (Inr p), u) \<longrightarrow>
     is_ok (pg_to_jsonb (he_pg he) (order_document io ck req p sid)))"

lemma checkout_accepted:
  assumes "no_faults (hs_db s)" "modest_catalogue s" "request_ok he io ck auth req user s"
    "checkout_request_checks ck req = Inr (province, postal)" "cart_ok he ck req user province s"
    "sessions_open ck" "stock_libs he" "readable_stock he (tbl s ''products'')"
    "stores_order he io ck auth req s"
  obtains resp s' p sid url u v where "create_checkout_session he io ck auth req s = (Inr resp, s')" "cr_success resp"
    "\<not> cr_duplicate resp" "cr_order_id resp = ck_order_id ck" "tbl v ''products'' = tbl s ''products''" "tbl v ''orders'' = tbl s ''orders''"
    "place_order he io ck req p (sid, url) v = (Inr resp, s')"
    "cp_items p = validated_cart he (tbl s ''products'') (cc_items req)"
    "no_faults (hs_db s')" "\<forall>t \<in> shop_tables - {''orders'', ''products''}. tbl s' t = tbl s t"
proof -
  have caller: "caller_ok he io ck auth req user s" and id: "doc_of (ck_order_id ck) (tbl s ''orders'') = None"
    and "List.find (order_with_key he user (checkout_key ck req user)) (tbl s ''orders'') = None"
    using assms(3) by (auto simp: request_ok_def list_ex_iff find_None_iff)
  then obtain p u where p: "prepare_checkout he io ck auth req s = (Inr (Inr p), u)" "no_faults (hs_db u)" "cp_coupon p = None"
    "cp_items p = validated_cart he (tbl s ''products'') (cc_items req)"
    using prepare_calm [OF assms(1,2) caller assms(4,5)] by auto
  obtain sid url where o: "open_session ck p u =
      (Inr (sid, url), u\<lparr>hs_outbox := hs_outbox u @ [StripeSession (cp_key p) (checkout_form ck p)]\<rparr>)"
    using open_session_calm [OF assms(6)] by blast
  let ?v = "u\<lparr>hs_outbox := hs_outbox u @ [StripeSession (cp_key p) (checkout_form ck p)]\<rparr>"
  have t: "tbl ?v t = tbl s t" if "t \<in> shop_tables" for t using keepsD [OF keeps_prepare p(1) that] by simp
  obtain body where "pg_to_jsonb (he_pg he) (order_document io ck req p sid) = Inr body"
    using assms(9) p(1) unfolding stores_order_def is_ok_iff by blast
  then obtain resp s' where pl: "place_order he io ck req p (sid, url) ?v = (Inr resp, s')" "cr_success resp" "\<not> cr_duplicate resp"
      "cr_order_id resp = ck_order_id ck" "no_faults (hs_db s')" "\<forall>t. t \<notin> {''orders'', ''products''} \<longrightarrow> tbl s' t = tbl ?v t"
    using place_order_calm [OF _ assms(7) _ p(3), of ?v io ck req sid body url] p(2) assms(8) id t by auto
  moreover have "create_checkout_session he io ck auth req s = (Inr resp, s')"
    by (simp add: create_checkout_session_def abind_def p(1) o pl(1))
  ultimately show ?thesis using that [of resp s' ?v p sid url] t p(4) by simp
qed

text \<open>
  C28. On a database without faults and with a provider that opens its sessions, a request that passes the
  checks of its parts is accepted: the caller is the buyer and within the rate limit, the address is in the
  market, the cart names each product once, without a coupon and with no id that ends in another, each
  product is for sale with enough in stock, at a price of at most 100000 dollars, one
  seller who is not suspended sells them all, shipping can be computed, the subtotal is near the client's, the
  idempotency key and the order id are new, stored stock is readable and the order is valid \<open>jsonb\<close>. The
  response is a success that names the new order, which is the one document added to the orders.
\<close>

theorem acceptable_checkout_succeeds:
  assumes "no_faults (hs_db s)" "modest_catalogue s" "request_ok he io ck auth req user s"
    "checkout_request_checks ck req = Inr (province, postal)" "cart_ok he ck req user province s"
    "sessions_open ck" "stock_libs he" "readable_stock he (tbl s ''products'')"
    "stores_order he io ck auth req s" "distinct (map ca_product_id (cc_items req))"
  shows "\<exists>resp s' row. create_checkout_session he io ck auth req s = (Inr resp, s') \<and> cr_success resp \<and>
    \<not> cr_duplicate resp \<and> cr_order_id resp = ck_order_id ck \<and> tbl s' ''orders'' = tbl s ''orders'' @ [row] \<and> d_id row = ck_order_id ck"
proof -
  obtain resp s' p sid url v where run: "create_checkout_session he io ck auth req s = (Inr resp, s')" "cr_success resp"
      "\<not> cr_duplicate resp" "cr_order_id resp = ck_order_id ck" and v: "tbl v ''orders'' = tbl s ''orders''"
      and pl: "place_order he io ck req p (sid, url) v = (Inr resp, s')"
    by (rule checkout_accepted [OF assms(1-9)])
  then show ?thesis using place_order_effect [OF pl] by fastforce
qed

subsection \<open>A small shop\<close>

definition shop_ck :: ck_io where
  "shop_ck = \<lparr>ck_upper = (\<lambda>s. s), ck_trim = (\<lambda>s. s), ck_turnstile_secret = Some ''k'',
     ck_turnstile = (\<lambda>_ _. Inr (Inr (True, []))), ck_stripe_key = True,
     ck_stripe = (\<lambda>_ _. Inr (True, Inr (JObject [(''id'', JString ''cs_1'')]))),
     ck_parse_rfc3339 = (\<lambda>_. None), ck_now_ns = 0, ck_now_ms = 0, ck_order_id = ''o1''\<rparr>"

definition shop_product :: "string \<Rightarrow> nat \<Rightarrow> nat \<Rightarrow> doc_row" where
  "shop_product i price stock = \<lparr>d_id = i, d_data = JObject [(''lifecycleStatus'', JString ''active''),
     (''priceCents'', JNumber (PosInt price)), (''sellerId'', JString ''v1''), (''stockQuantity'', JNumber (PosInt stock))],
     d_created_at = 1, d_updated_at = 1\<rparr>"

definition shop_store :: "doc_row list \<Rightarrow> h_state" where
  "shop_store products = \<lparr>hs_db = \<lparr>tables = (\<lambda>_. [])(''products'' := products), pg_faults = []\<rparr>, hs_outbox = []\<rparr>"

definition shop_request :: "(string \<times> nat) list \<Rightarrow> int \<Rightarrow> CreateCheckoutRequest" where
  "shop_request items subtotal = \<lparr>cc_items = map (\<lambda>(pid, q). \<lparr>ca_product_id = pid, ca_quantity = q\<rparr>) items,
     cc_shipping_address = \<lparr>sa_street = ''1 King'', sa_city = ''Toronto'', sa_state = ''on'', sa_postal_code = ''m5v 2h1'',
       sa_country = ''ca''\<rparr>, cc_user_id = None, cc_subtotal_cents = subtotal,
     cc_coupon_code = None, cc_eula_accepted = False, cc_age_verification_accepted = False, cc_idempotency_key = Some ''k1'',
     cc_turnstile_token = Some ''t''\<rparr>"

lemma shop_tables_simps [simp]:
  "tables (hs_db (shop_store ps)) = (\<lambda>_. [])(''products'' := ps)" "pg_faults (hs_db (shop_store ps)) = []"
  "hs_outbox (shop_store ps) = []"
  by (simp_all add: shop_store_def)

lemma shop_item:
  "i64_field (d_data (shop_product i c n)) ''priceCents'' = (if c < 2 ^ 63 then int c else 0)"
  "i64_field (d_data (shop_product i c n)) ''stockQuantity'' = (if n < 2 ^ 63 then int n else 0)"
  "str_field (d_data (shop_product i c n)) ''sellerId'' = ''v1''" "str_field (d_data (shop_product i c n)) ''lifecycleStatus'' = ''active''"
  "bool_field (d_data (shop_product i c n)) f = False" "d_id (shop_product i c n) = i"
  by (simp_all add: shop_product_def i64_field_def str_field_def bool_field_def jget_defs)

lemma shop_libs: "stock_libs sample_he"
proof -
  have "pg_value_text (he_pg sample_he) (json_int i) = int_to_string i" for i
    by (simp add: sample_simps json_int_def int_to_string_def)
  moreover have "i64_range n" if "parse_i64 t = Some n" for t n using parse_i64_cases [OF that] by simp
  ultimately show ?thesis
    by (auto simp: stock_libs_def bigint_cast_def sample_he_def parse_i64_int_to_string ok_or_eq_Inr)
qed

lemma shop_checks:
  "checkout_request_checks shop_ck (shop_request [(''p1'', 2), (''p1'', 2)] 4000) = Inr (''ON'', ''M5V2H1'')"
  by code_simp

lemma shop_rate_limit:
  assumes "pg_faults (hs_db s) = []" "tbl s RATE_LIMITS = []" "0 < n"
  shows "is_ok (fst (check_user_rate_limit sample_he sample_io user a n 1 (hs_db s)))"
proof -
  have calm: "pg_calm RATE_LIMITS (hs_db s)"
    using assms(1) by (simp add: pg_calm_def RATE_LIMITS_def safe_identifier_def ident_char_def ascii_defs byte_def)
  have count: "count_requests sample_he user a w (hs_db s) = (Inr 0, hs_db s)" for w
    using ensure_table_calm [OF calm] assms(1,2) by (simp add: count_requests_def abind_def atry_def pg_exec_calm fun_upd_idem)
  obtain r d where "create_document (he_pg sample_he) (io_uuid sample_io 0) (io_db_now sample_io 0) RATE_LIMITS
      (rate_doc user a (io_secs sample_io)) (hs_db s) = (r, d)" by force
  then show ?thesis
    using assms(3) unfolding check_user_rate_limit_def by (simp add: count abind_def atry_def)
qed

lemma shop_caller_ok:
  assumes "pg_faults (hs_db s) = []" "tbl s RATE_LIMITS = []"
  shows "caller_ok sample_he sample_io shop_ck (sample_auth ''u1'') (shop_request items sub) ''u1'' s"
  unfolding caller_ok_def
  by (intro conjI shop_rate_limit [OF assms zero_less_numeral])
    (simp_all add: checkout_turnstile_def shop_request_def shop_ck_def validate_turnstile_token_def sample_io_def
      resolve_self_user_id_def require_authenticated_def sample_auth_def validate_uid_def)

lemma shop_request_ok: "request_ok sample_he sample_io shop_ck (sample_auth ''u1'') (shop_request items sub) ''u1'' (shop_store ps)"
  unfolding request_ok_def
  by (intro conjI shop_caller_ok) (simp_all add: RATE_LIMITS_def doc_of_def)

lemma bool_inject:
  "f \<notin> {''id'', ''createdAt'', ''updatedAt''} \<Longrightarrow> bool_field (inject_document_metadata env r) f = bool_field (d_data r) f"
  by (simp add: bool_field_def jget_bool_def jget_inject)

lemma validated_fields:
  "jget_str ''sellerId'' (validated_item item p) = Some (str_field p ''sellerId'')"
  "bool_field (validated_item item p) ''isDigital'' = bool_field p ''isDigital''"
  "bool_field (validated_item item p) ''isPerishable'' = bool_field p ''isPerishable''"
  "bool_field (validated_item item p) ''isLocalDeliveryOnly'' = bool_field p ''isLocalDeliveryOnly''"
  "str_field (validated_item item p) ''productId'' = ca_product_id item"
  "Option.bind (jget ''quantity'' (validated_item item p)) as_u64 = Some (ca_quantity item)"
  by (simp_all add: validated_item_def jget_str_def bool_field_def jget_bool_def str_field_def json_int_def)

definition once :: CreateCheckoutRequest where
  "once = shop_request [(''p1'', 2)] 2000"

lemma once_checks: "checkout_request_checks shop_ck once = Inr (''ON'', ''M5V2H1'')"
  by code_simp

lemma once_cart_row:
  assumes "d_id r = ''p1''" "i64_field (d_data r) ''priceCents'' = 1000" "2 \<le> i64_field (d_data r) ''stockQuantity''"
    "str_field (d_data r) ''sellerId'' = ''v1''" "str_field (d_data r) ''lifecycleStatus'' = ''active''" "\<And>f. \<not> bool_field (d_data r) f"
    "tbl s ''products'' = [r]" "tbl s ''users'' = []"
  shows "cart_ok sample_he shop_ck once ''u1'' ''ON'' s"
proof -
  let ?i = "\<lparr>ca_product_id = ''p1'', ca_quantity = 2\<rparr>"
  have doc: "product_doc sample_he [r] ?i = inject_document_metadata (he_pg sample_he) r"
    by (simp add: product_doc_def doc_of_def assms)
  have checks: "product_checks req ''u1'' ?i (inject_document_metadata (he_pg sample_he) r) = Inr ()" for req
    using assms(3) by (simp add: product_checks_def Let_def str_field_inject bool_inject assms(1,2,4-6) strip_prefix_def starts_with_def)
  have items: "cc_items once = [?i]" by (simp add: once_def shop_request_def)
  have val: "cart_value [r] (cc_items once) = 2000" by (simp add: cart_value_def items price_in_def doc_of_def assms)
  have cart: "validated_cart sample_he [r] (cc_items once) = [validated_item ?i (product_doc sample_he [r] ?i)]"
    by (simp add: validated_cart_def items)
  have sellers: "unique_seller_ids (validated_cart sample_he [r] (cc_items once)) = [''v1'']"
    by (simp add: cart unique_seller_ids_def map_filter_simps validated_fields doc str_field_inject assms)
  have ship: "is_ok (calculate_shipping_cost_cents shop_ck 2000 ''ON'' (validated_cart sample_he [r] (cc_items once)))"
    by (simp add: calculate_shipping_cost_cents_def cart local_only_violation_def validated_fields doc bool_inject assms)
  have present: "product_present [r] ?i"
    by (simp add: product_present_def doc_of_def assms safe_document_id_def doc_id_char_def ascii_defs byte_def)
  have "subtotal_matches_with_tolerance 2000 2000"
    by (simp add: subtotal_matches_with_tolerance_def checkout_subtotal_tolerance_def wrap_i64_def)
  moreover have "cc_coupon_code once = None" "cc_subtotal_cents once = 2000" by (simp_all add: once_def shop_request_def)
  ultimately show ?thesis
    using sellers ship val present doc checks
    by (simp add: cart_ok_def suffix_free_def doc_of_def assms(7,8)) (simp add: items)
qed

lemma once_cart: "2 \<le> n \<Longrightarrow> n < 2 ^ 63 \<Longrightarrow> cart_ok sample_he shop_ck once ''u1'' ''ON'' (shop_store [shop_product ''p1'' 1000 n])"
  by (rule once_cart_row [of "shop_product ''p1'' 1000 n"]) (simp_all add: shop_item)

definition twice :: CreateCheckoutRequest where
  "twice = shop_request [(''p1'', 2), (''p1'', 2)] 4000"

lemma twice_cart: "cart_ok sample_he shop_ck twice ''u1'' ''ON'' (shop_store [shop_product ''p1'' 1000 3])"
proof -
  let ?ps = "[shop_product ''p1'' 1000 3]"
  have doc: "product_doc sample_he ?ps \<lparr>ca_product_id = ''p1'', ca_quantity = 2\<rparr> = inject_document_metadata (he_pg sample_he) (shop_product ''p1'' 1000 3)"
    by (simp add: product_doc_def doc_of_def shop_item)
  have checks: "product_checks req ''u1'' \<lparr>ca_product_id = ''p1'', ca_quantity = 2\<rparr> (inject_document_metadata (he_pg sample_he) (shop_product ''p1'' 1000 3)) = Inr ()" for req
    by (simp add: product_checks_def str_field_inject bool_inject shop_item strip_prefix_def starts_with_def)
  have val: "cart_value ?ps (cc_items twice) = 4000"
    by (simp add: cart_value_def twice_def shop_request_def price_in_def doc_of_def shop_item)
  let ?i = "\<lparr>ca_product_id = ''p1'', ca_quantity = 2\<rparr>"
  have items: "cc_items twice = [?i, ?i]" by (simp add: twice_def shop_request_def)
  have cart: "validated_cart sample_he ?ps (cc_items twice) =
      [validated_item ?i (product_doc sample_he ?ps ?i), validated_item ?i (product_doc sample_he ?ps ?i)]"
    by (simp add: validated_cart_def items)
  have sellers: "unique_seller_ids (validated_cart sample_he ?ps (cc_items twice)) = [''v1'']"
    by (simp add: cart unique_seller_ids_def map_filter_simps validated_fields doc str_field_inject shop_item)
  have ship: "is_ok (calculate_shipping_cost_cents shop_ck 4000 ''ON'' (validated_cart sample_he ?ps (cc_items twice)))"
    by (simp add: calculate_shipping_cost_cents_def cart local_only_violation_def validated_fields doc bool_inject shop_item)
  have present: "product_present ?ps ?i"
    by (simp add: product_present_def doc_of_def shop_item safe_document_id_def doc_id_char_def ascii_defs byte_def)
  have "subtotal_matches_with_tolerance 4000 4000"
    by (simp add: subtotal_matches_with_tolerance_def checkout_subtotal_tolerance_def wrap_i64_def)
  moreover have "cc_coupon_code twice = None" "cc_subtotal_cents twice = 4000" by (simp_all add: twice_def shop_request_def)
  ultimately show ?thesis
    using sellers ship val present doc checks
    by (simp add: cart_ok_def suffix_free_def doc_of_def) (simp add: items)
qed

lemma shop_facts:
  "no_faults (hs_db (shop_store ps))" "sessions_open shop_ck" "stores_order sample_he io ck auth req s"
  by (simp_all add: no_faults_def sessions_open_def shop_ck_def jget_str_def jget_def stores_order_def sample_simps)

lemma shop_stock: "n < 2 ^ 63 \<Longrightarrow> stock_of sample_he (shop_product i c n) = Inr (Some (int n))"
  using parse_i64_int_to_string [of "int n"]
  by (simp add: stock_of_def member_text_def shop_product_def jget_def jsonb_text_def sample_simps int_to_string_def i64_range_def)

lemma twice_store: "modest_catalogue (shop_store [shop_product ''p1'' 1000 3])"
  "readable_stock sample_he (tbl (shop_store [shop_product ''p1'' 1000 3]) ''products'')"
  by (simp_all add: modest_catalogue_def readable_stock_def shop_stock shop_item)

theorem acceptable_checkout_succeeds_witness:
  "\<exists>resp s' row. create_checkout_session sample_he sample_io shop_ck (sample_auth ''u1'') once (shop_store [shop_product ''p1'' 1000 3]) =
     (Inr resp, s') \<and> cr_success resp \<and> cr_order_id resp = ''o1'' \<and> tbl s' ''orders'' = [row] \<and> d_id row = ''o1''"
proof -
  have req: "request_ok sample_he sample_io shop_ck (sample_auth ''u1'') once ''u1'' (shop_store [shop_product ''p1'' 1000 3])"
    unfolding once_def by (rule shop_request_ok)
  have one: "distinct (map ca_product_id (cc_items once))" by (simp add: once_def shop_request_def)
  show ?thesis
    using acceptable_checkout_succeeds [OF shop_facts(1) twice_store(1) req once_checks once_cart [of 3] shop_facts(2)
      shop_libs twice_store(2) shop_facts(3) one] by (auto simp: shop_ck_def)
qed

lemma sold_out:
  assumes "tx_effect [take_stock_stmt sample_he now t ''p1'' 2, take_stock_stmt sample_he now t ''p1'' 2] db = Inr (ns, db')"
    "db ''products'' = [shop_product ''p1'' 1000 3]"
  shows "map (\<lambda>r. (d_id r, i64_field (d_data r) ''stockQuantity'')) (db' ''products'') = [(''p1'', 1)]"
proof -
  let ?r = "shop_product ''p1'' 1000 3"
  let ?r' = "?r\<lparr>d_data := jset ''updatedAt'' (JString t) (jset ''stockQuantity'' (json_int 1) (d_data ?r)), d_updated_at := now\<rparr>"
  have first: "take_from_row sample_he now t ''p1'' 2 ?r = Inr (True, ?r')"
    by (simp add: take_from_row_def shop_stock shop_item)
  have "stock_of sample_he ?r' = Inr (Some 1)" using taken_stock [OF shop_libs, of ?r 3 2 now t] by (simp add: shop_stock)
  then have second: "take_from_row sample_he now t ''p1'' 2 ?r' = Inr (False, ?r')"
    by (simp add: take_from_row_def shop_item)
  have "snd (take_stock_stmt sample_he now t ''p1'' 2) [?r] = Inr (1, [?r'])" "snd (take_stock_stmt sample_he now t ''p1'' 2) [?r'] = Inr (0, [?r'])"
    using first second by (simp_all add: take_stock_stmt_def del: jset.simps)
  then have "db' ''products'' = [?r']"
    using assms by (auto simp: take_stock_stmt_def rbind_eq_Inr)
  then show ?thesis by (simp add: i64_field_def jget_i64_def shop_product_def jget_def json_int_def)
qed

text \<open>
  The checks do not add up the items of one product, and the result of a decrement that
  matched no row is taken for a success: with three units in stock, a cart that names the product twice with two
  units each is accepted, the order for four units is stored, and the stock goes from three to one.
\<close>

theorem cart_naming_a_product_twice_oversells:
  "\<exists>resp s' row. create_checkout_session sample_he sample_io shop_ck (sample_auth ''u1'') twice (shop_store [shop_product ''p1'' 1000 3]) =
     (Inr resp, s') \<and> cr_success resp \<and> tbl s' ''orders'' = [row] \<and>
     map (\<lambda>item. (str_field item ''productId'', item_quantity item)) (items_array (d_data row)) = [(''p1'', 2), (''p1'', 2)] \<and>
     map (\<lambda>r. (d_id r, i64_field (d_data r) ''stockQuantity'')) (tbl s' ''products'') = [(''p1'', 1)]"
proof -
  let ?s = "shop_store [shop_product ''p1'' 1000 3]"
  have req: "request_ok sample_he sample_io shop_ck (sample_auth ''u1'') twice ''u1'' ?s"
    unfolding twice_def by (rule shop_request_ok)
  obtain resp s' p sid url v where run: "create_checkout_session sample_he sample_io shop_ck (sample_auth ''u1'') twice ?s = (Inr resp, s')"
    "cr_success resp" and v: "tbl v ''products'' = tbl ?s ''products''" "tbl v ''orders'' = tbl ?s ''orders''"
    and pl: "place_order sample_he sample_io shop_ck twice p (sid, url) v = (Inr resp, s')"
    and items: "cp_items p = validated_cart sample_he (tbl ?s ''products'') (cc_items twice)"
    by (rule checkout_accepted [OF shop_facts(1) twice_store(1) req shop_checks [folded twice_def] twice_cart shop_facts(2)
      shop_libs twice_store(2) shop_facts(3)])
  obtain row ns db where row: "pg_to_jsonb (he_pg sample_he) (order_document sample_io shop_ck twice p sid) = Inr (d_data row)"
    "tbl s' ''orders'' = tbl v ''orders'' @ [row]" "tx_effect (stock_stmts sample_he sample_io (cp_items p)) db = Inr (ns, tables (hs_db s'))"
    "db ''products'' = tbl v ''products''"
    using place_order_effect [OF pl] by auto
  let ?i = "\<lparr>ca_product_id = ''p1'', ca_quantity = 2\<rparr>"
  have two: "cp_items p = [validated_item ?i (product_doc sample_he [shop_product ''p1'' 1000 3] ?i),
      validated_item ?i (product_doc sample_he [shop_product ''p1'' 1000 3] ?i)]"
    by (simp add: items validated_cart_def twice_def shop_request_def)
  have "d_data row = order_document sample_io shop_ck twice p sid" using row(1) by (simp add: sample_simps)
  then have "items_array (d_data row) = cp_items p" by (simp add: items_array_def jget_array_def order_document_def)
  then have ordered: "map (\<lambda>item. (str_field item ''productId'', item_quantity item)) (items_array (d_data row)) = [(''p1'', 2), (''p1'', 2)]"
    by (simp add: two validated_fields item_quantity_def jget_i64_def) (simp add: validated_item_def json_int_def)
  have op: "stock_op (validated_item ?i (product_doc sample_he [shop_product ''p1'' 1000 3] ?i)) = Some (''p1'', 2)"
    using twice_cart
    by (simp add: stock_op_def validated_fields product_doc_def doc_of_def shop_item bool_inject validate_document_id_def
        doc_id_char_def ascii_defs byte_def)
  let ?stmt = "take_stock_stmt sample_he (io_db_now sample_io 1) (io_now sample_io 0) ''p1'' 2"
  have "tx_effect [?stmt, ?stmt] db = Inr (ns, tables (hs_db s'))"
    using row(3) by (simp add: two stock_stmts_def map_filter_simps op)
  then have "map (\<lambda>r. (d_id r, i64_field (d_data r) ''stockQuantity'')) (tbl s' ''products'') = [(''p1'', 1)]"
    using row(4) v(1) sold_out by simp
  then show ?thesis using run ordered row(2) v(2) by auto
qed

subsection \<open>Overlapping checkouts\<close>

text \<open>
  C26. No interleaving of checkouts makes a stock negative: from a store without negative stock,
  every store that any number of overlapping requests can reach, whatever the database and
  the payment provider answer, has none either, and it has the same products.
\<close>

theorem stock_never_negative:
  assumes "stock_libs he" "no_negative_stock he (tbl (ks_state c) ''products'')" "(checkout_step he)\<^sup>*\<^sup>* c c'"
  shows "no_negative_stock he (tbl (ks_state c') ''products'') \<and>
    map d_id (tbl (ks_state c') ''products'') = map d_id (tbl (ks_state c) ''products'')"
  using assms(3)
proof (induction rule: rtranclp_induct)
  case (step a b)
  from step.hyps(2) show ?case
  proof (cases rule: checkout_step.cases)
    case (prepares io ck auth req r s')
    then show ?thesis using keepsD [OF keeps_prepare prepares(2), of "''products''"] step.IH by simp
  next
    case (places req p ck io r s')
    from places(3) show ?thesis
    proof (cases rule: abind_cases)
      case (err e)
      then show ?thesis using open_session_tables [OF err(1)] step.IH places(1) by simp
    next
      case (ok sess u)
      then show ?thesis
        using open_session_tables [OF ok(1)] place_order_products [OF assms(1) ok(2)] step.IH places(1) by simp
    qed
  qed
qed (use assms(2) in simp)

theorem stock_never_negative_witness:
  "\<exists>c. checkout_step sample_he \<lparr>ks_state = shop_store [shop_product ''p1'' 1000 3], ks_waiting = []\<rparr> c \<and> ks_waiting c \<noteq> [] \<and>
     no_negative_stock sample_he (tbl (ks_state c) ''products'') \<and> map d_id (tbl (ks_state c) ''products'') = [''p1'']"
proof -
  let ?s = "shop_store [shop_product ''p1'' 1000 3]"
  have "caller_ok sample_he sample_io shop_ck (sample_auth ''u1'') twice ''u1'' ?s"
    unfolding twice_def by (rule shop_caller_ok) (simp_all add: RATE_LIMITS_def)
  from prepare_calm [OF shop_facts(1) twice_store(1) this shop_checks [folded twice_def] twice_cart]
  obtain p u where "prepare_checkout sample_he sample_io shop_ck (sample_auth ''u1'') twice ?s = (Inr (Inr p), u)" by auto
  then have step: "checkout_step sample_he \<lparr>ks_state = ?s, ks_waiting = []\<rparr> \<lparr>ks_state = u, ks_waiting = [(twice, p)]\<rparr>"
    using checkout_step.prepares [of sample_he sample_io shop_ck "sample_auth ''u1''" twice "\<lparr>ks_state = ?s, ks_waiting = []\<rparr>" "Inr (Inr p)" u]
    by simp
  have "no_negative_stock sample_he (tbl ?s ''products'')" by (simp add: no_negative_stock_def shop_stock)
  then show ?thesis
    using stock_never_negative [OF shop_libs, of "\<lparr>ks_state = ?s, ks_waiting = []\<rparr>" "\<lparr>ks_state = u, ks_waiting = [(twice, p)]\<rparr>"] step
    by (intro exI [of _ "\<lparr>ks_state = u, ks_waiting = [(twice, p)]\<rparr>"]) (simp add: r_into_rtranclp shop_item)
qed

end
