(* ===== verification/Checkout_Retry.thy ===== *)
theory Checkout_Retry
  imports Checkout_Progress
begin

text \<open>
  What a buyer pays and gets: an accepted checkout charges what its order says, a retry with the
  same idempotency key opens no second session, and the verification of prices is exact. The
  lookup of products by the end of their id is not.
\<close>

subsection \<open>Amounts\<close>

text \<open>
  C25. An accepted checkout charges what its order says: the provider is asked for line items whose
  amounts add up to the stored total, and the total is the stored subtotal plus shipping plus tax.
  The subtotal is the value of the cart at the prices of the store less a discount that leaves a
  dollar, it is within two dollars of the amount the client saw, and exactly one order is
  written. This holds when no id in the cart ends another one (a cart item is priced by the first
  loaded product whose id ends with its own), prices respect the limit that products
  are created with and no coupon has a negative value.
\<close>

theorem checkout_charges_what_it_stores:
  assumes "create_checkout_session he io ck auth req s = (Inr resp, s')" "\<not> cr_duplicate resp"
    "modest_catalogue s" "suffix_free (cc_items req)"
  shows "\<exists>row doc key form. tbl s' ''orders'' = tbl s ''orders'' @ [row] \<and> d_id row = cr_order_id resp \<and>
    pg_to_jsonb (he_pg he) doc = Inr (d_data row) \<and>
    hs_outbox s' = hs_outbox s @ [StripeSession key form] \<and>
    charged form = i64_field doc ''totalAmountCents'' \<and>
    i64_field doc ''totalAmountCents'' =
      i64_field doc ''subtotalCents'' + i64_field doc ''shippingCostCents'' + i64_field doc ''taxAmountCents'' \<and>
    0 \<le> i64_field doc ''shippingCostCents'' \<and> 0 \<le> i64_field doc ''taxAmountCents'' \<and>
    i64_field doc ''subtotalCents'' = cart_value (tbl s ''products'') (cc_items req) - i64_field doc ''discountAmountCents'' \<and>
    0 \<le> i64_field doc ''discountAmountCents'' \<and>
    i64_field doc ''discountAmountCents'' \<le> max 0 (cart_value (tbl s ''products'') (cc_items req) - 100) \<and>
    \<bar>cc_subtotal_cents req - i64_field doc ''subtotalCents''\<bar> \<le> 200"
proof -
  obtain p u v sid url where prep: "prepare_checkout he io ck auth req s = (Inr (Inr p), u)"
    and open_s: "open_session ck p u = (Inr (sid, url), v)"
    and place: "place_order he io ck req p (sid, url) v = (Inr resp, s')"
    by (rule create_checkout_new [OF assms(1,2)])
  obtain a b raw where pn: "tbl a ''products'' = tbl s ''products''"
    "price_cart he req (cp_user p) a = (Inr (raw, cp_items p), b)"
    "discount_of (tbl s ''coupons'') raw (cp_discount p)"
    "cp_subtotal p = wrap_i64 (raw - cp_discount p)"
    "subtotal_matches_with_tolerance (cc_subtotal_cents req) (cp_subtotal p)"
    "checkout_totals ck (cp_province p) (cp_items p) (cp_subtotal p) = Inr (cp_shipping p, cp_tax p, cp_total p)"
    "checkout_request_checks ck req = Inr (cp_province p, cp_postal p)"
    by (rule prepare_new [OF prep])
  have raw: "raw = cart_value (tbl s ''products'') (cc_items req)" "0 \<le> raw" "raw \<le> 1000000000000"
    using price_cart_value [OF pn(2,7) assms(4)] assms(3) pn(1) by (auto simp: modest_catalogue_def)
  have d: "0 \<le> cp_discount p" "cp_discount p \<le> max 0 (raw - 100)"
    using discount_bounds [OF pn(3) _ raw(2,3)] assms(3) by (auto simp: modest_catalogue_def)
  have sub: "cp_subtotal p = raw - cp_discount p" using pn(4) d raw by (simp add: i64_range_def)
  have sb: "0 \<le> cp_subtotal p" "cp_subtotal p \<le> 1000000000000" using sub d raw by auto
  note near = subtotal_matches_near [OF pn(5) _ _ sb] request_checks_bounds [OF pn(7)]
  have tot: "cp_total p = cp_subtotal p + cp_shipping p + cp_tax p" "0 \<le> cp_shipping p" "cp_shipping p \<le> 899"
    "0 \<le> cp_tax p" "cp_tax p \<le> 1600000"
    using totals_add_up [OF pn(6) sb(1)] near by auto
  have keep: "tbl v ''orders'' = tbl s ''orders''" "hs_outbox v = hs_outbox s @ [StripeSession (cp_key p) (checkout_form ck p)]"
    using keepsD [OF keeps_prepare prep, of "''orders''"] quiet_prepare [of he io ck auth req] prep open_session_ok [OF open_s]
    by (simp_all add: quiet_def) (metis snd_conv)
  obtain row where row: "pg_to_jsonb (he_pg he) (order_document io ck req p sid) = Inr (d_data row)"
    "d_id row = ck_order_id ck" "tbl s' ''orders'' = tbl v ''orders'' @ [row]" "hs_outbox s' = hs_outbox v"
    "cr_order_id resp = ck_order_id ck"
    using place_order_effect [OF place] by blast
  let ?doc = "order_document io ck req p sid"
  have doc: "i64_field ?doc ''totalAmountCents'' = cp_total p" "i64_field ?doc ''subtotalCents'' = cp_subtotal p"
    "i64_field ?doc ''shippingCostCents'' = cp_shipping p" "i64_field ?doc ''taxAmountCents'' = cp_tax p"
    "i64_field ?doc ''discountAmountCents'' = cp_discount p"
    using order_document_amounts [of p io ck req sid] tot sb d raw near(1) near(2) by (auto simp: i64_range_def)
  have "charged (checkout_form ck p) = cp_total p" using tot sb by (simp add: charged_form)
  then show ?thesis
    using row keep doc tot sub d raw near
    by (intro exI [of _ row] exI [of _ ?doc] exI [of _ "cp_key p"] exI [of _ "checkout_form ck p"]) simp
qed

theorem checkout_charges_what_it_stores_witness:
  "\<exists>resp s' key form. create_checkout_session sample_he sample_io shop_ck (sample_auth ''u1'') twice
       (shop_store [shop_product ''p1'' 1000 3]) = (Inr resp, s') \<and> hs_outbox s' = [StripeSession key form] \<and> 3800 \<le> charged form"
proof -
  let ?s = "shop_store [shop_product ''p1'' 1000 3]"
  have req: "request_ok sample_he sample_io shop_ck (sample_auth ''u1'') twice ''u1'' ?s"
    unfolding twice_def by (rule shop_request_ok)
  obtain resp s' where run: "create_checkout_session sample_he sample_io shop_ck (sample_auth ''u1'') twice ?s = (Inr resp, s')"
      "\<not> cr_duplicate resp"
    by (rule checkout_accepted [OF shop_facts(1) twice_store(1) req shop_checks [folded twice_def] twice_cart shop_facts(2)
      shop_libs twice_store(2) shop_facts(3)])
  have twice: "suffix_free (cc_items twice)" "cc_subtotal_cents twice = 4000"
    by (simp_all add: twice_def shop_request_def suffix_free_def)
  obtain key form doc where
    form: "hs_outbox s' = [StripeSession key form]" "charged form = i64_field doc ''totalAmountCents''"
      "i64_field doc ''totalAmountCents'' =
         i64_field doc ''subtotalCents'' + i64_field doc ''shippingCostCents'' + i64_field doc ''taxAmountCents''"
      "0 \<le> i64_field doc ''shippingCostCents''" "0 \<le> i64_field doc ''taxAmountCents''"
      "\<bar>cc_subtotal_cents twice - i64_field doc ''subtotalCents''\<bar> \<le> 200"
    using checkout_charges_what_it_stores [OF run twice_store(1) twice(1)] unfolding shop_tables_simps append_Nil by blast
  have "3800 \<le> charged form" using form twice(2) by linarith
  then show ?thesis using run(1) form(1) by blast
qed

subsection \<open>Retries\<close>

abbreviation calm_action :: "'a h_action \<Rightarrow> bool" where
  "calm_action \<equiv> preserves (\<lambda>s. no_faults (hs_db s))"

lemma calm_hdb: "preserves no_faults m \<Longrightarrow> calm_action (hdb m)"
  by (auto simp: preserves_def hdb_def split: prod.splits)

lemma no_faults_get: "preserves no_faults (get_document env coll i)"
  unfolding get_document_def
  by (intro preserves_abind preserves_alift no_faults_exec no_faults_ensure preserves_areturn)

lemma calm_hres: "calm_action (hres r)"
  by (simp add: preserves_def hres_def)

lemma preserves_Pair [simp]: "preserves P (Pair r)"
  by (simp add: preserves_def)

lemma preserves_if: "preserves P a \<Longrightarrow> preserves P b \<Longrightarrow> preserves P (if c then a else b)"
  by simp

lemma calm_load: "calm_action (load_products he ids)"
  by (induction ids) (auto intro!: preserves_abind calm_hdb preserves_atry no_faults_get preserves_areturn simp del: areturn_apply)

lemma calm_profiles: "calm_action (seller_profiles he sids)"
proof (induction sids)
  case (Cons sid sids)
  then show ?case
    unfolding seller_profiles.simps
    by (intro preserves_abind calm_hdb preserves_atry no_faults_get) (auto intro!: preserves_abind calm_hdb preserves_atry no_faults_get)
qed auto

lemma calm_price_cart: "calm_action (price_cart he req user)"
  unfolding price_cart_def by (intro preserves_abind calm_load) (simp add: preserves_athrow calm_hres)

lemma no_faults_find_coupon: "preserves no_faults (find_coupon he code)"
  unfolding find_coupon_def coupon_fallback_def coupon_by_code_def
  by (intro preserves_abind preserves_atry no_faults_get)
    (auto split: sum.split intro!: preserves_abind preserves_atry preserves_amap_err no_faults_ensure no_faults_exec)

lemma no_faults_count_uses: "preserves no_faults (count_uses he conds)"
  unfolding count_uses_def by (intro preserves_abind preserves_atry no_faults_ensure no_faults_exec preserves_areturn)

lemma calm_coupon: "calm_action (checkout_coupon he ck req user raw sellers)"
proof -
  have "preserves no_faults (validate_checkout_coupon he ck c user raw sellers)" for c
    unfolding validate_checkout_coupon_def Let_def
    by (intro preserves_if preserves_abind preserves_athrow preserves_areturn preserves_alift no_faults_find_coupon no_faults_count_uses)
  then show ?thesis
    unfolding checkout_coupon_def by (auto split: option.split list.split prod.split intro!: preserves_abind calm_hdb)
qed

lemma preservesD: "preserves P m \<Longrightarrow> m s = (r, s') \<Longrightarrow> P s \<Longrightarrow> P s'"
  by (metis preserves_def snd_conv)

text \<open>On a healthy store the lookup of the key decides between an earlier order and a new one.\<close>

lemma prepare_decides:
  assumes "no_faults (hs_db s)" "prepare_checkout he io ck auth req s = (Inr r, s')"
    "resolve_self_user_id auth (cc_user_id req) ''userId'' = Inr user"
  shows "case List.find (order_with_key he user (checkout_key ck req user)) (tbl s ''orders'') of
      Some row \<Rightarrow> r = Inl (duplicate_response (inject_document_metadata (he_pg he) row))
    | None \<Rightarrow> \<exists>p. r = Inr p"
proof -
  from assms(2,3) obtain a b c d prov postal raw items profiles coupon discount existing e where
    rate: "hdb (check_user_rate_limit he io user ''create_checkout_session'' 5 1) s = (Inr (), a)"
    and price: "price_cart he req user a = (Inr (raw, items), b)"
    and prof: "seller_profiles he (unique_seller_ids items) b = (Inr profiles, c)"
    and coup: "checkout_coupon he ck req user raw (unique_seller_ids items) c = (Inr (coupon, discount), d)"
    and ex: "hdb (existing_order he user (checkout_key ck req user)) d = (Inr existing, e)"
    and r: "case existing of Some order \<Rightarrow> r = Inl (duplicate_response order) | None \<Rightarrow> \<exists>p. r = Inr p"
    unfolding prepare_checkout_def Let_def
    by (auto simp: abind_eq_Inr hres_Inr split: prod.splits if_splits option.splits)
  have "no_faults (hs_db a)" using preservesD [OF calm_hdb [OF no_faults_rate_limit] rate] assms(1) by simp
  then have "no_faults (hs_db b)" using preservesD [OF calm_price_cart price] by simp
  then have "no_faults (hs_db c)" using preservesD [OF calm_profiles prof] by simp
  then have calm: "no_faults (hs_db d)" using preservesD [OF calm_coupon coup] by simp
  have "tbl d ''orders'' = tbl s ''orders''"
    using keepsD [OF keeps_shop_rate_limit rate, of "''orders''"] keepsD [OF keeps_price_cart price UNIV_I]
      keepsD [OF keeps_profiles prof UNIV_I] keepsD [OF keeps_coupon coup UNIV_I] by simp
  then have "existing = map_option (inject_document_metadata (he_pg he))
      (List.find (order_with_key he user (checkout_key ck req user)) (tbl s ''orders''))"
    using ex existing_order_calm [OF calm, of he user] by simp
  then show ?thesis using r by (auto split: option.splits)
qed

lemma find_append: "List.find P (xs @ ys) = (case List.find P xs of None \<Rightarrow> List.find P ys | Some x \<Rightarrow> Some x)"
  by (induction xs) auto

lemma order_document_strings:
  assumes "jsonb_keeps_strings env" "pg_to_jsonb env (order_document io ck req p sid) = Inr body"
  shows "jget_str ''buyerId'' body = Some (cp_user p)" "jget_str ''idempotencyKey'' body = Some (cp_key p)"
    "jget_str ''orderId'' body = Some (ck_order_id ck)" "jget_str ''stripeSessionId'' body = Some sid"
proof -
  have s: "jget_str k body = Some x" if "jget k (order_document io ck req p sid) = Some (JString x)" for k x
    using jsonb_string [OF assms(1) assms(2) [unfolded order_document_def], of k x] that [unfolded order_document_def]
    by (metis (no_types, lifting) as_str.simps(1) bind.bind_lunit jget_def jget_str_def json.simps(41))
  show "jget_str ''buyerId'' body = Some (cp_user p)" "jget_str ''idempotencyKey'' body = Some (cp_key p)"
    "jget_str ''orderId'' body = Some (ck_order_id ck)" "jget_str ''stripeSessionId'' body = Some sid"
    by (rule s, simp add: order_document_def)+
qed

lemma member_text_str: "jget_str f d = Some x \<Longrightarrow> member_text env f d = Some x"
  by (auto simp: jget_str_def member_text_def jsonb_text_def bind_eq_Some_conv as_str_eq)

lemma placed_order_row:
  assumes "create_checkout_session he io ck auth req s = (Inr resp, s')" "\<not> cr_duplicate resp" "jsonb_keeps_strings (he_pg he)"
  obtains p u row where "prepare_checkout he io ck auth req s = (Inr (Inr p), u)"
    "resolve_self_user_id auth (cc_user_id req) ''userId'' = Inr (cp_user p)" "tbl s' ''orders'' = tbl s ''orders'' @ [row]"
    "order_with_key he (cp_user p) (checkout_key ck req (cp_user p)) row"
    "str_field (d_data row) ''orderId'' = cr_order_id resp" "str_field (d_data row) ''stripeSessionId'' = cr_session_id resp"
proof -
  obtain p u v sid url where prep: "prepare_checkout he io ck auth req s = (Inr (Inr p), u)"
    and op: "open_session ck p u = (Inr (sid, url), v)" and place: "place_order he io ck req p (sid, url) v = (Inr resp, s')"
    by (rule create_checkout_new [OF assms(1,2)])
  have p: "cp_key p = checkout_key ck req (cp_user p)" "resolve_self_user_id auth (cc_user_id req) ''userId'' = Inr (cp_user p)"
    by (rule prepare_new [OF prep]; assumption)+
  obtain row where row: "pg_to_jsonb (he_pg he) (order_document io ck req p sid) = Inr (d_data row)"
    "tbl s' ''orders'' = tbl v ''orders'' @ [row]" "cr_order_id resp = ck_order_id ck" "cr_session_id resp = sid"
    using place_order_effect [OF place] by blast
  have v: "tbl v ''orders'' = tbl s ''orders''"
    using keepsD [OF keeps_prepare prep, of "''orders''"] open_session_ok [OF op] by simp
  note doc = order_document_strings [OF assms(3) row(1)]
  have "order_with_key he (cp_user p) (checkout_key ck req (cp_user p)) row"
    using member_text_str [OF doc(1), of "he_pg he"] member_text_str [OF doc(2), of "he_pg he"] p(1)
    by (simp add: order_with_key_def sql_eq_def)
  then show ?thesis using that [OF prep p(2), of row] row(2-4) v doc(3,4) by (simp add: str_field_def)
qed

text \<open>Orders that were updated since, but for the members that identify the checkout.\<close>

definition same_checkout :: "doc_row \<Rightarrow> doc_row \<Rightarrow> bool" where
  "same_checkout r r' \<longleftrightarrow> (\<forall>f \<in> {''buyerId'', ''idempotencyKey'', ''orderId'', ''stripeSessionId''}. jget f (d_data r') = jget f (d_data r))"

lemma same_checkout_key: "same_checkout r r' \<Longrightarrow> order_with_key he user key r' \<longleftrightarrow> order_with_key he user key r"
  by (simp add: same_checkout_def order_with_key_def member_text_def)

lemma find_updated:
  assumes "list_all2 same_checkout rs rs'" "List.find (order_with_key he user key) rs = Some row"
  obtains row' where "List.find (order_with_key he user key) rs' = Some row'" "same_checkout row row'"
proof -
  from assms have "\<exists>row'. List.find (order_with_key he user key) rs' = Some row' \<and> same_checkout row row'"
    by (induction rule: list_all2_induct) (auto simp: same_checkout_key split: if_splits)
  then show thesis using that by blast
qed

text \<open>
  C27. A retry is never charged again: once a checkout with an idempotency key has placed its order, a further
  request of the same buyer with the same key, for whatever cart, calls the payment provider no
  second time and writes no order; when it succeeds, it is answered with the first order and its
  session. Both databases are healthy (a failed lookup of the key does place a second order), the retry may be refused (it is
  when the stock has run out since), the order may have been updated since, but for its buyer, key, id and
  session, and orders may have been added.
\<close>

theorem retry_returns_the_first_order:
  assumes "create_checkout_session he io ck auth req s = (Inr resp, s')" "\<not> cr_duplicate resp" "no_faults (hs_db s)"
    "cc_idempotency_key req = Some key" "jsonb_keeps_strings (he_pg he)"
    "create_checkout_session he io' ck' auth req' t = (result, t')" "no_faults (hs_db t)"
    "cc_idempotency_key req' = Some key" "cc_user_id req' = cc_user_id req"
    "tbl t ''orders'' = orders @ later" "list_all2 same_checkout (tbl s' ''orders'') orders"
  shows "hs_outbox t' = hs_outbox t \<and> tbl t' ''orders'' = tbl t ''orders'' \<and>
    (\<forall>resp'. result = Inr resp' \<longrightarrow>
       cr_duplicate resp' \<and> cr_order_id resp' = cr_order_id resp \<and> cr_session_id resp' = cr_session_id resp)"
proof -
  obtain p u row where prep: "prepare_checkout he io ck auth req s = (Inr (Inr p), u)"
    and user: "resolve_self_user_id auth (cc_user_id req) ''userId'' = Inr (cp_user p)"
    and row: "tbl s' ''orders'' = tbl s ''orders'' @ [row]" "order_with_key he (cp_user p) (checkout_key ck req (cp_user p)) row"
      "str_field (d_data row) ''orderId'' = cr_order_id resp" "str_field (d_data row) ''stripeSessionId'' = cr_session_id resp"
    by (rule placed_order_row [OF assms(1,2,5)])
  have key: "checkout_key c req w = key" "checkout_key c req' w = key" for c w using assms(4,8) by (simp_all add: checkout_key_def)
  have "List.find (order_with_key he (cp_user p) key) (tbl s ''orders'') = None"
    using prepare_decides [OF assms(3) prep user] by (auto simp: key split: option.splits)
  then have "List.find (order_with_key he (cp_user p) key) (tbl s' ''orders'') = Some row"
    using row(1,2) by (simp add: find_append key)
  then obtain row' where row': "List.find (order_with_key he (cp_user p) key) orders = Some row'" "same_checkout row row'"
    by (rule find_updated [OF assms(11)])
  then have found: "List.find (order_with_key he (cp_user p) key) (tbl t ''orders'') = Some row'"
    by (simp add: assms(10) find_append)
  obtain r w where again: "prepare_checkout he io' ck' auth req' t = (r, w)" by force
  have kept: "tbl w ''orders'' = tbl t ''orders''" "hs_outbox w = hs_outbox t"
    using keepsD [OF keeps_prepare again, of "''orders''"] quiet_prepare [of he io' ck' auth req'] again
    by (simp_all add: quiet_def) (metis snd_conv)
  show ?thesis
  proof (cases r)
    case (Inl e)
    then show ?thesis using assms(6) again kept by (auto simp: create_checkout_session_def abind_def)
  next
    case (Inr x)
    have "x = Inl (duplicate_response (inject_document_metadata (he_pg he) row'))"
      using prepare_decides [OF assms(7) again [unfolded Inr], of "cp_user p"] user found by (simp add: key assms(9))
    then have "result = Inr (duplicate_response (inject_document_metadata (he_pg he) row'))" "t' = w"
      using assms(6) again Inr by (simp_all add: create_checkout_session_def abind_def)
    moreover have "str_field (d_data row') f = str_field (d_data row) f" if "f \<in> {''orderId'', ''stripeSessionId''}" for f
      using row'(2) that by (auto simp: same_checkout_def str_field_def jget_str_def)
    ultimately show ?thesis using kept row(3,4) by (simp add: duplicate_response_def str_field_inject)
  qed
qed

abbreviation later_io :: h_io where
  "later_io \<equiv> sample_io\<lparr>io_test_mode := True\<rparr>"

text \<open>After the first checkout of two units the store has three of its five left.\<close>

lemma once_bought:
  obtains resp s' where "create_checkout_session sample_he sample_io shop_ck (sample_auth ''u1'') once (shop_store [shop_product ''p1'' 1000 5]) = (Inr resp, s')"
    "\<not> cr_duplicate resp" "no_faults (hs_db s')" "modest_catalogue s'" "cart_ok sample_he shop_ck once ''u1'' ''ON'' s'"
proof -
  let ?r = "shop_product ''p1'' 1000 5"
  let ?s = "shop_store [?r]" and ?i = "\<lparr>ca_product_id = ''p1'', ca_quantity = 2\<rparr>"
  let ?r' = "?r\<lparr>d_data := jset ''updatedAt'' (JString (io_now sample_io 0)) (jset ''stockQuantity'' (json_int 3) (d_data ?r)), d_updated_at := io_db_now sample_io 1\<rparr>"
  have req: "request_ok sample_he sample_io shop_ck (sample_auth ''u1'') once ''u1'' ?s"
    unfolding once_def by (rule shop_request_ok)
  have store: "modest_catalogue ?s" "readable_stock sample_he (tbl ?s ''products'')" "cart_ok sample_he shop_ck once ''u1'' ''ON'' ?s"
    by (simp_all add: modest_catalogue_def readable_stock_def shop_stock shop_item once_cart)
  obtain resp s' p sid url v where run: "create_checkout_session sample_he sample_io shop_ck (sample_auth ''u1'') once ?s = (Inr resp, s')"
      "\<not> cr_duplicate resp" and v: "tbl v ''products'' = tbl ?s ''products''"
    and pl: "place_order sample_he sample_io shop_ck once p (sid, url) v = (Inr resp, s')"
    and items: "cp_items p = validated_cart sample_he (tbl ?s ''products'') (cc_items once)"
    and calm: "no_faults (hs_db s')" and other: "\<forall>t \<in> shop_tables - {''orders'', ''products''}. tbl s' t = tbl ?s t"
    by (rule checkout_accepted [OF shop_facts(1) store(1) req once_checks store(3) shop_facts(2) shop_libs store(2) shop_facts(3)])
  obtain ns db where eff: "tx_effect (stock_stmts sample_he sample_io (cp_items p)) db = Inr (ns, tables (hs_db s'))" "db ''products'' = tbl v ''products''"
    using place_order_effect [OF pl] by auto
  have op: "stock_op (validated_item ?i (product_doc sample_he [?r] ?i)) = Some (''p1'', 2)"
    by (simp add: stock_op_def validated_fields product_doc_def doc_of_def shop_item bool_inject validate_document_id_def
        doc_id_char_def ascii_defs byte_def)
  have "take_from_row sample_he (io_db_now sample_io 1) (io_now sample_io 0) ''p1'' 2 ?r = Inr (True, ?r')"
    by (simp add: take_from_row_def shop_stock shop_item)
  then have taken: "snd (take_stock_stmt sample_he (io_db_now sample_io 1) (io_now sample_io 0) ''p1'' 2) [?r] = Inr (1, [?r'])"
    by (simp add: take_stock_stmt_def del: jset.simps)
  have "stock_stmts sample_he sample_io (cp_items p) = [take_stock_stmt sample_he (io_db_now sample_io 1) (io_now sample_io 0) ''p1'' 2]"
    by (simp add: items validated_cart_def once_def shop_request_def stock_stmts_def map_filter_simps op)
  moreover obtain f where "take_stock_stmt sample_he (io_db_now sample_io 1) (io_now sample_io 0) ''p1'' 2 = (''products'', f)"
    by (simp add: take_stock_stmt_def)
  ultimately have "tables (hs_db s') = db(''products'' := [?r'])" using eff v taken by (simp del: jset.simps)
  then have products: "tbl s' ''products'' = [?r']" by simp
  have users: "tbl s' ''users'' = []" "tbl s' ''coupons'' = []"
    using other by (simp_all add: shop_tables_def RATE_LIMITS_def)
  have fields: "i64_field (d_data ?r') ''priceCents'' = 1000" "i64_field (d_data ?r') ''stockQuantity'' = 3" "str_field (d_data ?r') ''sellerId'' = ''v1''"
    "str_field (d_data ?r') ''lifecycleStatus'' = ''active''" "d_id ?r' = ''p1''"
    by (simp_all add: shop_product_def i64_field_def str_field_def jget_defs json_int_def)
  have bools: "\<not> bool_field (d_data ?r') f" for f by (simp add: shop_product_def bool_field_def jget_defs json_int_def)
  have "cart_ok sample_he shop_ck once ''u1'' ''ON'' s'"
    by (rule once_cart_row [OF fields(5,1) _ fields(3,4) bools products users(1)]) (simp only: fields(2))
  moreover have "modest_catalogue s'" using fields(1) by (simp add: modest_catalogue_def products users(2) del: jset.simps)
  ultimately show thesis using that run calm by blast
qed

theorem retry_returns_the_first_order_witness:
  "\<exists>resp s' resp' t'. create_checkout_session sample_he sample_io shop_ck (sample_auth ''u1'') once
       (shop_store [shop_product ''p1'' 1000 5]) = (Inr resp, s') \<and>
     create_checkout_session sample_he later_io shop_ck (sample_auth ''u1'') once s' = (Inr resp', t') \<and>
     cr_duplicate resp' \<and> cr_order_id resp' = cr_order_id resp \<and> hs_outbox t' = hs_outbox s'"
proof -
  obtain resp s' where run: "create_checkout_session sample_he sample_io shop_ck (sample_auth ''u1'') once (shop_store [shop_product ''p1'' 1000 5]) = (Inr resp, s')"
    "\<not> cr_duplicate resp" and s': "no_faults (hs_db s')" "modest_catalogue s'" "cart_ok sample_he shop_ck once ''u1'' ''ON'' s'"
    by (rule once_bought)
  have caller: "caller_ok sample_he later_io shop_ck (sample_auth ''u1'') once ''u1'' s'"
    by (simp add: caller_ok_def checkout_turnstile_def once_def shop_request_def shop_ck_def validate_turnstile_token_def sample_io_def
      resolve_self_user_id_def require_authenticated_def sample_auth_def validate_uid_def check_user_rate_limit_def)
  then have user: "resolve_self_user_id (sample_auth ''u1'') (cc_user_id once) ''userId'' = Inr ''u1''" by (simp add: caller_ok_def)
  obtain row where row: "tbl s' ''orders'' = [row]" "order_with_key sample_he ''u1'' (checkout_key shop_ck once ''u1'') row"
    by (rule placed_order_row [OF run sample_keeps_strings]) (use user in auto)
  obtain earlier u where "prepare_checkout sample_he later_io shop_ck (sample_auth ''u1'') once s' = (Inr (Inl earlier), u)"
    using prepare_calm [OF s'(1,2) caller once_checks s'(3)] row by auto
  then have again: "create_checkout_session sample_he later_io shop_ck (sample_auth ''u1'') once s' = (Inr earlier, u)"
    by (simp add: create_checkout_session_def abind_def)
  have k: "cc_idempotency_key once = Some ''k1''" by (simp add: once_def shop_request_def)
  have same: "list_all2 same_checkout (tbl s' ''orders'') (tbl s' ''orders'')" by (simp add: list_all2_same same_checkout_def)
  from retry_returns_the_first_order [OF run shop_facts(1) k sample_keeps_strings again s'(1) k refl _ same, of "[]"]
  show ?thesis using run again by auto
qed

subsection \<open>Verifying prices\<close>

text \<open>What a verified item means: the product exists, has the expected price and enough units, and is active.\<close>

definition price_verified :: "doc_row list \<Rightarrow> VerifyPriceItem \<Rightarrow> bool" where
  "price_verified products item \<longleftrightarrow>
     (case doc_of (bare_id ''products'' (vp_product_id item)) products of
        None \<Rightarrow> False
      | Some r \<Rightarrow> i64_field (d_data r) ''priceCents'' = vp_expected_price_cents item \<and>
          vp_quantity item \<le> i64_field (d_data r) ''stockQuantity'' \<and> str_field (d_data r) ''lifecycleStatus'' = ''active'')"

lemma price_mismatch_iff:
  "price_mismatch item (case doc_of (bare_id ''products'' (vp_product_id item)) products of
       None \<Rightarrow> Inl e
     | Some r \<Rightarrow> Inr (inject_document_metadata env r)) = None \<longleftrightarrow> price_verified products item"
  by (auto simp: price_mismatch_def price_verified_def Let_def str_field_inject split: option.split)

lemma verify_items_calm:
  assumes "no_faults (hs_db s)" "verify_items he items s = (Inr (k, ms), s')"
  shows "k = length (filter (price_verified (tbl s ''products'')) items) \<and>
    length ms = length (filter (\<lambda>item. \<not> price_verified (tbl s ''products'') item) items)"
  using assms(2)
proof (induction items arbitrary: k ms)
  case (Cons item items)
  let ?d = "case doc_of (bare_id ''products'' (vp_product_id item)) (tbl s ''products'') of
      None \<Rightarrow> Inl (not_found ''products'' (bare_id ''products'' (vp_product_id item)))
    | Some r \<Rightarrow> Inr (inject_document_metadata (he_pg he) r)"
  from Cons.prems obtain k' ms' where rest: "verify_items he items s = (Inr (k', ms'), s')"
    and r: "(k, ms) = (case price_mismatch item ?d of Some m \<Rightarrow> (k', m # ms') | None \<Rightarrow> (k' + 1, ms'))"
    by (auto simp: abind_eq_Inr hres_Inr get_try_calm [OF assms(1)])
  show ?case
    using Cons.IH [OF rest] r price_mismatch_iff [where item = item and products = "tbl s ''products''"]
    by (cases "price_mismatch item ?d") auto
qed simp

text \<open>
  The verification of a cart is exact: on a healthy database the answer is valid when and only when every item
  names an active product with exactly the expected price and at least the requested units, and it counts the items
  that pass.
\<close>

theorem verified_cart_matches_store:
  assumes "verify_cart_prices he io user items s = (Inr v, s')" "no_faults (hs_db s)"
  shows "jget ''valid'' v = Some (JBool (list_all (price_verified (tbl s ''products'')) items)) \<and>
    jget ''verified'' v = Some (json_int (int (length (filter (price_verified (tbl s ''products'')) items))))"
proof -
  from assms(1) obtain a k ms where rate: "hdb (check_user_rate_limit he io user ''verify_cart_prices'' 10 1) s = (Inr (), a)"
    and vs: "verify_items he items a = (Inr (k, ms), s')"
    and v: "v = json_obj [(''valid'', JBool (ms = [])), (''verified'', json_int (int k)), (''mismatches'', JArray ms)]"
    by (auto simp: verify_cart_prices_def abind_eq_Inr hres_Inr split: if_splits)
  have "no_faults (hs_db a)" using preservesD [OF calm_hdb [OF no_faults_rate_limit] rate] assms(2) by simp
  moreover have "tbl a ''products'' = tbl s ''products''" using keepsD [OF keeps_shop_rate_limit rate] by simp
  ultimately have "k = length (filter (price_verified (tbl s ''products'')) items)"
    "length ms = length (filter (\<lambda>item. \<not> price_verified (tbl s ''products'') item) items)"
    using verify_items_calm [OF _ vs] by simp_all
  moreover from this(2) have "ms = [] \<longleftrightarrow> list_all (price_verified (tbl s ''products'')) items"
    unfolding length_0_conv [symmetric, of ms] by (simp add: filter_empty_conv list_all_iff)
  ultimately show ?thesis by (simp add: v)
qed

theorem verified_cart_matches_store_witness:
  "\<exists>v s'. verify_cart_prices sample_he sample_io ''u1'' [\<lparr>vp_product_id = ''p1'', vp_expected_price_cents = 1000, vp_quantity = 3\<rparr>]
       (shop_store [shop_product ''p1'' 1000 3]) = (Inr v, s') \<and> jget ''valid'' v = Some (JBool True)"
proof -
  let ?s = "shop_store [shop_product ''p1'' 1000 3]"
  let ?item = "\<lparr>vp_product_id = ''p1'', vp_expected_price_cents = 1000, vp_quantity = 3\<rparr>"
  have "is_ok (fst (check_user_rate_limit sample_he sample_io ''u1'' ''verify_cart_prices'' 10 1 (hs_db ?s)))"
    by (rule shop_rate_limit) (simp_all add: RATE_LIMITS_def)
  then obtain a where rate: "hdb (check_user_rate_limit sample_he sample_io ''u1'' ''verify_cart_prices'' 10 1) ?s = (Inr (), a)"
    by (auto simp: is_ok_iff hdb_def split_beta)
  have calm: "no_faults (hs_db a)" using preservesD [OF calm_hdb [OF no_faults_rate_limit] rate] shop_facts(1) by simp
  obtain v where run: "verify_cart_prices sample_he sample_io ''u1'' [?item] ?s = (Inr v, a)"
    by (simp add: verify_cart_prices_def abind_def rate hres_def validate_uid_def get_try_calm [OF calm] split_beta)
  have "price_verified [shop_product ''p1'' 1000 3] ?item"
    by (simp add: price_verified_def bare_id_def strip_prefix_def starts_with_def doc_of_def shop_item)
  then show ?thesis using verified_cart_matches_store [OF run shop_facts(1)] run by auto
qed

subsection \<open>Products found by the end of their id\<close>

text \<open>
  A cart item is priced by the first loaded product whose id ends with the item's id: when the cart also
  holds a product whose id ends that way, the item is sold at that product's price. Here an item of 100
  dollars is priced at one dollar.
\<close>

theorem product_found_by_suffix_has_other_price:
  "\<exists>items. price_cart sample_he (shop_request [(''xp1'', 1), (''p1'', 1)] 200) ''u1''
       (shop_store [shop_product ''xp1'' 100 5, shop_product ''p1'' 10000 5]) =
     (Inr (200, items), shop_store [shop_product ''xp1'' 100 5, shop_product ''p1'' 10000 5]) \<and>
   cart_value [shop_product ''xp1'' 100 5, shop_product ''p1'' 10000 5] (cc_items (shop_request [(''xp1'', 1), (''p1'', 1)] 200)) = 10100"
proof -
  let ?ps = "[shop_product ''xp1'' 100 5, shop_product ''p1'' 10000 5]"
  let ?req = "shop_request [(''xp1'', 1), (''p1'', 1)] 200"
  have items: "cc_items ?req = [\<lparr>ca_product_id = ''xp1'', ca_quantity = 1\<rparr>, \<lparr>ca_product_id = ''p1'', ca_quantity = 1\<rparr>]"
    by (simp add: shop_request_def)
  have present: "\<forall>item \<in> set (cc_items ?req). product_present (tbl (shop_store ?ps) ''products'') item"
    unfolding items
    by (simp add: product_present_def doc_of_def shop_item safe_document_id_def doc_id_char_def ascii_defs byte_def)
  let ?x = "inject_document_metadata (he_pg sample_he) (shop_product ''xp1'' 100 5)"
  let ?p = "inject_document_metadata (he_pg sample_he) (shop_product ''p1'' 10000 5)"
  have load: "load_products sample_he (map ca_product_id (cc_items ?req)) (shop_store ?ps) = (Inr [?x, ?p], shop_store ?ps)"
    using load_products_calm [OF shop_facts(1) present, of sample_he] unfolding items
    by (simp add: product_doc_def doc_of_def shop_item)
  have "jget_str ''id'' ?x = Some ''xp1''"
    by (simp add: jget_str_def jget_def inject_document_metadata_def shop_product_def)
  then have row: "row_of_product ''xp1'' ?x" "row_of_product ''p1'' ?x" by (simp_all add: row_of_product_def ends_with_def)
  have checks: "product_checks ?req ''u1'' \<lparr>ca_product_id = i, ca_quantity = 1\<rparr> ?x = Inr ()" for i
    by (simp add: product_checks_def str_field_inject bool_inject shop_item strip_prefix_def starts_with_def)
  have line: "line_cents \<lparr>ca_product_id = i, ca_quantity = 1\<rparr> ?x = 100" for i
    by (simp add: line_cents_def shop_item wrap_i64_def)
  have "\<exists>vs. price_items ?req ''u1'' [?x, ?p] 0 (cc_items ?req) = Inr (200, vs)"
    unfolding items using row checks line by (simp add: wrap_i64_def)
  then obtain vs where "price_items ?req ''u1'' [?x, ?p] 0 (cc_items ?req) = Inr (200, vs)" by blast
  then have "price_cart sample_he ?req ''u1'' (shop_store ?ps) = (Inr (200, vs), shop_store ?ps)"
    unfolding price_cart_def abind_def load hres_def by (simp add: items [simplified])
  moreover have "cart_value ?ps (cc_items ?req) = 10100"
    unfolding items by (simp add: cart_value_def price_in_def doc_of_def shop_item)
  ultimately show ?thesis by blast
qed

end
