(* ===== verification/Webhooks.thy ===== *)
theory Webhooks
  imports Checkout
begin

text \<open>
  The webhooks of the payment provider (\<open>crates/ob-handlers/src/payments/webhooks.rs\<close>): the
  signature of a request is verified, its event is recorded under its id so that a second delivery
  finds it, the handler of its type runs, and the record is removed again when the handler fails.
  HMAC, the decoding of hexadecimal digits, the parser of the event, the Unicode tables of
  \<open>to_uppercase\<close> (outside ASCII), PostgreSQL's reading of raw statements, the secret and the clocks
  are the fields of \<open>wh_io\<close>. The bodies of the mails are left to the mail module: a handler logs
  that it has asked for them.
\<close>

subsection \<open>Events and their parameters\<close>

record StripeWebhookEvent =
  we_id :: string
  we_type :: string
  we_data :: json
  we_created :: int

record wh_io =
  wh_secret :: "string option"
  wh_hmac :: "string \<Rightarrow> string \<Rightarrow> string"
  wh_unhex :: "string \<Rightarrow> string option"
  wh_parse :: "string \<Rightarrow> string + StripeWebhookEvent"
  wh_clock :: int
  wh_stored_secs :: int
  wh_stored_text :: string
  wh_upper :: "string \<Rightarrow> string"
  wh_raw_select :: "string \<Rightarrow> doc_row list \<Rightarrow> string + doc_row list"

subsection \<open>The signature\<close>

fun split_once :: "char \<Rightarrow> string \<Rightarrow> (string \<times> string) option" where
  "split_once c [] = None"
| "split_once c (x # xs) =
     (if x = c then Some ([], xs) else map_option (\<lambda>(k, v). (x # k, v)) (split_once c xs))"

text \<open>The parts of the header; a later part replaces an earlier one of the same name.\<close>

definition signature_parts :: "string \<Rightarrow> (string \<times> string) list" where
  "signature_parts signature =
     fold (\<lambda>(k, v). hm_insert k v) (List.map_filter (split_once (CHR ''='')) (split_on (CHR '','') signature)) []"

definition signature_part :: "string \<Rightarrow> string \<Rightarrow> string" where
  "signature_part name signature = (case map_of (signature_parts signature) name of Some v \<Rightarrow> v | None \<Rightarrow> [])"

text \<open>\<open>abs\<close> of the smallest \<open>i64\<close> is itself in a release build.\<close>

definition fresh_timestamp :: "int \<Rightarrow> string \<Rightarrow> bool" where
  "fresh_timestamp now timestamp =
     (case parse_i64 timestamp of
        Some ts \<Rightarrow> wrap_i64 \<bar>wrap_i64 (now - ts)\<bar> \<le> 300
      | None \<Rightarrow> False)"

definition verify_stripe_signature :: "wh_io \<Rightarrow> string \<Rightarrow> string \<Rightarrow> string \<Rightarrow> bool" where
  "verify_stripe_signature wi body signature secret_key =
     (let timestamp = signature_part ''t'' signature;
          provided_sig = signature_part ''v1'' signature
      in if timestamp = [] \<or> provided_sig = [] then False
         else if \<not> fresh_timestamp (wh_clock wi) timestamp then False
         else (case wh_unhex wi provided_sig of
                 None \<Rightarrow> False
               | Some provided_bytes \<Rightarrow> wh_hmac wi secret_key (timestamp @ ''.'' @ body) = provided_bytes))"

subsection \<open>Deduplication\<close>

definition WEBHOOK_EVENTS :: string where "WEBHOOK_EVENTS = ''webhook_events''"

definition event_document :: "wh_io \<Rightarrow> StripeWebhookEvent \<Rightarrow> json" where
  "event_document wi ev =
     json_obj [(''id'', JString (we_id ev)), (''type'', JString (we_type ev)),
       (''timestamp'', json_int (wh_stored_secs wi)), (''timestamp_iso'', JString (wh_stored_text wi)),
       (''processed'', JBool True), (''data'', we_data ev)]"

definition says_duplicate :: "string \<Rightarrow> bool" where
  "says_duplicate err_str \<longleftrightarrow>
     contains_str ''already exists'' err_str \<or> contains_str ''duplicate'' err_str \<or>
     contains_str ''unique constraint'' err_str \<or> contains_str ''RecordIdAlreadyExists'' err_str \<or>
     contains_str ''conflict'' err_str"

definition try_store_webhook_event_atomic :: "h_env \<Rightarrow> h_io \<Rightarrow> wh_io \<Rightarrow> StripeWebhookEvent \<Rightarrow> bool pg_action" where
  "try_store_webhook_event_atomic he io wi ev =
     (if we_id ev = [] \<or> 512 < length (we_id ev) then athrow (Validation ''Invalid webhook event ID'')
      else
        abind (atry (create_document (he_pg he) (io_uuid io 0) (io_db_now io 0) WEBHOOK_EVENTS (event_document wi ev))) (\<lambda>r.
        case r of
          Inr _ \<Rightarrow> areturn True
        | Inl e \<Rightarrow> if says_duplicate (error_to_string e) then areturn False else athrow e))"

subsection \<open>Statements\<close>

text \<open>\<open>SELECT * FROM table WHERE ... LIMIT 1\<close>.\<close>

definition select_first :: "h_env \<Rightarrow> string \<Rightarrow> (doc_row \<Rightarrow> bool) \<Rightarrow> json option pg_action" where
  "select_first he table hit =
     abind (atry (ensure_table table)) (\<lambda>_.
     pg_exec ''Query failed: '' table (\<lambda>rs.
       Inr (map_option (inject_document_metadata (he_pg he)) (List.find hit rs), rs)))"

text \<open>\<open>jsonb_set(data, '{key}', to_jsonb(value), true)\<close>: the members are set in order.\<close>

fun jsonb_set_texts :: "(string \<times> string) list \<Rightarrow> json \<Rightarrow> string + json" where
  "jsonb_set_texts [] d = Inr d"
| "jsonb_set_texts ((k, v) # kvs) d =
     (case d of
        JObject m \<Rightarrow> jsonb_set_texts kvs (JObject (obj_insert k (JString v) m))
      | JArray _ \<Rightarrow> Inl (''path element at position 1 is not an integer: '' @ json_quote k)
      | _ \<Rightarrow> Inl ''cannot set path in scalar'')"

definition set_row :: "int \<Rightarrow> (doc_row \<Rightarrow> bool) \<Rightarrow> (string \<times> string) list \<Rightarrow> doc_row \<Rightarrow> string + bool \<times> doc_row" where
  "set_row now hit kvs r =
     (if hit r then rbind (jsonb_set_texts kvs (d_data r)) (\<lambda>d. Inr (True, r\<lparr>d_data := d, d_updated_at := now\<rparr>))
      else Inr (False, r))"

text \<open>\<open>UPDATE table SET data = jsonb_set(...) WHERE ...\<close>: whether any row was updated.\<close>

definition update_where :: "string \<Rightarrow> int \<Rightarrow> (doc_row \<Rightarrow> bool) \<Rightarrow> (string \<times> string) list \<Rightarrow> bool pg_action" where
  "update_where table now hit kvs =
     abind (atry (ensure_table table)) (\<lambda>_.
     pg_exec ''Query failed: '' table (\<lambda>rs.
       rbind (rmap (set_row now hit kvs) rs) (\<lambda>brs. Inr (list_ex fst brs, map snd brs))))"

definition delete_where :: "string \<Rightarrow> (doc_row \<Rightarrow> bool) \<Rightarrow> unit pg_action" where
  "delete_where table hit =
     abind (atry (ensure_table table)) (\<lambda>_.
     pg_exec ''Query failed: '' table (\<lambda>rs. Inr ((), filter (\<lambda>r. \<not> hit r) rs)))"

text \<open>
  A statement that names the members of the documents as if they were columns. A document table
  has the columns \<open>id\<close>, \<open>data\<close>, \<open>created_at\<close> and \<open>updated_at\<close>, and PostgreSQL folds a name
  that is not quoted to lower case, so it rejects the statement before it reads a row.
\<close>

definition lower_char :: "char \<Rightarrow> char" where
  "lower_char c = (if is_ascii_uppercase c then char_of (byte c + 32) else c)"

definition unknown_column :: "string \<Rightarrow> string \<Rightarrow> 'a pg_action" where
  "unknown_column table column =
     abind (atry (ensure_table table)) (\<lambda>_.
     pg_exec ''Query failed: '' table (\<lambda>rs.
       Inl (''error returned from database: column '' @ json_quote (map lower_char column) @ '' does not exist'')))"

text \<open>The outcome of a statement is dropped.\<close>

definition ignoring :: "'a pg_action \<Rightarrow> unit h_action" where
  "ignoring m = abind (hdb (atry m)) (\<lambda>_. areturn ())"

subsection \<open>Orders\<close>

definition by_member :: "h_env \<Rightarrow> string \<Rightarrow> string \<Rightarrow> doc_row \<Rightarrow> bool" where
  "by_member he field v r \<longleftrightarrow> sql_eq (member_text (he_pg he) field (d_data r)) (Some v)"

definition find_order_by_payment_intent :: "h_env \<Rightarrow> string \<Rightarrow> json option pg_action" where
  "find_order_by_payment_intent he payment_intent_id =
     select_first he ''orders'' (by_member he ''paymentIntentId'' payment_intent_id)"

definition find_order_by_metadata_id :: "h_env \<Rightarrow> string \<Rightarrow> json option pg_action" where
  "find_order_by_metadata_id he order_id =
     (let order_key = (case strip_prefix ''orders:'' order_id of Some k \<Rightarrow> k | None \<Rightarrow> order_id)
      in select_first he ''orders'' (\<lambda>r. d_id r = order_key \<or> d_id r = order_id \<or> by_member he ''orderId'' order_key r))"

definition has_status :: "h_env \<Rightarrow> string \<Rightarrow> string \<Rightarrow> doc_row \<Rightarrow> bool" where
  "has_status he order_id expected_status r \<longleftrightarrow>
     d_id r = order_id \<and>
     (case member_text (he_pg he) ''orderStatus'' (d_data r) of Some t \<Rightarrow> t | None \<Rightarrow> []) = expected_status"

definition wh_update_order_status :: "h_env \<Rightarrow> h_io \<Rightarrow> string \<Rightarrow> OrderStatus \<Rightarrow> OrderStatus \<Rightarrow> bool h_action" where
  "wh_update_order_status he io order_id expected_status new_status =
     hdb (update_where ''orders'' (io_db_now io 1) (has_status he order_id (OrderStatus_as_str expected_status))
       [(''orderStatus'', OrderStatus_as_str new_status), (''updatedAt'', io_now io 1)])"

text \<open>One item: three attempts to add its quantity to the stock that was read.\<close>

fun restore_attempts :: "h_env \<Rightarrow> h_io \<Rightarrow> string \<Rightarrow> int \<Rightarrow> nat \<Rightarrow> bool h_action" where
  "restore_attempts he io pid qty 0 = areturn False"
| "restore_attempts he io pid qty (Suc n) =
     abind (hdb (atry (get_document (he_pg he) ''products'' pid))) (\<lambda>r.
     let current_stock = i64_field (case r of Inr d \<Rightarrow> d | Inl _ \<Rightarrow> JNull) ''stockQuantity'' in
     abind (hdb (update_document_cas (he_pg he) (io_db_now io (20 + n)) ''products'' pid
       (json_obj [(''stockQuantity'', json_int (wrap_i64 (current_stock + qty)))])
       ''stockQuantity'' (json_int current_stock))) (\<lambda>cas_result.
     if cas_result \<noteq> None then areturn True else restore_attempts he io pid qty n))"

fun restore_order_items :: "h_env \<Rightarrow> h_io \<Rightarrow> json list \<Rightarrow> unit h_action" where
  "restore_order_items he io [] = areturn ()"
| "restore_order_items he io (item # items) =
     (let pid = str_field item ''productId''; qty = item_quantity item in
      if pid = [] \<or> qty \<le> 0 then restore_order_items he io items
      else
        abind (restore_attempts he io pid qty 3) (\<lambda>restored.
        if \<not> restored then athrow (Fail (Database (''Failed to restore stock for product '' @ pid)))
        else restore_order_items he io items))"

definition restore_stock_for_order :: "h_env \<Rightarrow> h_io \<Rightarrow> json \<Rightarrow> unit h_action" where
  "restore_stock_for_order he io order =
     abind (hres (ok_or (Validation ''Order missing id'') (jget_str ''id'' order))) (\<lambda>_.
     restore_order_items he io (items_array order))"

definition wh_uppercase :: "wh_io \<Rightarrow> string \<Rightarrow> string" where
  "wh_uppercase wi s = (if is_ascii_str s then map upper_char s else wh_upper wi s)"

definition mark_coupon_redeemed :: "h_env \<Rightarrow> h_io \<Rightarrow> wh_io \<Rightarrow> string \<Rightarrow> string \<Rightarrow> unit h_action" where
  "mark_coupon_redeemed he io wi order_id coupon_code =
     (if coupon_code = [] then areturn ()
      else
        abind (hdb (update_where ''coupon_uses'' (io_db_now io 3)
          (\<lambda>r. by_member he ''orderId'' order_id r \<and> by_member he ''couponCode'' (wh_uppercase wi coupon_code) r)
          [(''redeemedAt'', io_now io 3)])) (\<lambda>_. areturn ()))"

definition release_coupon_reservation :: "h_env \<Rightarrow> string \<Rightarrow> unit h_action" where
  "release_coupon_reservation he order_id =
     ignoring (delete_where ''coupon_uses''
       (\<lambda>r. by_member he ''orderId'' order_id r \<and> member_text (he_pg he) ''redeemedAt'' (d_data r) = None))"

subsection \<open>Refund records\<close>

record RefundRecordInput =
  rr_refund_id :: string
  rr_amount_cents :: int
  rr_currency :: string
  rr_status :: string
  rr_payment_intent_id :: string
  rr_reason :: string
  rr_failure_reason :: "string option"

definition refund_record :: "h_io \<Rightarrow> RefundRecordInput \<Rightarrow> bool \<Rightarrow> json" where
  "refund_record io refund is_new =
     json_obj ([(''stripeRefundId'', JString (rr_refund_id refund)),
       (''amountCents'', json_int (rr_amount_cents refund)),
       (''currency'', JString (rr_currency refund)),
       (''stripeRefundStatus'', JString (rr_status refund)),
       (''paymentIntentId'', JString (rr_payment_intent_id refund)),
       (''reason'', JString (rr_reason refund)),
       (''updatedAt'', JString (io_now io 2))] @
       opt_member ''refundFailureReason'' (rr_failure_reason refund) @
       (if is_new then [(''createdAt'', json_int (io_secs io)), (''createdAtIso'', JString (io_now io 2))] else []))"

definition is_empty_doc :: "json \<Rightarrow> bool" where
  "is_empty_doc v \<longleftrightarrow> is_null v \<or> (case as_object v of Some m \<Rightarrow> m = [] | None \<Rightarrow> True)"

definition upsert_refund_record :: "h_env \<Rightarrow> h_io \<Rightarrow> RefundRecordInput \<Rightarrow> unit h_action" where
  "upsert_refund_record he io refund =
     abind (hdb (atry (get_document (he_pg he) ''refunds'' (rr_refund_id refund)))) (\<lambda>r.
     let existing = (case r of Inr d \<Rightarrow> d | Inl _ \<Rightarrow> JNull) in
     abind (hdb (upsert_document (he_pg he) (io_db_now io 2) ''refunds'' (rr_refund_id refund)
       (refund_record io refund (is_empty_doc existing)))) (\<lambda>_. areturn ()))"

definition mark_order_refund_failure :: "h_env \<Rightarrow> h_io \<Rightarrow> string \<Rightarrow> string \<Rightarrow> unit h_action" where
  "mark_order_refund_failure he io payment_intent_id failure_reason =
     (if payment_intent_id = [] then areturn ()
      else
        abind (hdb (find_order_by_payment_intent he payment_intent_id)) (\<lambda>found.
        case found of
          None \<Rightarrow> areturn ()
        | Some order \<Rightarrow>
            let order_id = str_field order ''id'' in
            if order_id = [] then areturn ()
            else
              abind (hdb (update_document (he_pg he) (io_db_now io 4) ''orders'' order_id
                (json_obj [(''requiresManualReview'', JBool True), (''refundFailureReason'', JString failure_reason),
                  (''updatedAt'', JString (io_now io 2))]))) (\<lambda>_. areturn ())))"

definition refund_state_update :: "h_io \<Rightarrow> string option \<Rightarrow> int \<Rightarrow> bool \<Rightarrow> json" where
  "refund_state_update io refund_id refunded_amount_cents is_full_refund =
     json_obj ([(''refundedAmountCents'', json_int refunded_amount_cents),
       (''paymentStatus'', JString (PaymentStatus_as_str (if is_full_refund then PayRefunded else PayPartialRefund))),
       (''orderStatus'', JString (OrderStatus_as_str (if is_full_refund then Refunded else PartiallyRefunded))),
       (''updatedAt'', JString (io_now io 2))] @
       (if is_full_refund then [(''refundedAt'', JString (io_now io 2)), (''stockRestored'', JBool True)] else []) @
       opt_member ''refundId'' refund_id)"

definition sync_order_refund_state :: "h_env \<Rightarrow> h_io \<Rightarrow> string \<Rightarrow> string option \<Rightarrow> int \<Rightarrow> unit h_action" where
  "sync_order_refund_state he io payment_intent_id refund_id refunded_amount_cents =
     (if payment_intent_id = [] then areturn ()
      else
        abind (hdb (find_order_by_payment_intent he payment_intent_id)) (\<lambda>found.
        case found of
          None \<Rightarrow> areturn ()
        | Some order \<Rightarrow>
            abind (hres (ok_or (Validation ''Order missing id'') (jget_str ''id'' order))) (\<lambda>order_id.
            let total_amount_cents = i64_field order ''totalAmountCents'';
                is_full_refund = (total_amount_cents \<le> refunded_amount_cents \<and> 0 < total_amount_cents) in
            if total_amount_cents < refunded_amount_cents
            then athrow (Fail (Validation (''Refund amount '' @ int_to_string refunded_amount_cents @
              '' exceeds order total '' @ int_to_string total_amount_cents)))
            else
              abind (if is_full_refund \<and> \<not> bool_field order ''stockRestored''
                     then restore_stock_for_order he io order else areturn ()) (\<lambda>_.
              abind (hdb (update_document (he_pg he) (io_db_now io 5) ''orders'' order_id
                (refund_state_update io refund_id refunded_amount_cents is_full_refund))) (\<lambda>_. areturn ())))))"

text \<open>The sum of the amounts, wrapping as in a release build.\<close>

definition succeeded_cents :: "json list \<Rightarrow> int" where
  "succeeded_cents refunds =
     fold (\<lambda>refund acc. wrap_i64 (acc + i64_field refund ''amountCents''))
       (filter (\<lambda>refund. jget_str ''stripeRefundStatus'' refund = Some ''succeeded'') refunds) 0"

definition refunds_of_intent :: "h_env \<Rightarrow> string \<Rightarrow> json list pg_action" where
  "refunds_of_intent he payment_intent_id =
     abind (atry (ensure_table ''refunds'')) (\<lambda>_.
     pg_exec ''Query failed: '' ''refunds'' (\<lambda>rs.
       Inr (map (inject_document_metadata (he_pg he)) (filter (by_member he ''paymentIntentId'' payment_intent_id) rs), rs)))"

definition sync_order_refund_state_from_records :: "h_env \<Rightarrow> h_io \<Rightarrow> string \<Rightarrow> string option \<Rightarrow> unit h_action" where
  "sync_order_refund_state_from_records he io payment_intent_id refund_id =
     (if payment_intent_id = [] then areturn ()
      else
        abind (hdb (atry (refunds_of_intent he payment_intent_id))) (\<lambda>r.
        let refunded_amount_cents = succeeded_cents (case r of Inr rows \<Rightarrow> rows | Inl _ \<Rightarrow> []) in
        if 0 < refunded_amount_cents
        then sync_order_refund_state he io payment_intent_id refund_id refunded_amount_cents
        else areturn ()))"

end
