(* ===== verification/Subscriptions.thy ===== *)
theory Subscriptions
  imports Webhooks
begin

text \<open>
  Premium subscriptions (\<open>crates/ob-handlers/src/payments/subscriptions.rs\<close>): the five endpoints and
  the handlers of the provider's subscription events. The provider's answers (a function of the
  path and the form of a request), PostgreSQL's reading of raw statements, the parser and the
  printer of timestamps, \<open>trim\<close> outside ASCII and the clocks are the fields of \<open>sub_io\<close>.
\<close>

subsection \<open>Requests and responses\<close>

record CreateSubscriptionRequest =
  cs_user_id :: "string option"
  cs_interval :: "string option"
  cs_payment_method_id :: "string option"

record CreateSubscriptionResponse =
  cs_success :: bool
  cs_subscription_id :: "string option"
  cs_checkout_url :: "string option"
  cs_client_secret :: "string option"
  cs_status :: string

record SubscriptionStatusResponse =
  ss_success :: bool
  ss_is_premium :: bool
  ss_status :: string
  ss_current_period_end :: "string option"
  ss_stripe_subscription_id :: "string option"

datatype SubscriptionStatus = SubActive | SubCancelled | SubCancelPending | SubPastDue | SubExpired

fun SubscriptionStatus_as_str :: "SubscriptionStatus \<Rightarrow> string" where
  "SubscriptionStatus_as_str SubActive = ''active''"
| "SubscriptionStatus_as_str SubCancelled = ''cancelled''"
| "SubscriptionStatus_as_str SubCancelPending = ''cancel_pending''"
| "SubscriptionStatus_as_str SubPastDue = ''past_due''"
| "SubscriptionStatus_as_str SubExpired = ''expired''"

record http_reply =
  hr_ok :: bool
  hr_text :: string
  hr_json :: "string + json"

record sub_io =
  sb_key :: bool
  sb_post :: "string \<Rightarrow> (string \<times> string) list \<Rightarrow> string + http_reply"
  sb_base_url :: string
  sb_trim :: "string \<Rightarrow> string"
  sb_raw_select :: "string \<Rightarrow> doc_row list \<Rightarrow> string + doc_row list"
  sb_parse_rfc3339 :: "string \<Rightarrow> int option"
  sb_from_timestamp :: "int \<Rightarrow> string option"
  sb_now_ts :: int

definition PREMIUM_SUBSCRIPTION_PRICE_CAD :: f64 where
  "PREMIUM_SUBSCRIPTION_PRICE_CAD = f64_of_rat (786 / 100)"

definition PREMIUM_PRICE_CENTS :: int where
  "PREMIUM_PRICE_CENTS = f64_as_i64 (f64_mul PREMIUM_SUBSCRIPTION_PRICE_CAD (Finite 100))"

definition SUBSCRIPTION_BENEFITS_DELAY_HOURS :: int where "SUBSCRIPTION_BENEFITS_DELAY_HOURS = 48"
definition MAX_EARLY_CANCELS :: int where "MAX_EARLY_CANCELS = 3"
definition EARLY_CANCEL_DAYS :: int where "EARLY_CANCEL_DAYS = 7"

definition ascii_trim :: "string \<Rightarrow> string" where
  "ascii_trim s = rev (dropWhile ascii_space (rev (dropWhile ascii_space s)))"

definition normalize_subscription_interval :: "sub_io \<Rightarrow> string option \<Rightarrow> string ob_result" where
  "normalize_subscription_interval sb interval =
     (let given = (case interval of Some i \<Rightarrow> i | None \<Rightarrow> ''monthly'');
          word = map lower_char (if is_ascii_str given then ascii_trim given else sb_trim sb given)
      in if word \<in> {''month'', ''monthly''} then Inr ''month''
         else if word \<in> {''year'', ''yearly'', ''annual'', ''annually''} then Inr ''year''
         else Inl (Validation (''interval must be one of monthly/yearly; got '' @ word)))"

subsection \<open>The payment provider\<close>

definition stripe_secret :: "sub_io \<Rightarrow> unit ob_result" where
  "stripe_secret sb = (if sb_key sb then Inr () else Inl (Config ''Missing required secret: stripe_secret_key''))"

definition stripe_post :: "sub_io \<Rightarrow> string \<Rightarrow> (string \<times> string) list \<Rightarrow> http_reply h_action" where
  "stripe_post sb path form =
     abind (notify (StripePost path form)) (\<lambda>_.
     hres (map_err (\<lambda>e. Internal (''Stripe API error: '' @ e)) (sb_post sb path form)))"

definition reply_json :: "http_reply \<Rightarrow> json ob_result" where
  "reply_json reply = map_err (\<lambda>e. Internal (''Parse error: '' @ e)) (hr_json reply)"

definition member_or_null :: "string \<Rightarrow> json \<Rightarrow> json" where
  "member_or_null k v = (case jget k v of Some x \<Rightarrow> x | None \<Rightarrow> JNull)"

definition ensure_customer :: "h_env \<Rightarrow> h_io \<Rightarrow> sub_io \<Rightarrow> string \<Rightarrow> string h_action" where
  "ensure_customer he io sb user =
     abind (hdb (amap_err (\<lambda>_. NotFound (''User '' @ user @ '' not found'')) (get_document (he_pg he) ''users'' user))) (\<lambda>doc.
     if str_field doc ''customerId'' \<noteq> [] then areturn (str_field doc ''customerId'')
     else
       abind (stripe_post sb ''/customers''
         [(''email'', str_field doc ''email''), (''name'', str_field doc ''name''), (''metadata[user_id]'', user)]) (\<lambda>resp.
       if \<not> hr_ok resp then athrow (Fail (Internal ''Failed to create Stripe customer''))
       else
         abind (hres (reply_json resp)) (\<lambda>customer.
         abind (hres (ok_or (Internal ''Missing customer ID from Stripe'') (jget_str ''id'' customer))) (\<lambda>customer_id.
         abind (hdb (update_document (he_pg he) (io_db_now io 1) ''users'' user
           (json_obj [(''customerId'', JString customer_id), (''updatedAt'', JString (io_now io 1))]))) (\<lambda>_.
         areturn customer_id)))))"

subsection \<open>Reading subscriptions\<close>

definition raw_user_id :: "string \<Rightarrow> string" where
  "raw_user_id user = (case strip_prefix ''users:'' user of Some u \<Rightarrow> u | None \<Rightarrow> user)"

definition quoted :: "string \<Rightarrow> string" where
  "quoted v = [CHR 0x27] @ escape_sql_string v @ [CHR 0x27]"

text \<open>A raw \<open>SELECT\<close> of one row: its text is given to the database.\<close>

definition raw_select_first ::
  "h_env \<Rightarrow> (string \<Rightarrow> doc_row list \<Rightarrow> string + doc_row list) \<Rightarrow> string \<Rightarrow> string \<Rightarrow> json option pg_action" where
  "raw_select_first he raw table sql =
     abind (atry (ensure_table table)) (\<lambda>_.
     pg_exec ''Query failed: '' table (\<lambda>rs.
       rbind (raw sql rs) (\<lambda>hits.
       Inr (case hits of [] \<Rightarrow> None | r # _ \<Rightarrow> Some (inject_document_metadata (he_pg he) r), rs))))"

definition subscription_sql :: "string \<Rightarrow> string" where
  "subscription_sql user =
     (let q = [CHR 0x27] in
      ''SELECT * FROM subscriptions WHERE data->>'' @ q @ ''buyerId'' @ q @ '' = '' @ quoted user @
      '' ORDER BY data->>'' @ q @ ''createdAt'' @ q @ '' DESC LIMIT 1'')"

definition get_user_subscription :: "h_env \<Rightarrow> sub_io \<Rightarrow> string \<Rightarrow> json option pg_action" where
  "get_user_subscription he sb user =
     abind (atry (get_document (he_pg he) ''subscriptions'' (raw_user_id user))) (\<lambda>r.
     case r of
       Inr doc \<Rightarrow> areturn (Some doc)
     | Inl _ \<Rightarrow>
         abind (alift (validate_record_id user)) (\<lambda>_.
         raw_select_first he (sb_raw_select sb) ''subscriptions'' (subscription_sql user)))"

definition sub_doc_status :: "string \<Rightarrow> json \<Rightarrow> string" where
  "sub_doc_status missing doc =
     (case Option.bind (case jget ''status'' doc of Some v \<Rightarrow> Some v | None \<Rightarrow> jget ''subscriptionStatus'' doc) as_str of
        Some s \<Rightarrow> s
      | None \<Rightarrow> missing)"

definition is_active_of :: "h_env \<Rightarrow> string \<Rightarrow> doc_row \<Rightarrow> bool" where
  "is_active_of he user r \<longleftrightarrow>
     by_member he ''buyerId'' user r \<and> (by_member he ''status'' ''active'' r \<or> by_member he ''subscriptionStatus'' ''active'' r)"

subsection \<open>\<open>create_subscription\<close>\<close>

text \<open>\<open>SELECT earlyCancelCount FROM users WHERE id = $uid\<close>; an error counts as no row.\<close>

definition early_cancel_count :: "int h_action" where
  "early_cancel_count =
     abind (hdb (atry (unknown_column ''users'' ''earlyCancelCount''))) (\<lambda>r.
     areturn (case r of Inr (row # _) \<Rightarrow> i64_field row ''earlyCancelCount'' | _ \<Rightarrow> 0))"

definition premium_checkout_form :: "sub_io \<Rightarrow> string \<Rightarrow> string \<Rightarrow> string \<Rightarrow> (string \<times> string) list" where
  "premium_checkout_form sb customer_id interval user =
     [(''customer'', customer_id),
      (''line_items[0][price_data][currency]'', ''cad''),
      (''line_items[0][price_data][unit_amount]'', int_to_string PREMIUM_PRICE_CENTS),
      (''line_items[0][price_data][product_data][name]'', ''Origna Premium Subscription''),
      (''line_items[0][quantity]'', ''1''),
      (''line_items[0][price_data][recurring][interval]'', interval),
      (''mode'', ''subscription''),
      (''success_url'', sb_base_url sb @ ''/subscription/success?session_id={CHECKOUT_SESSION_ID}''),
      (''cancel_url'', sb_base_url sb @ ''/subscription/cancel''),
      (''client_reference_id'', user),
      (''metadata[uid]'', user),
      (''subscription_data[metadata][uid]'', user),
      (''payment_method_types[0]'', ''card'')]"

definition is_seller_account :: "json \<Rightarrow> bool" where
  "is_seller_account doc =
     list_ex (\<lambda>v. as_str v = Some ''seller'') (case jget_array ''roles'' doc of Some vs \<Rightarrow> vs | None \<Rightarrow> [])"

definition subscribe_by_checkout ::
  "h_env \<Rightarrow> h_io \<Rightarrow> sub_io \<Rightarrow> string \<Rightarrow> string \<Rightarrow> string \<Rightarrow> CreateSubscriptionResponse h_action" where
  "subscribe_by_checkout he io sb user interval customer_id =
     abind (hdb (get_document (he_pg he) ''users'' user)) (\<lambda>doc.
     if is_seller_account doc then athrow (Fail (Validation ''Seller accounts cannot currently subscribe to Premium.''))
     else
       abind (stripe_post sb ''/checkout/sessions'' (premium_checkout_form sb customer_id interval user)) (\<lambda>resp.
       if \<not> hr_ok resp then athrow (Fail (Internal ''Failed to create subscription checkout session''))
       else
         abind (hres (reply_json resp)) (\<lambda>session.
         if str_field session ''url'' = [] then athrow (Fail (Internal ''Stripe did not return a checkout URL''))
         else
           abind (ignoring (update_document (he_pg he) (io_db_now io 2) ''users'' user
             (json_obj [(''lastCheckoutSession'', JString (str_field session ''url'')),
               (''lastCheckoutTimestamp'', JString (io_now io 2)), (''updatedAt'', JString (io_now io 2))]))) (\<lambda>_.
           areturn \<lparr>cs_success = True, cs_subscription_id = Some (str_field session ''id''),
             cs_checkout_url = Some (str_field session ''url''), cs_client_secret = None,
             cs_status = ''checkout_pending''\<rparr>))))"

definition premium_form :: "string \<Rightarrow> string \<Rightarrow> string \<Rightarrow> (string \<times> string) list" where
  "premium_form customer_id interval user =
     [(''customer'', customer_id),
      (''items[0][price_data][currency]'', ''cad''),
      (''items[0][price_data][unit_amount]'', int_to_string PREMIUM_PRICE_CENTS),
      (''items[0][price_data][recurring][interval]'', interval),
      (''items[0][price_data][product_data][name]'', ''Origna Premium Subscription''),
      (''payment_behavior'', ''default_incomplete''),
      (''expand[0]'', ''latest_invoice.payment_intent''),
      (''metadata[user_id]'', user)]"

text \<open>The stored document; none of its members is null, so the filter of nulls keeps it as it is.\<close>

definition subscription_document :: "h_io \<Rightarrow> sub_io \<Rightarrow> string \<Rightarrow> json \<Rightarrow> json" where
  "subscription_document io sb user sub =
     (let status = (if jget_str ''status'' sub = Some (SubscriptionStatus_as_str SubActive) then ''active'' else ''incomplete'') in
      json_obj [(''buyerId'', JString user), (''stripeSubscriptionId'', JString (str_field sub ''id'')),
        (''status'', JString status), (''subscriptionStatus'', JString status),
        (''currentPeriodEnd'', json_int (i64_field sub ''current_period_end'')),
        (''cancelAtPeriodEnd'', JBool False),
        (''benefitsActiveAt'', json_int (wrap_i64 (sb_now_ts sb + SUBSCRIPTION_BENEFITS_DELAY_HOURS * 3600))),
        (''createdAt'', JString (io_now io 3)), (''updatedAt'', JString (io_now io 3))])"

definition client_secret_of :: "json \<Rightarrow> string option" where
  "client_secret_of sub =
     as_str (member_or_null ''client_secret'' (member_or_null ''payment_intent'' (member_or_null ''latest_invoice'' sub)))"

definition subscribe_by_method ::
  "h_env \<Rightarrow> h_io \<Rightarrow> sub_io \<Rightarrow> string \<Rightarrow> string \<Rightarrow> string \<Rightarrow> string \<Rightarrow> CreateSubscriptionResponse h_action" where
  "subscribe_by_method he io sb user interval customer_id payment_method =
     abind (stripe_post sb (''/payment_methods/'' @ payment_method @ ''/attach'') [(''customer'', customer_id)]) (\<lambda>attach.
     if \<not> hr_ok attach \<and> \<not> contains_str ''already been attached'' (hr_text attach)
     then athrow (Fail (Internal ''Failed to attach payment method''))
     else
       abind (atry (stripe_post sb (''/customers/'' @ customer_id)
         [(''invoice_settings[default_payment_method]'', payment_method)])) (\<lambda>_.
       abind (stripe_post sb ''/subscriptions'' (premium_form customer_id interval user)) (\<lambda>resp.
       if \<not> hr_ok resp then athrow (Fail (Internal ''Failed to create subscription''))
       else
         abind (hres (reply_json resp)) (\<lambda>sub.
         let sub_status = (case jget_str ''status'' sub of Some t \<Rightarrow> t | None \<Rightarrow> ''incomplete'') in
         abind (hdb (amap_err (db_failed ''Failed to store subscription: '')
           (upsert_document (he_pg he) (io_db_now io 3) ''subscriptions'' (raw_user_id user)
             (subscription_document io sb user sub)))) (\<lambda>_.
         abind (if sub_status = SubscriptionStatus_as_str SubActive
                then ignoring (update_document (he_pg he) (io_db_now io 4) ''users'' user
                  (json_obj [(''isPremium'', JBool True), (''updatedAt'', JString (io_now io 3))]))
                else areturn ()) (\<lambda>_.
         areturn \<lparr>cs_success = True, cs_subscription_id = Some (str_field sub ''id''), cs_checkout_url = None,
           cs_client_secret = client_secret_of sub, cs_status = sub_status\<rparr>))))))"

definition no_active_subscription :: "h_env \<Rightarrow> string \<Rightarrow> unit h_action" where
  "no_active_subscription he user =
     abind (hdb (select_first he ''subscriptions'' (is_active_of he user))) (\<lambda>found.
     case found of
       None \<Rightarrow> areturn ()
     | Some existing \<Rightarrow>
         athrow (Fail (Validation (''User already has an active subscription: '' @
           (case jget_str ''id'' existing of Some i \<Rightarrow> i | None \<Rightarrow> ''unknown'')))))"

definition create_subscription ::
  "h_env \<Rightarrow> h_io \<Rightarrow> sub_io \<Rightarrow> AuthContext \<Rightarrow> CreateSubscriptionRequest \<Rightarrow> CreateSubscriptionResponse h_action" where
  "create_subscription he io sb auth req =
     abind (hres (resolve_self_user_id auth (cs_user_id req) ''userId'')) (\<lambda>user.
     abind (hres (normalize_subscription_interval sb (cs_interval req))) (\<lambda>interval.
     abind (hres (validate_uid ''userId'' user)) (\<lambda>_.
     abind (hres (case cs_payment_method_id req of
         Some pm \<Rightarrow> validate_uid ''paymentMethodId'' pm | None \<Rightarrow> Inr ())) (\<lambda>_.
     abind (hdb (check_user_rate_limit he io user ''create_subscription'' 5 60)) (\<lambda>_.
     abind early_cancel_count (\<lambda>count.
     if MAX_EARLY_CANCELS \<le> count
     then athrow (Fail (Validation ''Too many short-term subscriptions. Please contact support@orignagta.ca.''))
     else
       abind (no_active_subscription he user) (\<lambda>_.
       abind (hres (stripe_secret sb)) (\<lambda>_.
       abind (ensure_customer he io sb user) (\<lambda>customer_id.
       case cs_payment_method_id req of
         None \<Rightarrow> subscribe_by_checkout he io sb user interval customer_id
       | Some pm \<Rightarrow> subscribe_by_method he io sb user interval customer_id pm)))))))))"

subsection \<open>\<open>cancel_subscription\<close>\<close>

definition subscription_of_caller :: "h_env \<Rightarrow> sub_io \<Rightarrow> string \<Rightarrow> (json \<times> string) h_action" where
  "subscription_of_caller he sb user =
     abind (hdb (get_user_subscription he sb user)) (\<lambda>found.
     abind (hres (ok_or (NotFound ''No subscription found'') found)) (\<lambda>doc.
     if str_field doc ''stripeSubscriptionId'' = [] then athrow (Fail (Internal ''Subscription has no Stripe ID''))
     else areturn (doc, str_field doc ''stripeSubscriptionId'')))"

text \<open>
  The counter of early cancellations: \<open>UPDATE users:uid SET earlyCancelCount += 1\<close> is not a statement
  PostgreSQL can parse, and its outcome is dropped.
\<close>

definition malformed_stmt :: "unit pg_action" where
  "malformed_stmt = pg_exec ''Query failed: '' [] (\<lambda>rs.
     Inl (''error returned from database: syntax error at or near '' @ json_quote '':''))"

definition cancel_pending_document :: "h_io \<Rightarrow> sub_io \<Rightarrow> json \<Rightarrow> json" where
  "cancel_pending_document io sb doc =
     json_obj [(''status'', JString (SubscriptionStatus_as_str SubCancelPending)),
       (''subscriptionStatus'', JString (SubscriptionStatus_as_str SubCancelPending)),
       (''cancelAtPeriodEnd'', JBool True), (''cancelledAt'', JString (io_now io 1)),
       (''cancelsAt'', json_int (case jget_i64 ''currentPeriodEnd'' doc of Some p \<Rightarrow> p | None \<Rightarrow> sb_now_ts sb)),
       (''updatedAt'', JString (io_now io 1))]"

definition days_active :: "sub_io \<Rightarrow> json \<Rightarrow> int" where
  "days_active sb doc =
     (let created = (case Option.bind (jget_str ''createdAt'' doc) (sb_parse_rfc3339 sb) of Some t \<Rightarrow> t | None \<Rightarrow> 0)
      in i64_div (wrap_i64 (sb_now_ts sb - created)) 86400)"

definition cancel_subscription :: "h_env \<Rightarrow> h_io \<Rightarrow> sub_io \<Rightarrow> AuthContext \<Rightarrow> string option \<Rightarrow> (bool \<times> string) h_action" where
  "cancel_subscription he io sb auth user_id =
     abind (hres (resolve_self_user_id auth user_id ''userId'')) (\<lambda>user.
     abind (hres (validate_uid ''userId'' user)) (\<lambda>_.
     abind (hdb (check_user_rate_limit he io user ''cancel_subscription'' 5 60)) (\<lambda>_.
     abind (subscription_of_caller he sb user) (\<lambda>(doc, stripe_sub_id).
     if sub_doc_status [] doc = SubscriptionStatus_as_str SubCancelled
     then areturn (True, SubscriptionStatus_as_str SubCancelled)
     else
       abind (hres (stripe_secret sb)) (\<lambda>_.
       abind (stripe_post sb (''/subscriptions/'' @ stripe_sub_id) [(''cancel_at_period_end'', ''true'')]) (\<lambda>resp.
       if \<not> hr_ok resp then athrow (Fail (Internal ''Failed to cancel subscription''))
       else
         abind (if days_active sb doc < EARLY_CANCEL_DAYS then ignoring malformed_stmt else areturn ()) (\<lambda>_.
         abind (ignoring (update_document (he_pg he) (io_db_now io 1) ''subscriptions'' (raw_user_id user)
           (cancel_pending_document io sb doc))) (\<lambda>_.
         areturn (True, SubscriptionStatus_as_str SubCancelPending)))))))))"

subsection \<open>\<open>subscription_status\<close>\<close>

definition subscription_status ::
  "h_env \<Rightarrow> h_io \<Rightarrow> sub_io \<Rightarrow> AuthContext \<Rightarrow> string option \<Rightarrow> SubscriptionStatusResponse h_action" where
  "subscription_status he io sb auth user_id =
     abind (hres (resolve_self_user_id auth user_id ''userId'')) (\<lambda>user.
     abind (hres (validate_uid ''userId'' user)) (\<lambda>_.
     abind (hdb (check_user_rate_limit he io user ''subscription_status'' 30 1)) (\<lambda>_.
     abind (hdb (get_user_subscription he sb user)) (\<lambda>found.
     areturn (case found of
         None \<Rightarrow> \<lparr>ss_success = True, ss_is_premium = False, ss_status = ''none'', ss_current_period_end = None,
                   ss_stripe_subscription_id = None\<rparr>
       | Some doc \<Rightarrow>
           \<lparr>ss_success = True,
            ss_is_premium = (sub_doc_status ''unknown'' doc = SubscriptionStatus_as_str SubActive),
            ss_status = sub_doc_status ''unknown'' doc,
            ss_current_period_end = map_option (\<lambda>ts. case sb_from_timestamp sb ts of Some t \<Rightarrow> t | None \<Rightarrow> [])
              (jget_i64 ''currentPeriodEnd'' doc),
            ss_stripe_subscription_id = jget_str ''stripeSubscriptionId'' doc\<rparr>)))))"

subsection \<open>\<open>reactivate_subscription\<close>\<close>

definition reactivate_subscription :: "h_env \<Rightarrow> h_io \<Rightarrow> sub_io \<Rightarrow> AuthContext \<Rightarrow> string option \<Rightarrow> (bool \<times> string) h_action" where
  "reactivate_subscription he io sb auth user_id =
     abind (hres (resolve_self_user_id auth user_id ''userId'')) (\<lambda>user.
     abind (hres (validate_uid ''userId'' user)) (\<lambda>_.
     abind (hdb (check_user_rate_limit he io user ''reactivate_subscription'' 5 60)) (\<lambda>_.
     abind (subscription_of_caller he sb user) (\<lambda>(doc, stripe_sub_id).
     if sub_doc_status [] doc = SubscriptionStatus_as_str SubActive
     then areturn (True, SubscriptionStatus_as_str SubActive)
     else if sub_doc_status [] doc = SubscriptionStatus_as_str SubExpired
     then athrow (Fail (Validation ''Cannot reactivate an expired subscription. Please create a new one.''))
     else
       abind (hres (stripe_secret sb)) (\<lambda>_.
       abind (stripe_post sb (''/subscriptions/'' @ stripe_sub_id) [(''cancel_at_period_end'', ''false'')]) (\<lambda>resp.
       if \<not> hr_ok resp then athrow (Fail (Internal ''Failed to reactivate subscription''))
       else
         abind (ignoring (update_document (he_pg he) (io_db_now io 1) ''subscriptions'' (raw_user_id user)
           (json_obj [(''status'', JString (SubscriptionStatus_as_str SubActive)),
             (''subscriptionStatus'', JString (SubscriptionStatus_as_str SubActive)),
             (''cancelAtPeriodEnd'', JBool False), (''updatedAt'', JString (io_now io 1))]))) (\<lambda>_.
         abind (ignoring (update_document (he_pg he) (io_db_now io 2) ''users'' user
           (json_obj [(''isPremium'', JBool True), (''updatedAt'', JString (io_now io 1))]))) (\<lambda>_.
         areturn (True, SubscriptionStatus_as_str SubActive)))))))))"

subsection \<open>\<open>update_notification_preferences\<close>\<close>

definition bool_member :: "string \<Rightarrow> bool option \<Rightarrow> (string \<times> json) list" where
  "bool_member k v = (case v of Some b \<Rightarrow> [(k, JBool b)] | None \<Rightarrow> [])"

definition update_notification_preferences ::
  "h_env \<Rightarrow> h_io \<Rightarrow> AuthContext \<Rightarrow> string option \<Rightarrow> bool option \<Rightarrow> bool option \<Rightarrow> json h_action" where
  "update_notification_preferences he io auth user_id notify_new_products notify_trending =
     abind (hres (resolve_self_user_id auth user_id ''userId'')) (\<lambda>user.
     abind (hres (validate_uid ''userId'' user)) (\<lambda>_.
     abind (hdb (check_user_rate_limit he io user ''update_notification_preferences'' 10 1)) (\<lambda>_.
     if notify_new_products = None \<and> notify_trending = None
     then athrow (Fail (Validation ''At least one notification preference must be provided''))
     else
       abind (hdb (update_document (he_pg he) (io_db_now io 1) ''users'' user
         (json_obj (bool_member ''notifyNewProducts'' notify_new_products @ bool_member ''notifyTrending'' notify_trending @
           [(''updatedAt'', JString (io_now io 1))])))) (\<lambda>_.
       areturn (json_obj [(''success'', JBool True)])))))"

subsection \<open>Events\<close>

definition customer_sql :: "string \<Rightarrow> string" where
  "customer_sql customer_id =
     (let q = [CHR 0x27] in
      ''SELECT * FROM users WHERE data->>'' @ q @ ''customerId'' @ q @ '' = '' @ quoted customer_id @ '' LIMIT 1'')"

definition find_user_by_customer_id :: "h_env \<Rightarrow> wh_io \<Rightarrow> string \<Rightarrow> json option pg_action" where
  "find_user_by_customer_id he wi customer_id =
     raw_select_first he (wh_raw_select wi) ''users'' (customer_sql customer_id)"

definition extract_customer_id :: "json \<Rightarrow> string option" where
  "extract_customer_id event_data = Option.bind (jget ''object'' event_data) (jget_str ''customer'')"

definition extract_uid :: "json \<Rightarrow> string" where
  "extract_uid doc = (case jget_str ''uid'' doc of Some u \<Rightarrow> u | None \<Rightarrow> str_field doc ''id'')"

text \<open>What the four handlers share: an event without a customer or with an unknown one is accepted.\<close>

definition with_customer :: "h_env \<Rightarrow> wh_io \<Rightarrow> json \<Rightarrow> (string \<Rightarrow> unit h_action) \<Rightarrow> unit h_action" where
  "with_customer he wi event_data f =
     (case extract_customer_id event_data of
        None \<Rightarrow> areturn ()
      | Some customer_id \<Rightarrow>
          abind (hdb (find_user_by_customer_id he wi customer_id)) (\<lambda>found.
          case found of None \<Rightarrow> areturn () | Some doc \<Rightarrow> f (extract_uid doc)))"

definition put_members :: "h_env \<Rightarrow> int \<Rightarrow> string \<Rightarrow> string \<Rightarrow> (string \<times> json) list \<Rightarrow> unit h_action" where
  "put_members he now coll i kvs = abind (hdb (update_document (he_pg he) now coll i (json_obj kvs))) (\<lambda>_. areturn ())"

definition handle_subscription_created :: "h_env \<Rightarrow> h_io \<Rightarrow> wh_io \<Rightarrow> json \<Rightarrow> unit h_action" where
  "handle_subscription_created he io wi event_data =
     with_customer he wi event_data (\<lambda>uid.
       put_members he (io_db_now io 1) ''users'' uid
         [(''isPremium'', JBool True), (''subscriptionStatus'', JString (SubscriptionStatus_as_str SubActive)),
          (''premiumSince'', JString (io_now io 1)), (''updatedAt'', JString (io_now io 1))])"

definition handle_subscription_updated :: "h_env \<Rightarrow> h_io \<Rightarrow> wh_io \<Rightarrow> json \<Rightarrow> unit h_action" where
  "handle_subscription_updated he io wi event_data =
     with_customer he wi event_data (\<lambda>uid.
       let sub_obj = (case jget ''object'' event_data of Some v \<Rightarrow> v | None \<Rightarrow> json_obj []);
           status = (case jget_str ''status'' sub_obj of Some t \<Rightarrow> t | None \<Rightarrow> ''unknown'')
       in put_members he (io_db_now io 1) ''subscriptions'' (raw_user_id uid)
            [(''status'', JString status), (''subscriptionStatus'', JString status),
             (''currentPeriodEnd'', json_int (i64_field sub_obj ''current_period_end'')),
             (''cancelAtPeriodEnd'', JBool (bool_field sub_obj ''cancel_at_period_end'')),
             (''updatedAt'', JString (io_now io 1))])"

definition handle_subscription_deleted :: "h_env \<Rightarrow> h_io \<Rightarrow> wh_io \<Rightarrow> json \<Rightarrow> unit h_action" where
  "handle_subscription_deleted he io wi event_data =
     with_customer he wi event_data (\<lambda>uid.
       abind (put_members he (io_db_now io 1) ''users'' (raw_user_id uid)
         [(''isPremium'', JBool False), (''subscriptionStatus'', JString (SubscriptionStatus_as_str SubCancelled)),
          (''premiumExpiresAt'', JString (io_now io 1)), (''updatedAt'', JString (io_now io 1))]) (\<lambda>_.
       put_members he (io_db_now io 2) ''subscriptions'' (raw_user_id uid)
         [(''status'', JString (SubscriptionStatus_as_str SubCancelled)),
          (''subscriptionStatus'', JString (SubscriptionStatus_as_str SubCancelled)),
          (''updatedAt'', JString (io_now io 1))]))"

definition sub_handle_invoice_payment_failed :: "h_env \<Rightarrow> h_io \<Rightarrow> wh_io \<Rightarrow> json \<Rightarrow> unit h_action" where
  "sub_handle_invoice_payment_failed he io wi event_data =
     with_customer he wi event_data (\<lambda>uid.
       abind (put_members he (io_db_now io 1) ''users'' (raw_user_id uid)
         [(''subscriptionStatus'', JString (SubscriptionStatus_as_str SubPastDue)), (''updatedAt'', JString (io_now io 1))]) (\<lambda>_.
       abind (put_members he (io_db_now io 2) ''subscriptions'' (raw_user_id uid)
         [(''status'', JString (SubscriptionStatus_as_str SubPastDue)),
          (''subscriptionStatus'', JString (SubscriptionStatus_as_str SubPastDue)),
          (''updatedAt'', JString (io_now io 1))]) (\<lambda>_.
       abind (atry (put_members he (io_db_now io 3) ''notifications'' (''notif_payment_failed_'' @ raw_user_id uid)
         [(''buyerId'', JString (raw_user_id uid)), (''notificationType'', JString ''payment_failed''),
          (''status'', JString ''unread''), (''title'', JString ''Payment Failed''),
          (''body'', JString ''Your subscription payment failed. Please update your payment method to keep Premium access.''),
          (''createdAt'', JString (io_now io 1)), (''updatedAt'', JString (io_now io 1))])) (\<lambda>_.
       areturn ()))))"

definition route_subscription_webhook :: "h_env \<Rightarrow> h_io \<Rightarrow> wh_io \<Rightarrow> string \<Rightarrow> json \<Rightarrow> unit h_action" where
  "route_subscription_webhook he io wi event_type event_data =
     (if event_type = ''customer.subscription.created'' then handle_subscription_created he io wi event_data
      else if event_type = ''customer.subscription.updated'' then handle_subscription_updated he io wi event_data
      else if event_type = ''customer.subscription.deleted'' then handle_subscription_deleted he io wi event_data
      else if event_type = ''invoice.payment_failed'' then sub_handle_invoice_payment_failed he io wi event_data
      else areturn ())"

subsection \<open>\<open>is_subscription_benefits_active\<close>\<close>

text \<open>
  The statement selects two texts under aliases and not the column \<open>data\<close>, so the row becomes an
  object of the columns that are not null, each read as a string. A row without any is null.
\<close>

definition alias_row :: "(string \<times> string option) list \<Rightarrow> json" where
  "alias_row cols =
     (case List.map_filter (\<lambda>(k, v). map_option (\<lambda>t. (k, JString t)) v) cols of
        [] \<Rightarrow> JNull
      | kvs \<Rightarrow> json_obj kvs)"

definition benefits_rows :: "h_env \<Rightarrow> string \<Rightarrow> json list pg_action" where
  "benefits_rows he user =
     abind (atry (ensure_table ''subscriptions'')) (\<lambda>_.
     pg_exec ''Query failed: '' ''subscriptions'' (\<lambda>rs.
       Inr (map (\<lambda>r. alias_row [(''benefitsActiveAt'', member_text (he_pg he) ''benefitsActiveAt'' (d_data r)),
                                 (''status'', member_text (he_pg he) ''status'' (d_data r))])
              (take 1 (filter (is_active_of he user) rs)), rs)))"

definition is_subscription_benefits_active :: "h_env \<Rightarrow> sub_io \<Rightarrow> string \<Rightarrow> bool h_action" where
  "is_subscription_benefits_active he sb user =
     abind (hdb (atry (benefits_rows he user))) (\<lambda>r.
     areturn (case r of
         Inr (sub # _) \<Rightarrow> (case jget_i64 ''benefitsActiveAt'' sub of Some t \<Rightarrow> t | None \<Rightarrow> 2 ^ 63 - 1) \<le> sb_now_ts sb
       | _ \<Rightarrow> False))"

end
