(* ===== verification/Webhook_Handlers.thy ===== *)
theory Webhook_Handlers
  imports Subscriptions
begin

text \<open>
  The handlers of the events of the payment provider and their dispatch
  (\<open>crates/ob-handlers/src/payments/webhooks.rs\<close>). Handlers that only write to the trace are \<open>log_only\<close>.
\<close>

subsection \<open>Reading events\<close>

definition event_object :: "json \<Rightarrow> json ob_result" where
  "event_object event_data = ok_or (Validation ''No object in event data'') (jget ''object'' event_data)"

definition str_or :: "string \<Rightarrow> json \<Rightarrow> string \<Rightarrow> string" where
  "str_or missing v field = (case jget_str field v of Some t \<Rightarrow> t | None \<Rightarrow> missing)"

text \<open>The object of an event and its id.\<close>

definition object_with_id :: "string \<Rightarrow> json \<Rightarrow> (json \<times> string) ob_result" where
  "object_with_id missing event_data =
     rbind (event_object event_data) (\<lambda>v.
     rbind (ok_or (Validation missing) (jget_str ''id'' v)) (\<lambda>i. Inr (v, i)))"

text \<open>The order and the coupon named by the metadata of the object.\<close>

definition order_metadata :: "string \<Rightarrow> json \<Rightarrow> (string \<times> string) ob_result" where
  "order_metadata missing v =
     rbind (ok_or (Validation missing) (Option.bind (jget ''metadata'' v) as_object)) (\<lambda>metadata.
     rbind (ok_or (Validation ''No order_id in metadata'') (Option.bind (map_of metadata ''order_id'') as_str)) (\<lambda>order_id.
     Inr (order_id, case Option.bind (map_of metadata ''coupon_code'') as_str of Some c \<Rightarrow> c | None \<Rightarrow> [])))"

definition intent_event :: "json \<Rightarrow> (string \<times> string \<times> string) ob_result" where
  "intent_event event_data =
     rbind (object_with_id ''No payment intent ID'' event_data) (\<lambda>(v, pi_id).
     rbind (order_metadata ''No metadata in payment intent'' v) (\<lambda>(order_id, coupon). Inr (pi_id, order_id, coupon)))"

definition session_event :: "json \<Rightarrow> (string \<times> string \<times> string \<times> string) ob_result" where
  "session_event event_data =
     rbind (object_with_id ''No session ID'' event_data) (\<lambda>(v, session_id).
     rbind (order_metadata ''No metadata in checkout session'' v) (\<lambda>(order_id, coupon).
     Inr (session_id, str_field v ''payment_intent'', order_id, coupon)))"

definition order_of_event :: "h_env \<Rightarrow> string \<Rightarrow> json h_action" where
  "order_of_event he order_id =
     abind (hdb (find_order_by_metadata_id he order_id)) (\<lambda>found.
     hres (ok_or (NotFound (''Order '' @ order_id @ '' not found'')) found))"

definition is_pending :: "json \<Rightarrow> bool" where
  "is_pending order \<longleftrightarrow> str_field order ''orderStatus'' = OrderStatus_as_str PendingPayment"

subsection \<open>Payment intents\<close>

definition handle_payment_intent_succeeded :: "h_env \<Rightarrow> h_io \<Rightarrow> wh_io \<Rightarrow> json \<Rightarrow> unit h_action" where
  "handle_payment_intent_succeeded he io wi event_data =
     abind (hres (intent_event event_data)) (\<lambda>(pi_id, order_id, coupon_code).
     abind (order_of_event he order_id) (\<lambda>order.
     if \<not> is_pending order then areturn ()
     else
       abind (wh_update_order_status he io order_id PendingPayment PaymentAuthorized) (\<lambda>updated.
       if \<not> updated then areturn ()
       else
         abind (hdb (unknown_column ''orders'' ''paymentIntentId'' :: unit pg_action)) (\<lambda>_.
         abind (if coupon_code \<noteq> [] then mark_coupon_redeemed he io wi order_id coupon_code else areturn ()) (\<lambda>_.
         notify (OrderMail order))))))"

text \<open>
  What the handlers of failed, canceled and expired payments share: a pending order gets its new
  status, its stock is given back, and the reservation of its coupon is released. The outcome of
  the conditional update is dropped.
\<close>

definition abandon_order :: "h_env \<Rightarrow> h_io \<Rightarrow> string \<Rightarrow> OrderStatus \<Rightarrow> json \<Rightarrow> unit h_action" where
  "abandon_order he io order_id new_status order =
     abind (if is_pending order
            then abind (wh_update_order_status he io order_id PendingPayment new_status) (\<lambda>_.
                 restore_stock_for_order he io order)
            else areturn ()) (\<lambda>_.
     release_coupon_reservation he order_id)"

definition handle_payment_intent_failed :: "h_env \<Rightarrow> h_io \<Rightarrow> json \<Rightarrow> unit h_action" where
  "handle_payment_intent_failed he io event_data =
     abind (hres (intent_event event_data)) (\<lambda>(pi_id, order_id, coupon_code).
     abind (order_of_event he order_id) (abandon_order he io order_id Cancelled))"

definition handle_payment_intent_canceled :: "h_env \<Rightarrow> h_io \<Rightarrow> json \<Rightarrow> unit h_action" where
  "handle_payment_intent_canceled he io event_data =
     abind (hres (intent_event event_data)) (\<lambda>(pi_id, order_id, coupon_code).
     abind (order_of_event he order_id) (abandon_order he io order_id Cancelled))"

subsection \<open>Charges\<close>

definition log_only :: "json \<Rightarrow> unit h_action" where
  "log_only event_data = areturn ()"

definition handle_charge_refunded :: "h_env \<Rightarrow> h_io \<Rightarrow> json \<Rightarrow> unit h_action" where
  "handle_charge_refunded he io event_data =
     abind (hres (object_with_id ''No charge ID'' event_data)) (\<lambda>(charge, charge_id).
     abind (hres (ok_or (Validation ''No payment intent ID in charge'') (jget_str ''payment_intent'' charge))) (\<lambda>payment_intent_id.
     abind (hres (ok_or (Validation ''No refund amount in charge'') (jget_i64 ''amount_refunded'' charge))) (\<lambda>refunded_amount_cents.
     abind (hdb (find_order_by_payment_intent he payment_intent_id)) (\<lambda>found.
     abind (hres (ok_or (NotFound (''Order not found for payment intent '' @ payment_intent_id)) found)) (\<lambda>_.
     sync_order_refund_state he io payment_intent_id None refunded_amount_cents)))))"

text \<open>The order of a payment intent, for the handlers that carry on without it.\<close>

definition order_id_of_intent :: "h_env \<Rightarrow> string \<Rightarrow> string h_action" where
  "order_id_of_intent he payment_intent_id =
     (if payment_intent_id = [] then areturn []
      else
        abind (hdb (atry (find_order_by_payment_intent he payment_intent_id))) (\<lambda>r.
        areturn (case r of Inr (Some order) \<Rightarrow> str_field order ''id'' | _ \<Rightarrow> [])))"

definition handle_charge_captured :: "h_env \<Rightarrow> json \<Rightarrow> unit h_action" where
  "handle_charge_captured he event_data =
     abind (hres (object_with_id ''No charge ID'' event_data)) (\<lambda>(charge, charge_id).
     abind (order_id_of_intent he (str_field charge ''payment_intent'')) (\<lambda>order_id.
     if order_id = [] then areturn ()
     else ignoring (unknown_column ''orders'' ''paymentStatus'' :: unit pg_action)))"

subsection \<open>Checkout sessions\<close>

definition store_session_ids :: "h_env \<Rightarrow> h_io \<Rightarrow> string \<Rightarrow> string \<Rightarrow> string \<Rightarrow> bool h_action" where
  "store_session_ids he io order_id payment_intent_id session_id =
     hdb (update_where ''orders'' (io_db_now io 2) (\<lambda>r. d_id r = order_id)
       [(''paymentIntentId'', payment_intent_id), (''stripeSessionId'', session_id), (''updatedAt'', io_now io 2)])"

definition clear_cart :: "h_env \<Rightarrow> string \<Rightarrow> unit h_action" where
  "clear_cart he buyer_id =
     (if buyer_id = [] then areturn () else ignoring (delete_where ''cart'' (by_member he ''userId'' buyer_id)))"

definition handle_checkout_session_completed :: "h_env \<Rightarrow> h_io \<Rightarrow> wh_io \<Rightarrow> json \<Rightarrow> unit h_action" where
  "handle_checkout_session_completed he io wi event_data =
     abind (hres (session_event event_data)) (\<lambda>(session_id, payment_intent_id, order_id, coupon_code).
     abind (order_of_event he order_id) (\<lambda>order.
     if \<not> is_pending order then areturn ()
     else
       abind (wh_update_order_status he io order_id PendingPayment PaymentAuthorized) (\<lambda>updated.
       if \<not> updated then areturn ()
       else
         abind (store_session_ids he io order_id payment_intent_id session_id) (\<lambda>_.
         abind (if coupon_code \<noteq> [] then mark_coupon_redeemed he io wi order_id coupon_code else areturn ()) (\<lambda>_.
         abind (clear_cart he (str_field order ''buyerId'')) (\<lambda>_.
         notify (OrderMail order)))))))"

definition handle_checkout_session_expired :: "h_env \<Rightarrow> h_io \<Rightarrow> json \<Rightarrow> unit h_action" where
  "handle_checkout_session_expired he io event_data =
     abind (hres (session_event event_data)) (\<lambda>(session_id, payment_intent_id, order_id, coupon_code).
     abind (order_of_event he order_id) (abandon_order he io order_id Expired))"

definition handle_checkout_session_async_payment_succeeded :: "h_env \<Rightarrow> h_io \<Rightarrow> wh_io \<Rightarrow> json \<Rightarrow> unit h_action" where
  "handle_checkout_session_async_payment_succeeded he io wi event_data =
     handle_checkout_session_completed he io wi event_data"

definition handle_checkout_session_async_payment_failed :: "h_env \<Rightarrow> h_io \<Rightarrow> json \<Rightarrow> unit h_action" where
  "handle_checkout_session_async_payment_failed he io event_data =
     abind (hres (session_event event_data)) (\<lambda>(session_id, payment_intent_id, order_id, coupon_code).
     abind (order_of_event he order_id) (\<lambda>order.
     abind (if is_pending order then wh_update_order_status he io order_id PendingPayment Failed else areturn False) (\<lambda>_.
     release_coupon_reservation he order_id)))"

subsection \<open>Disputes\<close>

definition handle_charge_dispute_created :: "h_env \<Rightarrow> h_io \<Rightarrow> json \<Rightarrow> unit h_action" where
  "handle_charge_dispute_created he io event_data =
     abind (hres (object_with_id ''No dispute ID'' event_data)) (\<lambda>(dispute, dispute_id).
     abind (hres (ok_or (Validation ''No payment_intent in dispute'') (jget_str ''payment_intent'' dispute))) (\<lambda>payment_intent_id.
     abind (hdb (find_order_by_payment_intent he payment_intent_id)) (\<lambda>found.
     let order_id = (case found of Some order \<Rightarrow> str_field order ''id'' | None \<Rightarrow> []) in
     abind (if order_id \<noteq> [] then wh_update_order_status he io order_id PaymentAuthorized Disputed else areturn False) (\<lambda>_.
     abind (hdb (create_document (he_pg he) (io_uuid io 1) (io_db_now io 2) ''disputes''
       (json_obj [(''disputeId'', JString dispute_id), (''chargeId'', JString (str_field dispute ''charge'')),
         (''paymentIntentId'', JString payment_intent_id), (''orderId'', JString order_id),
         (''reason'', JString (str_or ''unknown'' dispute ''reason'')), (''amountCents'', json_int (i64_field dispute ''amount'')),
         (''currency'', JString (str_or ''cad'' dispute ''currency'')), (''status'', JString ''needs_response''),
         (''createdAt'', json_int (io_secs io)), (''createdAtIso'', JString (io_now io 2))]))) (\<lambda>_.
     areturn ())))))"

definition handle_charge_dispute_closed :: "h_env \<Rightarrow> json \<Rightarrow> unit h_action" where
  "handle_charge_dispute_closed he event_data =
     abind (hres (object_with_id ''No dispute ID'' event_data)) (\<lambda>(dispute, dispute_id).
     abind (hres (ok_or (Validation ''No payment_intent in dispute'') (jget_str ''payment_intent'' dispute))) (\<lambda>payment_intent_id.
     abind (ignoring (unknown_column ''disputes'' ''disputeStatus'' :: unit pg_action)) (\<lambda>_.
     abind (hdb (find_order_by_payment_intent he payment_intent_id)) (\<lambda>found.
     case found of
       None \<Rightarrow> areturn ()
     | Some order \<Rightarrow>
         if str_field order ''id'' \<noteq> [] \<and> str_or ''unknown'' dispute ''status'' = ''lost''
         then ignoring (unknown_column ''orders'' ''paymentStatus'' :: unit pg_action)
         else areturn ()))))"

definition handle_charge_dispute_updated :: "json \<Rightarrow> unit h_action" where
  "handle_charge_dispute_updated event_data =
     abind (hres (object_with_id ''No dispute ID'' event_data)) (\<lambda>_.
     ignoring (unknown_column ''disputes'' ''stripeStatus'' :: unit pg_action))"

definition handle_charge_dispute_funds_withdrawn :: "json \<Rightarrow> unit h_action" where
  "handle_charge_dispute_funds_withdrawn event_data =
     abind (hres (object_with_id ''No dispute ID'' event_data)) (\<lambda>_.
     ignoring (unknown_column ''disputes'' ''fundsWithdrawn'' :: unit pg_action))"

definition handle_charge_dispute_funds_reinstated :: "h_env \<Rightarrow> json \<Rightarrow> unit h_action" where
  "handle_charge_dispute_funds_reinstated he event_data =
     abind (hres (object_with_id ''No dispute ID'' event_data)) (\<lambda>(dispute, dispute_id).
     abind (ignoring (unknown_column ''disputes'' ''fundsReinstated'' :: unit pg_action)) (\<lambda>_.
     abind (order_id_of_intent he (str_field dispute ''payment_intent'')) (\<lambda>order_id.
     if order_id = [] then areturn ()
     else ignoring (unknown_column ''orders'' ''paymentStatus'' :: unit pg_action))))"

subsection \<open>Payouts\<close>

definition handle_payout_created :: "h_env \<Rightarrow> h_io \<Rightarrow> json \<Rightarrow> unit h_action" where
  "handle_payout_created he io event_data =
     abind (hres (object_with_id ''No payout ID'' event_data)) (\<lambda>(payout, payout_id).
     abind (hdb (create_document (he_pg he) (io_uuid io 1) (io_db_now io 1) ''payouts''
       (json_obj [(''payoutId'', JString payout_id), (''amountCents'', json_int (i64_field payout ''amount'')),
         (''currency'', JString (str_or ''cad'' payout ''currency'')), (''arrivalDate'', json_int (i64_field payout ''arrival_date'')),
         (''payoutMethod'', JString (str_or ''standard'' payout ''method'')),
         (''stripePayoutStatus'', JString (str_or ''pending'' payout ''status'')), (''status'', JString ''initiated''),
         (''createdAt'', json_int (io_secs io)), (''createdAtIso'', JString (io_now io 1))]))) (\<lambda>_.
     if str_field payout ''destination'' = [] then areturn ()
     else ignoring (unknown_column ''orders'' ''payoutStatus'' :: unit pg_action)))"

definition handle_payout_updated :: "json \<Rightarrow> unit h_action" where
  "handle_payout_updated event_data =
     abind (hres (object_with_id ''No payout ID'' event_data)) (\<lambda>_.
     abind (ignoring (unknown_column ''payouts'' ''stripePayoutStatus'' :: unit pg_action)) (\<lambda>_.
     ignoring (unknown_column ''orders'' ''payoutStatus'' :: unit pg_action)))"

text \<open>\<open>{}{}.{:02}\<close> of the currency sign, \<open>amount / 100\<close> and \<open>amount % 100\<close>.\<close>

definition money_text :: "string \<Rightarrow> int \<Rightarrow> string" where
  "money_text currency amount =
     (let cents = amount - 100 * i64_div amount 100 in
      (if currency = ''cad'' then ''$'' else []) @ int_to_string (i64_div amount 100) @ ''.'' @
      (if 0 \<le> cents \<and> cents < 10 then ''0'' else []) @ int_to_string cents)"

definition notification :: "h_io \<Rightarrow> string \<Rightarrow> string \<Rightarrow> string \<Rightarrow> string \<Rightarrow> json" where
  "notification io user kind title body =
     json_obj [(''userId'', JString user), (''type'', JString kind), (''title'', JString title), (''body'', JString body),
       (''read'', JBool False), (''createdAt'', json_int (io_secs io)), (''createdAtIso'', JString (io_now io 2))]"

definition send_notification :: "h_env \<Rightarrow> h_io \<Rightarrow> string \<Rightarrow> string \<Rightarrow> string \<Rightarrow> string \<Rightarrow> unit h_action" where
  "send_notification he io user kind title body =
     (if user = [] then areturn ()
      else ignoring (create_document (he_pg he) (io_uuid io 2) (io_db_now io 6) ''notifications''
             (notification io user kind title body)))"

text \<open>The seller with this connected account; an error finds none.\<close>

definition seller_of_account :: "string \<Rightarrow> string h_action" where
  "seller_of_account destination =
     (if destination = [] then areturn []
      else
        abind (hdb (atry (unknown_column ''seller_profiles'' ''stripeAccountId''))) (\<lambda>r.
        areturn (case r of Inr (seller # _) \<Rightarrow> str_field seller ''sellerId'' | _ \<Rightarrow> [])))"

definition handle_payout_paid :: "h_env \<Rightarrow> h_io \<Rightarrow> json \<Rightarrow> unit h_action" where
  "handle_payout_paid he io event_data =
     abind (hres (object_with_id ''No payout ID'' event_data)) (\<lambda>(payout, payout_id).
     abind (ignoring (unknown_column ''payouts'' ''stripePayoutStatus'' :: unit pg_action)) (\<lambda>_.
     abind (ignoring (unknown_column ''orders'' ''payoutStatus'' :: unit pg_action)) (\<lambda>_.
     abind (seller_of_account (str_field payout ''destination'')) (\<lambda>seller_id.
     send_notification he io seller_id ''payout_paid'' ''Payout Complete''
       (''Your payout of '' @ money_text (str_or ''cad'' payout ''currency'') (i64_field payout ''amount'') @
        '' has been deposited to your bank account.'')))))"

definition handle_payout_failed :: "h_env \<Rightarrow> h_io \<Rightarrow> json \<Rightarrow> unit h_action" where
  "handle_payout_failed he io event_data =
     abind (hres (object_with_id ''No payout ID'' event_data)) (\<lambda>(payout, payout_id).
     abind (ignoring (unknown_column ''orders'' ''payoutId'' :: unit pg_action)) (\<lambda>_.
     abind (ignoring (unknown_column ''payouts'' ''failureCode'' :: unit pg_action)) (\<lambda>_.
     abind (seller_of_account (str_field payout ''destination'')) (\<lambda>seller_id.
     send_notification he io seller_id ''payout_failed'' ''Payout Failed''
       (''Your payout of '' @ money_text (str_or ''cad'' payout ''currency'') (i64_field payout ''amount'') @
        '' has failed. Reason: '' @ str_or ''No details provided'' payout ''failure_message'' @
        ''. Please update your bank details.'')))))"

subsection \<open>Refunds\<close>

definition refund_input :: "json \<Rightarrow> string \<Rightarrow> string \<Rightarrow> string \<Rightarrow> string option \<Rightarrow> RefundRecordInput" where
  "refund_input refund refund_id status reason failure_reason =
     \<lparr>rr_refund_id = refund_id, rr_amount_cents = i64_field refund ''amount'',
      rr_currency = str_or ''cad'' refund ''currency'', rr_status = status,
      rr_payment_intent_id = str_field refund ''payment_intent'', rr_reason = reason,
      rr_failure_reason = failure_reason\<rparr>"

definition handle_refund_created :: "h_env \<Rightarrow> h_io \<Rightarrow> json \<Rightarrow> unit h_action" where
  "handle_refund_created he io event_data =
     abind (hres (object_with_id ''No refund ID'' event_data)) (\<lambda>(refund, refund_id).
     let status = str_or ''pending'' refund ''status''; payment_intent_id = str_field refund ''payment_intent'' in
     abind (upsert_refund_record he io (refund_input refund refund_id status (str_field refund ''reason'') None)) (\<lambda>_.
     abind (order_id_of_intent he payment_intent_id) (\<lambda>order_id.
     abind (if order_id = [] then areturn () else ignoring (unknown_column ''orders'' ''refundId'' :: unit pg_action)) (\<lambda>_.
     if status = ''succeeded'' then sync_order_refund_state_from_records he io payment_intent_id (Some refund_id)
     else areturn ()))))"

definition handle_refund_updated :: "h_env \<Rightarrow> h_io \<Rightarrow> json \<Rightarrow> unit h_action" where
  "handle_refund_updated he io event_data =
     abind (hres (object_with_id ''No refund ID'' event_data)) (\<lambda>(refund, refund_id).
     let status = str_or ''unknown'' refund ''status''; payment_intent_id = str_field refund ''payment_intent'' in
     abind (upsert_refund_record he io (refund_input refund refund_id status (str_field refund ''reason'') None)) (\<lambda>_.
     if status = ''succeeded'' then sync_order_refund_state_from_records he io payment_intent_id (Some refund_id)
     else areturn ()))"

definition handle_refund_failed :: "h_env \<Rightarrow> h_io \<Rightarrow> json \<Rightarrow> unit h_action" where
  "handle_refund_failed he io event_data =
     abind (hres (object_with_id ''No refund ID'' event_data)) (\<lambda>(refund, refund_id).
     let failure_reason = str_or ''unknown'' refund ''failure_reason'';
         payment_intent_id = str_field refund ''payment_intent'' in
     abind (upsert_refund_record he io (refund_input refund refund_id ''failed'' [] (Some failure_reason))) (\<lambda>_.
     abind (mark_order_refund_failure he io payment_intent_id failure_reason) (\<lambda>_.
     if payment_intent_id = [] then areturn ()
     else
       abind (hdb (atry (find_order_by_payment_intent he payment_intent_id))) (\<lambda>r.
       case r of
         Inr (Some order) \<Rightarrow>
           send_notification he io (str_field order ''buyerId'') ''refund_failed'' ''Refund Failed''
             (''Your refund of '' @ money_text (str_or ''cad'' refund ''currency'') (i64_field refund ''amount'') @
              '' could not be processed. Our team has been notified and will resolve this shortly.'')
       | _ \<Rightarrow> areturn ()))))"

subsection \<open>Accounts and invoices\<close>

definition handle_account_updated :: "h_env \<Rightarrow> json \<Rightarrow> unit h_action" where
  "handle_account_updated he event_data =
     abind (hres (object_with_id ''No account ID'' event_data)) (\<lambda>(account, account_id).
     abind (hdb (select_first he ''seller_profiles'' (by_member he ''stripeAccountId'' account_id))) (\<lambda>found.
     case found of
       None \<Rightarrow> areturn ()
     | Some profile \<Rightarrow>
         if str_field profile ''id'' = [] then areturn ()
         else hdb (unknown_column ''seller_profiles'' ''chargesEnabled'')))"

definition handle_invoice_payment_failed :: "h_env \<Rightarrow> h_io \<Rightarrow> json \<Rightarrow> unit h_action" where
  "handle_invoice_payment_failed he io event_data =
     (let invoice = (case jget ''object'' event_data of Some v \<Rightarrow> v | None \<Rightarrow> event_data) in
      if str_field invoice ''subscription'' = [] \<or> str_field invoice ''customer'' = [] then areturn ()
      else
        abind (hdb (atry (select_first he ''users'' (by_member he ''stripeCustomerId'' (str_field invoice ''customer''))))) (\<lambda>r.
        case r of
          Inr (Some doc) \<Rightarrow>
            if str_field doc ''id'' = [] then areturn ()
            else ignoring (update_document (he_pg he) (io_db_now io 1) ''users'' (str_field doc ''id'')
              (json_obj [(''subscriptionPaymentFailed'', JBool True),
                (''subscriptionPaymentFailedAt'', JString (io_now io 1)),
                (''subscriptionPaymentAttemptCount'', json_int (i64_field invoice ''attempt_count'')),
                (''updatedAt'', JString (io_now io 1))]))
        | _ \<Rightarrow> areturn ()))"

subsection \<open>Dispatch\<close>

text \<open>The event types that are only traced.\<close>

definition traced_types :: "string list" where
  "traced_types =
     [''charge.succeeded'', ''charge.failed'', ''customer.created'', ''customer.updated'', ''customer.deleted'',
      ''payment_method.attached'', ''payment_method.detached'', ''invoice.paid'']"

definition event_handlers :: "h_env \<Rightarrow> h_io \<Rightarrow> wh_io \<Rightarrow> (string \<times> (json \<Rightarrow> unit h_action)) list" where
  "event_handlers he io wi =
     [(''payment_intent.succeeded'', handle_payment_intent_succeeded he io wi),
      (''payment_intent.payment_failed'', handle_payment_intent_failed he io),
      (''payment_intent.canceled'', handle_payment_intent_canceled he io),
      (''charge.refunded'', handle_charge_refunded he io),
      (''invoice.payment_failed'', handle_invoice_payment_failed he io),
      (''customer.subscription.created'', route_subscription_webhook he io wi ''customer.subscription.created''),
      (''customer.subscription.updated'', route_subscription_webhook he io wi ''customer.subscription.updated''),
      (''customer.subscription.deleted'', route_subscription_webhook he io wi ''customer.subscription.deleted''),
      (''checkout.session.completed'', handle_checkout_session_completed he io wi),
      (''checkout.session.expired'', handle_checkout_session_expired he io),
      (''checkout.session.async_payment_succeeded'', handle_checkout_session_async_payment_succeeded he io wi),
      (''checkout.session.async_payment_failed'', handle_checkout_session_async_payment_failed he io),
      (''charge.captured'', handle_charge_captured he),
      (''charge.dispute.created'', handle_charge_dispute_created he io),
      (''charge.dispute.closed'', handle_charge_dispute_closed he),
      (''charge.dispute.updated'', handle_charge_dispute_updated),
      (''charge.dispute.funds_withdrawn'', handle_charge_dispute_funds_withdrawn),
      (''charge.dispute.funds_reinstated'', handle_charge_dispute_funds_reinstated he),
      (''payout.created'', handle_payout_created he io),
      (''payout.updated'', handle_payout_updated),
      (''payout.paid'', handle_payout_paid he io),
      (''payout.failed'', handle_payout_failed he io),
      (''refund.created'', handle_refund_created he io),
      (''refund.updated'', handle_refund_updated he io),
      (''refund.failed'', handle_refund_failed he io),
      (''account.updated'', handle_account_updated he)] @
     map (\<lambda>t. (t, log_only)) traced_types"

definition dispatch_event :: "h_env \<Rightarrow> h_io \<Rightarrow> wh_io \<Rightarrow> StripeWebhookEvent \<Rightarrow> unit h_action" where
  "dispatch_event he io wi ev =
     (case map_of (event_handlers he io wi) (we_type ev) of
        Some handler \<Rightarrow> handler (we_data ev)
      | None \<Rightarrow> areturn ())"

definition webhook_answer :: "string \<Rightarrow> StripeWebhookEvent \<Rightarrow> json" where
  "webhook_answer status ev = json_obj [(''status'', JString status), (''event_id'', JString (we_id ev))]"

text \<open>An event whose signature has been verified.\<close>

definition process_event :: "h_env \<Rightarrow> h_io \<Rightarrow> wh_io \<Rightarrow> StripeWebhookEvent \<Rightarrow> json h_action" where
  "process_event he io wi ev =
     abind (hdb (try_store_webhook_event_atomic he io wi ev)) (\<lambda>is_new.
     if \<not> is_new then areturn (webhook_answer ''duplicate'' ev)
     else
       abind (atry (dispatch_event he io wi ev)) (\<lambda>result.
       case result of
         Inr _ \<Rightarrow> areturn (webhook_answer ''ok'' ev)
       | Inl e \<Rightarrow>
           abind (ignoring (delete_document WEBHOOK_EVENTS (we_id ev))) (\<lambda>_. athrow e)))"

text \<open>The request: the header, empty when it is missing, and the body or the error of reading it.\<close>

definition handle_stripe_webhook :: "h_env \<Rightarrow> h_io \<Rightarrow> wh_io \<Rightarrow> string \<Rightarrow> string + string \<Rightarrow> json h_action" where
  "handle_stripe_webhook he io wi signature body_result =
     abind (hres (map_err (\<lambda>e. Internal (''Failed to read body: '' @ e)) body_result)) (\<lambda>body.
     abind (hres (ok_or (Forbidden ''Webhook processing unavailable'') (wh_secret wi))) (\<lambda>webhook_secret.
     if signature = [] then athrow (Fail (Auth ''Missing webhook signature''))
     else if \<not> verify_stripe_signature wi body signature webhook_secret
     then athrow (Fail (Auth ''Invalid webhook signature''))
     else
       abind (hres (map_err (\<lambda>e. Validation (''Invalid webhook JSON: '' @ e)) (wh_parse wi body))) (\<lambda>ev.
       process_event he io wi ev)))"

end
