(* ===== verification/Webhook_Frames.thy ===== *)
theory Webhook_Frames
  imports Webhook_Handlers Order_Safety
begin

text \<open>
  What an event can do to the store, whatever faults the database reports. The locale
  \<open>webhook_frame\<close> takes a relation between states that every single write of the handlers stays within
  and gives it for the dispatch of every event; it is interpreted on the table of the processed
  events, which no handler touches, and on the rows of the orders, which keep their ids and
  change their status along a fixed set of moves only.
\<close>

subsection \<open>Statements and the tables they leave alone\<close>

definition leaves :: "string set \<Rightarrow> 'a pg_action \<Rightarrow> bool" where
  "leaves T m \<longleftrightarrow> (\<forall>s. \<forall>t \<in> T. tables (snd (m s)) t = tables s t)"

lemma leavesI: "(\<And>s r s' t. m s = (r, s') \<Longrightarrow> t \<in> T \<Longrightarrow> tables s' t = tables s t) \<Longrightarrow> leaves T m"
  by (metis leaves_def prod.collapse)

lemma leavesD: "leaves T m \<Longrightarrow> m s = (r, s') \<Longrightarrow> t \<in> T \<Longrightarrow> tables s' t = tables s t"
  by (metis leaves_def snd_conv)

lemma leaves_steps [intro]:
  "leaves T m \<Longrightarrow> leaves T (atry m)" "leaves T m \<Longrightarrow> leaves T (amap_err f m)"
  "leaves T (areturn x)" "leaves T (athrow e)" "leaves T (alift q)"
  by (auto simp: leaves_def atry_def amap_err_def split: prod.splits) (metis snd_conv)+

lemma leaves_abind [intro]: "leaves T m \<Longrightarrow> (\<And>x. leaves T (f x)) \<Longrightarrow> leaves T (abind m f)"
  unfolding leaves_def abind_def by (auto split: prod.splits sum.splits) (metis snd_conv)+

lemma leaves_ensure [intro]: "leaves T (ensure_table coll)"
  by (rule leavesI) (simp add: ensure_table_tables)

lemma leaves_exec: "t \<notin> T \<Longrightarrow> leaves T (pg_exec p t stmt)"
  by (rule leavesI) (auto dest!: pg_exec_cases split: sum.splits)

lemma leaves_exec_read: "leaves T (pg_exec p t (\<lambda>rs. Inr (h rs, rs)))"
  by (rule leavesI) (simp add: pg_exec_read)

lemma leaves_exec_error: "leaves T (pg_exec p t (\<lambda>rs. Inl (h rs)))"
  by (rule leavesI) (auto dest!: pg_exec_cases split: sum.splits)

lemma leaves_select [intro]: "leaves T (select_first he t hit)"
  unfolding select_first_def by (intro leaves_abind leaves_steps leaves_ensure leaves_exec_read)

lemma leaves_raw_select [intro]: "leaves T (raw_select_first he raw t sql)"
  unfolding raw_select_first_def
  by (intro leaves_abind leaves_steps leaves_ensure leavesI)
     (auto dest!: pg_exec_cases simp: rbind_eq_Inr split: sum.splits)

lemma leaves_unknown [intro]: "leaves T (unknown_column t c)"
  unfolding unknown_column_def by (intro leaves_abind leaves_steps leaves_ensure leaves_exec_error)

lemma leaves_update_where [intro]: "t \<notin> T \<Longrightarrow> leaves T (update_where t now hit kvs)"
  unfolding update_where_def by (intro leaves_abind leaves_steps leaves_ensure leaves_exec)

lemma leaves_delete_where [intro]: "t \<notin> T \<Longrightarrow> leaves T (delete_where t hit)"
  unfolding delete_where_def by (intro leaves_abind leaves_steps leaves_ensure leaves_exec)

lemma leaves_get [intro]: "leaves T (get_document env coll i)"
  by (rule leavesI) (metis get_document_cases)

lemma leaves_update [intro]: "coll \<notin> T \<Longrightarrow> leaves T (update_document env now coll i d)"
  by (rule leavesI) (auto dest!: update_document_cases split: sum.splits)

lemma leaves_create [intro]: "coll \<notin> T \<Longrightarrow> leaves T (create_document env u now coll d)"
  by (rule leavesI) (metis create_other)

lemma leaves_upsert [intro]: "coll \<notin> T \<Longrightarrow> leaves T (upsert_document env now coll i d)"
  by (rule leavesI) (auto dest!: upsert_document_rows split: sum.splits)

lemma leaves_cas [intro]: "coll \<notin> T \<Longrightarrow> leaves T (update_document_cas env now coll i d f e)"
  by (rule leavesI) (auto dest!: update_document_cas_cases split: sum.splits if_splits)

lemma leaves_refunds [intro]: "leaves T (refunds_of_intent he payment)"
  unfolding refunds_of_intent_def by (intro leaves_abind leaves_steps leaves_ensure leaves_exec_read)

subsection \<open>The interface\<close>

definition stays :: "(h_state \<Rightarrow> h_state \<Rightarrow> bool) \<Rightarrow> 'a h_action \<Rightarrow> bool" where
  "stays Q m \<longleftrightarrow> (\<forall>s. Q s (snd (m s)))"

lemma staysD: "stays Q m \<Longrightarrow> m s = (r, s') \<Longrightarrow> Q s s'"
  by (metis stays_def snd_conv)

lemma staysI: "(\<And>s r s'. m s = (r, s') \<Longrightarrow> Q s s') \<Longrightarrow> stays Q m"
  by (metis stays_def prod.collapse)

text \<open>The tables a frame looks at.\<close>

definition framed :: "string set" where
  "framed = {''orders'', WEBHOOK_EVENTS}"

lemma framed_simps [simp]:
  "''products'' \<notin> framed" "''coupon_uses'' \<notin> framed" "''refunds'' \<notin> framed" "''disputes'' \<notin> framed" "''payouts'' \<notin> framed"
  "''notifications'' \<notin> framed" "''cart'' \<notin> framed" "''users'' \<notin> framed" "''subscriptions'' \<notin> framed" "''orders'' \<in> framed"
  "WEBHOOK_EVENTS \<in> framed"
  by (simp_all add: framed_def WEBHOOK_EVENTS_def)

text \<open>The moves of the status that the handlers ask for.\<close>

definition guarded_moves :: "(OrderStatus \<times> OrderStatus) set" where
  "guarded_moves = {(PendingPayment, PaymentAuthorized), (PendingPayment, Cancelled), (PendingPayment, Expired),
     (PendingPayment, Failed), (PaymentAuthorized, Disputed)}"

definition review_document :: "h_io \<Rightarrow> string \<Rightarrow> json" where
  "review_document io reason =
     json_obj [(''requiresManualReview'', JBool True), (''refundFailureReason'', JString reason), (''updatedAt'', JString (io_now io 2))]"

locale webhook_frame =
  fixes he :: h_env and Q :: "h_state \<Rightarrow> h_state \<Rightarrow> bool"
  assumes frame_refl: "Q s s"
    and frame_trans: "Q s u \<Longrightarrow> Q u v \<Longrightarrow> Q s v"
    and frame_other: "\<forall>t \<in> framed. tbl s' t = tbl s t \<Longrightarrow> Q s s'"
    and frame_status: "(from_st, to_st) \<in> guarded_moves \<Longrightarrow> stays Q (wh_update_order_status he io i from_st to_st)"
    and frame_ids: "stays Q (store_session_ids he io i payment session)"
    and frame_refund: "stays Q (hdb (update_document (he_pg he) now ''orders'' i (refund_state_update io rid amount full)))"
    and frame_review: "stays Q (hdb (update_document (he_pg he) now ''orders'' i (review_document io reason)))"
begin

lemma stays_pure [intro]: "stays Q (areturn x)" "stays Q (athrow e)" "stays Q (alift q)" "stays Q (hres p)"
  "stays Q (notify n)" "stays Q (Pair z)"
  by (auto simp: stays_def hres_def notify_def intro: frame_refl frame_other)

lemma stays_abind [intro]: "stays Q m \<Longrightarrow> (\<And>x. stays Q (f x)) \<Longrightarrow> stays Q (abind m f)"
  unfolding stays_def abind_def by (auto split: prod.splits sum.splits) (metis frame_trans snd_conv)+

lemma stays_branch [intro]:
  "stays Q a \<Longrightarrow> stays Q b \<Longrightarrow> stays Q (if c then a else b)"
  "(\<And>x y. stays Q (f x y)) \<Longrightarrow> stays Q (case p of (x, y) \<Rightarrow> f x y)"
  "stays Q a \<Longrightarrow> (\<And>x. stays Q (g x)) \<Longrightarrow> stays Q (case v of None \<Rightarrow> a | Some x \<Rightarrow> g x)"
  "(\<And>e. stays Q (l e)) \<Longrightarrow> (\<And>x. stays Q (h x)) \<Longrightarrow> stays Q (case w of Inl e \<Rightarrow> l e | Inr x \<Rightarrow> h x)"
  by (auto split: prod.split option.split sum.split)

lemma stays_hdb: "leaves framed m \<Longrightarrow> stays Q (hdb m)"
  by (rule staysI, rule frame_other) (auto simp: hdb_eq dest: leavesD)

lemma stays_ignoring: "leaves framed m \<Longrightarrow> stays Q (ignoring m)"
  unfolding ignoring_def by (intro stays_abind stays_pure stays_hdb leaves_steps)

lemma stays_atry [intro]: "stays Q m \<Longrightarrow> stays Q (atry m)"
  by (auto simp: stays_def atry_def split: prod.splits) (metis snd_conv)

lemmas stays_stmts = stays_hdb stays_ignoring leaves_steps leaves_select leaves_raw_select leaves_unknown leaves_update_where
  leaves_delete_where leaves_get leaves_update leaves_create leaves_upsert leaves_cas leaves_refunds framed_simps

lemmas stays_rules = stays_abind stays_pure stays_branch stays_stmts

lemma stays_restore_attempts: "stays Q (restore_attempts he io pid q n)"
proof (induction n)
  case (Suc n)
  show ?case unfolding restore_attempts.simps Let_def by (intro stays_rules Suc)
qed (simp add: stays_pure)

lemma stays_restore_items: "stays Q (restore_order_items he io items)"
  by (induction items) (simp_all add: Let_def stays_pure stays_abind stays_branch stays_restore_attempts)

lemma stays_restore: "stays Q (restore_stock_for_order he io order)"
  unfolding restore_stock_for_order_def by (intro stays_rules stays_restore_items)

lemma stays_mark_coupon: "stays Q (mark_coupon_redeemed he io wi i c)"
  unfolding mark_coupon_redeemed_def by (intro stays_rules)

lemma stays_release: "stays Q (release_coupon_reservation he i)"
  unfolding release_coupon_reservation_def by (intro stays_rules)

lemma stays_upsert_refund: "stays Q (upsert_refund_record he io r)"
  unfolding upsert_refund_record_def Let_def by (intro stays_rules)

lemma stays_mark_failure: "stays Q (mark_order_refund_failure he io payment reason)"
  unfolding mark_order_refund_failure_def find_order_by_payment_intent_def Let_def
  by (intro stays_rules frame_review [unfolded review_document_def])

lemma stays_sync: "stays Q (sync_order_refund_state he io payment rid amount)"
  unfolding sync_order_refund_state_def find_order_by_payment_intent_def Let_def
  by (intro stays_rules frame_refund stays_restore)

lemma stays_sync_records: "stays Q (sync_order_refund_state_from_records he io payment rid)"
  unfolding sync_order_refund_state_from_records_def Let_def by (intro stays_rules stays_sync)

lemma stays_order_of_event: "stays Q (order_of_event he i)"
  unfolding order_of_event_def find_order_by_metadata_id_def Let_def by (intro stays_rules)

lemma stays_order_id: "stays Q (order_id_of_intent he payment)"
  unfolding order_id_of_intent_def find_order_by_payment_intent_def by (intro stays_rules)

lemma stays_abandon: "(PendingPayment, st) \<in> guarded_moves \<Longrightarrow> stays Q (abandon_order he io i st order)"
  unfolding abandon_order_def by (intro stays_rules frame_status stays_restore stays_release)

lemma stays_notification: "stays Q (send_notification he io user kind title body)"
  unfolding send_notification_def by (intro stays_rules)

lemma stays_seller: "stays Q (seller_of_account dest)"
  unfolding seller_of_account_def by (intro stays_rules)

lemma stays_put: "coll \<notin> framed \<Longrightarrow> stays Q (put_members he now coll i kvs)"
  unfolding put_members_def by (intro stays_rules)

lemma stays_customer: "(\<And>uid. stays Q (f uid)) \<Longrightarrow> stays Q (with_customer he wi d f)"
  unfolding with_customer_def find_user_by_customer_id_def by (intro stays_rules)

lemma stays_cart: "stays Q (clear_cart he buyer)"
  unfolding clear_cart_def by (intro stays_rules)

lemmas handler_rules = stays_rules stays_mark_coupon stays_release stays_upsert_refund stays_mark_failure stays_sync stays_sync_records
  stays_order_of_event stays_order_id stays_abandon stays_notification stays_seller stays_put stays_customer stays_cart
  frame_ids frame_status

lemma move_mem: "(PendingPayment, PaymentAuthorized) \<in> guarded_moves" "(PendingPayment, Cancelled) \<in> guarded_moves"
  "(PendingPayment, Expired) \<in> guarded_moves" "(PendingPayment, Failed) \<in> guarded_moves" "(PaymentAuthorized, Disputed) \<in> guarded_moves"
  by (simp_all add: guarded_moves_def)

lemma stays_intents:
  "stays Q (handle_payment_intent_succeeded he io wi d)"
  "stays Q (handle_payment_intent_failed he io d)"
  "stays Q (handle_payment_intent_canceled he io d)"
  unfolding handle_payment_intent_succeeded_def handle_payment_intent_failed_def handle_payment_intent_canceled_def
  by (intro handler_rules move_mem)+

lemma stays_sessions:
  "stays Q (handle_checkout_session_completed he io wi d)"
  "stays Q (handle_checkout_session_expired he io d)"
  "stays Q (handle_checkout_session_async_payment_succeeded he io wi d)"
  "stays Q (handle_checkout_session_async_payment_failed he io d)"
  unfolding handle_checkout_session_async_payment_succeeded_def handle_checkout_session_completed_def
    handle_checkout_session_expired_def handle_checkout_session_async_payment_failed_def
  by (intro handler_rules move_mem)+

lemma stays_charges:
  "stays Q (handle_charge_refunded he io d)" "stays Q (handle_charge_captured he d)"
  unfolding handle_charge_refunded_def handle_charge_captured_def find_order_by_payment_intent_def
  by (intro handler_rules)+

lemma stays_disputes:
  "stays Q (handle_charge_dispute_created he io d)" "stays Q (handle_charge_dispute_closed he d)"
  "stays Q (handle_charge_dispute_updated d)" "stays Q (handle_charge_dispute_funds_withdrawn d)"
  "stays Q (handle_charge_dispute_funds_reinstated he d)"
  unfolding handle_charge_dispute_created_def handle_charge_dispute_closed_def handle_charge_dispute_updated_def
    handle_charge_dispute_funds_withdrawn_def handle_charge_dispute_funds_reinstated_def
    find_order_by_payment_intent_def Let_def
  by (intro handler_rules move_mem)+

lemma stays_payouts:
  "stays Q (handle_payout_created he io d)" "stays Q (handle_payout_updated d)"
  "stays Q (handle_payout_paid he io d)" "stays Q (handle_payout_failed he io d)"
  unfolding handle_payout_created_def handle_payout_updated_def handle_payout_paid_def handle_payout_failed_def
  by (intro handler_rules)+

lemma stays_refunds:
  "stays Q (handle_refund_created he io d)" "stays Q (handle_refund_updated he io d)" "stays Q (handle_refund_failed he io d)"
  unfolding handle_refund_created_def handle_refund_updated_def handle_refund_failed_def find_order_by_payment_intent_def Let_def
  by (intro handler_rules)+

lemma stays_accounts:
  "stays Q (handle_account_updated he d)" "stays Q (handle_invoice_payment_failed he io d)"
  unfolding handle_account_updated_def handle_invoice_payment_failed_def Let_def by (intro handler_rules)+

lemma stays_subscriptions: "stays Q (route_subscription_webhook he io wi t d)"
  unfolding route_subscription_webhook_def handle_subscription_created_def handle_subscription_updated_def
    handle_subscription_deleted_def sub_handle_invoice_payment_failed_def Let_def
  by (intro handler_rules stays_atry)

lemmas stays_handlers = stays_intents stays_sessions stays_charges stays_disputes stays_payouts stays_refunds stays_accounts
  stays_subscriptions

lemma stays_handler_list: "\<forall>h \<in> snd ` set (event_handlers he io wi). stays Q (h d)"
  by (simp add: event_handlers_def traced_types_def log_only_def stays_pure stays_handlers)

lemma stays_dispatch: "stays Q (dispatch_event he io wi ev)"
  unfolding dispatch_event_def
  using stays_handler_list by (auto split: option.split intro: stays_pure dest!: map_of_SomeD) force

end

end
