(* ===== verification/Webhook_Safety.thy ===== *)
theory Webhook_Safety
  imports Webhook_Frames Checkout_Stock
begin

text \<open>
  Safety of the webhooks: which requests can change anything, how often an event is processed, and
  along which moves the status of an order changes.
\<close>

subsection \<open>The table of events\<close>

definition same_events :: "h_state \<Rightarrow> h_state \<Rightarrow> bool" where
  "same_events s s' \<longleftrightarrow> tbl s' WEBHOOK_EVENTS = tbl s WEBHOOK_EVENTS"

lemma same_events_hdb: "leaves {WEBHOOK_EVENTS} m \<Longrightarrow> stays same_events (hdb m)"
  by (rule staysI) (auto simp: hdb_eq same_events_def dest: leavesD)

lemma events_not_orders: "''orders'' \<notin> {WEBHOOK_EVENTS}"
  by (simp add: WEBHOOK_EVENTS_def)

interpretation events_frame: webhook_frame he same_events for he
proof unfold_locales
  fix from_st to_st io i now rid amount full payment session reason
  show "stays same_events (wh_update_order_status he io i from_st to_st)" "stays same_events (store_session_ids he io i payment session)"
    unfolding wh_update_order_status_def store_session_ids_def
    by (rule same_events_hdb, rule leaves_update_where, rule events_not_orders)+
  show "stays same_events (hdb (update_document (he_pg he) now ''orders'' i (refund_state_update io rid amount full)))"
    "stays same_events (hdb (update_document (he_pg he) now ''orders'' i (review_document io reason)))"
    by (rule same_events_hdb, rule leaves_update, rule events_not_orders)+
qed (simp_all add: same_events_def)

subsection \<open>The status of orders\<close>

definition status_of :: "h_env \<Rightarrow> doc_row \<Rightarrow> string option" where
  "status_of he r = member_text (he_pg he) ''orderStatus'' (d_data r)"

definition webhook_move :: "string option \<Rightarrow> string option \<Rightarrow> bool" where
  "webhook_move a b \<longleftrightarrow> a = b \<or>
     (\<exists>x y. (x, y) \<in> guarded_moves\<^sup>+ \<and> a = Some (OrderStatus_as_str x) \<and> b = Some (OrderStatus_as_str y)) \<or>
     b \<in> {Some (OrderStatus_as_str Refunded), Some (OrderStatus_as_str PartiallyRefunded)}"

definition order_rows_move :: "h_env \<Rightarrow> doc_row list \<Rightarrow> doc_row list \<Rightarrow> bool" where
  "order_rows_move he = list_all2 (\<lambda>r r'. d_id r' = d_id r \<and> webhook_move (status_of he r) (status_of he r'))"

lemma guarded_moves_from: "(x, y) \<in> guarded_moves\<^sup>+ \<Longrightarrow> x \<in> {PendingPayment, PaymentAuthorized}"
  by (induction rule: converse_trancl_induct) (auto simp: guarded_moves_def)

lemma webhook_move_trans:
  assumes "webhook_move a b" "webhook_move b c"
  shows "webhook_move a c"
proof (cases "a = b \<or> b = c \<or> c \<in> {Some (OrderStatus_as_str Refunded), Some (OrderStatus_as_str PartiallyRefunded)}")
  case False
  then obtain x y where bc: "(x, y) \<in> guarded_moves\<^sup>+" "b = Some (OrderStatus_as_str x)" "c = Some (OrderStatus_as_str y)"
    using assms(2) by (auto simp: webhook_move_def)
  then have "x \<noteq> Refunded \<and> x \<noteq> PartiallyRefunded" using guarded_moves_from by fastforce
  then have "b \<notin> {Some (OrderStatus_as_str Refunded), Some (OrderStatus_as_str PartiallyRefunded)}"
    using bc(2) OrderStatus_as_str_inj by (metis insertE option.inject singletonD)
  then obtain w x' where ab: "(w, x') \<in> guarded_moves\<^sup>+" "a = Some (OrderStatus_as_str w)" "b = Some (OrderStatus_as_str x')"
    using assms(1) False by (auto simp: webhook_move_def)
  then have "(w, y) \<in> guarded_moves\<^sup>+" using bc OrderStatus_as_str_inj by (metis option.inject trancl_trans)
  then show ?thesis using ab bc by (auto simp: webhook_move_def)
qed (use assms in \<open>auto simp: webhook_move_def\<close>)

lemma order_rows_move_refl: "order_rows_move he rs rs"
  by (simp add: order_rows_move_def list_all2_refl webhook_move_def)

lemma order_rows_move_trans: "order_rows_move he a b \<Longrightarrow> order_rows_move he b c \<Longrightarrow> order_rows_move he a c"
  unfolding order_rows_move_def by (erule list_all2_trans [rotated], assumption) (auto intro: webhook_move_trans)

lemma order_rows_move_map:
  "(\<And>r. d_id (f r) = d_id r \<and> webhook_move (status_of he r) (status_of he (f r))) \<Longrightarrow> order_rows_move he rs (map f rs)"
  by (simp add: order_rows_move_def list_all2_conv_all_nth)

lemma update_where_cases:
  assumes "update_where t now hit kvs s = (r, s')"
  shows "tables s' = tables s \<or> (\<exists>brs. rmap (set_row now hit kvs) (tables s t) = Inr brs \<and>
    tables s' = (tables s)(t := map snd brs) \<and> r = Inr (list_ex fst brs))"
  using assms unfolding update_where_def
  by (auto elim!: abind_cases simp: atry_eq rbind_eq_Inr dest!: ensure_table_tables pg_exec_cases split: sum.splits; blast)

lemma update_where_rows:
  assumes "update_where ''orders'' now hit kvs (hs_db s) = (r, d)"
    and "\<And>r b r'. set_row now hit kvs r = Inr (b, r') \<Longrightarrow> d_id r' = d_id r \<and> webhook_move (status_of he r) (status_of he r')"
  shows "order_rows_move he (tbl s ''orders'') (tables d ''orders'')"
  using update_where_cases [OF assms(1)]
proof (elim disjE exE conjE)
  fix brs
  assume "rmap (set_row now hit kvs) (tbl s ''orders'') = Inr brs" and d: "tables d = (tables (hs_db s))(''orders'' := map snd brs)"
  from this(1) have "list_all2 (\<lambda>r br. set_row now hit kvs r = Inr br) (tbl s ''orders'') brs" by (rule rmap_list_all2)
  then have "order_rows_move he (tbl s ''orders'') (map snd brs)"
    unfolding order_rows_move_def by (induction rule: list_all2_induct) (auto dest: assms(2))
  then show ?thesis by (simp add: d)
qed (simp add: order_rows_move_refl)

lemma jsonb_set_object: "jsonb_set_texts kvs (JObject m) = Inr (JObject (fold (\<lambda>(k, v). obj_insert k (JString v)) kvs m))"
  by (induction kvs arbitrary: m) auto

lemma set_row_status:
  assumes "set_row now (has_status he i (OrderStatus_as_str a)) [(''orderStatus'', OrderStatus_as_str b), (''updatedAt'', t)] r = Inr (c, r')"
  shows "d_id r' = d_id r \<and> (r' = r \<and> \<not> c \<or> c \<and> d_id r = i \<and> status_of he r = Some (OrderStatus_as_str a) \<and>
    status_of he r' = Some (OrderStatus_as_str b))"
proof (cases "has_status he i (OrderStatus_as_str a) r")
  case True
  have ne: "OrderStatus_as_str a \<noteq> []" by (cases a) auto
  have st: "d_id r = i" "member_text (he_pg he) ''orderStatus'' (d_data r) = Some (OrderStatus_as_str a)"
    using True ne by (auto simp: has_status_def split: option.splits)
  then obtain m where m: "d_data r = JObject m" by (auto simp: member_text_def jget_def split: option.splits json.splits)
  show ?thesis
    using assms True st by (auto simp: set_row_def m jsonb_set_object status_of_def member_text_def jget_def jsonb_text_def)
qed (use assms in \<open>auto simp: set_row_def\<close>)

lemma set_row_ids:
  assumes "set_row now hit [(''paymentIntentId'', p), (''stripeSessionId'', q), (''updatedAt'', t)] r = Inr (c, r')"
  shows "d_id r' = d_id r \<and> status_of he r' = status_of he r"
proof (cases "hit r")
  case True
  then obtain m where m: "d_data r = JObject m" using assms by (cases "d_data r") (auto simp: set_row_def)
  show ?thesis
    using assms True by (auto simp: set_row_def m jsonb_set_object status_of_def member_text_def jget_def)
qed (use assms in \<open>auto simp: set_row_def\<close>)

lemma member_after_concat:
  assumes "obj_ok b"
  shows "member_text env f (jsonb_concat d (JObject b)) =
    (case d of JObject m \<Rightarrow> (case map_of b f of Some v \<Rightarrow> jsonb_text env v | None \<Rightarrow> member_text env f d) | _ \<Rightarrow> None)"
  using assms by (cases d) (auto simp: member_text_def jget_def map_of_obj_merge map_add_def split: option.split)

lemma merged_status:
  assumes "obj_ok b" "map_of b ''orderStatus'' \<in> {None, Some (JString (OrderStatus_as_str Refunded)), Some (JString (OrderStatus_as_str PartiallyRefunded))}"
  shows "webhook_move (status_of he r) (status_of he (merged now (JObject b) r))"
  using assms(2) unfolding status_of_def merged_id member_after_concat [OF assms(1)]
  by (cases "d_data r") (auto simp: webhook_move_def member_text_def jget_def jsonb_text_def split: option.split)

lemma update_order_rows:
  assumes "jsonb_keeps_strings (he_pg he)" "hdb (update_document (he_pg he) now ''orders'' i (json_obj kvs)) s = (r, s')"
    and "jget ''orderStatus'' (json_obj kvs) \<in>
      {None, Some (JString (OrderStatus_as_str Refunded)), Some (JString (OrderStatus_as_str PartiallyRefunded))}"
  shows "order_rows_move he (tbl s ''orders'') (tbl s' ''orders'')"
proof -
  obtain q d where q: "update_document (he_pg he) now ''orders'' i (json_obj kvs) (hs_db s) = (q, d)" and s': "s' = s\<lparr>hs_db := d\<rparr>"
    using assms(2) by (auto simp: hdb_eq)
  show ?thesis
  proof (cases q)
    case (Inl e)
    then show ?thesis using update_document_cases [OF q] s' by (simp add: order_rows_move_refl)
  next
    case (Inr x)
    then obtain body where body: "pg_to_jsonb (he_pg he) (json_obj kvs) = Inr body"
      and d: "tables d = (tables (hs_db s))(''orders'' :=
        map (\<lambda>r. if d_id r = bare_id ''orders'' i then merged now body r else r) (tbl s ''orders''))"
      using update_document_cases [OF q] by auto
    have ok: "obj_ok (fold (\<lambda>(k, v). obj_insert k v) kvs [])" by (rule obj_ok_fold) simp
    then obtain b where b: "body = JObject b" "obj_ok b" "map_of b ''orderStatus'' = None \<longleftrightarrow> jget ''orderStatus'' (json_obj kvs) = None"
        "\<forall>x. jget ''orderStatus'' (json_obj kvs) = Some (JString x) \<longrightarrow> map_of b ''orderStatus'' = Some (JString x)"
      using assms(1) body unfolding jsonb_keeps_strings_def json_obj_def jget_def by fastforce
    then have "webhook_move (status_of he r) (status_of he (merged now body r))" for r
      using assms(3) merged_status [of b he r now] by auto
    then have "order_rows_move he (tbl s ''orders'')
        (map (\<lambda>r. if d_id r = bare_id ''orders'' i then merged now body r else r) (tbl s ''orders''))"
      by (intro order_rows_move_map) (auto simp: webhook_move_def)
    then show ?thesis by (simp add: s' d)
  qed
qed

interpretation status_frame: webhook_frame he
  "\<lambda>s s'. jsonb_keeps_strings (he_pg he) \<longrightarrow> order_rows_move he (tbl s ''orders'') (tbl s' ''orders'')" for he
proof (unfold_locales, goal_cases)
  case (4 from_st to_st io i)
  have mv: "webhook_move (Some (OrderStatus_as_str from_st)) (Some (OrderStatus_as_str to_st))"
    using 4 by (auto simp: webhook_move_def intro: r_into_trancl)
  show ?case
    unfolding wh_update_order_status_def
    by (rule staysI, clarsimp simp: hdb_eq, erule update_where_rows)
       (use mv set_row_status in \<open>fastforce simp: webhook_move_def\<close>)
next
  case (5 io i payment session)
  show ?case
    unfolding store_session_ids_def
    by (rule staysI, clarsimp simp: hdb_eq, erule update_where_rows) (use set_row_ids in \<open>fastforce simp: webhook_move_def\<close>)
next
  case (6 now i io rid amount full)
  have "jget ''orderStatus'' (refund_state_update io rid amount full) =
      Some (JString (OrderStatus_as_str (if full then Refunded else PartiallyRefunded)))"
    by (cases rid) (simp_all add: refund_state_update_def opt_member_def)
  then show ?case
    unfolding refund_state_update_def
    by (intro staysI impI update_order_rows) (auto split: if_splits)
next
  case (7 now i io reason)
  show ?case unfolding review_document_def by (intro staysI impI update_order_rows) auto
qed (auto simp: order_rows_move_refl intro: order_rows_move_trans)

end
