(* ===== verification/Webhook_Events.thy ===== *)
theory Webhook_Events
  imports Webhook_Safety
begin

text \<open>
  Which requests of the payment provider are accepted, and how often an event is processed when
  deliveries overlap.
\<close>

subsection \<open>Signatures\<close>

text \<open>
  C30. A request that is not signed changes nothing: unless the body could be read, a secret is
  configured, the header names a time that counts as fresh (at most five minutes ago or ahead, or, as
  the difference wraps around, \<open>2^63\<close> seconds ago), and the decoded
  signature is the HMAC of that time and this body under the secret, the state stays the same and the
  answer is an error.
\<close>

theorem unsigned_webhooks_change_nothing:
  assumes "handle_stripe_webhook he io wi signature body_result s = (r, s')"
    and "\<not> (\<exists>body k mac. body_result = Inr body \<and> wh_secret wi = Some k \<and>
      fresh_timestamp (wh_clock wi) (signature_part ''t'' signature) \<and>
      wh_unhex wi (signature_part ''v1'' signature) = Some mac \<and>
      wh_hmac wi k (signature_part ''t'' signature @ ''.'' @ body) = mac)"
  shows "s' = s \<and> \<not> is_ok r"
proof (cases body_result)
  case (Inr body)
  show ?thesis
  proof (cases "wh_secret wi")
    case (Some k)
    have "\<not> verify_stripe_signature wi body signature k"
      using assms(2) Inr Some by (auto simp: verify_stripe_signature_def Let_def split: if_splits option.splits)
    then show ?thesis using assms(1) Inr Some by (auto simp: handle_stripe_webhook_def hres_def split: if_splits)
  qed (use assms(1) Inr in \<open>auto simp: handle_stripe_webhook_def hres_def\<close>)
qed (use assms(1) in \<open>auto simp: handle_stripe_webhook_def hres_def\<close>)

text \<open>The check of the time in 64 bits: one timestamp more is let through, half the range away.\<close>

lemma fresh_timestamp_window:
  assumes "fresh_timestamp now t" "0 \<le> now" "now < 2 ^ 62"
  obtains ts where "parse_i64 t = Some ts" "\<bar>now - ts\<bar> \<le> 300 \<or> ts = now - 2 ^ 63"
proof -
  from assms(1) obtain ts where ts: "parse_i64 t = Some ts" "wrap_i64 \<bar>wrap_i64 (now - ts)\<bar> \<le> 300"
    by (auto simp: fresh_timestamp_def split: option.splits)
  have "i64_range ts" using parse_i64_cases [OF ts(1)] by simp
  then have range: "- (2 ^ 63) \<le> ts" "ts < 2 ^ 63" by (auto simp: i64_range_def)
  have "\<bar>now - ts\<bar> \<le> 300 \<or> ts = now - 2 ^ 63"
  proof (cases "now - ts < 2 ^ 63")
    case True
    then have w: "wrap_i64 (now - ts) = now - ts" using range assms(2) by (intro wrap_i64_id) (simp add: i64_range_def)
    show ?thesis
    proof (cases "now - ts = - (2 ^ 63)")
      case False
      then have "i64_range \<bar>now - ts\<bar>" using True range assms(2) by (auto simp: i64_range_def)
      then show ?thesis using ts(2) w by simp
    qed (use range assms(2) in simp)
  next
    case False
    then have "(now - ts + 2 ^ 63) mod 2 ^ 64 = (now - ts + 2 ^ 63 - 2 ^ 64) mod 2 ^ 64" by (intro mod_pos_geq) simp_all
    also have "\<dots> = now - ts + 2 ^ 63 - 2 ^ 64" using False range assms(2,3) by (intro mod_pos_pos_trivial) simp_all
    finally have "wrap_i64 (now - ts) = now - ts - 2 ^ 64" by (simp add: wrap_i64_def)
    moreover have "i64_range \<bar>now - ts - 2 ^ 64\<bar>" if "now - ts \<noteq> 2 ^ 63"
      using False range assms(2,3) that by (auto simp: i64_range_def)
    ultimately show ?thesis using ts(2) False range assms(2,3) by (cases "now - ts = 2 ^ 63") auto
  qed
  then show ?thesis using that ts(1) by blast
qed

lemma verified_parts:
  assumes "verify_stripe_signature wi body signature k"
  obtains mac where "wh_unhex wi (signature_part ''v1'' signature) = Some mac"
    "wh_hmac wi k (signature_part ''t'' signature @ ''.'' @ body) = mac"
    "fresh_timestamp (wh_clock wi) (signature_part ''t'' signature)"
  using assms by (auto simp: verify_stripe_signature_def Let_def split: if_splits option.splits)

lemma split_at_dot:
  assumes "a @ ''.'' @ b = a' @ ''.'' @ b'" "CHR ''.'' \<notin> set a" "CHR ''.'' \<notin> set a'"
  shows "a = a' \<and> b = b'"
  using assms by (induction a arbitrary: a') (case_tac [!] a', auto)

text \<open>
  C31. A signature belongs to one body and one time: with an HMAC that does not collide, two requests
  that are accepted with the same signature, under whatever headers and at whatever times, carry the
  same time and the same body, and they arrive at most ten minutes apart.
\<close>

theorem signature_binds_body_and_time:
  assumes "\<forall>m m'. wh_hmac wi k m = wh_hmac wi k m' \<longrightarrow> m = m'"
    and "0 \<le> wh_clock wi" "wh_clock wi < 2 ^ 62" "0 \<le> later" "later < 2 ^ 62"
    and "verify_stripe_signature wi body signature k"
    and "verify_stripe_signature (wi\<lparr>wh_clock := later\<rparr>) body' signature' k"
    and "signature_part ''v1'' signature' = signature_part ''v1'' signature"
  shows "body' = body \<and> signature_part ''t'' signature' = signature_part ''t'' signature \<and> \<bar>later - wh_clock wi\<bar> \<le> 600"
proof -
  let ?t = "signature_part ''t'' signature" and ?t' = "signature_part ''t'' signature'"
  obtain mac where mac: "wh_unhex wi (signature_part ''v1'' signature) = Some mac" "wh_hmac wi k (?t @ ''.'' @ body) = mac"
    and fresh: "fresh_timestamp (wh_clock wi) ?t" by (rule verified_parts [OF assms(6)])
  obtain mac' where mac': "wh_unhex wi (signature_part ''v1'' signature) = Some mac'" "wh_hmac wi k (?t' @ ''.'' @ body') = mac'"
    and fresh': "fresh_timestamp later ?t'" using verified_parts [OF assms(7)] assms(8) by auto
  have macs: "wh_hmac wi k (?t' @ ''.'' @ body') = wh_hmac wi k (?t @ ''.'' @ body)" using mac mac' by simp
  obtain ts where ts: "parse_i64 ?t = Some ts" "\<bar>wh_clock wi - ts\<bar> \<le> 300 \<or> ts = wh_clock wi - 2 ^ 63"
    using fresh_timestamp_window [OF fresh assms(2,3)] by blast
  obtain ts' where ts': "parse_i64 ?t' = Some ts'" "\<bar>later - ts'\<bar> \<le> 300 \<or> ts' = later - 2 ^ 63"
    using fresh_timestamp_window [OF fresh' assms(4,5)] by blast
  have no_dot: "CHR ''.'' \<notin> set ?t" "CHR ''.'' \<notin> set ?t'"
    using parse_i64_cases [OF ts(1)] parse_i64_cases [OF ts'(1)] by (auto simp: is_ascii_digit_def byte_def)
  have "?t' @ ''.'' @ body' = ?t @ ''.'' @ body" using assms(1) macs by blast
  then have same: "?t' = ?t" "body' = body" using split_at_dot [OF _ no_dot(2,1)] by blast+
  then have "ts' = ts" using ts(1) ts'(1) by simp
  then have "\<bar>later - wh_clock wi\<bar> \<le> 600" using ts(2) ts'(2) assms(2-5) by auto
  then show ?thesis using same by simp
qed

definition sample_wi :: wh_io where
  "sample_wi = \<lparr>wh_secret = Some ''key'', wh_hmac = (\<lambda>k m. k @ m), wh_unhex = Some,
     wh_parse = (\<lambda>b. Inl ''no event''), wh_clock = 1000, wh_stored_secs = 1000, wh_stored_text = ''t'', wh_upper = (\<lambda>s. s),
     wh_raw_select = (\<lambda>_ rs. Inr [])\<rparr>"

theorem unsigned_webhooks_change_nothing_witness:
  "snd (handle_stripe_webhook sample_he sample_io sample_wi ''t=1,v1=ab'' (Inr ''{}'') (sample_h ''pending'' ''pending'')) =
     sample_h ''pending'' ''pending''"
proof -
  let ?s = "sample_h ''pending'' ''pending''"
  obtain r s' where run: "handle_stripe_webhook sample_he sample_io sample_wi ''t=1,v1=ab'' (Inr ''{}'') ?s = (r, s')" by force
  have "signature_part ''t'' ''t=1,v1=ab'' = ''1''"
    by (simp add: signature_part_def signature_parts_def List.map_filter_def)
  then have "\<not> fresh_timestamp (wh_clock sample_wi) (signature_part ''t'' ''t=1,v1=ab'')"
    by (simp add: fresh_timestamp_def sample_wi_def parse_i64_def parse_unsigned_def is_ascii_digit_def byte_def wrap_i64_def)
  then show ?thesis using unsigned_webhooks_change_nothing [OF run] run by simp
qed

theorem signature_binds_body_and_time_witness:
  "verify_stripe_signature sample_wi ''{}'' ''t=990,v1=key990.{}'' ''key'' \<and>
   signature_part ''t'' ''t=990,v1=key990.{}'' = signature_part ''t'' ''t=990,v1=key990.{}'' \<and> \<bar>(1200 :: int) - 1000\<bar> \<le> 600"
proof -
  have parts: "signature_part ''t'' ''t=990,v1=key990.{}'' = ''990''" "signature_part ''v1'' ''t=990,v1=key990.{}'' = ''key990.{}''"
    by (simp_all add: signature_part_def signature_parts_def List.map_filter_def)
  have ok: "verify_stripe_signature (sample_wi\<lparr>wh_clock := c\<rparr>) ''{}'' ''t=990,v1=key990.{}'' ''key''" if "c \<in> {1000, 1200}" for c
    using that
    by (auto simp: verify_stripe_signature_def Let_def parts fresh_timestamp_def sample_wi_def parse_i64_def parse_unsigned_def
        is_ascii_digit_def byte_def wrap_i64_def)
  have same: "sample_wi\<lparr>wh_clock := 1000\<rparr> = sample_wi" by (simp add: sample_wi_def)
  show ?thesis
    using signature_binds_body_and_time [of sample_wi "''key''" 1200 "''{}''" "''t=990,v1=key990.{}''" "''{}''" "''t=990,v1=key990.{}''"]
      ok [of 1000] ok [of 1200] same
    by (simp add: sample_wi_def)
qed

subsection \<open>Deliveries\<close>

lemma event_document_id: "jget_str ''id'' (event_document wi ev) = Some (we_id ev)"
  by (simp add: event_document_def jget_str_def)

lemma try_store_cases:
  assumes "try_store_webhook_event_atomic he io wi ev d = (q, d')"
  shows "if q = Inr True
    then doc_of (we_id ev) (tables d WEBHOOK_EVENTS) = None \<and>
      (\<exists>row. d_id row = we_id ev \<and> tables d' = (tables d)(WEBHOOK_EVENTS := tables d WEBHOOK_EVENTS @ [row]))
    else tables d' = tables d"
proof (cases "we_id ev = [] \<or> 512 < length (we_id ev)")
  case False
  obtain c where c: "create_document (he_pg he) (io_uuid io 0) (io_db_now io 0) WEBHOOK_EVENTS (event_document wi ev) d = (c, d')"
    and q: "q = (case c of Inr _ \<Rightarrow> Inr True | Inl e \<Rightarrow> if says_duplicate (error_to_string e) then Inr False else Inl e)"
    using assms False
    by (auto simp: try_store_webhook_event_atomic_def elim!: abind_cases simp: atry_eq split: sum.splits if_splits)
  show ?thesis
  proof (cases c)
    case (Inr x)
    then obtain row body where
        row: "row = \<lparr>d_id = (case jget_str ''id'' (event_document wi ev) of Some i \<Rightarrow> i | None \<Rightarrow> io_uuid io 0), d_data = body,
          d_created_at = io_db_now io 0, d_updated_at = io_db_now io 0\<rparr>"
      and new: "doc_of (d_id row) (tables d WEBHOOK_EVENTS) = None"
        "tables d' = (tables d)(WEBHOOK_EVENTS := tables d WEBHOOK_EVENTS @ [row])"
      using create_document_cases [OF c] by auto
    have "d_id row = we_id ev" by (simp add: row event_document_id)
    then show ?thesis using q Inr new by auto
  qed (use create_document_cases [OF c] q in auto)
qed (use assms in \<open>auto simp: try_store_webhook_event_atomic_def\<close>)

text \<open>
  The steps that concern the events, of requests that overlap in any way: an event is taken up or
  refused, its handler runs, its record is removed again, and everything else the system does.
\<close>

datatype delivery = Began string | Refused string | Worked string | Undone string | Elsewhere

inductive deliveries :: "h_env \<Rightarrow> h_state \<Rightarrow> delivery list \<Rightarrow> h_state \<Rightarrow> bool" for he where
  deliveries_nil: "deliveries he s [] s"
| deliveries_begin: "deliveries he s ls u \<Longrightarrow> hdb (try_store_webhook_event_atomic he io wi ev) u = (Inr True, v) \<Longrightarrow>
     deliveries he s (ls @ [Began (we_id ev)]) v"
| deliveries_refuse: "deliveries he s ls u \<Longrightarrow> hdb (try_store_webhook_event_atomic he io wi ev) u = (r, v) \<Longrightarrow> r \<noteq> Inr True \<Longrightarrow>
     deliveries he s (ls @ [Refused (we_id ev)]) v"
| deliveries_work: "deliveries he s ls u \<Longrightarrow> dispatch_event he io wi ev u = (r, v) \<Longrightarrow>
     deliveries he s (ls @ [Worked (we_id ev)]) v"
| deliveries_undo: "deliveries he s ls u \<Longrightarrow> ignoring (delete_document WEBHOOK_EVENTS i) u = (r, v) \<Longrightarrow>
     deliveries he s (ls @ [Undone i]) v"
| deliveries_other: "deliveries he s ls u \<Longrightarrow> same_events u v \<Longrightarrow> deliveries he s (ls @ [Elsewhere]) v"

definition undoes :: "string \<Rightarrow> delivery list \<Rightarrow> bool" where
  "undoes i ls \<longleftrightarrow> (\<exists>j. Undone j \<in> set ls \<and> bare_id WEBHOOK_EVENTS j = i)"

abbreviation recorded :: "string \<Rightarrow> h_state \<Rightarrow> bool" where
  "recorded i s \<equiv> doc_of i (tbl s WEBHOOK_EVENTS) \<noteq> None"

lemma deliveries_keep:
  assumes "deliveries he s ls s'" "recorded i s" "\<not> undoes i ls"
  shows "recorded i s'"
  using assms
proof (induction rule: deliveries.induct)
  case (deliveries_begin s ls u io wi ev v)
  then show ?case by (auto simp: hdb_eq undoes_def doc_of_append dest!: try_store_cases split: option.splits)
next
  case (deliveries_refuse s ls u io wi ev r v)
  then show ?case by (auto simp: hdb_eq undoes_def dest!: try_store_cases)
next
  case (deliveries_work s ls u io wi ev r v)
  then have "same_events u v" using staysD [OF events_frame.stays_dispatch] by blast
  then show ?case using deliveries_work by (simp add: same_events_def undoes_def)
next
  case (deliveries_undo s ls u j r v)
  obtain q d where "delete_document WEBHOOK_EVENTS j (hs_db u) = (q, d)" "v = u\<lparr>hs_db := d\<rparr>"
    using deliveries_undo.hyps(2) unfolding ignoring_def by (auto elim!: abind_cases simp: hdb_eq atry_eq)
  moreover have "bare_id WEBHOOK_EVENTS j \<noteq> i" "recorded i u" using deliveries_undo by (auto simp: undoes_def)
  ultimately show ?case by (auto simp: doc_of_filter dest!: delete_document_cases split: sum.splits)
next
  case (deliveries_other s ls u v)
  then show ?case by (auto simp: same_events_def undoes_def)
qed

lemma deliveries_recorded:
  assumes "deliveries he s ls s'" "ls = a @ Began i # b" "\<not> undoes i b"
  shows "recorded i s'"
  using assms
proof (induction arbitrary: b rule: deliveries.induct)
  case (deliveries_nil s)
  then show ?case by simp
next
  case (deliveries_begin s ls u io wi ev v)
  show ?case
  proof (cases b rule: rev_cases)
    case Nil
    then have "we_id ev = i" using deliveries_begin.prems by simp
    then show ?thesis using deliveries_begin.hyps(2) by (auto simp: hdb_eq doc_of_append dest!: try_store_cases split: option.splits)
  next
    case (snoc b' l)
    then have "recorded i u" using deliveries_begin by (auto simp: undoes_def)
    then show ?thesis using deliveries_begin.hyps(2) by (auto simp: hdb_eq doc_of_append dest!: try_store_cases split: option.splits)
  qed
next
  case (deliveries_refuse s ls u io wi ev r v)
  then obtain b' where "b = b' @ [Refused (we_id ev)]" "ls = a @ Began i # b'" by (cases b rule: rev_cases) auto
  then have "recorded i u" using deliveries_refuse by (auto simp: undoes_def)
  then show ?case using deliveries_refuse.hyps(2,3) by (auto simp: hdb_eq dest!: try_store_cases)
next
  case (deliveries_work s ls u io wi ev r v)
  then obtain b' where "b = b' @ [Worked (we_id ev)]" "ls = a @ Began i # b'" by (cases b rule: rev_cases) auto
  then have "recorded i u" using deliveries_work by (auto simp: undoes_def)
  then show ?case using staysD [OF events_frame.stays_dispatch deliveries_work.hyps(2)] by (simp add: same_events_def)
next
  case (deliveries_undo s ls u j r v)
  then obtain b' where b': "b = b' @ [Undone j]" "ls = a @ Began i # b'" by (cases b rule: rev_cases) auto
  then have "recorded i u" using deliveries_undo by (auto simp: undoes_def)
  moreover have "deliveries he u ([] @ [Undone j]) v"
    by (rule deliveries.deliveries_undo [OF deliveries.deliveries_nil deliveries_undo.hyps(2)])
  moreover have "\<not> undoes i [Undone j]" using b' deliveries_undo.prems(2) by (auto simp: undoes_def)
  ultimately show ?case using deliveries_keep [of he u "[Undone j]" v i] by simp
next
  case (deliveries_other s ls u v)
  then obtain b' where "b = b' @ [Elsewhere]" "ls = a @ Began i # b'" by (cases b rule: rev_cases) auto
  then have "recorded i u" using deliveries_other by (auto simp: undoes_def)
  then show ?case using deliveries_other.hyps(2) by (simp add: same_events_def)
qed

text \<open>
  C32. However deliveries and the rest of the system interleave, an event that has been taken up is
  taken up again only after its record was removed: between two beginnings of the same event id
  lies a removal of its record, as a handler that failed or the purge of old records makes it.
\<close>

theorem event_taken_up_once:
  assumes "deliveries he s ls s'" "ls = a @ Began i # b @ Began i # c"
  shows "undoes i b"
  using assms
proof (induction arbitrary: c rule: deliveries.induct)
  case (deliveries_begin s ls u io wi ev v)
  show ?case
  proof (cases c rule: rev_cases)
    case Nil
    then have "ls = a @ Began i # b" "we_id ev = i" using deliveries_begin.prems by simp_all
    moreover have "\<not> recorded (we_id ev) u" using deliveries_begin.hyps(2) by (auto simp: hdb_eq dest!: try_store_cases)
    ultimately show ?thesis using deliveries_recorded [OF deliveries_begin.hyps(1), of a i b] by blast
  qed (use deliveries_begin in auto)
next
  case (deliveries_refuse s ls u io wi ev r v)
  then show ?case by (cases c rule: rev_cases) auto
next
  case (deliveries_work s ls u io wi ev r v)
  then show ?case by (cases c rule: rev_cases) auto
next
  case (deliveries_undo s ls u j r v)
  then show ?case by (cases c rule: rev_cases) auto
next
  case (deliveries_other s ls u v)
  then show ?case by (cases c rule: rev_cases) auto
qed simp

lemma process_event_ok:
  assumes "process_event he io wi ev s = (Inr (webhook_answer ''ok'' ev), s')"
  shows "recorded (we_id ev) s'"
proof -
  obtain b u where store: "hdb (try_store_webhook_event_atomic he io wi ev) s = (Inr b, u)"
    and rest: "(if \<not> b then areturn (webhook_answer ''duplicate'' ev)
       else abind (atry (dispatch_event he io wi ev)) (\<lambda>result. case result of
         Inr _ \<Rightarrow> areturn (webhook_answer ''ok'' ev)
       | Inl e \<Rightarrow> abind (ignoring (delete_document WEBHOOK_EVENTS (we_id ev))) (\<lambda>_. athrow e))) u =
      (Inr (webhook_answer ''ok'' ev), s')"
    using assms unfolding process_event_def abind_eq_Inr by blast
  have "webhook_answer ''duplicate'' ev \<noteq> webhook_answer ''ok'' ev" by (simp add: webhook_answer_def json_obj_def)
  then have b: "b" using rest by (auto split: if_splits)
  obtain q v where work: "dispatch_event he io wi ev u = (q, v)" by force
  have "s' = v" using rest b work by (auto simp: abind_def atry_def split: sum.splits prod.splits)
  moreover have "deliveries he s ([] @ [Began (we_id ev)]) u"
    by (rule deliveries_begin [OF deliveries_nil]) (use store b in simp)
  ultimately have "deliveries he s (([] @ [Began (we_id ev)]) @ [Worked (we_id ev)]) s'"
    using deliveries_work work by blast
  then show ?thesis by (rule deliveries_recorded [where a = "[]" and b = "[Worked (we_id ev)]"]) (simp_all add: undoes_def)
qed

text \<open>
  An event is processed at most once: after an event was answered with ok, and whatever else has
  happened since but a removal of its record, another delivery of its id changes no table and
  sends nothing, and if it is answered at all, it is answered as a duplicate.
\<close>

theorem second_delivery_changes_nothing:
  assumes "process_event he io wi ev s = (Inr (webhook_answer ''ok'' ev), s1)"
    and "deliveries he s1 ls s2" "\<not> undoes (we_id ev) ls" "we_id ev' = we_id ev"
    and "process_event he io' wi' ev' s2 = (r, s3)"
  shows "tables (hs_db s3) = tables (hs_db s2) \<and> hs_outbox s3 = hs_outbox s2 \<and>
    (is_ok r \<longrightarrow> r = Inr (webhook_answer ''duplicate'' ev'))"
proof -
  have rec: "recorded (we_id ev') s2"
    using deliveries_keep [OF assms(2) process_event_ok [OF assms(1)] assms(3)] assms(4) by simp
  obtain q d where q: "try_store_webhook_event_atomic he io' wi' ev' (hs_db s2) = (q, d)" by force
  have "q \<noteq> Inr True" "tables d = tables (hs_db s2)" using try_store_cases [OF q] rec by (auto split: if_splits)
  then show ?thesis
    using assms(5) q by (cases q) (auto simp: process_event_def abind_def hdb_def)
qed

subsection \<open>Samples\<close>

lemma events_table_safe [simp]: "safe_identifier WEBHOOK_EVENTS"
  by (simp add: WEBHOOK_EVENTS_def safe_identifier_def ident_char_def ascii_defs)

text \<open>Without faults an event with a new id is recorded.\<close>

lemma try_store_calm:
  assumes "pg_faults (hs_db s) = []" "pg_to_jsonb (he_pg he) (event_document wi ev) = Inr body"
    and "we_id ev \<noteq> []" "length (we_id ev) \<le> 512" "\<not> recorded (we_id ev) s"
  shows "hdb (try_store_webhook_event_atomic he io wi ev) s = (Inr True, s\<lparr>hs_db := (hs_db s)\<lparr>tables := (tables (hs_db s))
    (WEBHOOK_EVENTS := tbl s WEBHOOK_EVENTS @ [\<lparr>d_id = we_id ev, d_data = body, d_created_at = io_db_now io 0, d_updated_at = io_db_now io 0\<rparr>])\<rparr>\<rparr>)"
proof -
  have "pg_calm WEBHOOK_EVENTS (hs_db s)" using assms(1) by (simp add: pg_calm_def)
  from create_document_calm [OF this assms(2)] show ?thesis
    using assms(3-5) by (simp add: hdb_def try_store_webhook_event_atomic_def abind_def atry_def event_document_id Let_def)
qed

definition sample_event :: "string \<Rightarrow> json \<Rightarrow> StripeWebhookEvent" where
  "sample_event t d = \<lparr>we_id = ''evt_1'', we_type = t, we_data = d, we_created = 0\<rparr>"

definition events_state :: "doc_row list \<Rightarrow> h_state" where
  "events_state rows = \<lparr>hs_db = \<lparr>tables = (\<lambda>_. [])(WEBHOOK_EVENTS := rows), pg_faults = []\<rparr>, hs_outbox = []\<rparr>"

definition sample_record :: doc_row where
  "sample_record = \<lparr>d_id = ''evt_1'', d_data = event_document sample_wi (sample_event ''ping'' JNull), d_created_at = 5, d_updated_at = 5\<rparr>"

lemma sample_store_event:
  "hdb (try_store_webhook_event_atomic sample_he sample_io sample_wi (sample_event ''ping'' JNull)) (events_state []) =
     (Inr True, events_state [sample_record])"
  by (subst try_store_calm)
     (simp_all add: events_state_def sample_event_def sample_record_def sample_he_def sample_pg_def sample_io_def doc_of_def)

lemma sample_undo_event:
  "ignoring (delete_document WEBHOOK_EVENTS ''evt_1'') (events_state [sample_record]) = (Inr (), events_state [])"
proof -
  have "pg_calm WEBHOOK_EVENTS (hs_db (events_state [sample_record]))" by (simp add: events_state_def pg_calm_def)
  moreover have "bare_id WEBHOOK_EVENTS ''evt_1'' = ''evt_1''"
    by (simp add: WEBHOOK_EVENTS_def bare_id_def strip_prefix_def starts_with_def)
  ultimately show ?thesis
    by (simp add: ignoring_def hdb_def atry_def abind_def delete_document_calm)
       (simp add: events_state_def sample_record_def doc_of_def)
qed

theorem event_taken_up_once_witness:
  "deliveries sample_he (events_state []) [Began ''evt_1'', Undone ''evt_1'', Began ''evt_1''] (events_state [sample_record]) \<and>
   undoes ''evt_1'' [Undone ''evt_1'']"
proof -
  have i: "we_id (sample_event ''ping'' JNull) = ''evt_1''" by (simp add: sample_event_def)
  have "deliveries sample_he (events_state []) (([] @ [Began ''evt_1'']) @ [Undone ''evt_1'']) (events_state [])"
    by (rule deliveries_undo [OF deliveries_begin [OF deliveries_nil sample_store_event, unfolded i] sample_undo_event])
  from deliveries_begin [OF this sample_store_event, unfolded i]
  have run: "deliveries sample_he (events_state []) [Began ''evt_1'', Undone ''evt_1'', Began ''evt_1''] (events_state [sample_record])"
    by simp
  show ?thesis using event_taken_up_once [OF run, of "[]" "''evt_1''" "[Undone ''evt_1'']" "[]"] run by simp
qed

lemma sample_process:
  "process_event sample_he sample_io sample_wi (sample_event ''ping'' JNull) (events_state []) =
     (Inr (webhook_answer ''ok'' (sample_event ''ping'' JNull)), events_state [sample_record])"
proof -
  have "dispatch_event sample_he sample_io sample_wi (sample_event ''ping'' JNull) = areturn ()"
    by (simp add: dispatch_event_def sample_event_def event_handlers_def traced_types_def)
  then show ?thesis by (simp add: process_event_def abind_def sample_store_event atry_def)
qed

theorem second_delivery_changes_nothing_witness:
  "tables (hs_db (snd (process_event sample_he sample_io sample_wi (sample_event ''pong'' JNull) (events_state [sample_record])))) =
     tables (hs_db (events_state [sample_record]))"
proof -
  obtain r s3 where run: "process_event sample_he sample_io sample_wi (sample_event ''pong'' JNull) (events_state [sample_record]) = (r, s3)"
    by force
  have "\<not> undoes (we_id (sample_event ''ping'' JNull)) []" by (simp add: undoes_def)
  from second_delivery_changes_nothing [OF sample_process deliveries_nil this _ run] show ?thesis
    using run by (simp add: sample_event_def)
qed

text \<open>
  C33. Whatever a webhook request does, whichever event it carries and whatever faults the database
  reports, no order is added, removed or renamed, and the status of every order stays or
  moves from pending to confirmed, cancelled, expired or failed, from confirmed to disputed, or to
  one of the two refunded states.
\<close>

theorem webhooks_move_orders:
  assumes "jsonb_keeps_strings (he_pg he)" "handle_stripe_webhook he io wi signature body_result s = (r, s')"
  shows "order_rows_move he (tbl s ''orders'') (tbl s' ''orders'')"
proof -
  have orders: "''orders'' \<noteq> WEBHOOK_EVENTS" by (simp add: WEBHOOK_EVENTS_def)
  have process: "order_rows_move he (tbl u ''orders'') (tbl v ''orders'')" if run: "process_event he io wi ev u = (q, v)" for ev u q v
  proof -
    obtain p d where p: "try_store_webhook_event_atomic he io wi ev (hs_db u) = (p, d)" by force
    then have same: "tables d ''orders'' = tbl u ''orders''" using try_store_cases [OF p] orders by (auto split: if_splits)
    obtain w x where work: "dispatch_event he io wi ev (u\<lparr>hs_db := d\<rparr>) = (w, x)" by force
    have moved: "order_rows_move he (tbl u ''orders'') (tbl x ''orders'')"
      using staysD [OF status_frame.stays_dispatch work] assms(1) same by simp
    have del: "tbl z ''orders'' = tbl x ''orders''" if "ignoring (delete_document WEBHOOK_EVENTS (we_id ev)) x = (y, z)" for y z
      using that orders unfolding ignoring_def
      by (auto elim!: abind_cases simp: hdb_eq atry_eq dest!: delete_document_cases split: sum.splits)
    show ?thesis
    proof (cases "p = Inr True")
      case True
      show ?thesis
      proof (cases w)
        case (Inl e)
        then have "ignoring (delete_document WEBHOOK_EVENTS (we_id ev)) x = (fst (ignoring (delete_document WEBHOOK_EVENTS (we_id ev)) x), v)"
          using run p True work by (auto simp: process_event_def abind_def hdb_def atry_def split: prod.splits sum.splits)
        then show ?thesis using del moved by metis
      qed (use run p True work moved in \<open>auto simp: process_event_def abind_def hdb_def atry_def\<close>)
    next
      case False
      then have "v = u\<lparr>hs_db := d\<rparr>" using run p by (cases p) (auto simp: process_event_def abind_def hdb_def)
      then show ?thesis using same by (simp add: order_rows_move_refl)
    qed
  qed
  show ?thesis
    using assms(2) process
    by (auto simp: handle_stripe_webhook_def hres_def order_rows_move_refl split: if_splits sum.splits elim!: abind_cases)
qed

theorem webhooks_move_orders_witness:
  "order_rows_move sample_he (tbl (sample_h ''pending'' ''pending'') ''orders'')
     (tbl (snd (handle_stripe_webhook sample_he sample_io sample_wi ''t=990,v1=key990.{}'' (Inr ''{}'') (sample_h ''pending'' ''pending''))) ''orders'')"
  by (rule webhooks_move_orders [OF sample_keeps_strings prod.collapse [symmetric]])

end
