(* ===== verification/Webhook_Progress.thy ===== *)
theory Webhook_Progress
  imports Webhook_Events Checkout_Progress
begin

text \<open>
  What the handlers achieve when the database reports no faults: a completed checkout session
  confirms its order, a successful payment intent is recorded only in part, and an abandoned
  order gives its stock back.
\<close>

subsection \<open>Statements without faults\<close>

lemma select_first_calm:
  "no_faults s \<Longrightarrow> safe_identifier t \<Longrightarrow> select_first he t hit s =
     (Inr (map_option (inject_document_metadata (he_pg he)) (List.find hit (tables s t))), s)"
  by (simp add: select_first_def abind_def atry_def ensure_table_calm pg_calm_def no_faults_def pg_exec_calm)

definition patched :: "int \<Rightarrow> (string \<times> string) list \<Rightarrow> doc_row \<Rightarrow> doc_row" where
  "patched now kvs r =
     r\<lparr>d_data := (case d_data r of JObject m \<Rightarrow> JObject (fold (\<lambda>(k, v). obj_insert k (JString v)) kvs m) | v \<Rightarrow> v), d_updated_at := now\<rparr>"

lemma patched_simps [simp]:
  "d_id (patched now kvs r) = d_id r"
  "d_data r = JObject m \<Longrightarrow> d_data (patched now kvs r) = JObject (fold (\<lambda>(k, v). obj_insert k (JString v)) kvs m)"
  by (simp_all add: patched_def)

lemma update_where_calm:
  assumes "no_faults s" "safe_identifier t" "\<And>r. r \<in> set (tables s t) \<Longrightarrow> hit r \<Longrightarrow> \<exists>m. d_data r = JObject m"
  shows "update_where t now hit kvs s =
    (Inr (list_ex hit (tables s t)), s\<lparr>tables := (tables s)(t := map (\<lambda>r. if hit r then patched now kvs r else r) (tables s t))\<rparr>)"
proof -
  have "rmap (set_row now hit kvs) (tables s t) = Inr (map (\<lambda>r. (hit r, if hit r then patched now kvs r else r)) (tables s t))"
    by (intro rmap_Inr) (auto simp: set_row_def patched_def jsonb_set_object dest!: assms(3))
  moreover have "list_ex fst (map (\<lambda>r. (hit r, g r)) rs) = list_ex hit rs" for g :: "doc_row \<Rightarrow> doc_row" and rs
    by (induction rs) auto
  ultimately show ?thesis
    using assms(1,2)
    by (simp add: update_where_def abind_def atry_def ensure_table_calm pg_calm_def no_faults_def pg_exec_calm comp_def)
qed

lemma delete_where_calm:
  "no_faults s \<Longrightarrow> safe_identifier t \<Longrightarrow> delete_where t hit s =
     (Inr (), s\<lparr>tables := (tables s)(t := filter (\<lambda>r. \<not> hit r) (tables s t))\<rparr>)"
  by (simp add: delete_where_def abind_def atry_def ensure_table_calm pg_calm_def no_faults_def pg_exec_calm)

lemma unknown_column_calm:
  "no_faults s \<Longrightarrow> safe_identifier t \<Longrightarrow> \<exists>e. unknown_column t c s = (Inl (Database e), s)"
  by (simp add: unknown_column_def abind_def atry_def ensure_table_calm pg_calm_def no_faults_def pg_exec_calm)

lemma webhook_identifiers [simp]: "safe_identifier ''cart''" "safe_identifier ''refunds''" "safe_identifier ''coupon_uses''"
  by (simp_all add: safe_identifier_def ident_char_def ascii_defs)

text \<open>The state with other rows in one table.\<close>

definition with_tbl :: "string \<Rightarrow> doc_row list \<Rightarrow> h_state \<Rightarrow> h_state" where
  "with_tbl t rows s = s\<lparr>hs_db := (hs_db s)\<lparr>tables := (tables (hs_db s))(t := rows)\<rparr>\<rparr>"

lemma with_tbl_simps [simp]:
  "tbl (with_tbl t rows s) t' = (if t' = t then rows else tbl s t')"
  "hs_outbox (with_tbl t rows s) = hs_outbox s"
  "no_faults (hs_db (with_tbl t rows s)) = no_faults (hs_db s)"
  by (simp_all add: with_tbl_def no_faults_def)

lemma hdb_update_where:
  "no_faults (hs_db s) \<Longrightarrow> safe_identifier t \<Longrightarrow> (\<And>r. r \<in> set (tbl s t) \<Longrightarrow> hit r \<Longrightarrow> \<exists>m. d_data r = JObject m) \<Longrightarrow>
     hdb (update_where t now hit kvs) s =
     (Inr (list_ex hit (tbl s t)), with_tbl t (map (\<lambda>r. if hit r then patched now kvs r else r) (tbl s t)) s)"
  by (subst hdb_def, subst update_where_calm) (simp_all add: with_tbl_def)

lemma ignoring_delete_where:
  "no_faults (hs_db s) \<Longrightarrow> safe_identifier t \<Longrightarrow> ignoring (delete_where t hit) s =
     (Inr (), with_tbl t (filter (\<lambda>r. \<not> hit r) (tbl s t)) s)"
  by (simp add: ignoring_def abind_def hdb_def atry_def delete_where_calm with_tbl_def)

lemma by_member_object: "by_member he f v r \<Longrightarrow> \<exists>m. d_data r = JObject m"
  by (auto simp: by_member_def sql_eq_def member_text_def jget_def split: option.splits json.splits)

lemma find_map_same: "(\<And>x. P (f x) = P x) \<Longrightarrow> List.find P (map f xs) = map_option f (List.find P xs)"
  by (induction xs) auto

subsection \<open>The order of an event\<close>

definition order_hit :: "h_env \<Rightarrow> string \<Rightarrow> doc_row \<Rightarrow> bool" where
  "order_hit he i r \<longleftrightarrow> (let k = (case strip_prefix ''orders:'' i of Some k \<Rightarrow> k | None \<Rightarrow> i)
     in d_id r = k \<or> d_id r = i \<or> by_member he ''orderId'' k r)"

text \<open>The order that the lookup of an event finds is the row with the order id, and it is pending.\<close>

definition pending_order :: "h_env \<Rightarrow> string \<Rightarrow> h_state \<Rightarrow> doc_row \<Rightarrow> json_map \<Rightarrow> bool" where
  "pending_order he i s r m \<longleftrightarrow> List.find (order_hit he i) (tbl s ''orders'') = Some r \<and> d_id r = i \<and>
     d_data r = JObject m \<and> map_of m ''orderStatus'' = Some (JString (OrderStatus_as_str PendingPayment))"

lemma order_of_event_calm:
  assumes "no_faults (hs_db s)" "List.find (order_hit he i) (tbl s ''orders'') = Some r"
  shows "order_of_event he i s = (Inr (inject_document_metadata (he_pg he) r), s)"
proof -
  have "(\<lambda>r. d_id r = (case strip_prefix ''orders:'' i of Some k \<Rightarrow> k | None \<Rightarrow> i) \<or> d_id r = i \<or>
      by_member he ''orderId'' (case strip_prefix ''orders:'' i of Some k \<Rightarrow> k | None \<Rightarrow> i) r) = order_hit he i"
    by (auto simp: order_hit_def Let_def fun_eq_iff)
  then show ?thesis
    using assms unfolding order_of_event_def find_order_by_metadata_id_def Let_def
    by (simp add: abind_def hdb_def select_first_calm hres_def)
qed

lemma as_str_Some: "as_str v = Some t \<longleftrightarrow> v = JString t"
  by (cases v) auto

lemma is_pending_inject:
  assumes "d_data r = JObject m"
  shows "is_pending (inject_document_metadata env r) \<longleftrightarrow> map_of m ''orderStatus'' = Some (JString ''pending'')"
proof -
  have "str_field (inject_document_metadata env r) ''orderStatus'' = str_field (d_data r) ''orderStatus''"
    by (simp add: str_field_def jget_str_def jget_inject)
  moreover have "str_field (d_data r) ''orderStatus'' = ''pending'' \<longleftrightarrow> map_of m ''orderStatus'' = Some (JString ''pending'')"
    unfolding str_field_def jget_str_def assms jget_def json.case
    by (cases "map_of m ''orderStatus''") (auto simp: as_str_Some split: option.split)
  ultimately show ?thesis by (simp add: is_pending_def)
qed

definition status_patch :: "h_io \<Rightarrow> OrderStatus \<Rightarrow> (string \<times> string) list" where
  "status_patch io st = [(''orderStatus'', OrderStatus_as_str st), (''updatedAt'', io_now io 1)]"

lemma update_status_calm:
  assumes "no_faults (hs_db s)" "has_status he i (OrderStatus_as_str a) r" "r \<in> set (tbl s ''orders'')"
  shows "wh_update_order_status he io i a b s = (Inr True, with_tbl ''orders''
    (map (\<lambda>r. if has_status he i (OrderStatus_as_str a) r then patched (io_db_now io 1) (status_patch io b) r else r)
      (tbl s ''orders'')) s)"
proof -
  have ne: "OrderStatus_as_str a \<noteq> []" by (cases a) auto
  have obj: "\<exists>m. d_data r = JObject m" if "has_status he i (OrderStatus_as_str a) r" for r
    using that ne by (auto simp: has_status_def member_text_def jget_def split: option.splits json.splits)
  have "list_ex (has_status he i (OrderStatus_as_str a)) (tbl s ''orders'')" using assms(2,3) by (auto simp: list_ex_iff)
  then show ?thesis
    using assms(1) obj unfolding wh_update_order_status_def status_patch_def by (subst hdb_update_where) simp_all
qed

lemma pending_has_status:
  assumes "pending_order he i s r m"
  shows "has_status he i (OrderStatus_as_str PendingPayment) r" "r \<in> set (tbl s ''orders'')"
  using assms by (auto simp: pending_order_def has_status_def member_text_def jget_def jsonb_text_def find_Some_iff)

text \<open>
  C34. A completed checkout session confirms its order: without database faults, when the order of
  the session is pending, the handler succeeds; the order is confirmed and carries the payment intent
  and the session, no other order changes, the uses of its coupon are redeemed, the
  cart of the buyer is empty and the confirmation mails are asked for. The stock stays as it was (the
  checkout has taken it), although the handler is documented to decrement it.
\<close>

theorem completed_session_confirms_order:
  assumes calm: "no_faults (hs_db s)" and ev: "session_event d = Inr (sid, payment, i, coupon)"
    and order: "pending_order he i s r m" and ids: "distinct (map d_id (tbl s ''orders''))"
  shows "\<exists>s' r'. handle_checkout_session_completed he io wi d s = (Inr (), s') \<and>
    doc_of i (tbl s' ''orders'') = Some r' \<and> jget_str ''orderStatus'' (d_data r') = Some (OrderStatus_as_str PaymentAuthorized) \<and>
    jget_str ''paymentIntentId'' (d_data r') = Some payment \<and> jget_str ''stripeSessionId'' (d_data r') = Some sid \<and>
    (\<forall>k. k \<noteq> i \<longrightarrow> doc_of k (tbl s' ''orders'') = doc_of k (tbl s ''orders'')) \<and> tbl s' ''products'' = tbl s ''products'' \<and>
    (coupon \<noteq> [] \<longrightarrow> (\<forall>u \<in> set (tbl s' ''coupon_uses''). by_member he ''orderId'' i u \<and> by_member he ''couponCode'' (wh_uppercase wi coupon) u
      \<longrightarrow> jget_str ''redeemedAt'' (d_data u) = Some (io_now io 3))) \<and>
    (\<forall>c \<in> set (tbl s' ''cart''). \<not> by_member he ''userId'' (str_field (d_data r) ''buyerId'') c \<or> str_field (d_data r) ''buyerId'' = []) \<and>
    hs_outbox s' = hs_outbox s @ [OrderMail (inject_document_metadata (he_pg he) r)]"
proof -
  let ?doc = "inject_document_metadata (he_pg he) r" and ?buyer = "str_field (d_data r) ''buyerId''"
  define f1 where "f1 = (\<lambda>r. if has_status he i (OrderStatus_as_str PendingPayment) r
    then patched (io_db_now io 1) (status_patch io PaymentAuthorized) r else r)"
  define s1 where "s1 = with_tbl ''orders'' (map f1 (tbl s ''orders'')) s"
  define kvs where "kvs = [(''paymentIntentId'', payment), (''stripeSessionId'', sid), (''updatedAt'', io_now io 2)]"
  define f2 where "f2 = (\<lambda>r. if d_id r = i then patched (io_db_now io 2) kvs r else r)"
  define s2 where "s2 = with_tbl ''orders'' (map f2 (tbl s1 ''orders'')) s1"
  define used where "used = (\<lambda>u. by_member he ''orderId'' i u \<and> by_member he ''couponCode'' (wh_uppercase wi coupon) u)"
  define s3 where "s3 = (if coupon = [] then s2 else with_tbl ''coupon_uses''
    (map (\<lambda>u. if used u then patched (io_db_now io 3) [(''redeemedAt'', io_now io 3)] u else u) (tbl s2 ''coupon_uses'')) s2)"
  define s4 where "s4 = (if ?buyer = [] then s3 else with_tbl ''cart'' (filter (\<lambda>r. \<not> by_member he ''userId'' ?buyer r) (tbl s3 ''cart'')) s3)"
  have m: "d_data r = JObject m" "d_id r = i" "map_of m ''orderStatus'' = Some (JString ''pending'')"
    using order by (simp_all add: pending_order_def)
  note has = pending_has_status [OF order]
  have row: "doc_of i (tbl s ''orders'') = Some r" using doc_of_distinct [OF ids has(2)] m by simp
  have f1r: "d_data (f1 r) = JObject (fold (\<lambda>(k, v). obj_insert k (JString v)) (status_patch io PaymentAuthorized) m)"
    using has(1) m by (simp add: f1_def)
  have ids1: "d_id (f1 x) = d_id x" "d_id (f2 x) = d_id x" for x by (simp_all add: f1_def f2_def)
  have only: "x = f1 r" if "x \<in> set (tbl s1 ''orders'')" "d_id x = i" for x
    using that row doc_of_distinct [OF ids] by (auto simp: s1_def ids1)
  have status: "wh_update_order_status he io i PendingPayment PaymentAuthorized s = (Inr True, s1)"
    using update_status_calm [OF calm has] by (simp add: s1_def f1_def)
  have ids2: "store_session_ids he io i payment sid s1 = (Inr (list_ex (\<lambda>r. d_id r = i) (tbl s1 ''orders'')), s2)"
    unfolding store_session_ids_def s2_def f2_def kvs_def
    by (subst hdb_update_where) (use only f1r calm in \<open>auto simp: s1_def\<close>)
  have coupons: "(if coupon \<noteq> [] then mark_coupon_redeemed he io wi i coupon else areturn ()) s2 = (Inr (), s3)"
  proof (cases "coupon = []")
    case False
    have "hdb (update_where ''coupon_uses'' (io_db_now io 3) used [(''redeemedAt'', io_now io 3)]) s2 =
        (Inr (list_ex used (tbl s2 ''coupon_uses'')), s3)"
      using False calm by (subst hdb_update_where) (auto simp: s1_def s2_def s3_def used_def dest: by_member_object)
    then show ?thesis using False by (simp add: mark_coupon_redeemed_def abind_def used_def)
  qed (simp add: s3_def)
  have calm3: "no_faults (hs_db s3)" using calm by (simp add: s1_def s2_def s3_def)
  have cart: "clear_cart he (str_field ?doc ''buyerId'') s3 = (Inr (), s4)"
  proof -
    have "str_field ?doc ''buyerId'' = ?buyer" by (simp add: str_field_def jget_str_def jget_inject)
    then show ?thesis using calm3 by (simp add: clear_cart_def ignoring_delete_where s4_def)
  qed
  have pend: "is_pending ?doc" using m by (simp add: is_pending_inject)
  have found: "order_of_event he i s = (Inr ?doc, s)"
    using order_of_event_calm [OF calm] order by (simp add: pending_order_def)
  have run: "handle_checkout_session_completed he io wi d s = (Inr (), s4\<lparr>hs_outbox := hs_outbox s4 @ [OrderMail ?doc]\<rparr>)"
    unfolding handle_checkout_session_completed_def
    by (simp add: hres_def ev abind_def found pend status ids2 coupons [unfolded abind_def] cart notify_def)
  have orders: "tbl s4 ''orders'' = map f2 (map f1 (tbl s ''orders''))" by (simp add: s4_def s3_def s2_def s1_def)
  have doc4: "doc_of k (tbl s4 ''orders'') = map_option (f2 \<circ> f1) (doc_of k (tbl s ''orders''))" for k
    unfolding orders by (simp add: doc_of_map ids1 option.map_comp)
  have f2r: "d_data (f2 (f1 r)) = JObject (fold (\<lambda>(k, v). obj_insert k (JString v)) kvs
      (fold (\<lambda>(k, v). obj_insert k (JString v)) (status_patch io PaymentAuthorized) m))"
    using f1r m by (simp add: f2_def ids1)
  have other: "doc_of k (tbl s4 ''orders'') = doc_of k (tbl s ''orders'')" if "k \<noteq> i" for k
    using that doc_of_id [of k "tbl s ''orders''"] unfolding doc4
    by (cases "doc_of k (tbl s ''orders'')") (auto simp: f1_def f2_def has_status_def)
  have redeemed: "jget_str ''redeemedAt'' (d_data u) = Some (io_now io 3)" if "coupon \<noteq> []" "u \<in> set (tbl s4 ''coupon_uses'')" "used u" for u
  proof -
    have "u \<in> (\<lambda>u. if used u then patched (io_db_now io 3) [(''redeemedAt'', io_now io 3)] u else u) ` set (tbl s ''coupon_uses'')"
    proof -
      have "tbl s4 ''coupon_uses'' = tbl s3 ''coupon_uses''" by (simp add: s4_def)
      with that(1,2) show ?thesis by (simp add: s3_def s2_def s1_def)
    qed
    then obtain w where w: "u = (if used w then patched (io_db_now io 3) [(''redeemedAt'', io_now io 3)] w else w)" by blast
    with \<open>used u\<close> have "used w" by (auto split: if_splits)
    moreover from this obtain mw where "d_data w = JObject mw" unfolding used_def using by_member_object by blast
    ultimately show ?thesis using w by (simp add: jget_str_def jget_def)
  qed
  have "tbl s4 ''products'' = tbl s ''products''" "hs_outbox s4 = hs_outbox s"
    by (simp_all add: s4_def s3_def s2_def s1_def)
  moreover have "\<not> by_member he ''userId'' ?buyer c \<or> ?buyer = []" if "c \<in> set (tbl s4 ''cart'')" for c
    using that by (cases "?buyer = []") (simp_all add: s4_def)
  moreover have "jget_str ''orderStatus'' (d_data (f2 (f1 r))) = Some (OrderStatus_as_str PaymentAuthorized)"
    "jget_str ''paymentIntentId'' (d_data (f2 (f1 r))) = Some payment" "jget_str ''stripeSessionId'' (d_data (f2 (f1 r))) = Some sid"
    unfolding f2r by (simp_all add: jget_str_def jget_def kvs_def status_patch_def)
  ultimately show ?thesis
    using run doc4 [of i] row other redeemed
    by (intro exI [of _ "s4\<lparr>hs_outbox := hs_outbox s4 @ [OrderMail ?doc]\<rparr>"] exI [of _ "f2 (f1 r)"]) (simp add: used_def)
qed

subsection \<open>Payment intents\<close>

lemma unknown_column_run:
  assumes "no_faults (hs_db s)" "safe_identifier t"
  shows "\<exists>e. hdb (unknown_column t c :: 'a pg_action) s = (Inl (Fail (Database e)), s)"
proof -
  obtain e where "(unknown_column t c :: 'a pg_action) (hs_db s) = (Inl (Database e), hs_db s)"
    using unknown_column_calm [OF assms, of c] by blast
  then show ?thesis by (simp add: hdb_def)
qed

text \<open>The orders after the status of a pending order has been set to confirmed.\<close>

definition confirmed_orders :: "h_env \<Rightarrow> h_io \<Rightarrow> string \<Rightarrow> doc_row list \<Rightarrow> doc_row list" where
  "confirmed_orders he io i = map (\<lambda>r. if has_status he i (OrderStatus_as_str PendingPayment) r
     then patched (io_db_now io 1) (status_patch io PaymentAuthorized) r else r)"

lemma intent_succeeded_calm:
  assumes calm: "no_faults (hs_db s)" and ev: "intent_event d = Inr (p, i, coupon)" and order: "pending_order he i s r m"
  shows "\<exists>e. handle_payment_intent_succeeded he io wi d s =
    (Inl (Fail (Database e)), with_tbl ''orders'' (confirmed_orders he io i (tbl s ''orders'')) s)"
proof -
  define s1 where "s1 = with_tbl ''orders'' (confirmed_orders he io i (tbl s ''orders'')) s"
  have "no_faults (hs_db s1)" using calm by (simp add: s1_def)
  then obtain e where e: "hdb (unknown_column ''orders'' ''paymentIntentId'' :: unit pg_action) s1 = (Inl (Fail (Database e)), s1)"
    using unknown_column_run [of s1 "''orders''"] by auto
  have up: "wh_update_order_status he io i PendingPayment PaymentAuthorized s = (Inr True, s1)"
    using update_status_calm [OF calm pending_has_status [OF order]] by (simp add: s1_def confirmed_orders_def)
  have "d_data r = JObject m" "map_of m ''orderStatus'' = Some (JString ''pending'')" using order by (simp_all add: pending_order_def)
  then have "is_pending (inject_document_metadata (he_pg he) r)" by (simp add: is_pending_inject)
  moreover have "order_of_event he i s = (Inr (inject_document_metadata (he_pg he) r), s)"
    using order_of_event_calm [OF calm] order by (simp add: pending_order_def)
  ultimately have "handle_payment_intent_succeeded he io wi d s = (Inl (Fail (Database e)), s1)"
    unfolding handle_payment_intent_succeeded_def by (simp add: hres_def ev abind_def up e)
  then show ?thesis by (auto simp: s1_def)
qed

lemma dispatch_intent_succeeded:
  "we_type ev = ''payment_intent.succeeded'' \<Longrightarrow> dispatch_event he io wi ev = handle_payment_intent_succeeded he io wi (we_data ev)"
  by (simp add: dispatch_event_def event_handlers_def)

text \<open>The order after the first delivery: confirmed, so that a second one leaves it alone.\<close>

lemma confirmed_order_found:
  assumes "pending_order he i s r m"
  obtains r' m' where "List.find (order_hit he i) (confirmed_orders he io i (tbl s ''orders'')) = Some r'" "d_data r' = JObject m'" "d_id r' = i"
    "map_of m' ''orderStatus'' = Some (JString (OrderStatus_as_str PaymentAuthorized))"
    "map_of m' ''paymentIntentId'' = map_of m ''paymentIntentId''"
proof -
  let ?f = "\<lambda>r. if has_status he i (OrderStatus_as_str PendingPayment) r
     then patched (io_db_now io 1) (status_patch io PaymentAuthorized) r else r"
  have r: "List.find (order_hit he i) (tbl s ''orders'') = Some r" "d_id r = i" "d_data r = JObject m"
    using assms by (simp_all add: pending_order_def)
  have "order_hit he i (?f x) = order_hit he i x" for x
  proof (cases "has_status he i (OrderStatus_as_str PendingPayment) x")
    case True
    then have "d_id x = i" by (simp add: has_status_def)
    then show ?thesis using True by (simp add: order_hit_def Let_def)
  qed simp
  then have "List.find (order_hit he i) (confirmed_orders he io i (tbl s ''orders'')) = Some (?f r)"
    unfolding confirmed_orders_def by (subst find_map_same) (simp_all add: r)
  moreover have "d_data (?f r) = JObject (fold (\<lambda>(k, v). obj_insert k (JString v)) (status_patch io PaymentAuthorized) m)"
    using pending_has_status(1) [OF assms] r by simp
  ultimately show ?thesis by (rule that) (use r in \<open>simp_all add: status_patch_def\<close>)
qed

text \<open>
  C35. The notice that a payment intent succeeded is processed only in part: without database
  faults, when its order is pending, the first delivery is answered with an error after the
  order has become confirmed; the payment intent is not stored with it, no coupon is
  redeemed, no mail is asked for, and the record of the event is removed. The delivery that follows is
  answered with success and changes nothing but the record of the event.
\<close>

theorem intent_success_recorded_in_part:
  assumes "no_faults (hs_db s)" "we_type ev = ''payment_intent.succeeded''" "intent_event (we_data ev) = Inr (p, i, coupon)"
    and order: "pending_order he i s r m"
    and new: "we_id ev \<noteq> []" "length (we_id ev) \<le> 512" "\<not> recorded (we_id ev) s" "bare_id WEBHOOK_EVENTS (we_id ev) = we_id ev"
    and enc: "pg_to_jsonb (he_pg he) (event_document wi ev) = Inr body" "pg_to_jsonb (he_pg he) (event_document wi' ev) = Inr body'"
  shows "\<exists>e s1 r1 s2. process_event he io wi ev s = (Inl (Fail (Database e)), s1) \<and>
    List.find (order_hit he i) (tbl s1 ''orders'') = Some r1 \<and>
    jget_str ''orderStatus'' (d_data r1) = Some (OrderStatus_as_str PaymentAuthorized) \<and>
    jget ''paymentIntentId'' (d_data r1) = jget ''paymentIntentId'' (d_data r) \<and>
    tbl s1 ''coupon_uses'' = tbl s ''coupon_uses'' \<and> hs_outbox s1 = hs_outbox s \<and> tbl s1 WEBHOOK_EVENTS = tbl s WEBHOOK_EVENTS \<and>
    process_event he io' wi' ev s1 = (Inr (webhook_answer ''ok'' ev), s2) \<and>
    (\<forall>t. t \<noteq> WEBHOOK_EVENTS \<longrightarrow> tbl s2 t = tbl s1 t) \<and> hs_outbox s2 = hs_outbox s1"
proof -
  let ?E = WEBHOOK_EVENTS
  have dist: "''orders'' \<noteq> ?E" "''coupon_uses'' \<noteq> ?E" by (simp_all add: WEBHOOK_EVENTS_def)
  define rec where "rec = (\<lambda>b (io :: h_io). \<lparr>d_id = we_id ev, d_data = b, d_created_at = io_db_now io 0, d_updated_at = io_db_now io (0 :: nat)\<rparr>)"
  have store: "hdb (try_store_webhook_event_atomic he io wi ev) u = (Inr True, with_tbl ?E (tbl u ?E @ [rec b io]) u)"
    if "no_faults (hs_db u)" "pg_to_jsonb (he_pg he) (event_document wi ev) = Inr b" "\<not> recorded (we_id ev) u" for u b wi io
    using try_store_calm [of u he wi ev b io] that new by (simp add: no_faults_def with_tbl_def rec_def)
  define s0 where "s0 = with_tbl ?E (tbl s ?E @ [rec body io]) s"
  define s1 where "s1 = with_tbl ''orders'' (confirmed_orders he io i (tbl s0 ''orders'')) s0"
  define s2 where "s2 = with_tbl ?E (tbl s ?E) s1"
  define s3 where "s3 = with_tbl ?E (tbl s2 ?E @ [rec body' io']) s2"
  have order0: "pending_order he i s0 r m" using order dist by (simp add: pending_order_def s0_def)
  have calm: "no_faults (hs_db s0)" "no_faults (hs_db s1)" "no_faults (hs_db s2)" "no_faults (hs_db s3)"
    using assms(1) by (simp_all add: s0_def s1_def s2_def s3_def)
  obtain e where work: "dispatch_event he io wi ev s0 = (Inl (Fail (Database e)), s1)"
    using intent_succeeded_calm [OF calm(1) assms(3) order0, of io wi] dispatch_intent_succeeded [OF assms(2)] by (auto simp: s1_def)
  have undo: "ignoring (delete_document ?E (we_id ev)) s1 = (Inr (), s2)"
  proof -
    have rows: "tbl s1 ?E = tbl s ?E @ [rec body io]" using dist by (simp add: s1_def s0_def)
    have fresh: "filter (\<lambda>r. d_id r \<noteq> we_id ev) (tbl s ?E) = tbl s ?E"
      using new(3) by (auto simp: doc_of_def find_None_iff filter_id_conv)
    have "doc_of (we_id ev) (tbl s1 ?E) = Some (rec body io)" using new(3) unfolding rows by (simp add: doc_of_append rec_def)
    moreover have "pg_calm ?E (hs_db s1)" using calm(2) by (simp add: pg_calm_def no_faults_def WEBHOOK_EVENTS_def safe_identifier_def ident_char_def ascii_defs)
    ultimately show ?thesis
      using rows fresh new(4) by (simp add: ignoring_def hdb_def atry_def abind_def delete_document_calm s2_def with_tbl_def) (simp add: rec_def)
  qed
  have first: "process_event he io wi ev s = (Inl (Fail (Database e)), s2)"
    using store [OF assms(1) enc(1) new(3)] by (simp add: process_event_def abind_def atry_def work undo flip: s0_def)
  have orders: "tbl s2 ''orders'' = confirmed_orders he io i (tbl s ''orders'')" using dist by (simp add: s2_def s1_def s0_def)
  obtain r1 m1 where r1: "List.find (order_hit he i) (tbl s2 ''orders'') = Some r1" "d_data r1 = JObject m1"
      "map_of m1 ''orderStatus'' = Some (JString (OrderStatus_as_str PaymentAuthorized))"
      "map_of m1 ''paymentIntentId'' = map_of m ''paymentIntentId''"
    using confirmed_order_found [OF order, of io] orders by metis
  have "\<not> is_pending (inject_document_metadata (he_pg he) r1)" using r1(2,3) by (simp add: is_pending_inject)
  moreover have "order_of_event he i s3 = (Inr (inject_document_metadata (he_pg he) r1), s3)"
    using r1(1) dist by (intro order_of_event_calm calm(4)) (simp add: s3_def)
  ultimately have again: "dispatch_event he io' wi' ev s3 = (Inr (), s3)"
    unfolding dispatch_intent_succeeded [OF assms(2)] handle_payment_intent_succeeded_def by (simp add: hres_def assms(3) abind_def)
  have "\<not> recorded (we_id ev) s2" using new(3) by (simp add: s2_def)
  from store [OF calm(3) enc(2) this, of io'] have second: "process_event he io' wi' ev s2 = (Inr (webhook_answer ''ok'' ev), s3)"
    by (simp add: process_event_def abind_def atry_def again flip: s3_def)
  show ?thesis
    using first second r1 order dist
    by (intro exI [of _ e] exI [of _ s2] exI [of _ r1] exI [of _ s3])
       (simp add: jget_str_def jget_def pending_order_def s3_def s2_def s1_def s0_def)
qed

subsection \<open>Instances\<close>

definition pending_row :: doc_row where
  "pending_row = \<lparr>d_id = ''o1'', d_data = JObject [(''items'', JArray [json_obj [(''productId'', JString ''p1''), (''quantity'', json_int 2)]]),
     (''orderStatus'', JString ''pending'')], d_created_at = 1, d_updated_at = 1\<rparr>"

definition pending_state :: h_state where
  "pending_state = \<lparr>hs_db = \<lparr>tables = (\<lambda>_. [])(''orders'' := [pending_row],
     ''products'' := [\<lparr>d_id = ''p1'', d_data = JObject [(''stockQuantity'', json_int 5)], d_created_at = 1, d_updated_at = 1\<rparr>]),
     pg_faults = []\<rparr>, hs_outbox = []\<rparr>"

definition session_data :: json where
  "session_data = JObject [(''object'', JObject [(''id'', JString ''cs_1''), (''metadata'', JObject [(''order_id'', JString ''o1'')]),
     (''payment_intent'', JString ''pi_1'')])]"

lemma session_data_event: "session_event session_data = Inr (''cs_1'', ''pi_1'', ''o1'', [])"
  by (simp add: session_event_def session_data_def object_with_id_def event_object_def order_metadata_def str_field_def jget_str_def
      jget_def)

lemma pending_state_order:
  "pending_order sample_he ''o1'' pending_state pending_row
     [(''items'', JArray [json_obj [(''productId'', JString ''p1''), (''quantity'', json_int 2)]]), (''orderStatus'', JString ''pending'')]"
  by (simp add: pending_order_def pending_state_def pending_row_def order_hit_def strip_prefix_def starts_with_def)

lemma pending_state_calm: "no_faults (hs_db pending_state)" "distinct (map d_id (tbl pending_state ''orders''))"
  by (simp_all add: pending_state_def no_faults_def)

definition bought_row :: doc_row where
  "bought_row = \<lparr>d_id = ''o1'', d_data = JObject [(''buyerId'', JString ''u1''), (''orderStatus'', JString ''pending'')], d_created_at = 1, d_updated_at = 1\<rparr>"

definition bought_state :: h_state where
  "bought_state = \<lparr>hs_db = \<lparr>tables = (\<lambda>_. [])(''orders'' := [bought_row],
     ''coupon_uses'' := [\<lparr>d_id = ''u'', d_data = JObject [(''couponCode'', JString ''SAVE''), (''orderId'', JString ''o1'')], d_created_at = 1, d_updated_at = 1\<rparr>],
     ''cart'' := [\<lparr>d_id = ''c'', d_data = JObject [(''userId'', JString ''u1'')], d_created_at = 1, d_updated_at = 1\<rparr>]),
     pg_faults = []\<rparr>, hs_outbox = []\<rparr>"

definition coupon_data :: json where
  "coupon_data = JObject [(''object'', JObject [(''id'', JString ''cs_1''), (''metadata'', JObject [(''coupon_code'', JString ''SAVE''), (''order_id'', JString ''o1'')]),
     (''payment_intent'', JString ''pi_1'')])]"

theorem completed_session_confirms_order_witness:
  "\<exists>s' r'. handle_checkout_session_completed sample_he sample_io sample_wi coupon_data bought_state = (Inr (), s') \<and>
    doc_of ''o1'' (tbl s' ''orders'') = Some r' \<and> jget_str ''paymentIntentId'' (d_data r') = Some ''pi_1'' \<and>
    (\<forall>u \<in> set (tbl s' ''coupon_uses''). by_member sample_he ''orderId'' ''o1'' u \<and> by_member sample_he ''couponCode'' (wh_uppercase sample_wi ''SAVE'') u
      \<longrightarrow> jget_str ''redeemedAt'' (d_data u) = Some (io_now sample_io 3)) \<and>
    (\<forall>c \<in> set (tbl s' ''cart''). \<not> by_member sample_he ''userId'' ''u1'' c)"
proof -
  have ev: "session_event coupon_data = Inr (''cs_1'', ''pi_1'', ''o1'', ''SAVE'')"
    by (simp add: session_event_def coupon_data_def object_with_id_def event_object_def order_metadata_def str_field_def jget_str_def jget_def)
  have order: "pending_order sample_he ''o1'' bought_state bought_row [(''buyerId'', JString ''u1''), (''orderStatus'', JString ''pending'')]"
    by (simp add: pending_order_def bought_state_def bought_row_def order_hit_def strip_prefix_def starts_with_def)
  have calm: "no_faults (hs_db bought_state)" "distinct (map d_id (tbl bought_state ''orders''))"
    by (simp_all add: bought_state_def no_faults_def)
  have buyer: "str_field (d_data bought_row) ''buyerId'' = ''u1''" by (simp add: bought_row_def str_field_def jget_str_def jget_def)
  show ?thesis
    using completed_session_confirms_order [OF calm(1) ev order calm(2), of sample_io sample_wi] unfolding buyer by blast
qed

definition intent_data :: json where
  "intent_data = JObject [(''object'', JObject [(''id'', JString ''pi_1''), (''metadata'', JObject [(''order_id'', JString ''o1'')])])]"

lemma intent_data_event: "intent_event intent_data = Inr (''pi_1'', ''o1'', [])"
  by (simp add: intent_event_def intent_data_def object_with_id_def event_object_def order_metadata_def jget_str_def jget_def)

theorem intent_success_recorded_in_part_witness:
  "\<exists>e s1 s2. process_event sample_he sample_io sample_wi (sample_event ''payment_intent.succeeded'' intent_data) pending_state =
     (Inl (Fail (Database e)), s1) \<and> hs_outbox s1 = [] \<and>
   process_event sample_he sample_io sample_wi (sample_event ''payment_intent.succeeded'' intent_data) s1 =
     (Inr (webhook_answer ''ok'' (sample_event ''payment_intent.succeeded'' intent_data)), s2) \<and> hs_outbox s2 = []"
proof -
  let ?ev = "sample_event ''payment_intent.succeeded'' intent_data"
  have ev: "we_type ?ev = ''payment_intent.succeeded''" "intent_event (we_data ?ev) = Inr (''pi_1'', ''o1'', [])"
    "we_id ?ev \<noteq> []" "length (we_id ?ev) \<le> 512" "bare_id WEBHOOK_EVENTS (we_id ?ev) = we_id ?ev"
    by (simp_all add: sample_event_def intent_data_event bare_id_def strip_prefix_def starts_with_def WEBHOOK_EVENTS_def)
  have new: "\<not> recorded (we_id ?ev) pending_state" by (simp add: pending_state_def WEBHOOK_EVENTS_def doc_of_def)
  have enc: "pg_to_jsonb (he_pg sample_he) (event_document sample_wi ?ev) = Inr (event_document sample_wi ?ev)"
    by (simp add: sample_he_def sample_pg_def)
  have box: "hs_outbox pending_state = []" by (simp add: pending_state_def)
  show ?thesis
    using intent_success_recorded_in_part [OF pending_state_calm(1) ev(1,2) pending_state_order ev(3,4) new ev(5) enc enc,
        of sample_io sample_io] unfolding box by metis
qed

end
