(* ===== verification/Webhook_Stock.thy ===== *)
theory Webhook_Stock
  imports Webhook_Progress
begin

text \<open>
  The stock that abandoned orders give back: the units of the items, once per run of the handler.
  The handlers drop the outcome of the conditional status change, so two of them that read the
  same pending order both give its units back.
\<close>

subsection \<open>One product\<close>

definition stocked :: "doc_row list \<Rightarrow> string \<Rightarrow> int \<Rightarrow> bool" where
  "stocked rows k n \<longleftrightarrow> i64_range n \<and>
     (\<exists>r m. doc_of k rows = Some r \<and> d_data r = JObject m \<and> map_of m ''stockQuantity'' = Some (json_int n))"

text \<open>Documented behaviour of the database: an object with one integer is stored as it is.\<close>

definition keeps_stock :: "h_env \<Rightarrow> bool" where
  "keeps_stock he \<longleftrightarrow> (\<forall>k. pg_to_jsonb (he_pg he) (json_obj [(''stockQuantity'', json_int k)]) = Inr (JObject [(''stockQuantity'', json_int k)]))"

lemma stocked_unique: "stocked rows k n \<Longrightarrow> stocked rows k n' \<Longrightarrow> n' = n"
  unfolding stocked_def by (metis as_i64_json_int json.inject(5) option.inject)

lemma merged_stock:
  assumes "d_data r = JObject m"
  shows "\<exists>m'. d_data (merged now (JObject [(''stockQuantity'', v)]) r) = JObject m' \<and> map_of m' ''stockQuantity'' = Some v"
  using assms by (auto simp: merged_def map_of_obj_merge obj_ok_def)

lemma restore_attempts_calm:
  assumes "no_faults (hs_db s)" "keeps_stock he" "stocked (tbl s ''products'') (bare_id ''products'' pid) n" "i64_range (n + qty)"
  obtains rows where "restore_attempts he io pid qty (Suc k) s = (Inr True, with_tbl ''products'' rows s)"
    "\<And>j i. stocked rows j i \<longleftrightarrow> stocked (tbl s ''products'') j (i - (if j = bare_id ''products'' pid then qty else 0))"
proof -
  let ?key = "bare_id ''products'' pid" and ?env = "he_pg he" and ?body = "JObject [(''stockQuantity'', json_int (n + qty))]"
  obtain r m where r: "doc_of ?key (tbl s ''products'') = Some r" "d_data r = JObject m" "map_of m ''stockQuantity'' = Some (json_int n)"
    and n: "i64_range n" using assms(3) by (auto simp: stocked_def)
  define f where "f = (\<lambda>r. if cas_matches ?env ?key ''stockQuantity'' (json_int n) r then merged (io_db_now io (20 + k)) ?body r else r)"
  have read: "i64_field (inject_document_metadata ?env r) ''stockQuantity'' = n"
    using r n by (simp add: i64_field_def jget_i64_def jget_inject) (simp add: jget_def as_i64_json_int)
  have hit: "cas_matches ?env ?key ''stockQuantity'' (json_int n) r"
    using r doc_of_id [OF r(1)] by (simp add: cas_matches_def member_text_def jget_def sql_eq_def jsonb_text_def json_int_def)
  have calm: "pg_calm ''products'' (hs_db s)" using assms(1) by (simp add: pg_calm_def no_faults_def)
  have enc: "pg_to_jsonb ?env (json_obj [(''stockQuantity'', json_int (n + qty))]) = Inr ?body"
    using assms(2) by (simp add: keeps_stock_def)
  let ?u = "update_document_cas ?env (io_db_now io (20 + k)) ''products'' pid (json_obj [(''stockQuantity'', json_int (n + qty))])
    ''stockQuantity'' (json_int n) (hs_db s)"
  have "fst ?u \<noteq> Inr None" "is_ok (fst ?u)"
    using update_document_cas_calm(1,2) [OF calm enc] hit r(1) by (auto simp: doc_of_def find_Some_iff)
  then obtain d where "fst ?u = Inr (Some d)" by (cases "fst ?u") auto
  moreover have "snd ?u = (hs_db s)\<lparr>tables := (tables (hs_db s))(''products'' := map f (tbl s ''products''))\<rparr>"
    using update_document_cas_calm(3) [OF calm enc] by (simp add: f_def)
  ultimately have u: "?u = (Inr (Some d), (hs_db s)\<lparr>tables := (tables (hs_db s))(''products'' := map f (tbl s ''products''))\<rparr>)"
    by (metis prod.collapse)
  have hu: "hdb (update_document_cas ?env (io_db_now io (20 + k)) ''products'' pid (json_obj [(''stockQuantity'', json_int (n + qty))])
      ''stockQuantity'' (json_int n)) s = (Inr (Some d), with_tbl ''products'' (map f (tbl s ''products'')) s)"
    by (simp add: hdb_def u with_tbl_def)
  have run: "restore_attempts he io pid qty (Suc k) s = (Inr True, with_tbl ''products'' (map f (tbl s ''products'')) s)"
    using r(1) read assms(4) hu by (simp add: abind_def get_try_calm [OF assms(1)] Let_def wrap_i64_id)
  have ids: "d_id (f x) = d_id x" for x by (simp add: f_def merged_def)
  have docs: "doc_of j (map f (tbl s ''products'')) = map_option f (doc_of j (tbl s ''products''))" for j
    by (rule doc_of_map) (rule ids)
  have new: "stocked (map f (tbl s ''products'')) ?key (n + qty)"
  proof -
    have "doc_of ?key (map f (tbl s ''products'')) = Some (merged (io_db_now io (20 + k)) ?body r)" using docs r(1) hit by (simp add: f_def)
    then show ?thesis using merged_stock [OF r(2)] assms(4) unfolding stocked_def by blast
  qed
  have old: "doc_of j (map f (tbl s ''products'')) = doc_of j (tbl s ''products'')" if "j \<noteq> ?key" for j
  proof -
    have "f x = x" if "doc_of j (tbl s ''products'') = Some x" for x
      using doc_of_id [OF that] \<open>j \<noteq> ?key\<close> by (simp add: f_def cas_matches_def)
    then show ?thesis unfolding docs by (cases "doc_of j (tbl s ''products'')") auto
  qed
  have "stocked (map f (tbl s ''products'')) j i \<longleftrightarrow> stocked (tbl s ''products'') j (i - (if j = ?key then qty else 0))" for j i
  proof (cases "j = ?key")
    case True
    have "stocked (map f (tbl s ''products'')) ?key i \<longleftrightarrow> i = n + qty" using new stocked_unique by blast
    moreover have "stocked (tbl s ''products'') ?key (i - qty) \<longleftrightarrow> i - qty = n" using assms(3) stocked_unique by blast
    ultimately show ?thesis using True by auto
  qed (simp add: stocked_def old)
  with run show ?thesis by (rule that)
qed

subsection \<open>The items of an order\<close>

definition product_key :: "json \<Rightarrow> string" where
  "product_key item = bare_id ''products'' (str_field item ''productId'')"

definition returns_units :: "json \<Rightarrow> bool" where
  "returns_units item \<longleftrightarrow> str_field item ''productId'' \<noteq> [] \<and> 0 < item_quantity item"

definition units_of :: "string \<Rightarrow> json list \<Rightarrow> int" where
  "units_of k items = sum_list (map item_quantity (filter (\<lambda>item. returns_units item \<and> product_key item = k) items))"

lemma units_of_simps [simp]:
  "units_of k [] = 0"
  "units_of k (item # items) = (if returns_units item \<and> product_key item = k then item_quantity item else 0) + units_of k items"
  by (simp_all add: units_of_def)

lemma units_of_nonneg: "0 \<le> units_of k items"
  by (induction items) (auto simp: returns_units_def)

text \<open>Every product of the items has a stock with room for the units.\<close>

definition stock_ready :: "doc_row list \<Rightarrow> json list \<Rightarrow> int \<Rightarrow> bool" where
  "stock_ready rows items reps \<longleftrightarrow>
     (\<forall>item \<in> set items. returns_units item \<longrightarrow> (\<exists>n. stocked rows (product_key item) n)) \<and>
     (\<forall>k n. stocked rows k n \<longrightarrow> n + reps * units_of k items < 2 ^ 63)"

lemma restore_items_calm:
  assumes "no_faults (hs_db s)" "keeps_stock he" "stock_ready (tbl s ''products'') items 1"
  shows "\<exists>rows. restore_order_items he io items s = (Inr (), with_tbl ''products'' rows s) \<and>
    (\<forall>k j. stocked rows k j \<longleftrightarrow> stocked (tbl s ''products'') k (j - units_of k items))"
  using assms
proof (induction items arbitrary: s)
  case Nil
  have "with_tbl ''products'' (tbl s ''products'') s = s" by (simp add: with_tbl_def)
  then show ?case by (intro exI [of _ "tbl s ''products''"]) simp
next
  case (Cons item items)
  show ?case
  proof (cases "returns_units item")
    case False
    then have "restore_order_items he io (item # items) s = restore_order_items he io items s"
      by (auto simp: returns_units_def Let_def not_less)
    then show ?thesis using Cons False by (simp add: stock_ready_def)
  next
    case True
    let ?pid = "str_field item ''productId''" and ?q = "item_quantity item"
    note room = Cons.prems(3) [unfolded stock_ready_def]
    obtain n where n: "stocked (tbl s ''products'') (bare_id ''products'' ?pid) n"
      using room True by (auto simp: product_key_def)
    have "n + ?q + units_of (product_key item) items < 2 ^ 63"
      using room n True by (fastforce simp: product_key_def)
    then have "i64_range (n + ?q)"
      using n True units_of_nonneg [of "product_key item" items] by (auto simp: i64_range_def stocked_def returns_units_def)
    from restore_attempts_calm [OF Cons.prems(1,2) n this, of io 2] obtain rows where
      one: "restore_attempts he io ?pid ?q 3 s = (Inr True, with_tbl ''products'' rows s)"
      and key: "\<And>k j. stocked rows k j \<longleftrightarrow> stocked (tbl s ''products'') k (j - (if k = product_key item then ?q else 0))"
      by (auto simp: numeral_3_eq_3 product_key_def)
    let ?s1 = "with_tbl ''products'' rows s"
    have "stock_ready rows items 1"
      unfolding stock_ready_def
    proof (intro conjI ballI allI impI)
      fix x assume "x \<in> set items" "returns_units x"
      then obtain n' where "stocked (tbl s ''products'') (product_key x) n'" using room by auto
      then show "\<exists>n. stocked rows (product_key x) n"
        by (intro exI [of _ "n' + (if product_key x = product_key item then ?q else 0)"]) (simp add: key)
    next
      fix k j assume "stocked rows k j"
      then have "stocked (tbl s ''products'') k (j - (if k = product_key item then ?q else 0))" by (simp add: key)
      with room have "j - (if k = product_key item then ?q else 0) + 1 * units_of k (item # items) < 2 ^ 63" by blast
      then show "j + 1 * units_of k items < 2 ^ 63" using True by (cases "k = product_key item") auto
    qed
    then obtain rows' where more: "restore_order_items he io items ?s1 = (Inr (), with_tbl ''products'' rows' ?s1)"
      and units: "\<forall>k j. stocked rows' k j \<longleftrightarrow> stocked rows k (j - units_of k items)"
      using Cons.IH [of ?s1] Cons.prems(1,2) by auto
    have "restore_order_items he io (item # items) s = (Inr (), with_tbl ''products'' rows' s)"
      using True one more by (simp add: returns_units_def Let_def abind_def with_tbl_def not_le)
    moreover have "stocked rows' k j \<longleftrightarrow> stocked (tbl s ''products'') k (j - units_of k (item # items))" for k j
      using units key True by (simp add: algebra_simps)
    ultimately show ?thesis by blast
  qed
qed

subsection \<open>Abandoned orders\<close>

text \<open>
  The handler of a failed, canceled or expired payment, with the order as it was read. It gives the
  units back whatever the status of the order has become since.
\<close>

definition unredeemed :: "h_env \<Rightarrow> string \<Rightarrow> doc_row \<Rightarrow> bool" where
  "unredeemed he i r \<longleftrightarrow> by_member he ''orderId'' i r \<and> member_text (he_pg he) ''redeemedAt'' (d_data r) = None"

definition moved_order :: "h_env \<Rightarrow> h_io \<Rightarrow> string \<Rightarrow> OrderStatus \<Rightarrow> doc_row \<Rightarrow> doc_row" where
  "moved_order he io i st r =
     (if has_status he i (OrderStatus_as_str PendingPayment) r then patched (io_db_now io 1) (status_patch io st) r else r)"

lemma update_status_any:
  assumes "no_faults (hs_db s)"
  shows "\<exists>b. wh_update_order_status he io i PendingPayment st s = (Inr b, with_tbl ''orders'' (map (moved_order he io i st) (tbl s ''orders'')) s)"
proof -
  have obj: "\<exists>m. d_data r = JObject m" if "has_status he i (OrderStatus_as_str PendingPayment) r" for r
    using that by (auto simp: has_status_def member_text_def jget_def split: option.splits json.splits)
  show ?thesis
    using assms obj unfolding wh_update_order_status_def moved_order_def [abs_def] status_patch_def by (subst hdb_update_where) simp_all
qed

lemma abandon_order_calm:
  assumes "no_faults (hs_db s)" "keeps_stock he" "is_pending order" "jget_str ''id'' order = Some oid"
    and "stock_ready (tbl s ''products'') (items_array order) 1"
  obtains s' where "abandon_order he io i st order s = (Inr (), s')" "no_faults (hs_db s')"
    "tbl s' ''orders'' = map (moved_order he io i st) (tbl s ''orders'')"
    "tbl s' ''coupon_uses'' = filter (\<lambda>r. \<not> unredeemed he i r) (tbl s ''coupon_uses'')"
    "\<And>k j. stocked (tbl s' ''products'') k j \<longleftrightarrow> stocked (tbl s ''products'') k (j - units_of k (items_array order))"
proof -
  let ?s1 = "with_tbl ''orders'' (map (moved_order he io i st) (tbl s ''orders'')) s"
  obtain b where b: "wh_update_order_status he io i PendingPayment st s = (Inr b, ?s1)" using update_status_any [OF assms(1)] by blast
  obtain rows where rows: "restore_order_items he io (items_array order) ?s1 = (Inr (), with_tbl ''products'' rows ?s1)"
    and units: "\<forall>k j. stocked rows k j \<longleftrightarrow> stocked (tbl s ''products'') k (j - units_of k (items_array order))"
    using restore_items_calm [of ?s1 he "items_array order" io] assms by auto
  let ?s2 = "with_tbl ''products'' rows ?s1"
  let ?s3 = "with_tbl ''coupon_uses'' (filter (\<lambda>r. \<not> unredeemed he i r) (tbl ?s2 ''coupon_uses'')) ?s2"
  have "release_coupon_reservation he i ?s2 = (Inr (), ?s3)"
    unfolding release_coupon_reservation_def using assms(1) by (subst ignoring_delete_where) (simp_all add: unredeemed_def [abs_def])
  then have "abandon_order he io i st order s = (Inr (), ?s3)"
    using assms(3,4) by (simp add: abandon_order_def abind_def b restore_stock_for_order_def hres_def rows)
  then show ?thesis by (rule that) (use units assms(1) in auto)
qed

text \<open>
  C36. An expired session gives the stock back: without database faults, when the order of the
  session is pending and the product of every item has a stored stock with room for the units, the
  handler succeeds; the order is expired, every product has the units of its items more, digital items
  included and however the items repeat it, and the uses of a coupon that were only reserved are gone.
  Without a stored stock the handler fails after it has expired the order.
\<close>

theorem expired_session_returns_stock:
  assumes "no_faults (hs_db s)" "keeps_stock he" "session_event d = Inr (sid, payment, i, coupon)"
    and order: "pending_order he i s r m" and ids: "distinct (map d_id (tbl s ''orders''))"
    and "stock_ready (tbl s ''products'') (items_array (d_data r)) 1"
  shows "\<exists>s' r'. handle_checkout_session_expired he io d s = (Inr (), s') \<and>
    doc_of i (tbl s' ''orders'') = Some r' \<and> jget_str ''orderStatus'' (d_data r') = Some (OrderStatus_as_str Expired) \<and>
    (\<forall>k n. stocked (tbl s ''products'') k n \<longrightarrow> stocked (tbl s' ''products'') k (n + units_of k (items_array (d_data r)))) \<and>
    (\<forall>u \<in> set (tbl s' ''coupon_uses''). \<not> unredeemed he i u)"
proof -
  let ?doc = "inject_document_metadata (he_pg he) r"
  have m: "d_data r = JObject m" "d_id r = i" "map_of m ''orderStatus'' = Some (JString ''pending'')"
    using order by (simp_all add: pending_order_def)
  have items: "items_array ?doc = items_array (d_data r)" by (simp add: items_array_def jget_array_def jget_inject)
  have pend: "is_pending ?doc" and oid: "jget_str ''id'' ?doc = Some i"
    using m is_pending_inject [OF m(1)] by (simp_all add: jget_str_def jget_def inject_document_metadata_def)
  obtain s' where run: "abandon_order he io i Expired ?doc s = (Inr (), s')"
    and orders: "tbl s' ''orders'' = map (moved_order he io i Expired) (tbl s ''orders'')"
    and uses: "tbl s' ''coupon_uses'' = filter (\<lambda>r. \<not> unredeemed he i r) (tbl s ''coupon_uses'')"
    and units: "\<And>k j. stocked (tbl s' ''products'') k j \<longleftrightarrow> stocked (tbl s ''products'') k (j - units_of k (items_array ?doc))"
    by (rule abandon_order_calm [OF assms(1,2) pend oid, of io i Expired]) (use assms(6) items in auto)
  have found: "order_of_event he i s = (Inr ?doc, s)" using order_of_event_calm [OF assms(1)] order by (simp add: pending_order_def)
  have "handle_checkout_session_expired he io d s = (Inr (), s')"
    unfolding handle_checkout_session_expired_def by (simp add: assms(3) hres_def abind_def found run)
  moreover have "doc_of i (tbl s' ''orders'') = Some (moved_order he io i Expired r)"
    using doc_of_distinct [OF ids pending_has_status(2) [OF order]] m unfolding orders
    by (subst doc_of_map) (simp_all add: moved_order_def)
  moreover have "jget_str ''orderStatus'' (d_data (moved_order he io i Expired r)) = Some (OrderStatus_as_str Expired)"
    using pending_has_status(1) [OF order] m by (simp add: moved_order_def jget_str_def jget_def status_patch_def)
  ultimately show ?thesis using units uses items by (intro exI [of _ s'] exI [of _ "moved_order he io i Expired r"]) simp
qed

text \<open>
  Two overlapping notices give the stock back twice: when two handlers of failed, canceled or
  expired payments have read the same pending order before either changes it, both succeed, the
  second although the order is no longer pending, and every product has twice the units of its items more.
\<close>

theorem overlapping_abandons_return_stock_twice:
  assumes "no_faults (hs_db s)" "keeps_stock he" "is_pending order" "jget_str ''id'' order = Some oid"
    and "stock_ready (tbl s ''products'') (items_array order) 2"
  shows "\<exists>s1 s2. abandon_order he io i st order s = (Inr (), s1) \<and> abandon_order he io' i st' order s1 = (Inr (), s2) \<and>
    (\<forall>k n. stocked (tbl s ''products'') k n \<longrightarrow> stocked (tbl s2 ''products'') k (n + 2 * units_of k (items_array order)))"
proof -
  let ?items = "items_array order"
  have one: "stock_ready (tbl s ''products'') ?items 1"
  proof -
    have "n + 1 * units_of k ?items < 2 ^ 63" if "stocked (tbl s ''products'') k n" for k n
    proof -
      have "n + 2 * units_of k ?items < 2 ^ 63" using assms(5) that by (simp only: stock_ready_def)
      then show ?thesis using units_of_nonneg [of k ?items] by simp
    qed
    then show ?thesis using assms(5) by (simp only: stock_ready_def) blast
  qed
  obtain s1 where s1: "abandon_order he io i st order s = (Inr (), s1)" "no_faults (hs_db s1)"
    and k1: "\<And>k j. stocked (tbl s1 ''products'') k j \<longleftrightarrow> stocked (tbl s ''products'') k (j - units_of k ?items)"
    using abandon_order_calm [OF assms(1-4) one, of io i st] by metis
  have "stock_ready (tbl s1 ''products'') ?items 1"
    unfolding stock_ready_def
  proof (intro conjI ballI allI impI)
    fix x assume "x \<in> set ?items" "returns_units x"
    then obtain n where "stocked (tbl s ''products'') (product_key x) n" using assms(5) by (auto simp: stock_ready_def)
    then show "\<exists>n. stocked (tbl s1 ''products'') (product_key x) n" by (intro exI [of _ "n + units_of (product_key x) ?items"]) (simp add: k1)
  next
    fix k j assume "stocked (tbl s1 ''products'') k j"
    then have "stocked (tbl s ''products'') k (j - units_of k ?items)" by (simp add: k1)
    with assms(5) have "j - units_of k ?items + 2 * units_of k ?items < 2 ^ 63" by (simp only: stock_ready_def)
    then show "j + 1 * units_of k ?items < 2 ^ 63" by simp
  qed
  from abandon_order_calm [OF s1(2) assms(2-4) this, of io' i st'] obtain s2 where s2: "abandon_order he io' i st' order s1 = (Inr (), s2)"
    and k2: "\<And>k j. stocked (tbl s2 ''products'') k j \<longleftrightarrow> stocked (tbl s1 ''products'') k (j - units_of k ?items)" by metis
  show ?thesis using s1(1) s2 by (intro exI [of _ s1] exI [of _ s2]) (simp add: k1 k2)
qed

subsection \<open>Instances of the stock\<close>

lemma sample_keeps_stock: "keeps_stock sample_he"
  by (simp add: keeps_stock_def sample_he_def sample_pg_def json_obj_def)

lemma pending_stock:
  "stocked (tbl pending_state ''products'') k n \<longleftrightarrow> k = ''p1'' \<and> n = 5"
  by (auto simp: stocked_def pending_state_def doc_of_def i64_range_def json_int_def split: if_splits)

lemma pending_units: "units_of k (items_array (d_data pending_row)) = (if k = ''p1'' then 2 else 0)"
  by (simp add: pending_row_def items_array_def jget_array_def jget_def units_of_def returns_units_def product_key_def str_field_def
      jget_str_def item_quantity_def jget_i64_def json_obj_def json_int_def bare_id_def strip_prefix_def starts_with_def)

lemma pending_ready: "c < 1000 \<Longrightarrow> stock_ready (tbl pending_state ''products'') (items_array (d_data pending_row)) c"
  by (auto simp: stock_ready_def pending_stock pending_units)
     (simp add: pending_row_def items_array_def jget_array_def jget_def product_key_def str_field_def jget_str_def json_obj_def bare_id_def
      strip_prefix_def starts_with_def)

theorem expired_session_returns_stock_witness:
  "\<exists>s'. handle_checkout_session_expired sample_he sample_io session_data pending_state = (Inr (), s') \<and>
    stocked (tbl s' ''products'') ''p1'' 7"
proof -
  have "stock_ready (tbl pending_state ''products'') (items_array (d_data pending_row)) 1" by (rule pending_ready) simp
  from expired_session_returns_stock [OF pending_state_calm(1) sample_keeps_stock session_data_event pending_state_order
      pending_state_calm(2) this, of sample_io]
  obtain s' where "handle_checkout_session_expired sample_he sample_io session_data pending_state = (Inr (), s')"
    "\<forall>k n. stocked (tbl pending_state ''products'') k n \<longrightarrow> stocked (tbl s' ''products'') k (n + units_of k (items_array (d_data pending_row)))"
    by blast
  then show ?thesis using pending_stock [of "''p1''" 5] pending_units [of "''p1''"] by fastforce
qed

theorem overlapping_abandons_return_stock_twice_witness:
  "\<exists>s1 s2. abandon_order sample_he sample_io ''o1'' Expired (inject_document_metadata (he_pg sample_he) pending_row) pending_state = (Inr (), s1) \<and>
    abandon_order sample_he sample_io ''o1'' Cancelled (inject_document_metadata (he_pg sample_he) pending_row) s1 = (Inr (), s2) \<and>
    stocked (tbl s2 ''products'') ''p1'' 9"
proof -
  let ?doc = "inject_document_metadata (he_pg sample_he) pending_row"
  have items: "items_array ?doc = items_array (d_data pending_row)" by (simp add: items_array_def jget_array_def jget_inject)
  have "stock_ready (tbl pending_state ''products'') (items_array ?doc) 2" unfolding items by (rule pending_ready) simp
  moreover have "is_pending ?doc" by (rule is_pending_inject [THEN iffD2], simp add: pending_row_def, simp)
  moreover have "jget_str ''id'' ?doc = Some ''o1''" by (simp add: pending_row_def jget_str_def jget_def inject_document_metadata_def)
  ultimately obtain s1 s2 where "abandon_order sample_he sample_io ''o1'' Expired ?doc pending_state = (Inr (), s1)"
      "abandon_order sample_he sample_io ''o1'' Cancelled ?doc s1 = (Inr (), s2)"
      "\<forall>k n. stocked (tbl pending_state ''products'') k n \<longrightarrow> stocked (tbl s2 ''products'') k (n + 2 * units_of k (items_array ?doc))"
    using overlapping_abandons_return_stock_twice [OF pending_state_calm(1) sample_keeps_stock, of ?doc "''o1''" sample_io "''o1''" Expired
        sample_io Cancelled] by blast
  then show ?thesis using pending_stock [of "''p1''" 5] pending_units [of "''p1''"] unfolding items by fastforce
qed

end
