(* ===== verification/Subscription_Safety.thy ===== *)
theory Subscription_Safety
  imports Webhook_Frames Checkout_Amounts
begin

text \<open>
  Safety of the subscription endpoints: which calls to the payment provider they make and which
  rows they can change, whatever the provider answers and whatever faults the database reports.
\<close>

subsection \<open>Calls and kept rows\<close>

text \<open>Every new call to the outside is allowed, and the rows that must be kept are the same.\<close>

definition calls_within :: "(outcall \<Rightarrow> bool) \<Rightarrow> (string \<Rightarrow> string \<Rightarrow> bool) \<Rightarrow> h_state \<Rightarrow> h_state \<Rightarrow> bool" where
  "calls_within P K s s' \<longleftrightarrow> (\<exists>calls. hs_outbox s' = hs_outbox s @ calls \<and> (\<forall>c \<in> set calls. P c)) \<and>
     (\<forall>t k. K t k \<longrightarrow> doc_of k (tbl s' t) = doc_of k (tbl s t))"

definition keeps_rows :: "(string \<Rightarrow> string \<Rightarrow> bool) \<Rightarrow> 'a pg_action \<Rightarrow> bool" where
  "keeps_rows K m \<longleftrightarrow> (\<forall>s t k. K t k \<longrightarrow> doc_of k (tables (snd (m s)) t) = doc_of k (tables s t))"

lemma calls_within_refl: "calls_within P K s s"
  by (simp add: calls_within_def)

lemma calls_within_trans: "calls_within P K s u \<Longrightarrow> calls_within P K u v \<Longrightarrow> calls_within P K s v"
  unfolding calls_within_def by auto

lemma keeps_rowsD: "keeps_rows K m \<Longrightarrow> m s = (r, s') \<Longrightarrow> K t k \<Longrightarrow> doc_of k (tables s' t) = doc_of k (tables s t)"
  by (metis keeps_rows_def snd_conv)

lemma keeps_rows_leaves: "leaves {t. \<exists>k. K t k} m \<Longrightarrow> keeps_rows K m"
  unfolding leaves_def keeps_rows_def by (metis mem_Collect_eq)

lemma keeps_rows_all: "leaves UNIV m \<Longrightarrow> keeps_rows K m"
  by (rule keeps_rows_leaves) (simp add: leaves_def)

lemma keeps_rows_update:
  assumes "\<not> K coll (bare_id coll i)"
  shows "keeps_rows K (update_document env now coll i d)"
  unfolding keeps_rows_def
proof (intro allI impI)
  fix s t k assume "K t k"
  then have other: "t = coll \<Longrightarrow> k \<noteq> bare_id coll i" using assms by auto
  obtain r s' where run: "update_document env now coll i d s = (r, s')" by force
  show "doc_of k (tables (snd (update_document env now coll i d s)) t) = doc_of k (tables s t)"
    using update_document_cases [OF run] other run doc_of_id [of k "tables s coll"]
    by (cases "t = coll"; cases r) (auto simp: doc_of_merge option.map_ident)
qed

lemma keeps_rows_upsert:
  assumes "\<not> K coll (bare_id coll i)"
  shows "keeps_rows K (upsert_document env now coll i d)"
  unfolding keeps_rows_def
proof (intro allI impI)
  fix s t k assume "K t k"
  then have other: "t = coll \<Longrightarrow> k \<noteq> bare_id coll i" using assms by auto
  obtain r s' where run: "upsert_document env now coll i d s = (r, s')" by force
  show "doc_of k (tables (snd (upsert_document env now coll i d s)) t) = doc_of k (tables s t)"
    using upsert_document_rows [OF run] other run
    by (cases "t = coll"; cases r) (auto simp: doc_of_merge doc_of_append option.map_ident split: option.splits)
qed

lemma keeps_rows_steps:
  "keeps_rows K m \<Longrightarrow> keeps_rows K (atry m)" "keeps_rows K m \<Longrightarrow> keeps_rows K (amap_err f m)"
  by (auto simp: keeps_rows_def atry_def amap_err_def split: prod.splits) (metis snd_conv)+

text \<open>The rules by which a handler stays within the allowed calls and the kept rows.\<close>

locale call_frame =
  fixes P :: "outcall \<Rightarrow> bool" and K :: "string \<Rightarrow> string \<Rightarrow> bool"
  assumes rate_limits_free: "\<not> K RATE_LIMITS k"
begin

abbreviation within_frame :: "'a h_action \<Rightarrow> bool" where
  "within_frame m \<equiv> stays (calls_within P K) m"

lemma within_pure: "within_frame (areturn x)" "within_frame (athrow e)" "within_frame (hres p)"
  by (simp_all add: stays_def hres_def calls_within_refl)

lemma within_bind: "within_frame m \<Longrightarrow> (\<And>x. within_frame (f x)) \<Longrightarrow> within_frame (abind m f)"
  unfolding stays_def abind_def by (auto split: prod.splits sum.splits) (metis calls_within_trans snd_conv)+

lemma within_branch:
  "within_frame a \<Longrightarrow> within_frame b \<Longrightarrow> within_frame (if c then a else b)"
  "(\<And>x y. within_frame (f x y)) \<Longrightarrow> within_frame (case p of (x, y) \<Rightarrow> f x y)"
  "within_frame a \<Longrightarrow> (\<And>x. within_frame (g x)) \<Longrightarrow> within_frame (case v of None \<Rightarrow> a | Some x \<Rightarrow> g x)"
  by (auto split: prod.split option.split)

lemma within_try: "within_frame m \<Longrightarrow> within_frame (atry m)"
  by (auto simp: stays_def atry_def split: prod.splits) (metis snd_conv)

lemma within_hdb: "keeps_rows K m \<Longrightarrow> within_frame (hdb m)"
  by (rule staysI) (auto simp: hdb_eq calls_within_def dest: keeps_rowsD)

lemma within_ignoring: "keeps_rows K m \<Longrightarrow> within_frame (ignoring m)"
  unfolding ignoring_def by (intro within_bind within_hdb within_pure keeps_rows_steps)

lemma within_notify: "P c \<Longrightarrow> within_frame (notify c)"
  by (auto simp: stays_def notify_def calls_within_def)

lemma within_post: "P (StripePost path form) \<Longrightarrow> within_frame (stripe_post sb path form)"
  unfolding stripe_post_def by (intro within_bind within_notify within_pure)

lemma within_rate_limit: "within_frame (hdb (check_user_rate_limit he io u a n w))"
proof -
  have "leaves {t. \<exists>k. K t k} (check_user_rate_limit he io u a n w)"
    by (rule leavesI, erule rate_limit_tables) (use rate_limits_free in auto)
  then show ?thesis by (intro within_hdb keeps_rows_leaves)
qed

lemmas within_reads = keeps_rows_all leaves_steps leaves_abind leaves_get leaves_select leaves_raw_select leaves_unknown leaves_ensure leaves_exec_read
  leaves_exec_error

lemma within_subscription_of_caller: "within_frame (subscription_of_caller he sb user)"
proof -
  have "leaves UNIV (get_user_subscription he sb user)"
    unfolding get_user_subscription_def
    by (rule leaves_abind) (auto simp: validate_record_id_def split: sum.split)
  then show ?thesis unfolding subscription_of_caller_def by (intro within_bind within_hdb within_pure within_branch keeps_rows_all)
qed

lemma within_early_count: "within_frame early_cancel_count"
  unfolding early_cancel_count_def by (intro within_bind within_hdb within_pure within_reads)

lemma within_no_active: "within_frame (no_active_subscription he user)"
  unfolding no_active_subscription_def by (intro within_bind within_hdb within_pure within_branch within_reads)

lemmas within_rules = within_bind within_pure within_branch within_rate_limit within_subscription_of_caller within_early_count
  within_no_active within_ignoring within_post within_hdb within_try

end

subsection \<open>Cancelling\<close>

definition cancel_call :: "outcall \<Rightarrow> bool" where
  "cancel_call c \<longleftrightarrow> (\<exists>sid. c = StripePost (''/subscriptions/'' @ sid) [(''cancel_at_period_end'', ''true'')])"

definition not_own_subscription :: "string \<Rightarrow> string \<Rightarrow> string \<Rightarrow> bool" where
  "not_own_subscription user t k \<longleftrightarrow> t \<noteq> RATE_LIMITS \<and> (t, k) \<noteq> (''subscriptions'', bare_id ''subscriptions'' (raw_user_id user))"

interpretation cancel_frame: call_frame cancel_call "not_own_subscription user" for user
  by unfold_locales (simp add: not_own_subscription_def)

lemma abind_hres: "abind (hres p) f s = (case p of Inl e \<Rightarrow> (Inl (Fail e), s) | Inr x \<Rightarrow> f x s)"
  by (simp add: abind_def hres_def split: sum.split)

lemma abind_known: "abind (hres (Inr x)) f = f x"
  by (simp add: abind_def hres_def fun_eq_iff)

lemma leaves_malformed: "leaves T malformed_stmt"
  unfolding malformed_stmt_def by (rule leaves_exec_error)

lemma self_user_id: "resolve_self_user_id auth uid f = Inr user \<Longrightarrow> user = au_user_id auth"
  by (auto simp: resolve_self_user_id_def require_authenticated_def rbind_eq_Inr split: option.splits if_splits)

text \<open>
  Cancelling keeps the premium period: whatever the provider answers and whatever faults the
  database reports, the only calls of a cancellation ask to cancel a subscription at the end of its
  period, and besides the rate limits the only row it can change is the subscription of the caller; the
  account of the user keeps its premium flag.
\<close>

theorem cancel_keeps_premium:
  assumes "cancel_subscription he io sb auth uid s = (r, s')"
  shows "(\<exists>calls. hs_outbox s' = hs_outbox s @ calls \<and> (\<forall>c \<in> set calls. cancel_call c)) \<and>
    (\<forall>t k. not_own_subscription (au_user_id auth) t k \<longrightarrow> doc_of k (tbl s' t) = doc_of k (tbl s t))"
proof (cases "resolve_self_user_id auth uid ''userId''")
  case (Inl e)
  then show ?thesis using assms by (simp add: cancel_subscription_def hres_def abind_def)
next
  case (Inr user)
  then have user: "user = au_user_id auth" by (rule self_user_id)
  have own: "\<not> not_own_subscription user ''subscriptions'' (bare_id ''subscriptions'' (raw_user_id user))"
    by (simp add: not_own_subscription_def)
  have post: "cancel_call (StripePost (''/subscriptions/'' @ sid) [(''cancel_at_period_end'', ''true'')])" for sid
    by (auto simp: cancel_call_def)
  have "stays (calls_within cancel_call (not_own_subscription user)) (cancel_subscription he io sb auth uid)"
    unfolding cancel_subscription_def Inr abind_known
    by (intro cancel_frame.within_rules keeps_rows_update keeps_rows_all leaves_malformed own post)
  from staysD [OF this assms] show ?thesis by (simp add: calls_within_def user)
qed

subsection \<open>Subscribing\<close>

text \<open>Every amount of a call is the price of the subscription, and every user it names is the caller.\<close>

definition priced_call :: "string \<Rightarrow> outcall \<Rightarrow> bool" where
  "priced_call user c \<longleftrightarrow> (\<forall>path form k v. c = StripePost path form \<longrightarrow> (k, v) \<in> set form \<longrightarrow>
     (ends_with ''[unit_amount]'' k \<longrightarrow> v = ''786'') \<and>
     (k \<in> {''metadata[user_id]'', ''metadata[uid]'', ''subscription_data[metadata][uid]'', ''client_reference_id''} \<longrightarrow> v = user))"

definition not_own_account :: "string \<Rightarrow> string \<Rightarrow> string \<Rightarrow> bool" where
  "not_own_account user t k \<longleftrightarrow> not_own_subscription user t k \<and> (t, k) \<noteq> (''users'', bare_id ''users'' user)"

interpretation subscribe_frame: call_frame "priced_call user" "not_own_account user" for user
  by unfold_locales (simp add: not_own_account_def not_own_subscription_def)

text \<open>7.86 is not representable; a hundred times the nearest value rounds to 786 exactly.\<close>

lemma premium_price: "PREMIUM_PRICE_CENTS = 786"
proof -
  have "round_f64 (786 / 100) = of_int 8849573267783025 * 2 powi (2 - 52)"
    by (rule round_f64_eq) (simp_all add: power_int_def power_divide abs_if)
  then have price: "PREMIUM_SUBSCRIPTION_PRICE_CAD = Finite (8849573267783025 / 1125899906842624)"
    by (simp add: PREMIUM_SUBSCRIPTION_PRICE_CAD_def f64_of_rat_def power_int_def power_divide Let_def)
  have "round_f64 (8849573267783025 / 1125899906842624 * 100) = of_int 6913729115455488 * 2 powi (9 - 52)"
    by (rule round_f64_eq) (simp_all add: power_int_def power_divide abs_if)
  then have "f64_mul PREMIUM_SUBSCRIPTION_PRICE_CAD (Finite 100) = Finite 786"
    by (simp add: price f64_of_rat_def power_int_def power_divide Let_def)
  then show ?thesis by (simp add: PREMIUM_PRICE_CENTS_def trunc_rat_def)
qed

lemma price_text: "int_to_string PREMIUM_PRICE_CENTS = ''786''"
  unfolding premium_price by code_simp

lemma priced_posts:
  "priced_call user (StripePost ''/customers'' [(''email'', e), (''name'', n), (''metadata[user_id]'', user)])"
  "priced_call user (StripePost ''/checkout/sessions'' (premium_checkout_form sb c i user))"
  "priced_call user (StripePost ''/subscriptions'' (premium_form c i user))"
  "priced_call user (StripePost p [(''customer'', c)])"
  "priced_call user (StripePost p [(''invoice_settings[default_payment_method]'', m)])"
  by (auto simp: priced_call_def premium_checkout_form_def premium_form_def price_text ends_with_def)

lemma own_rows: "\<not> not_own_account user ''users'' (bare_id ''users'' user)"
  "\<not> not_own_account user ''subscriptions'' (bare_id ''subscriptions'' (raw_user_id user))"
  by (simp_all add: not_own_account_def not_own_subscription_def)

lemmas subscribe_rules = subscribe_frame.within_rules keeps_rows_steps keeps_rows_update keeps_rows_upsert subscribe_frame.within_reads
  own_rows priced_posts

lemma within_ensure_customer: "stays (calls_within (priced_call user) (not_own_account user)) (ensure_customer he io sb user)"
  unfolding ensure_customer_def by (intro subscribe_rules)

lemma within_by_checkout: "stays (calls_within (priced_call user) (not_own_account user)) (subscribe_by_checkout he io sb user i c)"
  unfolding subscribe_by_checkout_def by (intro subscribe_rules)

lemma within_by_method: "stays (calls_within (priced_call user) (not_own_account user)) (subscribe_by_method he io sb user i c pm)"
  unfolding subscribe_by_method_def Let_def by (intro subscribe_rules)

text \<open>What comes before the provider is asked: nothing but the rate limits changes, and an active subscription stops it.\<close>

lemma no_active_subscription_stops:
  assumes "list_ex (is_active_of he user) (tbl s ''subscriptions'')" "no_active_subscription he user s = (r, s')"
  shows "\<not> is_ok r"
proof -
  obtain q d where q: "select_first he ''subscriptions'' (is_active_of he user) (hs_db s) = (q, d)" by force
  have "\<exists>x. List.find (is_active_of he user) (tables u ''subscriptions'') = Some x" if "tables u = tables (hs_db s)" for u
    using assms(1) that by (auto simp: list_ex_iff find_None_iff simp flip: not_None_eq)
  then have "q \<noteq> Inr None"
    using q unfolding select_first_def
    by (auto elim!: abind_cases simp: atry_eq dest!: ensure_table_tables pg_exec_cases split: sum.splits) fastforce
  then show ?thesis using assms(2) q
    by (cases q) (auto simp: no_active_subscription_def abind_def hdb_def split: option.splits)
qed

lemma quiet_front:
  "hdb (check_user_rate_limit he io u a n w) s = (q, s') \<Longrightarrow> hs_outbox s' = hs_outbox s \<and> tbl s' ''subscriptions'' = tbl s ''subscriptions''"
  "early_cancel_count s = (p, s') \<Longrightarrow> hs_outbox s' = hs_outbox s \<and> tbl s' ''subscriptions'' = tbl s ''subscriptions''"
  "no_active_subscription he user s = (x, s') \<Longrightarrow> hs_outbox s' = hs_outbox s"
proof -
  show "hdb (check_user_rate_limit he io u a n w) s = (q, s') \<Longrightarrow> hs_outbox s' = hs_outbox s \<and> tbl s' ''subscriptions'' = tbl s ''subscriptions''"
    by (auto simp: hdb_eq RATE_LIMITS_def dest!: rate_limit_tables [of _ _ _ _ _ _ _ _ _ "''subscriptions''"])
  show "early_cancel_count s = (p, s') \<Longrightarrow> hs_outbox s' = hs_outbox s \<and> tbl s' ''subscriptions'' = tbl s ''subscriptions''"
    unfolding early_cancel_count_def
    by (auto elim!: abind_cases simp: hdb_eq atry_eq dest!: leavesD [OF leaves_unknown, of _ _ _ _ _ "''subscriptions''" "{''subscriptions''}"])
  show "no_active_subscription he user s = (x, s') \<Longrightarrow> hs_outbox s' = hs_outbox s"
    unfolding no_active_subscription_def by (auto elim!: abind_cases simp: hdb_eq split: option.splits)
qed

text \<open>
  C37. A subscriber is not charged twice: when the caller has an active subscription, the request to
  subscribe is refused and no call is made. Whatever the provider answers and whatever faults
  the database reports, every amount in the calls of a request is 786 cents and every account they
  name is the caller, and besides the rate limits only the account and the
  subscription of the caller can change.
\<close>

theorem subscribing_is_priced_and_own:
  assumes "create_subscription he io sb auth req s = (r, s')"
  shows "(list_ex (is_active_of he (au_user_id auth)) (tbl s ''subscriptions'') \<longrightarrow> \<not> is_ok r \<and> hs_outbox s' = hs_outbox s) \<and>
    (\<exists>calls. hs_outbox s' = hs_outbox s @ calls \<and> (\<forall>c \<in> set calls. priced_call (au_user_id auth) c)) \<and>
    (\<forall>t k. not_own_account (au_user_id auth) t k \<longrightarrow> doc_of k (tbl s' t) = doc_of k (tbl s t))"
proof (cases "resolve_self_user_id auth (cs_user_id req) ''userId''")
  case (Inl e)
  then show ?thesis using assms by (auto simp: create_subscription_def hres_def abind_def)
next
  case (Inr user)
  then have user: "user = au_user_id auth" by (rule self_user_id)
  have "stays (calls_within (priced_call user) (not_own_account user)) (create_subscription he io sb auth req)"
    unfolding create_subscription_def Inr abind_known
    by (intro subscribe_rules within_ensure_customer within_by_checkout within_by_method)
  from staysD [OF this assms] have frame: "calls_within (priced_call user) (not_own_account user) s s'" .
  have "\<not> is_ok r \<and> hs_outbox s' = hs_outbox s" if active: "list_ex (is_active_of he user) (tbl s ''subscriptions'')"
  proof -
    have stop: "\<not> is_ok r \<and> hs_outbox s' = hs_outbox s" if "(if c then athrow e else abind (no_active_subscription he user) f) b = (r, s')"
      "hs_outbox b = hs_outbox s \<and> tbl b ''subscriptions'' = tbl s ''subscriptions''" for c e f b
      using that active no_active_subscription_stops [of he user b] quiet_front(3) [of he user b]
      by (auto split: if_splits elim!: abind_cases)
    have front: "\<not> is_ok r \<and> hs_outbox s' = hs_outbox s"
      if "abind (hdb (check_user_rate_limit he io user ac n w)) (\<lambda>_. abind early_cancel_count (\<lambda>count.
        if g count then athrow e else abind (no_active_subscription he user) f)) s = (r, s')" for ac n w g e f
      using that by (elim abind_cases) (use quiet_front(1,2) stop in \<open>fastforce+\<close>)
    show ?thesis
      using assms unfolding create_subscription_def Inr abind_known abind_hres
      by (auto split: sum.splits dest!: front)
  qed
  then show ?thesis using frame by (simp add: calls_within_def user)
qed

subsection \<open>Benefits\<close>

lemma alias_row_texts: "jget_i64 k (alias_row cols) = None"
proof -
  have strings: "\<forall>kv \<in> set kvs. \<exists>t. snd kv = JString t \<Longrightarrow> jget_i64 k (json_obj kvs) = None" for kvs
  proof -
    assume a: "\<forall>kv \<in> set kvs. \<exists>t. snd kv = JString t"
    have "\<forall>v. map_of (fold (\<lambda>(k, v). obj_insert k v) kvs m) k = Some v \<longrightarrow> (\<exists>t. v = JString t)"
      if "\<forall>v. map_of m k = Some v \<longrightarrow> (\<exists>t. v = JString t)" for m
      using a that
    proof (induction kvs arbitrary: m)
      case (Cons kv kvs)
      obtain j t where kv: "kv = (j, JString t)" using Cons.prems(1) by (cases kv) auto
      have "\<forall>v. map_of (obj_insert j (JString t) m) k = Some v \<longrightarrow> (\<exists>t. v = JString t)" using Cons.prems(2) by simp
      from Cons.IH [OF _ this] show ?case using Cons.prems(1) by (simp add: kv)
    qed simp
    from this [of "[]"] show ?thesis
      by (cases "map_of (fold (\<lambda>(k, v). obj_insert k v) kvs []) k") (auto simp: jget_i64_def jget_def json_obj_def)
  qed
  have "\<exists>t. snd kv = JString t" if "kv \<in> set (List.map_filter (\<lambda>(k, v). map_option (\<lambda>t. (k, JString t)) v) cols)" for kv
    using that by (auto simp: List.map_filter_def)
  with strings show ?thesis
    unfolding alias_row_def by (auto simp: jget_i64_def jget_def split: list.split)
qed

text \<open>
  The benefits of a subscription never become active: at every time that fits in 64 bits, the
  check answers no, because it reads the time from a text.
\<close>

theorem benefits_never_active:
  assumes "sb_now_ts sb < 2 ^ 63 - 1"
  shows "fst (is_subscription_benefits_active he sb user s) = Inr False"
proof -
  obtain q d where q: "benefits_rows he user (hs_db s) = (q, d)" by force
  have rows: "jget_i64 ''benefitsActiveAt'' v = None" if "q = Inr vs" "v \<in> set vs" for v vs
  proof -
    have "\<forall>v \<in> set vs. jget_i64 ''benefitsActiveAt'' v = None"
      using q that(1) unfolding benefits_rows_def
      by (auto elim!: abind_cases simp: alias_row_texts dest!: pg_exec_cases split: sum.splits)
    then show ?thesis using that(2) by blast
  qed
  show ?thesis using q rows assms
    by (auto simp: is_subscription_benefits_active_def abind_def hdb_def atry_def split: sum.splits list.splits)
qed

subsection \<open>Instances\<close>

definition sample_sb :: sub_io where
  "sample_sb = \<lparr>sb_key = True, sb_post = (\<lambda>path form. Inr \<lparr>hr_ok = True, hr_text = [], hr_json = Inr JNull\<rparr>), sb_base_url = [],
     sb_trim = (\<lambda>s. s), sb_raw_select = (\<lambda>_ rs. Inr []), sb_parse_rfc3339 = (\<lambda>_. None), sb_from_timestamp = (\<lambda>_. None), sb_now_ts = 1000\<rparr>"

definition subscriber_state :: h_state where
  "subscriber_state = \<lparr>hs_db = \<lparr>tables = (\<lambda>_. [])(
     ''users'' := [\<lparr>d_id = ''u1'', d_data = JObject [(''isPremium'', JBool True)], d_created_at = 1, d_updated_at = 1\<rparr>],
     ''subscriptions'' := [\<lparr>d_id = ''u1'', d_data = JObject [(''benefitsActiveAt'', json_int 5), (''buyerId'', JString ''u1''),
       (''status'', JString ''active''), (''stripeSubscriptionId'', JString ''sub_1'')], d_created_at = 1, d_updated_at = 1\<rparr>]),
     pg_faults = []\<rparr>, hs_outbox = []\<rparr>"

theorem cancel_keeps_premium_witness:
  "doc_of ''u1'' (tbl (snd (cancel_subscription sample_he sample_io sample_sb (sample_auth ''u1'') None subscriber_state)) ''users'') =
     doc_of ''u1'' (tbl subscriber_state ''users'')"
proof -
  have "not_own_subscription (au_user_id (sample_auth ''u1'')) ''users'' ''u1''" by (simp add: not_own_subscription_def RATE_LIMITS_def)
  then show ?thesis using cancel_keeps_premium [OF prod.collapse [symmetric]] by blast
qed

theorem subscribing_is_priced_and_own_witness:
  "hs_outbox (snd (create_subscription sample_he sample_io sample_sb (sample_auth ''u1'')
     \<lparr>cs_user_id = None, cs_interval = None, cs_payment_method_id = None\<rparr> subscriber_state)) = []"
proof -
  have "list_ex (is_active_of sample_he (au_user_id (sample_auth ''u1''))) (tbl subscriber_state ''subscriptions'')"
    by (simp add: subscriber_state_def sample_auth_def is_active_of_def by_member_def member_text_def jget_def jsonb_text_def sql_eq_def)
  moreover have "hs_outbox subscriber_state = []" by (simp add: subscriber_state_def)
  ultimately show ?thesis using subscribing_is_priced_and_own [OF prod.collapse [symmetric]] by metis
qed

theorem benefits_never_active_witness:
  "list_ex (is_active_of sample_he ''u1'') (tbl subscriber_state ''subscriptions'') \<and>
   fst (is_subscription_benefits_active sample_he sample_sb ''u1'' subscriber_state) = Inr False"
proof -
  have "sb_now_ts sample_sb < 2 ^ 63 - 1" by (simp add: sample_sb_def)
  from benefits_never_active [OF this, of sample_he "''u1''" subscriber_state] show ?thesis
    by (simp add: subscriber_state_def is_active_of_def by_member_def member_text_def jget_def jsonb_text_def sql_eq_def)
qed

end
