(* ===== verification/Returns.thy ===== *)
theory Returns
  imports Webhooks Order_Refunds
begin

text \<open>
  Return requests (\<open>crates/ob-handlers/src/orders/returns.rs\<close>): a buyer asks for a return, the seller or an
  administrator approves it, issues a label, receives the item, which refunds it, or rejects it,
  and the buyer may escalate it. The outcome of a push message, \<open>trim\<close> and \<open>to_uppercase\<close> outside ASCII are
  the fields of \<open>return_io\<close>; the payment provider and the parser of timestamps are those of the refunds.
\<close>

subsection \<open>Requests and responses\<close>

record return_io =
  rt_trim :: "string \<Rightarrow> string"
  rt_upper :: "string \<Rightarrow> string"
  rt_fcm :: bool
  rt_push :: "string \<Rightarrow> bool"

record CreateReturnRequest =
  nr_order_id :: string
  nr_product_id :: string
  nr_user_id :: string
  nr_return_reason :: string

record ApproveReturnReq =
  ar_return_id :: string
  ar_user_id :: string
  ar_action :: string
  ar_return_tracking_number :: "string option"
  ar_return_admin_note :: "string option"

definition default_action :: string where "default_action = ''approve''"

record RejectReturnReq =
  rj_return_id :: string
  rj_user_id :: string
  rj_reason :: "string option"

record EscalateReturnReq =
  es_return_id :: string
  es_user_id :: string
  es_escalation_reason :: string

record EscalateReturnResponse =
  es_success :: bool
  es_new_status :: string
  es_return_status :: string
  es_returned_id :: string

definition RETURN_REQUESTS :: string where "RETURN_REQUESTS = ''return_requests''"

definition is_blank :: "return_io \<Rightarrow> string \<Rightarrow> bool" where
  "is_blank rt s \<longleftrightarrow> (if is_ascii_str s then list_all ascii_space s else rt_trim rt s = [])"

definition clean_reason :: "h_env \<Rightarrow> string \<Rightarrow> string" where
  "clean_reason he reason = take_chars 1000 (sanitize_html he reason)"

subsection \<open>The states of a return\<close>

definition valid_return_transitions :: "string \<Rightarrow> string list" where
  "valid_return_transitions st =
     (if st = ''requested'' then [''approved'', ''rejected'']
      else if st = ''approved'' then [''label_issued'', ''received'']
      else if st = ''label_issued'' then [''received'']
      else if st = ''received'' then [''refunded'']
      else [])"

definition assert_within_return_window :: "stripe_io \<Rightarrow> json \<Rightarrow> unit ob_result" where
  "assert_within_return_window si item =
     (if (case jget ''deliveredAt'' item of Some d \<Rightarrow> delivered_at_expired si d | None \<Rightarrow> False)
      then Inl (Validation (''Return window expired. Returns must be requested within '' @
        nat_to_string (nat RETURN_WINDOW_DAYS) @ '' days of delivery.''))
      else Inr ())"

subsection \<open>\<open>create_return_request\<close>\<close>

definition returnable_item :: "stripe_io \<Rightarrow> string \<Rightarrow> CreateReturnRequest \<Rightarrow> json \<Rightarrow> json ob_result" where
  "returnable_item si user req order =
     (if str_field order ''userId'' \<noteq> user
      then Inl (Forbidden ''You can only return items from your own orders'')
      else
        rbind (ok_or (NotFound ''Item not found in this order'')
          (List.find (\<lambda>it. str_field it ''productId'' = nr_product_id req) (items_array order))) (\<lambda>item.
        if bool_field item ''isDigital'' then Inl (Validation ''Digital products cannot be returned'')
        else if str_field item ''status'' \<noteq> ''delivered''
        then Inl (Validation ''Item must be marked as delivered before requesting a return'')
        else rbind (assert_within_return_window si item) (\<lambda>_. Inr item)))"

definition same_return :: "h_env \<Rightarrow> CreateReturnRequest \<Rightarrow> string \<Rightarrow> doc_row \<Rightarrow> bool" where
  "same_return he req user r \<longleftrightarrow> by_member he ''orderId'' (nr_order_id req) r \<and>
     by_member he ''productId'' (nr_product_id req) r \<and> by_member he ''buyerId'' user r"

definition is_open_return :: "json \<Rightarrow> bool" where
  "is_open_return doc \<longleftrightarrow> str_field doc ''returnStatus'' \<notin> {''rejected'', ''refunded''}"

text \<open>\<open>LIMIT 1\<close>: one of the requests for the item is looked at; an error finds none.\<close>

definition no_open_return :: "h_env \<Rightarrow> CreateReturnRequest \<Rightarrow> string \<Rightarrow> unit h_action" where
  "no_open_return he req user =
     abind (hdb (atry (select_first he RETURN_REQUESTS (same_return he req user)))) (\<lambda>r.
     case r of
       Inr (Some doc) \<Rightarrow>
         if is_open_return doc then athrow (Fail (Validation ''A return request already exists for this item''))
         else areturn ()
     | _ \<Rightarrow> areturn ())"

definition return_document :: "h_io \<Rightarrow> CreateReturnRequest \<Rightarrow> string \<Rightarrow> json \<Rightarrow> string \<Rightarrow> json" where
  "return_document io req user item reason =
     json_obj [(''returnId'', JString (io_uuid io 1)), (''orderId'', JString (nr_order_id req)),
       (''buyerId'', JString user), (''sellerId'', JString (str_field item ''sellerId'')),
       (''productId'', JString (nr_product_id req)), (''name'', JString (str_field item ''name'')),
       (''quantity'', json_int (item_quantity item)),
       (''fulfillmentWarehouseId'', JString (str_field item ''fulfillmentWarehouseId'')),
       (''returnStatus'', JString ''requested''), (''returnReason'', JString reason),
       (''requestedAt'', JString (io_now io 0)), (''updatedAt'', JString (io_now io 0))]"

definition create_return_request ::
  "h_env \<Rightarrow> h_io \<Rightarrow> stripe_io \<Rightarrow> return_io \<Rightarrow> AuthContext \<Rightarrow> CreateReturnRequest \<Rightarrow> string h_action" where
  "create_return_request he io si rt auth req =
     abind (hres (validate_uid ''orderId'' (nr_order_id req))) (\<lambda>_.
     abind (hres (validate_uid ''productId'' (nr_product_id req))) (\<lambda>_.
     abind (hres (resolve_self_user_id auth (Some (nr_user_id req)) ''userId'')) (\<lambda>user.
     abind (hdb (check_user_rate_limit he io user ''create_return_request'' 3 60)) (\<lambda>_.
     let reason = clean_reason he (nr_return_reason req) in
     if is_blank rt reason then athrow (Fail (Validation ''returnReason is required''))
     else
       abind (read_order he (nr_order_id req)) (\<lambda>order.
       abind (hres (returnable_item si user req order)) (\<lambda>item.
       abind (no_open_return he req user) (\<lambda>_.
       abind (hdb (amap_err (db_failed ''Failed to create return request: '')
         (create_document (he_pg he) (io_uuid io 2) (io_db_now io 1) RETURN_REQUESTS
           (return_document io req user item reason)))) (\<lambda>_.
       areturn (io_uuid io 1)))))))))"

subsection \<open>\<open>approve_return_request\<close>\<close>

definition read_return :: "h_env \<Rightarrow> string \<Rightarrow> json h_action" where
  "read_return he return_id =
     hdb (amap_err (\<lambda>_. NotFound ''Return request not found'') (get_document (he_pg he) RETURN_REQUESTS return_id))"

definition update_return :: "h_env \<Rightarrow> int \<Rightarrow> string \<Rightarrow> string \<Rightarrow> (string \<times> json) list \<Rightarrow> unit h_action" where
  "update_return he now prefx return_id kvs =
     abind (hdb (amap_err (db_failed prefx) (update_document (he_pg he) now RETURN_REQUESTS return_id (json_obj kvs)))) (\<lambda>_.
     areturn ())"

definition approve_patch :: "h_io \<Rightarrow> ApproveReturnReq \<Rightarrow> (string \<times> json) list" where
  "approve_patch io req =
     [(''returnStatus'', JString ''approved''), (''updatedAt'', JString (io_now io 0))] @
     opt_member ''returnTrackingNumber'' (ar_return_tracking_number req) @
     opt_member ''returnAdminNote'' (ar_return_admin_note req)"

definition label_patch :: "h_io \<Rightarrow> ApproveReturnReq \<Rightarrow> (string \<times> json) list" where
  "label_patch io req =
     [(''returnStatus'', JString ''label_issued''), (''updatedAt'', JString (io_now io 0))] @
     opt_member ''returnTrackingNumber'' (ar_return_tracking_number req)"

text \<open>Three attempts to add the returned units to the stock that was read.\<close>

fun restore_returned :: "h_env \<Rightarrow> h_io \<Rightarrow> string \<Rightarrow> int \<Rightarrow> nat \<Rightarrow> bool h_action" where
  "restore_returned he io pid qty 0 = areturn False"
| "restore_returned he io pid qty (Suc n) =
     abind (hdb (atry (get_document (he_pg he) ''products'' pid))) (\<lambda>r.
     let cur_stock = i64_field (case r of Inr d \<Rightarrow> d | Inl _ \<Rightarrow> JNull) ''stockQuantity'' in
     abind (hdb (amap_err (db_failed (''Failed to restore stock for returned product '' @ pid @ '': ''))
       (update_document_cas (he_pg he) (io_db_now io (20 + n)) ''products'' pid
         (json_obj [(''stockQuantity'', json_int (wrap_i64 (cur_stock + qty))), (''updatedAt'', JString (io_now io 0))])
         ''stockQuantity'' (json_int cur_stock)))) (\<lambda>cas_result.
     if cas_result \<noteq> None then areturn True else restore_returned he io pid qty n))"

definition return_units :: "h_env \<Rightarrow> h_io \<Rightarrow> string \<Rightarrow> int \<Rightarrow> unit h_action" where
  "return_units he io pid qty =
     (if pid \<noteq> [] \<and> 0 < qty
      then
        abind (restore_returned he io pid qty 3) (\<lambda>restored.
        if \<not> restored
        then athrow (Fail (Database (''Failed to restore stock for returned product '' @ pid @ '': concurrent modification'')))
        else areturn ())
      else areturn ())"

definition refund_return ::
  "stripe_io \<Rightarrow> json \<Rightarrow> string \<Rightarrow> string \<Rightarrow> string \<Rightarrow> int \<Rightarrow> string option h_action" where
  "refund_return si order order_id product_id return_id amount =
     (let payment_intent_id = str_field order ''paymentIntentId'' in
      if payment_intent_id = [] then areturn None
      else stripe_refund si payment_intent_id (Some amount) ''requested_by_customer''
        (''return_refund_'' @ return_id @ ''_'' @ product_id)
        [(''orderId'', order_id), (''productId'', product_id), (''returnId'', return_id)])"

definition write_returned ::
  "h_env \<Rightarrow> h_io \<Rightarrow> string \<Rightarrow> string \<Rightarrow> json \<Rightarrow> json list \<Rightarrow> int \<Rightarrow> unit h_action" where
  "write_returned he io user return_id return_doc updated_items amount =
     (let order_id = str_field return_doc ''orderId''; product_id = str_field return_doc ''productId''; now = io_now io 0 in
      abind (return_units he io product_id (item_quantity return_doc)) (\<lambda>_.
      abind (update_return he (io_db_now io 1) ''Failed to update refunded return request: '' return_id
        [(''returnStatus'', JString ''refunded''), (''resolvedAt'', JString now),
         (''returnRefundAmountCents'', json_int amount), (''updatedAt'', JString now)]) (\<lambda>_.
      abind (hdb (amap_err (db_failed ''Failed to update refunded order item: '')
        (update_document (he_pg he) (io_db_now io 3) ''orders'' order_id
          (json_obj [(''items'', JArray updated_items), (''updatedAt'', JString now)])))) (\<lambda>_.
      order_event he io ''Failed to log return refund event: ''
        (json_obj [(''orderId'', JString order_id), (''userId'', JString user),
          (''eventType'', JString ''return_received_and_refunded''),
          (''message'', JString (''Return '' @ return_id @ '' received and item '' @ product_id @ '' refunded'')),
          (''metadata'', json_obj [(''productId'', JString product_id), (''returnId'', JString return_id),
            (''refundAmountCents'', json_int amount)]),
          (''createdAt'', JString now)])))))"

definition mark_received :: "h_env \<Rightarrow> h_io \<Rightarrow> stripe_io \<Rightarrow> string \<Rightarrow> string \<Rightarrow> json \<Rightarrow> unit h_action" where
  "mark_received he io si user return_id return_doc =
     (let order_id = str_field return_doc ''orderId''; product_id = str_field return_doc ''productId'' in
      abind (read_order he order_id) (\<lambda>order.
      abind (hres (ok_or (NotFound ''Item not found in order'') (find_item_index (items_array order) product_id))) (\<lambda>idx.
      abind (hres (calculate_refund_amount_cents order (items_array order ! idx))) (\<lambda>amount.
      abind (refund_return si order order_id product_id return_id amount) (\<lambda>refund_id.
      abind (alift (set_item (items_array order) idx (refunded_members (io_now io 0) ''Return approved'' amount refund_id))) (\<lambda>updated_items.
      write_returned he io user return_id return_doc updated_items amount))))))"

definition return_action ::
  "h_env \<Rightarrow> h_io \<Rightarrow> stripe_io \<Rightarrow> string \<Rightarrow> ApproveReturnReq \<Rightarrow> json \<Rightarrow> string h_action" where
  "return_action he io si user req return_doc =
     (let current_status = str_field return_doc ''returnStatus'';
          valid = valid_return_transitions current_status;
          failed = ''Failed to update return: '' in
      if ar_action req = ''approve'' then
        (if ''approved'' \<notin> set valid
         then athrow (Fail (Validation (''Cannot approve return in status '' @ [CHR 0x27] @ current_status @ [CHR 0x27])))
         else
           abind (update_return he (io_db_now io 1) failed (ar_return_id req) (approve_patch io req)) (\<lambda>_.
           areturn ''approved''))
      else if ar_action req = ''issue_label'' then
        (if ''label_issued'' \<notin> set valid
         then athrow (Fail (Validation (''Cannot issue label from status '' @ [CHR 0x27] @ current_status @ [CHR 0x27])))
         else
           abind (update_return he (io_db_now io 1) failed (ar_return_id req) (label_patch io req)) (\<lambda>_.
           areturn ''label_issued''))
      else if ar_action req = ''mark_received'' then
        (if ''received'' \<notin> set valid
         then athrow (Fail (Validation (''Cannot mark received from status '' @ [CHR 0x27] @ current_status @ [CHR 0x27])))
         else
           abind (mark_received he io si user (ar_return_id req) return_doc) (\<lambda>_.
           areturn ''refunded''))
      else athrow (Fail (Validation (''Unknown action: '' @ ar_action req @ ''. Must be '' @
        [CHR 0x27] @ ''approve'' @ [CHR 0x27] @ '', '' @ [CHR 0x27] @ ''issue_label'' @ [CHR 0x27] @ '', or '' @
        [CHR 0x27] @ ''mark_received'' @ [CHR 0x27] @ ''.''))))"

definition approve_return_request ::
  "h_env \<Rightarrow> h_io \<Rightarrow> stripe_io \<Rightarrow> AuthContext \<Rightarrow> ApproveReturnReq \<Rightarrow> string h_action" where
  "approve_return_request he io si auth req =
     abind (hres (validate_uid ''returnId'' (ar_return_id req))) (\<lambda>_.
     abind (hres (resolve_self_user_id auth (Some (ar_user_id req)) ''userId'')) (\<lambda>user.
     abind (hdb (check_user_rate_limit he io user ''approve_return_request'' 10 1)) (\<lambda>_.
     abind (is_user_admin he user) (\<lambda>is_admin.
     abind (read_return he (ar_return_id req)) (\<lambda>return_doc.
     if \<not> is_admin \<and> user \<noteq> str_field return_doc ''sellerId''
     then athrow (Fail (Forbidden ''Only the seller or admin can approve return requests''))
     else return_action he io si user req return_doc)))))"

subsection \<open>\<open>reject_return_request\<close>\<close>

definition reject_patch :: "h_env \<Rightarrow> h_io \<Rightarrow> RejectReturnReq \<Rightarrow> (string \<times> json) list" where
  "reject_patch he io req =
     (let rejection_reason = (case rj_reason req of Some s \<Rightarrow> clean_reason he s | None \<Rightarrow> []) in
      [(''returnStatus'', JString ''rejected''), (''resolvedAt'', JString (io_now io 0)), (''updatedAt'', JString (io_now io 0))] @
      (if rejection_reason \<noteq> [] then [(''rejectionReason'', JString rejection_reason)] else []))"

definition reject_return_request :: "h_env \<Rightarrow> h_io \<Rightarrow> AuthContext \<Rightarrow> RejectReturnReq \<Rightarrow> string h_action" where
  "reject_return_request he io auth req =
     abind (hres (validate_uid ''returnId'' (rj_return_id req))) (\<lambda>_.
     abind (hres (resolve_self_user_id auth (Some (rj_user_id req)) ''userId'')) (\<lambda>user.
     abind (hdb (check_user_rate_limit he io user ''reject_return_request'' 10 1)) (\<lambda>_.
     abind (is_user_admin he user) (\<lambda>is_admin.
     abind (read_return he (rj_return_id req)) (\<lambda>return_doc.
     let current_status = str_field return_doc ''returnStatus'' in
     if \<not> is_admin \<and> user \<noteq> str_field return_doc ''sellerId''
     then athrow (Fail (Forbidden ''Only the seller or admin can reject return requests''))
     else if ''rejected'' \<notin> set (valid_return_transitions current_status)
     then athrow (Fail (Validation (''Cannot reject return in status '' @ [CHR 0x27] @ current_status @ [CHR 0x27])))
     else
       abind (update_return he (io_db_now io 1) ''Failed to update return: '' (rj_return_id req) (reject_patch he io req)) (\<lambda>_.
       areturn ''rejected''))))))"

subsection \<open>\<open>escalate_return_request\<close>\<close>

text \<open>\<open>data->'roles' @> '"admin"'\<close>: the value is the string, or an array with it.\<close>

definition lists_admin_role :: "doc_row \<Rightarrow> bool" where
  "lists_admin_role r \<longleftrightarrow>
     (case jget ''roles'' (d_data r) of
        Some (JArray vs) \<Rightarrow> JString ''admin'' \<in> set vs
      | Some v \<Rightarrow> v = JString ''admin''
      | None \<Rightarrow> False)"

definition last_segment :: "string \<Rightarrow> string" where
  "last_segment i = last (split_on (CHR '':'') i)"

definition admin_user_ids :: "h_env \<Rightarrow> string list h_action" where
  "admin_user_ids he =
     abind (hdb (atry (abind (atry (ensure_table ''users'')) (\<lambda>_.
       pg_exec ''Query failed: '' ''users'' (\<lambda>rs.
         Inr (map (inject_document_metadata (he_pg he)) (take 100 (filter lists_admin_role rs)), rs)))))) (\<lambda>r.
     areturn (List.map_filter (\<lambda>row. map_option last_segment (jget_str ''id'' row))
       (case r of Inr rows \<Rightarrow> rows | Inl _ \<Rightarrow> [])))"

text \<open>
  \<open>SELECT user_id, token FROM _push_tokens WHERE user_id IN $1\<close>: \<open>IN\<close> needs a parenthesised list, so
  PostgreSQL cannot parse the statement.
\<close>

definition push_token_rows :: "json list pg_action" where
  "push_token_rows =
     abind (atry (ensure_table ''_push_tokens'')) (\<lambda>_.
     pg_exec ''Query failed: '' ''_push_tokens'' (\<lambda>rs.
       Inl (''error returned from database: syntax error at or near '' @ json_quote ''$1'')))"

definition tokens_of :: "json list \<Rightarrow> string \<Rightarrow> string list" where
  "tokens_of rows admin_id =
     List.map_filter (\<lambda>row. if jget_str ''user_id'' row = Some admin_id then jget_str ''token'' row else None) rows"

definition rt_uppercase :: "return_io \<Rightarrow> string \<Rightarrow> string" where
  "rt_uppercase rt s = (if is_ascii_str s then map upper_char s else rt_upper rt s)"

definition short_id :: "return_io \<Rightarrow> string \<Rightarrow> string" where
  "short_id rt i = rt_uppercase rt (take_chars 8 i)"

definition escalation_data :: "string \<Rightarrow> string \<Rightarrow> json" where
  "escalation_data return_id order_id =
     json_obj [(''orderId'', JString order_id), (''returnId'', JString return_id), (''returnStatus'', JString ''escalated'')]"

definition escalation_note :: "h_io \<Rightarrow> return_io \<Rightarrow> string \<Rightarrow> string \<Rightarrow> string \<Rightarrow> json" where
  "escalation_note io rt return_id order_id admin_id =
     (let oid = short_id rt order_id; rid = short_id rt return_id in
      json_obj [(''userId'', JString admin_id), (''notificationType'', JString ''return_escalated_admin''),
        (''title'', JString (''Return escalated by buyer for order #'' @ oid)),
        (''body'', JString (''Return #'' @ rid @ '' on order #'' @ oid @ '' was escalated and needs admin review.'')),
        (''data'', escalation_data return_id order_id), (''read'', JBool False),
        (''createdAt'', JString (io_now io 1)), (''updatedAt'', JString (io_now io 1))])"

definition em_dash :: string where
  "em_dash = [CHR 0xE2, CHR 0x80, CHR 0x94]"

definition pending_push :: "h_io \<Rightarrow> return_io \<Rightarrow> string \<Rightarrow> string \<Rightarrow> string \<Rightarrow> string \<Rightarrow> json" where
  "pending_push io rt return_id order_id admin_id token =
     (let oid = short_id rt order_id; rid = short_id rt return_id in
      json_obj [(''userId'', JString admin_id), (''token'', JString token),
        (''notification_type'', JString ''return_escalated_admin''), (''title'', JString ''Return Escalated by Buyer''),
        (''body'', JString (''Return #'' @ rid @ '' on order #'' @ oid @ '' escalated '' @ em_dash @ '' needs admin review'')),
        (''data'', escalation_data return_id order_id), (''status'', JString ''pending''), (''attempts'', json_int 0),
        (''created_at'', JString (io_now io 1)), (''updated_at'', JString (io_now io 1))])"

definition pending_push_id :: "string \<Rightarrow> string \<Rightarrow> string \<Rightarrow> string" where
  "pending_push_id return_id admin_id token =
     ''return_escalated_admin_push_'' @ return_id @ ''_'' @ admin_id @ ''_'' @ token"

definition upsert_doc :: "h_env \<Rightarrow> int \<Rightarrow> string \<Rightarrow> string \<Rightarrow> string \<Rightarrow> json \<Rightarrow> unit h_action" where
  "upsert_doc he now prefx coll i doc =
     abind (hdb (amap_err (db_failed prefx) (upsert_document (he_pg he) now coll i doc))) (\<lambda>_. areturn ())"

fun each_do :: "('a \<Rightarrow> unit h_action) \<Rightarrow> 'a list \<Rightarrow> unit h_action" where
  "each_do f [] = areturn ()"
| "each_do f (x # xs) = abind (f x) (\<lambda>_. each_do f xs)"

definition record_escalation :: "h_env \<Rightarrow> h_io \<Rightarrow> return_io \<Rightarrow> string \<Rightarrow> string \<Rightarrow> string \<times> string list \<Rightarrow> unit h_action" where
  "record_escalation he io rt return_id order_id = (\<lambda>(admin_id, tokens).
     abind (upsert_doc he (io_db_now io 2) (''Failed to upsert admin notification for '' @ admin_id @ '': '') ''notifications''
       (''return_escalated_admin_'' @ return_id @ ''_'' @ admin_id) (escalation_note io rt return_id order_id admin_id)) (\<lambda>_.
     each_do (\<lambda>token. upsert_doc he (io_db_now io 3) (''Failed to upsert pending escalation push for '' @ admin_id @ '': '')
       ''_pending_notifications'' (pending_push_id return_id admin_id token)
       (pending_push io rt return_id order_id admin_id token)) tokens))"

definition deliver_push :: "h_env \<Rightarrow> h_io \<Rightarrow> return_io \<Rightarrow> string \<Rightarrow> string \<times> string list \<Rightarrow> unit h_action" where
  "deliver_push he io rt return_id = (\<lambda>(admin_id, tokens).
     each_do (\<lambda>token.
       if rt_fcm rt \<and> rt_push rt token
       then ignoring (update_document (he_pg he) (io_db_now io 4) ''_pending_notifications'' (pending_push_id return_id admin_id token)
         (json_obj [(''status'', JString ''delivered''), (''delivered_at'', JString (io_now io 2)),
           (''updated_at'', JString (io_now io 2))]))
       else areturn ()) tokens)"

definition notify_admins_of_return_escalation :: "h_env \<Rightarrow> h_io \<Rightarrow> return_io \<Rightarrow> string \<Rightarrow> string \<Rightarrow> unit h_action" where
  "notify_admins_of_return_escalation he io rt return_id order_id =
     abind (admin_user_ids he) (\<lambda>admin_ids.
     abind (hdb (atry push_token_rows)) (\<lambda>r.
     let rows = (case r of Inr vs \<Rightarrow> vs | Inl _ \<Rightarrow> []);
         all_admin_tokens = map (\<lambda>a. (a, tokens_of rows a)) admin_ids in
     abind (each_do (record_escalation he io rt return_id order_id) all_admin_tokens) (\<lambda>_.
     each_do (deliver_push he io rt return_id) all_admin_tokens)))"

definition escalate_return_request ::
  "h_env \<Rightarrow> h_io \<Rightarrow> return_io \<Rightarrow> AuthContext \<Rightarrow> EscalateReturnReq \<Rightarrow> EscalateReturnResponse h_action" where
  "escalate_return_request he io rt auth req =
     abind (hres (validate_uid ''returnId'' (es_return_id req))) (\<lambda>_.
     abind (hres (resolve_self_user_id auth (Some (es_user_id req)) ''userId'')) (\<lambda>user.
     abind (hdb (check_user_rate_limit he io user ''escalate_return_request'' 3 60)) (\<lambda>_.
     let reason = clean_reason he (es_escalation_reason req) in
     if is_blank rt reason then athrow (Fail (Validation ''escalationReason is required''))
     else
       abind (read_return he (es_return_id req)) (\<lambda>return_doc.
       if str_field return_doc ''buyerId'' \<noteq> user
       then athrow (Fail (Forbidden ''Only the buyer can escalate this return''))
       else if str_field return_doc ''returnStatus'' \<notin> {''requested'', ''approved''}
       then athrow (Fail (Validation ''Return can only be escalated from requested or approved state''))
       else
         abind (hdb (update_document (he_pg he) (io_db_now io 1) RETURN_REQUESTS (es_return_id req)
           (json_obj [(''returnStatus'', JString ''escalated''), (''escalatedAt'', JString (io_now io 0)),
             (''escalationReason'', JString reason), (''updatedAt'', JString (io_now io 0))]))) (\<lambda>_.
         abind (notify_admins_of_return_escalation he io rt (es_return_id req) (str_field return_doc ''orderId'')) (\<lambda>_.
         areturn \<lparr>es_success = True, es_new_status = ''escalated'', es_return_status = ''escalated'',
           es_returned_id = es_return_id req\<rparr>))))))"

end
