(* ===== verification/Return_Safety.thy ===== *)
theory Return_Safety
  imports Returns Refund_Safety Webhook_Safety
begin

text \<open>
  Safety of the returns: along which moves a return request changes its status, for whom its
  item is refunded, and why a new request cannot be found by the id its buyer is given.
\<close>

subsection \<open>One move of one request\<close>

abbreviation returns :: "h_state \<Rightarrow> doc_row list" where
  "returns s \<equiv> tbl s RETURN_REQUESTS"

definition return_status :: "doc_row \<Rightarrow> string" where
  "return_status r = str_field (d_data r) ''returnStatus''"

definition identity_fields :: "string set" where
  "identity_fields = {''orderId'', ''productId'', ''buyerId'', ''sellerId''}"

definition same_identity :: "doc_row \<Rightarrow> doc_row \<Rightarrow> bool" where
  "same_identity r r' \<longleftrightarrow> (\<forall>k \<in> identity_fields. jget k (d_data r') = jget k (d_data r))"

text \<open>The request with this key, and no other, gets the new status; what is returned by whom stays.\<close>

definition moved_to :: "string \<Rightarrow> string \<Rightarrow> doc_row list \<Rightarrow> doc_row list \<Rightarrow> bool" where
  "moved_to key new rs rs' \<longleftrightarrow> (\<exists>f. rs' = map (\<lambda>r. if d_id r = key then f r else r) rs \<and>
     (\<forall>r. d_id (f r) = d_id r \<and> (return_status r \<noteq> [] \<longrightarrow> return_status (f r) = new \<and> same_identity r (f r))))"

definition may_move :: "string \<Rightarrow> string \<Rightarrow> 'a h_action \<Rightarrow> bool" where
  "may_move key new m \<longleftrightarrow> (\<forall>s. returns (snd (m s)) = returns s \<or> moved_to key new (returns s) (returns (snd (m s))))"

lemma may_moveD: "may_move key new m \<Longrightarrow> m s = (r, s') \<Longrightarrow> returns s' = returns s \<or> moved_to key new (returns s) (returns s')"
  by (metis may_move_def snd_conv)

lemma may_moveI: "(\<And>s r s'. m s = (r, s') \<Longrightarrow> returns s' = returns s \<or> moved_to key new (returns s) (returns s')) \<Longrightarrow> may_move key new m"
  by (metis may_move_def prod.collapse)

lemma may_move_keeps: "keeps {RETURN_REQUESTS} m \<Longrightarrow> may_move key new m"
  by (rule may_moveI) (simp add: keepsD)

lemma keeps_returns: "keeps {RETURN_REQUESTS} m \<Longrightarrow> m s = (r, s') \<Longrightarrow> returns s' = returns s"
  by (simp add: keepsD)

lemma may_move_before:
  "keeps {RETURN_REQUESTS} m \<Longrightarrow> (\<And>x. may_move key new (f x)) \<Longrightarrow> may_move key new (abind m f)"
  by (rule may_moveI, erule abind_cases) (metis keeps_returns, metis keeps_returns may_moveD)

lemma may_move_after:
  "may_move key new m \<Longrightarrow> (\<And>x. keeps {RETURN_REQUESTS} (f x)) \<Longrightarrow> may_move key new (abind m f)"
  by (rule may_moveI, erule abind_cases) (metis may_moveD, metis keeps_returns may_moveD)

lemma status_object: "return_status r \<noteq> [] \<Longrightarrow> \<exists>m. d_data r = JObject m"
  by (auto simp: return_status_def str_field_def jget_str_def jget_def split: json.splits option.splits)

text \<open>A patch that sets the status and none of the identity.\<close>

definition moves_to :: "string \<Rightarrow> (string \<times> json) list \<Rightarrow> bool" where
  "moves_to new kvs \<longleftrightarrow> jget ''returnStatus'' (json_obj kvs) = Some (JString new) \<and> (\<forall>k \<in> identity_fields. jget k (json_obj kvs) = None)"

lemma may_move_put:
  assumes "jsonb_keeps_strings (he_pg he)" "moves_to new kvs"
  shows "may_move (bare_id RETURN_REQUESTS i) new (hdb (update_document (he_pg he) now RETURN_REQUESTS i (json_obj kvs)))"
proof (rule may_moveI)
  fix s r s' assume "hdb (update_document (he_pg he) now RETURN_REQUESTS i (json_obj kvs)) s = (r, s')"
  then obtain q d where run: "update_document (he_pg he) now RETURN_REQUESTS i (json_obj kvs) (hs_db s) = (q, d)" and s': "s' = s\<lparr>hs_db := d\<rparr>"
    by (auto simp: hdb_eq)
  show "returns s' = returns s \<or> moved_to (bare_id RETURN_REQUESTS i) new (returns s) (returns s')"
  proof (cases q)
    case (Inr v)
    then obtain body where body: "pg_to_jsonb (he_pg he) (json_obj kvs) = Inr body"
      and rows: "tables d = (tables (hs_db s))(RETURN_REQUESTS :=
        map (\<lambda>r. if d_id r = bare_id RETURN_REQUESTS i then merged now body r else r) (returns s))"
      using update_document_cases [OF run] by auto
    obtain m where m: "json_obj kvs = JObject m" "obj_ok m" by (simp add: json_obj_def obj_ok_fold)
    then have fields: "map_of m ''returnStatus'' = Some (JString new)" "\<forall>k \<in> identity_fields. map_of m k = None"
      using assms(2) by (simp_all add: moves_to_def jget_def)
    obtain b where b: "body = JObject b" "obj_ok b" "map_of b ''returnStatus'' = Some (JString new)" "\<forall>k \<in> identity_fields. map_of b k = None"
      using assms(1) body m fields unfolding jsonb_keeps_strings_def by metis
    have "return_status (merged now body r) = new \<and> same_identity r (merged now body r)" if "return_status r \<noteq> []" for r
      using status_object [OF that] b
      by (auto simp: return_status_def same_identity_def str_field_def jget_str_def jget_def merged_def map_of_obj_merge map_add_def)
    then have "moved_to (bare_id RETURN_REQUESTS i) new (returns s) (returns s')"
      unfolding moved_to_def using rows s' by (intro exI [of _ "merged now body"]) simp
    then show ?thesis ..
  qed (use update_document_cases [OF run] s' in simp)
qed

lemma keeps_leaves: "leaves T m \<Longrightarrow> keeps T (hdb m)"
  by (rule keeps_hdb) (auto dest: leavesD)

lemma may_move_amap: "may_move key new (hdb m) \<Longrightarrow> may_move key new (hdb (amap_err g m))"
  by (auto simp: may_move_def hdb_def amap_err_def split: prod.splits)

lemma may_move_update_return:
  assumes "jsonb_keeps_strings (he_pg he)" "moves_to new kvs"
  shows "may_move (bare_id RETURN_REQUESTS i) new (update_return he now prefx i kvs)"
  unfolding update_return_def by (intro may_move_after may_move_amap may_move_put assms keeps_pure)

subsection \<open>What the handlers leave alone\<close>

lemma other_tables [simp]:
  "''orders'' \<noteq> RETURN_REQUESTS" "''products'' \<noteq> RETURN_REQUESTS" "''events'' \<noteq> RETURN_REQUESTS" "''users'' \<noteq> RETURN_REQUESTS"
  "''notifications'' \<noteq> RETURN_REQUESTS" "''_pending_notifications'' \<noteq> RETURN_REQUESTS" "RATE_LIMITS \<noteq> RETURN_REQUESTS"
  by (simp_all add: RETURN_REQUESTS_def RATE_LIMITS_def)

lemma keeps_limit: "keeps {RETURN_REQUESTS} (hdb (check_user_rate_limit he io u a n w))"
  by (rule keeps_hdb, erule rate_limit_tables) (auto simp: RETURN_REQUESTS_def RATE_LIMITS_def)

lemma keeps_stripe_refund: "keeps T (stripe_refund si p a r k m)"
  unfolding stripe_refund_def by (intro keeps_branch keeps_pure keeps_abind)

lemma keeps_refund_return: "keeps T (refund_return si order oid pid rid a)"
  unfolding refund_return_def Let_def by (intro keeps_branch keeps_pure keeps_stripe_refund)

lemma keeps_restore_returned: "keeps {RETURN_REQUESTS} (restore_returned he io pid q n)"
proof (induction n)
  case (Suc n)
  show ?case
    unfolding restore_returned.simps Let_def
    by (intro keeps_abind keeps_branch keeps_pure keeps_leaves leaves_steps leaves_get leaves_cas Suc) simp
qed simp

lemma keeps_return_units: "keeps {RETURN_REQUESTS} (return_units he io pid q)"
  unfolding return_units_def by (intro keeps_branch keeps_pure keeps_abind keeps_restore_returned)

lemma keeps_order_event: "keeps {RETURN_REQUESTS} (order_event he io prefx doc)"
  unfolding order_event_def by (intro keeps_abind keeps_pure keeps_leaves leaves_steps leaves_create) simp

lemma keeps_each: "(\<And>x. keeps T (f x)) \<Longrightarrow> keeps T (each_do f xs)"
  by (induction xs) (auto intro: keeps_abind)

lemma keeps_upsert_doc: "coll \<notin> T \<Longrightarrow> keeps T (upsert_doc he now prefx coll i doc)"
  unfolding upsert_doc_def by (intro keeps_abind keeps_pure keeps_leaves leaves_steps leaves_upsert)

lemma keeps_escalation: "keeps {RETURN_REQUESTS} (notify_admins_of_return_escalation he io rt rid oid)"
proof -
  have "keeps {RETURN_REQUESTS} (ignoring (update_document (he_pg he) now ''_pending_notifications'' i d))" for now i d
    unfolding ignoring_def by (intro keeps_abind keeps_pure keeps_leaves leaves_steps leaves_update) simp
  moreover have "keeps {RETURN_REQUESTS} (hdb (atry push_token_rows))"
    unfolding push_token_rows_def by (intro keeps_leaves leaves_steps leaves_abind leaves_ensure leaves_exec_error)
  moreover have "keeps {RETURN_REQUESTS} (admin_user_ids he)"
    unfolding admin_user_ids_def by (intro keeps_abind keeps_pure keeps_leaves leaves_steps leaves_abind leaves_ensure leaves_exec_read)
  ultimately show ?thesis
    unfolding notify_admins_of_return_escalation_def record_escalation_def deliver_push_def Let_def
    by (intro keeps_abind keeps_each keeps_branch keeps_pure) (auto intro!: keeps_abind keeps_each keeps_upsert_doc)
qed

subsection \<open>The moves\<close>

definition return_edges :: "(string \<times> string) set" where
  "return_edges = {(''requested'', ''approved''), (''requested'', ''rejected''), (''requested'', ''escalated''),
     (''approved'', ''label_issued''), (''approved'', ''refunded''), (''approved'', ''escalated''), (''label_issued'', ''refunded'')}"

text \<open>The request that was read is moved along an edge, or nothing happens.\<close>

definition follows_edge :: "string \<Rightarrow> doc_row list \<Rightarrow> doc_row list \<Rightarrow> bool" where
  "follows_edge key rs rs' \<longleftrightarrow> rs' = rs \<or>
     (\<exists>row new. doc_of key rs = Some row \<and> (return_status row, new) \<in> return_edges \<and> moved_to key new rs rs')"

lemma read_return_cases:
  assumes "read_return he i s = (r, s')"
  shows "returns s' = returns s \<and> (\<forall>d. r = Inr d \<longrightarrow> (\<exists>row. doc_of (bare_id RETURN_REQUESTS i) (returns s) = Some row \<and>
    d = inject_document_metadata (he_pg he) row))"
  using assms unfolding read_return_def by (auto simp: hdb_eq amap_err_eq dest!: get_document_cases split: sum.splits)

lemma status_inject: "str_field (inject_document_metadata env row) ''returnStatus'' = return_status row"
  by (simp add: return_status_def str_field_def jget_str_def jget_inject)

lemma may_move_mark_received:
  assumes "jsonb_keeps_strings (he_pg he)"
  shows "may_move (bare_id RETURN_REQUESTS i) ''refunded'' (mark_received he io si user i doc)"
proof -
  have tail: "may_move (bare_id RETURN_REQUESTS i) ''refunded'' (abind (update_return he now p i
      [(''returnStatus'', JString ''refunded''), (''resolvedAt'', JString t), (''returnRefundAmountCents'', json_int a), (''updatedAt'', JString t)])
      (\<lambda>_. abind (hdb (amap_err g (update_document (he_pg he) now' ''orders'' oid d))) (\<lambda>_. order_event he io p' e)))" for now p t a g now' oid d p' e
    by (rule may_move_after [OF may_move_update_return [OF assms]])
       (simp add: moves_to_def identity_fields_def, intro keeps_abind keeps_order_event keeps_leaves leaves_steps leaves_update, simp)
  have "may_move (bare_id RETURN_REQUESTS i) ''refunded'' (write_returned he io user i doc items a)" for items a
    unfolding write_returned_def Let_def by (rule may_move_before [OF keeps_return_units tail])
  then show ?thesis
    unfolding mark_received_def Let_def by (intro may_move_before keeps_read_order keeps_pure keeps_refund_return)
qed

definition allowed_move :: "string \<Rightarrow> string \<Rightarrow> 'a h_action \<Rightarrow> bool" where
  "allowed_move key st m \<longleftrightarrow> keeps {RETURN_REQUESTS} m \<or> (\<exists>new. (st, new) \<in> return_edges \<and> may_move key new m)"

lemma allowed_moveI: "(st, new) \<in> return_edges \<Longrightarrow> may_move key new m \<Longrightarrow> allowed_move key st m"
  by (auto simp: allowed_move_def)

lemma allowed_stop: "allowed_move key st (athrow e)"
  by (simp add: allowed_move_def)

lemma allowed_if: "(c \<Longrightarrow> allowed_move key st a) \<Longrightarrow> (\<not> c \<Longrightarrow> allowed_move key st b) \<Longrightarrow> allowed_move key st (if c then a else b)"
  by simp

lemma allowed_answer: "allowed_move key st m \<Longrightarrow> (\<And>x. keeps {RETURN_REQUESTS} (f x)) \<Longrightarrow> allowed_move key st (abind m f)"
  unfolding allowed_move_def by (metis keeps_abind may_move_after)

lemma follows_after_read:
  assumes "read_return he i u = (Inr doc, v)" "m v = (r, s')"
    and "allowed_move (bare_id RETURN_REQUESTS i) (str_field doc ''returnStatus'') m"
  shows "follows_edge (bare_id RETURN_REQUESTS i) (returns u) (returns s')"
proof -
  obtain row where row: "doc_of (bare_id RETURN_REQUESTS i) (returns u) = Some row" "doc = inject_document_metadata (he_pg he) row"
    and v: "returns v = returns u" using read_return_cases [OF assms(1)] by auto
  from assms(3) show ?thesis unfolding allowed_move_def
  proof
    assume "keeps {RETURN_REQUESTS} m"
    then have "returns s' = returns v" using assms(2) by (rule keeps_returns)
    then show ?thesis using v by (simp add: follows_edge_def)
  next
    assume "\<exists>new. (str_field doc ''returnStatus'', new) \<in> return_edges \<and> may_move (bare_id RETURN_REQUESTS i) new m"
    then obtain new where new: "(return_status row, new) \<in> return_edges" and mv: "may_move (bare_id RETURN_REQUESTS i) new m"
      using row(2) by (auto simp: status_inject)
    from may_moveD [OF mv assms(2)] show ?thesis using new v row(1) unfolding follows_edge_def by metis
  qed
qed

text \<open>A relation between the requests before and after an action.\<close>

definition within_returns :: "(doc_row list \<Rightarrow> doc_row list \<Rightarrow> bool) \<Rightarrow> 'a h_action \<Rightarrow> bool" where
  "within_returns Q m \<longleftrightarrow> (\<forall>s. Q (returns s) (returns (snd (m s))))"

abbreviation follows :: "string \<Rightarrow> 'a h_action \<Rightarrow> bool" where
  "follows key \<equiv> within_returns (follows_edge key)"

lemma within_returnsD: "within_returns Q m \<Longrightarrow> m s = (r, s') \<Longrightarrow> Q (returns s) (returns s')"
  by (metis within_returns_def snd_conv)

lemma within_returnsI: "(\<And>s r s'. m s = (r, s') \<Longrightarrow> Q (returns s) (returns s')) \<Longrightarrow> within_returns Q m"
  by (metis within_returns_def prod.collapse)

lemma within_returns_before:
  assumes "\<And>rs. Q rs rs" "keeps {RETURN_REQUESTS} m" "\<And>x. within_returns Q (f x)"
  shows "within_returns Q (abind m f)"
proof (rule within_returnsI, erule abind_cases)
  show "Q (returns s) (returns s')" if "m s = (Inl e, s')" for s s' e
    using keeps_returns [OF assms(2) that] assms(1) by simp
  show "Q (returns s) (returns s')" if "m s = (Inr x, u)" "f x u = (r, s')" for s s' x u r
    using keeps_returns [OF assms(2) that(1)] within_returnsD [OF assms(3) that(2)] by simp
qed

lemma within_returns_branch:
  "(\<And>rs. Q rs rs) \<Longrightarrow> within_returns Q (athrow e)"
  "within_returns Q a \<Longrightarrow> within_returns Q b \<Longrightarrow> within_returns Q (if c then a else b)"
  by (simp_all add: within_returns_def)

lemma follows_edge_refl: "follows_edge key rs rs"
  by (simp add: follows_edge_def)

lemmas follows_rules = within_returns_before [where Q = "follows_edge key" for key, OF follows_edge_refl]
  within_returns_branch(1) [where Q = "follows_edge key" for key, OF follows_edge_refl] within_returns_branch(2)

lemma follows_read:
  assumes "\<And>doc. allowed_move (bare_id RETURN_REQUESTS i) (str_field doc ''returnStatus'') (f doc)"
  shows "follows (bare_id RETURN_REQUESTS i) (abind (read_return he i) f)"
proof (rule within_returnsI, erule abind_cases)
  show "follows_edge (bare_id RETURN_REQUESTS i) (returns s) (returns s')" if "read_return he i s = (Inl e, s')" for s s' e
    using read_return_cases [OF that] by (simp add: follows_edge_def)
  show "follows_edge (bare_id RETURN_REQUESTS i) (returns s) (returns s')" if "read_return he i s = (Inr doc, u)" "f doc u = (r, s')" for s s' doc u r
    using follows_after_read [OF that assms] .
qed

lemma allowed_update:
  assumes "jsonb_keeps_strings (he_pg he)" "moves_to new kvs" "(st, new) \<in> return_edges"
  shows "allowed_move (bare_id RETURN_REQUESTS i) st (update_return he now prefx i kvs)"
  using allowed_moveI [OF assms(3) may_move_update_return [OF assms(1,2)]] .

lemma approve_follows:
  assumes "jsonb_keeps_strings (he_pg he)"
  shows "follows (bare_id RETURN_REQUESTS (ar_return_id req)) (approve_return_request he io si auth req)"
proof -
  let ?key = "bare_id RETURN_REQUESTS (ar_return_id req)"
  have patches: "moves_to ''approved'' (approve_patch io req)" "moves_to ''label_issued'' (label_patch io req)"
    by (auto simp: moves_to_def identity_fields_def approve_patch_def label_patch_def opt_member_def split: option.split)
  have approve: "allowed_move ?key st (update_return he now p (ar_return_id req) (approve_patch io req))"
    if "\<not> ''approved'' \<notin> set (valid_return_transitions st)" for st now p
    by (rule allowed_update [OF assms patches(1)])
       (use that in \<open>auto simp: valid_return_transitions_def return_edges_def split: if_splits\<close>)
  have label: "allowed_move ?key st (update_return he now p (ar_return_id req) (label_patch io req))"
    if "\<not> ''label_issued'' \<notin> set (valid_return_transitions st)" for st now p
    by (rule allowed_update [OF assms patches(2)])
       (use that in \<open>auto simp: valid_return_transitions_def return_edges_def split: if_splits\<close>)
  have received: "allowed_move ?key st (mark_received he io si user (ar_return_id req) doc)"
    if "\<not> ''received'' \<notin> set (valid_return_transitions st)" for st user doc
    by (rule allowed_moveI [OF _ may_move_mark_received [OF assms]])
       (use that in \<open>auto simp: valid_return_transitions_def return_edges_def split: if_splits\<close>)
  have "allowed_move ?key (str_field doc ''returnStatus'') (return_action he io si user req doc)" for user doc
    unfolding return_action_def Let_def
    by (intro allowed_if allowed_stop allowed_answer keeps_pure approve label received)
  then show ?thesis
    unfolding approve_return_request_def
    by (intro follows_read follows_rules keeps_pure keeps_limit keeps_is_user_admin allowed_if allowed_stop)
qed

lemma reject_follows:
  assumes "jsonb_keeps_strings (he_pg he)"
  shows "follows (bare_id RETURN_REQUESTS (rj_return_id req)) (reject_return_request he io auth req)"
proof -
  have patch: "moves_to ''rejected'' (reject_patch he io req)"
    by (auto simp: moves_to_def identity_fields_def reject_patch_def Let_def)
  have reject: "allowed_move (bare_id RETURN_REQUESTS (rj_return_id req)) st (update_return he now p (rj_return_id req) (reject_patch he io req))"
    if "\<not> ''rejected'' \<notin> set (valid_return_transitions st)" for st now p
    by (rule allowed_update [OF assms patch])
       (use that in \<open>auto simp: valid_return_transitions_def return_edges_def split: if_splits\<close>)
  show ?thesis
    unfolding reject_return_request_def Let_def
    by (intro follows_read follows_rules keeps_pure keeps_limit keeps_is_user_admin allowed_if allowed_stop allowed_answer reject)
qed

lemma escalate_follows:
  assumes "jsonb_keeps_strings (he_pg he)"
  shows "follows (bare_id RETURN_REQUESTS (es_return_id req)) (escalate_return_request he io rt auth req)"
proof -
  have escalate: "allowed_move (bare_id RETURN_REQUESTS (es_return_id req)) st (hdb (update_document (he_pg he) now RETURN_REQUESTS (es_return_id req)
      (json_obj [(''returnStatus'', JString ''escalated''), (''escalatedAt'', JString t), (''escalationReason'', JString q), (''updatedAt'', JString t)])))"
    if "\<not> st \<notin> {''requested'', ''approved''}" for st now t q
    by (rule allowed_moveI [OF _ may_move_put [OF assms]]) (use that in \<open>auto simp: return_edges_def moves_to_def identity_fields_def\<close>)
  show ?thesis
    unfolding escalate_return_request_def Let_def
    by (intro follows_read follows_rules keeps_pure keeps_limit allowed_if allowed_stop allowed_answer escalate
        keeps_abind keeps_escalation)
qed

text \<open>A new request is added with a new key, and the others stay.\<close>

lemma keeps_no_open: "keeps T (no_open_return he req user)"
proof -
  have "keeps T (hdb (atry (select_first he t hit)))" for t hit by (intro keeps_leaves leaves_steps leaves_select)
  moreover have "keeps T (case r of Inr (Some d) \<Rightarrow> if c d then athrow e else areturn () | _ \<Rightarrow> areturn ())"
    for r :: "ob_error + json option" and c e by (simp split: sum.split option.split)
  ultimately show ?thesis unfolding no_open_return_def by (intro keeps_abind)
qed

text \<open>The type of a stored request: one of the statuses, and strings that say what is returned by whom.\<close>

definition return_typed :: "doc_row \<Rightarrow> bool" where
  "return_typed r \<longleftrightarrow> return_status r \<in> {''requested'', ''approved'', ''label_issued'', ''refunded'', ''rejected'', ''escalated''} \<and>
     (\<forall>k \<in> identity_fields. \<exists>x. jget k (d_data r) = Some (JString x))"

definition one_more :: "doc_row list \<Rightarrow> doc_row list \<Rightarrow> bool" where
  "one_more rs rs' \<longleftrightarrow> rs' = rs \<or> (\<exists>row. doc_of (d_id row) rs = None \<and> return_typed row \<and> rs' = rs @ [row])"

lemma new_return_typed:
  assumes "jsonb_keeps_strings (he_pg he)" "pg_to_jsonb (he_pg he) (return_document io req user item reason) = Inr body"
  shows "return_typed \<lparr>d_id = i, d_data = body, d_created_at = t, d_updated_at = t\<rparr>"
proof -
  let ?kvs = "[(''returnId'', JString (io_uuid io 1)), (''orderId'', JString (nr_order_id req)),
       (''buyerId'', JString user), (''sellerId'', JString (str_field item ''sellerId'')),
       (''productId'', JString (nr_product_id req)), (''name'', JString (str_field item ''name'')),
       (''quantity'', json_int (item_quantity item)),
       (''fulfillmentWarehouseId'', JString (str_field item ''fulfillmentWarehouseId'')),
       (''returnStatus'', JString ''requested''), (''returnReason'', JString reason),
       (''requestedAt'', JString (io_now io 0)), (''updatedAt'', JString (io_now io 0))]"
  have kept: "jget k body = Some (JString x)" if "jget k (json_obj ?kvs) = Some (JString x)" for k x
  proof (rule jsonb_string [OF assms(1) assms(2) [unfolded return_document_def] that])
    fix b assume "body = JObject b" "map_of b k = Some (JString x)"
    then show ?thesis by (simp only: jget_def json.case)
  qed
  show ?thesis
    using kept [of "''returnStatus''" "''requested''"] kept [of "''orderId''" "nr_order_id req"] kept [of "''buyerId''" user]
      kept [of "''sellerId''" "str_field item ''sellerId''"] kept [of "''productId''" "nr_product_id req"]
    by (simp add: return_typed_def return_status_def identity_fields_def str_field_def jget_str_def)
qed

lemma create_return_adds:
  assumes "jsonb_keeps_strings (he_pg he)"
  shows "within_returns one_more (create_return_request he io si rt auth req)"
proof -
  have refl: "one_more rs rs" for rs by (simp add: one_more_def)
  have create: "within_returns one_more (abind (hdb (amap_err g (create_document (he_pg he) u now RETURN_REQUESTS (return_document io req user item reason)))) (\<lambda>_. areturn x))" for g u now user item reason and x :: string
  proof (rule within_returnsI)
    fix s r s' assume "abind (hdb (amap_err g (create_document (he_pg he) u now RETURN_REQUESTS (return_document io req user item reason)))) (\<lambda>_. areturn x) s = (r, s')"
    then obtain q e where run: "create_document (he_pg he) u now RETURN_REQUESTS (return_document io req user item reason) (hs_db s) = (q, e)" "s' = s\<lparr>hs_db := e\<rparr>"
      by (auto elim!: abind_cases simp: hdb_eq amap_err_eq)
    show "one_more (returns s) (returns s')"
      using create_document_cases [OF run(1)] run(2) new_return_typed [OF assms] by (cases q) (auto simp: one_more_def)
  qed
  show ?thesis
    unfolding create_return_request_def Let_def
    by (intro within_returns_before [where Q = one_more, OF refl] within_returns_branch(1) [where Q = one_more, OF refl] within_returns_branch(2) create
        keeps_pure keeps_limit keeps_read_order keeps_no_open)
qed

subsection \<open>Sequences of requests\<close>

inductive return_step :: "h_env \<Rightarrow> h_state \<Rightarrow> h_state \<Rightarrow> bool" for he where
  step_create: "create_return_request he io si rt auth creq s = (p, s') \<Longrightarrow> return_step he s s'"
| step_approve: "approve_return_request he io si auth areq s = (r, s') \<Longrightarrow> return_step he s s'"
| step_reject: "reject_return_request he io auth rreq s = (r, s') \<Longrightarrow> return_step he s s'"
| step_escalate: "escalate_return_request he io rt auth ereq s = (q, s') \<Longrightarrow> return_step he s s'"
| step_elsewhere: "returns s' = returns s \<Longrightarrow> return_step he s s'"

definition one_move :: "doc_row list \<Rightarrow> doc_row list \<Rightarrow> bool" where
  "one_move rs rs' \<longleftrightarrow> distinct (map d_id rs') \<and> (\<forall>i r. doc_of i rs = Some r \<longrightarrow>
     (\<exists>r'. doc_of i rs' = Some r' \<and> same_identity r r' \<and> (return_status r' = return_status r \<or> (return_status r, return_status r') \<in> return_edges))) \<and>
     (\<forall>i r'. doc_of i rs = None \<longrightarrow> doc_of i rs' = Some r' \<longrightarrow> return_typed r')"

lemma edge_start: "(a, b) \<in> return_edges \<Longrightarrow> a \<noteq> []"
  by (auto simp: return_edges_def)

lemma follows_one_move:
  assumes "follows_edge key rs rs'" "distinct (map d_id rs)"
  shows "one_move rs rs'"
  using assms(1) unfolding follows_edge_def
proof (elim disjE exE conjE)
  fix row new assume row: "doc_of key rs = Some row" and edge: "(return_status row, new) \<in> return_edges" and mv: "moved_to key new rs rs'"
  obtain f where rs': "rs' = map (\<lambda>r. if d_id r = key then f r else r) rs"
    and f: "\<And>r. d_id (f r) = d_id r \<and> (return_status r \<noteq> [] \<longrightarrow> return_status (f r) = new \<and> same_identity r (f r))"
    using mv unfolding moved_to_def by blast
  let ?g = "\<lambda>r. if d_id r = key then f r else r"
  have g: "d_id (?g r) = d_id r" for r using f by simp
  have docs: "doc_of i rs' = map_option ?g (doc_of i rs)" for i unfolding rs' by (rule doc_of_map) (rule g)
  have "map d_id rs' = map d_id rs" unfolding rs' using g by simp
  then have "distinct (map d_id rs')" using assms(2) by simp
  moreover have "\<exists>r'. doc_of i rs' = Some r' \<and> same_identity r r' \<and> (return_status r' = return_status r \<or> (return_status r, return_status r') \<in> return_edges)"
    if r: "doc_of i rs = Some r" for i r
  proof (cases "d_id r = key")
    case True
    then have "r = row" using row r doc_of_id [OF r] by simp
    then show ?thesis using True docs r edge f edge_start [OF edge] by simp
  qed (use docs r in \<open>simp add: same_identity_def\<close>)
  ultimately show ?thesis using docs by (simp add: one_move_def)
qed (use assms(2) in \<open>auto simp: one_move_def same_identity_def\<close>)

lemma one_more_one_move:
  assumes "one_more rs rs'" "distinct (map d_id rs)"
  shows "one_move rs rs'"
  using assms(1) unfolding one_more_def
proof (elim disjE exE conjE)
  fix row assume new: "doc_of (d_id row) rs = None" and typed: "return_typed row" and rs': "rs' = rs @ [row]"
  have "d_id row \<notin> set (map d_id rs)" using new by (auto simp: doc_of_def find_None_iff)
  then show ?thesis using assms(2) typed by (auto simp: one_move_def rs' doc_of_append same_identity_def split: option.splits if_splits)
qed (use assms(2) in \<open>auto simp: one_move_def same_identity_def\<close>)

lemma return_step_move:
  assumes "jsonb_keeps_strings (he_pg he)" "return_step he s s'" "distinct (map d_id (returns s))"
  shows "one_move (returns s) (returns s')"
  using assms(2)
proof cases
  case (step_create io si rt auth creq p)
  show ?thesis by (rule one_more_one_move [OF within_returnsD [OF create_return_adds [OF assms(1)] step_create] assms(3)])
next
  case (step_approve io si auth areq r)
  show ?thesis by (rule follows_one_move [OF within_returnsD [OF approve_follows [OF assms(1)] step_approve] assms(3)])
next
  case (step_reject io auth rreq r)
  show ?thesis by (rule follows_one_move [OF within_returnsD [OF reject_follows [OF assms(1)] step_reject] assms(3)])
next
  case (step_escalate io rt auth ereq q)
  show ?thesis by (rule follows_one_move [OF within_returnsD [OF escalate_follows [OF assms(1)] step_escalate] assms(3)])
next
  case step_elsewhere
  then show ?thesis using assms(3) by (simp add: one_move_def same_identity_def)
qed

lemma closed_returns: "(a, b) \<in> return_edges\<^sup>* \<Longrightarrow> a \<in> {''rejected'', ''refunded'', ''escalated''} \<Longrightarrow> b = a"
  by (induction rule: rtrancl_induct) (auto simp: return_edges_def)

text \<open>
  C38. Returns move forward: over every sequence of the requests to create, approve, label, receive, reject and escalate
  returns, each run to its end, and of anything else that leaves the table of returns alone, whatever faults the database
  and the payment provider report, every return request stays stored and its status moves
  along the edges from requested over approved and labelled to refunded, or to rejected
  or escalated. A return that is rejected, refunded or escalated stays so: nobody can settle an
  escalated one.
\<close>

theorem returns_move_forward:
  assumes "jsonb_keeps_strings (he_pg he)" "distinct (map d_id (returns s))" "(return_step he)\<^sup>*\<^sup>* s s'" "doc_of i (returns s) = Some r"
  shows "\<exists>r'. doc_of i (returns s') = Some r' \<and> (return_status r, return_status r') \<in> return_edges\<^sup>* \<and>
    (return_status r \<in> {''rejected'', ''refunded'', ''escalated''} \<longrightarrow> return_status r' = return_status r)"
proof -
  have "distinct (map d_id (returns s')) \<and> (\<exists>r'. doc_of i (returns s') = Some r' \<and> (return_status r, return_status r') \<in> return_edges\<^sup>*)"
    using assms(3)
  proof (induction rule: rtranclp_induct)
    case (step y z)
    then obtain r' where r': "distinct (map d_id (returns y))" "doc_of i (returns y) = Some r'" "(return_status r, return_status r') \<in> return_edges\<^sup>*"
      by blast
    have move: "one_move (returns y) (returns z)" by (rule return_step_move [OF assms(1) step(2) r'(1)])
    then obtain r2 where "doc_of i (returns z) = Some r2"
      "return_status r2 = return_status r' \<or> (return_status r', return_status r2) \<in> return_edges"
      using r'(2) unfolding one_move_def by blast
    then show ?case using move r'(3) by (auto simp: one_move_def intro: rtrancl_into_rtrancl)
  qed (use assms in auto)
  then show ?thesis using closed_returns by blast
qed

text \<open>
  C40. Returns keep their type and their identity: over every sequence of the requests of returns, each run to its end, and of anything else that leaves
  the table of returns alone, whatever faults occur, every stored request has one of the six statuses and strings as order, product,
  buyer and seller, and what a stored request says of order, product, buyer and seller never changes.
\<close>

theorem returns_stay_typed:
  assumes "jsonb_keeps_strings (he_pg he)" "distinct (map d_id (returns s))" "(return_step he)\<^sup>*\<^sup>* s s'"
    and "\<forall>i r. doc_of i (returns s) = Some r \<longrightarrow> return_typed r"
  shows "(\<forall>i r'. doc_of i (returns s') = Some r' \<longrightarrow> return_typed r') \<and>
    (\<forall>i r. doc_of i (returns s) = Some r \<longrightarrow> (\<exists>r'. doc_of i (returns s') = Some r' \<and> same_identity r r'))"
proof -
  have "distinct (map d_id (returns s')) \<and> (\<forall>i r'. doc_of i (returns s') = Some r' \<longrightarrow> return_typed r') \<and>
    (\<forall>i r. doc_of i (returns s) = Some r \<longrightarrow> (\<exists>r'. doc_of i (returns s') = Some r' \<and> same_identity r r'))"
    using assms(3)
  proof (induction rule: rtranclp_induct)
    case base
    then show ?case using assms(2,4) by (auto simp: same_identity_def)
  next
    case (step y z)
    have move: "one_move (returns y) (returns z)" by (rule return_step_move [OF assms(1) step(2)]) (use step.IH in blast)
    have "return_typed r'" if r': "doc_of i (returns z) = Some r'" for i r'
    proof (cases "doc_of i (returns y)")
      case (Some r)
      then have "same_identity r r' \<and> (return_status r' = return_status r \<or> (return_status r, return_status r') \<in> return_edges)"
        using move r' unfolding one_move_def by fastforce
      moreover have "return_typed r" using step.IH Some by blast
      ultimately show ?thesis by (auto simp: return_typed_def same_identity_def return_edges_def)
    qed (use move r' in \<open>auto simp: one_move_def\<close>)
    moreover have "\<exists>r'. doc_of i (returns z) = Some r' \<and> same_identity r r'" if r: "doc_of i (returns s) = Some r" for i r
    proof -
      obtain r1 where "doc_of i (returns y) = Some r1" "same_identity r r1" using step.IH r by blast
      then show ?thesis using move unfolding one_move_def same_identity_def by metis
    qed
    ultimately show ?case using move by (simp add: one_move_def)
  qed
  then show ?thesis by blast
qed

subsection \<open>Refunds\<close>

text \<open>A refund of the item's amount in the stored order, under the key of this return.\<close>

definition returned_refund :: "h_state \<Rightarrow> string \<Rightarrow> json \<Rightarrow> outcall \<Rightarrow> bool" where
  "returned_refund s return_id doc c \<longleftrightarrow> (\<exists>order idx amount.
     doc_of (bare_id ''orders'' (str_field doc ''orderId'')) (tbl s ''orders'') = Some order \<and>
     find_item_index (items_array (d_data order)) (str_field doc ''productId'') = Some idx \<and>
     calculate_refund_amount_cents (d_data order) (items_array (d_data order) ! idx) = Inr amount \<and>
     c = StripeRefund (str_field (d_data order) ''paymentIntentId'') (Some amount) ''requested_by_customer''
       (''return_refund_'' @ return_id @ ''_'' @ str_field doc ''productId'')
       [(''orderId'', str_field doc ''orderId''), (''productId'', str_field doc ''productId''), (''returnId'', return_id)])"

lemma called_run:
  assumes "abind m f s = (r, s')" "hs_outbox s' \<noteq> hs_outbox s" "quiet m"
  obtains x u where "m s = (Inr x, u)" "hs_outbox u = hs_outbox s" "f x u = (r, s')" "hs_outbox s' \<noteq> hs_outbox u"
proof -
  obtain q u where m: "m s = (q, u)" "hs_outbox u = hs_outbox s" using assms(3) unfolding quiet_def by (metis prod.collapse)
  then obtain x where "q = Inr x" using assms(1,2) by (cases q) (auto simp: abind_def)
  then show thesis using m assms(1,2) by (intro that [of x u]) (simp_all add: abind_def)
qed

lemma called_stop:
  assumes "(if b then athrow e else m) s = (r, s')" "hs_outbox s' \<noteq> hs_outbox s"
  obtains "\<not> b" "m s = (r, s')"
  using assms by (cases b) auto

lemma quiet_rest:
  assumes "abind m f s = (r, s')" "\<And>x. quiet (f x)"
  obtains q u where "m s = (q, u)" "hs_outbox s' = hs_outbox u"
  using assms(1) by (rule abind_cases) (use assms(2) that in \<open>auto simp: quiet_def, metis snd_conv\<close>)

lemma quiet_restore_returned: "quiet (restore_returned he io pid q n)"
  by (induction n) (auto simp: Let_def intro!: quiet_abind)

lemma quiet_returns:
  "quiet (read_return he i)" "quiet (update_return he now p i kvs)" "quiet (return_units he io pid q)" "quiet (order_event he io p doc)"
  by (auto simp: read_return_def update_return_def return_units_def order_event_def intro!: quiet_abind quiet_restore_returned)

lemma quiet_write_returned: "quiet (write_returned he io user i doc items a)"
  unfolding write_returned_def Let_def by (intro quiet_abind quiet_returns quiet_steps)

lemma refund_return_called:
  assumes "refund_return si order oid pid rid a s = (q, u)" "hs_outbox u \<noteq> hs_outbox s"
  shows "hs_outbox u = hs_outbox s @ [StripeRefund (str_field order ''paymentIntentId'') (Some a) ''requested_by_customer''
    (''return_refund_'' @ rid @ ''_'' @ pid) [(''orderId'', oid), (''productId'', pid), (''returnId'', rid)]]"
  using assms by (auto simp: refund_return_def stripe_refund_def Let_def notify_def abind_def hres_def split: if_splits)

lemma received_called:
  assumes "mark_received he io si user i doc s = (r, s')" "hs_outbox s' \<noteq> hs_outbox s"
  shows "\<exists>c. hs_outbox s' = hs_outbox s @ [c] \<and> returned_refund s i doc c"
proof -
  let ?oid = "str_field doc ''orderId''" and ?pid = "str_field doc ''productId''"
  obtain order u idx amount where read: "read_order he ?oid s = (Inr order, u)" and u: "hs_outbox u = hs_outbox s"
    and idx: "find_item_index (items_array order) ?pid = Some idx"
    and amount: "calculate_refund_amount_cents order (items_array order ! idx) = Inr amount"
    and pay: "abind (refund_return si order ?oid ?pid i amount) (\<lambda>refund_id.
      abind (alift (set_item (items_array order) idx (refunded_members (io_now io 0) ''Return approved'' amount refund_id)))
        (\<lambda>updated_items. write_returned he io user i doc updated_items amount)) u = (r, s')"
    and changed: "hs_outbox s' \<noteq> hs_outbox u"
    using assms unfolding mark_received_def Let_def
    apply -
    apply (erule (1) called_run, rule quiet_helpers, erule (1) called_run, rule quiet_steps, erule (1) called_run, rule quiet_steps)
    by (auto simp: hres_Inr ok_or_eq_Inr)
  obtain q w where w: "refund_return si order ?oid ?pid i amount u = (q, w)" "hs_outbox s' = hs_outbox w"
    by (rule quiet_rest [OF pay]) (intro quiet_abind quiet_steps quiet_write_returned)
  obtain row where row: "doc_of (bare_id ''orders'' ?oid) (tbl s ''orders'') = Some row" "order = inject_document_metadata (he_pg he) row"
    by (rule read_order_row [OF read])
  have fields: "i64_field order ''subtotalCents'' = i64_field (d_data row) ''subtotalCents''"
    "i64_field order ''discountAmountCents'' = i64_field (d_data row) ''discountAmountCents''"
    "i64_field order ''shippingCostCents'' = i64_field (d_data row) ''shippingCostCents''"
    "i64_field order ''taxAmountCents'' = i64_field (d_data row) ''taxAmountCents''"
    by (simp_all add: i64_field_def jget_i64_def jget_inject row(2))
  have "calculate_refund_amount_cents (d_data row) it = calculate_refund_amount_cents order it" for it
    unfolding calculate_refund_amount_cents_def fields by (rule refl)
  then show ?thesis
    using refund_return_called [OF w(1)] w(2) changed u row idx amount
    by (auto simp: returned_refund_def items_inject str_field_inject)
qed

lemma return_action_called:
  assumes "return_action he io si user req doc s = (r, s')" "hs_outbox s' \<noteq> hs_outbox s"
  shows "ar_action req = ''mark_received'' \<and> str_field doc ''returnStatus'' \<in> {''approved'', ''label_issued''} \<and>
    (\<exists>c. hs_outbox s' = hs_outbox s @ [c] \<and> returned_refund s (ar_return_id req) doc c)"
proof -
  have quiet: "quiet (abind (update_return he now p i kvs) (\<lambda>_. areturn x))" for now p i kvs and x :: string
    by (intro quiet_abind quiet_returns quiet_steps)
  have act: "ar_action req = ''mark_received''" "''received'' \<in> set (valid_return_transitions (str_field doc ''returnStatus''))"
    and run: "abind (mark_received he io si user (ar_return_id req) doc) (\<lambda>_. areturn ''refunded'') s = (r, s')"
    using assms quiet unfolding return_action_def Let_def quiet_def by (auto split: if_splits) (metis snd_conv)+
  obtain q where "mark_received he io si user (ar_return_id req) doc s = (q, s')"
    using run by (auto elim!: abind_cases)
  then show ?thesis using received_called assms(2) act
    by (auto simp: valid_return_transitions_def split: if_splits)
qed

lemma quiet_each: "(\<And>x. quiet (f x)) \<Longrightarrow> quiet (each_do f xs)"
  by (induction xs) auto

lemma quiet_other_returns:
  "quiet (create_return_request he io si rt auth creq)" "quiet (reject_return_request he io auth rreq)"
  "quiet (escalate_return_request he io rt auth ereq)"
proof -
  have cases: "quiet (if c then a else b)" if "quiet a" "quiet b" for c and a b :: "'b h_action" using that by simp
  have "quiet (no_open_return he creq u)" for u
    unfolding no_open_return_def by (intro quiet_abind quiet_steps) (simp split: sum.split option.split)
  then show "quiet (create_return_request he io si rt auth creq)"
    unfolding create_return_request_def Let_def by (intro quiet_abind quiet_steps quiet_helpers cases)
  show "quiet (reject_return_request he io auth rreq)"
    unfolding reject_return_request_def Let_def by (intro quiet_abind quiet_steps quiet_helpers quiet_returns cases)
  have "quiet (notify_admins_of_return_escalation he io rt i oid)" for i oid
    unfolding notify_admins_of_return_escalation_def admin_user_ids_def record_escalation_def deliver_push_def upsert_doc_def ignoring_def Let_def
    by (intro quiet_abind quiet_steps quiet_each) (auto intro!: quiet_abind quiet_each)
  then show "quiet (escalate_return_request he io rt auth ereq)"
    unfolding escalate_return_request_def Let_def by (intro quiet_abind quiet_steps quiet_returns cases)
qed

text \<open>
  C39. A returned item is refunded once per request and for those entitled: deciding on a return calls the payment provider at most once,
  when the seller of the item or an administrator marks an approved or labelled return
  as received, to refund the amount of the item in the stored order under a key made of the return and
  the product. Asking for, rejecting and escalating a return never call it.
\<close>

theorem return_refunds_entitled:
  assumes "approve_return_request he io si auth req s = (r, s')"
  shows "(hs_outbox s' = hs_outbox s \<or>
    (\<exists>row c. hs_outbox s' = hs_outbox s @ [c] \<and> doc_of (bare_id RETURN_REQUESTS (ar_return_id req)) (returns s) = Some row \<and>
      return_status row \<in> {''approved'', ''label_issued''} \<and> ar_action req = ''mark_received'' \<and>
      (has_admin_role s (au_user_id auth) \<or> str_field (d_data row) ''sellerId'' = au_user_id auth) \<and>
      returned_refund s (ar_return_id req) (d_data row) c)) \<and>
    hs_outbox (snd (create_return_request he io si rt auth creq s)) = hs_outbox s \<and>
    hs_outbox (snd (reject_return_request he io auth rreq s)) = hs_outbox s \<and>
    hs_outbox (snd (escalate_return_request he io rt auth ereq s)) = hs_outbox s"
proof -
  have "\<exists>row c. hs_outbox s' = hs_outbox s @ [c] \<and> doc_of (bare_id RETURN_REQUESTS (ar_return_id req)) (returns s) = Some row \<and>
      return_status row \<in> {''approved'', ''label_issued''} \<and> ar_action req = ''mark_received'' \<and>
      (has_admin_role s (au_user_id auth) \<or> str_field (d_data row) ''sellerId'' = au_user_id auth) \<and>
      returned_refund s (ar_return_id req) (d_data row) c" if changed: "hs_outbox s' \<noteq> hs_outbox s"
  proof -
    obtain user u d v is_admin doc w where user: "resolve_self_user_id auth (Some (ar_user_id req)) ''userId'' = Inr user"
      and lim: "hdb (check_user_rate_limit he io user ''approve_return_request'' 10 1) s = (Inr d, u)" and out: "hs_outbox w = hs_outbox s"
      and admin: "is_user_admin he user u = (Inr is_admin, v)" and read: "read_return he (ar_return_id req) v = (Inr doc, w)"
      and own: "is_admin \<or> user = str_field doc ''sellerId''" and run: "return_action he io si user req doc w = (r, s')"
      using assms changed unfolding approve_return_request_def
      by (elim called_run called_stop; (intro quiet_steps quiet_helpers quiet_returns)?) (auto simp: hres_Inr)
    have user: "user = au_user_id auth" using user
      by (auto simp: resolve_self_user_id_def require_authenticated_def rbind_eq_Inr split: option.splits if_splits)
    have u: "tbl u t = tbl s t" if "t \<in> core_tables" for t using keepsD [OF keeps_rate_limit lim that] .
    have v: "tbl v t = tbl u t" for t using keepsD [OF keeps_is_user_admin admin, of t UNIV] by simp
    have w: "tbl w t = tbl v t" for t using read by (auto simp: read_return_def hdb_eq amap_err_eq dest!: get_document_cases split: sum.splits)
    have core: "RETURN_REQUESTS \<in> core_tables" by (auto simp: core_tables_def RETURN_REQUESTS_def RATE_LIMITS_def)
    obtain row where row: "doc_of (bare_id RETURN_REQUESTS (ar_return_id req)) (returns s) = Some row" "doc = inject_document_metadata (he_pg he) row"
      using read_return_cases [OF read] v u [OF core] by auto
    have "is_admin \<longrightarrow> has_admin_role s user" using admin is_user_admin_true [of he user u v] u [OF core_mem(2)] by (auto simp: has_admin_role_def)
    moreover have "returned_refund w i doc c \<longleftrightarrow> returned_refund s i (d_data row) c" for i c
      unfolding returned_refund_def row(2) using w v u [OF core_mem(1)] by (simp add: str_field_inject)
    ultimately show ?thesis
      using return_action_called [OF run] changed out row own user by (auto simp: status_inject str_field_inject)
  qed
  then show ?thesis using quiet_other_returns unfolding quiet_def by blast
qed

subsection \<open>The id of a new request\<close>

lemma read_return_missing:
  assumes "doc_of (bare_id RETURN_REQUESTS i) (returns s) = None"
  shows "read_return he i s \<noteq> (Inr doc, u)"
  using read_return_cases [of he i s "Inr doc" u] assms by auto

lemma missing_return:
  assumes "doc_of (bare_id RETURN_REQUESTS i) (returns s) = None"
  shows "ar_return_id areq = i \<Longrightarrow> approve_return_request he io si auth areq s \<noteq> (Inr a, u)"
    "rj_return_id rreq = i \<Longrightarrow> reject_return_request he io auth rreq s \<noteq> (Inr b, u)"
    "es_return_id ereq = i \<Longrightarrow> escalate_return_request he io rt auth ereq s \<noteq> (Inr c, u)"
proof -
  have stop: False if "hdb (check_user_rate_limit he io user ac n w) s = (Inr (), v)"
    "is_user_admin he user v = (Inr adm, y)" "read_return he i y = (Inr doc, z)" for user ac n w v adm y doc z
    using that assms keeps_returns [OF keeps_limit] keeps_returns [OF keeps_is_user_admin] read_return_missing [of i y] by metis
  show "approve_return_request he io si auth areq s \<noteq> (Inr a, u)" if "ar_return_id areq = i"
    unfolding approve_return_request_def that by (auto simp: abind_eq_Inr hres_Inr dest: stop)
  show "reject_return_request he io auth rreq s \<noteq> (Inr b, u)" if "rj_return_id rreq = i"
    unfolding reject_return_request_def that by (auto simp: abind_eq_Inr hres_Inr dest: stop)
  have stop2: False if "hdb (check_user_rate_limit he io user ac n w) s = (Inr (), v)" "read_return he i v = (Inr doc, z)" for user ac n w v doc z
    using that assms keeps_returns [OF keeps_limit] read_return_missing [of i v] by metis
  show "escalate_return_request he io rt auth ereq s \<noteq> (Inr c, u)" if "es_return_id ereq = i"
    unfolding escalate_return_request_def that by (auto simp: Let_def abind_eq_Inr hres_Inr dest: stop2 split: if_splits)
qed

lemma create_return_row:
  assumes "create_return_request he io si rt auth req s = (Inr i, s')"
  shows "i = io_uuid io 1 \<and> (\<exists>row. d_id row = io_uuid io 2 \<and> returns s' = returns s @ [row])"
proof -
  obtain user u order item v w doc where run: "hdb (check_user_rate_limit he io user ''create_return_request'' 3 60) s = (Inr (), u)"
    "read_order he (nr_order_id req) u = (Inr order, v)" "no_open_return he req user v = (Inr (), w)"
    and stored: "hdb (amap_err (db_failed ''Failed to create return request: '') (create_document (he_pg he) (io_uuid io 2) (io_db_now io 1) RETURN_REQUESTS
      (return_document io req user item (clean_reason he (nr_return_reason req))))) w = (Inr doc, s')" and i: "i = io_uuid io 1"
    using assms unfolding create_return_request_def by (auto simp: Let_def abind_eq_Inr hres_Inr split: if_splits)
  from stored obtain x where create: "create_document (he_pg he) (io_uuid io 2) (io_db_now io 1) RETURN_REQUESTS
      (return_document io req user item (clean_reason he (nr_return_reason req))) (hs_db w) = (Inr doc, x)" "s' = w\<lparr>hs_db := x\<rparr>"
    by (auto simp: hdb_eq amap_err_eq)
  have "returns w = returns s"
    using keeps_returns [OF keeps_limit run(1)] keeps_returns [OF keeps_read_order run(2)] keeps_returns [OF keeps_no_open run(3)] by simp
  moreover have "jget_str ''id'' (return_document io req user item r) = None" for r
    by (simp add: return_document_def jget_str_def)
  ultimately show ?thesis using create_document_cases [OF create(1)] create(2) i by auto
qed

text \<open>
  A buyer cannot use the id of the return that was just created: the id in the answer is a member of the
  document, which is stored under another one, so that approving, rejecting and escalating by this id fail
  and leave every request as it is.
\<close>

theorem new_return_not_found:
  assumes "create_return_request he io si rt auth creq s = (Inr i, s')"
    and "io_uuid io 1 \<noteq> io_uuid io 2" "bare_id RETURN_REQUESTS i = i" "doc_of i (returns s) = None"
    and "ar_return_id areq = i" "rj_return_id rreq = i" "es_return_id ereq = i"
  shows "\<not> is_ok (fst (approve_return_request he io' si auth' areq s')) \<and> \<not> is_ok (fst (reject_return_request he io' auth' rreq s')) \<and>
    \<not> is_ok (fst (escalate_return_request he io' rt auth' ereq s'))"
proof -
  have "doc_of (bare_id RETURN_REQUESTS i) (returns s') = None"
    using create_return_row [OF assms(1)] assms(2-4) by (auto simp: doc_of_append)
  from missing_return [OF this] assms(5-7) show ?thesis
    by (auto simp: is_ok_def split: sum.split) (metis prod.collapse)+
qed

subsection \<open>Examples\<close>

definition return_row :: "string \<Rightarrow> doc_row" where
  "return_row st = \<lparr>d_id = ''r1'', d_data = JObject [(''buyerId'', JString ''u1''), (''orderId'', JString ''o1''), (''productId'', JString ''p1''),
     (''returnStatus'', JString st), (''sellerId'', JString ''v1'')], d_created_at = 1, d_updated_at = 1\<rparr>"

definition return_store :: "string \<Rightarrow> json \<Rightarrow> h_state" where
  "return_store st order = \<lparr>hs_db = \<lparr>tables = (\<lambda>_. [])(RETURN_REQUESTS := [return_row st],
     ''orders'' := [\<lparr>d_id = ''o1'', d_data = order, d_created_at = 1, d_updated_at = 1\<rparr>]), pg_faults = []\<rparr>, hs_outbox = []\<rparr>"

definition receive_req :: ApproveReturnReq where
  "receive_req = \<lparr>ar_return_id = ''r1'', ar_user_id = ''v1'', ar_action = ''mark_received'', ar_return_tracking_number = None,
     ar_return_admin_note = None\<rparr>"

definition ask_req :: CreateReturnRequest where
  "ask_req = \<lparr>nr_order_id = ''o1'', nr_product_id = ''p1'', nr_user_id = ''u1'', nr_return_reason = ''broken''\<rparr>"

definition sample_rt :: return_io where
  "sample_rt = \<lparr>rt_trim = id, rt_upper = id, rt_fcm = False, rt_push = (\<lambda>_. False)\<rparr>"

abbreviation test_io :: h_io where
  "test_io \<equiv> sample_io\<lparr>io_test_mode := True\<rparr>"

definition delivered_order :: json where
  "delivered_order = JObject [(''items'', JArray [JObject [(''productId'', JString ''p1''), (''sellerId'', JString ''v1''),
     (''status'', JString ''delivered'')]]), (''userId'', JString ''u1'')]"

definition small_order :: json where
  "small_order = JObject [(''items'', JArray [paid_item ''p1'' 4]), (''paymentIntentId'', JString ''pi_1''), (''subtotalCents'', JNumber (PosInt 4))]"

definition silent_si :: stripe_io where
  "silent_si = sample_si\<lparr>si_refund := Timeout\<rparr>"

lemma ask_creates:
  "is_ok (fst (create_return_request sample_he test_io sample_si sample_rt (sample_auth ''u1'') ask_req (return_store ''rejected'' delivered_order)))"
  by code_simp

lemma return_store_rows:
  "pg_calm RETURN_REQUESTS (hs_db (return_store st order))" "pg_calm ''orders'' (hs_db (return_store st order))" "pg_calm ''users'' (hs_db (return_store st order))"
  "returns (return_store st order) = [return_row st]"
  "tbl (return_store st order) ''orders'' = [\<lparr>d_id = ''o1'', d_data = order, d_created_at = 1, d_updated_at = 1\<rparr>]"
  "tbl (return_store st order) ''users'' = []" "hs_outbox (return_store st order) = []"
  by (simp_all add: return_store_def RETURN_REQUESTS_def) (simp_all add: pg_calm_def, code_simp+)

lemma receive_calls:
  "hs_outbox (snd (approve_return_request sample_he test_io silent_si (sample_auth ''v1'') receive_req (return_store ''approved'' small_order))) \<noteq> []"
proof -
  let ?s = "return_store ''approved'' small_order"
  let ?doc = "inject_document_metadata (he_pg sample_he) (return_row ''approved'')"
  let ?order = "inject_document_metadata (he_pg sample_he) \<lparr>d_id = ''o1'', d_data = small_order, d_created_at = 1, d_updated_at = 1\<rparr>"
  have admin: "is_user_admin sample_he ''v1'' ?s = (Inr False, ?s)"
    by (simp add: is_user_admin_def abind_def hdb_def atry_def get_document_calm return_store_rows doc_of_def)
  have bare: "bare_id RETURN_REQUESTS ''r1'' = ''r1''" "bare_id ''orders'' ''o1'' = ''o1''"
    by (simp_all add: bare_id_def strip_prefix_def starts_with_def RETURN_REQUESTS_def)
  have read: "read_return sample_he ''r1'' ?s = (Inr ?doc, ?s)" "read_order sample_he ''o1'' ?s = (Inr ?order, ?s)"
    by (simp_all add: read_return_def read_order_def hdb_def amap_err_def get_document_calm return_store_rows bare doc_of_def return_row_def)
  have doc: "str_field ?doc ''sellerId'' = ''v1''" "str_field ?doc ''returnStatus'' = ''approved''" "str_field ?doc ''orderId'' = ''o1''" "str_field ?doc ''productId'' = ''p1''"
    by (simp_all add: str_field_inject) (simp_all add: return_row_def str_field_def jget_str_def jget_def)
  have order: "items_array ?order = [paid_item ''p1'' 4]" "str_field ?order ''paymentIntentId'' = ''pi_1''"
    by (simp_all add: items_inject str_field_inject) (simp_all add: small_order_def items_array_def str_field_def jget_array_def jget_str_def jget_def)
  have "i64_field ?order ''subtotalCents'' = 4"
    by (simp add: i64_field_def jget_i64_def jget_inject) (simp add: small_order_def jget_def)
  then obtain amount where amount: "calculate_refund_amount_cents ?order (paid_item ''p1'' 4) = Inr amount"
    by (simp add: calculate_refund_amount_cents_def Let_def)
  have idx: "find_item_index [paid_item ''p1'' 4] ''p1'' = Some 0"
    by code_simp
  have user: "resolve_self_user_id (sample_auth ''v1'') (Some ''v1'') ''userId'' = Inr ''v1''"
    by code_simp
  have "hs_outbox (snd (mark_received sample_he test_io silent_si ''v1'' ''r1'' ?doc ?s)) \<noteq> []"
    by (simp add: mark_received_def Let_def ok_or_def abind_def hres_def read doc order amount idx refund_return_def stripe_refund_def notify_def silent_si_def sample_si_def)
  then show ?thesis
    by (auto simp: approve_return_request_def receive_req_def abind_def hres_def validate_uid_def user hdb_def check_user_rate_limit_def
        admin read doc return_action_def Let_def valid_return_transitions_def split: prod.split sum.split)
qed

theorem returns_move_forward_witness:
  "\<exists>r'. doc_of ''r1'' (returns (snd (approve_return_request sample_he test_io silent_si (sample_auth ''v1'') receive_req
      (return_store ''refunded'' small_order)))) = Some r' \<and> return_status r' = ''refunded''"
proof -
  let ?s = "return_store ''refunded'' small_order"
  have step: "(return_step sample_he)\<^sup>*\<^sup>* ?s (snd (approve_return_request sample_he test_io silent_si (sample_auth ''v1'') receive_req ?s))"
    by (intro r_into_rtranclp step_approve [OF prod.collapse [symmetric]])
  have row: "doc_of ''r1'' (returns ?s) = Some (return_row ''refunded'')" "distinct (map d_id (returns ?s))" "return_status (return_row ''refunded'') = ''refunded''"
    by (simp_all add: return_store_rows doc_of_def return_row_def return_status_def str_field_def jget_str_def jget_def)
  show ?thesis using returns_move_forward [OF sample_keeps_strings row(2) step row(1)] row(3) by auto
qed

theorem returns_stay_typed_witness:
  "\<exists>r'. doc_of ''r1'' (returns (snd (approve_return_request sample_he test_io silent_si (sample_auth ''v1'') receive_req
      (return_store ''approved'' small_order)))) = Some r' \<and> return_typed r' \<and> same_identity (return_row ''approved'') r'"
proof -
  let ?s = "return_store ''approved'' small_order"
  have step: "(return_step sample_he)\<^sup>*\<^sup>* ?s (snd (approve_return_request sample_he test_io silent_si (sample_auth ''v1'') receive_req ?s))"
    by (intro r_into_rtranclp step_approve [OF prod.collapse [symmetric]])
  have rows: "doc_of i (returns ?s) = (if i = ''r1'' then Some (return_row ''approved'') else None)" "distinct (map d_id (returns ?s))" for i
    by (simp_all add: return_store_rows doc_of_def return_row_def)
  have typed: "return_typed (return_row ''approved'')"
    by (simp add: return_typed_def return_row_def return_status_def identity_fields_def str_field_def jget_str_def jget_def)
  have all: "\<forall>i r. doc_of i (returns ?s) = Some r \<longrightarrow> return_typed r" unfolding rows(1) using typed by simp
  have row: "doc_of ''r1'' (returns ?s) = Some (return_row ''approved'')" unfolding rows(1) by simp
  show ?thesis using returns_stay_typed [OF sample_keeps_strings rows(2) step all] row by blast
qed

theorem return_refunds_entitled_witness:
  "\<exists>c. hs_outbox (snd (approve_return_request sample_he test_io silent_si (sample_auth ''v1'') receive_req (return_store ''approved'' small_order))) = [c] \<and>
    returned_refund (return_store ''approved'' small_order) ''r1'' (d_data (return_row ''approved'')) c"
proof -
  have "doc_of (bare_id RETURN_REQUESTS ''r1'') (returns (return_store ''approved'' small_order)) = Some (return_row ''approved'')"
    unfolding return_store_rows by (simp add: doc_of_def return_row_def bare_id_def strip_prefix_def starts_with_def RETURN_REQUESTS_def)
  then show ?thesis
    using return_refunds_entitled [OF prod.collapse [symmetric], THEN conjunct1, of sample_he test_io silent_si "sample_auth ''v1''" receive_req
        "return_store ''approved'' small_order"] receive_calls
    by (auto simp: return_store_rows receive_req_def)
qed

theorem new_return_not_found_witness:
  "\<not> is_ok (fst (approve_return_request sample_he test_io sample_si (sample_auth ''v1'') (receive_req\<lparr>ar_return_id := nat_to_string 1\<rparr>)
     (snd (create_return_request sample_he test_io sample_si sample_rt (sample_auth ''u1'') ask_req (return_store ''rejected'' delivered_order)))))"
proof -
  let ?run = "create_return_request sample_he test_io sample_si sample_rt (sample_auth ''u1'') ask_req (return_store ''rejected'' delivered_order)"
  obtain i where run: "?run = (Inr i, snd ?run)" using ask_creates by (cases ?run) (auto simp: is_ok_def split: sum.splits)
  have i: "i = nat_to_string 1" using create_return_row [OF run] by (simp add: sample_io_def)
  have ids: "io_uuid test_io 1 \<noteq> io_uuid test_io 2" "bare_id RETURN_REQUESTS i = i" "doc_of i (returns (return_store ''rejected'' delivered_order)) = None"
    unfolding i return_store_rows return_row_def sample_io_def by code_simp+
  show ?thesis
    using new_return_not_found [OF run ids, of "receive_req\<lparr>ar_return_id := i\<rparr>" "\<lparr>rj_return_id = i, rj_user_id = [], rj_reason = None\<rparr>"
      "\<lparr>es_return_id = i, es_user_id = [], es_escalation_reason = []\<rparr>" test_io "sample_auth ''v1''"] i by simp
qed

end
