(* ===== verification/Spec2Isabelle.thy ===== *)
theory Spec2Isabelle
  imports Rules_Evaluator Query_Translator Task_Queue Realtime_Websocket Graphql_Mutations Auth_Rotation
    Rate_Limiter Refund_Safety Storage_Roundtrip Checkout_Retry Webhook_Stock Subscription_Safety Return_Safety
begin

text \<open>
  OrignaBase is a backend platform written in Rust (\<open>src/crates\<close>): a document database with
  security rules behind a GraphQL API, realtime subscriptions, a task queue, authentication,
  file storage, functions and a set of commerce handlers. This development models the parts that
  decide something and proves what they promise to the others.

  \<^bold>\<open>Shared.\<close> \<open>OB_Prelude\<close> holds results, stateful actions with errors (\<open>action\<close>, \<open>abind\<close>), strings,
  decimal numbers and 64-bit wrap-around; \<open>F64\<close> doubles with round-half-even; \<open>Json_Value\<close> the values of
  \<open>serde_json\<close>. \<open>Core_Error\<close> and \<open>Core_Validate\<close> are \<open>ob-core\<close>: the error type with its redacting HTTP
  rendering, and the validators and SQL escaping every query relies on.

  \<^bold>\<open>Rules.\<close> \<open>Rules_Parser\<close> turns the parse tree of \<open>rules.pest\<close> into rule sets (\<open>ob-security/src/parser.rs\<close>; the
  generated recogniser is a parameter) and \<open>Rules_Evaluator\<close> decides requests (\<open>evaluator.rs\<close>): totality of
  the parser on every tree of the grammar, agreement of the evaluator with the meaning of the
  expressions, denial of anonymous requests.

  \<^bold>\<open>Database.\<close> \<open>Query_Translator\<close> (\<open>ob-database/src/query.rs\<close>) builds statements: the shape of a statement
  does not depend on strings without a quote, nor on any string where the server reads backslash
  escapes; under its default a quote ends the literal, as a theorem shows. \<open>Pg_Store\<close> (\<open>pg_store.rs\<close>) is the document store: tables are
  lists of rows, every statement consumes one entry of a schedule of faults, and a failed statement
  changes nothing; the locale \<open>document_store\<close> states the contract of reads and writes and is
  interpreted on its operations. \<open>Task_Queue\<close> (\<open>task_queue.rs\<close>) has the statements of the queue and their
  interleavings: a claimed task is claimed again only after it was given up, and the oldest due task
  is claimed, whatever its priority.

  \<^bold>\<open>Realtime.\<close> \<open>Realtime_Registry\<close>, \<open>Realtime_Dispatcher\<close> and \<open>Realtime_Websocket\<close> (\<open>ob-realtime\<close>): the two-level
  index refines a map of subscriptions, events are delivered exactly to the eligible channels, and over
  all runs of sessions private events reach only their owners, counters never exceed the connections,
  and they are exact unless an opening overlaps the removal of a counter.

  \<^bold>\<open>GraphQL.\<close> \<open>Graphql_Resolvers\<close> and \<open>Graphql_Mutations\<close> (\<open>ob-graphql/src/resolvers.rs\<close>) compose the rules,
  the translator, the store and the change events: what queries return is readable by the caller,
  what mutations change is allowed to the caller, under any database faults, and every change is
  reported. The loop of \<open>list\<close> is a partial function whose value is \<open>None\<close> when it does not return; on the
  store it is proved to return.

  \<^bold>\<open>Authentication.\<close> \<open>Auth_Tokens\<close> (\<open>ob-auth/src/jwt.rs\<close>, \<open>middleware.rs\<close>, \<open>revocation.rs\<close> and the \<open>refresh\<close> and
  \<open>logout\<close> handlers of \<open>routes.rs\<close>) and \<open>Auth_Rotation\<close>, where any number of refreshes, logouts, cleanups and
  other writers interleave: a refresh token is rotated at most once per lifetime.

  \<^bold>\<open>Commerce handlers.\<close> \<open>Handlers_Shared\<close> (\<open>ob-handlers/src/shared\<close>) has the validators, identity checks, order
  states and the rate limiter; \<open>Order_Status\<close> (\<open>orders/status.rs\<close>) the three order handlers, each split into the
  plan made from what it read and the write, \<open>Order_Safety\<close> who can change an order and what
  overlapping requests do, and \<open>Rate_Limiter\<close> the contract of the limiter as the locale
  \<open>sliding_window\<close>, interpreted on the implementation. \<open>Order_Refunds\<close> (\<open>orders/refunds.rs\<close>) has refunds and
  cancellations; \<open>Refund_Safety\<close> bounds the amounts, proves that reservations stay within the total over
  the interleavings in which its unguarded writes meet nothing new (and exceed it in others), and says for whom the payment provider is called.

  \<^bold>\<open>Checkout.\<close> \<open>Db_Transaction\<close> (\<open>ob-database/src/transaction.rs\<close>) has transactions: all statements or none.
  \<open>Checkout\<close> (\<open>payments/checkout.rs\<close>) validates a cart, prices it from the store, applies a coupon, opens a session
  at the payment provider and writes the order with the decrements of the stock. \<open>Checkout_Amounts\<close> has tax, coupons and the
  amounts sent to the provider, \<open>Checkout_Safety\<close> what a checkout reads and writes, \<open>Checkout_Stock\<close> the stock under
  requests that overlap, \<open>Checkout_Progress\<close> when a checkout is accepted (and that it oversells), and \<open>Checkout_Retry\<close> that
  it charges what it stores and that a retry is not charged again.

  \<^bold>\<open>Webhooks.\<close> \<open>Webhooks\<close> and \<open>Webhook_Handlers\<close> (\<open>payments/webhooks.rs\<close>) have the signature check, the record of events, the
  helpers and the handler of every event. \<open>Webhook_Frames\<close> says which tables the steps leave alone,
  \<open>Webhook_Safety\<close> and \<open>Webhook_Events\<close> that unsigned requests change nothing, that an event is taken up once and how orders
  move; \<open>Webhook_Progress\<close> what a completed session does (and what a successful payment intent does not), \<open>Webhook_Stock\<close> that
  an expired session returns the stock.

  \<^bold>\<open>Subscriptions and returns.\<close> \<open>Subscriptions\<close> (\<open>payments/subscriptions.rs\<close>) has premium subscriptions, and \<open>Subscription_Safety\<close> the
  calls and rows its endpoints can touch, by the locale \<open>call_frame\<close>. \<open>Returns\<close> (\<open>orders/returns.rs\<close>) has the requests to return items;
  \<open>Return_Safety\<close> shows along which moves they change and that they stay typed, for whom items are refunded, and that the id a
  buyer is given finds nothing.

  \<^bold>\<open>Storage.\<close> \<open>Storage_Local\<close> (\<open>ob-storage/src/local.rs\<close>) models a disk of files, directories and symbolic links
  with failing calls and appends that are still pending on return, path resolution (at most 40 links, the limit of the kernel) and the local backend;
  \<open>Storage_Resumable\<close> (\<open>resumable.rs\<close>) the upload sessions, \<open>Storage_Transform\<close> (\<open>transform.rs\<close>) image dimensions and
  \<open>Storage_Routes\<close> (\<open>signed_url.rs\<close>, \<open>routes.rs\<close>) signed URLs and the handlers. \<open>Storage_Effects\<close> confines every
  operation to the path it names; \<open>Storage_Safety\<close> shows who can change which file, what the check of the resolved path
  keeps out and lets through when there are links, and that sessions keep
  their limits; \<open>Storage_Roundtrip\<close> that files arrive whole, and where cancellations, overlapping
  chunks and pending appends break the promises of the code.

  \<^bold>\<open>Parameters.\<close> Code outside the repository is an argument: the pest recogniser, the decimal form of floats,
  conversions of PostgreSQL and chrono (\<open>pg_env\<close>), the payment provider (\<open>stripe_io\<close>, \<open>ck_io\<close>, \<open>wh_io\<close>, \<open>sub_io\<close>), push messages (\<open>return_io\<close>), JSON decoding, token signing and hashing (\<open>auth_lib\<close>),
  message authentication, base64, file type detection and image processing (\<open>storage_lib\<close>, \<open>image_lib\<close>).
  What a theorem needs of them is a named predicate in its hypotheses, and its witness instantiates
  them by concrete functions. Clock readings and fresh identifiers are inputs.

  \<^bold>\<open>Bounds.\<close> Integers are kept at their width where they can leave it: counters and times wrap
  explicitly (\<open>wrap_i64\<close>) or are bounded by hypotheses far above real times (clocks below \<open>2^62\<close>).

  \<^bold>\<open>Not modelled.\<close> The server binary and its configuration, the HTTP and socket frameworks, external
  services (mail, push, search, payment providers), generated bindings and the client SDKs; of the
  modelled crates, what the component list marks as partly modelled.

  \<^bold>\<open>Left.\<close> The rest of authentication (key rotation, TOTP, lockout), scheduled functions and triggers, and of the
  commerce handlers the catalogue, shipping, payouts and accounts.
\<close>

end
